(* ===== verification/Wms_Prelude.thy ===== *)
theory Wms_Prelude
  imports Main "HOL-Library.Char_ord"
begin

text \<open>
  Shared material of the development: the rule collections, characters and
  character classes, numerals as the iostream library prints and reads them
  (fixed width, zero padded, decimal or hexadecimal), and overwriting a range
  of a byte sequence in place, which is what every file write of the modelled
  programs does.
\<close>

named_theorems splice_simps \<open>reading a byte range after a write\<close>
named_theorems codec_simps \<open>text codecs: what parsing gives on printed text\<close>

section \<open>Characters\<close>

abbreviation newline :: char where
  "newline \<equiv> CHR 0x0A"

definition isspace_c :: "char \<Rightarrow> bool" where
  "isspace_c c \<longleftrightarrow> c \<in> {CHR '' '', CHR 0x09, CHR 0x0A, CHR 0x0B, CHR 0x0C, CHR 0x0D}"

definition isdigit_c :: "char \<Rightarrow> bool" where
  "isdigit_c c \<longleftrightarrow> 48 \<le> (of_char c :: nat) \<and> (of_char c :: nat) \<le> 57"

definition digit_char :: "nat \<Rightarrow> char" where
  "digit_char d = (if d < 10 then char_of (48 + d) else char_of (87 + d))"

definition char_digit :: "char \<Rightarrow> nat option" where
  "char_digit c = (let n = (of_char c :: nat) in
     if 48 \<le> n \<and> n \<le> 57 then Some (n - 48)
     else if 97 \<le> n \<and> n \<le> 102 then Some (n - 87)
     else if 65 \<le> n \<and> n \<le> 70 then Some (n - 55)
     else None)"

definition is_base_digit :: "nat \<Rightarrow> char \<Rightarrow> bool" where
  "is_base_digit b c \<longleftrightarrow> (case char_digit c of None \<Rightarrow> False | Some d \<Rightarrow> d < b)"

lemma char_digit_digit_char [simp]: "d < 16 \<Longrightarrow> char_digit (digit_char d) = Some d"
  by (auto simp: char_digit_def digit_char_def Let_def)

lemma is_base_digit_digit_char [simp]:
  "d < b \<Longrightarrow> b \<le> 16 \<Longrightarrow> is_base_digit b (digit_char d)"
  by (simp add: is_base_digit_def)

lemma is_base_digit_zero [simp]: "0 < b \<Longrightarrow> is_base_digit b CHR ''0''"
  by (simp add: is_base_digit_def char_digit_def)

lemma char_digit_zero [simp]: "char_digit CHR ''0'' = Some 0"
  by (simp add: char_digit_def)

lemma not_base_digit_space [simp]: "\<not> is_base_digit b CHR '' ''" "\<not> is_base_digit b newline"
  by (simp_all add: is_base_digit_def char_digit_def)

lemma isspace_not_digit: "isspace_c c \<Longrightarrow> \<not> is_base_digit b c"
  by (auto simp: isspace_c_def is_base_digit_def char_digit_def)

lemma isspace_simps [simp]: "isspace_c CHR '' ''" "isspace_c newline"
  by (simp_all add: isspace_c_def)

section \<open>Numerals\<close>

text \<open>\<open>ostream << hex\<close> or \<open>dec\<close> with \<open>setfill('0') << setw(w)\<close>: the digits of the
  number, most significant first, padded with zeros up to the width and longer
  than it when they do not fit.\<close>

fun digits :: "nat \<Rightarrow> nat \<Rightarrow> string" where
  "digits b n = (if b < 2 \<or> n < b then [digit_char n] else digits b (n div b) @ [digit_char (n mod b)])"

declare digits.simps [simp del]

definition padded :: "nat \<Rightarrow> nat \<Rightarrow> nat \<Rightarrow> string" where
  "padded b w n = (let s = digits b n in replicate (w - length s) CHR ''0'' @ s)"

definition digits_value :: "nat \<Rightarrow> string \<Rightarrow> nat" where
  "digits_value b s = foldl (\<lambda>v c. b * v + (case char_digit c of None \<Rightarrow> 0 | Some d \<Rightarrow> d)) 0 s"

lemma digits_nonempty [simp]: "digits b n \<noteq> []"
  by (subst digits.simps) simp

lemma padded_nonempty [simp]: "padded b w n \<noteq> []"
  by (simp add: padded_def Let_def)

lemma digits_all:
  assumes "2 \<le> b" "b \<le> 16"
  shows "list_all (is_base_digit b) (digits b n)"
  using assms
proof (induction b n rule: digits.induct)
  case (1 b n)
  show ?case
  proof (cases "n < b")
    case True
    with 1 show ?thesis by (subst digits.simps) simp
  next
    case False
    with 1 have "list_all (is_base_digit b) (digits b (n div b))" by simp
    with 1 False show ?thesis by (subst digits.simps) simp
  qed
qed

lemma padded_all:
  "2 \<le> b \<Longrightarrow> b \<le> 16 \<Longrightarrow> list_all (is_base_digit b) (padded b w n)"
  using digits_all [of b n] by (auto simp: padded_def Let_def list_all_iff)

lemma length_digits_le:
  assumes "2 \<le> b"
  shows "n < b ^ w \<Longrightarrow> 0 < w \<Longrightarrow> length (digits b n) \<le> w"
proof (induction w arbitrary: n)
  case 0
  then show ?case by simp
next
  case (Suc w)
  show ?case
  proof (cases "n < b")
    case True
    then show ?thesis by (subst digits.simps) simp
  next
    case False
    with assms Suc.prems have "w \<noteq> 0" by (cases w) auto
    moreover from Suc.prems have "n div b < b ^ w"
      by (simp add: less_mult_imp_div_less mult.commute)
    ultimately have "length (digits b (n div b)) \<le> w"
      using Suc.IH by simp
    with False assms show ?thesis by (subst digits.simps) simp
  qed
qed

lemma length_padded [codec_simps]:
  "2 \<le> b \<Longrightarrow> n < b ^ w \<Longrightarrow> 0 < w \<Longrightarrow> length (padded b w n) = w"
  using length_digits_le [of b n w] by (simp add: padded_def Let_def)

lemma digits_value_append1:
  "digits_value b (s @ [c]) = b * digits_value b s + (case char_digit c of None \<Rightarrow> 0 | Some d \<Rightarrow> d)"
  by (simp add: digits_value_def)

lemma digits_value_zeros: "digits_value b (replicate k CHR ''0'' @ s) = digits_value b s"
proof -
  have "foldl (\<lambda>v c. b * v + (case char_digit c of None \<Rightarrow> 0 | Some d \<Rightarrow> d)) 0 (replicate k CHR ''0'') = 0"
    by (induction k) simp_all
  then show ?thesis by (simp add: digits_value_def)
qed

lemma digits_value_digits:
  assumes "2 \<le> b" "b \<le> 16"
  shows "digits_value b (digits b n) = n"
  using assms
proof (induction b n rule: digits.induct)
  case (1 b n)
  show ?case
  proof (cases "n < b")
    case True
    with 1 show ?thesis by (subst digits.simps) (simp add: digits_value_def)
  next
    case False
    with 1 have "n mod b < 16" by (meson mod_less_divisor order_less_le_trans zero_less_numeral order.strict_trans2)
    with 1 False show ?thesis
      by (subst digits.simps) (simp add: digits_value_append1)
  qed
qed

lemma digits_value_padded [codec_simps]:
  "2 \<le> b \<Longrightarrow> b \<le> 16 \<Longrightarrow> digits_value b (padded b w n) = n"
  by (simp add: padded_def Let_def digits_value_zeros digits_value_digits)

section \<open>Byte ranges\<close>

text \<open>\<open>overwrite p s f\<close> is the file \<open>f\<close> after writing \<open>s\<close> at offset \<open>p\<close>: a write
  beyond the end leaves a hole of zero bytes, as POSIX says. \<open>holds_at p s f\<close>: the
  bytes at offset \<open>p\<close> of \<open>f\<close> are \<open>s\<close>.\<close>

definition overwrite :: "nat \<Rightarrow> string \<Rightarrow> string \<Rightarrow> string" where
  "overwrite p s f = take p f @ replicate (p - length f) (CHR 0x00) @ s @ drop (p + length s) f"

definition holds_at :: "nat \<Rightarrow> string \<Rightarrow> string \<Rightarrow> bool" where
  "holds_at p s f \<longleftrightarrow> take (length s) (drop p f) = s"

lemma length_overwrite [splice_simps]:
  "p \<le> length f \<Longrightarrow> length (overwrite p s f) = max (length f) (p + length s)"
  by (simp add: overwrite_def)

lemma length_overwrite_inside [splice_simps]:
  "p + length s \<le> length f \<Longrightarrow> length (overwrite p s f) = length f"
  by (simp add: overwrite_def)

lemma take_overwrite [splice_simps]:
  "n \<le> p \<Longrightarrow> p \<le> length f \<Longrightarrow> take n (overwrite p s f) = take n f"
  by (simp add: overwrite_def)

lemma drop_overwrite:
  "p + length s \<le> q \<Longrightarrow> p \<le> length f \<Longrightarrow> drop q (overwrite p s f) = drop q f"
  by (simp add: overwrite_def)

lemma overwrite_append:
  "p \<le> length f \<Longrightarrow> overwrite p (s @ t) f = overwrite (p + length s) t (overwrite p s f)"
  by (simp add: overwrite_def ac_simps)

lemma overwrite_overwrite:
  "p \<le> length f \<Longrightarrow> length s = length t \<Longrightarrow> overwrite p s (overwrite p t f) = overwrite p s f"
  by (simp add: overwrite_def)

lemma holds_at_nil [simp]: "holds_at p [] f"
  by (simp add: holds_at_def)

lemma holds_at_bound: "holds_at p s f \<Longrightarrow> s \<noteq> [] \<Longrightarrow> p + length s \<le> length f"
  unfolding holds_at_def
  by (drule arg_cong [where f = length], cases s) (auto simp: min_def split: if_splits)

lemma holds_at_append:
  "holds_at p (s @ t) f \<longleftrightarrow> holds_at p s f \<and> holds_at (p + length s) t f"
proof -
  define X where "X = take (length s) (drop p f)"
  define Y where "Y = take (length t) (drop (p + length s) f)"
  have split: "take (length s + length t) (drop p f) = X @ Y"
    by (simp add: X_def Y_def take_add add.commute)
  have "X @ Y = s @ t \<longleftrightarrow> X = s \<and> Y = t"
  proof (cases "length X = length s")
    case True
    then show ?thesis by simp
  next
    case False
    then have "length X < length s" by (simp add: X_def)
    moreover from this have "Y = []" by (simp add: X_def Y_def)
    ultimately show ?thesis by (auto dest: arg_cong [where f = length])
  qed
  with split show ?thesis by (simp add: holds_at_def X_def Y_def)
qed

lemma holds_at_Cons: "holds_at p (c # s) f \<longleftrightarrow> holds_at p [c] f \<and> holds_at (Suc p) s f"
  using holds_at_append [of p "[c]" s f] by simp

lemmas holds_at_split = holds_at_append
  holds_at_Cons [of _ _ "xs @ ys" for xs ys] holds_at_Cons [of _ _ "x # xs" for x xs]
  holds_at_Cons [of _ _ "padded b w n" for b w n]

lemma holds_at_overwrite_same [splice_simps]:
  "p \<le> length f \<Longrightarrow> holds_at p s (overwrite p s f)"
  by (simp add: holds_at_def overwrite_def)

lemma holds_at_overwrite_before:
  assumes "p + length s \<le> q" "q \<le> length f"
  shows "holds_at p s (overwrite q t f) = holds_at p s f"
proof -
  have "take (length s) (drop p (overwrite q t f)) = take (length s) (drop p (take (p + length s) (overwrite q t f)))"
    by (simp add: drop_take)
  also have "take (p + length s) (overwrite q t f) = take (p + length s) f"
    using assms by (simp add: take_overwrite)
  also have "take (length s) (drop p (take (p + length s) f)) = take (length s) (drop p f)"
    by (simp add: drop_take)
  finally show ?thesis by (simp add: holds_at_def)
qed

lemma holds_at_overwrite_after:
  "q + length t \<le> p \<Longrightarrow> q \<le> length f \<Longrightarrow> holds_at p s (overwrite q t f) = holds_at p s f"
  by (simp add: holds_at_def drop_overwrite)

lemma holds_at_overwrite_disjoint [splice_simps]:
  "p + length s \<le> q \<or> q + length t \<le> p \<Longrightarrow> q \<le> length f \<Longrightarrow>
    holds_at p s (overwrite q t f) = holds_at p s f"
  using holds_at_overwrite_before holds_at_overwrite_after by blast

lemma holds_at_take [splice_simps]:
  "p + length s \<le> n \<Longrightarrow> holds_at p s (take n f) = holds_at p s f"
  by (simp add: holds_at_def drop_take min_def)

lemma holds_at_drop: "holds_at p s f \<Longrightarrow> \<exists>rest. drop p f = s @ rest"
  unfolding holds_at_def by (metis append_take_drop_id)

lemma holds_at_dropI: "drop p f = s @ rest \<Longrightarrow> holds_at p s f"
  by (simp add: holds_at_def)

end
