(* ===== verification/Fstream.thy ===== *)
theory Fstream
  imports Wms_Prelude
begin

text \<open>
  The part of \<^verbatim>\<open>std::fstream\<close> that the file container uses, as state passing
  over one record: the bytes of the file, the position shared by the get and put
  sides of a \<^verbatim>\<open>basic_filebuf\<close>, the error state, and a budget of physical writes.

  \<^item> \<open>st_fail\<close> stands for failbit or eofbit. With the iostreams the code was
    written for (no seek clears eofbit) every input or output operation needs
    \<open>good()\<close>, so the two bits have the same effect on every later operation.
  \<^item> \<open>st_bad\<close> is badbit: the device refused a write.
  \<^item> \<open>st_budget = Some n\<close>: the device takes \<open>n\<close> more writes and refuses every later
    one, which is also what the file looks like after the process died at that
    point; \<open>None\<close>: writes never fail.
  \<^item> \<open>st_trace\<close> records the contents the file had on disk after each physical write,
    the latest last: a process that dies leaves one of them behind.

  The code ends every group of insertions with \<^verbatim>\<open>endl\<close> or \<^verbatim>\<open>flush\<close>; one such
  group is one physical write.
\<close>

record fstream =
  st_bytes :: string
  st_pos :: nat
  st_fail :: bool
  st_bad :: bool
  st_budget :: "nat option"
  st_trace :: "string list"

definition st_open :: "nat option \<Rightarrow> string \<Rightarrow> fstream" where
  "st_open b f = \<lparr>st_bytes = f, st_pos = 0, st_fail = False, st_bad = False, st_budget = b,
     st_trace = []\<rparr>"

definition st_good :: "fstream \<Rightarrow> bool" where
  "st_good s \<longleftrightarrow> \<not> st_fail s \<and> \<not> st_bad s"

definition st_clear :: "fstream \<Rightarrow> fstream" where
  "st_clear s = s\<lparr>st_fail := False, st_bad := False\<rparr>"

text \<open>\<^verbatim>\<open>tellg\<close> and \<^verbatim>\<open>tellp\<close> give -1 on a failed stream; a seek does nothing on a
  failed stream, and seeking to a negative offset fails.\<close>

definition st_tell :: "fstream \<Rightarrow> int" where
  "st_tell s = (if st_good s then int (st_pos s) else -1)"

definition st_seek :: "int \<Rightarrow> fstream \<Rightarrow> fstream" where
  "st_seek p s = (if \<not> st_good s then s
     else if p < 0 then s\<lparr>st_fail := True\<rparr> else s\<lparr>st_pos := nat p\<rparr>)"

definition st_seek_end :: "fstream \<Rightarrow> fstream" where
  "st_seek_end s = (if st_good s then s\<lparr>st_pos := length (st_bytes s)\<rparr> else s)"

definition st_commit :: "string \<Rightarrow> fstream \<Rightarrow> fstream" where
  "st_commit f s = s\<lparr>st_bytes := f, st_trace := st_trace s @ [f]\<rparr>"

definition st_write :: "string \<Rightarrow> fstream \<Rightarrow> fstream" where
  "st_write str s =
     (let t = (st_commit (overwrite (st_pos s) str (st_bytes s)) s)\<lparr>st_pos := st_pos s + length str\<rparr> in
      if \<not> st_good s then s\<lparr>st_fail := True\<rparr>
      else case st_budget s of
        None \<Rightarrow> t
      | Some n \<Rightarrow> if n = 0 then s\<lparr>st_bad := True\<rparr> else t\<lparr>st_budget := Some (n - 1)\<rparr>)"

text \<open>\<^verbatim>\<open>ftruncate\<close> on the descriptor below the stream: False when the device refuses.\<close>

definition st_ftruncate :: "nat \<Rightarrow> fstream \<Rightarrow> bool \<times> fstream" where
  "st_ftruncate n s =
     (let t = st_commit (take n (st_bytes s) @ replicate (n - length (st_bytes s)) (CHR 0x00)) s in
      case st_budget s of
        None \<Rightarrow> (True, t)
      | Some k \<Rightarrow> if k = 0 then (False, s) else (True, t\<lparr>st_budget := Some (k - 1)\<rparr>))"

definition st_rest :: "fstream \<Rightarrow> string" where
  "st_rest s = drop (st_pos s) (st_bytes s)"

definition st_read :: "nat \<Rightarrow> fstream \<Rightarrow> string \<times> fstream" where
  "st_read n s =
     (if \<not> st_good s then ([], s\<lparr>st_fail := True\<rparr>)
      else let t = take n (st_rest s)
           in (t, s\<lparr>st_pos := st_pos s + length t, st_fail := length t < n\<rparr>))"

definition st_get :: "fstream \<Rightarrow> char option \<times> fstream" where
  "st_get s =
     (if \<not> st_good s then (None, s\<lparr>st_fail := True\<rparr>)
      else case st_rest s of
        [] \<Rightarrow> (None, s\<lparr>st_fail := True\<rparr>)
      | c # _ \<Rightarrow> (Some c, s\<lparr>st_pos := Suc (st_pos s)\<rparr>))"

definition st_getline :: "fstream \<Rightarrow> string \<times> fstream" where
  "st_getline s =
     (if \<not> st_good s then ([], s\<lparr>st_fail := True\<rparr>)
      else let line = takeWhile (\<lambda>c. c \<noteq> newline) (st_rest s)
           in if length line < length (st_rest s)
              then (line, s\<lparr>st_pos := st_pos s + length line + 1\<rparr>)
              else (line, s\<lparr>st_pos := st_pos s + length line, st_fail := True\<rparr>))"

text \<open>Extraction of a number in base \<open>b\<close> into a variable whose largest value is
  \<open>lim\<close>: white space is skipped, the longest run of digits is the number; no digit
  gives zero and failbit, a number that does not fit gives \<open>lim\<close> and failbit, and
  running into the end of the file sets eofbit. The code extracts numbers from
  text it has matched against a pattern of digits, or (the container's size)
  from a field it prints itself, so signs do not occur.\<close>

definition st_extract :: "nat \<Rightarrow> nat \<Rightarrow> fstream \<Rightarrow> nat \<times> fstream" where
  "st_extract b lim s =
     (if \<not> st_good s then (0, s\<lparr>st_fail := True\<rparr>)
      else let ws = takeWhile isspace_c (st_rest s);
               t = dropWhile isspace_c (st_rest s);
               ds = takeWhile (is_base_digit b) t;
               v = digits_value b ds;
               p = st_pos s + length ws + length ds;
               eof = (length ds = length t)
           in if ds = [] then (0, s\<lparr>st_pos := p, st_fail := True\<rparr>)
              else if lim < v then (lim, s\<lparr>st_pos := p, st_fail := True\<rparr>)
              else (v, s\<lparr>st_pos := p, st_fail := eof\<rparr>))"

section \<open>Reading text that is known to be there\<close>

lemma takeWhile_run:
  "list_all P xs \<Longrightarrow> \<not> P c \<Longrightarrow> takeWhile P (xs @ c # ys) = xs"
  by (induction xs) auto

lemma dropWhile_run:
  "list_all P xs \<Longrightarrow> \<not> P c \<Longrightarrow> dropWhile P (xs @ c # ys) = c # ys"
  by (induction xs) auto

lemma st_getline_holds:
  assumes "st_good s" "holds_at (st_pos s) (line @ [newline]) (st_bytes s)" "newline \<notin> set line"
  shows "st_getline s = (line, s\<lparr>st_pos := st_pos s + length line + 1\<rparr>)"
proof -
  from holds_at_drop [OF assms(2)] obtain rest where rest: "st_rest s = line @ newline # rest"
    by (auto simp: st_rest_def)
  from assms(3) have "takeWhile (\<lambda>c. c \<noteq> newline) (st_rest s) = line"
    unfolding rest by (intro takeWhile_run) (auto simp: list_all_iff)
  with assms(1) show ?thesis by (simp add: st_getline_def rest)
qed

lemma st_extract_holds:
  assumes "st_good s" "holds_at (st_pos s) (ws @ ds @ [c]) (st_bytes s)"
    and "list_all isspace_c ws" "list_all (is_base_digit b) ds" "ds \<noteq> []" "\<not> is_base_digit b c"
    and "digits_value b ds \<le> lim"
  shows "st_extract b lim s = (digits_value b ds, s\<lparr>st_pos := st_pos s + length ws + length ds\<rparr>)"
proof -
  from holds_at_drop [OF assms(2)] obtain rest where rest: "st_rest s = ws @ ds @ c # rest"
    by (auto simp: st_rest_def)
  from assms(4,5) obtain d ds' where ds: "ds = d # ds'" and d: "is_base_digit b d"
    by (cases ds) auto
  from d have "\<not> isspace_c d" using isspace_not_digit by blast
  then have "takeWhile isspace_c (st_rest s) = ws" and "dropWhile isspace_c (st_rest s) = ds @ c # rest"
    unfolding rest ds append_Cons using assms(3) by (simp_all add: takeWhile_run dropWhile_run)
  moreover have "takeWhile (is_base_digit b) (ds @ c # rest) = ds"
    using assms(4,6) by (rule takeWhile_run)
  moreover have "\<not> st_fail s" using assms(1) by (simp add: st_good_def)
  ultimately show ?thesis
    using assms(1,5,7) by (simp add: st_extract_def Let_def ds)
qed

lemma st_get_holds:
  assumes "st_good s" "holds_at (st_pos s) [c] (st_bytes s)"
  shows "st_get s = (Some c, s\<lparr>st_pos := Suc (st_pos s)\<rparr>)"
  using assms holds_at_drop [OF assms(2)] by (auto simp: st_get_def st_rest_def)

lemma st_read_holds:
  assumes "st_good s" "holds_at (st_pos s) t (st_bytes s)"
  shows "st_read (length t) s = (t, s\<lparr>st_pos := st_pos s + length t\<rparr>)"
  using assms by (auto simp: st_read_def st_rest_def holds_at_def st_good_def Let_def)

end
