(* ===== verification/File_Container.thy ===== *)
theory File_Container
  imports Fstream
begin

text \<open>
  The persistent list of \<^verbatim>\<open>org.glite.wms.common/src/utilities/filecontainer.cpp\<close>:
  a doubly linked list of strings kept in one file, shared between processes,
  with a header that records the time stamp of the last change, the number of
  elements, a status character with backups of the pointers an operation is
  about to change, and the offsets of the first and last element. This theory
  has the operations of the class \<^verbatim>\<open>FileContainer\<close> in the order of the source, at
  the level of the bytes of the file. Every method of the class that returns
  \<^verbatim>\<open>iostatus_t\<close> is a computation of type \<open>'a fcm\<close>.

  Not modelled: the debug log file and the call stack kept under
  \<^verbatim>\<open>FILELIST_HAS_DEBUG_CODE\<close>, which no other code reads.
\<close>

section \<open>Sizes and positions\<close>

text \<open>\<open>integer_size\<close>: the source rounds \<open>log(2^bits - 1) / log(base)\<close> up, which is the
  least number of digits that holds the largest integer of \<open>size\<close> bytes. The
  sizes below are those of the 64-bit platforms: \<^verbatim>\<open>time_t\<close>, \<^verbatim>\<open>size_t\<close>,
  \<^verbatim>\<open>long long\<close> have 8 bytes, \<^verbatim>\<open>unsigned short\<close> 2.\<close>

definition integer_size :: "nat \<Rightarrow> nat \<Rightarrow> nat" where
  "integer_size sz basen =
     length (takeWhile (\<lambda>k. basen ^ k < 2 ^ (8 * sz) - 1) [0..<8 * sz + 1])"

definition fi_s_width :: nat where
  "fi_s_width = integer_size 8 16"

definition ts_s_twidth :: nat where
  "ts_s_twidth = integer_size 8 10"

definition ts_s_swidth :: nat where
  "ts_s_swidth = integer_size 2 10"

definition TimeStamp_size :: nat where
  "TimeStamp_size = ts_s_swidth + ts_s_twidth + 1"

definition fc_s_iteratorBackupNumber :: nat where
  "fc_s_iteratorBackupNumber = 4"

definition fc_s_stampSize :: nat where
  "fc_s_stampSize = TimeStamp_size + 1"

definition fc_s_sizeSize :: nat where
  "fc_s_sizeSize = integer_size 8 10 + 3"

definition fc_s_numberSize :: nat where
  "fc_s_numberSize = integer_size 8 10 + 1"

definition fc_s_statusPosition :: nat where
  "fc_s_statusPosition = fc_s_stampSize + fc_s_numberSize + 1"

definition fc_s_iteratorBackupSize :: nat where
  "fc_s_iteratorBackupSize =
     ((fc_s_iteratorBackupNumber * 3) * fi_s_width) + (fc_s_iteratorBackupNumber * 3)"

definition fc_s_limitsBackupSize :: nat where
  "fc_s_limitsBackupSize = (2 * fi_s_width) + 2"

definition fc_s_listBackupSize :: nat where
  "fc_s_listBackupSize = fc_s_limitsBackupSize"

definition fc_s_backupSize :: nat where
  "fc_s_backupSize = fc_s_iteratorBackupSize + fc_s_limitsBackupSize + fc_s_listBackupSize + 3"

definition fc_s_headerSize :: nat where
  "fc_s_headerSize = fc_s_stampSize + fc_s_numberSize + fc_s_backupSize + (4 * fi_s_width) + 4"

definition fc_s_positionPosition :: nat where
  "fc_s_positionPosition = fc_s_stampSize + fc_s_numberSize + fc_s_backupSize"

definition fc_s_listPosition :: nat where
  "fc_s_listPosition = fc_s_positionPosition + fc_s_limitsBackupSize"

definition calculateDataSize :: "nat \<Rightarrow> nat \<Rightarrow> int" where
  "calculateDataSize sz sizeSize = int ((4 * fi_s_width) + sizeSize + sz + 8)"

definition un_dead :: int where "un_dead = 0xdead"

definition un_beef :: int where "un_beef = 0xbeef"

section \<open>Iterators, time stamps, status codes\<close>

record FileIterator =
  fi_good :: bool
  fi_prev :: int
  fi_next :: int
  fi_current :: int

definition FileIterator_new :: "int \<Rightarrow> int \<Rightarrow> int \<Rightarrow> FileIterator" where
  "FileIterator_new prev nxt current =
     \<lparr>fi_good = True, fi_prev = prev, fi_next = nxt, fi_current = current\<rparr>"

definition fi_reset :: "int \<Rightarrow> int \<Rightarrow> int \<Rightarrow> FileIterator \<Rightarrow> FileIterator" where
  "fi_reset prev nxt current it = it\<lparr>fi_prev := prev, fi_next := nxt, fi_current := current\<rparr>"

datatype iostatus =
    unknown
  | all_good
  | cannot_open
  | file_closed
  | syntax_error
  | io_error
  | data_error
  | unavailable_position
  | container_modified
  | try_recover
  | unrecoverable_data
  | decrementing_from_zero
  | not_removing_last
  | cannot_convert_from_string
  | cannot_convert_to_string

fun code_to_string :: "iostatus \<Rightarrow> string" where
  "code_to_string unknown = ''Unknown status''"
| "code_to_string all_good = ''OK''"
| "code_to_string cannot_open = ''Cannot open file''"
| "code_to_string file_closed = ''File unavailable for operations''"
| "code_to_string syntax_error = ''Syntax error on file''"
| "code_to_string io_error = ''Input/Output error''"
| "code_to_string data_error = ''Data format error''"
| "code_to_string unavailable_position = ''Position not currently available''"
| "code_to_string container_modified = ''Container modified since last access''"
| "code_to_string try_recover = ''Data recovering in progress''"
| "code_to_string unrecoverable_data = ''File contains unrecoverable data''"
| "code_to_string decrementing_from_zero = ''Trying to decrementing a zero sized file.''"
| "code_to_string not_removing_last = ''Not removing last pointer.''"
| "code_to_string cannot_convert_from_string = ''Cannot convert string to given data type.''"
| "code_to_string cannot_convert_to_string = ''Cannot convert data from string type.''"

text \<open>The status character of the header. \<open>unlisted c\<close>: a character that the
  pattern of \<open>readFileStatus\<close> lets through and the enumeration does not have.\<close>

datatype filestatus =
    fs_empty | opened | closed
  | ae_iterator | ae_limits | ae_writing | ae_written
  | ab_iterator | ab_writing | ab_written | ab_last | ab_limits
  | am_iterator1 | am_iterator2 | am_writing | am_written | am_last
  | rd_limits | rd_iterator | rd_iterator2 | rd_iterator3 | rd_mark1 | rd_mark2
  | ft_begin | ft_end | ad_empty | rd_empty
  | unlisted char

fun status_char :: "filestatus \<Rightarrow> char" where
  "status_char fs_empty = CHR '' ''" | "status_char opened = CHR ''1''"
| "status_char closed = CHR ''0''" | "status_char ae_iterator = CHR ''a''"
| "status_char ae_limits = CHR ''b''" | "status_char ae_writing = CHR ''c''"
| "status_char ae_written = CHR ''d''" | "status_char ab_iterator = CHR ''e''"
| "status_char ab_writing = CHR ''f''" | "status_char ab_written = CHR ''g''"
| "status_char ab_last = CHR ''h''" | "status_char ab_limits = CHR ''i''"
| "status_char am_iterator1 = CHR ''j''" | "status_char am_iterator2 = CHR ''k''"
| "status_char am_writing = CHR ''l''" | "status_char am_written = CHR ''m''"
| "status_char am_last = CHR ''n''" | "status_char rd_limits = CHR ''o''"
| "status_char rd_iterator = CHR ''p''" | "status_char rd_iterator2 = CHR ''q''"
| "status_char rd_iterator3 = CHR ''r''" | "status_char rd_mark1 = CHR ''s''"
| "status_char rd_mark2 = CHR ''t''" | "status_char ft_begin = CHR ''u''"
| "status_char ft_end = CHR ''v''" | "status_char ad_empty = CHR ''w''"
| "status_char rd_empty = CHR ''x''" | "status_char (unlisted c) = c"

definition listed_status :: "filestatus list" where
  "listed_status = [fs_empty, opened, closed, ae_iterator, ae_limits, ae_writing, ae_written,
     ab_iterator, ab_writing, ab_written, ab_last, ab_limits, am_iterator1, am_iterator2,
     am_writing, am_written, am_last, rd_limits, rd_iterator, rd_iterator2, rd_iterator3,
     rd_mark1, rd_mark2, ft_begin, ft_end, ad_empty, rd_empty]"

definition char_status :: "char \<Rightarrow> filestatus" where
  "char_status c = (case find (\<lambda>st. status_char st = c) listed_status of
     Some st \<Rightarrow> st | None \<Rightarrow> unlisted c)"

text \<open>\<open>static_cast<filestatus_t>(static_cast<int>(status) + 1)\<close>.\<close>

definition status_succ :: "filestatus \<Rightarrow> filestatus" where
  "status_succ st = char_status (char_of (Suc (of_char (status_char st) :: nat)))"

record TimeStamp =
  ts_good :: bool
  ts_epoch :: nat
  ts_counter :: nat

definition TimeStamp_new :: "nat \<Rightarrow> TimeStamp" where
  "TimeStamp_new now = \<lparr>ts_good = True, ts_epoch = now, ts_counter = 0\<rparr>"

definition ts_gt :: "TimeStamp \<Rightarrow> TimeStamp \<Rightarrow> bool" where
  "ts_gt a b \<longleftrightarrow> ts_epoch a > ts_epoch b \<or> (ts_epoch a = ts_epoch b \<and> ts_counter a > ts_counter b)"

definition ushort_inc :: "nat \<Rightarrow> nat" where
  "ushort_inc n = (n + 1) mod 2 ^ 16"

definition update_stamp :: "nat \<Rightarrow> TimeStamp \<Rightarrow> TimeStamp \<Rightarrow> TimeStamp" where
  "update_stamp now ts self =
     (let self1 = (if ts_epoch self = now then self\<lparr>ts_counter := ushort_inc (ts_counter self)\<rparr>
                   else self\<lparr>ts_epoch := now, ts_counter := 0\<rparr>)
      in if ts_epoch self1 < ts_epoch ts
         then self1\<lparr>ts_epoch := ts_epoch ts, ts_counter := ushort_inc (ts_counter ts)\<rparr>
         else if ts_epoch self1 = ts_epoch ts \<and> ts_counter self1 \<le> ts_counter ts
         then self1\<lparr>ts_counter := ushort_inc (ts_counter ts)\<rparr>
         else self1)"

section \<open>Text formats\<close>

definition max_streamoff :: nat where "max_streamoff = 2 ^ 63 - 1"

definition max_size_t :: nat where "max_size_t = 2 ^ 64 - 1"

definition max_ushort :: nat where "max_ushort = 2 ^ 16 - 1"

text \<open>\<open>hex\<close> prints a negative \<^verbatim>\<open>streamoff\<close> as its two's complement.\<close>

definition hex_off :: "int \<Rightarrow> string" where
  "hex_off p = padded 16 fi_s_width (nat (p mod 2 ^ 64))"

definition fi_write :: "FileIterator \<Rightarrow> string" where
  "fi_write it = hex_off (fi_prev it) @ '' '' @ hex_off (fi_next it)"

definition ts_write :: "TimeStamp \<Rightarrow> string" where
  "ts_write ts = padded 10 ts_s_twidth (ts_epoch ts) @ '' '' @ padded 10 ts_s_swidth (ts_counter ts)"

text \<open>The pattern \<^verbatim>\<open>\s*[0-9a-fA-F]+ +[0-9a-fA-F]+\<close> over the whole line.\<close>

definition re_iterator :: "string \<Rightarrow> bool" where
  "re_iterator line =
     (let t = dropWhile isspace_c line;
          h = takeWhile (is_base_digit 16) t;
          u = dropWhile (is_base_digit 16) t;
          sp = takeWhile (\<lambda>c. c = CHR '' '') u;
          v = dropWhile (\<lambda>c. c = CHR '' '') u
      in h \<noteq> [] \<and> sp \<noteq> [] \<and> v \<noteq> [] \<and> list_all (is_base_digit 16) v)"

text \<open>The pattern \<^verbatim>\<open>^\d+ +\d+$\<close>.\<close>

definition re_stamp :: "string \<Rightarrow> bool" where
  "re_stamp line =
     (let h = takeWhile (is_base_digit 10) line;
          u = dropWhile (is_base_digit 10) line;
          sp = takeWhile (\<lambda>c. c = CHR '' '') u;
          v = dropWhile (\<lambda>c. c = CHR '' '') u
      in h \<noteq> [] \<and> sp \<noteq> [] \<and> v \<noteq> [] \<and> list_all (is_base_digit 10) v)"

text \<open>The pattern \<^verbatim>\<open>^[0-9a-fA-F]+ [0-9a-fA-F]+ [0-9a-fA-F]+$\<close>.\<close>

definition re_backup :: "string \<Rightarrow> bool" where
  "re_backup line =
     (let a = takeWhile (is_base_digit 16) line; r = dropWhile (is_base_digit 16) line
      in a \<noteq> [] \<and> r \<noteq> [] \<and> hd r = CHR '' '' \<and>
         (let b = takeWhile (is_base_digit 16) (tl r); q = dropWhile (is_base_digit 16) (tl r)
          in b \<noteq> [] \<and> q \<noteq> [] \<and> hd q = CHR '' '' \<and> tl q \<noteq> [] \<and>
             list_all (is_base_digit 16) (tl q)))"

text \<open>The pattern \<^verbatim>\<open>^[0-9]+ +(g|i)$\<close>.\<close>

definition re_size_state :: "string \<Rightarrow> bool" where
  "re_size_state line =
     (let h = takeWhile (is_base_digit 10) line;
          u = dropWhile (is_base_digit 10) line;
          sp = takeWhile (\<lambda>c. c = CHR '' '') u;
          v = dropWhile (\<lambda>c. c = CHR '' '') u
      in h \<noteq> [] \<and> sp \<noteq> [] \<and> (v = ''g'' \<or> v = ''i''))"

text \<open>The pattern \<^verbatim>\<open>^[ 01a-y]\n$\<close>.\<close>

definition re_status :: "string \<Rightarrow> bool" where
  "re_status s \<longleftrightarrow> length s = 2 \<and> s ! 1 = newline \<and>
     (s ! 0 \<in> {CHR '' '', CHR ''0'', CHR ''1''} \<or>
      (97 \<le> (of_char (s ! 0) :: nat) \<and> (of_char (s ! 0) :: nat) \<le> 121))"

text \<open>\<open>FileIterator::read\<close> and \<open>TimeStamp::read\<close>.\<close>

definition fi_read :: "FileIterator \<Rightarrow> fstream \<Rightarrow> FileIterator \<times> fstream" where
  "fi_read it s =
     (let position = st_tell s; (buffer, s) = st_getline s
      in if re_iterator buffer
         then let s = st_seek position s;
                  (prev, s) = st_extract 16 max_streamoff s;
                  (nxt, s) = st_extract 16 max_streamoff s
              in (it\<lparr>fi_good := True, fi_prev := int prev, fi_next := int nxt\<rparr>, s)
         else (it\<lparr>fi_good := False\<rparr>, s))"

definition ts_read :: "TimeStamp \<Rightarrow> fstream \<Rightarrow> TimeStamp \<times> fstream" where
  "ts_read ts s =
     (let position = st_tell s; (buffer, s) = st_getline s
      in if re_stamp buffer
         then let s = st_seek position s;
                  (epoch, s) = st_extract 10 max_streamoff s;
                  (counter, s) = st_extract 10 max_ushort s
              in (ts\<lparr>ts_good := True, ts_epoch := epoch, ts_counter := counter\<rparr>, s)
         else (ts\<lparr>ts_good := False\<rparr>, s))"

section \<open>The container and its computations\<close>

text \<open>
  \<open>fc_clock\<close> is what \<^verbatim>\<open>time(NULL)\<close> returns, \<open>fc_junk\<close> the indeterminate content
  of the two-byte buffer of \<open>readFileStatus\<close>, \<open>fc_disk\<close> the other files and
  \<open>fc_access\<close> the file names that can be opened for reading and writing. The
  stream is absent when \<^verbatim>\<open>fc_stream\<close> is the null pointer.
\<close>

record file_container =
  fc_initialized :: bool
  fc_size :: nat
  fc_stream :: "fstream option"
  fc_stamp :: TimeStamp
  fc_filename :: string
  fc_limits :: FileIterator
  fc_removed :: FileIterator
  fc_clock :: nat
  fc_junk :: string
  fc_disk :: "string \<Rightarrow> string option"
  fc_access :: "string \<Rightarrow> bool"
  fc_budget :: "nat option"

text \<open>What a method can end with: \<open>Inr\<close> for \<^verbatim>\<open>all_good\<close>, a status code, the use of
  a null stream pointer, or a loop that never ends.\<close>

datatype fc_failure = Code iostatus | Null_stream | Diverges

type_synonym 'a fcm = "file_container \<Rightarrow> (fc_failure + 'a) \<times> file_container"

definition fc_return :: "'a \<Rightarrow> 'a fcm" where
  "fc_return v = (\<lambda>c. (Inr v, c))"

definition fc_fail :: "iostatus \<Rightarrow> 'a fcm" where
  "fc_fail st = (\<lambda>c. (Inl (Code st), c))"

text \<open>\<open>fc_bind m k\<close> is \<^verbatim>\<open>answer = m; if( isGood(answer) ) k\<close>.\<close>

definition fc_bind :: "'a fcm \<Rightarrow> ('a \<Rightarrow> 'b fcm) \<Rightarrow> 'b fcm" where
  "fc_bind m k = (\<lambda>c. case m c of (Inl e, c') \<Rightarrow> (Inl e, c') | (Inr v, c') \<Rightarrow> k v c')"

definition fc_then :: "unit fcm \<Rightarrow> 'b fcm \<Rightarrow> 'b fcm" where
  "fc_then m k = fc_bind m (\<lambda>_. k)"

definition fc_when :: "bool \<Rightarrow> unit fcm \<Rightarrow> unit fcm" where
  "fc_when b m = (if b then m else fc_return ())"

text \<open>\<open>if( answer == container_modified ) answer = h;\<close>\<close>

definition on_modified :: "unit fcm \<Rightarrow> unit fcm \<Rightarrow> unit fcm" where
  "on_modified m h = (\<lambda>c. case m c of
       (Inl (Code container_modified), c') \<Rightarrow> h c'
     | r \<Rightarrow> r)"

text \<open>\<open>if( notGood(answer) ) answer = st;\<close>\<close>

definition status_as :: "iostatus \<Rightarrow> 'a fcm \<Rightarrow> 'a fcm" where
  "status_as st m = (\<lambda>c. case m c of (Inl (Code _), c') \<Rightarrow> (Inl (Code st), c') | r \<Rightarrow> r)"

definition fc_get :: "(file_container \<Rightarrow> 'a) \<Rightarrow> 'a fcm" where
  "fc_get f = (\<lambda>c. (Inr (f c), c))"

definition fc_modify :: "(file_container \<Rightarrow> file_container) \<Rightarrow> unit fcm" where
  "fc_modify f = (\<lambda>c. (Inr (), f c))"

definition on_stream :: "(fstream \<Rightarrow> 'a \<times> fstream) \<Rightarrow> 'a fcm" where
  "on_stream f = (\<lambda>c. case fc_stream c of
       None \<Rightarrow> (Inl Null_stream, c)
     | Some s \<Rightarrow> (let (v, s') = f s in (Inr v, c\<lparr>fc_stream := Some s'\<rparr>)))"

definition stream_do :: "(fstream \<Rightarrow> fstream) \<Rightarrow> unit fcm" where
  "stream_do f = on_stream (\<lambda>s. ((), f s))"

text \<open>\<open>if( this->fc_stream->bad() ) answer = st;\<close>\<close>

definition check_bad :: "iostatus \<Rightarrow> unit fcm" where
  "check_bad st = fc_bind (on_stream (\<lambda>s. (st_bad s, s)))
     (\<lambda>b. if b then fc_fail st else fc_return ())"

definition check_good :: "iostatus \<Rightarrow> unit fcm" where
  "check_good st = fc_bind (on_stream (\<lambda>s. (st_good s, s)))
     (\<lambda>b. if b then fc_return () else fc_fail st)"

text \<open>\<open>seekp(p)\<close>, the insertions \<open>str\<close> up to a flush, and \<open>seekp\<close> back to where the
  stream was.\<close>

definition write_and_return :: "int \<Rightarrow> string \<Rightarrow> fstream \<Rightarrow> fstream" where
  "write_and_return p str s = (let old = st_tell s in st_seek old (st_write str (st_seek p s)))"

section \<open>Private methods\<close>

definition fc_getEnd :: "int fcm" where
  "fc_getEnd = on_stream (\<lambda>s. let s = st_seek_end s in (st_tell s, s))"

definition fc_getBegin :: "file_container \<Rightarrow> int" where
  "fc_getBegin c = fi_prev (fc_limits c)"

definition writeFileStatus :: "filestatus \<Rightarrow> unit fcm" where
  "writeFileStatus status =
     fc_then (check_bad io_error)
    (fc_then (stream_do (write_and_return (int fc_s_statusPosition) [status_char status, newline]))
       (check_bad io_error))"

definition readFileStatus :: "filestatus fcm" where
  "readFileStatus =
     fc_bind (fc_get fc_junk) (\<lambda>junk.
     fc_bind (on_stream (\<lambda>s.
       let old = st_tell s;
           (t, s) = st_read 2 (st_seek (int fc_s_statusPosition) s)
       in (t @ drop (length t) (take 2 junk), st_seek old s))) (\<lambda>sbuf.
     fc_then (check_bad io_error)
       (if re_status sbuf then fc_return (char_status (hd sbuf)) else fc_fail syntax_error)))"

definition readSize :: "unit fcm" where
  "readSize =
     fc_then (fc_modify (\<lambda>c. c\<lparr>fc_size := 0\<rparr>))
    (fc_bind (on_stream (\<lambda>s.
       let old = st_tell s;
           (n, s) = st_extract 10 max_size_t (st_seek (int fc_s_stampSize) s)
       in (n, st_seek old s))) (\<lambda>n.
     fc_then (fc_modify (\<lambda>c. c\<lparr>fc_size := n\<rparr>))
       (check_bad io_error)))"

definition writeAndSetSize :: "nat \<Rightarrow> unit fcm" where
  "writeAndSetSize n =
     fc_then (stream_do (write_and_return (int fc_s_stampSize) (padded 10 fc_s_numberSize n @ [newline])))
    (fc_then (check_bad io_error)
       (fc_modify (\<lambda>c. c\<lparr>fc_size := n\<rparr>)))"

definition backup_line :: "FileIterator \<Rightarrow> string" where
  "backup_line it = hex_off (fi_current it) @ '' '' @ fi_write it @ [newline]"

definition createEmptyBackup :: "filestatus \<Rightarrow> unit fcm" where
  "createEmptyBackup state =
     (let vuoto = FileIterator_new 0 0 0 in
      fc_then (stream_do (write_and_return (int (fc_s_statusPosition + 2))
        (concat (replicate fc_s_iteratorBackupNumber (backup_line vuoto)) @
         fi_write vuoto @ [newline] @ fi_write vuoto @ [newline])))
     (fc_then (check_bad io_error)
        (writeFileStatus state)))"

definition backup_position :: "nat \<Rightarrow> int" where
  "backup_position what = int (fc_s_statusPosition + 2 +
     (what mod fc_s_iteratorBackupNumber) * ((3 * fi_s_width) + 3))"

definition writeIteratorBackup :: "nat \<Rightarrow> FileIterator \<Rightarrow> filestatus \<Rightarrow> unit fcm" where
  "writeIteratorBackup what it status =
     fc_then (stream_do (write_and_return (backup_position what) (backup_line it)))
    (fc_then (check_bad io_error)
       (writeFileStatus status))"

definition readIteratorBackup :: "nat \<Rightarrow> FileIterator \<Rightarrow> FileIterator fcm" where
  "readIteratorBackup what it =
     fc_bind (on_stream (\<lambda>s.
       let old = st_tell s;
           (buffer, s) = st_getline (st_seek (backup_position what) s);
           s = st_seek (backup_position what) s
       in ((old, buffer), s))) (\<lambda>(old, buffer).
     fc_then (check_good io_error)
       (if re_backup buffer
        then fc_bind (on_stream (\<lambda>s.
               let (pointer, s) = st_extract 16 max_streamoff s;
                   (it', s) = fi_read it s
               in ((pointer, it'), st_seek old s))) (\<lambda>(pointer, it').
             fc_then (check_good io_error)
               (fc_return (it'\<lparr>fi_current := int pointer\<rparr>)))
        else fc_fail syntax_error))"

definition limits_backup_position :: "bool \<Rightarrow> int" where
  "limits_backup_position isList = int (fc_s_statusPosition + fc_s_iteratorBackupSize + 2 +
     (if isList then fc_s_limitsBackupSize else 0))"

definition writeLimitsBackup :: "filestatus \<Rightarrow> FileIterator \<Rightarrow> bool \<Rightarrow> unit fcm" where
  "writeLimitsBackup status limits isList =
     fc_then (stream_do (write_and_return (limits_backup_position isList) (fi_write limits @ [newline])))
    (fc_then (check_bad io_error)
       (writeFileStatus status))"

definition readLimitsBackup :: "FileIterator \<Rightarrow> bool \<Rightarrow> FileIterator fcm" where
  "readLimitsBackup limits isList =
     fc_bind (on_stream (\<lambda>s.
       let old = st_tell s;
           (it, s) = fi_read limits (st_seek (limits_backup_position isList) s)
       in (it, st_seek old s))) (\<lambda>it.
     fc_then (check_bad io_error)
       (if fi_good it then fc_return it else fc_fail syntax_error))"

definition writeStamp :: "unit fcm" where
  "writeStamp =
     fc_bind (fc_get fc_stamp) (\<lambda>stamp.
     fc_then (stream_do (\<lambda>s. st_write (ts_write stamp @ [newline]) (st_seek 0 s)))
       (check_bad file_closed))"

definition readStamp :: "unit fcm" where
  "readStamp =
     fc_bind (fc_get fc_stamp) (\<lambda>stamp.
     fc_bind (on_stream (\<lambda>s. ts_read stamp (st_seek 0 s))) (\<lambda>stamp'.
     fc_then (fc_modify (\<lambda>c. c\<lparr>fc_stamp := stamp'\<rparr>))
       (check_bad file_closed)))"

definition initial_position :: "bool \<Rightarrow> int" where
  "initial_position isList = int (if isList then fc_s_listPosition else fc_s_positionPosition)"

definition writeInitialPosition :: "FileIterator \<Rightarrow> bool \<Rightarrow> unit fcm" where
  "writeInitialPosition position isList =
     fc_then (stream_do (\<lambda>s. st_write (fi_write position @ [newline]) (st_seek (initial_position isList) s)))
       (check_bad io_error)"

definition readInitialPosition :: "FileIterator \<Rightarrow> bool \<Rightarrow> FileIterator fcm" where
  "readInitialPosition limits isList =
     fc_bind (on_stream (\<lambda>s. fi_read limits (st_seek (initial_position isList) s))) (\<lambda>it.
     if fi_good it then fc_then (check_bad io_error) (fc_return it)
     else fc_fail syntax_error)"

text \<open>\<open>readInitialPosition( this->fc_limits )\<close> and \<open>( this->fc_removed, true )\<close>.\<close>

definition readLimits :: "unit fcm" where
  "readLimits = fc_bind (fc_get fc_limits) (\<lambda>l.
     fc_bind (readInitialPosition l False) (\<lambda>l'. fc_modify (\<lambda>c. c\<lparr>fc_limits := l'\<rparr>)))"

definition readRemoved :: "unit fcm" where
  "readRemoved = fc_bind (fc_get fc_removed) (\<lambda>l.
     fc_bind (readInitialPosition l True) (\<lambda>l'. fc_modify (\<lambda>c. c\<lparr>fc_removed := l'\<rparr>)))"

definition syncData :: "bool \<Rightarrow> unit fcm" where
  "syncData stamp =
     fc_then readLimits (fc_then readRemoved (fc_then readSize (fc_when stamp readStamp)))"

definition updateTimeStamp :: "unit fcm" where
  "updateTimeStamp =
     fc_bind (fc_get fc_clock) (\<lambda>now.
     fc_bind (on_stream (\<lambda>s. ts_read (TimeStamp_new now) (st_seek 0 s))) (\<lambda>stamp.
     if ts_good stamp then
       fc_then (fc_modify (\<lambda>c. c\<lparr>fc_stamp := update_stamp now stamp (fc_stamp c)\<rparr>))
      (fc_bind (fc_get fc_stamp) (\<lambda>stamp'.
       fc_then (stream_do (\<lambda>s. st_write (ts_write stamp' @ [newline]) (st_seek 0 s)))
         (check_bad file_closed)))
     else fc_fail syntax_error))"

definition createEmptyFile :: "unit fcm" where
  "createEmptyFile =
     fc_then (fc_modify (\<lambda>c. c\<lparr>fc_stamp := TimeStamp_new (fc_clock c)\<rparr>))
    (fc_then writeStamp
    (fc_then (writeAndSetSize 0)
    (fc_then (writeFileStatus opened)
    (fc_then (fc_modify (\<lambda>c. c\<lparr>
        fc_limits := fi_reset (int fc_s_headerSize) (int fc_s_headerSize) 0 (fc_limits c),
        fc_removed := fi_reset un_dead un_beef 0 (fc_removed c)\<rparr>))
    (fc_then (createEmptyBackup fs_empty)
    (fc_then (fc_bind (fc_get fc_limits) (\<lambda>l. writeInitialPosition l False))
    (fc_then (fc_bind (fc_get fc_removed) (\<lambda>l. writeInitialPosition l True))
       (writeFileStatus closed))))))))"

definition openFile :: "unit fcm" where
  "openFile = (\<lambda>c.
     case fc_disk c (fc_filename c) of
       Some f \<Rightarrow> if fc_access c (fc_filename c)
                 then (Inr (), c\<lparr>fc_stream := Some (st_open (fc_budget c) f)\<rparr>)
                 else (Inl (Code cannot_open), c\<lparr>fc_stream := None\<rparr>)
     | None \<Rightarrow> (Inl (Code cannot_open), c\<lparr>fc_stream := None\<rparr>))"

text \<open>The constructor of the temporary \<^verbatim>\<open>ofstream\<close> leaves an empty file.\<close>

definition createFile :: "unit fcm" where
  "createFile =
     fc_then (\<lambda>c. if fc_access c (fc_filename c)
                  then (Inr (), c\<lparr>fc_disk := (fc_disk c)(fc_filename c \<mapsto> []),
                                  fc_stream := Some (st_open (fc_budget c) [])\<rparr>)
                  else (Inl (Code cannot_open), c\<lparr>fc_stream := None\<rparr>))
       createEmptyFile"

definition truncateFile :: "int \<Rightarrow> unit fcm" where
  "truncateFile sz =
     fc_then (stream_do (\<lambda>s. st_seek 0 (st_seek 0 s)))
    (fc_then (check_good io_error)
    (fc_bind (on_stream (\<lambda>s. if sz < 0 then (False, s) else st_ftruncate (nat sz) s)) (\<lambda>ok.
     fc_then (if \<not> ok then fc_fail io_error
              else if sz = 0 then createEmptyFile else fc_return ())
       (writeFileStatus ft_end))))"

definition eraseFile :: "int \<Rightarrow> unit fcm" where
  "eraseFile sz =
     fc_then (writeIteratorBackup 0 (FileIterator_new sz sz sz) ft_begin)
       (truncateFile sz)"

definition checkStamp :: "bool fcm" where
  "checkStamp =
     fc_bind (fc_get fc_clock) (\<lambda>now.
     fc_bind (on_stream (\<lambda>s. ts_read (TimeStamp_new now) (st_seek 0 s))) (\<lambda>stamp.
     if ts_good stamp then
       fc_then (check_good file_closed) (fc_get (\<lambda>c. ts_gt stamp (fc_stamp c)))
     else fc_fail syntax_error))"

definition readIteratorHere :: "FileIterator \<Rightarrow> FileIterator fcm" where
  "readIteratorHere it =
     fc_bind (on_stream (\<lambda>s. let here = st_tell s; (it', s) = fi_read it s in ((here, it'), s))) (\<lambda>(here, it').
     if fi_good it' then
       fc_bind (on_stream st_get) (\<lambda>ch.
       if ch \<noteq> Some newline then fc_fail syntax_error
       else fc_then (check_good io_error) (fc_return (it'\<lparr>fi_current := here\<rparr>)))
     else fc_fail syntax_error)"

definition readSizeAndState :: "(nat \<times> char) fcm" where
  "readSizeAndState =
     fc_bind (on_stream (\<lambda>s. let position = st_tell s; (buffer, s) = st_getline s
                             in ((position, buffer), s))) (\<lambda>(position, buffer).
     if re_size_state buffer then
       fc_bind (on_stream (\<lambda>s.
         let (sz, s) = st_extract 10 max_size_t (st_seek position s);
             rest = st_rest s;
             ws = takeWhile isspace_c rest;
             (state, s) = st_get (if st_good s then s\<lparr>st_pos := st_pos s + length ws\<rparr> else s)
         in ((sz, state), s))) (\<lambda>(sz, state).
       fc_then (check_bad io_error)
      (fc_bind (on_stream st_get) (\<lambda>ch.
       if ch \<noteq> Some newline then fc_fail syntax_error
       else fc_return (sz, case state of Some ch \<Rightarrow> ch | None \<Rightarrow> CHR 0x00))))
     else fc_fail syntax_error)"

definition readIterator :: "int \<Rightarrow> FileIterator \<Rightarrow> bool \<Rightarrow> FileIterator fcm" where
  "readIterator pos it fileorder =
     fc_bind fc_getEnd (\<lambda>end.
     if int fc_s_headerSize \<le> pos \<and> pos < end then
       fc_then (stream_do (st_seek pos))
      (fc_bind (readIteratorHere it) (\<lambda>it.
       if fileorder then
         fc_bind readSizeAndState (\<lambda>(sz, state).
         fc_then (stream_do (\<lambda>s. st_seek (st_tell s + int sz + 1) s))
        (fc_bind (readIteratorHere it) (\<lambda>it.
         fc_return (it\<lparr>fi_current := pos\<rparr>))))
       else fc_return it))
     else if pos = end then fc_return (fi_reset 0 0 end it)
     else if pos = 0 then fc_return (fi_reset 0 0 0 it)
     else fc_fail unavailable_position)"

definition writeIterator :: "int \<Rightarrow> FileIterator \<Rightarrow> unit fcm" where
  "writeIterator pos it =
     fc_bind (if int fc_s_headerSize \<le> pos then fc_return True
              else fc_bind fc_getEnd (\<lambda>end. fc_return (pos < end))) (\<lambda>inside.
     if inside then
       fc_then (stream_do (\<lambda>s. st_write (fi_write it @ [newline]) (st_seek pos s)))
         (check_bad io_error)
     else fc_fail unavailable_position)"

definition resetNextOfLast :: "filestatus \<Rightarrow> unit fcm" where
  "resetNextOfLast status =
     fc_bind (fc_get (\<lambda>c. fi_next (fc_limits c))) (\<lambda>last.
     fc_bind (readIterator last (FileIterator_new 0 0 0) False) (\<lambda>iter.
     fc_then (writeIteratorBackup 2 iter status)
    (fc_bind fc_getEnd (\<lambda>end.
     writeIterator last (iter\<lparr>fi_next := end\<rparr>)))))"

definition size_line :: "nat \<Rightarrow> char \<Rightarrow> string" where
  "size_line sz state = padded 10 fc_s_sizeSize sz @ '' '' @ [state] @ [newline]"

definition writeDataHeader :: "FileIterator \<Rightarrow> nat \<Rightarrow> char \<Rightarrow> unit fcm" where
  "writeDataHeader it sz state =
     fc_then (stream_do (st_write (fi_write it @ [newline])))
    (fc_then (stream_do (st_write (size_line sz state)))
       (check_bad io_error))"

definition markDataAsErased :: "FileIterator \<Rightarrow> nat \<Rightarrow> filestatus \<Rightarrow> unit fcm" where
  "markDataAsErased iter sz status =
     fc_then (writeIteratorBackup 2 iter status)
    (fc_then (stream_do (st_seek (fi_current iter)))
    (fc_then (check_good io_error)
    (fc_then (writeDataHeader iter sz CHR ''i'')
       (check_bad io_error))))"

definition markDataAsUnerased :: "FileIterator \<Rightarrow> unit fcm" where
  "markDataAsUnerased it =
     fc_then (stream_do (st_seek (fi_current it + (2 * int fi_s_width + 2))))
    (fc_then (check_good io_error)
    (fc_bind readSizeAndState (\<lambda>(sz, state).
     fc_then (stream_do (st_seek (fi_current it)))
    (fc_then (check_good io_error)
       (writeDataHeader it sz CHR ''g'')))))"

definition writeDataHere :: "FileIterator \<Rightarrow> FileIterator \<Rightarrow> string \<Rightarrow> filestatus \<Rightarrow> unit fcm" where
  "writeDataHere it lit data status =
     fc_then (if 0 < length data then
        fc_then (stream_do st_seek_end)
       (fc_then (writeFileStatus status)
       (fc_then (writeDataHeader it (length data) CHR ''g'')
       (fc_then (stream_do (st_write (data @ [newline] @ fi_write lit @ [newline])))
          (check_bad io_error))))
      else fc_fail data_error)
       (writeFileStatus (status_succ status))"

definition addDataAtBegin :: "string \<Rightarrow> int \<Rightarrow> FileIterator fcm" where
  "addDataAtBegin data end =
     fc_bind (fc_get (\<lambda>c. (fc_getBegin c, fi_next (fc_limits c)))) (\<lambda>(nxt, previous).
     let last = end + calculateDataSize (length data) fc_s_sizeSize in
     fc_bind (readIterator nxt (FileIterator_new 0 0 0) False) (\<lambda>temp.
     fc_then (writeIteratorBackup 0 temp ab_iterator)
    (fc_then (writeIterator nxt (temp\<lparr>fi_prev := end\<rparr>))
    (fc_then (fc_bind (fc_get fc_limits) (\<lambda>l. writeLimitsBackup ab_limits l False))
    (fc_then (fc_modify (\<lambda>c. c\<lparr>fc_limits := (fc_limits c)\<lparr>fi_prev := end\<rparr>\<rparr>))
    (fc_then (fc_bind (fc_get fc_limits) (\<lambda>l. writeInitialPosition l False))
    (fc_then (writeDataHere (FileIterator_new 0 nxt end) (FileIterator_new previous last end) data ab_writing)
    (fc_then (resetNextOfLast ab_last)
       (fc_return (FileIterator_new 0 nxt end))))))))))"

definition addDataAtEnd :: "string \<Rightarrow> int \<Rightarrow> FileIterator fcm" where
  "addDataAtEnd data end =
     fc_bind (fc_get (\<lambda>c. fi_next (fc_limits c))) (\<lambda>previous.
     let nxt = end + calculateDataSize (length data) fc_s_sizeSize in
     fc_bind (if previous = end then fc_return 0
              else fc_bind (readIterator previous (FileIterator_new 0 0 0) False) (\<lambda>temp.
                   fc_then (writeIteratorBackup 0 temp ae_iterator)
                  (fc_then (writeIterator previous (temp\<lparr>fi_next := end\<rparr>))
                     (fc_return previous)))) (\<lambda>prev.
     fc_then (fc_bind (fc_get fc_limits) (\<lambda>l. writeLimitsBackup ae_limits l False))
    (fc_then (fc_modify (\<lambda>c. c\<lparr>fc_limits := (fc_limits c)\<lparr>fi_next := end\<rparr>\<rparr>))
    (fc_then (fc_bind (fc_get fc_limits) (\<lambda>l. writeInitialPosition l False))
    (fc_then (writeDataHere (FileIterator_new prev nxt end) (FileIterator_new previous nxt end) data ae_writing)
       (fc_return (FileIterator_new prev nxt end)))))))"

definition addDataInMiddle :: "string \<Rightarrow> int \<Rightarrow> int \<Rightarrow> FileIterator fcm" where
  "addDataInMiddle data pos end =
     fc_bind (fc_get (\<lambda>c. fi_next (fc_limits c))) (\<lambda>previous.
     let last = end + calculateDataSize (length data) fc_s_sizeSize in
     fc_bind (readIterator pos (FileIterator_new 0 0 0) False) (\<lambda>temp1.
     fc_bind (readIterator (fi_prev temp1) (FileIterator_new 0 0 0) False) (\<lambda>temp2.
     let prev = fi_prev temp1; nxt = pos in
     fc_then (writeIteratorBackup 0 temp1 am_iterator1)
    (fc_then (writeIteratorBackup 1 temp2 am_iterator2)
    (fc_then (writeIterator pos (temp1\<lparr>fi_prev := end\<rparr>))
    (fc_then (writeIterator (fi_current temp2) (temp2\<lparr>fi_next := end\<rparr>))
    (fc_then (writeDataHere (FileIterator_new prev nxt end) (FileIterator_new previous last end) data am_writing)
    (fc_then (resetNextOfLast am_last)
       (fc_return (FileIterator_new prev nxt end))))))))))"

definition BUFSIZ :: nat where "BUFSIZ = 8192"

text \<open>The loop that reads the data of an element in pieces of \<open>BUFSIZ\<close> bytes.\<close>

partial_function (option) read_pieces :: "nat \<Rightarrow> string \<Rightarrow> fstream \<Rightarrow> (string \<times> fstream) option" where
  "read_pieces sz data s =
     (if sz = 0 then Some (data, s)
      else let toread = (if BUFSIZ < sz then BUFSIZ else sz);
               r = st_read toread s
           in read_pieces (if length (fst r) = toread then sz - toread
                           else if 0 < length (fst r) then 0 else sz)
                (data @ fst r) (snd r))"

declare read_pieces.simps [code]

definition readDataHere :: "FileIterator \<Rightarrow> bool \<Rightarrow> (FileIterator \<times> FileIterator \<times> string) fcm" where
  "readDataHere it force =
     fc_bind (status_as syntax_error (readIteratorHere it)) (\<lambda>it.
     fc_bind readSizeAndState (\<lambda>(sz, state).
     if state = CHR ''g'' \<or> (force \<and> state = CHR ''i'') then
       fc_bind (\<lambda>c. case fc_stream c of
           None \<Rightarrow> (Inl Null_stream, c)
         | Some s \<Rightarrow> (case read_pieces sz [] s of
               None \<Rightarrow> (Inl Diverges, c)
             | Some (data, s') \<Rightarrow> (Inr data, c\<lparr>fc_stream := Some s'\<rparr>))) (\<lambda>data.
       fc_bind (on_stream st_get) (\<lambda>ch.
       if ch \<noteq> Some newline then fc_fail syntax_error
       else fc_bind (on_stream (fi_read (FileIterator_new 0 0 0))) (\<lambda>itList.
            fc_then (check_good io_error)
              (if fi_good itList then fc_return (it, itList, data) else fc_fail syntax_error))))
     else if state = CHR ''i'' then fc_fail unavailable_position
     else fc_fail syntax_error))"

text \<open>The copy goes to \<^verbatim>\<open><filename>.bak\<close> unless a name is given; the loop reads to the end
  of the file and \<open>clear()\<close> resets the stream afterwards. On a stream that is not
  good nothing is read; with badbit set the method fails.\<close>

definition backupFile :: "string option \<Rightarrow> unit fcm" where
  "backupFile backupfile = (\<lambda>c. case fc_stream c of
       None \<Rightarrow> (Inl Null_stream, c)
     | Some s \<Rightarrow>
       (let backup = (case backupfile of Some b \<Rightarrow> b | None \<Rightarrow> fc_filename c @ ''.bak'');
            copy = (if st_good s then st_bytes s else []);
            c' = c\<lparr>fc_disk := (fc_disk c)(backup \<mapsto> copy)\<rparr>
        in if st_bad s then (Inl (Code io_error), c')
           else (Inr (), c'\<lparr>fc_stream := Some (st_seek 0 (st_clear s))\<rparr>)))"

text \<open>\<open>throwErrorAndDumpFile\<close> without the exception: the container is copied to a file
  whose name has the time and the process in it, and its status is dumped there.
  The answers of both calls are ignored.\<close>

definition dumpFile :: "unit fcm" where
  "dumpFile = (\<lambda>c.
     let c1 = snd (backupFile (Some (fc_filename c @ ''.wrong'')) c)
     in (case fc_stream c1 of None \<Rightarrow> (Inl Null_stream, c1) | Some s \<Rightarrow> (Inr (), snd (fc_getEnd c1))))"

text \<open>The last element of \<open>checkConsistency\<close>: adjust the size, cut the file after the
  furthest element and make the last element point to the new end.\<close>

definition checkConsistency_last ::
    "int \<Rightarrow> int \<Rightarrow> int \<Rightarrow> int \<Rightarrow> nat \<Rightarrow> FileIterator \<Rightarrow> unit fcm" where
  "checkConsistency_last allowable end current_maximum max_reached detected it =
     fc_bind (fc_get fc_size) (\<lambda>fsize.
     let offset = int detected - int fsize in
     fc_then (fc_when (detected \<noteq> fsize \<and>
         ((allowable > 0 \<and> offset > 0 \<and> offset \<le> allowable) \<or>
          (allowable < 0 \<and> offset < 0 \<and> offset \<ge> allowable) \<or> allowable = 0))
       (writeAndSetSize detected))
     (fc_when (current_maximum \<le> max_reached \<and> max_reached < end)
       (fc_then (truncateFile max_reached)
         (fc_bind fc_getEnd (\<lambda>end'.
          fc_when (fi_next it \<noteq> end') (writeIterator (fi_current it) (it\<lparr>fi_next := end'\<rparr>)))))))"

partial_function (option) checkConsistency_loop ::
    "int \<Rightarrow> int \<Rightarrow> int \<Rightarrow> nat \<Rightarrow> FileIterator \<Rightarrow> file_container \<Rightarrow> ((fc_failure + unit) \<times> file_container) option"
where
  "checkConsistency_loop allowable end max_reached detected it c =
     (let r = fc_then (check_good io_error) readSizeAndState c;
          c1 = snd r;
          cur = (case fst r of Inr (sz, _) \<Rightarrow> fi_current it + calculateDataSize sz fc_s_sizeSize | Inl _ \<Rightarrow> 0);
          max' = (case fst r of Inr _ \<Rightarrow> max cur max_reached | Inl _ \<Rightarrow> max_reached);
          det' = (case fst r of Inr _ \<Rightarrow> Suc detected | Inl _ \<Rightarrow> detected)
      in if fst r = Inl Null_stream then Some (Inl Null_stream, c1)
         else if isl (fst r) = False \<and> fi_current it = fi_next (fc_limits c1)
         then Some (checkConsistency_last allowable end cur max' det' it c1)
         else if fi_next it < int fc_s_headerSize \<or> end \<le> fi_next it
         then Some (Inl (Code unavailable_position), c1)
         else let q = readIterator (fi_next it) it False c1
              in if isl (fst q) then Some (Inl (projl (fst q)), snd q)
                 else checkConsistency_loop allowable end max' det' (projr (fst q)) (snd q))"

declare checkConsistency_loop.simps [code]

definition checkConsistency :: "int \<Rightarrow> unit fcm" where
  "checkConsistency allowable =
     fc_bind fc_getEnd (\<lambda>end.
     fc_then readSize
    (fc_bind (fc_get (\<lambda>c. fi_prev (fc_limits c))) (\<lambda>first.
     fc_bind (readIterator first (FileIterator_new 0 0 0) False) (\<lambda>it.
     \<lambda>c. case checkConsistency_loop allowable end 0 0 it c of
           None \<Rightarrow> (Inl Diverges, c) | Some r \<Rightarrow> r))))"

definition removeDataPointer :: "FileIterator \<Rightarrow> nat \<Rightarrow> unit fcm" where
  "removeDataPointer iter sz =
     fc_bind fc_getEnd (\<lambda>end.
     if fi_next iter = end \<and> fi_prev iter = 0 then
       fc_bind (fc_get fc_size) (\<lambda>fsize.
       fc_then (fc_when (fsize \<noteq> 1)
         (fc_then dumpFile (status_as not_removing_last (checkConsistency (1 - int fsize)))))
      (fc_then (eraseFile (int fc_s_headerSize))
      (fc_then (fc_modify (\<lambda>c. c\<lparr>
          fc_limits := fi_reset (int fc_s_headerSize) (int fc_s_headerSize) 0 (fc_limits c),
          fc_removed := fi_reset un_dead un_beef 0 (fc_removed c)\<rparr>))
      (fc_then (fc_bind (fc_get fc_limits) (\<lambda>l. writeInitialPosition l False))
         (fc_bind (fc_get fc_removed) (\<lambda>l. writeInitialPosition l True))))))
     else if fi_next iter = end then
       fc_then (fc_bind (fc_get fc_limits) (\<lambda>l. writeLimitsBackup rd_limits l False))
      (fc_then (fc_modify (\<lambda>c. c\<lparr>fc_limits := (fc_limits c)\<lparr>fi_next := fi_prev iter\<rparr>\<rparr>))
      (fc_then (fc_bind (fc_get fc_limits) (\<lambda>l. writeInitialPosition l False))
      (fc_bind (readIterator (fi_prev iter) (FileIterator_new 0 0 0) False) (\<lambda>temp.
       fc_then (writeIteratorBackup 0 temp rd_iterator)
      (fc_then (writeIterator (fi_current temp) (temp\<lparr>fi_next := end\<rparr>))
         (markDataAsErased iter sz rd_mark1))))))
     else if fi_prev iter = 0 then
       fc_then (fc_bind (fc_get fc_limits) (\<lambda>l. writeLimitsBackup rd_limits l False))
      (fc_then (fc_modify (\<lambda>c. c\<lparr>fc_limits := (fc_limits c)\<lparr>fi_prev := fi_next iter\<rparr>\<rparr>))
      (fc_then (fc_bind (fc_get fc_limits) (\<lambda>l. writeInitialPosition l False))
      (fc_bind (readIterator (fi_next iter) (FileIterator_new 0 0 0) False) (\<lambda>temp.
       fc_then (writeIteratorBackup 0 temp rd_iterator)
      (fc_then (writeIterator (fi_current temp) (temp\<lparr>fi_prev := 0\<rparr>))
         (markDataAsErased iter sz rd_mark1))))))
     else
       fc_bind (readIterator (fi_next iter) (FileIterator_new 0 0 0) False) (\<lambda>nxt.
       fc_bind (readIterator (fi_prev iter) (FileIterator_new 0 0 0) False) (\<lambda>prv.
       fc_then (writeIteratorBackup 0 nxt rd_iterator2)
      (fc_then (writeIteratorBackup 1 prv rd_iterator3)
      (let nxt' = nxt\<lparr>fi_prev := fi_current prv\<rparr>; prv' = prv\<lparr>fi_next := fi_current nxt\<rparr> in
       fc_then (writeIterator (fi_current nxt') nxt')
      (fc_then (writeIterator (fi_current prv') prv')
         (markDataAsErased iter sz rd_mark2)))))))"

text \<open>
  \<open>recover_data\<close>, \<open>initContainer\<close> and \<open>checkStream\<close> call each other: \<open>checkStream\<close>
  recovers with a check, the check of \<open>recover_data\<close> is \<open>checkStream\<close> without
  recovery or, on a container that is not initialized, \<open>initContainer\<close>, which
  recovers without a check. \<open>recover_status\<close> is the body of \<open>recover_data\<close> after the
  check: the steps of the \<^verbatim>\<open>switch\<close>, in which every case without a \<^verbatim>\<open>break\<close> falls
  through to the next one when it went well.
\<close>

definition restore_iterator :: "nat \<Rightarrow> unit fcm" where
  "restore_iterator what =
     fc_bind (readIteratorBackup what (FileIterator_new 0 0 0)) (\<lambda>temp.
       writeIterator (fi_current temp) temp)"

definition restore_limits :: "unit fcm" where
  "restore_limits =
     fc_bind (fc_get fc_limits) (\<lambda>l.
     fc_bind (readLimitsBackup l False) (\<lambda>l'.
     fc_then (fc_modify (\<lambda>c. c\<lparr>fc_limits := l'\<rparr>))
       (writeInitialPosition l' False)))"

definition truncate_at_limit :: "(FileIterator \<Rightarrow> int) \<Rightarrow> unit fcm" where
  "truncate_at_limit sel =
     fc_bind (readInitialPosition (FileIterator_new 0 0 0) False) (\<lambda>limits. truncateFile (sel limits))"

definition truncate_at_inserted :: "unit fcm" where
  "truncate_at_inserted =
     fc_bind (readIteratorBackup 0 (FileIterator_new 0 0 0)) (\<lambda>temp.
     fc_bind (readIterator (fi_current temp) temp False) (\<lambda>temp. truncateFile (fi_prev temp)))"

definition unerase_backup :: "unit fcm" where
  "unerase_backup =
     fc_bind (readIteratorBackup 2 (FileIterator_new 0 0 0)) (\<lambda>temp. markDataAsUnerased temp)"

definition recover_switch :: "filestatus \<Rightarrow> unit fcm" where
  "recover_switch status =
     (let ae0 = fc_then (restore_iterator 0) (checkConsistency 1);
          ae1 = fc_then restore_limits ae0;
          ae2 = fc_then (truncate_at_limit fi_next) ae1;
          ab0 = fc_then (restore_iterator 0) (checkConsistency 1);
          ab1 = fc_then restore_limits ab0;
          ab2 = fc_then (truncate_at_limit fi_prev) ab1;
          ab3 = fc_then (restore_iterator 2) ab2;
          am0 = fc_then (restore_iterator 0) (checkConsistency 1);
          am1 = fc_then (restore_iterator 1) am0;
          am2 = fc_then truncate_at_inserted am1;
          am3 = fc_then (restore_iterator 2) am2;
          rd0 = fc_then restore_limits (checkConsistency (-1));
          rd1 = fc_then (restore_iterator 0) rd0;
          rd2 = fc_then unerase_backup rd1;
          rm0 = fc_then (restore_iterator 0) (checkConsistency (-1));
          rm1 = fc_then (restore_iterator 1) rm0;
          rm2 = fc_then unerase_backup rm1
      in case status of
           closed \<Rightarrow> fc_return ()
         | fs_empty \<Rightarrow>
             fc_then (writeFileStatus closed)
            (fc_then (syncData True)
            (fc_bind (fc_get (\<lambda>c. (fc_size c, fc_getBegin c))) (\<lambda>(fsize, begin_pos).
             if fsize = 0 then
               fc_bind fc_getEnd (\<lambda>end.
               fc_when (begin_pos \<noteq> end)
                 (fc_then (eraseFile 0) (fc_modify (\<lambda>c. c\<lparr>fc_size := 0\<rparr>))))
             else fc_return ())))
         | opened \<Rightarrow> writeFileStatus closed
         | ft_end \<Rightarrow> writeFileStatus closed
         | ae_writing \<Rightarrow> ae2 | ae_written \<Rightarrow> ae2 | ae_limits \<Rightarrow> ae1 | ae_iterator \<Rightarrow> ae0
         | ab_last \<Rightarrow> ab3 | ab_writing \<Rightarrow> ab2 | ab_written \<Rightarrow> ab2 | ab_limits \<Rightarrow> ab1 | ab_iterator \<Rightarrow> ab0
         | am_last \<Rightarrow> am3 | am_writing \<Rightarrow> am2 | am_written \<Rightarrow> am2 | am_iterator2 \<Rightarrow> am1 | am_iterator1 \<Rightarrow> am0
         | ad_empty \<Rightarrow> checkConsistency 1
         | ft_begin \<Rightarrow> fc_bind (readIteratorBackup 0 (FileIterator_new 0 0 0)) (\<lambda>temp. truncateFile (fi_current temp))
         | rd_mark1 \<Rightarrow> rd2 | rd_iterator \<Rightarrow> rd1 | rd_limits \<Rightarrow> rd0
         | rd_mark2 \<Rightarrow> rm2 | rd_iterator3 \<Rightarrow> rm1 | rd_iterator2 \<Rightarrow> rm0
         | rd_empty \<Rightarrow> checkConsistency (-1)
         | unlisted _ \<Rightarrow> fc_fail unrecoverable_data)"

definition recover_status :: "filestatus \<Rightarrow> unit fcm" where
  "recover_status status =
     fc_then (backupFile None)
    (fc_bind (if status = closed then readFileStatus else fc_return status) (\<lambda>status.
     fc_then (recover_switch status)
       (fc_when (status \<noteq> closed) (writeFileStatus closed))))"

definition initContainer :: "unit fcm" where
  "initContainer = (\<lambda>c. case fc_stream c of
       None \<Rightarrow> (Inl (Code file_closed), c)
     | Some s \<Rightarrow> if st_bad s then (Inl (Code file_closed), c)
         else (fc_then readStamp
              (fc_then readLimits
              (fc_then readRemoved
              (fc_then readSize
              (fc_bind readFileStatus (\<lambda>status.
               fc_then (fc_when (status \<noteq> closed) (recover_status status))
                 (fc_modify (\<lambda>c. c\<lparr>fc_initialized := True\<rparr>)))))))) c)"

definition checkStream_only :: "filestatus fcm" where
  "checkStream_only = (\<lambda>c. case fc_stream c of
       None \<Rightarrow> (Inl (Code file_closed), c)
     | Some s \<Rightarrow> if st_bad s then (Inl (Code file_closed), c) else readFileStatus c)"

definition stamp_check :: "unit fcm" where
  "stamp_check = fc_bind checkStamp (\<lambda>modified. if modified then fc_fail container_modified else fc_return ())"

definition recover_data :: "filestatus \<Rightarrow> bool \<Rightarrow> unit fcm" where
  "recover_data status check =
     fc_then (fc_bind (fc_get fc_initialized) (\<lambda>init.
       if check \<and> \<not> init then initContainer
       else if check then
         on_modified (fc_bind checkStream_only (\<lambda>_. stamp_check)) (syncData True)
       else fc_return ()))
       (recover_status status)"

definition checkStream :: "bool \<Rightarrow> unit fcm" where
  "checkStream recover =
     fc_bind checkStream_only (\<lambda>status.
       fc_when (recover \<and> status \<noteq> closed) (recover_data status True))"

definition checkStreamAndStamp :: "bool \<Rightarrow> unit fcm" where
  "checkStreamAndStamp recover = fc_then (checkStream recover) stamp_check"

text \<open>The head of most public methods: initialize, or check and synchronize.\<close>

definition prepare :: "bool \<Rightarrow> unit fcm" where
  "prepare stamp =
     fc_bind (fc_get fc_initialized) (\<lambda>init.
       if \<not> init then initContainer
       else on_modified (checkStreamAndStamp True) (syncData stamp))"

text \<open>The same head where the method reads the end of the file first and uses it.\<close>

definition prepare_end :: "bool \<Rightarrow> int fcm" where
  "prepare_end stamp =
     fc_bind fc_getEnd (\<lambda>end0.
     fc_bind (fc_get fc_initialized) (\<lambda>init.
       if \<not> init then fc_then initContainer (fc_return end0)
       else (\<lambda>c. case checkStreamAndStamp True c of
          (Inl (Code container_modified), c') \<Rightarrow> fc_then (syncData stamp) fc_getEnd c'
        | (Inl e, c') \<Rightarrow> (Inl e, c')
        | (Inr _, c') \<Rightarrow> (Inr end0, c'))))"

partial_function (option) fillVector_loop ::
    "int \<Rightarrow> int \<Rightarrow> FileIterator \<Rightarrow> string list \<Rightarrow> file_container \<Rightarrow>
     ((fc_failure + string list) \<times> file_container) option"
where
  "fillVector_loop pos end it vec c =
     (if pos < end then
        let r = fc_then (stream_do (st_seek pos)) (readDataHere it False) c
        in if isl (fst r) then Some (Inl (projl (fst r)), snd r)
           else fillVector_loop (fi_next (fst (projr (fst r)))) end (fst (projr (fst r)))
                  (vec @ [snd (snd (projr (fst r)))]) (snd r)
      else Some (Inr vec, c))"

declare fillVector_loop.simps [code]

definition fillVector :: "string list fcm" where
  "fillVector =
     fc_bind fc_getEnd (\<lambda>end.
     fc_then (on_modified (checkStreamAndStamp True) (syncData True))
    (fc_bind (fc_get (\<lambda>c. fi_prev (fc_limits c))) (\<lambda>first.
     fc_bind (readIterator first (FileIterator_new 0 0 0) False) (\<lambda>it.
     \<lambda>c. case fillVector_loop (fi_current it) end it [] c of
           None \<Rightarrow> (Inl Diverges, c) | Some r \<Rightarrow> r))))"

section \<open>Public methods\<close>

definition fc_new :: "nat \<Rightarrow> string \<Rightarrow> (string \<Rightarrow> string option) \<Rightarrow> (string \<Rightarrow> bool) \<Rightarrow> nat option \<Rightarrow> file_container" where
  "fc_new now junk disk access budget =
     \<lparr>fc_initialized = False, fc_size = 0, fc_stream = None, fc_stamp = TimeStamp_new now,
      fc_filename = [], fc_limits = FileIterator_new 0 0 0,
      fc_removed = FileIterator_new un_dead un_beef 0, fc_clock = now, fc_junk = junk,
      fc_disk = disk, fc_access = access, fc_budget = budget\<rparr>"

definition fc_close :: "file_container \<Rightarrow> file_container" where
  "fc_close c = (case fc_stream c of
       None \<Rightarrow> c\<lparr>fc_initialized := False\<rparr>
     | Some s \<Rightarrow> c\<lparr>fc_stream := None, fc_filename := [],
                    fc_disk := (fc_disk c)(fc_filename c \<mapsto> st_bytes s), fc_initialized := False\<rparr>)"

definition fc_open :: "string \<Rightarrow> unit fcm" where
  "fc_open filename = (\<lambda>c0.
     let c = (fc_close c0)\<lparr>fc_filename := filename, fc_initialized := False\<rparr>
     in if fc_disk c filename \<noteq> None then openFile c
        else fc_then createFile (fc_then updateTimeStamp
               (fc_modify (\<lambda>c. c\<lparr>fc_initialized := True\<rparr>))) c)"

definition add_data :: "string \<Rightarrow> int \<Rightarrow> FileIterator fcm" where
  "add_data data pos =
     fc_bind (prepare_end False) (\<lambda>end.
     fc_then updateTimeStamp
    (fc_then (writeFileStatus opened)
    (fc_bind (\<lambda>c. if pos = end then addDataAtEnd data end c
                  else if pos = fc_getBegin c then addDataAtBegin data end c
                  else addDataInMiddle data pos end c) (\<lambda>it.
     fc_then (createEmptyBackup ad_empty)
    (fc_then (fc_bind (fc_get fc_size) (\<lambda>n. writeAndSetSize ((n + 1) mod 2 ^ 64)))
    (fc_then (writeFileStatus closed)
       (fc_return it)))))))"

definition read_data :: "int \<Rightarrow> FileIterator \<Rightarrow> bool \<Rightarrow> (string \<times> FileIterator) fcm" where
  "read_data pos it fileorder =
     fc_bind (prepare_end True) (\<lambda>end.
     if pos \<le> end then
       fc_then (stream_do (st_seek pos))
      (fc_bind (readDataHere it fileorder) (\<lambda>(it', fileIt, data).
       fc_return (data, if fileorder then fi_reset (fi_prev fileIt) (fi_next fileIt) pos it' else it')))
     else fc_fail unavailable_position)"

definition remove_data :: "int \<Rightarrow> unit fcm" where
  "remove_data pos =
     fc_then (prepare False)
    (fc_then updateTimeStamp
    (fc_then (writeFileStatus opened)
    (fc_bind (readIterator pos (FileIterator_new 0 0 0) False) (\<lambda>iter.
     fc_bind readSizeAndState (\<lambda>(sz, state).
     fc_then (if state = CHR ''g'' then removeDataPointer iter sz else fc_fail unavailable_position)
    (fc_then (createEmptyBackup rd_empty)
    (fc_then (fc_bind (fc_get fc_size) (\<lambda>n.
       fc_when (n = 0)
         (fc_then (status_as decrementing_from_zero (checkConsistency 0))
           (fc_modify (\<lambda>c. c\<lparr>fc_size := (fc_size c + 1) mod 2 ^ 64\<rparr>)))))
    (fc_then (fc_bind (fc_get fc_size) (\<lambda>n. writeAndSetSize (n - 1)))
       (writeFileStatus closed)))))))))"

definition increment_with :: "bool \<Rightarrow> FileIterator \<Rightarrow> FileIterator fcm" where
  "increment_with fileorder it =
     fc_bind (prepare_end True) (\<lambda>end.
     if fi_current it = 0 then
       fc_bind (fc_get (\<lambda>c. fi_prev (fc_limits c))) (\<lambda>first. readIterator first it fileorder)
     else if fi_next it = end then fc_return (fi_reset 0 0 end it)
     else fc_bind (readIterator (fi_current it) it fileorder) (\<lambda>it.
          readIterator (fi_next it) it fileorder))"

definition increment_iterator :: "FileIterator \<Rightarrow> FileIterator fcm" where
  "increment_iterator it = increment_with False it"

definition increment_fileorder_iterator :: "FileIterator \<Rightarrow> FileIterator fcm" where
  "increment_fileorder_iterator it = increment_with True it"

definition decrement_with :: "bool \<Rightarrow> FileIterator \<Rightarrow> FileIterator fcm" where
  "decrement_with fileorder it =
     fc_then (prepare True)
    (fc_bind fc_getEnd (\<lambda>end.
     if fi_current it = end then
       fc_bind (fc_get (\<lambda>c. fi_next (fc_limits c))) (\<lambda>last. readIterator last it fileorder)
     else if fi_prev it = 0 then fc_return (fi_reset 0 0 0 it)
     else fc_bind (readIterator (fi_current it) it fileorder) (\<lambda>it.
          readIterator (fi_prev it) it fileorder)))"

definition decrement_iterator :: "FileIterator \<Rightarrow> FileIterator fcm" where
  "decrement_iterator it = decrement_with False it"

definition decrement_fileorder_iterator :: "FileIterator \<Rightarrow> FileIterator fcm" where
  "decrement_fileorder_iterator it = decrement_with True it"

definition fc_truncate :: "unit fcm" where
  "fc_truncate =
     fc_then (fc_bind (fc_get fc_initialized) (\<lambda>init.
       if \<not> init then initContainer else checkStreamAndStamp True))
    (fc_then (eraseFile 0) (fc_modify (\<lambda>c. c\<lparr>fc_size := 0\<rparr>)))"

definition read_size :: "nat fcm" where
  "read_size =
     fc_bind fc_getEnd (\<lambda>end0.
     fc_bind (fc_get fc_initialized) (\<lambda>init.
     \<lambda>c. let (r, c1) = (if \<not> init then initContainer c else checkStreamAndStamp True c);
             (e, c2) = (if init \<and> r = Inr () then fc_getEnd c1 else (Inr end0, c1));
             mismatch = (e \<noteq> Inr (fc_getBegin c2) \<and> fc_size c2 = 0)
         in (if r = Inl (Code container_modified) \<or> mismatch
             then fc_then (syncData True) (fc_get fc_size) c2
             else case r of Inl f \<Rightarrow> (Inl f, c2) | Inr _ \<Rightarrow> (Inr (fc_size c2), c2))))"

fun compact_add :: "string list \<Rightarrow> int \<Rightarrow> unit fcm" where
  "compact_add [] end = fc_return ()"
| "compact_add (d # ds) end = fc_bind (addDataAtEnd d end) (\<lambda>it. compact_add ds (fi_next it))"

definition compact_data :: "unit fcm" where
  "compact_data =
     fc_then (fc_bind (fc_get fc_initialized) (\<lambda>init. fc_when (\<not> init) initContainer))
    (fc_bind fillVector (\<lambda>copy.
     fc_then (backupFile None)
    (fc_then (eraseFile 0)
    (fc_then (writeFileStatus opened)
    (fc_bind fc_getEnd (\<lambda>end.
     fc_then (compact_add copy end)
    (fc_then (createEmptyBackup fs_empty)
    (fc_then (writeAndSetSize (length copy))
       (writeFileStatus closed)))))))))"

definition fc_sync :: "unit fcm" where
  "fc_sync = (\<lambda>c.
     let (r, c1) = (if \<not> fc_initialized c then initContainer c else checkStreamAndStamp True c)
     in if r = Inl (Code container_modified) then (r, snd (syncData True c1)) else (r, c1))"

definition get_iterator :: "int \<Rightarrow> FileIterator \<Rightarrow> FileIterator fcm" where
  "get_iterator pos it = fc_then (prepare True) (readIterator pos it False)"

definition get_fileorder_iterator :: "int \<Rightarrow> FileIterator \<Rightarrow> FileIterator fcm" where
  "get_fileorder_iterator pos it = fc_then (prepare True) (readIterator pos it True)"

definition fc_modified :: "bool fcm" where
  "fc_modified = fc_then (fc_bind (fc_get fc_initialized) (\<lambda>init. fc_when (\<not> init) initContainer)) checkStamp"

definition read_begin :: "int fcm" where
  "read_begin = fc_then (prepare True) (fc_get fc_getBegin)"

definition read_end :: "int fcm" where
  "read_end = fc_then (prepare True) fc_getEnd"

definition read_last :: "int fcm" where
  "read_last = fc_then (prepare True) (fc_get (\<lambda>c. fi_next (fc_limits c)))"

definition read_file_end :: "int fcm" where
  "read_file_end = fc_then (prepare True) (on_stream (\<lambda>s. let s = st_seek_end s in (st_tell s, s)))"

end
