(* ===== verification/File_Container_Exec.thy ===== *)
theory File_Container_Exec
  imports File_Container
begin

text \<open>
  Symbolic execution of the file container on a healthy stream: the header
  layout as numbers, the text codecs (what is read back is what was written), and
  for every private method the state it leaves, as an equation over the bytes of
  the file. The proofs about the public methods rewrite with these equations.
\<close>

section \<open>The layout as numbers\<close>

lemma integer_size_numbers: "integer_size 8 16 = 16" "integer_size 8 10 = 20" "integer_size 2 10 = 5"
  by (simp_all add: integer_size_def upt_conv_Cons)

lemma layout_numbers [simp]:
  "fi_s_width = 16" "ts_s_twidth = 20" "ts_s_swidth = 5" "TimeStamp_size = 26"
  "fc_s_iteratorBackupNumber = 4" "fc_s_stampSize = 27" "fc_s_sizeSize = 23" "fc_s_numberSize = 21"
  "fc_s_statusPosition = 49" "fc_s_iteratorBackupSize = 204" "fc_s_limitsBackupSize = 34"
  "fc_s_listBackupSize = 34" "fc_s_backupSize = 275" "fc_s_headerSize = 391"
  "fc_s_positionPosition = 323" "fc_s_listPosition = 357" "BUFSIZ = 8192"
  by (simp_all add: integer_size_numbers fi_s_width_def ts_s_twidth_def ts_s_swidth_def TimeStamp_size_def
    fc_s_iteratorBackupNumber_def fc_s_stampSize_def fc_s_sizeSize_def fc_s_numberSize_def
    fc_s_statusPosition_def fc_s_iteratorBackupSize_def fc_s_limitsBackupSize_def
    fc_s_listBackupSize_def fc_s_backupSize_def fc_s_headerSize_def fc_s_positionPosition_def
    fc_s_listPosition_def BUFSIZ_def)

section \<open>Lines of the file\<close>

text \<open>\<open>ptr a b\<close>: a pair of offsets, \<open>stamp_line\<close>, \<open>num_line\<close>: the first two lines of the header.\<close>

definition ptr :: "nat \<Rightarrow> nat \<Rightarrow> string" where
  "ptr a b = padded 16 16 a @ '' '' @ padded 16 16 b @ [newline]"

definition stamp_line :: "nat \<Rightarrow> nat \<Rightarrow> string" where
  "stamp_line e k = padded 10 20 e @ '' '' @ padded 10 5 k @ [newline]"

definition num_line :: "nat \<Rightarrow> string" where
  "num_line n = padded 10 21 n @ [newline]"

abbreviation off_ok :: "nat \<Rightarrow> bool" where
  "off_ok a \<equiv> a < 2 ^ 63"

definition stamp_ok :: "nat \<Rightarrow> nat \<Rightarrow> bool" where
  "stamp_ok e k \<longleftrightarrow> e < 2 ^ 63 \<and> k < 2 ^ 16"

lemma off_ok16 [simp]: "a < 9223372036854775808 \<Longrightarrow> length (padded 16 16 a) = 16"
  by (rule length_padded) simp_all

lemma length_ptr [simp]: "off_ok a \<Longrightarrow> off_ok b \<Longrightarrow> length (ptr a b) = 34"
  by (simp add: ptr_def)

lemma length_stamp_line [simp]: "stamp_ok e k \<Longrightarrow> length (stamp_line e k) = 27"
  by (simp add: stamp_line_def stamp_ok_def length_padded)

lemma length_num_line [simp]: "off_ok n \<Longrightarrow> length (num_line n) = 22"
  by (simp add: num_line_def length_padded)

lemma length_size_line [simp]: "off_ok n \<Longrightarrow> length (size_line n st) = 26"
  by (simp add: size_line_def length_padded)

lemma hex_off_nat [simp]: "off_ok a \<Longrightarrow> hex_off (int a) = padded 16 16 a"
  by (simp add: hex_off_def nat_mod_distrib)

lemma hex_off_zero [simp]: "hex_off 0 = padded 16 16 0"
  using hex_off_nat [of 0] by simp

lemma fi_write_ptr:
  "fi_prev it = int a \<Longrightarrow> fi_next it = int b \<Longrightarrow> off_ok a \<Longrightarrow> off_ok b \<Longrightarrow>
    fi_write it @ [newline] = ptr a b"
  by (simp add: fi_write_def ptr_def)

lemma newline_not_digit_run: "list_all (is_base_digit b) xs \<Longrightarrow> newline \<notin> set xs"
  using not_base_digit_space(2) by (auto simp: list_all_iff)

lemma padded_no_newline [simp]: "2 \<le> b \<Longrightarrow> b \<le> 16 \<Longrightarrow> newline \<notin> set (padded b w n)"
  by (rule newline_not_digit_run [OF padded_all])

lemma digit_not_space: "is_base_digit b c \<Longrightarrow> \<not> isspace_c c" "is_base_digit b c \<Longrightarrow> c \<noteq> CHR '' ''"
  using isspace_not_digit isspace_simps(1) by blast+

lemma takeWhile_digits_all: "list_all P xs \<Longrightarrow> takeWhile P xs = xs" "list_all P xs \<Longrightarrow> dropWhile P xs = []"
  by (simp_all add: list_all_iff)

lemma padded_Cons: obtains c cs where "padded b w n = c # cs"
  using padded_nonempty by (cases "padded b w n") auto

lemma dropWhile_space_padded:
  assumes "2 \<le> b" "b \<le> 16"
  shows "dropWhile isspace_c (padded b w n @ xs) = padded b w n @ xs"
    and "takeWhile (\<lambda>c. c = CHR '' '') (padded b w n @ xs) = []"
    and "dropWhile (\<lambda>c. c = CHR '' '') (padded b w n @ xs) = padded b w n @ xs"
proof -
  obtain c cs where c: "padded b w n = c # cs" by (rule padded_Cons)
  with padded_all [OF assms, of w n] have "is_base_digit b c" by simp
  with c digit_not_space
  show "dropWhile isspace_c (padded b w n @ xs) = padded b w n @ xs"
    "takeWhile (\<lambda>c. c = CHR '' '') (padded b w n @ xs) = []"
    "dropWhile (\<lambda>c. c = CHR '' '') (padded b w n @ xs) = padded b w n @ xs"
    by auto
qed

lemma padded_not_blank:
  assumes "2 \<le> b" "b \<le> 16"
  shows "\<exists>c\<in>set (padded b w n). c \<noteq> CHR '' ''"
proof -
  obtain c cs where c: "padded b w n = c # cs" by (rule padded_Cons)
  with padded_all [OF assms, of w n] have "is_base_digit b c" by simp
  with c digit_not_space(2) show ?thesis by auto
qed

lemma re_iterator_ptr: "re_iterator (padded 16 16 a @ '' '' @ padded 16 16 b)"
  using padded_all [of 16 16 a] padded_all [of 16 16 b]
    dropWhile_space_padded [where b = 16 and w = 16 and n = b and xs = "[]"]
  by (simp add: re_iterator_def dropWhile_space_padded takeWhile_run dropWhile_run padded_not_blank)

lemma re_iterator_blank_ptr: "re_iterator ('' '' @ padded 16 16 a @ '' '' @ padded 16 16 b)"
  using re_iterator_ptr [of a b] by (simp add: re_iterator_def Let_def)

lemma re_stamp_line: "re_stamp (padded 10 20 e @ '' '' @ padded 10 5 k)"
  using padded_all [of 10 20 e] padded_all [of 10 5 k]
    dropWhile_space_padded [where b = 10 and w = 5 and n = k and xs = "[]"]
  by (simp add: re_stamp_def takeWhile_run dropWhile_run padded_not_blank)

lemma re_size_state_line:
  "st = CHR ''g'' \<or> st = CHR ''i'' \<Longrightarrow> re_size_state (padded 10 23 n @ '' '' @ [st])"
  using padded_all [of 10 23 n]
  by (auto simp: re_size_state_def takeWhile_run dropWhile_run)

lemma re_backup_line: "re_backup (padded 16 16 p @ '' '' @ padded 16 16 a @ '' '' @ padded 16 16 b)"
  using padded_all [of 16 16 p] padded_all [of 16 16 a] padded_all [of 16 16 b]
  by (simp add: re_backup_def takeWhile_run dropWhile_run Let_def)

lemma char_status_status_char [simp]:
  "(\<forall>c. st \<noteq> unlisted c) \<Longrightarrow> char_status (status_char st) = st"
  by (cases st) (simp_all add: char_status_def listed_status_def)

lemma re_status_char [simp]:
  "(\<forall>c. st \<noteq> unlisted c) \<Longrightarrow> re_status [status_char st, newline]"
  by (cases st) (simp_all add: re_status_def)

lemma status_succ_simps [simp]:
  "status_succ ae_writing = ae_written" "status_succ ab_writing = ab_written"
  "status_succ am_writing = am_written"
  by code_simp+

section \<open>Healthy streams\<close>

definition mk :: "string \<Rightarrow> nat \<Rightarrow> string list \<Rightarrow> fstream" where
  "mk f p tr = \<lparr>st_bytes = f, st_pos = p, st_fail = False, st_bad = False, st_budget = None, st_trace = tr\<rparr>"

definition fc_at :: "file_container \<Rightarrow> string \<Rightarrow> nat \<Rightarrow> string list \<Rightarrow> file_container" where
  "fc_at c f p tr = c\<lparr>fc_stream := Some (mk f p tr)\<rparr>"

definition fi :: "nat \<Rightarrow> nat \<Rightarrow> nat \<Rightarrow> FileIterator" where
  "fi a b p = FileIterator_new (int a) (int b) (int p)"

lemma mk_simps [simp]:
  "st_good (mk f p tr)" "st_bytes (mk f p tr) = f" "st_pos (mk f p tr) = p" "\<not> st_bad (mk f p tr)"
  "\<not> st_fail (mk f p tr)" "st_trace (mk f p tr) = tr" "st_tell (mk f p tr) = int p"
  "st_rest (mk f p tr) = drop p f" "(mk f p tr)\<lparr>st_pos := q\<rparr> = mk f q tr"
  "st_seek_end (mk f p tr) = mk f (length f) tr" "st_clear (mk f p tr) = mk f p tr"
  "st_seek (int q) (mk f p tr) = mk f q tr"
  "st_seek 0 (mk f p tr) = mk f 0 tr" "st_seek (numeral w) (mk f p tr) = mk f (numeral w) tr"
  by (simp_all add: mk_def st_good_def st_tell_def st_seek_def st_seek_end_def st_rest_def st_clear_def)

lemma st_write_mk [simp]:
  "st_write str (mk f p tr) = mk (overwrite p str f) (p + length str) (tr @ [overwrite p str f])"
  by (simp add: st_write_def st_commit_def mk_def st_good_def)

lemma st_ftruncate_mk [simp]:
  "n \<le> length f \<Longrightarrow> st_ftruncate n (mk f p tr) = (True, mk (take n f) p (tr @ [take n f]))"
  by (simp add: st_ftruncate_def st_commit_def mk_def)

lemma st_open_mk: "st_open None f = mk f 0 []"
  by (simp add: st_open_def mk_def)

lemmas getline_mk = st_getline_holds [of "mk f p tr" for f p tr, simplified]
lemmas extract_mk = st_extract_holds [of "mk f p tr" for f p tr, simplified]
lemmas get_mk = st_get_holds [of "mk f p tr" for f p tr, simplified]
lemmas read_mk = st_read_holds [of "mk f p tr" for f p tr, simplified]

lemma fc_at_simps [simp]:
  "fc_stream (fc_at c f p tr) = Some (mk f p tr)" "fc_initialized (fc_at c f p tr) = fc_initialized c"
  "fc_size (fc_at c f p tr) = fc_size c" "fc_stamp (fc_at c f p tr) = fc_stamp c"
  "fc_filename (fc_at c f p tr) = fc_filename c" "fc_limits (fc_at c f p tr) = fc_limits c"
  "fc_removed (fc_at c f p tr) = fc_removed c" "fc_clock (fc_at c f p tr) = fc_clock c"
  "fc_junk (fc_at c f p tr) = fc_junk c" "fc_disk (fc_at c f p tr) = fc_disk c"
  "fc_access (fc_at c f p tr) = fc_access c" "fc_budget (fc_at c f p tr) = fc_budget c"
  "(fc_at c f p tr)\<lparr>fc_stream := Some (mk f' p' tr')\<rparr> = fc_at c f' p' tr'"
  by (simp_all add: fc_at_def)

lemma fc_at_updates [simp]:
  "(fc_at c f p tr)\<lparr>fc_initialized := b\<rparr> = fc_at (c\<lparr>fc_initialized := b\<rparr>) f p tr"
  "(fc_at c f p tr)\<lparr>fc_size := n\<rparr> = fc_at (c\<lparr>fc_size := n\<rparr>) f p tr"
  "(fc_at c f p tr)\<lparr>fc_stamp := ts\<rparr> = fc_at (c\<lparr>fc_stamp := ts\<rparr>) f p tr"
  "(fc_at c f p tr)\<lparr>fc_limits := l\<rparr> = fc_at (c\<lparr>fc_limits := l\<rparr>) f p tr"
  "(fc_at c f p tr)\<lparr>fc_removed := l\<rparr> = fc_at (c\<lparr>fc_removed := l\<rparr>) f p tr"
  "(fc_at c f p tr)\<lparr>fc_disk := d\<rparr> = fc_at (c\<lparr>fc_disk := d\<rparr>) f p tr"
  by (simp_all add: fc_at_def)

lemma fi_simps [simp]:
  "fi_good (fi a b p)" "fi_prev (fi a b p) = int a" "fi_next (fi a b p) = int b"
  "fi_current (fi a b p) = int p" "(fi a b p)\<lparr>fi_prev := int x\<rparr> = fi x b p"
  "(fi a b p)\<lparr>fi_next := int x\<rparr> = fi a x p" "(fi a b p)\<lparr>fi_current := int x\<rparr> = fi a b x"
  "(fi a b p)\<lparr>fi_prev := 0\<rparr> = fi 0 b p"
  "fi_reset (int x) (int y) (int z) it = it\<lparr>fi_prev := int x, fi_next := int y, fi_current := int z\<rparr>"
  by (simp_all add: fi_def FileIterator_new_def fi_reset_def)

lemma fi_eqI:
  "fi_good it \<Longrightarrow> it\<lparr>fi_prev := int a, fi_next := int b, fi_current := int p\<rparr> = fi a b p"
  "it\<lparr>fi_good := True, fi_prev := int a, fi_next := int b, fi_current := int p\<rparr> = fi a b p"
  by (cases it; simp add: fi_def FileIterator_new_def)+

lemma FileIterator_new_fi:
  "FileIterator_new (int a) (int b) (int p) = fi a b p" "FileIterator_new 0 0 0 = fi 0 0 0"
  "FileIterator_new 0 (int b) (int p) = fi 0 b p"
  by (simp_all add: fi_def)

section \<open>Computations\<close>

lemma fcm_simps [simp]:
  "fc_return v c = (Inr v, c)" "fc_fail st c = (Inl (Code st), c)"
  "fc_get g c = (Inr (g c), c)" "fc_modify h c = (Inr (), h c)"
  by (simp_all add: fc_return_def fc_fail_def fc_get_def fc_modify_def)

lemma fc_bind_apply [simp]:
  "fc_bind m k c = (case m c of (Inl e, c') \<Rightarrow> (Inl e, c') | (Inr v, c') \<Rightarrow> k v c')"
  by (simp add: fc_bind_def)

lemma fc_then_apply [simp]:
  "fc_then m k c = (case m c of (Inl e, c') \<Rightarrow> (Inl e, c') | (Inr v, c') \<Rightarrow> k c')"
  by (simp add: fc_then_def)

lemma fc_when_apply [simp]: "fc_when b m c = (if b then m c else (Inr (), c))"
  by (simp add: fc_when_def)

lemma on_stream_at [simp]:
  "on_stream g (fc_at c f p tr) = (Inr (fst (g (mk f p tr))), c\<lparr>fc_stream := Some (snd (g (mk f p tr)))\<rparr>)"
  by (simp add: on_stream_def fc_at_def split: prod.split)

lemma stream_do_at [simp]:
  "stream_do g (fc_at c f p tr) = (Inr (), c\<lparr>fc_stream := Some (g (mk f p tr))\<rparr>)"
  by (simp add: stream_do_def)

lemma fc_at_fold [simp]: "c\<lparr>fc_stream := Some (mk f p tr)\<rparr> = fc_at c f p tr"
  by (simp add: fc_at_def)

lemma check_at [simp]:
  "check_bad st (fc_at c f p tr) = (Inr (), fc_at c f p tr)"
  "check_good st (fc_at c f p tr) = (Inr (), fc_at c f p tr)"
  by (simp_all add: check_bad_def check_good_def)

lemma write_and_return_mk [simp]:
  "write_and_return (int q) str (mk f p tr) = mk (overwrite q str f) p (tr @ [overwrite q str f])"
  "write_and_return (numeral w) str (mk f p tr) =
     mk (overwrite (numeral w) str f) p (tr @ [overwrite (numeral w) str f])"
  by (simp_all add: write_and_return_def)

lemma fc_getEnd_at [simp]: "fc_getEnd (fc_at c f p tr) = (Inr (int (length f)), fc_at c f (length f) tr)"
  by (simp add: fc_getEnd_def)

section \<open>Reading lines back\<close>

lemma fi_read_mk [codec_simps]:
  assumes "holds_at p (ptr a b) f" "off_ok a" "off_ok b"
  shows "fi_read it (mk f p tr) =
    (it\<lparr>fi_good := True, fi_prev := int a, fi_next := int b\<rparr>, mk f (p + 33) tr)"
proof -
  let ?line = "padded 16 16 a @ '' '' @ padded 16 16 b"
  have h: "holds_at p (padded 16 16 a @ [CHR '' '']) f"
      "holds_at (p + 16) ([CHR '' ''] @ padded 16 16 b @ [newline]) f"
      "holds_at p (?line @ [newline]) f"
    using assms by (simp_all add: ptr_def holds_at_split add.commute)
  have "st_getline (mk f p tr) = (?line, mk f (p + 34) tr)"
    using assms(2,3) getline_mk [OF h(3)] by (simp add: add.commute)
  moreover have "st_extract 16 max_streamoff (mk f p tr) = (a, mk f (p + 16) tr)"
    using extract_mk [of p "[]" "padded 16 16 a" "CHR '' ''" f 16 max_streamoff tr] assms h
    by (simp add: padded_all codec_simps max_streamoff_def add.commute)
  moreover have "st_extract 16 max_streamoff (mk f (p + 16) tr) = (b, mk f (p + 33) tr)"
    using extract_mk [of "p + 16" "[CHR '' '']" "padded 16 16 b" newline f 16 max_streamoff tr] assms h
    by (simp add: padded_all codec_simps max_streamoff_def add.commute)
  ultimately show ?thesis
    using re_iterator_ptr [of a b] by (simp add: fi_read_def)
qed

lemma fi_read_blank_mk:
  assumes "holds_at p ('' '' @ ptr a b) f" "off_ok a" "off_ok b"
  shows "fi_read it (mk f p tr) =
    (it\<lparr>fi_good := True, fi_prev := int a, fi_next := int b\<rparr>, mk f (p + 34) tr)"
proof -
  let ?line = "'' '' @ padded 16 16 a @ '' '' @ padded 16 16 b"
  have h: "holds_at p ([CHR '' ''] @ padded 16 16 a @ [CHR '' '']) f"
      "holds_at (p + 17) ([CHR '' ''] @ padded 16 16 b @ [newline]) f"
      "holds_at p (?line @ [newline]) f"
    using assms by (simp_all add: ptr_def holds_at_split add.commute)
  have "st_getline (mk f p tr) = (?line, mk f (p + 35) tr)"
    using assms(2,3) getline_mk [OF h(3)] by (simp add: add.commute)
  moreover have "st_extract 16 max_streamoff (mk f p tr) = (a, mk f (p + 17) tr)"
    using extract_mk [of p "[CHR '' '']" "padded 16 16 a" "CHR '' ''" f 16 max_streamoff tr] assms h
    by (simp add: padded_all codec_simps max_streamoff_def add.commute)
  moreover have "st_extract 16 max_streamoff (mk f (p + 17) tr) = (b, mk f (p + 34) tr)"
    using extract_mk [of "p + 17" "[CHR '' '']" "padded 16 16 b" newline f 16 max_streamoff tr] assms h
    by (simp add: padded_all codec_simps max_streamoff_def add.commute)
  ultimately show ?thesis
    using re_iterator_blank_ptr [of a b] by (simp add: fi_read_def)
qed

lemma ts_read_mk [codec_simps]:
  assumes "holds_at p (stamp_line e k) f" "stamp_ok e k"
  shows "ts_read ts (mk f p tr) =
    (ts\<lparr>ts_good := True, ts_epoch := e, ts_counter := k\<rparr>, mk f (p + 26) tr)"
proof -
  let ?line = "padded 10 20 e @ '' '' @ padded 10 5 k"
  have len: "length (padded 10 20 e) = 20" "length (padded 10 5 k) = 5"
    using assms(2) by (simp_all add: stamp_ok_def codec_simps)
  have h: "holds_at p (padded 10 20 e @ [CHR '' '']) f"
      "holds_at (p + 20) ([CHR '' ''] @ padded 10 5 k @ [newline]) f"
      "holds_at p (?line @ [newline]) f"
    using assms(1) len by (simp_all add: stamp_line_def holds_at_split add.commute)
  have "st_getline (mk f p tr) = (?line, mk f (p + 27) tr)"
    using len getline_mk [OF h(3)] by (simp add: add.commute)
  moreover have "st_extract 10 max_streamoff (mk f p tr) = (e, mk f (p + 20) tr)"
    using extract_mk [of p "[]" "padded 10 20 e" "CHR '' ''" f 10 max_streamoff tr] assms(2) h len
    by (simp add: padded_all codec_simps max_streamoff_def stamp_ok_def)
  moreover have "st_extract 10 max_ushort (mk f (p + 20) tr) = (k, mk f (p + 26) tr)"
    using extract_mk [of "p + 20" "[CHR '' '']" "padded 10 5 k" newline f 10 max_ushort tr] assms(2) h len
    by (simp add: padded_all codec_simps max_ushort_def stamp_ok_def add.commute)
  ultimately show ?thesis
    using re_stamp_line [of e k] by (simp add: ts_read_def)
qed

lemma num_read_mk [codec_simps]:
  assumes "holds_at p (num_line n) f" "off_ok n"
  shows "st_extract 10 max_size_t (mk f p tr) = (n, mk f (p + 21) tr)"
  using extract_mk [of p "[]" "padded 10 21 n" newline f 10 max_size_t tr] assms
  by (simp add: padded_all codec_simps max_size_t_def num_line_def)

section \<open>The private methods\<close>

definition status_text :: "filestatus \<Rightarrow> string" where
  "status_text st = [status_char st, newline]"

definition bkp :: "nat \<Rightarrow> nat \<Rightarrow> nat \<Rightarrow> string" where
  "bkp p a b = padded 16 16 p @ '' '' @ ptr a b"

definition zero_backups :: string where
  "zero_backups = concat (replicate 4 (bkp 0 0 0)) @ ptr 0 0 @ ptr 0 0"

lemma length_status_text [simp]: "length (status_text st) = 2"
  by (simp add: status_text_def)

lemma length_bkp [simp]: "off_ok p \<Longrightarrow> off_ok a \<Longrightarrow> off_ok b \<Longrightarrow> length (bkp p a b) = 51"
  by (simp add: bkp_def)

lemma length_zero_backups [simp]: "length zero_backups = 272"
  by (simp add: zero_backups_def length_concat sum_list_replicate)

lemma fi_write_fi [simp]:
  "off_ok a \<Longrightarrow> off_ok b \<Longrightarrow> fi_write (fi a b p) @ [newline] = ptr a b"
  "off_ok a \<Longrightarrow> off_ok b \<Longrightarrow> fi_write (fi a b p) @ newline # xs = ptr a b @ xs"
  by (simp_all add: fi_write_def ptr_def)

lemma backup_line_fi [simp]:
  "off_ok p \<Longrightarrow> off_ok a \<Longrightarrow> off_ok b \<Longrightarrow> backup_line (fi a b p) = bkp p a b"
  by (simp add: backup_line_def bkp_def fi_write_def ptr_def)

lemma writeFileStatus_at [simp]:
  "writeFileStatus st (fc_at c f p tr) =
     (let g = overwrite 49 (status_text st) f in (Inr (), fc_at c g p (tr @ [g])))"
  by (simp add: writeFileStatus_def status_text_def Let_def)

lemma readFileStatus_at:
  assumes "holds_at 49 (status_text st) f" "\<forall>ch. st \<noteq> unlisted ch"
  shows "readFileStatus (fc_at c f p tr) = (Inr st, fc_at c f p tr)"
  using read_mk [of 49 "status_text st" f tr] assms
  by (simp add: readFileStatus_def Let_def) (simp add: status_text_def)

lemma readSize_at:
  assumes "holds_at 27 (num_line n) f" "off_ok n"
  shows "readSize (fc_at c f p tr) = (Inr (), fc_at (c\<lparr>fc_size := n\<rparr>) f p tr)"
  using num_read_mk [OF assms] by (simp add: readSize_def Let_def)

lemma writeAndSetSize_at:
  "off_ok n \<Longrightarrow> writeAndSetSize n (fc_at c f p tr) =
     (let g = overwrite 27 (num_line n) f in (Inr (), fc_at (c\<lparr>fc_size := n\<rparr>) g p (tr @ [g])))"
  by (simp add: writeAndSetSize_def num_line_def Let_def)

lemma createEmptyBackup_at:
  "createEmptyBackup st (fc_at c f p tr) =
     (let g = overwrite 51 zero_backups f; h = overwrite 49 (status_text st) g
      in (Inr (), fc_at c h p (tr @ [g, h])))"
proof -
  have "concat (replicate 4 (backup_line (FileIterator_new 0 0 0))) @
      fi_write (FileIterator_new 0 0 0) @ newline # fi_write (FileIterator_new 0 0 0) @ [newline] = zero_backups"
    by (simp add: FileIterator_new_fi zero_backups_def)
  then show ?thesis by (simp add: createEmptyBackup_def Let_def)
qed

lemma writeIteratorBackup_at:
  "off_ok q \<Longrightarrow> off_ok a \<Longrightarrow> off_ok b \<Longrightarrow> writeIteratorBackup what (fi a b q) st (fc_at c f p tr) =
     (let g = overwrite (51 + (what mod 4) * 51) (bkp q a b) f; h = overwrite 49 (status_text st) g
      in (Inr (), fc_at c h p (tr @ [g, h])))"
  by (simp add: writeIteratorBackup_def backup_position_def Let_def del: of_nat_add of_nat_mult)

lemma readIteratorBackup_at:
  assumes "holds_at (51 + (what mod 4) * 51) (bkp q a b) f" "off_ok q" "off_ok a" "off_ok b"
  shows "readIteratorBackup what it (fc_at c f p tr) = (Inr (fi a b q), fc_at c f p tr)"
proof -
  let ?p = "51 + (what mod 4) * 51"
  let ?line = "padded 16 16 q @ '' '' @ padded 16 16 a @ '' '' @ padded 16 16 b"
  have bkp: "bkp q a b = ?line @ [newline]" by (simp add: bkp_def ptr_def)
  have h: "holds_at (?p + 16) ('' '' @ ptr a b) f" "holds_at ?p (padded 16 16 q @ [CHR '' '']) f"
    using assms by (simp_all add: bkp_def holds_at_append holds_at_Cons [of _ _ "ptr a b"] ptr_def
        holds_at_Cons [of _ _ "padded 16 16 a @ x" for x])
  have "st_getline (mk f ?p tr) = (?line, mk f (?p + 51) tr)"
    using getline_mk [of ?p ?line f tr] assms by (simp add: bkp add.commute)
  moreover have "st_extract 16 max_streamoff (mk f ?p tr) = (q, mk f (?p + 16) tr)"
    using extract_mk [of ?p "[]" "padded 16 16 q" "CHR '' ''" f 16 max_streamoff tr] assms h
    by (simp add: padded_all codec_simps max_streamoff_def add.commute)
  moreover note fi_read_blank_mk [OF h(1) assms(3,4), of it tr]
  moreover have "re_backup ?line" by (rule re_backup_line)
  moreover have "it\<lparr>fi_good := True, fi_prev := int a, fi_next := int b, fi_current := int q\<rparr> = fi a b q"
    by (rule fi_eqI)
  ultimately show ?thesis
    by (simp add: readIteratorBackup_def backup_position_def Let_def del: of_nat_add of_nat_mult)
qed

lemma writeLimitsBackup_at:
  "off_ok a \<Longrightarrow> off_ok b \<Longrightarrow> writeLimitsBackup st (fi a b q) False (fc_at c f p tr) =
     (let g = overwrite 255 (ptr a b) f; h = overwrite 49 (status_text st) g
      in (Inr (), fc_at c h p (tr @ [g, h])))"
  by (simp add: writeLimitsBackup_def limits_backup_position_def Let_def)

lemma readLimitsBackup_at:
  assumes "holds_at 255 (ptr a b) f" "off_ok a" "off_ok b"
  shows "readLimitsBackup it False (fc_at c f p tr) =
    (Inr (it\<lparr>fi_good := True, fi_prev := int a, fi_next := int b\<rparr>), fc_at c f p tr)"
  using fi_read_mk [OF assms, of it tr]
  by (simp add: readLimitsBackup_def limits_backup_position_def Let_def)

lemma writeStamp_at:
  "writeStamp (fc_at c f p tr) =
     (let g = overwrite 0 (stamp_line (ts_epoch (fc_stamp c)) (ts_counter (fc_stamp c))) f
      in (Inr (), fc_at c g (length (stamp_line (ts_epoch (fc_stamp c)) (ts_counter (fc_stamp c)))) (tr @ [g])))"
  by (simp add: writeStamp_def stamp_line_def ts_write_def Let_def)

lemma readStamp_at:
  assumes "holds_at 0 (stamp_line e k) f" "stamp_ok e k"
  shows "readStamp (fc_at c f p tr) =
    (Inr (), fc_at (c\<lparr>fc_stamp := \<lparr>ts_good = True, ts_epoch = e, ts_counter = k\<rparr>\<rparr>) f 26 tr)"
proof -
  have "(fc_stamp c)\<lparr>ts_good := True, ts_epoch := e, ts_counter := k\<rparr> =
      \<lparr>ts_good = True, ts_epoch = e, ts_counter = k\<rparr>"
    by (cases "fc_stamp c") simp
  with ts_read_mk [OF assms, of "fc_stamp c" tr] show ?thesis
    by (simp add: readStamp_def)
qed

lemma writeInitialPosition_at:
  "off_ok a \<Longrightarrow> off_ok b \<Longrightarrow> writeInitialPosition (fi a b q) isList (fc_at c f p tr) =
     (let pos = (if isList then 357 else 323); g = overwrite pos (ptr a b) f
      in (Inr (), fc_at c g (pos + 34) (tr @ [g])))"
  by (simp add: writeInitialPosition_def initial_position_def Let_def)

lemma readInitialPosition_at:
  assumes "holds_at (if isList then 357 else 323) (ptr a b) f" "off_ok a" "off_ok b"
  shows "readInitialPosition it isList (fc_at c f p tr) =
    (Inr (it\<lparr>fi_good := True, fi_prev := int a, fi_next := int b\<rparr>),
     fc_at c f ((if isList then 357 else 323) + 33) tr)"
  using fi_read_mk [OF assms, of it tr]
  by (simp add: readInitialPosition_def initial_position_def split: if_splits)

lemma readLimits_at:
  assumes "holds_at 323 (ptr a b) f" "off_ok a" "off_ok b"
  shows "readLimits (fc_at c f p tr) =
    (Inr (), fc_at (c\<lparr>fc_limits := (fc_limits c)\<lparr>fi_good := True, fi_prev := int a, fi_next := int b\<rparr>\<rparr>) f 356 tr)"
  using readInitialPosition_at [of False a b f] assms by (simp add: readLimits_def)

lemma readRemoved_at:
  assumes "holds_at 357 (ptr a b) f" "off_ok a" "off_ok b"
  shows "readRemoved (fc_at c f p tr) =
    (Inr (), fc_at (c\<lparr>fc_removed := (fc_removed c)\<lparr>fi_good := True, fi_prev := int a, fi_next := int b\<rparr>\<rparr>) f 390 tr)"
  using readInitialPosition_at [of True a b f] assms by (simp add: readRemoved_def)

lemma updateTimeStamp_at:
  assumes "holds_at 0 (stamp_line e k) f" "stamp_ok e k"
  shows "updateTimeStamp (fc_at c f p tr) =
    (let ts = update_stamp (fc_clock c) \<lparr>ts_good = True, ts_epoch = e, ts_counter = k\<rparr> (fc_stamp c);
         line = stamp_line (ts_epoch ts) (ts_counter ts);
         g = overwrite 0 line f
     in (Inr (), fc_at (c\<lparr>fc_stamp := ts\<rparr>) g (length line) (tr @ [g])))"
proof -
  have "(TimeStamp_new (fc_clock c))\<lparr>ts_good := True, ts_epoch := e, ts_counter := k\<rparr> =
      \<lparr>ts_good = True, ts_epoch = e, ts_counter = k\<rparr>"
    by (simp add: TimeStamp_new_def)
  with ts_read_mk [OF assms, of "TimeStamp_new (fc_clock c)" tr] show ?thesis
    by (simp add: updateTimeStamp_def Let_def stamp_line_def ts_write_def)
qed

lemma checkStamp_at:
  assumes "holds_at 0 (stamp_line e k) f" "stamp_ok e k"
  shows "checkStamp (fc_at c f p tr) =
    (Inr (ts_gt \<lparr>ts_good = True, ts_epoch = e, ts_counter = k\<rparr> (fc_stamp c)), fc_at c f 26 tr)"
proof -
  have "(TimeStamp_new (fc_clock c))\<lparr>ts_good := True, ts_epoch := e, ts_counter := k\<rparr> =
      \<lparr>ts_good = True, ts_epoch = e, ts_counter = k\<rparr>"
    by (simp add: TimeStamp_new_def)
  with ts_read_mk [OF assms, of "TimeStamp_new (fc_clock c)" tr] show ?thesis
    by (simp add: checkStamp_def)
qed

lemma readIteratorHere_at:
  assumes "holds_at p (ptr a b) f" "off_ok a" "off_ok b"
  shows "readIteratorHere it (fc_at c f p tr) = (Inr (fi a b p), fc_at c f (p + 34) tr)"
proof -
  have "holds_at (p + 33) [newline] f"
    using assms by (simp add: ptr_def holds_at_split add.commute)
  from get_mk [OF this] have "st_get (mk f (p + 33) tr) = (Some newline, mk f (p + 34) tr)"
    by (simp add: add.commute)
  with fi_read_mk [OF assms, of it tr] show ?thesis
    by (simp add: readIteratorHere_def Let_def fi_eqI)
qed

lemma readSizeAndState_at:
  assumes "holds_at p (size_line n st) f" "off_ok n" "st = CHR ''g'' \<or> st = CHR ''i''"
  shows "readSizeAndState (fc_at c f p tr) = (Inr (n, st), fc_at c f (p + 26) tr)"
proof -
  let ?line = "padded 10 23 n @ '' '' @ [st]"
  have len: "length (padded 10 23 n) = 23" using assms(2) by (simp add: codec_simps)
  have h: "holds_at p (?line @ [newline]) f" "holds_at p (padded 10 23 n @ [CHR '' '']) f"
      "holds_at (p + 23) [CHR '' ''] f" "holds_at (p + 24) [st] f" "holds_at (p + 25) [newline] f"
    using assms(1) len by (simp_all add: size_line_def holds_at_split add.commute)
  have "st_getline (mk f p tr) = (?line, mk f (p + 26) tr)"
    using getline_mk [OF h(1), of tr] len assms(3) by (auto simp: add.commute)
  moreover have "re_size_state ?line" using assms(3) by (rule re_size_state_line)
  moreover have "st_extract 10 max_size_t (mk f p tr) = (n, mk f (p + 23) tr)"
    using extract_mk [of p "[]" "padded 10 23 n" "CHR '' ''" f 10 max_size_t tr] assms(2) h len
    by (simp add: padded_all codec_simps max_size_t_def)
  moreover have "takeWhile isspace_c (drop (p + 23) f) = [CHR '' '']"
  proof -
    from assms(1) len have "holds_at (p + 23) ([CHR '' ''] @ [st]) f"
      by (simp add: size_line_def holds_at_split add.commute)
    from holds_at_drop [OF this] obtain r where "drop (p + 23) f = [CHR '' ''] @ [st] @ r" by auto
    moreover have "\<not> isspace_c st" using assms(3) by (auto simp: isspace_c_def)
    ultimately show ?thesis by simp
  qed
  moreover have "st_get (mk f (p + 24) tr) = (Some st, mk f (p + 25) tr)"
    using get_mk [OF h(4), of tr] by (simp add: add.commute)
  moreover have "st_get (mk f (p + 25) tr) = (Some newline, mk f (p + 26) tr)"
    using get_mk [OF h(5), of tr] by (simp add: add.commute)
  ultimately show ?thesis
    by (simp add: readSizeAndState_def Let_def add.commute [of p])
qed

lemma readIterator_at:
  assumes "holds_at q (ptr a b) f" "off_ok a" "off_ok b" "391 \<le> q"
  shows "readIterator (int q) it False (fc_at c f p tr) = (Inr (fi a b q), fc_at c f (q + 34) tr)"
proof -
  have "q < length f" using holds_at_bound [OF assms(1)] assms by (simp add: ptr_def)
  with readIteratorHere_at [OF assms(1-3)] assms(4) show ?thesis
    by (simp add: readIterator_def del: of_nat_add)
qed

lemma readIterator_end_at:
  "fi_good it \<Longrightarrow> readIterator (int (length f)) it False (fc_at c f p tr) =
    (Inr (fi 0 0 (length f)), fc_at c f (length f) tr)"
  using fi_eqI(1) [of it 0 0 "length f"] by (simp add: readIterator_def fi_reset_def)

lemma writeIterator_at:
  "391 \<le> q \<Longrightarrow> off_ok a \<Longrightarrow> off_ok b \<Longrightarrow> writeIterator (int q) (fi a b r) (fc_at c f p tr) =
    (let g = overwrite q (ptr a b) f in (Inr (), fc_at c g (q + 34) (tr @ [g])))"
  by (simp add: writeIterator_def Let_def)

lemma writeDataHeader_at:
  "off_ok a \<Longrightarrow> off_ok b \<Longrightarrow> off_ok n \<Longrightarrow> writeDataHeader (fi a b q) n st (fc_at c f p tr) =
    (let g = overwrite p (ptr a b) f; h = overwrite (p + 34) (size_line n st) g
     in (Inr (), fc_at c h (p + 60) (tr @ [g, h])))"
  by (simp add: writeDataHeader_def Let_def add.commute)

lemma read_pieces_step:
  assumes "0 < sz" "n = (if 8192 < sz then 8192 else sz)" "st_read n s = (t, s')" "length t = n"
  shows "read_pieces sz data s = read_pieces (sz - n) (data @ t) s'"
  by (subst read_pieces.simps) (use assms in \<open>simp only: layout_numbers Let_def fst_conv snd_conv
      if_True less_numeral_extra(3) if_False assms(2) [symmetric]\<close>, simp)

lemma read_pieces_holds:
  "holds_at q d f \<Longrightarrow> read_pieces (length d) acc (mk f q tr) = Some (acc @ d, mk f (q + length d) tr)"
proof (induction "length d" arbitrary: d q acc rule: less_induct)
  case less
  show ?case
  proof (cases "d = []")
    case True
    then show ?thesis by (simp add: read_pieces.simps)
  next
    case False
    define n where "n = (if 8192 < length d then 8192 else length d)"
    have n: "0 < n" "n \<le> length d" using False by (auto simp: n_def)
    have "holds_at q (take n d @ drop n d) f" using less.prems by simp
    then have h: "holds_at q (take n d) f" "holds_at (q + n) (drop n d) f"
      using n holds_at_append [of q "take n d" "drop n d" f] by (simp_all add: min_absorb2)
    from read_mk [OF h(1)] n have "st_read n (mk f q tr) = (take n d, mk f (q + n) tr)"
      by (simp add: min_absorb2)
    moreover have "read_pieces (length d - n) (acc @ take n d) (mk f (q + n) tr) =
        Some (acc @ d, mk f (q + length d) tr)"
      using less.hyps [of "drop n d", OF _ h(2), of "acc @ take n d"] n by simp
    ultimately show ?thesis
      using False n read_pieces_step [of "length d" n "mk f q tr" "take n d"]
      by (simp add: n_def [symmetric] min_absorb2)
  qed
qed

end
