(* ===== verification/File_Container_Inv.thy ===== *)
theory File_Container_Inv
  imports File_Container_Exec
begin

text \<open>
  What the bytes of a container file mean: \<open>hdr_at h f\<close>, the header fields of the
  file \<open>f\<close> have the values of the record \<open>h\<close>; \<open>chain f a rs e\<close>, the cells \<open>rs\<close> (offset
  and data) form a doubly linked list in \<open>f\<close> whose first cell points back to \<open>a\<close> and
  whose last cell points on to \<open>e\<close>; \<open>rep c rs\<close>, the open container \<open>c\<close> holds exactly
  these cells, and its cached limits, size and stamp agree with the file.
\<close>

section \<open>The header\<close>

record hdr =
  h_epoch :: nat
  h_counter :: nat
  h_num :: nat
  h_status :: filestatus
  h_b0 :: "nat \<times> nat \<times> nat"
  h_b1 :: "nat \<times> nat \<times> nat"
  h_b2 :: "nat \<times> nat \<times> nat"
  h_b3 :: "nat \<times> nat \<times> nat"
  h_l0 :: "nat \<times> nat"
  h_l1 :: "nat \<times> nat"
  h_limits :: "nat \<times> nat"
  h_list :: "nat \<times> nat"

abbreviation ok2 :: "nat \<times> nat \<Rightarrow> bool" where
  "ok2 x \<equiv> off_ok (fst x) \<and> off_ok (snd x)"

abbreviation ok3 :: "nat \<times> nat \<times> nat \<Rightarrow> bool" where
  "ok3 x \<equiv> off_ok (fst x) \<and> off_ok (fst (snd x)) \<and> off_ok (snd (snd x))"

definition ptr2 :: "nat \<times> nat \<Rightarrow> string" where
  "ptr2 x = ptr (fst x) (snd x)"

definition bkp3 :: "nat \<times> nat \<times> nat \<Rightarrow> string" where
  "bkp3 x = bkp (fst x) (fst (snd x)) (snd (snd x))"

lemma length_ptr2 [simp]: "ok2 x \<Longrightarrow> length (ptr2 x) = 34"
  by (simp add: ptr2_def)

lemma length_bkp3 [simp]: "ok3 x \<Longrightarrow> length (bkp3 x) = 51"
  by (simp add: bkp3_def)

definition hdr_ok :: "hdr \<Rightarrow> bool" where
  "hdr_ok h \<longleftrightarrow> stamp_ok (h_epoch h) (h_counter h) \<and> off_ok (h_num h) \<and> (\<forall>c. h_status h \<noteq> unlisted c) \<and>
     ok3 (h_b0 h) \<and> ok3 (h_b1 h) \<and> ok3 (h_b2 h) \<and> ok3 (h_b3 h) \<and>
     ok2 (h_l0 h) \<and> ok2 (h_l1 h) \<and> ok2 (h_limits h) \<and> ok2 (h_list h)"

definition hdr_at :: "hdr \<Rightarrow> string \<Rightarrow> bool" where
  "hdr_at h f \<longleftrightarrow> hdr_ok h \<and> 391 \<le> length f \<and>
     holds_at 0 (stamp_line (h_epoch h) (h_counter h)) f \<and> holds_at 27 (num_line (h_num h)) f \<and>
     holds_at 49 (status_text (h_status h)) f \<and>
     holds_at 51 (bkp3 (h_b0 h)) f \<and> holds_at 102 (bkp3 (h_b1 h)) f \<and>
     holds_at 153 (bkp3 (h_b2 h)) f \<and> holds_at 204 (bkp3 (h_b3 h)) f \<and>
     holds_at 255 (ptr2 (h_l0 h)) f \<and> holds_at 289 (ptr2 (h_l1 h)) f \<and>
     holds_at 323 (ptr2 (h_limits h)) f \<and> holds_at 357 (ptr2 (h_list h)) f"

named_theorems hdr_intros \<open>how a write changes the header\<close>

lemma hdr_ok_okD:
  "hdr_ok h \<Longrightarrow> stamp_ok (h_epoch h) (h_counter h)" "hdr_ok h \<Longrightarrow> off_ok (h_num h)"
  "hdr_ok h \<Longrightarrow> ok3 (h_b0 h)" "hdr_ok h \<Longrightarrow> ok3 (h_b1 h)" "hdr_ok h \<Longrightarrow> ok3 (h_b2 h)" "hdr_ok h \<Longrightarrow> ok3 (h_b3 h)"
  "hdr_ok h \<Longrightarrow> ok2 (h_l0 h)" "hdr_ok h \<Longrightarrow> ok2 (h_l1 h)" "hdr_ok h \<Longrightarrow> ok2 (h_limits h)" "hdr_ok h \<Longrightarrow> ok2 (h_list h)"
  by (auto simp: hdr_ok_def)

lemma hdr_at_len: "hdr_at h f \<Longrightarrow> 391 \<le> length f"
  by (simp add: hdr_at_def)

lemma hdr_stamp [hdr_intros]:
  "hdr_at h f \<Longrightarrow> stamp_ok e k \<Longrightarrow>
    hdr_at (h\<lparr>h_epoch := e, h_counter := k\<rparr>) (overwrite 0 (stamp_line e k) f)"
  using hdr_ok_okD [of h] by (simp add: hdr_at_def splice_simps) (simp add: hdr_ok_def)

lemma hdr_num [hdr_intros]:
  "hdr_at h f \<Longrightarrow> off_ok n \<Longrightarrow> hdr_at (h\<lparr>h_num := n\<rparr>) (overwrite 27 (num_line n) f)"
  using hdr_ok_okD [of h] by (simp add: hdr_at_def splice_simps) (simp add: hdr_ok_def)

lemma hdr_status [hdr_intros]:
  "hdr_at h f \<Longrightarrow> \<forall>c. st \<noteq> unlisted c \<Longrightarrow> hdr_at (h\<lparr>h_status := st\<rparr>) (overwrite 49 (status_text st) f)"
  using hdr_ok_okD [of h] by (simp add: hdr_at_def splice_simps) (simp add: hdr_ok_def)

lemma hdr_b0 [hdr_intros]:
  "hdr_at h f \<Longrightarrow> ok3 (p, a, b) \<Longrightarrow> hdr_at (h\<lparr>h_b0 := (p, a, b)\<rparr>) (overwrite 51 (bkp p a b) f)"
  using hdr_ok_okD [of h] by (simp add: hdr_at_def splice_simps) (simp add: hdr_ok_def bkp3_def splice_simps)

lemma hdr_b1 [hdr_intros]:
  "hdr_at h f \<Longrightarrow> ok3 (p, a, b) \<Longrightarrow> hdr_at (h\<lparr>h_b1 := (p, a, b)\<rparr>) (overwrite 102 (bkp p a b) f)"
  using hdr_ok_okD [of h] by (simp add: hdr_at_def splice_simps) (simp add: hdr_ok_def bkp3_def splice_simps)

lemma hdr_b2 [hdr_intros]:
  "hdr_at h f \<Longrightarrow> ok3 (p, a, b) \<Longrightarrow> hdr_at (h\<lparr>h_b2 := (p, a, b)\<rparr>) (overwrite 153 (bkp p a b) f)"
  using hdr_ok_okD [of h] by (simp add: hdr_at_def splice_simps) (simp add: hdr_ok_def bkp3_def splice_simps)

lemma hdr_l0 [hdr_intros]:
  "hdr_at h f \<Longrightarrow> ok2 (a, b) \<Longrightarrow> hdr_at (h\<lparr>h_l0 := (a, b)\<rparr>) (overwrite 255 (ptr a b) f)"
  using hdr_ok_okD [of h] by (simp add: hdr_at_def splice_simps) (simp add: hdr_ok_def ptr2_def splice_simps)

lemma hdr_limits [hdr_intros]:
  "hdr_at h f \<Longrightarrow> ok2 (a, b) \<Longrightarrow> hdr_at (h\<lparr>h_limits := (a, b)\<rparr>) (overwrite 323 (ptr a b) f)"
  using hdr_ok_okD [of h] by (simp add: hdr_at_def splice_simps) (simp add: hdr_ok_def ptr2_def splice_simps)

lemma hdr_list [hdr_intros]:
  "hdr_at h f \<Longrightarrow> ok2 (a, b) \<Longrightarrow> hdr_at (h\<lparr>h_list := (a, b)\<rparr>) (overwrite 357 (ptr a b) f)"
  using hdr_ok_okD [of h] by (simp add: hdr_at_def splice_simps) (simp add: hdr_ok_def ptr2_def splice_simps)

lemma hdr_body [hdr_intros]:
  "hdr_at h f \<Longrightarrow> 391 \<le> q \<Longrightarrow> q \<le> length f \<Longrightarrow> hdr_at h (overwrite q t f)"
  using hdr_ok_okD [of h] by (simp add: hdr_at_def splice_simps)

lemma hdr_take [hdr_intros]: "hdr_at h f \<Longrightarrow> 391 \<le> n \<Longrightarrow> hdr_at h (take n f)"
  using hdr_ok_okD [of h] by (simp add: hdr_at_def splice_simps)

lemma zero_backups_eq:
  "zero_backups = bkp 0 0 0 @ bkp 0 0 0 @ bkp 0 0 0 @ bkp 0 0 0 @ ptr 0 0 @ ptr 0 0"
proof -
  have "replicate 4 x = [x, x, x, x]" for x :: string by (simp add: eval_nat_numeral)
  then show ?thesis by (simp add: zero_backups_def)
qed

lemma holds_zero_backups:
  "holds_at 51 zero_backups f \<longleftrightarrow>
     holds_at 51 (bkp 0 0 0) f \<and> holds_at 102 (bkp 0 0 0) f \<and> holds_at 153 (bkp 0 0 0) f \<and>
     holds_at 204 (bkp 0 0 0) f \<and> holds_at 255 (ptr 0 0) f \<and> holds_at 289 (ptr 0 0) f"
  by (simp add: zero_backups_eq holds_at_append)

lemma hdr_zero [hdr_intros]:
  assumes "hdr_at h f"
  shows "hdr_at (h\<lparr>h_b0 := (0,0,0), h_b1 := (0,0,0), h_b2 := (0,0,0), h_b3 := (0,0,0), h_l0 := (0,0), h_l1 := (0,0)\<rparr>)
    (overwrite 51 zero_backups f)"
proof -
  have "holds_at 51 zero_backups (overwrite 51 zero_backups f)"
    using hdr_at_len [OF assms] by (simp add: splice_simps)
  then have z: "holds_at 51 (bkp3 (0,0,0)) (overwrite 51 zero_backups f)" "holds_at 102 (bkp3 (0,0,0)) (overwrite 51 zero_backups f)"
     "holds_at 153 (bkp3 (0,0,0)) (overwrite 51 zero_backups f)" "holds_at 204 (bkp3 (0,0,0)) (overwrite 51 zero_backups f)"
     "holds_at 255 (ptr2 (0,0)) (overwrite 51 zero_backups f)" "holds_at 289 (ptr2 (0,0)) (overwrite 51 zero_backups f)"
    unfolding holds_zero_backups by (simp_all add: bkp3_def ptr2_def)
  have "hdr_ok (h\<lparr>h_b0 := (0,0,0), h_b1 := (0,0,0), h_b2 := (0,0,0), h_b3 := (0,0,0), h_l0 := (0,0), h_l1 := (0,0)\<rparr>)"
    using assms by (simp add: hdr_at_def hdr_ok_def)
  with z assms hdr_ok_okD [of h] show ?thesis
    by (simp add: hdr_at_def splice_simps)
qed

section \<open>Cells\<close>

type_synonym cells = "(nat \<times> string) list"

definition elem_at :: "string \<Rightarrow> nat \<Rightarrow> nat \<Rightarrow> nat \<Rightarrow> string \<Rightarrow> bool" where
  "elem_at f p a b d \<longleftrightarrow> off_ok a \<and> off_ok b \<and> off_ok (length d) \<and> holds_at p (ptr a b) f \<and>
     holds_at (p + 34) (size_line (length d) CHR ''g'') f \<and> holds_at (p + 60) (d @ [newline]) f \<and>
     (\<exists>u v. off_ok u \<and> off_ok v \<and> holds_at (p + 61 + length d) (ptr u v) f)"

fun chain :: "string \<Rightarrow> nat \<Rightarrow> cells \<Rightarrow> nat \<Rightarrow> bool" where
  "chain f a [] e = True"
| "chain f a ((p, d) # rs) e = (391 \<le> p \<and> d \<noteq> [] \<and>
     elem_at f p a (case rs of [] \<Rightarrow> e | r # _ \<Rightarrow> fst r) d \<and> chain f p rs e)"

definition cell_end :: "nat \<times> string \<Rightarrow> nat" where
  "cell_end r = fst r + 95 + length (snd r)"

abbreviation disjoint_cells :: "nat \<times> string \<Rightarrow> nat \<times> string \<Rightarrow> bool" where
  "disjoint_cells r s \<equiv> cell_end r \<le> fst s \<or> cell_end s \<le> fst r"

fun apart :: "cells \<Rightarrow> bool" where
  "apart [] = True"
| "apart (r # rs) = ((\<forall>s\<in>set rs. disjoint_cells r s) \<and> apart rs)"

definition next_cell :: "cells \<Rightarrow> nat \<Rightarrow> nat" where
  "next_cell rs e = (case rs of [] \<Rightarrow> e | r # _ \<Rightarrow> fst r)"

definition last_cell :: "nat \<Rightarrow> cells \<Rightarrow> nat" where
  "last_cell a rs = (if rs = [] then a else fst (last rs))"

lemma next_last_simps [simp]:
  "next_cell [] e = e" "next_cell (r # rs) e = fst r" "last_cell a [] = a"
  "last_cell a (rs @ [r]) = fst r"
  "last_cell a (r # rs) = last_cell (fst r) rs"
  by (simp_all add: next_cell_def last_cell_def)

lemma last_cell_ind: "(\<And>r. r \<in> set rs \<Longrightarrow> P (fst r)) \<Longrightarrow> P a \<Longrightarrow> P (last_cell a rs)"
  by (simp add: last_cell_def)

lemma next_cell_ind: "(\<And>r. r \<in> set rs \<Longrightarrow> P (fst r)) \<Longrightarrow> P e \<Longrightarrow> P (next_cell rs e)"
  by (cases rs) simp_all

lemma chain_append:
  "chain f a (xs @ ys) e \<longleftrightarrow> chain f a xs (next_cell ys e) \<and> chain f (last_cell a xs) ys e"
proof (induction xs arbitrary: a)
  case Nil
  then show ?case by simp
next
  case (Cons r xs)
  obtain p d where r: "r = (p, d)" by force
  show ?case
    using Cons by (cases xs; cases ys) (auto simp: r)
qed

lemma apart_append:
  "apart (xs @ ys) \<longleftrightarrow> apart xs \<and> apart ys \<and> (\<forall>r\<in>set xs. \<forall>s\<in>set ys. disjoint_cells r s)"
  by (induction xs) auto

lemma elem_at_end: "elem_at f p a b d \<Longrightarrow> p + 95 + length d \<le> length f"
  using holds_at_bound [of "p + 61 + length d" "ptr u v" f for u v]
  by (fastforce simp: elem_at_def ptr_def)

lemma chain_cells:
  "chain f a rs e \<Longrightarrow> r \<in> set rs \<Longrightarrow> 391 \<le> fst r \<and> snd r \<noteq> [] \<and> off_ok (length (snd r)) \<and> cell_end r \<le> length f"
proof (induction rs arbitrary: a)
  case Nil
  then show ?case by simp
next
  case (Cons s rs)
  then show ?case
    using elem_at_end by (cases s) (fastforce simp: cell_end_def elem_at_def)
qed

text \<open>A cell only depends on its own bytes; with other pointers, on those behind them.\<close>

lemma elem_at_transfer:
  assumes el: "elem_at f p a b d" and h: "holds_at p (ptr a' b') f'" and ok: "off_ok a'" "off_ok b'"
    and keep: "\<And>q s. p + 34 \<le> q \<Longrightarrow> q + length s \<le> p + 95 + length d \<Longrightarrow> holds_at q s f \<Longrightarrow> holds_at q s f'"
  shows "elem_at f' p a' b' d"
proof -
  from el obtain u v where uv: "off_ok u" "off_ok v" "holds_at (p + 61 + length d) (ptr u v) f"
    and len: "off_ok (length d)" and sz: "holds_at (p + 34) (size_line (length d) CHR ''g'') f"
    and d: "holds_at (p + 60) (d @ [newline]) f"
    by (auto simp: elem_at_def)
  from keep [OF _ _ sz] keep [OF _ _ d] keep [OF _ _ uv(3)] uv len h ok show ?thesis
    unfolding elem_at_def by auto
qed

lemma elem_at_overwrite:
  "elem_at f p a b d \<Longrightarrow> q + length t \<le> p \<or> p + 95 + length d \<le> q \<Longrightarrow> q \<le> length f \<Longrightarrow>
    elem_at (overwrite q t f) p a b d"
  by (rule elem_at_transfer [of f p a b d a b]) (auto simp: splice_simps elem_at_def)

lemma elem_at_take:
  "elem_at f p a b d \<Longrightarrow> p + 95 + length d \<le> n \<Longrightarrow> elem_at (take n f) p a b d"
  by (rule elem_at_transfer [of f p a b d a b]) (auto simp: splice_simps elem_at_def)

lemma elem_at_ptr:
  assumes "elem_at f p a b d" "off_ok a'" "off_ok b'"
  shows "elem_at (overwrite p (ptr a' b') f) p a' b' d"
proof (rule elem_at_transfer [OF assms(1)])
  have "p \<le> length f" using elem_at_end [OF assms(1)] by simp
  then show "holds_at p (ptr a' b') (overwrite p (ptr a' b') f)" by (simp add: splice_simps)
  show "holds_at q s (overwrite p (ptr a' b') f)" if "p + 34 \<le> q" "holds_at q s f" for q s
    using that assms(2,3) \<open>p \<le> length f\<close> by (simp add: splice_simps)
qed (use assms in auto)

lemma chain_overwrite:
  assumes "chain f a rs e" "\<forall>r\<in>set rs. q + length t \<le> fst r \<or> cell_end r \<le> q" "q \<le> length f"
  shows "chain (overwrite q t f) a rs e"
  using assms
proof (induction rs arbitrary: a)
  case Nil
  then show ?case by simp
next
  case (Cons s rs)
  then show ?case
    by (cases s) (auto simp: cell_end_def elem_at_overwrite)
qed

lemma chain_header:
  "chain f a rs e \<Longrightarrow> q + length t \<le> 391 \<Longrightarrow> 391 \<le> length f \<Longrightarrow> chain (overwrite q t f) a rs e"
  by (rule chain_overwrite) (auto dest: chain_cells)

lemma chain_take:
  "chain f a rs e \<Longrightarrow> \<forall>r\<in>set rs. cell_end r \<le> n \<Longrightarrow> chain (take n f) a rs e"
proof (induction rs arbitrary: a)
  case Nil
  then show ?case by simp
next
  case (Cons s rs)
  then show ?case
    by (cases s) (auto simp: cell_end_def elem_at_take)
qed

lemma chain_extend: "chain f a rs e \<Longrightarrow> chain (f @ g) a rs e"
proof (induction rs arbitrary: a)
  case Nil
  then show ?case by simp
next
  case (Cons s rs)
  have keep: "holds_at q t (f @ g)" if "holds_at q t f" for q t
    using that holds_at_bound [OF that] by (cases "t = []") (auto simp: holds_at_def)
  have "elem_at (f @ g) p x y d" if "elem_at f p x y d" for p x y d
    using that by (intro elem_at_transfer [OF that]) (auto simp: elem_at_def keep)
  with Cons show ?case by (cases s) auto
qed

text \<open>Redirecting the pointers at the ends of a chain, and writing a new cell behind the file.\<close>

lemma chain_ptr:
  "chain f a (xs @ (q, d) # ys) e \<Longrightarrow>
    elem_at f q (last_cell a xs) (next_cell ys e) d \<and> 391 \<le> q \<and> d \<noteq> []"
  by (cases ys) (auto simp: chain_append)

lemma elem_at_holds:
  "elem_at f q a b d \<Longrightarrow> holds_at q (ptr a b) f \<and> off_ok a \<and> off_ok b \<and> off_ok (length d)"
  by (simp add: elem_at_def)

lemma chain_other:
  assumes "chain f a rs e" "\<forall>r\<in>set rs. disjoint_cells (q, d) r" "cell_end (q, d) \<le> length f"
    "off_ok x" "off_ok y"
  shows "chain (overwrite q (ptr x y) f) a rs e"
  using assms by (intro chain_overwrite) (auto simp: cell_end_def)

lemma chain_set_prev:
  assumes "chain f a ((q, d) # ys) e" "apart ((q, d) # ys)" "off_ok a'" "off_ok e"
  shows "chain (overwrite q (ptr a' (next_cell ys e)) f) a' ((q, d) # ys) e"
proof -
  have el: "elem_at f q a (next_cell ys e) d" "391 \<le> q" "d \<noteq> []"
    using chain_ptr [of f a "[]" q d ys e] assms(1) by simp_all
  note ok = elem_at_holds [OF el(1)]
  have "chain (overwrite q (ptr a' (next_cell ys e)) f) q ys e"
    using assms ok elem_at_end [OF el(1)] by (intro chain_other [of f q ys e q d]) (auto simp: cell_end_def)
  moreover have "elem_at (overwrite q (ptr a' (next_cell ys e)) f) q a' (next_cell ys e) d"
    using el(1) assms(3) ok by (intro elem_at_ptr) auto
  ultimately show ?thesis using el by (simp add: next_cell_def)
qed

lemma chain_set_next:
  assumes "chain f a (xs @ [(q, d)]) e" "apart (xs @ [(q, d)])" "off_ok e'"
  shows "chain (overwrite q (ptr (last_cell a xs) e') f) a (xs @ [(q, d)]) e'"
proof -
  have el: "elem_at f q (last_cell a xs) e d" "391 \<le> q" "d \<noteq> []"
    using chain_ptr [of f a xs q d "[]" e] assms(1) by simp_all
  note ok = elem_at_holds [OF el(1)]
  have "chain (overwrite q (ptr (last_cell a xs) e') f) a xs q"
    using assms ok elem_at_end [OF el(1)]
    by (intro chain_other [of f a xs q q d]) (auto simp: cell_end_def chain_append apart_append)
  moreover have "elem_at (overwrite q (ptr (last_cell a xs) e') f) q (last_cell a xs) e' d"
    using el(1) assms(3) ok by (intro elem_at_ptr) auto
  ultimately show ?thesis using el by (simp add: chain_append)
qed

definition put_cell :: "nat \<Rightarrow> nat \<Rightarrow> nat \<Rightarrow> nat \<Rightarrow> string \<Rightarrow> string \<Rightarrow> string" where
  "put_cell a b u v d f = overwrite (length f + 60) (d @ [newline] @ ptr u v)
     (overwrite (length f + 34) (size_line (length d) CHR ''g'') (overwrite (length f) (ptr a b) f))"

lemma put_cell:
  assumes ok: "off_ok a" "off_ok b" "off_ok u" "off_ok v" "off_ok (length d)"
  shows "length (put_cell a b u v d f) = length f + 95 + length d" (is ?len)
    and "elem_at (put_cell a b u v d f) (length f) a b d" (is ?el)
    and "chain f x rs e \<Longrightarrow> chain (put_cell a b u v d f) x rs e"
proof -
  have eq: "put_cell a b u v d f = f @ ptr a b @ size_line (length d) CHR ''g'' @ d @ [newline] @ ptr u v"
    using ok by (simp add: put_cell_def overwrite_def)
  show ?len using ok by (simp add: eq)
  have "holds_at (length f + 61 + length d) (ptr u v) (put_cell a b u v d f)"
    using ok by (simp add: eq holds_at_def)
  moreover have "holds_at (length f) (ptr a b) (put_cell a b u v d f)"
    "holds_at (length f + 34) (size_line (length d) CHR ''g'') (put_cell a b u v d f)"
    "holds_at (length f + 60) (d @ [newline]) (put_cell a b u v d f)"
    using ok by (simp_all add: eq holds_at_def)
  ultimately show ?el
    using ok unfolding elem_at_def by blast
  have "take (length f) (put_cell a b u v d f) = f" by (simp add: eq)
  then show "chain (put_cell a b u v d f) x rs e" if "chain f x rs e"
    using that by (auto simp: eq intro: chain_extend)
qed

text \<open>Inserting a cell: its neighbours are redirected to the new offset, the new cell
  points to them.\<close>

definition relink_prev :: "cells \<Rightarrow> nat \<Rightarrow> nat \<Rightarrow> string \<Rightarrow> string" where
  "relink_prev ys a e f = (case ys of [] \<Rightarrow> f | r # rs \<Rightarrow> overwrite (fst r) (ptr a (next_cell rs e)) f)"

definition relink_next :: "nat \<Rightarrow> cells \<Rightarrow> nat \<Rightarrow> string \<Rightarrow> string" where
  "relink_next a xs e f = (if xs = [] then f
     else overwrite (last_cell a xs) (ptr (last_cell a (butlast xs)) e) f)"

lemma relink_prev_chain:
  assumes "chain f a ys e" "apart ys" "off_ok a'" "off_ok e"
  shows "chain (relink_prev ys a' e f) a' ys e" "length (relink_prev ys a' e f) = length f"
    "chain f b xs x \<Longrightarrow> \<forall>r\<in>set xs. \<forall>s\<in>set ys. disjoint_cells r s \<Longrightarrow> chain (relink_prev ys a' e f) b xs x"
proof -
  show "chain (relink_prev ys a' e f) a' ys e"
    using assms chain_set_prev by (cases ys) (auto simp: relink_prev_def)
  have el: "elem_at f (fst r) a (next_cell rs e) (snd r)" if "ys = r # rs" for r rs
    using that assms(1) chain_ptr [of f a "[]" "fst r" "snd r" rs e] by simp
  note ok = elem_at_holds [OF el] elem_at_end [OF el]
  show "length (relink_prev ys a' e f) = length f"
  proof (cases ys)
    case (Cons r rs)
    then show ?thesis using ok [OF Cons] assms(3) by (simp add: relink_prev_def length_overwrite_inside)
  qed (simp add: relink_prev_def)
  show "chain (relink_prev ys a' e f) b xs x" if "chain f b xs x" "\<forall>r\<in>set xs. \<forall>s\<in>set ys. disjoint_cells r s"
  proof (cases ys)
    case (Cons r rs)
    then show ?thesis
      using that ok [OF Cons] assms(3) chain_other [of f b xs x "fst r" "snd r" a' "next_cell rs e"]
      by (auto simp: relink_prev_def cell_end_def)
  qed (simp add: relink_prev_def that)
qed

lemma relink_next_chain:
  assumes "chain f a xs e" "apart xs" "off_ok e'"
  shows "chain (relink_next a xs e' f) a xs e'" "length (relink_next a xs e' f) = length f"
    "chain f b ys y \<Longrightarrow> \<forall>r\<in>set xs. \<forall>s\<in>set ys. disjoint_cells r s \<Longrightarrow> chain (relink_next a xs e' f) b ys y"
proof -
  have el: "elem_at f (fst r) (last_cell a rs) e (snd r)" if "xs = rs @ [r]" for r rs
    using that assms(1) chain_ptr [of f a rs "fst r" "snd r" "[]" e] by simp
  note ok = elem_at_holds [OF el] elem_at_end [OF el]
  show "chain (relink_next a xs e' f) a xs e'"
    using assms chain_set_next [of f a _ _ _ e e'] by (cases xs rule: rev_cases) (auto simp: relink_next_def)
  show "length (relink_next a xs e' f) = length f"
  proof (cases xs rule: rev_cases)
    case (snoc rs r)
    then show ?thesis using ok [OF snoc] assms(3) by (simp add: relink_next_def length_overwrite_inside)
  qed (simp add: relink_next_def)
  show "chain (relink_next a xs e' f) b ys y" if "chain f b ys y" "\<forall>r\<in>set xs. \<forall>s\<in>set ys. disjoint_cells r s"
  proof (cases xs rule: rev_cases)
    case (snoc rs r)
    then show ?thesis
      using that ok [OF snoc] assms(3) chain_other [of f b ys y "fst r" "snd r" "last_cell a rs" e']
      by (auto simp: relink_next_def cell_end_def)
  qed (simp add: relink_next_def that)
qed

lemma insert_cell_chain:
  assumes ch: "chain f 0 (xs @ ys) L" and ap: "apart (xs @ ys)" and L: "L = length f" "391 \<le> L"
    and d: "d \<noteq> []" and ok: "off_ok N" "N = L + 95 + length d" "off_ok u"
    and e: "e = (if ys = [] then N else L)"
    and G: "G = put_cell (last_cell 0 xs) (next_cell ys N) u N d (relink_next 0 xs L (relink_prev ys L L f))"
  shows "chain G 0 (xs @ (L, d) # ys) e" "length G = N" "apart (xs @ (L, d) # ys)"
proof -
  have off: "off_ok L" "off_ok (length d)" using ok by auto
  have cells: "\<forall>r\<in>set (xs @ ys). cell_end r \<le> L" using chain_cells [OF ch] L by simp
  have offs: "off_ok (fst r)" if "r \<in> set (xs @ ys)" for r
  proof -
    from that cells have "cell_end r \<le> L" by blast
    with off show ?thesis by (simp add: cell_end_def)
  qed
  have "last_cell 0 xs = 0 \<or> last_cell 0 xs \<in> fst ` set xs" by (simp add: last_cell_def)
  with offs have lo: "off_ok (last_cell 0 xs)" by fastforce
  have no: "off_ok (next_cell ys N)" using offs ok by (cases ys) (auto simp: next_cell_def)
  from ch ap have c0: "chain f 0 xs (next_cell ys L)" "chain f (last_cell 0 xs) ys L" "apart xs" "apart ys"
    "\<forall>r\<in>set xs. \<forall>s\<in>set ys. disjoint_cells r s" by (auto simp: chain_append apart_append)
  define g where "g = relink_prev ys L L f"
  note r1 = relink_prev_chain [OF c0(2,4) off(1) off(1), folded g_def]
  have g: "chain g L ys L" "chain g 0 xs (next_cell ys L)" "length g = L"
    using r1 c0 L by auto
  define k where "k = relink_next 0 xs L g"
  note r2 = relink_next_chain [OF g(2) c0(3) off(1), folded k_def]
  have k: "chain k 0 xs L" "chain k L ys L" "length k = L"
    using r2 g c0 by auto
  note pc = put_cell [where f = k, OF lo no ok(3) ok(1) off(2)]
  have Gk: "G = put_cell (last_cell 0 xs) (next_cell ys N) u N d k" by (simp add: G k_def g_def)
  show "length G = N" using pc(1) k ok by (simp add: Gk)
  have "chain G 0 xs L" "chain G L ys e" "elem_at G L (last_cell 0 xs) (next_cell ys e) d"
    using pc(2) pc(3) k e by (auto simp: Gk next_cell_def split: list.splits)
  then show "chain G 0 (xs @ (L, d) # ys) e"
    using d L by (cases ys) (auto simp: chain_append)
  show "apart (xs @ (L, d) # ys)"
    using ap cells by (auto simp: apart_append cell_end_def)
qed

text \<open>There are at most as many cells as bytes.\<close>

lemma apart_distinct: "apart rs \<Longrightarrow> distinct (map fst rs)"
  by (induction rs) (auto simp: cell_end_def)

lemma chain_length:
  assumes "chain f a rs e" "apart rs"
  shows "length rs \<le> length f"
proof -
  have "set (map fst rs) \<subseteq> {..<length f}"
    using chain_cells [OF assms(1)] by (fastforce simp: cell_end_def)
  then have "card (set (map fst rs)) \<le> length f"
    using card_mono [of "{..<length f}" "set (map fst rs)"] by simp
  then show ?thesis
    using distinct_card [OF apart_distinct [OF assms(2)]] by simp
qed

end
