(* ===== verification/File_Container_Log.thy ===== *)
theory File_Container_Log
  imports File_Container_Inv
begin

text \<open>
  Runs of the container as logs of writes: \<open>fc_log c es p f tr\<close> is the container \<open>c\<close>
  whose stream started with the file \<open>f\<close> and has done the writes \<open>es\<close> since. A write
  is an \<open>event\<close>, either to one field of the header or into the body of the file. Every
  private method appends to the log; the files a crash can leave behind are the
  contents after the prefixes of the log.
\<close>

section \<open>Events\<close>

datatype event =
    Stamp nat nat
  | Num nat
  | Status filestatus
  | Backup0 nat nat nat
  | Backup1 nat nat nat
  | Backup2 nat nat nat
  | LimitsBackup nat nat
  | Wipe
  | Limits nat nat
  | Removed nat nat
  | Body nat string
  | Cut nat

fun ev_write :: "event \<Rightarrow> string \<Rightarrow> string" where
  "ev_write (Stamp e k) f = overwrite 0 (stamp_line e k) f"
| "ev_write (Num n) f = overwrite 27 (num_line n) f"
| "ev_write (Status st) f = overwrite 49 (status_text st) f"
| "ev_write (Backup0 p a b) f = overwrite 51 (bkp p a b) f"
| "ev_write (Backup1 p a b) f = overwrite 102 (bkp p a b) f"
| "ev_write (Backup2 p a b) f = overwrite 153 (bkp p a b) f"
| "ev_write (LimitsBackup a b) f = overwrite 255 (ptr a b) f"
| "ev_write Wipe f = overwrite 51 zero_backups f"
| "ev_write (Limits a b) f = overwrite 323 (ptr a b) f"
| "ev_write (Removed a b) f = overwrite 357 (ptr a b) f"
| "ev_write (Body q t) f = overwrite q t f"
| "ev_write (Cut n) f = take n f"

text \<open>What an event does to the fields of the header and to the length of the file.\<close>

fun ev_hdr :: "event \<Rightarrow> hdr \<Rightarrow> hdr" where
  "ev_hdr (Stamp e k) h = h\<lparr>h_epoch := e, h_counter := k\<rparr>"
| "ev_hdr (Num n) h = h\<lparr>h_num := n\<rparr>"
| "ev_hdr (Status st) h = h\<lparr>h_status := st\<rparr>"
| "ev_hdr (Backup0 p a b) h = h\<lparr>h_b0 := (p, a, b)\<rparr>"
| "ev_hdr (Backup1 p a b) h = h\<lparr>h_b1 := (p, a, b)\<rparr>"
| "ev_hdr (Backup2 p a b) h = h\<lparr>h_b2 := (p, a, b)\<rparr>"
| "ev_hdr (LimitsBackup a b) h = h\<lparr>h_l0 := (a, b)\<rparr>"
| "ev_hdr Wipe h = h\<lparr>h_b0 := (0,0,0), h_b1 := (0,0,0), h_b2 := (0,0,0), h_b3 := (0,0,0),
     h_l0 := (0,0), h_l1 := (0,0)\<rparr>"
| "ev_hdr (Limits a b) h = h\<lparr>h_limits := (a, b)\<rparr>"
| "ev_hdr (Removed a b) h = h\<lparr>h_list := (a, b)\<rparr>"
| "ev_hdr (Body q t) h = h"
| "ev_hdr (Cut n) h = h"

fun ev_ok :: "event \<Rightarrow> nat \<Rightarrow> bool" where
  "ev_ok (Stamp e k) n = stamp_ok e k"
| "ev_ok (Num m) n = off_ok m"
| "ev_ok (Status st) n = (\<forall>c. st \<noteq> unlisted c)"
| "ev_ok (Backup0 p a b) n = (off_ok p \<and> off_ok a \<and> off_ok b)"
| "ev_ok (Backup1 p a b) n = (off_ok p \<and> off_ok a \<and> off_ok b)"
| "ev_ok (Backup2 p a b) n = (off_ok p \<and> off_ok a \<and> off_ok b)"
| "ev_ok (LimitsBackup a b) n = (off_ok a \<and> off_ok b)"
| "ev_ok Wipe n = True"
| "ev_ok (Limits a b) n = (off_ok a \<and> off_ok b)"
| "ev_ok (Removed a b) n = (off_ok a \<and> off_ok b)"
| "ev_ok (Body q t) n = (391 \<le> q \<and> q \<le> n)"
| "ev_ok (Cut m) n = (391 \<le> m \<and> m \<le> n)"

fun ev_len :: "event \<Rightarrow> nat \<Rightarrow> nat" where
  "ev_len (Body q t) n = max n (q + length t)"
| "ev_len (Cut m) n = m"
| "ev_len _ n = n"

fun is_body :: "event \<Rightarrow> bool" where
  "is_body (Body q t) = True"
| "is_body (Cut n) = True"
| "is_body _ = False"

fun run_events :: "event list \<Rightarrow> string \<Rightarrow> string" where
  "run_events [] f = f"
| "run_events (e # es) f = run_events es (ev_write e f)"

fun events_hdr :: "event list \<Rightarrow> hdr \<Rightarrow> hdr" where
  "events_hdr [] h = h"
| "events_hdr (e # es) h = events_hdr es (ev_hdr e h)"

fun events_len :: "event list \<Rightarrow> nat \<Rightarrow> nat" where
  "events_len [] n = n"
| "events_len (e # es) n = events_len es (ev_len e n)"

fun events_ok :: "event list \<Rightarrow> nat \<Rightarrow> bool" where
  "events_ok [] n = True"
| "events_ok (e # es) n = (ev_ok e n \<and> events_ok es (ev_len e n))"

fun snaps :: "string \<Rightarrow> event list \<Rightarrow> string list" where
  "snaps f [] = []"
| "snaps f (e # es) = ev_write e f # snaps (ev_write e f) es"

lemma run_events_append [simp]: "run_events (es @ vs) f = run_events vs (run_events es f)"
  by (induction es f rule: run_events.induct) auto

lemma snaps_append [simp]: "snaps f (es @ vs) = snaps f es @ snaps (run_events es f) vs"
  by (induction f es rule: snaps.induct) auto

lemma events_ok_append [simp]: "events_ok (es @ vs) n \<longleftrightarrow> events_ok es n \<and> events_ok vs (events_len es n)"
  by (induction es n rule: events_ok.induct) auto

lemma events_len_append [simp]: "events_len (es @ vs) n = events_len vs (events_len es n)"
  by (induction es n rule: events_len.induct) auto

lemma events_hdr_append [simp]: "events_hdr (es @ vs) h = events_hdr vs (events_hdr es h)"
  by (induction es h rule: events_hdr.induct) auto

lemma snaps_prefixes: "set (snaps f es) = {run_events (take i es) f |i. 0 < i \<and> i \<le> length es}"
proof (induction es rule: rev_induct)
  case Nil
  then show ?case by auto
next
  case (snoc e es)
  have "{run_events (take i (es @ [e])) f |i. 0 < i \<and> i \<le> length (es @ [e])} =
      {run_events (take i es) f |i. 0 < i \<and> i \<le> length es} \<union> {run_events (es @ [e]) f}"
    by (force simp: le_Suc_eq)
  with snoc show ?case by simp
qed

lemma events_ok_take: "events_ok es n \<Longrightarrow> events_ok (take i es) n"
  using events_ok_append [of "take i es" "drop i es" n] by simp

lemma ev_hdr_at:
  assumes "hdr_at h f" "ev_ok e (length f)"
  shows "hdr_at (ev_hdr e h) (ev_write e f)"
  using assms by (cases e) (simp_all add: hdr_intros)

lemma length_ev_write:
  "391 \<le> length f \<Longrightarrow> ev_ok e (length f) \<Longrightarrow> length (ev_write e f) = ev_len e (length f)"
  by (cases e) (simp_all add: length_overwrite)

lemma ev_len_header: "391 \<le> n \<Longrightarrow> ev_ok e n \<Longrightarrow> 391 \<le> ev_len e n"
  by (cases e) auto

lemma length_run_events:
  "391 \<le> length f \<Longrightarrow> events_ok es (length f) \<Longrightarrow>
     length (run_events es f) = events_len es (length f) \<and> 391 \<le> length (run_events es f)"
proof (induction es f rule: run_events.induct)
  case (2 e es f)
  with length_ev_write [of f e] ev_len_header [of "length f" e] show ?case by auto
qed simp

lemma hdr_run_events:
  "hdr_at h f \<Longrightarrow> events_ok es (length f) \<Longrightarrow> hdr_at (events_hdr es h) (run_events es f)"
proof (induction es f arbitrary: h rule: run_events.induct)
  case (2 e es f)
  then show ?case
    using ev_hdr_at [of h f e] length_ev_write [of f e] by (simp add: hdr_at_len)
qed simp

text \<open>The cells depend on the body only: the writes to the header drop out.\<close>

lemma drop_overwrite_header:
  "q + length t \<le> n \<Longrightarrow> n \<le> length f \<Longrightarrow> drop n (overwrite q t f) = drop n f"
  by (simp add: overwrite_def)

lemma drop_overwrite_body:
  "n \<le> q \<Longrightarrow> q \<le> length f \<Longrightarrow> drop n (overwrite q t f) = overwrite (q - n) t (drop n f)"
  by (simp add: overwrite_def drop_take)

lemma drop_ev_header:
  "\<not> is_body e \<Longrightarrow> ev_ok e (length f) \<Longrightarrow> 391 \<le> length f \<Longrightarrow> drop 391 (ev_write e f) = drop 391 f"
  by (cases e) (simp_all add: drop_overwrite_header)

lemma drop_ev_body:
  "is_body e \<Longrightarrow> ev_ok e (length f) \<Longrightarrow> ev_ok e (length g) \<Longrightarrow> drop 391 f = drop 391 g \<Longrightarrow>
     drop 391 (ev_write e f) = drop 391 (ev_write e g)"
  by (cases e) (simp_all add: drop_overwrite_body drop_take)

lemma drop_run_body:
  assumes "events_ok es (length f)" "391 \<le> length f" "length g = length f" "drop 391 f = drop 391 g"
  shows "drop 391 (run_events es f) = drop 391 (run_events (filter is_body es) g)"
  using assms
proof (induction es f arbitrary: g rule: run_events.induct)
  case (2 e es f)
  then have len: "length (ev_write e f) = ev_len e (length f)" "length (ev_write e g) = ev_len e (length f)"
    using length_ev_write [of f e] length_ev_write [of g e] by simp_all
  have le: "391 \<le> length (ev_write e f)" using ev_len_header [of "length f" e] len 2 by simp
  show ?case
  proof (cases "is_body e")
    case True
    with 2(2-) have "drop 391 (ev_write e f) = drop 391 (ev_write e g)"
      using drop_ev_body [of e f g] by simp
    with 2(2) len le have "drop 391 (run_events es (ev_write e f)) =
        drop 391 (run_events (filter is_body es) (ev_write e g))"
      by (intro 2(1)) simp_all
    with True show ?thesis by simp
  next
    case False
    then have n: "ev_len e (length f) = length f" by (cases e) simp_all
    from False 2(2-) have "drop 391 (ev_write e f) = drop 391 g"
      using drop_ev_header [of e f] by simp
    with 2(2,4) len le n have "drop 391 (run_events es (ev_write e f)) =
        drop 391 (run_events (filter is_body es) g)"
      by (intro 2(1)) simp_all
    with False show ?thesis by simp
  qed
qed simp

lemma holds_at_drop_iff: "n \<le> p \<Longrightarrow> holds_at p s f \<longleftrightarrow> holds_at (p - n) s (drop n f)"
  by (auto simp: holds_at_def)

lemma elem_at_body: "391 \<le> p \<Longrightarrow> drop 391 f = drop 391 g \<Longrightarrow> elem_at f p a b d \<Longrightarrow> elem_at g p a b d"
  by (simp add: elem_at_def holds_at_drop_iff [of 391 _ _ f] holds_at_drop_iff [of 391 _ _ g])

lemma chain_body: "drop 391 f = drop 391 g \<Longrightarrow> chain f a rs e \<Longrightarrow> chain g a rs e"
proof (induction rs arbitrary: a)
  case Nil
  then show ?case by simp
next
  case (Cons r rs)
  then show ?case by (cases r) (auto intro: elem_at_body)
qed

lemma chain_run_body:
  assumes "chain (run_events (filter is_body es) f) a rs e" "events_ok es (length f)" "391 \<le> length f"
  shows "chain (run_events es f) a rs e"
  using chain_body [OF _ assms(1)] drop_run_body [of es f f] assms by simp

section \<open>The private methods on logs\<close>

definition fc_log :: "file_container \<Rightarrow> event list \<Rightarrow> nat \<Rightarrow> string \<Rightarrow> string list \<Rightarrow> file_container" where
  "fc_log c es p f tr = fc_at c (run_events es f) p (tr @ snaps f es)"

lemma fc_log_simps [simp]:
  "fc_initialized (fc_log c ws p f tr) = fc_initialized c"
  "fc_size (fc_log c ws p f tr) = fc_size c" "fc_stamp (fc_log c ws p f tr) = fc_stamp c"
  "fc_filename (fc_log c ws p f tr) = fc_filename c" "fc_limits (fc_log c ws p f tr) = fc_limits c"
  "fc_removed (fc_log c ws p f tr) = fc_removed c" "fc_clock (fc_log c ws p f tr) = fc_clock c"
  "fc_disk (fc_log c ws p f tr) = fc_disk c" "fc_access (fc_log c ws p f tr) = fc_access c"
  "fc_budget (fc_log c ws p f tr) = fc_budget c" "fc_stream (fc_log c ws p f tr) = Some (mk (run_events ws f) p (tr @ snaps f ws))"
  "(fc_log c ws p f tr)\<lparr>fc_initialized := b\<rparr> = fc_log (c\<lparr>fc_initialized := b\<rparr>) ws p f tr"
  "(fc_log c ws p f tr)\<lparr>fc_size := n\<rparr> = fc_log (c\<lparr>fc_size := n\<rparr>) ws p f tr"
  "(fc_log c ws p f tr)\<lparr>fc_stamp := ts\<rparr> = fc_log (c\<lparr>fc_stamp := ts\<rparr>) ws p f tr"
  "(fc_log c ws p f tr)\<lparr>fc_limits := l\<rparr> = fc_log (c\<lparr>fc_limits := l\<rparr>) ws p f tr"
  "(fc_log c ws p f tr)\<lparr>fc_removed := l\<rparr> = fc_log (c\<lparr>fc_removed := l\<rparr>) ws p f tr"
  "(fc_log c ws p f tr)\<lparr>fc_disk := d\<rparr> = fc_log (c\<lparr>fc_disk := d\<rparr>) ws p f tr"
  by (simp_all add: fc_log_def)

lemma fc_at_log: "fc_at c f p tr = fc_log c [] p f tr"
  by (simp add: fc_log_def)

named_theorems log_simps \<open>the private methods on logs\<close>

lemma fc_getEnd_log [log_simps]:
  "fc_getEnd (fc_log c ws p f tr) =
     (Inr (int (length (run_events ws f))), fc_log c ws (length (run_events ws f)) f tr)"
  by (simp add: fc_log_def)

lemma writeFileStatus_log [log_simps]:
  "writeFileStatus st (fc_log c ws p f tr) = (Inr (), fc_log c (ws @ [Status st]) p f tr)"
  by (simp add: fc_log_def Let_def)

lemma writeAndSetSize_log [log_simps]:
  "off_ok n \<Longrightarrow> writeAndSetSize n (fc_log c ws p f tr) =
     (Inr (), fc_log (c\<lparr>fc_size := n\<rparr>) (ws @ [Num n]) p f tr)"
  by (simp add: fc_log_def writeAndSetSize_at Let_def)

lemma createEmptyBackup_log [log_simps]:
  "createEmptyBackup st (fc_log c ws p f tr) =
     (Inr (), fc_log c (ws @ [Wipe, Status st]) p f tr)"
  by (simp add: fc_log_def createEmptyBackup_at Let_def)

lemma writeIteratorBackup_log [log_simps]:
  "off_ok q \<Longrightarrow> off_ok a \<Longrightarrow> off_ok b \<Longrightarrow> writeIteratorBackup 0 (fi a b q) st (fc_log c ws p f tr) =
     (Inr (), fc_log c (ws @ [Backup0 q a b, Status st]) p f tr)"
  "off_ok q \<Longrightarrow> off_ok a \<Longrightarrow> off_ok b \<Longrightarrow> writeIteratorBackup 1 (fi a b q) st (fc_log c ws p f tr) =
     (Inr (), fc_log c (ws @ [Backup1 q a b, Status st]) p f tr)"
  "off_ok q \<Longrightarrow> off_ok a \<Longrightarrow> off_ok b \<Longrightarrow> writeIteratorBackup (Suc 0) (fi a b q) st (fc_log c ws p f tr) =
     (Inr (), fc_log c (ws @ [Backup1 q a b, Status st]) p f tr)"
  "off_ok q \<Longrightarrow> off_ok a \<Longrightarrow> off_ok b \<Longrightarrow> writeIteratorBackup 2 (fi a b q) st (fc_log c ws p f tr) =
     (Inr (), fc_log c (ws @ [Backup2 q a b, Status st]) p f tr)"
  by (simp_all add: fc_log_def writeIteratorBackup_at Let_def)

lemma writeLimitsBackup_log [log_simps]:
  "off_ok a \<Longrightarrow> off_ok b \<Longrightarrow> writeLimitsBackup st (fi a b q) False (fc_log c ws p f tr) =
     (Inr (), fc_log c (ws @ [LimitsBackup a b, Status st]) p f tr)"
  by (simp add: fc_log_def writeLimitsBackup_at Let_def)

lemma writeInitialPosition_log [log_simps]:
  "off_ok a \<Longrightarrow> off_ok b \<Longrightarrow> writeInitialPosition (fi a b q) False (fc_log c ws p f tr) =
     (Inr (), fc_log c (ws @ [Limits a b]) 357 f tr)"
  "off_ok a \<Longrightarrow> off_ok b \<Longrightarrow> writeInitialPosition (fi a b q) True (fc_log c ws p f tr) =
     (Inr (), fc_log c (ws @ [Removed a b]) 391 f tr)"
  by (simp_all add: fc_log_def writeInitialPosition_at Let_def)

lemma writeIterator_log [log_simps]:
  "391 \<le> q \<Longrightarrow> off_ok a \<Longrightarrow> off_ok b \<Longrightarrow> writeIterator (int q) (fi a b r) (fc_log c ws p f tr) =
     (Inr (), fc_log c (ws @ [Body q (ptr a b)]) (q + 34) f tr)"
  by (simp add: fc_log_def writeIterator_at Let_def)

lemma readIterator_log [log_simps]:
  "holds_at q (ptr a b) (run_events ws f) \<Longrightarrow> off_ok a \<Longrightarrow> off_ok b \<Longrightarrow> 391 \<le> q \<Longrightarrow>
    readIterator (int q) it False (fc_log c ws p f tr) = (Inr (fi a b q), fc_log c ws (q + 34) f tr)"
  by (simp add: fc_log_def readIterator_at)

lemma writeDataHere_log [log_simps]:
  assumes "data \<noteq> []" "off_ok a" "off_ok b" "off_ok u" "off_ok v" "off_ok (length data)"
    and L: "L = length (run_events ws f)" "391 \<le> L"
  shows "writeDataHere (fi a b q) (fi u v r) data st (fc_log c ws p f tr) =
     (Inr (), fc_log c (ws @ [Status st, Body L (ptr a b), Body (L + 34) (size_line (length data) CHR ''g''),
        Body (L + 60) (data @ [newline] @ ptr u v), Status (status_succ st)]) (L + 95 + length data) f tr)"
proof -
  have shift: "95 + (L + length data) = L + 95 + length data"
    by simp
  show ?thesis
    using assms by (simp add: writeDataHere_def fc_log_def writeDataHeader_at Let_def shift flip: L(1))
qed

lemma resetNextOfLast_log [log_simps]:
  assumes "fc_limits c = fi a' l x" "holds_at l (ptr a b) (run_events ws f)"
    and ok: "off_ok a" "off_ok b" "off_ok l" "391 \<le> l" "off_ok L"
    and L: "L = length (run_events (ws @ [Backup2 l a b, Status st]) f)"
  shows "resetNextOfLast st (fc_log c ws p f tr) =
     (Inr (), fc_log c (ws @ [Backup2 l a b, Status st, Body l (ptr a L)]) (l + 34) f tr)"
  using assms by (simp add: resetNextOfLast_def FileIterator_new_fi log_simps del: run_events_append)

lemma readSizeAndState_log [log_simps]:
  "holds_at p (size_line n CHR ''g'') (run_events ws f) \<Longrightarrow> off_ok n \<Longrightarrow>
     readSizeAndState (fc_log c ws p f tr) = (Inr (n, CHR ''g''), fc_log c ws (p + 26) f tr)"
  by (simp add: fc_log_def readSizeAndState_at)

lemma markDataAsErased_log [log_simps]:
  assumes "off_ok q" "off_ok a" "off_ok b" "off_ok n"
  shows "markDataAsErased (fi a b q) n st (fc_log c ws p f tr) =
     (Inr (), fc_log c (ws @ [Backup2 q a b, Status st, Body q (ptr a b), Body (q + 34) (size_line n CHR ''i'')])
       (q + 60) f tr)"
  using assms by (simp add: markDataAsErased_def writeIteratorBackup_log)
    (simp add: fc_log_def writeDataHeader_at Let_def)

lemma truncateFile_log [log_simps]:
  "0 < n \<Longrightarrow> n \<le> length (run_events ws f) \<Longrightarrow>
     truncateFile (int n) (fc_log c ws p f tr) = (Inr (), fc_log c (ws @ [Cut n, Status ft_end]) 0 f tr)"
  by (simp add: truncateFile_def fc_log_def Let_def)

end
