(* ===== verification/File_Container_Ops.thy ===== *)
theory File_Container_Ops
  imports File_Container_Log
begin

text \<open>
  The public methods on a container file that holds the cells \<open>rs\<close>.
\<close>

section \<open>Files and handles\<close>

definition stamp_of :: "hdr \<Rightarrow> TimeStamp" where
  "stamp_of h = \<lparr>ts_good = True, ts_epoch = h_epoch h, ts_counter = h_counter h\<rparr>"

definition file_ok :: "string \<Rightarrow> hdr \<Rightarrow> cells \<Rightarrow> bool" where
  "file_ok f h rs \<longleftrightarrow> hdr_at h f \<and> h_num h = length rs \<and> h_status h = closed \<and>
     h_limits h = (next_cell rs 391, last_cell 391 rs) \<and> chain f 0 rs (length f) \<and> apart rs \<and>
     off_ok (length f) \<and> (rs = [] \<longrightarrow> length f = 391)"

text \<open>The cached fields of a handle agree with the file.\<close>

definition synced :: "file_container \<Rightarrow> cells \<Rightarrow> bool" where
  "synced c rs \<longleftrightarrow> fc_initialized c \<and> fc_size c = length rs \<and>
     (\<exists>x. fc_limits c = fi (next_cell rs 391) (last_cell 391 rs) x)"

definition handle_ok :: "file_container \<Rightarrow> bool" where
  "handle_ok c \<longleftrightarrow> off_ok (fc_clock c) \<and> (\<exists>a b x. fc_limits c = fi a b x) \<and>
     ts_good (fc_stamp c) \<and> stamp_ok (ts_epoch (fc_stamp c)) (ts_counter (fc_stamp c))"

text \<open>A handle is fresh when it has seen the last change of the file, stale when the
  stamp of the file is newer than the one it remembers, and unopened before its first
  use, when it has read nothing yet.\<close>

definition fresh :: "file_container \<Rightarrow> hdr \<Rightarrow> cells \<Rightarrow> bool" where
  "fresh c h rs \<longleftrightarrow> handle_ok c \<and> synced c rs \<and> fc_stamp c = stamp_of h"

definition stale :: "file_container \<Rightarrow> hdr \<Rightarrow> bool" where
  "stale c h \<longleftrightarrow> handle_ok c \<and> fc_initialized c \<and> ts_gt (stamp_of h) (fc_stamp c)"

definition unopened :: "file_container \<Rightarrow> bool" where
  "unopened c \<longleftrightarrow> handle_ok c \<and> \<not> fc_initialized c"

definition attached :: "file_container \<Rightarrow> hdr \<Rightarrow> cells \<Rightarrow> bool" where
  "attached c h rs \<longleftrightarrow> fresh c h rs \<or> stale c h \<or> unopened c"

text \<open>The stamp a handle compares with when it changes the file.\<close>

definition known_stamp :: "file_container \<Rightarrow> hdr \<Rightarrow> TimeStamp" where
  "known_stamp c h = (if fc_initialized c then fc_stamp c else stamp_of h)"

text \<open>What no operation on an open container changes.\<close>

definition same_env :: "file_container \<Rightarrow> file_container \<Rightarrow> bool" where
  "same_env c c' \<longleftrightarrow> fc_filename c' = fc_filename c \<and> fc_clock c' = fc_clock c \<and>
     fc_disk c' = fc_disk c \<and> fc_access c' = fc_access c \<and> fc_budget c' = fc_budget c"

lemma file_okD:
  assumes "file_ok f h rs"
  shows "hdr_at h f" "hdr_ok h" "391 \<le> length f" "off_ok (length f)" "h_status h = closed"
    "holds_at 0 (stamp_line (h_epoch h) (h_counter h)) f" "stamp_ok (h_epoch h) (h_counter h)"
    "holds_at 27 (num_line (length rs)) f" "off_ok (length rs)"
    "holds_at 49 (status_text closed) f"
    "holds_at 323 (ptr (next_cell rs 391) (last_cell 391 rs)) f"
    "off_ok (next_cell rs 391)" "off_ok (last_cell 391 rs)"
    "holds_at 357 (ptr2 (h_list h)) f" "ok2 (h_list h)"
    "chain f 0 rs (length f)" "apart rs"
proof -
  from assms have h: "hdr_at h f" "h_num h = length rs" "h_status h = closed"
      "h_limits h = (next_cell rs 391, last_cell 391 rs)"
    and c: "chain f 0 rs (length f)" "apart rs" "off_ok (length f)"
    unfolding file_ok_def by blast+
  from h(1) have ok: "hdr_ok h" by (simp add: hdr_at_def)
  from hdr_ok_okD [OF ok] h(2,4) have o: "stamp_ok (h_epoch h) (h_counter h)" "off_ok (length rs)"
      "off_ok (next_cell rs 391)" "off_ok (last_cell 391 rs)" "ok2 (h_list h)"
    by (simp_all only: fst_conv snd_conv)
  from h show "holds_at 0 (stamp_line (h_epoch h) (h_counter h)) f" "holds_at 27 (num_line (length rs)) f"
      "holds_at 49 (status_text closed) f" "holds_at 357 (ptr2 (h_list h)) f"
      "holds_at 323 (ptr (next_cell rs 391) (last_cell 391 rs)) f" "391 \<le> length f"
    by (simp_all only: hdr_at_def ptr2_def fst_conv snd_conv)
  from h c ok o show "hdr_at h f" "hdr_ok h" "off_ok (length f)" "h_status h = closed"
    "stamp_ok (h_epoch h) (h_counter h)" "off_ok (length rs)"
    "off_ok (next_cell rs 391)" "off_ok (last_cell 391 rs)" "ok2 (h_list h)"
    "chain f 0 rs (length f)" "apart rs" by blast+
qed

lemma checkStreamAndStamp_ok:
  assumes "file_ok f h rs"
  shows "checkStreamAndStamp r (fc_at c f p tr) =
    (if ts_gt (stamp_of h) (fc_stamp c) then Inl (Code container_modified) else Inr (), fc_at c f 26 tr)"
  using file_okD [OF assms]
  by (simp add: checkStreamAndStamp_def checkStream_def checkStream_only_def stamp_check_def
      readFileStatus_at checkStamp_at stamp_of_def)

lemma syncData_ok:
  assumes "file_ok f h rs" "handle_ok c" "fc_initialized c"
  obtains c' p' where "syncData b (fc_at c f p tr) = (Inr (), fc_at c' f p' tr)" "synced c' rs" "handle_ok c'"
    "same_env c c'" "fc_stamp c' = (if b then stamp_of h else fc_stamp c)"
proof -
  note ok = file_okD [OF assms(1)]
  from assms(2) obtain x y z where lim: "fc_limits c = fi x y z" by (auto simp: handle_ok_def)
  let ?c1 = "c\<lparr>fc_limits := fi (next_cell rs 391) (last_cell 391 rs) z,
    fc_removed := (fc_removed c)\<lparr>fi_good := True, fi_prev := int (fst (h_list h)), fi_next := int (snd (h_list h))\<rparr>,
    fc_size := length rs\<rparr>"
  have lim': "(fc_limits c)\<lparr>fi_good := True, fi_prev := int (next_cell rs 391), fi_next := int (last_cell 391 rs)\<rparr>
      = fi (next_cell rs 391) (last_cell 391 rs) z"
    by (simp add: lim fi_def FileIterator_new_def)
  have rm: "holds_at 357 (ptr (fst (h_list h)) (snd (h_list h))) f" using ok by (simp add: ptr2_def)
  show ?thesis
  proof (cases b)
    case True
    let ?c2 = "?c1\<lparr>fc_stamp := stamp_of h\<rparr>"
    have "syncData b (fc_at c f p tr) = (Inr (), fc_at ?c2 f 26 tr)"
      using True ok rm lim' by (simp add: syncData_def readLimits_at readRemoved_at readSize_at readStamp_at stamp_of_def)
    moreover have "synced ?c2 rs" "handle_ok ?c2" "same_env c ?c2"
      using assms(2,3) ok by (auto simp: synced_def handle_ok_def same_env_def stamp_of_def)
    ultimately show ?thesis using that True by simp
  next
    case False
    have "syncData b (fc_at c f p tr) = (Inr (), fc_at ?c1 f 390 tr)"
      using False ok rm lim' by (simp add: syncData_def readLimits_at readRemoved_at readSize_at)
    moreover have "synced ?c1 rs" "handle_ok ?c1" "same_env c ?c1"
      using assms(2,3) by (auto simp: synced_def handle_ok_def same_env_def)
    ultimately show ?thesis using that False by simp
  qed
qed

lemma attached_handle: "attached c h rs \<Longrightarrow> handle_ok c"
  by (auto simp: attached_def fresh_def stale_def unopened_def)

lemma initContainer_ok:
  assumes "file_ok f h rs" "handle_ok c"
  obtains c' p' where "initContainer (fc_at c f p tr) = (Inr (), fc_at c' f p' tr)" "fresh c' h rs" "same_env c c'"
proof -
  note ok = file_okD [OF assms(1)]
  from assms(2) obtain x y z where lim: "fc_limits c = fi x y z" by (auto simp: handle_ok_def)
  let ?c1 = "c\<lparr>fc_stamp := stamp_of h, fc_limits := fi (next_cell rs 391) (last_cell 391 rs) z,
    fc_removed := (fc_removed c)\<lparr>fi_good := True, fi_prev := int (fst (h_list h)), fi_next := int (snd (h_list h))\<rparr>,
    fc_size := length rs, fc_initialized := True\<rparr>"
  have lim': "(fc_limits c)\<lparr>fi_good := True, fi_prev := int (next_cell rs 391), fi_next := int (last_cell 391 rs)\<rparr>
      = fi (next_cell rs 391) (last_cell 391 rs) z"
    by (simp add: lim fi_def FileIterator_new_def)
  have rm: "holds_at 357 (ptr (fst (h_list h)) (snd (h_list h))) f" using ok by (simp add: ptr2_def)
  have "initContainer (fc_at c f p tr) = (Inr (), fc_at ?c1 f 390 tr)"
    using ok rm lim' by (simp add: initContainer_def readLimits_at readRemoved_at readSize_at readStamp_at
        readFileStatus_at stamp_of_def)
  moreover have "fresh ?c1 h rs" "same_env c ?c1"
    using assms(2) ok by (auto simp: fresh_def synced_def handle_ok_def same_env_def stamp_of_def)
  ultimately show ?thesis by (rule that)
qed

lemma ts_gt_irrefl [simp]: "\<not> ts_gt t t"
  by (simp add: ts_gt_def)

lemma fresh_not_newer: "fresh c h rs \<Longrightarrow> \<not> ts_gt (stamp_of h) (fc_stamp c)"
  by (simp add: fresh_def)

text \<open>The heads of the public methods bring a handle up to date.\<close>

lemma attached_cases:
  assumes "attached c h rs"
  obtains (unopened) "handle_ok c" "\<not> fc_initialized c"
    | (stale) "handle_ok c" "fc_initialized c" "ts_gt (stamp_of h) (fc_stamp c)"
    | (fresh) "handle_ok c" "fc_initialized c" "fresh c h rs" "\<not> ts_gt (stamp_of h) (fc_stamp c)"
  using assms fresh_not_newer [of c h rs]
  by (auto simp: attached_def stale_def unopened_def fresh_def synced_def)

lemma prepare_end_ok:
  assumes f: "file_ok f h rs" and c: "attached c h rs"
  obtains c' p' where "prepare_end b (fc_at c f p tr) = (Inr (int (length f)), fc_at c' f p' tr)"
    "synced c' rs" "handle_ok c'" "same_env c c'" "b \<Longrightarrow> fresh c' h rs"
    "\<not> b \<Longrightarrow> fc_stamp c' = known_stamp c h"
  using c
proof (cases rule: attached_cases)
  case unopened
  obtain c' p' where c': "initContainer (fc_at c f (length f) tr) = (Inr (), fc_at c' f p' tr)" "fresh c' h rs" "same_env c c'"
    using initContainer_ok [OF f unopened(1), of "length f" tr] by blast
  with unopened show ?thesis
    by (intro that [of c' p']) (auto simp: prepare_end_def fresh_def known_stamp_def)
next
  case stale
  obtain c' p' where c': "syncData b (fc_at c f 26 tr) = (Inr (), fc_at c' f p' tr)" "synced c' rs" "handle_ok c'"
    "same_env c c'" "fc_stamp c' = (if b then stamp_of h else fc_stamp c)"
    using syncData_ok [OF f stale(1,2), of b 26 tr] by blast
  with stale show ?thesis
    by (intro that [of c' "length f"])
      (auto simp: prepare_end_def checkStreamAndStamp_ok [OF f] fresh_def known_stamp_def)
next
  case fresh
  then show ?thesis
    by (intro that [of c 26])
      (auto simp: prepare_end_def checkStreamAndStamp_ok [OF f] fresh_def same_env_def known_stamp_def)
qed

lemma prepare_ok:
  assumes f: "file_ok f h rs" and c: "attached c h rs"
  obtains c' p' where "prepare b (fc_at c f p tr) = (Inr (), fc_at c' f p' tr)"
    "synced c' rs" "handle_ok c'" "same_env c c'" "b \<Longrightarrow> fresh c' h rs"
    "\<not> b \<Longrightarrow> fc_stamp c' = known_stamp c h"
  using c
proof (cases rule: attached_cases)
  case unopened
  obtain c' p' where c': "initContainer (fc_at c f p tr) = (Inr (), fc_at c' f p' tr)" "fresh c' h rs" "same_env c c'"
    using initContainer_ok [OF f unopened(1), of p tr] by blast
  with unopened show ?thesis
    by (intro that [of c' p']) (auto simp: prepare_def fresh_def known_stamp_def)
next
  case stale
  obtain c' p' where c': "syncData b (fc_at c f 26 tr) = (Inr (), fc_at c' f p' tr)" "synced c' rs" "handle_ok c'"
    "same_env c c'" "fc_stamp c' = (if b then stamp_of h else fc_stamp c)"
    using syncData_ok [OF f stale(1,2), of b 26 tr] by blast
  with stale show ?thesis
    by (intro that [of c' p'])
      (auto simp: prepare_def on_modified_def checkStreamAndStamp_ok [OF f] fresh_def known_stamp_def)
next
  case fresh
  then show ?thesis
    by (intro that [of c 26])
      (auto simp: prepare_def on_modified_def checkStreamAndStamp_ok [OF f] fresh_def same_env_def known_stamp_def)
qed

end
