(* ===== verification/File_Container_Add.thy ===== *)
theory File_Container_Add
  imports File_Container_Ops
begin

text \<open>
  \<open>add_data\<close> refines insertion into the list of cells: at the end, before the first
  cell and before any other cell, for handles that are fresh or stale.
\<close>

section \<open>The stamp\<close>

lemma update_stamp_ok:
  assumes "off_ok now" "stamp_ok (ts_epoch ts) (ts_counter ts)" "stamp_ok (ts_epoch self) (ts_counter self)"
    "ts_good self"
  shows "ts_good (update_stamp now ts self)"
    "stamp_ok (ts_epoch (update_stamp now ts self)) (ts_counter (update_stamp now ts self))"
  using assms by (simp_all add: update_stamp_def stamp_ok_def ushort_inc_def Let_def)

definition next_stamp :: "file_container \<Rightarrow> hdr \<Rightarrow> TimeStamp" where
  "next_stamp c h = update_stamp (fc_clock c) (stamp_of h) (known_stamp c h)"

abbreviation stamp_ev :: "TimeStamp \<Rightarrow> event" where
  "stamp_ev ts \<equiv> Stamp (ts_epoch ts) (ts_counter ts)"

lemma next_stamp_ok:
  assumes "file_ok f h rs" "handle_ok c"
  shows "ts_good (next_stamp c h)" "stamp_ok (ts_epoch (next_stamp c h)) (ts_counter (next_stamp c h))"
  using assms file_okD(7) [OF assms(1)] update_stamp_ok [of "fc_clock c" "stamp_of h" "known_stamp c h"]
  by (simp_all add: next_stamp_def handle_ok_def stamp_of_def known_stamp_def)

lemma updateTimeStamp_ok:
  assumes "file_ok f h rs" "handle_ok c" "fc_initialized c"
  shows "updateTimeStamp (fc_at c f p tr) =
    (Inr (), fc_log (c\<lparr>fc_stamp := next_stamp c h\<rparr>) [stamp_ev (next_stamp c h)] 27 f tr)"
  using file_okD [OF assms(1)] next_stamp_ok [OF assms(1,2)] assms(3)
  by (simp add: updateTimeStamp_at fc_log_def Let_def next_stamp_def stamp_of_def known_stamp_def)

section \<open>The writes of the three insertions\<close>

text \<open>\<open>L\<close> is the end of the file, \<open>N\<close> the end after the insertion of \<open>d\<close>. The first group of
  each log redirects the neighbours, then the cell is written at \<open>L\<close>.\<close>

definition cell_events :: "filestatus \<Rightarrow> nat \<Rightarrow> nat \<Rightarrow> nat \<Rightarrow> nat \<Rightarrow> nat \<Rightarrow> string \<Rightarrow> event list" where
  "cell_events st L a b u N d =
     [Status st, Body L (ptr a b), Body (L + 34) (size_line (length d) CHR ''g''),
      Body (L + 60) (d @ [newline] @ ptr u N), Status (status_succ st)]"

definition append_events :: "cells \<Rightarrow> nat \<Rightarrow> nat \<Rightarrow> string \<Rightarrow> event list" where
  "append_events xs L N d =
     (let q = last_cell 391 xs; a = last_cell 0 (butlast xs); first = next_cell xs 391 in
      (if xs = [] then [] else [Backup0 q a L, Status ae_iterator, Body q (ptr a L)]) @
      [LimitsBackup first q, Status ae_limits, Limits first L] @
      cell_events ae_writing L (last_cell 0 xs) N q N d)"

definition prepend_events :: "cells \<Rightarrow> nat \<Rightarrow> nat \<Rightarrow> string \<Rightarrow> event list" where
  "prepend_events ys L N d =
     (let q = next_cell ys 391; nx = next_cell (tl ys) L; l = last_cell 391 ys in
      [Backup0 q 0 nx, Status ab_iterator, Body q (ptr L nx), LimitsBackup q l, Status ab_limits, Limits L l] @
      cell_events ab_writing L 0 q l N d)"

definition middle_events :: "cells \<Rightarrow> cells \<Rightarrow> nat \<Rightarrow> nat \<Rightarrow> string \<Rightarrow> event list" where
  "middle_events xs ys L N d =
     (let q = next_cell ys 391; nx = next_cell (tl ys) L; p = last_cell 0 xs; pp = last_cell 0 (butlast xs) in
      [Backup0 q p nx, Status am_iterator1, Backup1 p pp q, Status am_iterator2,
       Body q (ptr L nx), Body p (ptr pp L)] @
      cell_events am_writing L p q (last_cell 391 ys) N d)"

definition last_events :: "filestatus \<Rightarrow> cells \<Rightarrow> nat \<Rightarrow> nat \<Rightarrow> event list" where
  "last_events st ys L N =
     (let l = last_cell 391 ys; a = last_cell L (butlast ys)
      in [Backup2 l a L, Status st, Body l (ptr a N)])"

definition insert_events :: "cells \<Rightarrow> cells \<Rightarrow> nat \<Rightarrow> nat \<Rightarrow> string \<Rightarrow> event list" where
  "insert_events xs ys L N d =
     (if ys = [] then append_events xs L N d
      else if xs = [] then prepend_events ys L N d
      else middle_events xs ys L N d)"

lemmas insert_events_defs =
  insert_events_def append_events_def prepend_events_def middle_events_def cell_events_def

lemma run_insert_body:
  assumes "length (relink_next 0 xs L (relink_prev ys L L f)) = L" "L = length f"
  shows "run_events (filter is_body (insert_events xs ys L N d)) f =
    put_cell (last_cell 0 xs) (next_cell ys N) (last_cell 391 (xs @ ys)) N d
      (relink_next 0 xs L (relink_prev ys L L f))"
proof (cases ys)
  case Nil
  then show ?thesis
    using assms by (cases "xs = []")
      (simp_all add: insert_events_defs put_cell_def relink_next_def relink_prev_def last_cell_def Let_def)
next
  case (Cons r rs)
  then show ?thesis
    using assms by (cases "xs = []")
      (simp_all add: insert_events_defs put_cell_def relink_next_def relink_prev_def last_cell_def Let_def)
qed

text \<open>What every insertion starts from.\<close>

definition insertable :: "string \<Rightarrow> cells \<Rightarrow> cells \<Rightarrow> nat \<Rightarrow> nat \<Rightarrow> string \<Rightarrow> bool" where
  "insertable f xs ys L N d \<longleftrightarrow> chain f 0 (xs @ ys) L \<and> apart (xs @ ys) \<and> L = length f \<and> 391 \<le> L \<and>
     d \<noteq> [] \<and> off_ok N \<and> N = L + 95 + length d"

lemma insertable_cells:
  assumes "insertable f xs ys L N d" "r \<in> set (xs @ ys)"
  shows "391 \<le> fst r" "fst r < L" "fst r + 34 \<le> L" "off_ok (fst r)"
  using chain_cells [of f 0 "xs @ ys" L r] assms by (auto simp: insertable_def cell_end_def)

lemma insertable_offs:
  assumes "insertable f xs ys L N d"
  shows "off_ok L" "off_ok N" "off_ok (length d)" "off_ok (last_cell 0 xs)" "off_ok (last_cell 0 (butlast xs))"
    "off_ok (last_cell 391 xs)" "off_ok (last_cell 391 ys)" "off_ok (next_cell xs 391)" "off_ok (next_cell ys 391)"
    "off_ok (next_cell (tl ys) L)" "off_ok (last_cell L (butlast ys))" "off_ok (last_cell 391 (xs @ ys))"
    "last_cell 391 ys \<le> L" "391 \<le> last_cell 391 ys" "last_cell 391 xs \<le> L" "391 \<le> last_cell 391 xs"
    "next_cell ys 391 \<le> L" "391 \<le> next_cell ys 391" "L \<le> N" "391 \<le> L"
proof -
  show L: "off_ok L" "off_ok N" "off_ok (length d)" "L \<le> N" "391 \<le> L"
    using assms unfolding insertable_def by auto
  have c: "391 \<le> fst r \<and> fst r \<le> L" if "r \<in> set xs \<or> r \<in> set ys" for r
    using that insertable_cells [OF assms, of r] by auto
  have c': "fst r \<le> L" if "r \<in> set (butlast xs) \<or> r \<in> set (butlast ys) \<or> r \<in> set (tl ys)" for r
  proof -
    have "r \<in> set (tl ys) \<Longrightarrow> r \<in> set ys" by (cases ys) auto
    with that have "r \<in> set xs \<or> r \<in> set ys" by (auto dest: in_set_butlastD)
    with c show ?thesis by blast
  qed
  have b: "391 \<le> last_cell 391 zs \<and> last_cell 391 zs \<le> L" if "set zs \<subseteq> set xs \<union> set ys" for zs
    by (rule last_cell_ind [where P = "\<lambda>x. 391 \<le> x \<and> x \<le> L"]) (use that c L in auto)
  have b': "391 \<le> next_cell zs 391 \<and> next_cell zs 391 \<le> L" if "set zs \<subseteq> set xs \<union> set ys" for zs
    by (rule next_cell_ind [where P = "\<lambda>x. 391 \<le> x \<and> x \<le> L"]) (use that c L in auto)
  show "391 \<le> last_cell 391 ys" "last_cell 391 ys \<le> L" "391 \<le> last_cell 391 xs" "last_cell 391 xs \<le> L"
    "391 \<le> next_cell ys 391" "next_cell ys 391 \<le> L"
    using b [of xs] b [of ys] b' [of ys] by auto
  have "last_cell 0 xs \<le> L" "last_cell 0 (butlast xs) \<le> L" "last_cell L (butlast ys) \<le> L"
    "next_cell (tl ys) L \<le> L"
    using c c' by (auto intro!: last_cell_ind [where P = "\<lambda>x. x \<le> L"] next_cell_ind [where P = "\<lambda>x. x \<le> L"])
  with b [of xs] b [of ys] b [of "xs @ ys"] b' [of xs] b' [of ys] L
  show "off_ok (last_cell 0 xs)" "off_ok (last_cell 0 (butlast xs))" "off_ok (last_cell 391 xs)"
    "off_ok (last_cell 391 ys)" "off_ok (next_cell xs 391)" "off_ok (next_cell ys 391)"
    "off_ok (next_cell (tl ys) L)" "off_ok (last_cell L (butlast ys))" "off_ok (last_cell 391 (xs @ ys))"
    by auto
qed

lemma insert_events_ok:
  assumes "insertable f xs ys L N d"
  shows "events_ok (insert_events xs ys L N d) L" "events_len (insert_events xs ys L N d) L = N"
    "ys \<noteq> [] \<Longrightarrow> events_ok (last_events st ys L N) N \<longleftrightarrow> (\<forall>c. st \<noteq> unlisted c)"
    "ys \<noteq> [] \<Longrightarrow> events_len (last_events st ys L N) N = N"
proof -
  note o = insertable_offs [OF assms]
  have N: "N = L + 95 + length d" using assms by (simp add: insertable_def)
  have x: "xs \<noteq> [] \<Longrightarrow> last_cell 0 xs + 34 \<le> L \<and> 391 \<le> last_cell 0 xs \<and> last_cell 391 xs = last_cell 0 xs"
    using insertable_cells [OF assms, of "last xs"] by (simp add: last_cell_def)
  have y: "ys \<noteq> [] \<Longrightarrow> next_cell ys 391 + 34 \<le> L" "ys \<noteq> [] \<Longrightarrow> last_cell 391 ys + 34 \<le> L"
    using insertable_cells [OF assms, of "hd ys"] insertable_cells [OF assms, of "last ys"]
    by (auto simp: last_cell_def next_cell_def split: list.splits)
  have "events_ok (insert_events xs ys L N d) L \<and> events_len (insert_events xs ys L N d) L = N"
  proof (cases "ys = []")
    case True
    then show ?thesis
      using o x N by (cases "xs = []") (simp_all add: insert_events_defs Let_def max_def)
  next
    case False
    then show ?thesis
      using o x y N by (cases "xs = []") (simp_all add: insert_events_defs Let_def max_def)
  qed
  then show "events_ok (insert_events xs ys L N d) L" "events_len (insert_events xs ys L N d) L = N" by auto
  show "ys \<noteq> [] \<Longrightarrow> events_ok (last_events st ys L N) N \<longleftrightarrow> (\<forall>c. st \<noteq> unlisted c)"
    "ys \<noteq> [] \<Longrightarrow> events_len (last_events st ys L N) N = N"
    using o y by (simp_all add: last_events_def Let_def max_def)
qed

lemma insert_events_chain:
  assumes "insertable f xs ys L N d"
  shows "chain (run_events (insert_events xs ys L N d) f) 0 (xs @ (L, d) # ys) (if ys = [] then N else L)"
    "length (run_events (insert_events xs ys L N d) f) = N" "apart (xs @ (L, d) # ys)"
proof -
  from assms have i: "chain f 0 (xs @ ys) L" "apart (xs @ ys)" "L = length f" "391 \<le> L" "d \<noteq> []"
    "off_ok N" "N = L + 95 + length d" by (auto simp: insertable_def)
  note o = insertable_offs [OF assms]
  have "length (relink_next 0 xs L (relink_prev ys L L f)) = L"
  proof -
    have c: "chain f 0 xs (next_cell ys L)" "chain f (last_cell 0 xs) ys L" "apart xs" "apart ys"
      "\<forall>r\<in>set xs. \<forall>s\<in>set ys. disjoint_cells r s" using i by (auto simp: chain_append apart_append)
    note r = relink_prev_chain [OF c(2,4) o(1) o(1)]
    show ?thesis
      using relink_next_chain(2) [OF r(3) [OF c(1,5)] c(3) o(1)] r(2) i(3) by simp
  qed
  note G = insert_cell_chain [OF i(1-7) o(12) refl refl]
  have "chain (run_events (filter is_body (insert_events xs ys L N d)) f) 0 (xs @ (L, d) # ys) (if ys = [] then N else L)"
    unfolding run_insert_body [OF \<open>length (relink_next 0 xs L (relink_prev ys L L f)) = L\<close> i(3)]
    by (rule G(1))
  then show "chain (run_events (insert_events xs ys L N d) f) 0 (xs @ (L, d) # ys) (if ys = [] then N else L)"
    by (rule chain_run_body) (use insert_events_ok(1) [OF assms] i in simp_all)
  show "length (run_events (insert_events xs ys L N d) f) = N"
    using insert_events_ok [OF assms] length_run_events [of f "insert_events xs ys L N d"] i by simp
  show "apart (xs @ (L, d) # ys)" by (rule G(3))
qed

lemma last_events_chain:
  assumes "insertable f xs ys L N d" "ys \<noteq> []"
    and c: "chain g 0 (xs @ (L, d) # ys) L" "length g = N"
    and st: "\<forall>c. st \<noteq> unlisted c"
  shows "chain (run_events (last_events st ys L N) g) 0 (xs @ (L, d) # ys) N"
    "length (run_events (last_events st ys L N) g) = N"
    "holds_at (last_cell 391 ys) (ptr (last_cell L (butlast ys)) L) g"
proof -
  note o = insertable_offs [OF assms(1)] and ap = insert_events_chain(3) [OF assms(1)]
  have q: "last_cell 391 ys = fst (last ys)" using assms(2) by (simp add: last_cell_def)
  let ?zs = "xs @ (L, d) # butlast ys"
  have zs: "xs @ (L, d) # ys = ?zs @ [(fst (last ys), snd (last ys))]" "last_cell 0 ?zs = last_cell L (butlast ys)"
    using assms(2) by (simp, simp add: last_cell_def)
  have c1: "chain g 0 (?zs @ [(fst (last ys), snd (last ys))]) L"
    using c(1) unfolding zs(1) .
  have "chain (overwrite (fst (last ys)) (ptr (last_cell L (butlast ys)) N) g) 0 (xs @ (L, d) # ys) N"
    using chain_set_next [OF c1 ap [unfolded zs(1)] o(2)] unfolding zs .
  moreover have ok: "events_ok (last_events st ys L N) (length g)" "391 \<le> length g"
    using insert_events_ok(3) [OF assms(1,2), of st] st c(2) o(19,20) by simp_all
  ultimately have "chain (run_events (filter is_body (last_events st ys L N)) g) 0 (xs @ (L, d) # ys) N"
    by (simp add: last_events_def Let_def q)
  then show "chain (run_events (last_events st ys L N) g) 0 (xs @ (L, d) # ys) N"
    by (rule chain_run_body) (use ok in simp_all)
  show "length (run_events (last_events st ys L N) g) = N"
    using insert_events_ok(4) [OF assms(1,2), of st] length_run_events [of g "last_events st ys L N"] ok c(2) by simp
  show "holds_at (last_cell 391 ys) (ptr (last_cell L (butlast ys)) L) g"
    using chain_ptr [of g 0 ?zs "fst (last ys)" "snd (last ys)" "[]" L] c1 zs(2) q by (auto dest: elem_at_holds)
qed

section \<open>Running the insertions\<close>

lemma calculateDataSize_nat: "N = L + 95 + length d \<Longrightarrow> int L + calculateDataSize (length d) 23 = int N"
  by (simp add: calculateDataSize_def)

lemma insertable_next:
  assumes "insertable G xs ys L N d"
  shows "int L + calculateDataSize (length d) 23 = int N" "d \<noteq> []" "L = length G" "chain G 0 (xs @ ys) L"
  using assms calculateDataSize_nat [of N L d] by (auto simp: insertable_def)

text \<open>\<open>writeDataHere\<close> after events that keep the length of the file.\<close>

lemma writeCell_log:
  assumes "insertable (run_events ws f) xs ys L N d" "events_ok es L" "events_len es L = L"
    "off_ok a" "off_ok b" "off_ok u"
  shows "writeDataHere (fi a b q) (fi u N r) d st (fc_log c (ws @ es) p f tr) =
    (Inr (), fc_log c (ws @ es @ cell_events st L a b u N d) N f tr)"
proof -
  note o = insertable_offs [OF assms(1)] and n = insertable_next [OF assms(1)]
  have "length (run_events (ws @ es) f) = L"
    using length_run_events [of "run_events ws f" es] assms(2,3) o n(3) by simp
  from writeDataHere_log [OF n(2) assms(4,5,6) o(2,3) this [symmetric] o(20)] assms(1) show ?thesis
    by (simp add: cell_events_def insertable_def)
qed

lemma fi_numeral:
  "(fi a b p)\<lparr>fi_next := numeral w\<rparr> = fi a (numeral w) p"
  "FileIterator_new 0 (int b) (numeral w) = fi 0 b (numeral w)"
  "FileIterator_new (numeral v) (int b) (numeral w) = fi (numeral v) b (numeral w)"
  "FileIterator_new (numeral v) (numeral u) (numeral w) = fi (numeral v) (numeral u) (numeral w)"
  by (simp_all add: fi_def FileIterator_new_def)

lemma addDataAtEnd_log:
  assumes i: "insertable (run_events ws f) xs [] L N d" and e: "xs = [] \<Longrightarrow> L = 391"
    and lim: "fc_limits c = fi (next_cell xs 391) (last_cell 391 xs) x"
  shows "addDataAtEnd d (int L) (fc_log c ws p f tr) =
    (Inr (fi (last_cell 0 xs) N L), fc_log (c\<lparr>fc_limits := fi (next_cell xs 391) L x\<rparr>)
       (ws @ insert_events xs [] L N d) N f tr)"
proof (cases xs rule: rev_cases)
  case Nil
  note o = insertable_offs [OF i] and n = insertable_next [OF i]
  show ?thesis
    using Nil e lim o n(1) writeCell_log [OF i, of "[LimitsBackup 391 391, Status ae_limits, Limits 391 391]" 0 N 391]
    by (simp add: addDataAtEnd_def Let_def writeLimitsBackup_log writeInitialPosition_log
       FileIterator_new_fi fi_numeral insert_events_def append_events_def)
next
  case (snoc zs r)
  note o = insertable_offs [OF i] and n = insertable_next [OF i]
  let ?q = "fst r" and ?a = "last_cell 0 zs" and ?b = "next_cell xs 391"
  have el: "elem_at (run_events ws f) ?q ?a L (snd r)" and q: "391 \<le> ?q"
    using chain_ptr [of _ 0 zs ?q "snd r" "[]" L] n(4) snoc by simp_all
  have qL: "?q + 34 \<le> L" "?q < L" using elem_at_end [OF el] n(3) by simp_all
  have off: "off_ok ?a" "off_ok ?q" "off_ok ?b" using o snoc by simp_all
  have rd: "readIterator (int ?q) (fi 0 0 0) False (fc_log c ws p f tr) =
      (Inr (fi ?a L ?q), fc_log c ws (?q + 34) f tr)"
    using elem_at_holds [OF el] q by (intro readIterator_log) auto
  have "last_cell 391 xs = ?q" "last_cell 0 xs = ?q" using snoc by simp_all
  moreover note writeCell_log [OF i, of "[Backup0 ?q ?a L, Status ae_iterator, Body ?q (ptr ?a L),
      LimitsBackup ?b ?q, Status ae_limits, Limits ?b L]" ?q N ?q]
  ultimately show ?thesis
    using off q qL lim rd o(1-3) n(1) snoc
    by (simp add: addDataAtEnd_def Let_def writeIteratorBackup_log writeIterator_log
       writeLimitsBackup_log writeInitialPosition_log FileIterator_new_fi insert_events_def append_events_def
       max_def del: run_events_append)
qed

text \<open>\<open>resetNextOfLast\<close> after the new cell is in place.\<close>

lemma reset_log:
  assumes i: "insertable (run_events ws f) xs ys L N d" and ys: "ys \<noteq> []"
    and lim: "fc_limits c = fi first (last_cell 391 ys) x" and st: "\<forall>ch. st \<noteq> unlisted ch"
  shows "resetNextOfLast st (fc_log c (ws @ insert_events xs ys L N d) p f tr) =
    (Inr (), fc_log c (ws @ insert_events xs ys L N d @ last_events st ys L N) (last_cell 391 ys + 34) f tr)"
proof -
  note o = insertable_offs [OF i] and ic = insert_events_chain [OF i]
  let ?es = "ws @ insert_events xs ys L N d" and ?l = "last_cell 391 ys" and ?a = "last_cell L (butlast ys)"
  have g: "chain (run_events ?es f) 0 (xs @ (L, d) # ys) L" "length (run_events ?es f) = N"
    using ic ys by simp_all
  note le = last_events_chain [OF i ys g st]
  have "?l + 34 \<le> N"
    using insertable_cells(3) [OF i, of "last ys"] ys o(19) by (simp add: last_cell_def)
  then have "N = length (run_events (?es @ [Backup2 ?l ?a L, Status st]) f)"
    using g(2) o by (simp add: length_overwrite)
  from resetNextOfLast_log [OF lim le(3) o(11,1,7,14,2) this] show ?thesis
    by (simp add: last_events_def Let_def)
qed

lemma addDataAtBegin_log:
  assumes i: "insertable (run_events ws f) [] ys L N d" and ys: "ys \<noteq> []"
    and lim: "fc_limits c = fi (next_cell ys 391) (last_cell 391 ys) x"
  shows "addDataAtBegin d (int L) (fc_log c ws p f tr) =
    (Inr (fi 0 (next_cell ys 391) L), fc_log (c\<lparr>fc_limits := fi L (last_cell 391 ys) x\<rparr>)
       (ws @ insert_events [] ys L N d @ last_events ab_last ys L N) (last_cell 391 ys + 34) f tr)"
proof -
  note o = insertable_offs [OF i] and n = insertable_next [OF i]
  obtain r rs where r: "ys = r # rs" using ys by (cases ys) auto
  let ?q = "fst r" and ?b = "next_cell rs L" and ?l = "last_cell 391 ys" and ?a = "last_cell L (butlast ys)"
  have el: "elem_at (run_events ws f) ?q 0 ?b (snd r)" and q: "391 \<le> ?q"
    using chain_ptr [of _ 0 "[]" ?q "snd r" rs L] n(4) r by simp_all
  have qL: "?q + 34 \<le> L" using elem_at_end [OF el] n(3) by simp
  have off: "off_ok ?b" "off_ok ?q" using o r by simp_all
  have rd: "readIterator (int ?q) (fi 0 0 0) False (fc_log c ws p f tr) =
      (Inr (fi 0 ?b ?q), fc_log c ws (?q + 34) f tr)"
    using elem_at_holds [OF el] q by (intro readIterator_log) auto
  note w = writeCell_log [OF i, of "[Backup0 ?q 0 ?b, Status ab_iterator, Body ?q (ptr L ?b),
      LimitsBackup ?q ?l, Status ab_limits, Limits L ?l]" 0 ?q ?l]
  have ie: "insert_events [] ys L N d = [Backup0 ?q 0 ?b, Status ab_iterator, Body ?q (ptr L ?b),
      LimitsBackup ?q ?l, Status ab_limits, Limits L ?l] @ cell_events ab_writing L 0 ?q ?l N d"
    using ys r by (simp add: insert_events_def prepend_events_def Let_def)
  note ic = insert_events_chain [OF i]
  have rl: "resetNextOfLast ab_last (fc_log (c\<lparr>fc_limits := fi L ?l x\<rparr>) (ws @ insert_events [] ys L N d) p f tr) =
      (Inr (), fc_log (c\<lparr>fc_limits := fi L ?l x\<rparr>)
        (ws @ insert_events [] ys L N d @ last_events ab_last ys L N) (?l + 34) f tr)" for p
    using reset_log [OF i ys, of "c\<lparr>fc_limits := fi L ?l x\<rparr>" L x ab_last] by simp
  show ?thesis
    unfolding ie using off q qL lim rd o n(1) ys r w rl [unfolded ie]
    by (simp add: addDataAtBegin_def fc_getBegin_def Let_def writeIteratorBackup_log writeIterator_log
       writeLimitsBackup_log writeInitialPosition_log FileIterator_new_fi
       max_def del: run_events_append)
qed

lemma addDataInMiddle_log:
  assumes i: "insertable (run_events ws f) xs ys L N d" and ne: "xs \<noteq> []" "ys \<noteq> []"
    and lim: "fc_limits c = fi (next_cell xs 391) (last_cell 391 ys) x"
  shows "addDataInMiddle d (int (next_cell ys 391)) (int L) (fc_log c ws p f tr) =
    (Inr (fi (last_cell 0 xs) (next_cell ys 391) L), fc_log c
       (ws @ insert_events xs ys L N d @ last_events am_last ys L N) (last_cell 391 ys + 34) f tr)"
proof -
  note o = insertable_offs [OF i] and n = insertable_next [OF i]
  obtain r rs where r: "ys = r # rs" using ne by (cases ys) auto
  obtain s zs where s: "xs = zs @ [s]" using ne by (cases xs rule: rev_cases) auto
  let ?q = "fst r" and ?b = "next_cell rs L" and ?l = "last_cell 391 ys" and ?p = "fst s" and ?a = "last_cell 0 zs"
  have el: "elem_at (run_events ws f) ?q ?p ?b (snd r)" and q: "391 \<le> ?q"
    using chain_ptr [of _ 0 xs ?q "snd r" rs L] n(4) r s by simp_all
  have el2: "elem_at (run_events ws f) ?p ?a ?q (snd s)" and p: "391 \<le> ?p"
    using chain_ptr [of _ 0 zs ?p "snd s" ys L] n(4) r s by simp_all
  have qL: "?q + 34 \<le> L" "?p + 34 \<le> L" using elem_at_end [OF el] elem_at_end [OF el2] n(3) by simp_all
  have off: "off_ok ?b" "off_ok ?q" "off_ok ?p" "off_ok ?a" using o r s by simp_all
  have rd: "readIterator (int ?q) (fi 0 0 0) False (fc_log c ws p f tr) =
      (Inr (fi ?p ?b ?q), fc_log c ws (?q + 34) f tr)" for p
    using elem_at_holds [OF el] q by (intro readIterator_log) auto
  have rd2: "readIterator (int ?p) (fi 0 0 0) False (fc_log c ws p f tr) =
      (Inr (fi ?a ?q ?p), fc_log c ws (?p + 34) f tr)" for p
    using elem_at_holds [OF el2] p by (intro readIterator_log) auto
  note w = writeCell_log [OF i, of "[Backup0 ?q ?p ?b, Status am_iterator1, Backup1 ?p ?a ?q, Status am_iterator2,
      Body ?q (ptr L ?b), Body ?p (ptr ?a L)]" ?p ?q ?l]
  have ie: "insert_events xs ys L N d = [Backup0 ?q ?p ?b, Status am_iterator1, Backup1 ?p ?a ?q, Status am_iterator2,
      Body ?q (ptr L ?b), Body ?p (ptr ?a L)] @ cell_events am_writing L ?p ?q ?l N d"
    using ne r s by (simp add: insert_events_def middle_events_def Let_def)
  have rl: "resetNextOfLast am_last (fc_log c (ws @ insert_events xs ys L N d) p f tr) =
      (Inr (), fc_log c
        (ws @ insert_events xs ys L N d @ last_events am_last ys L N) (?l + 34) f tr)" for p
    using reset_log [OF i ne(2) lim, of am_last] by simp
  show ?thesis
    unfolding ie using off q p qL lim rd rd2 o n(1) r s w rl [unfolded ie]
    by (simp add: addDataInMiddle_def Let_def writeIteratorBackup_log writeIterator_log
       FileIterator_new_fi max_def del: run_events_append)
qed

section \<open>\<open>add_data\<close>\<close>

definition add_events :: "TimeStamp \<Rightarrow> cells \<Rightarrow> cells \<Rightarrow> nat \<Rightarrow> nat \<Rightarrow> string \<Rightarrow> event list" where
  "add_events ts xs ys L N d =
     [stamp_ev ts, Status opened] @ insert_events xs ys L N d @
     (if ys = [] then [] else last_events (if xs = [] then ab_last else am_last) ys L N) @
     [Wipe, Status ad_empty, Num (length (xs @ ys) + 1), Status closed]"

lemma file_ok_insertable:
  assumes "file_ok f h (xs @ ys)" "d \<noteq> []" "off_ok (length f + 95 + length d)"
    "events_ok es (length f)" "list_all (\<lambda>e. \<not> is_body e) es"
  shows "insertable (run_events es f) xs ys (length f) (length f + 95 + length d) d"
proof -
  note ok = file_okD [OF assms(1)]
  have nb: "filter is_body es = []" using assms(5) by (simp add: filter_empty_conv list_all_iff)
  have "events_len es n = n" for n
    using assms(5) by (induction es arbitrary: n) (auto elim: is_body.elims)
  then have "length (run_events es f) = length f"
    using length_run_events [of f es] assms(4) ok by simp
  moreover have "chain (run_events es f) 0 (xs @ ys) (length f)"
    by (rule chain_run_body) (use ok nb assms in simp_all)
  ultimately show ?thesis
    using assms ok by (simp add: insertable_def)
qed

lemma insert_events_hdr:
  "h_limits (events_hdr (insert_events xs ys L N d) h) =
     (if ys = [] then (next_cell xs 391, L) else if xs = [] then (L, last_cell 391 ys) else h_limits h)"
  "h_epoch (events_hdr (insert_events xs ys L N d) h) = h_epoch h"
  "h_counter (events_hdr (insert_events xs ys L N d) h) = h_counter h"
  "h_limits (events_hdr (last_events st ys L N) h) = h_limits h"
  "h_epoch (events_hdr (last_events st ys L N) h) = h_epoch h"
  "h_counter (events_hdr (last_events st ys L N) h) = h_counter h"
  by (simp_all add: insert_events_defs last_events_def Let_def)

lemma add_file_ok:
  assumes f: "file_ok f h (xs @ ys)" and d: "d \<noteq> []" and N: "N = length f + 95 + length d" "off_ok N"
    and ts: "stamp_ok (ts_epoch ts) (ts_counter ts)"
  defines "es \<equiv> add_events ts xs ys (length f) N d"
  shows "file_ok (run_events es f) (events_hdr es h) (xs @ (length f, d) # ys)"
    "stamp_of (events_hdr es h) = \<lparr>ts_good = True, ts_epoch = ts_epoch ts, ts_counter = ts_counter ts\<rparr>"
    "length (run_events es f) = N" "events_ok es (length f)"
proof -
  note ok = file_okD [OF f]
  let ?L = "length f" and ?st = "if xs = [] then ab_last else am_last"
  let ?e0 = "[stamp_ev ts, Status opened]" and ?e2 = "if ys = [] then [] else last_events ?st ys ?L N"
  let ?e3 = "[Wipe, Status ad_empty, Num (length (xs @ ys) + 1), Status closed]"
  have i: "insertable (run_events ?e0 f) xs ys ?L N d"
    using file_ok_insertable [OF f d, of ?e0] N ts by simp
  note io = insert_events_ok [OF i] and ic = insert_events_chain [OF i] and o = insertable_offs [OF i]
  let ?g = "run_events (?e0 @ insert_events xs ys ?L N d) f"
  have st: "\<forall>c. ?st \<noteq> unlisted c" by simp
  have "chain (run_events ?e2 ?g) 0 (xs @ (?L, d) # ys) N \<and> length (run_events ?e2 ?g) = N"
  proof (cases "ys = []")
    case True
    then show ?thesis using ic by simp
  next
    case False
    then show ?thesis using last_events_chain [OF i False _ _ st] ic by simp
  qed
  then have g2: "chain (run_events ?e2 ?g) 0 (xs @ (?L, d) # ys) N" "length (run_events ?e2 ?g) = N" by auto
  have num: "off_ok (length (xs @ ys) + 1)"
    using chain_length [OF ok(16,17)] N by simp
  show eok: "events_ok es ?L"
    using io ts num by (cases "ys = []") (simp_all add: es_def add_events_def)
  have run: "run_events es f = run_events ?e3 (run_events ?e2 ?g)"
    by (simp add: es_def add_events_def)
  have e3: "events_ok ?e3 N" using num by simp
  have ch: "chain (run_events es f) 0 (xs @ (?L, d) # ys) N"
    unfolding run by (rule chain_run_body) (use g2 o(19,20) e3 in simp_all)
  show len: "length (run_events es f) = N"
    using length_run_events [of "run_events ?e2 ?g" ?e3] g2(2) o(19,20) e3 unfolding run by simp
  have lim: "h_limits h = (next_cell (xs @ ys) 391, last_cell 391 (xs @ ys))" "xs @ ys = [] \<Longrightarrow> ?L = 391"
    using f unfolding file_ok_def by blast+
  have h: "h_status (events_hdr es h) = closed" "h_num (events_hdr es h) = length (xs @ (?L, d) # ys)"
      "h_limits (events_hdr es h) = (next_cell (xs @ (?L, d) # ys) 391, last_cell 391 (xs @ (?L, d) # ys))"
    and s: "stamp_of (events_hdr es h) = \<lparr>ts_good = True, ts_epoch = ts_epoch ts, ts_counter = ts_counter ts\<rparr>"
    using lim by (simp_all add: es_def add_events_def insert_events_hdr stamp_of_def)
      (auto simp: next_cell_def last_cell_def split: list.splits)
  show "stamp_of (events_hdr es h) = \<lparr>ts_good = True, ts_epoch = ts_epoch ts, ts_counter = ts_counter ts\<rparr>"
    by (rule s)
  show "file_ok (run_events es f) (events_hdr es h) (xs @ (length f, d) # ys)"
    unfolding file_ok_def using h hdr_run_events [OF ok(1) eok] ch len ic(3) N(2) by simp
qed

text \<open>The first claim about the container: whatever the position, \<open>add_data\<close> inserts.\<close>

lemma add_data_run:
  assumes f: "file_ok f h (xs @ ys)" and c: "attached c h (xs @ ys)" and d: "d \<noteq> []"
    and N: "N = length f + 95 + length d" "off_ok N"
  obtains c' p' where
    "add_data d (int (next_cell ys (length f))) (fc_at c f p tr) =
      (Inr (fi (last_cell 0 xs) (next_cell ys N) (length f)),
       fc_log c' (add_events (next_stamp c h) xs ys (length f) N d) p' f tr)"
    "synced c' (xs @ (length f, d) # ys)" "handle_ok c'" "same_env c c'" "fc_stamp c' = next_stamp c h"
proof -
  note ok = file_okD [OF f]
  let ?L = "length f"
  obtain c1 p1 where p: "prepare_end False (fc_at c f p tr) = (Inr (int ?L), fc_at c1 f p1 tr)"
    "synced c1 (xs @ ys)" "handle_ok c1" "same_env c c1" "fc_stamp c1 = known_stamp c h"
    using prepare_end_ok [OF f c, of False p tr] by auto
  define ts where "ts = next_stamp c h"
  have init: "fc_initialized c1" using p(2) by (simp add: synced_def)
  have ts1: "next_stamp c1 h = ts"
    using p(4,5) init by (simp add: ts_def next_stamp_def same_env_def known_stamp_def)
  note tsok = next_stamp_ok [OF f p(3), unfolded ts1]
  let ?e0 = "[stamp_ev ts, Status opened]" and ?c2 = "c1\<lparr>fc_stamp := ts\<rparr>"
  have i: "insertable (run_events ?e0 f) xs ys ?L N d"
    using file_ok_insertable [OF f d, of ?e0] N tsok by simp
  from p(2) obtain x where lim: "fc_limits c1 = fi (next_cell (xs @ ys) 391) (last_cell 391 (xs @ ys)) x"
    and sz: "fc_size c1 = length (xs @ ys)" by (auto simp: synced_def)
  have num: "length (xs @ ys) + 1 < 2 ^ 63" using chain_length [OF ok(16,17)] N by simp
  have num: "length (xs @ ys) + 1 < 2 ^ 63" using chain_length [OF ok(16,17)] N by simp
  have lim2: "fc_limits ?c2 = fi (next_cell (xs @ ys) 391) (last_cell 391 (xs @ ys)) x" using lim by simp
  note up = updateTimeStamp_ok [OF f p(3) init, of p1 tr, unfolded ts1]
  have e: "xs @ ys = [] \<Longrightarrow> ?L = 391" using f unfolding file_ok_def by blast
  note runs = add_data_def fc_getBegin_def p(1) up writeFileStatus_log createEmptyBackup_log writeAndSetSize_log
  have fin: "synced c' (xs @ (?L, d) # ys) \<and> handle_ok c' \<and> same_env c c' \<and> fc_stamp c' = ts"
    if "c' = ?c2\<lparr>fc_limits := fi (next_cell (xs @ (?L, d) # ys) 391) (last_cell 391 (xs @ (?L, d) # ys)) x,
      fc_size := length (xs @ ys) + 1\<rparr>" for c'
    using that p tsok by (auto simp: synced_def handle_ok_def same_env_def)
  show ?thesis
  proof (cases "ys = []")
    case True
    have m: "addDataAtEnd d (int ?L) (fc_log ?c2 ?e0 27 f tr) = (Inr (fi (last_cell 0 xs) N ?L),
        fc_log (?c2\<lparr>fc_limits := fi (next_cell xs 391) ?L x\<rparr>) (?e0 @ insert_events xs [] ?L N d) N f tr)"
      using i True lim2 e by (intro addDataAtEnd_log) simp_all
    let ?c' = "?c2\<lparr>fc_limits := fi (next_cell xs 391) ?L x, fc_size := length xs + 1\<rparr>"
    have "add_data d (int (next_cell ys ?L)) (fc_at c f p tr) = (Inr (fi (last_cell 0 xs) (next_cell ys N) ?L),
       fc_log ?c' (add_events ts xs ys ?L N d) N f tr)"
      using True num m sz by (simp add: runs add_events_def)
    moreover have "next_cell xs 391 = next_cell (xs @ [(?L, d)]) 391" using True e by (cases xs) auto
    ultimately show ?thesis using fin [of ?c'] True by (intro that [of ?c' N]) (auto simp: ts_def)
  next
    case False
    note ys = this
    have ne: "next_cell ys ?L \<noteq> ?L" "next_cell ys ?L = next_cell ys 391" "next_cell ys N = next_cell ys 391"
      using insertable_cells(2) [OF i, of "hd ys"] ys by (auto simp: next_cell_def split: list.splits)
    show ?thesis
    proof (cases "xs = []")
      case True
      have m: "addDataAtBegin d (int ?L) (fc_log ?c2 ?e0 27 f tr) = (Inr (fi 0 (next_cell ys 391) ?L),
          fc_log (?c2\<lparr>fc_limits := fi ?L (last_cell 391 ys) x\<rparr>)
          (?e0 @ insert_events [] ys ?L N d @ last_events ab_last ys ?L N) (last_cell 391 ys + 34) f tr)"
        using i True lim2 ys by (intro addDataAtBegin_log) simp_all
      let ?c' = "?c2\<lparr>fc_limits := fi ?L (last_cell 391 ys) x, fc_size := length ys + 1\<rparr>"
      have "add_data d (int (next_cell ys ?L)) (fc_at c f p tr) = (Inr (fi (last_cell 0 xs) (next_cell ys N) ?L),
         fc_log ?c' (add_events ts xs ys ?L N d) (last_cell 391 ys + 34) f tr)"
        using True ys ne num m sz lim by (simp add: runs add_events_def)
      moreover have "last_cell ?L ys = last_cell 391 ys" using ys by (simp add: last_cell_def)
      ultimately show ?thesis using fin [of ?c'] True by (intro that [of ?c']) (auto simp: ts_def)
    next
      case xs: False
      have lc: "last_cell 391 (xs @ ys) = last_cell 391 ys" "next_cell (xs @ ys) 391 = next_cell xs 391"
        "last_cell 391 (xs @ (?L, d) # ys) = last_cell 391 ys" "next_cell (xs @ (?L, d) # ys) 391 = next_cell xs 391"
        using xs ys by (auto simp: last_cell_def next_cell_def split: list.splits)
      have m: "addDataInMiddle d (int (next_cell ys 391)) (int ?L) (fc_log ?c2 ?e0 27 f tr) =
          (Inr (fi (last_cell 0 xs) (next_cell ys 391) ?L), fc_log ?c2
          (?e0 @ insert_events xs ys ?L N d @ last_events am_last ys ?L N) (last_cell 391 ys + 34) f tr)"
        using i xs ys lim2 lc by (intro addDataInMiddle_log) simp_all
      have dist: "next_cell ys 391 \<noteq> next_cell xs 391"
        using ok(17) apart_distinct [of "xs @ ys"] xs ys by (cases xs; cases ys) auto
      let ?c' = "?c2\<lparr>fc_size := length (xs @ ys) + 1\<rparr>"
      have "add_data d (int (next_cell ys ?L)) (fc_at c f p tr) = (Inr (fi (last_cell 0 xs) (next_cell ys N) ?L),
         fc_log ?c' (add_events ts xs ys ?L N d) (last_cell 391 ys + 34) f tr)"
        using xs ys ne num m sz lim dist lc by (simp add: runs add_events_def)
      moreover have "?c' = ?c2\<lparr>fc_limits := fc_limits c1, fc_size := length (xs @ ys) + 1\<rparr>" by simp
      ultimately show ?thesis using fin [of ?c'] lim lc by (intro that [of ?c']) (auto simp: ts_def)
    qed
  qed
qed

end
