(* ===== verification/File_Container_Remove.thy ===== *)
theory File_Container_Remove
  imports File_Container_Add
begin

text \<open>
  \<open>remove_data\<close> refines deletion from the list of cells: of the only cell, of the
  first, of the last and of any other one.
\<close>

section \<open>The writes of the four removals\<close>

definition erase_events :: "filestatus \<Rightarrow> nat \<Rightarrow> nat \<Rightarrow> nat \<Rightarrow> nat \<Rightarrow> event list" where
  "erase_events st q a b n =
     [Backup2 q a b, Status st, Body q (ptr a b), Body (q + 34) (size_line n CHR ''i'')]"

definition unlink_events :: "cells \<Rightarrow> nat \<Rightarrow> string \<Rightarrow> cells \<Rightarrow> nat \<Rightarrow> event list" where
  "unlink_events xs q d ys L =
     (let p = last_cell 0 xs; pp = last_cell 0 (butlast xs); n = next_cell ys L; nn = next_cell (tl ys) L;
          erase = (\<lambda>st. erase_events st q p n (length d)) in
      if xs = [] \<and> ys = [] then
        [Backup0 391 391 391, Status ft_begin, Cut 391, Status ft_end, Limits 391 391, Removed 0xdead 0xbeef]
      else if ys = [] then
        [LimitsBackup (next_cell xs 391) q, Status rd_limits, Limits (next_cell xs 391) p,
         Backup0 p pp q, Status rd_iterator, Body p (ptr pp L)] @ erase rd_mark1
      else if xs = [] then
        [LimitsBackup q (last_cell 391 ys), Status rd_limits, Limits n (last_cell 391 ys),
         Backup0 n q nn, Status rd_iterator, Body n (ptr 0 nn)] @ erase rd_mark1
      else
        [Backup0 n q nn, Status rd_iterator2, Backup1 p pp q, Status rd_iterator3,
         Body n (ptr p nn), Body p (ptr pp n)] @ erase rd_mark2)"

lemmas unlink_events_defs = unlink_events_def erase_events_def

text \<open>What every removal starts from.\<close>

definition removable :: "string \<Rightarrow> cells \<Rightarrow> nat \<Rightarrow> string \<Rightarrow> cells \<Rightarrow> nat \<Rightarrow> bool" where
  "removable f xs q d ys L \<longleftrightarrow> chain f 0 (xs @ (q, d) # ys) L \<and> apart (xs @ (q, d) # ys) \<and> L = length f \<and> off_ok L"

lemma removable_chains:
  assumes "removable f xs q d ys L"
  shows "chain f 0 xs q" "elem_at f q (last_cell 0 xs) (next_cell ys L) d" "chain f q ys L"
    "apart xs" "apart ys" "\<forall>r\<in>set xs. \<forall>s\<in>set ys. disjoint_cells r s"
    "\<forall>r\<in>set (xs @ ys). disjoint_cells (q, d) r" "391 \<le> q" "q + 95 + length d \<le> L" "391 \<le> L"
proof -
  from assms have c: "chain f 0 (xs @ (q, d) # ys) L" "apart (xs @ (q, d) # ys)" "L = length f"
    by (auto simp: removable_def)
  from c show "chain f 0 xs q" "chain f q ys L" "apart xs" "apart ys"
    "\<forall>r\<in>set xs. \<forall>s\<in>set ys. disjoint_cells r s" "\<forall>r\<in>set (xs @ ys). disjoint_cells (q, d) r"
    by (auto simp: chain_append apart_append)
  show el: "elem_at f q (last_cell 0 xs) (next_cell ys L) d" and q: "391 \<le> q"
    using chain_ptr [OF c(1)] by auto
  show "q + 95 + length d \<le> L" "391 \<le> L"
    using elem_at_end [OF el] c(3) q by auto
qed

lemma removable_offs:
  assumes "removable f xs q d ys L"
  shows "off_ok L" "off_ok q" "off_ok (length d)" "off_ok (last_cell 0 xs)" "off_ok (last_cell 0 (butlast xs))"
    "off_ok (next_cell xs 391)" "off_ok (last_cell 391 ys)" "off_ok (next_cell ys L)" "off_ok (next_cell (tl ys) L)"
    "xs \<noteq> [] \<Longrightarrow> last_cell 0 xs + 34 \<le> L \<and> 391 \<le> last_cell 0 xs"
    "ys \<noteq> [] \<Longrightarrow> next_cell ys L + 34 \<le> L \<and> 391 \<le> next_cell ys L"
proof -
  note r = removable_chains [OF assms]
  show L: "off_ok L" using assms by (simp add: removable_def)
  have c: "391 \<le> fst s \<and> fst s + 34 \<le> L" if "s \<in> set xs \<or> s \<in> set ys" for s
    using that chain_cells [OF r(1), of s] chain_cells [OF r(3), of s] assms by (auto simp: removable_def cell_end_def)
  show "off_ok q" "off_ok (length d)" using r(9) L by auto
  have c': "fst s \<le> L" if "s \<in> set (butlast xs) \<or> s \<in> set (tl ys) \<or> s \<in> set xs \<or> s \<in> set ys" for s
  proof -
    have "s \<in> set (tl ys) \<Longrightarrow> s \<in> set ys" by (cases ys) auto
    with that have "s \<in> set xs \<or> s \<in> set ys" by (auto dest: in_set_butlastD)
    from c [OF this] show ?thesis by simp
  qed
  have "last_cell 0 xs \<le> L" "last_cell 0 (butlast xs) \<le> L" "next_cell xs 391 \<le> L" "last_cell 391 ys \<le> L"
    "next_cell ys L \<le> L" "next_cell (tl ys) L \<le> L"
    using c' r(10) by (auto intro!: last_cell_ind [where P = "\<lambda>x. x \<le> L"] next_cell_ind [where P = "\<lambda>x. x \<le> L"])
  with L show "off_ok (last_cell 0 xs)" "off_ok (last_cell 0 (butlast xs))"
    "off_ok (next_cell xs 391)" "off_ok (last_cell 391 ys)" "off_ok (next_cell ys L)" "off_ok (next_cell (tl ys) L)"
    by auto
  show "xs \<noteq> [] \<Longrightarrow> last_cell 0 xs + 34 \<le> L \<and> 391 \<le> last_cell 0 xs" using c [of "last xs"] by (simp add: last_cell_def)
  show "ys \<noteq> [] \<Longrightarrow> next_cell ys L + 34 \<le> L \<and> 391 \<le> next_cell ys L" using c [of "hd ys"] by (cases ys) auto
qed

lemma unlink_events_ok:
  assumes "removable f xs q d ys L"
  shows "events_ok (unlink_events xs q d ys L) L"
    "events_len (unlink_events xs q d ys L) L = (if xs = [] \<and> ys = [] then 391 else L)"
proof -
  note r = removable_chains(8-10) [OF assms] and o = removable_offs [OF assms]
  have "events_ok (unlink_events xs q d ys L) L \<and>
    events_len (unlink_events xs q d ys L) L = (if xs = [] \<and> ys = [] then 391 else L)"
  proof (cases "ys = []")
    case True
    then show ?thesis using r o by (cases "xs = []") (simp_all add: unlink_events_defs Let_def max_def)
  next
    case False
    then show ?thesis using r o by (cases "xs = []") (simp_all add: unlink_events_defs Let_def max_def)
  qed
  then show "events_ok (unlink_events xs q d ys L) L"
    "events_len (unlink_events xs q d ys L) L = (if xs = [] \<and> ys = [] then 391 else L)" by auto
qed

definition erase_cell :: "nat \<Rightarrow> nat \<Rightarrow> nat \<Rightarrow> nat \<Rightarrow> string \<Rightarrow> string" where
  "erase_cell q a b n f = overwrite (q + 34) (size_line n CHR ''i'') (overwrite q (ptr a b) f)"

lemma erase_cell_chain:
  assumes "chain f a rs e" "\<forall>r\<in>set rs. disjoint_cells (q, d) r" "q + 95 + length d \<le> length f"
    and ok: "off_ok x" "off_ok y" "off_ok (length d)"
  shows "chain (erase_cell q x y (length d) f) a rs e"
  unfolding erase_cell_def
  by (intro chain_overwrite) (use assms in \<open>auto simp: cell_end_def length_overwrite_inside\<close>)

lemma run_unlink_body:
  assumes "\<not> (xs = [] \<and> ys = [])"
  shows "run_events (filter is_body (unlink_events xs q d ys L)) f =
    erase_cell q (last_cell 0 xs) (next_cell ys L) (length d)
      (relink_next 0 xs (next_cell ys L) (relink_prev ys (last_cell 0 xs) L f))"
proof (cases ys)
  case Nil
  then show ?thesis
    using assms by (simp add: unlink_events_defs erase_cell_def relink_next_def relink_prev_def Let_def)
next
  case (Cons r rs)
  then show ?thesis
    by (cases "xs = []") (simp_all add: unlink_events_defs erase_cell_def relink_next_def relink_prev_def Let_def)
qed

lemma unlink_events_chain:
  assumes "removable f xs q d ys L"
  shows "chain (run_events (unlink_events xs q d ys L) f) 0 (xs @ ys) L"
proof (cases "xs = [] \<and> ys = []")
  case True
  then show ?thesis by simp
next
  case False
  note r = removable_chains [OF assms] and o = removable_offs [OF assms]
  have L: "L = length f" using assms by (simp add: removable_def)
  define g where "g = relink_prev ys (last_cell 0 xs) L f"
  note r1 = relink_prev_chain [OF r(3) r(5) o(4) o(1), folded g_def]
  have g: "chain g (last_cell 0 xs) ys L" "chain g 0 xs q" "length g = L"
    using r1 r L by auto
  define k where "k = relink_next 0 xs (next_cell ys L) g"
  note r2 = relink_next_chain [OF g(2) r(4) o(8), folded k_def]
  have k: "chain k 0 xs (next_cell ys L)" "chain k (last_cell 0 xs) ys L" "length k = L"
    using r2 g r by auto
  have "chain k 0 (xs @ ys) L" using k by (simp add: chain_append)
  then have "chain (erase_cell q (last_cell 0 xs) (next_cell ys L) (length d) k) 0 (xs @ ys) L"
    using r o k by (intro erase_cell_chain) auto
  then show ?thesis
    using run_unlink_body [OF False, of q d L f] unlink_events_ok(1) [OF assms] L r(10)
    by (intro chain_run_body [where es = "unlink_events xs q d ys L"]) (auto simp: k_def g_def)
qed

section \<open>Running the removals\<close>

lemma removed_iter:
  assumes "removable (run_events ws f) xs q d ys L"
  shows "readIterator (int q) (fi 0 0 0) False (fc_log c ws p f tr) =
      (Inr (fi (last_cell 0 xs) (next_cell ys L) q), fc_log c ws (q + 34) f tr)"
    "readSizeAndState (fc_log c ws (q + 34) f tr) = (Inr (length d, CHR ''g''), fc_log c ws (q + 60) f tr)"
proof -
  have h: "holds_at q (ptr (last_cell 0 xs) (next_cell ys L)) (run_events ws f)"
    "holds_at (q + 34) (size_line (length d) CHR ''g'') (run_events ws f)"
    "off_ok (last_cell 0 xs)" "off_ok (next_cell ys L)" "off_ok (length d)" "391 \<le> q"
    using removable_chains(2,8) [OF assms] by (simp_all add: elem_at_def)
  have "q + 34 + 26 = q + 60" by simp
  with readIterator_log [OF h(1,3,4,6)] readSizeAndState_log [OF h(2,5)]
  show "readIterator (int q) (fi 0 0 0) False (fc_log c ws p f tr) =
      (Inr (fi (last_cell 0 xs) (next_cell ys L) q), fc_log c ws (q + 34) f tr)"
    "readSizeAndState (fc_log c ws (q + 34) f tr) = (Inr (length d, CHR ''g''), fc_log c ws (q + 60) f tr)"
    by metis+
qed

lemma removeDataPointer_single:
  assumes r: "removable (run_events ws f) [] q d [] L" and lim: "fc_limits c = fi q q x" "fc_size c = 1"
  shows "removeDataPointer (fi 0 L q) (length d) (fc_log c ws p f tr) =
     (Inr (), fc_log (c\<lparr>fc_limits := fi 391 391 0, fc_removed := fi_reset 57005 48879 0 (fc_removed c)\<rparr>)
       (ws @ unlink_events [] q d [] L) 391 f tr)"
proof -
  note o = removable_offs [OF r] and n = removable_chains(8-10) [OF r]
  have L: "L = length (run_events ws f)" using r by (simp add: removable_def)
  let ?ws = "ws @ [Backup0 391 391 391, Status ft_begin]"
  have wb: "writeIteratorBackup 0 (FileIterator_new 391 391 391) ft_begin (fc_log c ws p f tr) =
      (Inr (), fc_log c ?ws p f tr)" for p
    using writeIteratorBackup_log(1) [of 391 391 391] by (simp add: fi_numeral)
  have "391 \<le> length (run_events ?ws f)"
    using n(3) L by (simp add: length_overwrite_inside)
  then have tr: "truncateFile 391 (fc_log c ?ws p f tr) = (Inr (), fc_log c (?ws @ [Cut 391, Status ft_end]) 0 f tr)" for p
    using truncateFile_log [of 391 ?ws f c p tr] by simp
  have l1: "fi_reset 391 391 0 (fi q q x) = fi 391 391 0"
    by (simp add: fi_reset_def fi_def FileIterator_new_def)
  have rm: "writeInitialPosition (fi_reset 57005 48879 0 it) True (fc_log c ws p f tr) =
      (Inr (), fc_log c (ws @ [Removed 57005 48879]) 391 f tr)" for c ws p it
    using writeInitialPosition_log(2) [of 57005 48879 0 c ws p f tr]
    by (simp add: writeInitialPosition_def fi_write_def fi_reset_def)
  show ?thesis
    using L lim wb tr o l1 rm n
    by (simp add: removeDataPointer_def fc_getEnd_log eraseFile_def un_dead_def un_beef_def
        writeInitialPosition_log unlink_events_def del: run_events_append)
qed

lemma chain_header_events:
  assumes "chain g a rs e" "events_ok es (length g)" "391 \<le> length g" "list_all (\<lambda>e. \<not> is_body e) es"
  shows "chain (run_events es g) a rs e"
proof -
  have "filter is_body es = []" using assms(4) by (simp add: filter_empty_conv list_all_iff)
  then show ?thesis using assms(1-3) by (intro chain_run_body [where es = es]) simp_all
qed

lemma readIterator_chain:
  assumes "chain (run_events ws f) a (xs @ (q, d) # ys) e"
    "events_ok es (length (run_events ws f))" "391 \<le> length (run_events ws f)" "list_all (\<lambda>e. \<not> is_body e) es"
  shows "readIterator (int q) (fi 0 0 0) False (fc_log c (ws @ es) p f tr) =
    (Inr (fi (last_cell a xs) (next_cell ys e) q), fc_log c (ws @ es) (q + 34) f tr)"
proof -
  have "chain (run_events (ws @ es) f) a (xs @ (q, d) # ys) e"
    using chain_header_events [OF assms] by simp
  from chain_ptr [OF this] show ?thesis
    by (intro readIterator_log) (auto dest: elem_at_holds)
qed

lemma removeDataPointer_log:
  assumes r: "removable (run_events ws f) xs q d ys L" and ne: "\<not> (xs = [] \<and> ys = [])"
    and lim: "fc_limits c = fi (next_cell (xs @ (q, d) # ys) 391) (last_cell 391 (xs @ (q, d) # ys)) x"
  shows "removeDataPointer (fi (last_cell 0 xs) (next_cell ys L) q) (length d) (fc_log c ws p f tr) =
     (Inr (), fc_log (c\<lparr>fc_limits := fi (next_cell (xs @ ys) 391) (last_cell 391 (xs @ ys)) x\<rparr>)
       (ws @ unlink_events xs q d ys L) (q + 60) f tr)"
proof -
  note o = removable_offs [OF r] and n = removable_chains(8-10) [OF r]
  have L: "L = length (run_events ws f)" using r by (simp add: removable_def)
  note ch = removable_chains [OF r]
  note logs = writeLimitsBackup_log writeInitialPosition_log writeIteratorBackup_log writeIterator_log
    markDataAsErased_log FileIterator_new_fi
  text \<open>The neighbours are read while only the header has been written.\<close>
  have before: "readIterator (int (fst s)) (fi 0 0 0) False (fc_log c (ws @ es) p f tr) =
      (Inr (fi (last_cell 0 zs) q (fst s)), fc_log c (ws @ es) (fst s + 34) f tr)"
    if "xs = zs @ [s]" "events_ok es L" "list_all (\<lambda>e. \<not> is_body e) es" for s zs es p c
    using readIterator_chain [of ws f 0 zs "fst s" "snd s" "[]" q es c p tr] that ch(1) L n by simp
  have after: "readIterator (int (fst s)) (fi 0 0 0) False (fc_log c (ws @ es) p f tr) =
      (Inr (fi q (next_cell zs L) (fst s)), fc_log c (ws @ es) (fst s + 34) f tr)"
    if "ys = s # zs" "events_ok es L" "list_all (\<lambda>e. \<not> is_body e) es" for s zs es p c
    using readIterator_chain [of ws f q "[]" "fst s" "snd s" zs L es c p tr] that ch(3) L n by simp
  show ?thesis
  proof (cases "ys = []")
    case True
    with ne obtain s zs where s: "xs = zs @ [s]" by (cases xs rule: rev_cases) auto
    have nz: "last_cell 0 xs \<noteq> 0" using o(10) s by auto
    have lim': "fc_limits c = fi (next_cell xs 391) q x"
      using lim True s by (cases zs) (auto simp: last_cell_def)
    show ?thesis
      using True s lim' o n L nz before [OF s, of "[LimitsBackup (next_cell xs 391) q, Status rd_limits, Limits (next_cell xs 391) (fst s)]"]
      by (simp add: removeDataPointer_def fc_getEnd_log logs unlink_events_defs Let_def del: run_events_append)
  next
    case False
    then obtain s zs where s: "ys = s # zs" by (cases ys) auto
    have nL: "next_cell ys L \<noteq> L" using o(11) s by auto
    show ?thesis
    proof (cases xs rule: rev_cases)
      case Nil
      show ?thesis
        using Nil s lim o n L nL after [OF s, of "[LimitsBackup q (last_cell 391 ys), Status rd_limits, Limits (fst s) (last_cell 391 ys)]"]
        by (simp add: removeDataPointer_def fc_getEnd_log logs unlink_events_defs Let_def del: run_events_append)
    next
      case (snoc us u)
      have nz: "last_cell 0 xs \<noteq> 0" using o(10) snoc by auto
      have lc: "last_cell 391 (xs @ (q, d) # ys) = last_cell 391 ys" "last_cell 391 (xs @ ys) = last_cell 391 ys"
        "next_cell (xs @ (q, d) # ys) 391 = next_cell (xs @ ys) 391"
        using s snoc by (auto simp: last_cell_def hd_append next_cell_def split: list.splits) (cases us; auto)+
      have same: "c\<lparr>fc_limits := fi (next_cell (xs @ ys) 391) (last_cell 391 (xs @ ys)) x\<rparr> = c"
        using lim lc by (cases c) simp
      show ?thesis
        unfolding same using snoc s lim lc o n L nL nz after [OF s, of "[]"] before [OF snoc, of "[]"]
        by (simp add: removeDataPointer_def fc_getEnd_log logs unlink_events_defs Let_def del: run_events_append)
    qed
  qed
qed

section \<open>\<open>remove_data\<close>\<close>

definition remove_events :: "TimeStamp \<Rightarrow> cells \<Rightarrow> nat \<Rightarrow> string \<Rightarrow> cells \<Rightarrow> nat \<Rightarrow> event list" where
  "remove_events ts xs q d ys L =
     [stamp_ev ts, Status opened] @ unlink_events xs q d ys L @
     [Wipe, Status rd_empty, Num (length (xs @ ys)), Status closed]"

lemma file_ok_removable:
  assumes "file_ok f h (xs @ (q, d) # ys)" "events_ok es (length f)" "list_all (\<lambda>e. \<not> is_body e) es"
  shows "removable (run_events es f) xs q d ys (length f)"
proof -
  note ok = file_okD [OF assms(1)]
  have "events_len es n = n" for n
    using assms(3) by (induction es arbitrary: n) (auto elim: is_body.elims)
  then have "length (run_events es f) = length f"
    using length_run_events [of f es] assms(2) ok by simp
  with chain_header_events [OF ok(16) assms(2) ok(3) assms(3)] ok show ?thesis
    by (simp add: removable_def)
qed

lemma unlink_events_hdr:
  "h_limits (events_hdr (unlink_events xs q d ys L) h) =
     (if xs = [] \<and> ys = [] then (391, 391) else if ys = [] then (next_cell xs 391, last_cell 0 xs)
      else if xs = [] then (next_cell ys L, last_cell 391 ys) else h_limits h)"
  "h_epoch (events_hdr (unlink_events xs q d ys L) h) = h_epoch h"
  "h_counter (events_hdr (unlink_events xs q d ys L) h) = h_counter h"
  by (simp_all add: unlink_events_defs Let_def)

lemma remove_file_ok:
  assumes f: "file_ok f h (xs @ (q, d) # ys)" and ts: "stamp_ok (ts_epoch ts) (ts_counter ts)"
  defines "es \<equiv> remove_events ts xs q d ys (length f)"
  shows "file_ok (run_events es f) (events_hdr es h) (xs @ ys)"
    "stamp_of (events_hdr es h) = \<lparr>ts_good = True, ts_epoch = ts_epoch ts, ts_counter = ts_counter ts\<rparr>"
    "length (run_events es f) = (if xs = [] \<and> ys = [] then 391 else length f)" "events_ok es (length f)"
proof -
  note ok = file_okD [OF f]
  let ?L = "length f" and ?N = "if xs = [] \<and> ys = [] then 391 else length f"
  let ?e0 = "[stamp_ev ts, Status opened]" and ?e3 = "[Wipe, Status rd_empty, Num (length (xs @ ys)), Status closed]"
  have r: "removable (run_events ?e0 f) xs q d ys ?L"
    using file_ok_removable [OF f, of ?e0] ts by simp
  note uo = unlink_events_ok [OF r] and uc = unlink_events_chain [OF r]
  let ?g = "run_events (?e0 @ unlink_events xs q d ys ?L) f"
  have num: "off_ok (length (xs @ ys))"
    using ok(9) by simp
  show eok: "events_ok es ?L"
    using uo ts num by (simp add: es_def remove_events_def)
  have len0: "length (run_events ?e0 f) = ?L" using r by (simp add: removable_def)
  have glen: "length ?g = ?N" "391 \<le> length ?g"
    using length_run_events [of "run_events ?e0 f" "unlink_events xs q d ys ?L"] uo len0 ok(3) by simp_all
  have run: "run_events es f = run_events ?e3 ?g" by (simp add: es_def remove_events_def)
  have e3: "events_ok ?e3 n" for n using num by simp
  have cg: "chain ?g 0 (xs @ ys) ?N"
    using uc by (cases "xs = [] \<and> ys = []") simp_all
  have ch: "chain (run_events es f) 0 (xs @ ys) ?N"
    unfolding run by (rule chain_header_events [OF cg e3 glen(2)]) simp
  show len: "length (run_events es f) = ?N"
    using length_run_events [OF glen(2) e3] glen(1) unfolding run by simp
  have lim: "h_limits h = (next_cell (xs @ (q, d) # ys) 391, last_cell 391 (xs @ (q, d) # ys))"
    using f unfolding file_ok_def by blast
  show s: "stamp_of (events_hdr es h) = \<lparr>ts_good = True, ts_epoch = ts_epoch ts, ts_counter = ts_counter ts\<rparr>"
    by (simp add: es_def remove_events_def unlink_events_hdr stamp_of_def)
  have h: "h_status (events_hdr es h) = closed" "h_num (events_hdr es h) = length (xs @ ys)"
    by (simp_all add: es_def remove_events_def)
  have hl: "h_limits (events_hdr es h) = (next_cell (xs @ ys) 391, last_cell 391 (xs @ ys))"
    using lim by (cases xs; cases ys) (simp_all add: es_def remove_events_def unlink_events_hdr last_cell_def)
  have "apart (xs @ ys)" using ok(17) by (auto simp: apart_append)
  then show "file_ok (run_events es f) (events_hdr es h) (xs @ ys)"
    unfolding file_ok_def using h hl hdr_run_events [OF ok(1) eok] ch len ok(4) by simp
qed

lemma remove_data_run:
  assumes f: "file_ok f h (xs @ (q, d) # ys)" and c: "attached c h (xs @ (q, d) # ys)"
  obtains c' p' where
    "remove_data (int q) (fc_at c f p tr) =
      (Inr (), fc_log c' (remove_events (next_stamp c h) xs q d ys (length f)) p' f tr)"
    "synced c' (xs @ ys)" "handle_ok c'" "same_env c c'" "fc_stamp c' = next_stamp c h"
proof -
  note ok = file_okD [OF f]
  let ?L = "length f"
  obtain c1 p1 where p: "prepare False (fc_at c f p tr) = (Inr (), fc_at c1 f p1 tr)"
    "synced c1 (xs @ (q, d) # ys)" "handle_ok c1" "same_env c c1" "fc_stamp c1 = known_stamp c h"
    using prepare_ok [OF f c, of False p tr] by auto
  define ts where "ts = next_stamp c h"
  have init: "fc_initialized c1" using p(2) by (simp add: synced_def)
  have ts1: "next_stamp c1 h = ts"
    using p(4,5) init by (simp add: ts_def next_stamp_def same_env_def known_stamp_def)
  note tsok = next_stamp_ok [OF f p(3), unfolded ts1]
  let ?e0 = "[stamp_ev ts, Status opened]" and ?c2 = "c1\<lparr>fc_stamp := ts\<rparr>"
  have r: "removable (run_events ?e0 f) xs q d ys ?L"
    using file_ok_removable [OF f, of ?e0] tsok by simp
  from p(2) obtain x where lim: "fc_limits c1 = fi (next_cell (xs @ (q, d) # ys) 391) (last_cell 391 (xs @ (q, d) # ys)) x"
    and sz: "fc_size c1 = Suc (length (xs @ ys))" by (auto simp: synced_def)
  note up = updateTimeStamp_ok [OF f p(3) init, of p1 tr, unfolded ts1]
  have num: "off_ok (length (xs @ ys))" using ok(9) by simp
  note runs = remove_data_def FileIterator_new_fi p(1) up writeFileStatus_log createEmptyBackup_log writeAndSetSize_log
    removed_iter [OF r]
  have fin: "synced c' (xs @ ys) \<and> handle_ok c' \<and> same_env c c' \<and> fc_stamp c' = ts"
    if "c' = ?c2\<lparr>fc_limits := fi (next_cell (xs @ ys) 391) (last_cell 391 (xs @ ys)) y,
      fc_removed := z, fc_size := length (xs @ ys)\<rparr>" for c' y z
    using that p tsok by (auto simp: synced_def handle_ok_def same_env_def)
  show ?thesis
  proof (cases "xs = [] \<and> ys = []")
    case True
    have m: "removeDataPointer (fi 0 ?L q) (length d) (fc_log ?c2 ?e0 p f tr) =
       (Inr (), fc_log (?c2\<lparr>fc_limits := fi 391 391 0, fc_removed := fi_reset 57005 48879 0 (fc_removed ?c2)\<rparr>)
         (?e0 @ unlink_events [] q d [] ?L) 391 f tr)" for p
      using r True lim sz by (intro removeDataPointer_single) simp_all
    let ?c' = "?c2\<lparr>fc_limits := fi 391 391 0, fc_removed := fi_reset 57005 48879 0 (fc_removed ?c2), fc_size := 0\<rparr>"
    have "remove_data (int q) (fc_at c f p tr) =
        (Inr (), fc_log ?c' (remove_events ts xs q d ys ?L) 391 f tr)"
      using True sz num m by (simp add: runs remove_events_def del: fi_simps(9))
    then show ?thesis using fin [of ?c'] True by (intro that [of ?c']) (auto simp: ts_def)
  next
    case False
    have m: "removeDataPointer (fi (last_cell 0 xs) (next_cell ys ?L) q) (length d) (fc_log ?c2 ?e0 p f tr) =
       (Inr (), fc_log (?c2\<lparr>fc_limits := fi (next_cell (xs @ ys) 391) (last_cell 391 (xs @ ys)) x\<rparr>)
         (?e0 @ unlink_events xs q d ys ?L) (q + 60) f tr)" for p
      using r False lim by (intro removeDataPointer_log) simp_all
    let ?c' = "?c2\<lparr>fc_limits := fi (next_cell (xs @ ys) 391) (last_cell 391 (xs @ ys)) x, fc_size := length (xs @ ys)\<rparr>"
    have "remove_data (int q) (fc_at c f p tr) =
        (Inr (), fc_log ?c' (remove_events ts xs q d ys ?L) (q + 60) f tr)"
      using sz num m by (simp add: runs remove_events_def)
    then show ?thesis using fin [where c' = ?c' and y = x and z = "fc_removed c1"] by (intro that [of ?c']) (auto simp: ts_def)
  qed
qed

end
