(* ===== verification/File_Container_Read.thy ===== *)
theory File_Container_Read
  imports File_Container_Remove
begin

text \<open>
  The methods that only read: \<open>read_data\<close>, the iterators, \<open>fillVector\<close>, the size and
  the limits, on fresh and on stale handles. None of them writes to the file.
\<close>

section \<open>One element\<close>

lemma elem_at_parts:
  assumes "elem_at f q a b d"
  obtains u v where "holds_at q (ptr a b) f" "off_ok a" "off_ok b" "off_ok (length d)"
    "holds_at (q + 34) (size_line (length d) CHR ''g'') f" "holds_at (q + 60) d f"
    "holds_at (q + 60 + length d) [newline] f" "holds_at (q + 61 + length d) (ptr u v) f" "off_ok u" "off_ok v"
  using assms by (auto simp: elem_at_def holds_at_append)

lemma readDataHere_at:
  assumes "elem_at f q a b d"
  shows "\<exists>u v. readDataHere it force (fc_at c f q tr) =
    (Inr (fi a b q, fi u v 0, d), fc_at c f (q + 94 + length d) tr)"
proof -
  obtain u v where h: "holds_at q (ptr a b) f" "off_ok a" "off_ok b" "off_ok (length d)"
    "holds_at (q + 34) (size_line (length d) CHR ''g'') f" "holds_at (q + 60) d f"
    "holds_at (q + 60 + length d) [newline] f" "holds_at (q + 61 + length d) (ptr u v) f" "off_ok u" "off_ok v"
    using elem_at_parts [OF assms] by blast
  have "q + 34 + 26 = q + 60" "q + 60 + length d + 1 = q + 61 + length d" "q + 61 + length d + 33 = q + 94 + length d"
    by simp_all
  note pos = this
  have r1: "readIteratorHere it (fc_at c f q tr) = (Inr (fi a b q), fc_at c f (q + 34) tr)"
    by (rule readIteratorHere_at [OF h(1-3)])
  have r2: "readSizeAndState (fc_at c f (q + 34) tr) = (Inr (length d, CHR ''g''), fc_at c f (q + 60) tr)"
    using readSizeAndState_at [OF h(5,4), of c tr] pos(1) by simp
  have r3: "read_pieces (length d) [] (mk f (q + 60) tr) = Some (d, mk f (q + 60 + length d) tr)"
    using read_pieces_holds [OF h(6), of "[]" tr] by simp
  have r4: "st_get (mk f (q + 60 + length d) tr) = (Some newline, mk f (q + 61 + length d) tr)"
    using get_mk [OF h(7), of tr] by (simp add: ac_simps)
  have r5: "fi_read (fi 0 0 0) (mk f (q + 61 + length d) tr) = (fi u v 0, mk f (q + 94 + length d) tr)"
    using fi_read_mk [OF h(8-10), of "fi 0 0 0" tr] pos(3) by (simp add: fi_def FileIterator_new_def)
  show ?thesis
    unfolding readDataHere_def status_as_def
    using r1 r2 r3 r4 r5 by (simp add: FileIterator_new_fi) blast
qed

section \<open>The containers that hold a list\<close>

definition container :: "file_container \<Rightarrow> string \<Rightarrow> cells \<Rightarrow> bool" where
  "container c f rs \<longleftrightarrow> (\<exists>p tr h. fc_stream c = Some (mk f p tr) \<and> file_ok f h rs \<and> attached c h rs)"

lemma fc_at_id: "fc_stream c = Some (mk f p tr) \<Longrightarrow> fc_at c f p tr = c"
  by (cases c) (simp add: fc_at_def del: fc_at_fold)

lemma containerE:
  assumes "container c f rs"
  obtains p tr h where "c = fc_at c f p tr" "file_ok f h rs" "attached c h rs"
proof -
  from assms obtain p tr h where s: "fc_stream c = Some (mk f p tr)" "file_ok f h rs" "attached c h rs"
    unfolding container_def by blast
  from fc_at_id [OF s(1), symmetric] s(2,3) show ?thesis by (rule that)
qed

lemma handle_ok_at [simp]: "handle_ok (fc_at c f p tr) = handle_ok c"
  by (simp add: handle_ok_def)

lemma synced_at [simp]: "synced (fc_at c f p tr) rs = synced c rs"
  by (simp add: synced_def)

lemma fresh_at [simp]: "fresh (fc_at c f p tr) h rs = fresh c h rs"
  by (simp add: fresh_def)

lemma attached_at [simp]: "attached (fc_at c f p tr) h rs = attached c h rs"
  by (simp add: attached_def stale_def unopened_def)

lemma containerI: "file_ok f h rs \<Longrightarrow> fresh c h rs \<Longrightarrow> container (fc_at c f p tr) f rs"
  unfolding container_def by (auto simp: attached_def)

lemma ts_eq_stamp: "ts_good ts \<Longrightarrow> ts = \<lparr>ts_good = True, ts_epoch = ts_epoch ts, ts_counter = ts_counter ts\<rparr>"
  by (cases ts) simp

lemma add_data_container:
  assumes "container c f (xs @ ys)" "d \<noteq> []" "length f + 95 + length d < 2 ^ 63"
  shows "\<exists>c' f'. add_data d (int (next_cell ys (length f))) c =
      (Inr (fi (last_cell 0 xs) (next_cell ys (length f')) (length f)), c') \<and>
    container c' f' (xs @ (length f, d) # ys) \<and> length f' = length f + 95 + length d \<and>
    same_env c c' \<and> fc_initialized c'"
proof -
  from assms(1) obtain p tr h where c: "c = fc_at c f p tr" "file_ok f h (xs @ ys)" "attached c h (xs @ ys)"
    by (rule containerE)
  define N where "N = length f + 95 + length d"
  have Nok: "off_ok N" using assms(3) by (simp add: N_def)
  define es where "es = add_events (next_stamp c h) xs ys (length f) N d"
  obtain c' p' where a: "add_data d (int (next_cell ys (length f))) (fc_at c f p tr) =
      (Inr (fi (last_cell 0 xs) (next_cell ys N) (length f)), fc_log c' es p' f tr)"
    "synced c' (xs @ (length f, d) # ys)" "handle_ok c'" "fc_stamp c' = next_stamp c h" "same_env c c'"
    using add_data_run [OF c(2,3) assms(2) N_def Nok, of p tr, folded es_def] by blast
  have ts: "stamp_ok (ts_epoch (next_stamp c h)) (ts_counter (next_stamp c h))" "ts_good (next_stamp c h)"
    using next_stamp_ok [OF c(2) attached_handle [OF c(3)]] by auto
  note fo = add_file_ok [OF c(2) assms(2) N_def Nok ts(1), folded es_def]
  have "container (fc_log c' es p' f tr) (run_events es f) (xs @ (length f, d) # ys)"
    unfolding fc_log_def
    by (rule containerI [OF fo(1)]) (use a fo(2) ts_eq_stamp [OF ts(2)] in \<open>simp add: fresh_def\<close>)
  moreover have "same_env c (fc_log c' es p' f tr)" "fc_initialized (fc_log c' es p' f tr)"
    using a(2,5) by (simp_all add: same_env_def synced_def)
  ultimately show ?thesis
    using a(1) c(1) fo(3)
    by (intro exI [of _ "fc_log c' es p' f tr"] exI [of _ "run_events es f"]) (simp add: N_def [symmetric])
qed

lemma remove_data_container:
  assumes "container c f (xs @ (q, d) # ys)"
  shows "\<exists>c' f'. remove_data (int q) c = (Inr (), c') \<and> container c' f' (xs @ ys) \<and>
    length f' = (if xs @ ys = [] then 391 else length f) \<and> same_env c c' \<and> fc_initialized c'"
proof -
  from assms(1) obtain p tr h where c: "c = fc_at c f p tr" "file_ok f h (xs @ (q, d) # ys)"
    "attached c h (xs @ (q, d) # ys)" by (rule containerE)
  define es where "es = remove_events (next_stamp c h) xs q d ys (length f)"
  obtain c' p' where a: "remove_data (int q) (fc_at c f p tr) = (Inr (), fc_log c' es p' f tr)"
    "synced c' (xs @ ys)" "handle_ok c'" "fc_stamp c' = next_stamp c h" "same_env c c'"
    using remove_data_run [OF c(2,3), of p tr, folded es_def] by blast
  have ts: "stamp_ok (ts_epoch (next_stamp c h)) (ts_counter (next_stamp c h))" "ts_good (next_stamp c h)"
    using next_stamp_ok [OF c(2) attached_handle [OF c(3)]] by auto
  note fo = remove_file_ok [OF c(2) ts(1), folded es_def]
  have "container (fc_log c' es p' f tr) (run_events es f) (xs @ ys)"
    unfolding fc_log_def
    by (rule containerI [OF fo(1)]) (use a fo(2) ts_eq_stamp [OF ts(2)] in \<open>simp add: fresh_def\<close>)
  moreover have "same_env c (fc_log c' es p' f tr)" "fc_initialized (fc_log c' es p' f tr)"
    using a(2,5) by (simp_all add: same_env_def synced_def)
  ultimately show ?thesis
    using a(1) c(1) fo(3)
    by (intro exI [of _ "fc_log c' es p' f tr"] exI [of _ "run_events es f"]) simp
qed

section \<open>The iterators\<close>

text \<open>The position and the iterator of the \<open>i\<close>-th cell; those of the end for \<open>i = length rs\<close>.\<close>

definition pos_of :: "cells \<Rightarrow> nat \<Rightarrow> nat \<Rightarrow> nat" where
  "pos_of rs L i = next_cell (drop i rs) L"

definition iter_of :: "cells \<Rightarrow> nat \<Rightarrow> nat \<Rightarrow> FileIterator" where
  "iter_of rs L i = (if i < length rs
     then fi (last_cell 0 (take i rs)) (pos_of rs L (Suc i)) (pos_of rs L i) else fi 0 0 L)"

lemma pos_of_simps:
  "length rs \<le> i \<Longrightarrow> pos_of rs L i = L" "i < length rs \<Longrightarrow> pos_of rs L i = fst (rs ! i)"
  by (simp_all add: pos_of_def Cons_nth_drop_Suc [symmetric])

lemma iter_of_good [simp]: "fi_good (iter_of rs L i)" "fi_current (iter_of rs L i) = int (pos_of rs L i)"
  by (simp_all add: iter_of_def pos_of_simps)

lemma chain_nth:
  assumes "chain f 0 rs L" "i < length rs"
  shows "elem_at f (pos_of rs L i) (last_cell 0 (take i rs)) (pos_of rs L (Suc i)) (snd (rs ! i))"
    "391 \<le> pos_of rs L i" "pos_of rs L i < length f"
proof -
  have "rs = take i rs @ (fst (rs ! i), snd (rs ! i)) # drop (Suc i) rs"
    using assms(2) by (simp add: id_take_nth_drop)
  with assms(1) have "chain f 0 (take i rs @ (fst (rs ! i), snd (rs ! i)) # drop (Suc i) rs) L" by simp
  from chain_ptr [OF this] assms(2)
  show el: "elem_at f (pos_of rs L i) (last_cell 0 (take i rs)) (pos_of rs L (Suc i)) (snd (rs ! i))"
    "391 \<le> pos_of rs L i" by (simp_all add: pos_of_simps) (simp add: pos_of_def)
  from elem_at_end [OF el(1)] show "pos_of rs L i < length f" by simp
qed

lemma readIterator_nth:
  assumes "file_ok f h rs" "i \<le> length rs" "fi_good it"
  shows "\<exists>p'. readIterator (int (pos_of rs (length f) i)) it False (fc_at c f p tr) =
    (Inr (iter_of rs (length f) i), fc_at c f p' tr)"
proof (cases "i < length rs")
  case True
  note ok = file_okD [OF assms(1)]
  note n = chain_nth [OF ok(16) True]
  from readIterator_at [of _ _ _ f] elem_at_holds [OF n(1)] n(2) True show ?thesis
    by (auto simp: iter_of_def)
next
  case False
  with assms(2,3) readIterator_end_at [of it f c p tr] show ?thesis
    by (auto simp: pos_of_simps iter_of_def)
qed

lemma first_last_pos:
  assumes "file_ok f h rs"
  shows "next_cell rs 391 = pos_of rs (length f) 0" "last_cell 391 rs = pos_of rs (length f) (length rs - 1)"
proof -
  have e: "rs = [] \<Longrightarrow> length f = 391" using assms unfolding file_ok_def by blast
  then show "next_cell rs 391 = pos_of rs (length f) 0" by (cases rs) (simp_all add: pos_of_def)
  show "last_cell 391 rs = pos_of rs (length f) (length rs - 1)"
    using e by (cases rs rule: rev_cases) (simp_all add: pos_of_def)
qed

lemma fi_reset_fi [simp]:
  "fi_reset 0 0 (int z) (fi a b p) = fi 0 0 z" "fi_reset 0 0 0 (fi a b p) = fi 0 0 0"
  by (simp_all add: fi_reset_def fi_def FileIterator_new_def)

lemma increment_ok:
  assumes f: "file_ok f h rs" and c: "attached c h rs"
  shows "i < length rs \<Longrightarrow> \<exists>c' p'. increment_iterator (iter_of rs (length f) i) (fc_at c f p tr) =
      (Inr (iter_of rs (length f) (Suc i)), fc_at c' f p' tr) \<and> fresh c' h rs \<and> same_env c c'"
    "\<exists>c' p'. increment_iterator (fi 0 0 0) (fc_at c f p tr) =
      (Inr (iter_of rs (length f) 0), fc_at c' f p' tr) \<and> fresh c' h rs \<and> same_env c c'"
proof -
  note ok = file_okD [OF f]
  let ?L = "length f"
  obtain c1 p1 where p: "prepare_end True (fc_at c f p tr) = (Inr (int ?L), fc_at c1 f p1 tr)"
    "fresh c1 h rs" "same_env c c1"
    using prepare_end_ok [OF f c, of True p tr] by blast
  from p(2) obtain x where lim: "fc_limits c1 = fi (next_cell rs 391) (last_cell 391 rs) x"
    by (auto simp: fresh_def synced_def)
  show "\<exists>c' p'. increment_iterator (iter_of rs ?L i) (fc_at c f p tr) =
      (Inr (iter_of rs ?L (Suc i)), fc_at c' f p' tr) \<and> fresh c' h rs \<and> same_env c c'" if i: "i < length rs"
  proof (cases "pos_of rs ?L (Suc i) = ?L")
    case True
    then have e: "\<not> Suc i < length rs" using chain_nth(3) [OF ok(16), of "Suc i"] by auto
    have nz: "pos_of rs ?L i \<noteq> 0" using chain_nth(2) [OF ok(16) i] by auto
    show ?thesis
      using p True e i nz by (intro exI [of _ c1] exI [of _ p1]) (simp add: increment_iterator_def increment_with_def iter_of_def)
  next
    case False
    have nz: "pos_of rs ?L i \<noteq> 0" using chain_nth(2) [OF ok(16) i] by auto
    obtain p2 where r1: "readIterator (int (pos_of rs ?L i)) (iter_of rs ?L i) False (fc_at c1 f p1 tr) =
        (Inr (iter_of rs ?L i), fc_at c1 f p2 tr)"
      using readIterator_nth [OF f, of i "iter_of rs ?L i" c1 p1 tr] i by auto
    obtain p3 where r2: "readIterator (int (pos_of rs ?L (Suc i))) (iter_of rs ?L i) False (fc_at c1 f p2 tr) =
        (Inr (iter_of rs ?L (Suc i)), fc_at c1 f p3 tr)"
      using readIterator_nth [OF f, of "Suc i" "iter_of rs ?L i" c1 p2 tr] i by auto
    have nx: "fi_next (iter_of rs ?L i) = int (pos_of rs ?L (Suc i))" using i by (simp add: iter_of_def)
    show ?thesis
      using p False nz r1 r2 nx by (intro exI [of _ c1] exI [of _ p3]) (simp add: increment_iterator_def increment_with_def)
  qed
  obtain p2 where r: "readIterator (int (pos_of rs ?L 0)) (fi 0 0 0) False (fc_at c1 f p1 tr) =
      (Inr (iter_of rs ?L 0), fc_at c1 f p2 tr)"
    using readIterator_nth [OF f, of 0 "fi 0 0 0" c1 p1 tr] by auto
  then show "\<exists>c' p'. increment_iterator (fi 0 0 0) (fc_at c f p tr) =
      (Inr (iter_of rs ?L 0), fc_at c' f p' tr) \<and> fresh c' h rs \<and> same_env c c'"
    using p lim first_last_pos [OF f]
    by (intro exI [of _ c1] exI [of _ p2]) (simp add: increment_iterator_def increment_with_def)
qed

lemma decrement_ok:
  assumes f: "file_ok f h rs" and c: "attached c h rs"
  shows "i < length rs \<Longrightarrow> \<exists>c' p'. decrement_iterator (iter_of rs (length f) (Suc i)) (fc_at c f p tr) =
      (Inr (iter_of rs (length f) i), fc_at c' f p' tr) \<and> fresh c' h rs \<and> same_env c c'"
    "0 < length rs \<Longrightarrow> \<exists>c' p'. decrement_iterator (iter_of rs (length f) 0) (fc_at c f p tr) =
      (Inr (fi 0 0 0), fc_at c' f p' tr) \<and> fresh c' h rs \<and> same_env c c'"
proof -
  note ok = file_okD [OF f]
  let ?L = "length f"
  obtain c1 p1 where p: "prepare True (fc_at c f p tr) = (Inr (), fc_at c1 f p1 tr)"
    "fresh c1 h rs" "same_env c c1"
    using prepare_ok [OF f c, of True p tr] by blast
  from p(2) obtain x where lim: "fc_limits c1 = fi (next_cell rs 391) (last_cell 391 rs) x"
    by (auto simp: fresh_def synced_def)
  show "\<exists>c' p'. decrement_iterator (iter_of rs ?L (Suc i)) (fc_at c f p tr) =
      (Inr (iter_of rs ?L i), fc_at c' f p' tr) \<and> fresh c' h rs \<and> same_env c c'" if i: "i < length rs"
  proof (cases "Suc i < length rs")
    case False
    with i have e: "length rs - 1 = i" "pos_of rs ?L (Suc i) = ?L" by (auto simp: pos_of_simps)
    obtain p2 where r: "readIterator (int (pos_of rs ?L i)) (iter_of rs ?L (Suc i)) False (fc_at c1 f ?L tr) =
        (Inr (iter_of rs ?L i), fc_at c1 f p2 tr)"
      using readIterator_nth [OF f, of i "iter_of rs ?L (Suc i)" c1 ?L tr] i by auto
    show ?thesis
      using p e r lim first_last_pos(2) [OF f]
      by (intro exI [of _ c1] exI [of _ p2]) (simp add: decrement_iterator_def decrement_with_def)
  next
    case True
    have pl: "pos_of rs ?L (Suc i) \<noteq> ?L" using chain_nth(3) [OF ok(16) True] by simp
    have pv: "fi_prev (iter_of rs ?L (Suc i)) = int (pos_of rs ?L i)"
      using True i by (simp add: iter_of_def take_Suc_conv_app_nth pos_of_simps)
    have nz: "pos_of rs ?L i \<noteq> 0" using chain_nth(2) [OF ok(16) i] by auto
    obtain p2 where r1: "readIterator (int (pos_of rs ?L (Suc i))) (iter_of rs ?L (Suc i)) False (fc_at c1 f ?L tr) =
        (Inr (iter_of rs ?L (Suc i)), fc_at c1 f p2 tr)"
      using readIterator_nth [OF f, of "Suc i" "iter_of rs ?L (Suc i)" c1 ?L tr] True by auto
    obtain p3 where r2: "readIterator (int (pos_of rs ?L i)) (iter_of rs ?L (Suc i)) False (fc_at c1 f p2 tr) =
        (Inr (iter_of rs ?L i), fc_at c1 f p3 tr)"
      using readIterator_nth [OF f, of i "iter_of rs ?L (Suc i)" c1 p2 tr] i by auto
    show ?thesis
      using p pl pv nz r1 r2
      by (intro exI [of _ c1] exI [of _ p3]) (simp add: decrement_iterator_def decrement_with_def)
  qed
  show "\<exists>c' p'. decrement_iterator (iter_of rs ?L 0) (fc_at c f p tr) =
      (Inr (fi 0 0 0), fc_at c' f p' tr) \<and> fresh c' h rs \<and> same_env c c'" if n: "0 < length rs"
  proof -
    have "pos_of rs ?L 0 \<noteq> ?L" using chain_nth(3) [OF ok(16) n] by simp
    then show ?thesis
      using p n by (intro exI [of _ c1] exI [of _ ?L])
        (simp add: decrement_iterator_def decrement_with_def iter_of_def)
  qed
qed

section \<open>Reading the data\<close>

lemma read_data_ok:
  assumes f: "file_ok f h rs" and c: "attached c h rs" and i: "i < length rs"
  shows "\<exists>c' p'. read_data (int (pos_of rs (length f) i)) it False (fc_at c f p tr) =
      (Inr (snd (rs ! i), iter_of rs (length f) i), fc_at c' f p' tr) \<and> fresh c' h rs \<and> same_env c c'"
proof -
  note ok = file_okD [OF f]
  let ?L = "length f"
  obtain c1 p1 where p: "prepare_end True (fc_at c f p tr) = (Inr (int ?L), fc_at c1 f p1 tr)"
    "fresh c1 h rs" "same_env c c1"
    using prepare_end_ok [OF f c, of True p tr] by blast
  note n = chain_nth [OF ok(16) i]
  from readDataHere_at [OF n(1), of it False c1 tr] obtain u v p2 where
    "readDataHere it False (fc_at c1 f (pos_of rs ?L i) tr) =
      (Inr (iter_of rs ?L i, fi u v 0, snd (rs ! i)), fc_at c1 f p2 tr)"
    using i by (auto simp: iter_of_def)
  then show ?thesis
    using p n(3) by (intro exI [of _ c1] exI [of _ p2]) (simp add: read_data_def)
qed

lemma fillVector_loop_ok:
  "chain f a rs (length f) \<Longrightarrow> \<exists>p'. fillVector_loop (int (next_cell rs (length f))) (int (length f)) it vec (fc_at c f p tr) =
     Some (Inr (vec @ map snd rs), fc_at c f p' tr)"
proof (induction rs arbitrary: a it vec p)
  case Nil
  then show ?case by (subst fillVector_loop.simps) auto
next
  case (Cons r rs)
  obtain q d where r: "r = (q, d)" by force
  with Cons.prems have el: "elem_at f q a (next_cell rs (length f)) d" and ch: "chain f q rs (length f)"
    by (auto simp: next_cell_def)
  from readDataHere_at [OF el, of it False c tr] obtain u v p2 where
    rd: "readDataHere it False (fc_at c f q tr) =
      (Inr (fi a (next_cell rs (length f)) q, fi u v 0, d), fc_at c f p2 tr)" by blast
  have "q < length f" using elem_at_end [OF el] by simp
  with rd have "fillVector_loop (int (next_cell (r # rs) (length f))) (int (length f)) it vec (fc_at c f p tr) =
      fillVector_loop (int (next_cell rs (length f))) (int (length f)) (fi a (next_cell rs (length f)) q) (vec @ [d]) (fc_at c f p2 tr)"
    by (subst fillVector_loop.simps) (simp add: r)
  with Cons.IH [OF ch, of "fi a (next_cell rs (length f)) q" "vec @ [d]" p2] r show ?case by simp
qed

lemma fillVector_ok:
  assumes f: "file_ok f h rs" and c: "attached c h rs" and init: "fc_initialized c"
  shows "\<exists>c' p'. fillVector (fc_at c f p tr) = (Inr (map snd rs), fc_at c' f p' tr) \<and> fresh c' h rs \<and> same_env c c'"
proof -
  note ok = file_okD [OF f]
  let ?L = "length f"
  have pr: "prepare True (fc_at c f ?L tr) = on_modified (checkStreamAndStamp True) (syncData True) (fc_at c f ?L tr)"
    using init by (simp add: prepare_def)
  obtain c1 p1 where p: "on_modified (checkStreamAndStamp True) (syncData True) (fc_at c f ?L tr) = (Inr (), fc_at c1 f p1 tr)"
    "fresh c1 h rs" "same_env c c1"
    using prepare_ok [OF f c, of True ?L tr, unfolded pr] by blast
  from p(2) obtain x where lim: "fc_limits c1 = fi (next_cell rs 391) (last_cell 391 rs) x"
    by (auto simp: fresh_def synced_def)
  obtain p2 where r: "readIterator (int (pos_of rs ?L 0)) (fi 0 0 0) False (fc_at c1 f p1 tr) =
      (Inr (iter_of rs ?L 0), fc_at c1 f p2 tr)"
    using readIterator_nth [OF f, of 0 "fi 0 0 0" c1 p1 tr] by auto
  obtain p3 where "fillVector_loop (int (pos_of rs ?L 0)) (int ?L) (iter_of rs ?L 0) [] (fc_at c1 f p2 tr) =
      Some (Inr (map snd rs), fc_at c1 f p3 tr)"
    using fillVector_loop_ok [OF ok(16), of "iter_of rs ?L 0" "[]" c1 p2 tr] by (auto simp: pos_of_def)
  then show ?thesis
    using p r lim first_last_pos(1) [OF f]
    by (intro exI [of _ c1] exI [of _ p3]) (simp add: fillVector_def FileIterator_new_fi)
qed

text \<open>The number of elements and the limits.\<close>

lemma read_size_ok:
  assumes f: "file_ok f h rs" and c: "attached c h rs"
  shows "\<exists>c' p'. read_size (fc_at c f p tr) = (Inr (length rs), fc_at c' f p' tr) \<and> fresh c' h rs \<and> same_env c c'"
  using c
proof (cases rule: attached_cases)
  case unopened
  obtain c1 p1 where s: "initContainer (fc_at c f (length f) tr) = (Inr (), fc_at c1 f p1 tr)" "fresh c1 h rs" "same_env c c1"
    using initContainer_ok [OF f unopened(1), of "length f" tr] by blast
  then obtain x where lim: "fc_limits c1 = fi (next_cell rs 391) (last_cell 391 rs) x" "fc_size c1 = length rs"
    by (auto simp: fresh_def synced_def)
  have e: "rs = [] \<Longrightarrow> length f = 391" using f unfolding file_ok_def by blast
  from unopened s lim e show ?thesis
    by (intro exI [of _ c1] exI [of _ p1]) (cases rs; simp add: read_size_def fc_getBegin_def)
next
  case stale
  obtain c1 p1 where s: "syncData True (fc_at c f 26 tr) = (Inr (), fc_at c1 f p1 tr)" "synced c1 rs"
    "handle_ok c1" "same_env c c1" "fc_stamp c1 = stamp_of h"
    using syncData_ok [OF f stale(1,2), of True 26 tr] by auto
  with stale show ?thesis
    by (intro exI [of _ c1] exI [of _ p1])
      (simp add: read_size_def checkStreamAndStamp_ok [OF f] fresh_def synced_def)
next
  case fresh
  then obtain x where lim: "fc_limits c = fi (next_cell rs 391) (last_cell 391 rs) x" "fc_size c = length rs"
    by (auto simp: fresh_def synced_def)
  have e: "rs = [] \<Longrightarrow> length f = 391" using f unfolding file_ok_def by blast
  from fresh lim e show ?thesis
    by (intro exI [of _ c] exI [of _ "length f"])
      (cases rs; simp add: read_size_def checkStreamAndStamp_ok [OF f] fc_getBegin_def same_env_def)
qed

lemma read_limits_ok:
  assumes f: "file_ok f h rs" and c: "attached c h rs"
  shows "\<exists>c' p'. read_begin (fc_at c f p tr) = (Inr (int (pos_of rs (length f) 0)), fc_at c' f p' tr) \<and> fresh c' h rs"
    "\<exists>c' p'. read_end (fc_at c f p tr) = (Inr (int (length f)), fc_at c' f p' tr) \<and> fresh c' h rs"
    "\<exists>c' p'. read_last (fc_at c f p tr) = (Inr (int (pos_of rs (length f) (length rs - 1))), fc_at c' f p' tr) \<and> fresh c' h rs"
proof -
  obtain c1 p1 where p: "prepare True (fc_at c f p tr) = (Inr (), fc_at c1 f p1 tr)" "fresh c1 h rs"
    using prepare_ok [OF f c, of True p tr] by blast
  from p(2) obtain x where lim: "fc_limits c1 = fi (next_cell rs 391) (last_cell 391 rs) x"
    by (auto simp: fresh_def synced_def)
  note simps = read_begin_def read_end_def read_last_def fc_getBegin_def first_last_pos [OF f]
  show "\<exists>c' p'. read_begin (fc_at c f p tr) = (Inr (int (pos_of rs (length f) 0)), fc_at c' f p' tr) \<and> fresh c' h rs"
    "\<exists>c' p'. read_end (fc_at c f p tr) = (Inr (int (length f)), fc_at c' f p' tr) \<and> fresh c' h rs"
    "\<exists>c' p'. read_last (fc_at c f p tr) = (Inr (int (pos_of rs (length f) (length rs - 1))), fc_at c' f p' tr) \<and> fresh c' h rs"
    using p lim by (auto simp: simps)
qed

end
