(* ===== verification/File_Container_Open.thy ===== *)
theory File_Container_Open
  imports File_Container_Read
begin

text \<open>
  Opening: a file that does not exist is created with an empty list, a file that
  holds a list is opened as it is and read by the first operation, \<open>close\<close> leaves the
  bytes on disk.
\<close>

section \<open>A new file\<close>

definition empty_text :: "nat \<Rightarrow> nat \<Rightarrow> filestatus \<Rightarrow> string" where
  "empty_text e k st = stamp_line e k @ num_line 0 @ status_text st @ zero_backups @ ptr 391 391 @ ptr 57005 48879"

definition empty_hdr :: "nat \<Rightarrow> nat \<Rightarrow> filestatus \<Rightarrow> hdr" where
  "empty_hdr e k st = \<lparr>h_epoch = e, h_counter = k, h_num = 0, h_status = st, h_b0 = (0,0,0), h_b1 = (0,0,0),
     h_b2 = (0,0,0), h_b3 = (0,0,0), h_l0 = (0,0), h_l1 = (0,0), h_limits = (391, 391), h_list = (57005, 48879)\<rparr>"

lemma empty_hdr_at:
  assumes "stamp_ok e k" "\<forall>c. st \<noteq> unlisted c"
  shows "hdr_at (empty_hdr e k st) (empty_text e k st)" "length (empty_text e k st) = 391"
proof -
  show "length (empty_text e k st) = 391" using assms by (simp add: empty_text_def)
  then have "holds_at 51 zero_backups (empty_text e k st)" "holds_at 0 (stamp_line e k) (empty_text e k st)"
    "holds_at 27 (num_line 0) (empty_text e k st)" "holds_at 49 (status_text st) (empty_text e k st)"
    "holds_at 323 (ptr 391 391) (empty_text e k st)" "holds_at 357 (ptr 57005 48879) (empty_text e k st)"
    using assms(1) by (simp_all add: empty_text_def holds_at_def)
  then show "hdr_at (empty_hdr e k st) (empty_text e k st)"
    using assms \<open>length (empty_text e k st) = 391\<close>
    by (simp add: hdr_at_def hdr_ok_def empty_hdr_def holds_zero_backups bkp3_def ptr2_def)
qed

lemma overwrite_end: "length f = p \<Longrightarrow> overwrite p s f = f @ s"
  by (simp add: overwrite_def)

lemma overwrite_status:
  "stamp_ok e k \<Longrightarrow> overwrite 49 (status_text st) (stamp_line e k @ num_line 0 @ status_text st' @ xs) =
     stamp_line e k @ num_line 0 @ status_text st @ xs"
  by (simp add: overwrite_def)

lemma createEmptyFile_at:
  assumes "off_ok (fc_clock c)"
  shows "\<exists>p' tr'. createEmptyFile (fc_at c [] p tr) = (Inr (),
    fc_at (c\<lparr>fc_stamp := TimeStamp_new (fc_clock c), fc_size := 0,
       fc_limits := fi_reset 391 391 0 (fc_limits c), fc_removed := fi_reset 57005 48879 0 (fc_removed c)\<rparr>)
      (empty_text (fc_clock c) 0 closed) p' tr')"
proof -
  let ?e = "fc_clock c"
  have s: "stamp_ok ?e 0" using assms by (simp add: stamp_ok_def)
  have w: "writeInitialPosition (fi_reset (int a) (int b) 0 it) isList (fc_at c f p tr) =
     (let pos = (if isList then 357 else 323); g = overwrite pos (ptr a b) f
      in (Inr (), fc_at c g (pos + 34) (tr @ [g])))" if "off_ok a" "off_ok b" for a b it isList c f p tr
    using that writeInitialPosition_at [of a b 0 isList c f p tr]
    by (simp add: writeInitialPosition_def fi_write_def fi_reset_def)
  note w1 = w [of 391 391, simplified] and w2 = w [of 57005 48879, simplified]
  show ?thesis
    using s by (simp add: createEmptyFile_def writeStamp_at writeAndSetSize_at createEmptyBackup_at
      TimeStamp_new_def overwrite_end un_dead_def un_beef_def w1 w2 Let_def empty_text_def overwrite_status) blast
qed

text \<open>A container object that can be opened: no write will fail, and its limits, clock
  and stamp are in range, as the constructor and every operation leave them.\<close>

definition ready :: "file_container \<Rightarrow> bool" where
  "ready c \<longleftrightarrow> fc_budget c = None \<and> handle_ok c"

lemma close_simps [simp]:
  "fc_budget (fc_close c) = fc_budget c" "handle_ok (fc_close c) = handle_ok c"
  "fc_access (fc_close c) = fc_access c" "fc_clock (fc_close c) = fc_clock c"
  "fc_limits (fc_close c) = fc_limits c" "fc_stamp (fc_close c) = fc_stamp c"
  by (simp_all add: fc_close_def handle_ok_def split: option.splits)

lemma new_ready: "now < 2 ^ 63 \<Longrightarrow> ready (fc_new now junk disk access None)"
  by (auto simp: ready_def fc_new_def handle_ok_def TimeStamp_new_def stamp_ok_def FileIterator_new_fi)

lemma fc_open_new:
  assumes "ready c" "fc_disk (fc_close c) name = None" "fc_access c name"
  shows "\<exists>c' f'. fc_open name c = (Inr (), c') \<and> container c' f' [] \<and> fc_filename c' = name \<and> length f' = 391 \<and>
    fc_budget c' = None \<and> fc_access c' = fc_access c \<and> fc_initialized c' \<and>
    (\<exists>h. file_ok f' h [] \<and> h_counter h = 1)"
proof -
  let ?c = "(fc_close c)\<lparr>fc_filename := name, fc_initialized := False\<rparr>"
  let ?d = "?c\<lparr>fc_disk := (fc_disk ?c)(name \<mapsto> [])\<rparr>"
  from assms(1) obtain a b x where lim: "fc_limits c = fi a b x" and clk: "off_ok (fc_clock c)"
    and bud: "fc_budget c = None" by (auto simp: ready_def handle_ok_def)
  from createEmptyFile_at [of ?d 0 "[]"] clk obtain p tr where ce: "createEmptyFile (fc_at ?d [] 0 []) = (Inr (),
    fc_at (?d\<lparr>fc_stamp := TimeStamp_new (fc_clock c), fc_size := 0,
       fc_limits := fi_reset 391 391 0 (fc_limits c), fc_removed := fi_reset 57005 48879 0 (fc_removed ?c)\<rparr>)
      (empty_text (fc_clock c) 0 closed) p tr)" by auto
  let ?e = "fc_clock c"
  let ?t = "empty_text ?e 0 closed" and ?g = "overwrite 0 (stamp_line ?e 1) (empty_text ?e 0 closed)"
  let ?c2 = "?d\<lparr>fc_stamp := \<lparr>ts_good = True, ts_epoch = ?e, ts_counter = 1\<rparr>, fc_size := 0,
       fc_limits := fi 391 391 0, fc_removed := fi_reset 57005 48879 0 (fc_removed ?c), fc_initialized := True\<rparr>"
  have ok: "stamp_ok ?e 0" "stamp_ok ?e 1" using clk by (simp_all add: stamp_ok_def)
  note h0 = empty_hdr_at [OF ok(1), of closed]
  have l: "fi_reset 391 391 0 (fi a b x) = fi 391 391 0" by (simp add: fi_reset_def fi_def FileIterator_new_def)
  have up: "update_stamp ?e \<lparr>ts_good = True, ts_epoch = ?e, ts_counter = 0\<rparr> (TimeStamp_new ?e) =
      \<lparr>ts_good = True, ts_epoch = ?e, ts_counter = 1\<rparr>"
    by (simp add: update_stamp_def TimeStamp_new_def ushort_inc_def)
  have st: "holds_at 0 (stamp_line ?e 0) ?t" using h0 by (simp add: hdr_at_def empty_hdr_def)
  have "fc_open name c = (Inr (), fc_at ?c2 ?g 27 (tr @ [?g]))"
    using assms(2,3) bud ce lim ok l up
    by (simp add: fc_open_def createFile_def st_open_mk updateTimeStamp_at [OF st ok(1)] Let_def)
  moreover have "hdr_at ((empty_hdr ?e 0 closed)\<lparr>h_epoch := ?e, h_counter := 1\<rparr>) ?g"
    using h0 ok by (intro hdr_stamp) simp_all
  then have fok: "file_ok ?g ((empty_hdr ?e 0 closed)\<lparr>h_epoch := ?e, h_counter := 1\<rparr>) []"
    using h0(2) ok by (simp add: file_ok_def empty_hdr_def length_overwrite)
  then have "container (fc_at ?c2 ?g 27 (tr @ [?g])) ?g []"
    using ok clk by (intro containerI) (auto simp: fresh_def synced_def handle_ok_def stamp_of_def)
  moreover have "length ?g = 391" using h0(2) ok by (simp add: length_overwrite)
  ultimately show ?thesis
    using bud fok by (intro exI [of _ "fc_at ?c2 ?g 27 (tr @ [?g])"] exI [of _ ?g]) (simp, force)
qed

lemma fc_open_existing:
  assumes "ready c" "fc_disk (fc_close c) name = Some f" "fc_access c name" "file_ok f h rs"
  shows "\<exists>c'. fc_open name c = (Inr (), c') \<and> container c' f rs \<and> fc_filename c' = name"
proof -
  let ?c = "(fc_close c)\<lparr>fc_filename := name, fc_initialized := False\<rparr>"
  have "fc_open name c = (Inr (), fc_at ?c f 0 [])"
    using assms by (simp add: fc_open_def openFile_def ready_def st_open_mk)
  moreover have "handle_ok ?c" using assms(1) by (simp add: ready_def handle_ok_def)
  then have "container (fc_at ?c f 0 []) f rs"
    using assms(4) unfolding container_def
    by (intro exI [of _ 0] exI [of _ "[]"] exI [of _ h]) (simp add: attached_def unopened_def)
  ultimately show ?thesis by simp
qed

lemma reopen:
  assumes "container c f rs" "fc_filename c = name" "fc_budget c = None" "fc_access c name"
  shows "fc_disk (fc_close c) name = Some f"
    "\<exists>c'. fc_open name (fc_close c) = (Inr (), c') \<and> container c' f rs \<and> fc_filename c' = name"
proof -
  from assms(1) obtain p tr h where c: "fc_stream c = Some (mk f p tr)" "file_ok f h rs" "attached c h rs"
    by (auto simp: container_def)
  show d: "fc_disk (fc_close c) name = Some f" using c(1) assms(2) by (simp add: fc_close_def)
  have cc: "fc_stream (fc_close c) = None" using c(1) by (simp add: fc_close_def)
  then have "fc_disk (fc_close (fc_close c)) name = Some f"
    using d by (simp add: fc_close_def [of "fc_close c"])
  moreover have "ready (fc_close c)" using attached_handle [OF c(3)] assms(3) by (simp add: ready_def)
  ultimately show "\<exists>c'. fc_open name (fc_close c) = (Inr (), c') \<and> container c' f rs \<and> fc_filename c' = name"
    using assms(4) c(2) by (intro fc_open_existing) simp_all
qed

end
