(* ===== verification/File_Container_Props.thy ===== *)
theory File_Container_Props
  imports File_Container_Open
begin

text \<open>
  What the file container promises to its callers, and its use on a new file.
\<close>

section \<open>A new container\<close>

definition new_list :: file_container where
  "new_list = snd (fc_open ''list'' (fc_new 1000 [] (\<lambda>_. None) (\<lambda>_. True) None))"

lemma new_list: "\<exists>f. container new_list f [] \<and> length f = 391 \<and> fc_filename new_list = ''list'' \<and>
    fc_budget new_list = None \<and> fc_access new_list = (\<lambda>_. True) \<and> fc_initialized new_list \<and>
    (\<exists>h. file_ok f h [] \<and> h_counter h = 1)"
proof -
  let ?c = "fc_new 1000 [] (\<lambda>_. None) (\<lambda>_. True) None"
  have "fc_disk (fc_close ?c) ''list'' = None" "fc_access ?c ''list''"
    by (simp_all add: fc_close_def fc_new_def)
  with fc_open_new [OF new_ready, of 1000 "[]" "\<lambda>_. None" "\<lambda>_. True" "''list''"] show ?thesis
    by (auto simp: new_list_def) (auto simp: fc_new_def)
qed

definition one_list :: file_container where
  "one_list = snd (add_data ''alpha'' 391 new_list)"

lemma one_list: "\<exists>f. container one_list f [(391, ''alpha'')] \<and> length f = 491 \<and> same_env new_list one_list"
proof -
  obtain f where f: "container new_list f []" "length f = 391" using new_list by blast
  from add_data_container [of new_list f "[]" "[]" "''alpha''"] f show ?thesis
    by (auto simp: one_list_def)
qed

definition two_list :: file_container where
  "two_list = snd (add_data ''beta'' 491 one_list)"

lemma two_list: "\<exists>f. container two_list f [(391, ''alpha''), (491, ''beta'')] \<and> length f = 590 \<and>
    same_env new_list two_list \<and> fc_initialized two_list"
proof -
  obtain f where f: "container one_list f [(391, ''alpha'')]" "length f = 491" "same_env new_list one_list"
    using one_list by blast
  from add_data_container [of one_list f "[(391, ''alpha'')]" "[]" "''beta''"] f show ?thesis
    by (auto simp: two_list_def same_env_def)
qed

section \<open>The operations\<close>

text \<open>C1: \<open>add_data\<close> inserts. On a container that holds the cells \<open>xs @ ys\<close>, seen through a
  handle that is fresh, stale or not used yet, adding non-empty data at the position of
  the first cell of \<open>ys\<close> (the end of the file if there is none) returns the iterator of
  the new cell, placed at the old end of the file, and leaves a container that holds
  \<open>xs\<close>, the new cell, \<open>ys\<close>.\<close>

theorem add_data_inserts:
  assumes "container c f (xs @ ys)" "d \<noteq> []" "length f + 95 + length d < 2 ^ 63"
  shows "\<exists>c' f'. add_data d (int (pos_of (xs @ ys) (length f) (length xs))) c =
      (Inr (iter_of (xs @ (length f, d) # ys) (length f') (length xs)), c') \<and>
    container c' f' (xs @ (length f, d) # ys) \<and> length f' = length f + 95 + length d"
proof -
  have "pos_of (xs @ ys) (length f) (length xs) = next_cell ys (length f)"
    "iter_of (xs @ (length f, d) # ys) n (length xs) = fi (last_cell 0 xs) (next_cell ys n) (length f)" for n
    by (simp_all add: pos_of_def iter_of_def)
  with add_data_container [OF assms] show ?thesis by auto
qed

theorem add_data_inserts_witness:
  "fst (add_data ''gamma'' 491 two_list) = Inr (fi 391 491 590) \<and>
    (\<exists>f. container (snd (add_data ''gamma'' 491 two_list)) f [(391, ''alpha''), (590, ''gamma''), (491, ''beta'')])"
proof -
  obtain f where f: "container two_list f [(391, ''alpha''), (491, ''beta'')]" "length f = 590" using two_list by blast
  from add_data_inserts [of two_list f "[(391, ''alpha'')]" "[(491, ''beta'')]" "''gamma''"] f show ?thesis
    by (auto simp: pos_of_def iter_of_def)
qed

text \<open>C2: \<open>remove_data\<close> deletes. Removing the element at the position of a cell leaves the
  other cells in their order; the file is cut back to its header when the last element
  goes and keeps its length otherwise.\<close>

theorem remove_data_deletes:
  assumes "container c f rs" "i < length rs"
  shows "\<exists>c' f'. remove_data (int (pos_of rs (length f) i)) c = (Inr (), c') \<and>
    container c' f' (take i rs @ drop (Suc i) rs) \<and> length f' = (if length rs = 1 then 391 else length f)"
proof -
  have rs: "rs = take i rs @ (fst (rs ! i), snd (rs ! i)) # drop (Suc i) rs"
    using assms(2) by (simp add: id_take_nth_drop)
  have "take i rs @ drop (Suc i) rs = [] \<longleftrightarrow> length rs = 1"
    using assms(2) by (cases rs) auto
  with remove_data_container [of c f "take i rs" "fst (rs ! i)" "snd (rs ! i)" "drop (Suc i) rs"] assms rs
  show ?thesis by (auto simp: pos_of_simps)
qed

theorem remove_data_deletes_witness:
  "fst (remove_data 391 two_list) = Inr () \<and> (\<exists>f. container (snd (remove_data 391 two_list)) f [(491, ''beta'')])"
proof -
  obtain f where f: "container two_list f [(391, ''alpha''), (491, ''beta'')]" "length f = 590" using two_list by blast
  from remove_data_deletes [OF f(1), of 0] f show ?thesis
    by (auto simp: pos_of_def)
qed

text \<open>C3: \<open>read_data\<close> returns the data that were added. At the position of the \<open>i\<close>-th cell it
  gives the data and the iterator of that cell, whatever data up to \<open>2 ^ 63\<close> bytes, and
  leaves the file and the list as they are.\<close>

theorem read_data_reads:
  assumes "container c f rs" "i < length rs"
  shows "\<exists>c'. read_data (int (pos_of rs (length f) i)) it False c = (Inr (snd (rs ! i), iter_of rs (length f) i), c') \<and>
    container c' f rs"
proof -
  from assms(1) obtain p tr h where c: "c = fc_at c f p tr" "file_ok f h rs" "attached c h rs" by (rule containerE)
  from read_data_ok [OF c(2,3) assms(2), of it p tr] c(1) containerI [OF c(2)] show ?thesis
    by metis
qed

theorem read_data_reads_witness:
  "fst (read_data 491 (fi 0 0 0) False two_list) = Inr (''beta'', fi 391 590 491)"
proof -
  obtain f where f: "container two_list f [(391, ''alpha''), (491, ''beta'')]" "length f = 590" using two_list by blast
  from read_data_reads [OF f(1), of 1 "fi 0 0 0"] f show ?thesis
    by (auto simp: pos_of_def iter_of_def)
qed

text \<open>The iterators walk the list. From the iterator of a cell \<open>increment_iterator\<close> leads
  to that of the next one (of the end after the last), from the null iterator to the
  first, and \<open>decrement_iterator\<close> leads back.\<close>

theorem iterators_walk:
  assumes "container c f rs" "i < length rs"
  shows "(\<exists>c'. increment_iterator (fi 0 0 0) c = (Inr (iter_of rs (length f) 0), c') \<and> container c' f rs) \<and>
    (\<exists>c'. increment_iterator (iter_of rs (length f) i) c = (Inr (iter_of rs (length f) (Suc i)), c') \<and> container c' f rs) \<and>
    (\<exists>c'. decrement_iterator (iter_of rs (length f) (Suc i)) c = (Inr (iter_of rs (length f) i), c') \<and> container c' f rs)"
proof -
  from assms obtain p tr h where c: "c = fc_at c f p tr" "file_ok f h rs" "attached c h rs" by (meson containerE)
  note k = containerI [OF c(2)]
  have "\<exists>c'. increment_iterator (fi 0 0 0) c = (Inr (iter_of rs (length f) 0), c') \<and> container c' f rs"
    using increment_ok(2) [OF c(2,3), of p tr] c(1) k by metis
  moreover have "\<exists>c'. increment_iterator (iter_of rs (length f) i) c = (Inr (iter_of rs (length f) (Suc i)), c') \<and> container c' f rs"
    using increment_ok(1) [OF c(2,3) assms(2), of p tr] c(1) k by metis
  moreover have "\<exists>c'. decrement_iterator (iter_of rs (length f) (Suc i)) c = (Inr (iter_of rs (length f) i), c') \<and> container c' f rs"
    using decrement_ok(1) [OF c(2,3) assms(2), of p tr] c(1) k by metis
  ultimately show ?thesis by blast
qed

theorem iterators_walk_witness:
  "fst (increment_iterator (fi 0 491 391) two_list) = Inr (fi 391 590 491) \<and>
   fst (decrement_iterator (fi 0 0 590) two_list) = Inr (fi 391 590 491)"
proof -
  obtain f where f: "container two_list f [(391, ''alpha''), (491, ''beta'')]" "length f = 590" using two_list by blast
  from iterators_walk [OF f(1), of 0] iterators_walk [OF f(1), of 1] f show ?thesis
    by (auto simp: pos_of_def iter_of_def)
qed

text \<open>C26: what is on disk survives. Closing a container and opening its file again gives a
  container that holds the same cells in the same bytes.\<close>

theorem open_keeps_list:
  assumes "container c f rs" "fc_budget c = None" "fc_access c (fc_filename c)"
  shows "\<exists>c'. fc_open (fc_filename c) (fc_close c) = (Inr (), c') \<and> container c' f rs \<and> fc_filename c' = fc_filename c"
  using reopen(2) [of c f rs "fc_filename c"] assms by simp

theorem open_keeps_list_witness:
  "\<exists>c f. fc_open ''list'' (fc_close two_list) = (Inr (), c) \<and> container c f [(391, ''alpha''), (491, ''beta'')]"
proof -
  obtain f where f: "container two_list f [(391, ''alpha''), (491, ''beta'')]" "same_env new_list two_list"
    using two_list by blast
  have "fc_budget two_list = None" "fc_access two_list ''list''" "fc_filename two_list = ''list''"
    using new_list f(2) by (auto simp: same_env_def)
  with open_keeps_list [OF f(1)] show ?thesis by auto
qed

text \<open>\<open>fillVector\<close>, which \<open>compact_data\<close> copies the list with, returns the data of all
  cells in their order and ends for every container.\<close>

theorem fillVector_lists:
  assumes "container c f rs" "fc_initialized c"
  shows "\<exists>c'. fillVector c = (Inr (map snd rs), c') \<and> container c' f rs"
proof -
  from assms(1) obtain p tr h where c: "c = fc_at c f p tr" "file_ok f h rs" "attached c h rs" by (rule containerE)
  from fillVector_ok [OF c(2,3) assms(2), of p tr] c(1) containerI [OF c(2)] show ?thesis by metis
qed

theorem fillVector_lists_witness: "fst (fillVector two_list) = Inr [''alpha'', ''beta'']"
proof -
  obtain f where f: "container two_list f [(391, ''alpha''), (491, ''beta'')]" "fc_initialized two_list"
    using two_list by blast
  from fillVector_lists [OF f] show ?thesis by auto
qed

text \<open>A file that does not exist is created with an empty list, whatever container
  object opens it, and it is ready for use.\<close>

theorem open_creates_empty:
  assumes "handle_ok c" "fc_budget c = None" "fc_access c name" "fc_disk (fc_close c) name = None"
  shows "\<exists>c' f'. fc_open name c = (Inr (), c') \<and> container c' f' [] \<and> fc_filename c' = name \<and>
    length f' = fc_s_headerSize \<and> fc_initialized c'"
  using fc_open_new [of c name] assms by (auto simp: ready_def)

theorem open_creates_empty_witness:
  "\<exists>c f. fc_open ''q'' (fc_new 7 [] (\<lambda>_. None) (\<lambda>_. True) None) = (Inr (), c) \<and> container c f []"
  using open_creates_empty [of "fc_new 7 [] (\<lambda>_. None) (\<lambda>_. True) None" "''q''"]
    new_ready [of 7 "[]" "\<lambda>_. None" "\<lambda>_. True"]
  by (auto simp: fc_new_def fc_close_def ready_def)

end
