(* ===== verification/File_Container_World.thy ===== *)
theory File_Container_World
  imports File_Container_Props
begin

text \<open>
  Several processes share one container file. Each has its own container object, with
  its own cached limits, size and stamp; the lock of \<^verbatim>\<open>FileListLock\<close> makes the calls of
  the processes follow each other. The time stamp in the header tells a process that its
  cache is out of date.
\<close>

section \<open>Stamps\<close>

lemma ts_gt_trans: "ts_gt a b \<Longrightarrow> ts_gt b c \<Longrightarrow> ts_gt a c"
  by (auto simp: ts_gt_def)

lemma update_stamp_gt: "ts_counter ts < 65535 \<Longrightarrow> ts_gt (update_stamp now ts self) ts"
  by (auto simp: update_stamp_def ts_gt_def ushort_inc_def Let_def)

text \<open>\<open>update_stamp\<close> makes a stamp that every other process sees as newer than the one in
  the file, also when the clock stands still or runs backwards, as long as the counter
  in the file has not reached its maximum.\<close>

theorem update_stamp_newer:
  assumes "ts_counter ts < 65535"
  shows "ts_gt (update_stamp now ts self) ts"
  using assms by (rule update_stamp_gt)

theorem update_stamp_newer_witness:
  "ts_gt (update_stamp 10 \<lparr>ts_good = True, ts_epoch = 12, ts_counter = 65534\<rparr> \<lparr>ts_good = True, ts_epoch = 11, ts_counter = 3\<rparr>)
     \<lparr>ts_good = True, ts_epoch = 12, ts_counter = 65534\<rparr>"
  using update_stamp_newer [of "\<lparr>ts_good = True, ts_epoch = 12, ts_counter = 65534\<rparr>"] by simp

text \<open>With the counter at its maximum and the clock not past the epoch in the file, the
  counter (an \<^verbatim>\<open>unsigned short\<close>) wraps around: the new stamp is not newer, and the change
  goes unnoticed.\<close>

theorem update_stamp_wraps:
  assumes "now \<le> e" "ts_epoch self \<le> e" "ts_counter self \<le> 65535"
  shows "\<not> ts_gt (update_stamp now \<lparr>ts_good = True, ts_epoch = e, ts_counter = 65535\<rparr> self)
    \<lparr>ts_good = True, ts_epoch = e, ts_counter = 65535\<rparr>"
  using assms by (auto simp: update_stamp_def ts_gt_def ushort_inc_def Let_def)

theorem update_stamp_wraps_witness:
  "\<not> ts_gt (update_stamp 12 \<lparr>ts_good = True, ts_epoch = 12, ts_counter = 65535\<rparr> \<lparr>ts_good = True, ts_epoch = 12, ts_counter = 65535\<rparr>)
    \<lparr>ts_good = True, ts_epoch = 12, ts_counter = 65535\<rparr>"
  using update_stamp_wraps [of 12 12 "\<lparr>ts_good = True, ts_epoch = 12, ts_counter = 65535\<rparr>"] by simp

lemma attached_newer:
  assumes "attached c h rs" "ts_gt (stamp_of h') (stamp_of h)"
  shows "attached c h' rs'"
proof -
  have "stale c h'" if "fresh c h rs"
    using that assms(2) by (auto simp: fresh_def stale_def synced_def)
  moreover have "stale c h'" if "stale c h"
    using that assms(2) ts_gt_trans by (auto simp: stale_def)
  ultimately show ?thesis using assms(1) by (auto simp: attached_def)
qed

lemma next_stamp_newer: "h_counter h < 65535 \<Longrightarrow> ts_gt (next_stamp c h) (stamp_of h)"
  unfolding next_stamp_def using update_stamp_gt [of "stamp_of h"] by (simp add: stamp_of_def)

section \<open>Shared files\<close>

text \<open>\<open>attach c f\<close> is the container object \<open>c\<close> of a process on the shared file \<open>f\<close>: its stream
  reads what the file holds now. Every method seeks before it reads or writes, so the
  position the stream was left at does not matter.\<close>

record world =
  w_file :: string
  w_handle :: "nat \<Rightarrow> file_container"

definition attach :: "file_container \<Rightarrow> string \<Rightarrow> file_container" where
  "attach c f = fc_at c f 0 []"

definition bytes_of :: "file_container \<Rightarrow> string" where
  "bytes_of c = (case fc_stream c of Some s \<Rightarrow> st_bytes s | None \<Rightarrow> [])"

text \<open>Process \<open>p\<close> calls \<open>m\<close>.\<close>

definition call :: "nat \<Rightarrow> 'a fcm \<Rightarrow> world \<Rightarrow> (fc_failure + 'a) \<times> world" where
  "call p m w = (let (r, c) = m (attach (w_handle w p) (w_file w))
     in (r, \<lparr>w_file = bytes_of c, w_handle = (w_handle w)(p := c)\<rparr>))"

definition world_ok :: "world \<Rightarrow> hdr \<Rightarrow> cells \<Rightarrow> bool" where
  "world_ok w h rs \<longleftrightarrow> file_ok (w_file w) h rs \<and> (\<forall>p. attached (w_handle w p) h rs)"

lemma bytes_of_simps [simp]:
  "bytes_of (fc_at c f p tr) = f" "bytes_of (fc_log c es p f tr) = run_events es f"
  by (simp_all add: bytes_of_def)

lemma world_okD: "world_ok w h rs \<Longrightarrow> file_ok (w_file w) h rs" "world_ok w h rs \<Longrightarrow> attached (w_handle w p) h rs"
  by (auto simp: world_ok_def)

lemma call_add:
  assumes w: "world_ok w h (xs @ ys)" and d: "d \<noteq> []" "length (w_file w) + 95 + length d < 2 ^ 63"
    and k: "h_counter h < 65535"
  obtains w' h' where
    "call p (add_data d (int (pos_of (xs @ ys) (length (w_file w)) (length xs)))) w =
      (Inr (iter_of (xs @ (length (w_file w), d) # ys) (length (w_file w')) (length xs)), w')"
    "world_ok w' h' (xs @ (length (w_file w), d) # ys)" "length (w_file w') = length (w_file w) + 95 + length d"
proof -
  note f = world_okD(1) [OF w] and c = world_okD(2) [OF w, of p]
  let ?f = "w_file w" and ?c = "w_handle w p"
  define N where "N = length ?f + 95 + length d"
  have N: "off_ok N" using d(2) by (simp add: N_def)
  define es where "es = add_events (next_stamp ?c h) xs ys (length ?f) N d"
  obtain c' p' where a: "add_data d (int (next_cell ys (length ?f))) (fc_at ?c ?f 0 []) =
      (Inr (fi (last_cell 0 xs) (next_cell ys N) (length ?f)), fc_log c' es p' ?f [])"
    "synced c' (xs @ (length ?f, d) # ys)" "handle_ok c'" "fc_stamp c' = next_stamp ?c h"
    using add_data_run [OF f c d(1) N_def N, of 0 "[]", folded es_def] by blast
  note ts = next_stamp_ok [OF f attached_handle [OF c]]
  note fo = add_file_ok [OF f d(1) N_def N ts(2), folded es_def]
  let ?w = "\<lparr>w_file = run_events es ?f, w_handle = (w_handle w)(p := fc_log c' es p' ?f [])\<rparr>"
  have newer: "ts_gt (stamp_of (events_hdr es h)) (stamp_of h)"
    using next_stamp_newer [OF k, of ?c] fo(2) ts_eq_stamp [OF ts(1)] by simp
  have "fresh (fc_log c' es p' ?f []) (events_hdr es h) (xs @ (length ?f, d) # ys)"
    using a fo(2) ts_eq_stamp [OF ts(1)] by (simp add: fresh_def fc_log_def)
  then have "world_ok ?w (events_hdr es h) (xs @ (length ?f, d) # ys)"
    using fo(1) attached_newer [OF world_okD(2) [OF w] newer] by (auto simp: world_ok_def attached_def)
  moreover have "call p (add_data d (int (pos_of (xs @ ys) (length ?f) (length xs)))) w =
      (Inr (iter_of (xs @ (length ?f, d) # ys) (length (run_events es ?f)) (length xs)), ?w)"
    using a(1) fo(3) by (simp add: call_def attach_def pos_of_def iter_of_def)
  ultimately show ?thesis
    using that [of ?w] fo(3) by (simp add: N_def)
qed

lemma call_remove:
  assumes w: "world_ok w h (xs @ (q, d) # ys)" and k: "h_counter h < 65535"
  obtains w' h' where "call p (remove_data (int q)) w = (Inr (), w')" "world_ok w' h' (xs @ ys)"
proof -
  note f = world_okD(1) [OF w] and c = world_okD(2) [OF w, of p]
  let ?f = "w_file w" and ?c = "w_handle w p"
  define es where "es = remove_events (next_stamp ?c h) xs q d ys (length ?f)"
  obtain c' p' where a: "remove_data (int q) (fc_at ?c ?f 0 []) = (Inr (), fc_log c' es p' ?f [])"
    "synced c' (xs @ ys)" "handle_ok c'" "fc_stamp c' = next_stamp ?c h"
    using remove_data_run [OF f c, of 0 "[]", folded es_def] by blast
  note ts = next_stamp_ok [OF f attached_handle [OF c]]
  note fo = remove_file_ok [OF f ts(2), folded es_def]
  let ?w = "\<lparr>w_file = run_events es ?f, w_handle = (w_handle w)(p := fc_log c' es p' ?f [])\<rparr>"
  have newer: "ts_gt (stamp_of (events_hdr es h)) (stamp_of h)"
    using next_stamp_newer [OF k, of ?c] fo(2) ts_eq_stamp [OF ts(1)] by simp
  have "fresh (fc_log c' es p' ?f []) (events_hdr es h) (xs @ ys)"
    using a fo(2) ts_eq_stamp [OF ts(1)] by (simp add: fresh_def fc_log_def)
  then have "world_ok ?w (events_hdr es h) (xs @ ys)"
    using fo(1) attached_newer [OF world_okD(2) [OF w] newer] by (auto simp: world_ok_def attached_def)
  moreover have "call p (remove_data (int q)) w = (Inr (), ?w)"
    using a(1) by (simp add: call_def attach_def)
  ultimately show ?thesis using that by blast
qed

text \<open>A method that only reads and brings its handle up to date.\<close>

lemma call_read:
  assumes w: "world_ok w h rs"
    and m: "\<exists>c' p'. m (fc_at (w_handle w p) (w_file w) 0 []) = (Inr v, fc_at c' (w_file w) p' []) \<and> fresh c' h rs"
  obtains w' where "call p m w = (Inr v, w')" "world_ok w' h rs" "w_file w' = w_file w"
proof -
  from m obtain c' p' where c': "m (fc_at (w_handle w p) (w_file w) 0 []) = (Inr v, fc_at c' (w_file w) p' [])" "fresh c' h rs"
    by blast
  let ?w = "\<lparr>w_file = w_file w, w_handle = (w_handle w)(p := fc_at c' (w_file w) p' [])\<rparr>"
  have "world_ok ?w h rs" using w c'(2) by (auto simp: world_ok_def attached_def)
  moreover have "call p m w = (Inr v, ?w)" using c'(1) by (simp add: call_def attach_def)
  ultimately show ?thesis using that by simp
qed

section \<open>Interleaved processes\<close>

definition stamp_counter :: "string \<Rightarrow> nat" where
  "stamp_counter f = ts_counter (fst (ts_read (TimeStamp_new 0) (st_open None f)))"

lemma stamp_counter_hdr: "file_ok f h rs \<Longrightarrow> stamp_counter f = h_counter h"
  using ts_read_mk [OF file_okD(6,7)] by (simp add: stamp_counter_def st_open_mk)

text \<open>\<open>runs w rs\<close>: the processes have made the calls that lead to the world \<open>w\<close>, one after the
  other in any order, and the list they have built is \<open>rs\<close>. A call adds at the position of
  a cell or at the end, removes a cell, or reads; the clocks of the processes move as
  they like.\<close>

inductive runs :: "world \<Rightarrow> cells \<Rightarrow> bool" where
  start: "file_ok f h [] \<Longrightarrow> \<forall>p. unopened (hs p) \<Longrightarrow> runs \<lparr>w_file = f, w_handle = hs\<rparr> []"
| add: "runs w (xs @ ys) \<Longrightarrow> stamp_counter (w_file w) < 65535 \<Longrightarrow> d \<noteq> [] \<Longrightarrow>
    length (w_file w) + 95 + length d < 2 ^ 63 \<Longrightarrow>
    call p (add_data d (int (pos_of (xs @ ys) (length (w_file w)) (length xs)))) w = (r, w') \<Longrightarrow>
    runs w' (xs @ (length (w_file w), d) # ys)"
| remove: "runs w (xs @ (q, d) # ys) \<Longrightarrow> stamp_counter (w_file w) < 65535 \<Longrightarrow>
    call p (remove_data (int q)) w = (r, w') \<Longrightarrow> runs w' (xs @ ys)"
| read: "runs w rs \<Longrightarrow> i < length rs \<Longrightarrow>
    call p (read_data (int (pos_of rs (length (w_file w)) i)) it False) w = (v, w') \<Longrightarrow> runs w' rs"
| size: "runs w rs \<Longrightarrow> call p read_size w = (n, w') \<Longrightarrow> runs w' rs"
| tick: "runs w rs \<Longrightarrow> now < 2 ^ 63 \<Longrightarrow>
    runs (w\<lparr>w_handle := (w_handle w)(p := (w_handle w p)\<lparr>fc_clock := now\<rparr>)\<rparr>) rs"

lemma call_read_data:
  assumes "world_ok w h rs" "i < length rs"
  obtains w' where "call p (read_data (int (pos_of rs (length (w_file w)) i)) it False) w =
    (Inr (snd (rs ! i), iter_of rs (length (w_file w)) i), w')" "world_ok w' h rs" "w_file w' = w_file w"
  using call_read [OF assms(1)] read_data_ok [OF world_okD [OF assms(1)] assms(2)] by metis

lemma call_read_size:
  assumes "world_ok w h rs"
  obtains w' where "call p read_size w = (Inr (length rs), w')" "world_ok w' h rs" "w_file w' = w_file w"
  using call_read [OF assms] read_size_ok [OF world_okD [OF assms]] by metis

lemma attached_tick:
  assumes "attached c h rs" "now < 2 ^ 63"
  shows "attached (c\<lparr>fc_clock := now\<rparr>) h rs"
  using assms by (auto simp: attached_def fresh_def stale_def unopened_def synced_def handle_ok_def)

lemma runs_world_ok: "runs w rs \<Longrightarrow> \<exists>h. world_ok w h rs"
proof (induction rule: runs.induct)
  case (start f h hs)
  then show ?case by (auto simp: world_ok_def attached_def)
next
  case (add w xs ys d p r w')
  then obtain h where h: "world_ok w h (xs @ ys)" by blast
  with add stamp_counter_hdr [OF world_okD(1)] have "h_counter h < 65535" by metis
  from call_add [OF h add(3,4) this, of p] add(5) show ?case by (metis prod.inject)
next
  case (remove w xs q d ys p r w')
  then obtain h where h: "world_ok w h (xs @ (q, d) # ys)" by blast
  with remove stamp_counter_hdr [OF world_okD(1)] have "h_counter h < 65535" by metis
  from call_remove [OF h this, of p] remove(3) show ?case by (metis prod.inject)
next
  case (read w rs i p it v w')
  then obtain h where h: "world_ok w h rs" by blast
  from call_read_data [OF h read(2), of p it] read(3) show ?case by (metis prod.inject)
next
  case (size w rs p n w')
  then obtain h where h: "world_ok w h rs" by blast
  from call_read_size [OF h, of p] size(2) show ?case by (metis prod.inject)
next
  case (tick w rs now p)
  then obtain h where "world_ok w h rs" by blast
  with tick(2) show ?case by (auto simp: world_ok_def attached_tick)
qed

text \<open>C4: every process sees the list that all of them made, as long as each change is made while the stamp of the
  file counts fewer than 65535 changes of its second. After any interleaving of such calls on a new list,
  a read by any process, however old its cached stamp and limits are, returns the element
  of the current list, and \<open>read_size\<close> its length.\<close>

theorem processes_agree:
  assumes "runs w rs" "i < length rs"
  shows "fst (call p (read_data (int (pos_of rs (length (w_file w)) i)) it False) w) =
      Inr (snd (rs ! i), iter_of rs (length (w_file w)) i) \<and>
    fst (call p read_size w) = Inr (length rs)"
proof -
  from runs_world_ok [OF assms(1)] obtain h where h: "world_ok w h rs" by blast
  from call_read_data [OF h assms(2), of p it] call_read_size [OF h, of p] show ?thesis by (metis fst_conv)
qed

definition world0 :: world where
  "world0 = \<lparr>w_file = bytes_of new_list, w_handle = (\<lambda>p. fc_new (1000 + p mod 2) [] (\<lambda>_. None) (\<lambda>_. True) None)\<rparr>"

lemma runs_world0: "runs world0 []" "stamp_counter (w_file world0) = 1" "length (w_file world0) = 391"
proof -
  obtain f h where f: "container new_list f []" "file_ok f h []" "h_counter h = 1" "length f = 391"
    using new_list by blast
  from f(1) obtain p tr h' where "fc_stream new_list = Some (mk f p tr)" by (auto simp: container_def)
  then have b: "w_file world0 = f" by (simp add: world0_def bytes_of_def)
  have "unopened (w_handle world0 p)" for p
    using new_ready [of "1000 + p mod 2" "[]" "\<lambda>_. None" "\<lambda>_. True"]
    by (simp add: world0_def unopened_def ready_def) (simp add: fc_new_def)
  with f(2) have "runs \<lparr>w_file = f, w_handle = w_handle world0\<rparr> []" by (intro runs.start) auto
  moreover have "world0 = \<lparr>w_file = f, w_handle = w_handle world0\<rparr>" using b by simp
  ultimately show "runs world0 []" by simp
  show "stamp_counter (w_file world0) = 1" "length (w_file world0) = 391"
    using b f stamp_counter_hdr [OF f(2)] by simp_all
qed

theorem processes_agree_witness:
  "fst (call 2 (read_data 391 (fi 0 0 0) False) (snd (call 1 (add_data ''job'' 391) world0))) =
     Inr (''job'', fi 0 489 391)"
proof -
  let ?w = "snd (call 1 (add_data ''job'' 391) world0)"
  have r: "runs ?w [(391, ''job'')]"
    using runs.add [of world0 "[]" "[]" "''job''" 1] runs_world0 by (simp add: pos_of_def) (metis prod.collapse)
  from runs_world_ok [OF runs_world0(1)] obtain h where h: "world_ok world0 h []" by blast
  from call_add [of world0 h "[]" "[]" "''job''" 1] h runs_world0 stamp_counter_hdr [OF world_okD(1) [OF h]]
  have "length (w_file ?w) = 489" by (simp add: pos_of_def) (metis snd_conv)
  with processes_agree [OF r, of 0 2 "fi 0 0 0"] show ?thesis
    by (simp add: pos_of_def iter_of_def)
qed

end
