(* ===== verification/File_Container_Recover.thy ===== *)
theory File_Container_Recover
  imports File_Container_World
begin

text \<open>
  Recovery after a crash: \<open>checkConsistency\<close> on a file whose cells are linked, and what
  \<open>initContainer\<close> makes of every file that a crash during an append can leave behind.
\<close>

section \<open>The consistency check\<close>

primrec far :: "nat \<Rightarrow> cells \<Rightarrow> nat" where
  "far m [] = m"
| "far m (r # rs) = far (max (cell_end r) m) rs"

lemma far_bounds: "m \<le> far m rs" "r \<in> set rs \<Longrightarrow> cell_end r \<le> far m rs"
    "m \<le> n \<Longrightarrow> \<forall>r\<in>set rs. cell_end r \<le> n \<Longrightarrow> far m rs \<le> n"
  by (induction rs arbitrary: m) (auto intro: le_trans max.cobounded1 max.cobounded2 dest: le_trans [rotated])

lemma readSizeAndState_elem:
  assumes "elem_at g q a b d"
  shows "readSizeAndState (fc_at c g (q + 34) tr) = (Inr (length d, CHR ''g''), fc_at c g (q + 60) tr)"
proof -
  have "q + 34 + 26 = q + 60" by simp
  with readSizeAndState_at [of "q + 34" "length d" "CHR ''g''" g c tr] assms show ?thesis
    by (simp add: elem_at_def)
qed

lemma calculateDataSize_cell: "int q + calculateDataSize (length d) 23 = int (cell_end (q, d))"
  by (simp add: calculateDataSize_def cell_end_def)

lemma max_int: "max (int a) (int b) = int (max a b)"
  by simp

lemma checkConsistency_loop_ok:
  assumes "chain g a ((q, d) # rs) E" "E = length g" "apart ((q, d) # rs)"
    "fc_limits c = fi x (last_cell q rs) y"
  shows "\<exists>b u v p. checkConsistency_loop al (int E) (int m) k (fi a (next_cell rs E) q) (fc_at c g (q + 34) tr) =
    Some (checkConsistency_last al (int E) (int b) (int (far m ((q, d) # rs))) (k + length ((q, d) # rs))
      (fi u E v) (fc_at c g p tr)) \<and>
    b \<le> far m ((q, d) # rs) \<and> v = last_cell q rs \<and> u = last_cell a (butlast ((q, d) # rs))"
  using assms
proof (induction rs arbitrary: a q d m k)
  case Nil
  then have el: "elem_at g q a E d" by simp
  show ?case
    using readSizeAndState_elem [OF el, of c tr] Nil.prems(4) elem_at_holds [OF el]
    by (subst checkConsistency_loop.simps)
      (intro exI [of _ "cell_end (q, d)"] exI [of _ a] exI [of _ q] exI [of _ "q + 60"],
        simp add: calculateDataSize_cell Let_def max_int)
next
  case (Cons r rs)
  obtain q' d' where r: "r = (q', d')" by force
  have el: "elem_at g q a q' d" and ch: "chain g q ((q', d') # rs) E"
    using Cons.prems(1) by (simp_all add: r)
  have el': "elem_at g q' q (next_cell rs E) d'" "391 \<le> q'"
    using chain_ptr [of g q "[]" q' d' rs E] ch by simp_all
  have lt: "q' < E" using elem_at_end [OF el'(1)] Cons.prems(2) by simp
  have ne: "q \<noteq> last_cell q' rs"
    using apart_distinct [OF Cons.prems(3)] by (auto simp: r last_cell_def)
  have rd: "readIterator (int q') (fi a q' q) False (fc_at c g (q + 60) tr) =
      (Inr (fi q (next_cell rs E) q'), fc_at c g (q' + 34) tr)"
    using elem_at_holds [OF el'(1)] el'(2) by (intro readIterator_at) auto
  let ?m = "max (cell_end (q, d)) m"
  have "checkConsistency_loop al (int E) (int m) k (fi a (next_cell (r # rs) E) q) (fc_at c g (q + 34) tr) =
      checkConsistency_loop al (int E) (int ?m) (Suc k) (fi q (next_cell rs E) q') (fc_at c g (q' + 34) tr)"
    using readSizeAndState_elem [OF el, of c tr] Cons.prems(4) ne rd lt el'(2)
    by (subst checkConsistency_loop.simps) (simp add: calculateDataSize_cell r Let_def max_int)
  moreover have "apart ((q', d') # rs)" "fc_limits c = fi x (last_cell q' rs) y"
    using Cons.prems(3,4) by (simp_all add: r)
  ultimately show ?case
    using Cons.IH [OF ch Cons.prems(2), of ?m "Suc k"] by (simp add: r)
qed

text \<open>What the check writes: the number of elements when it is off by at most the allowed
  amount, and, when there is a hole behind the furthest cell, the cut and the new next
  pointer of the last cell.\<close>

definition size_off :: "int \<Rightarrow> nat \<Rightarrow> nat \<Rightarrow> bool" where
  "size_off al n num \<longleftrightarrow> n \<noteq> num \<and>
     ((al > 0 \<and> int n - int num > 0 \<and> int n - int num \<le> al) \<or>
      (al < 0 \<and> int n - int num < 0 \<and> int n - int num \<ge> al) \<or> al = 0)"

definition size_events :: "int \<Rightarrow> nat \<Rightarrow> nat \<Rightarrow> event list" where
  "size_events al n num = (if size_off al n num then [Num n] else [])"

definition trim_events :: "cells \<Rightarrow> nat \<Rightarrow> event list" where
  "trim_events rs L = (let M = far 0 rs; v = last_cell 0 rs in
     if M < L then [Cut M, Status ft_end, Body v (ptr (last_cell 0 (butlast rs)) M)] else [])"

definition check_events :: "int \<Rightarrow> cells \<Rightarrow> nat \<Rightarrow> nat \<Rightarrow> event list" where
  "check_events al rs num L = size_events al (length rs) num @ trim_events rs L"

lemma far_cells:
  assumes "chain g a rs E" "rs \<noteq> []" "E = length g"
  shows "far 0 rs \<le> E" "391 \<le> far 0 rs" "391 \<le> last_cell 0 rs" "last_cell 0 rs + 34 \<le> far 0 rs"
    "\<forall>r\<in>set rs. cell_end r \<le> far 0 rs"
proof -
  note c = chain_cells [OF assms(1)]
  show "far 0 rs \<le> E" using c assms(3) by (intro far_bounds(3)) auto
  show e: "\<forall>r\<in>set rs. cell_end r \<le> far 0 rs" by (auto intro: far_bounds(2))
  have l: "last rs \<in> set rs" "last_cell 0 rs = fst (last rs)" using assms(2) by (simp_all add: last_cell_def)
  with c [of "last rs"] e show "391 \<le> far 0 rs" "391 \<le> last_cell 0 rs" "last_cell 0 rs + 34 \<le> far 0 rs"
    by (fastforce simp: cell_end_def)+
qed

lemma checkConsistency_last_eq:
  "checkConsistency_last al end cm mr n it c =
     (case fc_when (size_off al n (fc_size c)) (writeAndSetSize n) c of
        (Inl e, c') \<Rightarrow> (Inl e, c')
      | (Inr v, c') \<Rightarrow> fc_when (cm \<le> mr \<and> mr < end)
         (fc_then (truncateFile mr) (fc_bind fc_getEnd (\<lambda>end'.
            fc_when (fi_next it \<noteq> end') (writeIterator (fi_current it) (it\<lparr>fi_next := end'\<rparr>))))) c')"
  by (simp only: checkConsistency_last_def size_off_def Let_def fc_bind_apply fc_then_apply fcm_simps
      prod.case sum.case)

lemma checkConsistency_last_ok:
  assumes "L = length g" "b \<le> M" "M \<le> L" "391 \<le> v" "v + 34 \<le> M" "off_ok L" "off_ok u" "off_ok n"
  shows "\<exists>p'. checkConsistency_last al (int L) (int b) (int M) n (fi u L v) (fc_at c g p tr) =
    (Inr (), fc_log (c\<lparr>fc_size := if size_events al n (fc_size c) = [] then fc_size c else n\<rparr>)
      (size_events al n (fc_size c) @ (if M < L then [Cut M, Status ft_end, Body v (ptr u M)] else [])) p' g tr)"
proof -
  let ?es = "size_events al n (fc_size c)"
  let ?c = "c\<lparr>fc_size := if ?es = [] then fc_size c else n\<rparr>"
  have len: "length (run_events ?es g) = L"
    using assms by (auto simp: size_events_def length_overwrite)
  have sz: "fc_when (size_off al n (fc_size c)) (writeAndSetSize n) (fc_at c g p tr) = (Inr (), fc_log ?c ?es p g tr)"
    using assms(8) writeAndSetSize_log [of n c "[]" p g tr]
    by (cases "size_off al n (fc_size c)") (simp_all add: size_events_def fc_at_log del: fc_log_simps)
  show ?thesis
  proof (cases "M < L")
    case True
    have t: "truncateFile (int M) (fc_log ?c ?es p g tr) = (Inr (), fc_log ?c (?es @ [Cut M, Status ft_end]) 0 g tr)"
      using True len assms(4,5) by (intro truncateFile_log) auto
    have len2: "length (run_events (?es @ [Cut M, Status ft_end]) g) = M"
      using len True assms(4,5) by (simp add: length_overwrite_inside)
    have w: "writeIterator (int v) (fi u M v) (fc_log ?c (?es @ [Cut M, Status ft_end]) M g tr) =
        (Inr (), fc_log ?c (?es @ [Cut M, Status ft_end, Body v (ptr u M)]) (v + 34) g tr)"
      using writeIterator_log [of v u M v ?c "?es @ [Cut M, Status ft_end]" M g tr] assms True by simp
    show ?thesis
      using True assms(2,3) sz t w len2
      unfolding checkConsistency_last_eq fc_at_simps sz
      by (intro exI [of _ "v + 34"]) (simp add: fc_getEnd_log del: run_events_append)
  next
    case False
    then show ?thesis
      using assms(2,3) sz
      unfolding checkConsistency_last_eq fc_at_simps sz by (intro exI [of _ p]) simp
  qed
qed

lemma fc_log_log: "fc_log c es p (run_events ws f) (tr @ snaps f ws) = fc_log c (ws @ es) p f tr"
  by (simp add: fc_log_def)

text \<open>A file whose cells \<open>rs\<close> are linked and reach its end, with limits that name them; the
  status and the number of elements may be anything.\<close>

definition linked :: "string \<Rightarrow> hdr \<Rightarrow> cells \<Rightarrow> bool" where
  "linked g h rs \<longleftrightarrow> hdr_at h g \<and> chain g 0 rs (length g) \<and> apart rs \<and> rs \<noteq> [] \<and> off_ok (length g) \<and>
     h_limits h = (next_cell rs 391, last_cell 391 rs)"

lemma linkedD:
  assumes "linked g h rs"
  shows "hdr_at h g" "chain g 0 rs (length g)" "apart rs" "rs \<noteq> []" "off_ok (length g)"
    "h_limits h = (next_cell rs 391, last_cell 391 rs)" "holds_at 27 (num_line (h_num h)) g" "off_ok (h_num h)"
    "391 \<le> length g"
proof -
  show l: "hdr_at h g" "chain g 0 rs (length g)" "apart rs" "rs \<noteq> []" "off_ok (length g)"
    "h_limits h = (next_cell rs 391, last_cell 391 rs)" using assms unfolding linked_def by blast+
  then show "holds_at 27 (num_line (h_num h)) g" "391 \<le> length g" by (simp_all only: hdr_at_def)
  show "off_ok (h_num h)" using l(1) hdr_ok_okD(2) by (simp only: hdr_at_def)
qed

lemma checkConsistency_ok:
  assumes g: "linked g h rs" and lim: "fc_limits c = fi (next_cell rs 391) (last_cell 391 rs) x"
  shows "\<exists>p'. checkConsistency al (fc_at c g p tr) =
    (Inr (), fc_log (c\<lparr>fc_size := if size_off al (length rs) (h_num h) then length rs else h_num h\<rparr>)
       (check_events al rs (h_num h) (length g)) p' g tr)"
proof -
  note l = linkedD [OF g]
  let ?L = "length g" and ?c = "c\<lparr>fc_size := h_num h\<rparr>"
  obtain q d rest where rs: "rs = (q, d) # rest" using l(4) by (cases rs) auto
  have el: "elem_at g q 0 (next_cell rest ?L) d" and q: "391 \<le> q"
    using chain_ptr [of g 0 "[]" q d rest ?L] l(2) by (simp_all add: rs)
  have rd: "readIterator (int q) (fi 0 0 0) False (fc_at ?c g ?L tr) =
      (Inr (fi 0 (next_cell rest ?L) q), fc_at ?c g (q + 34) tr)"
    using elem_at_holds [OF el] q by (intro readIterator_at) auto
  obtain b u v p1 where lp: "checkConsistency_loop al (int ?L) (int 0) 0 (fi 0 (next_cell rest ?L) q) (fc_at ?c g (q + 34) tr) =
      Some (checkConsistency_last al (int ?L) (int b) (int (far 0 rs)) (0 + length rs) (fi u ?L v) (fc_at ?c g p1 tr))"
    and b: "b \<le> far 0 rs" "v = last_cell q rest" and u: "u = last_cell 0 (butlast rs)"
    using checkConsistency_loop_ok [of g 0 q d rest ?L ?c q x al 0 0 tr] l(2,3) lim unfolding rs by auto
  have v: "v = last_cell 0 rs" using b(2) by (simp add: rs)
  note fc = far_cells [OF l(2,4) refl]
  have uo: "off_ok u"
    using chain_ptr [of g 0 "butlast rs" "fst (last rs)" "snd (last rs)" "[]" ?L] l(2,4) u
    by (auto dest: elem_at_holds)
  have n: "off_ok (length rs)" using chain_length [OF l(2,3)] l(5) by simp
  have num: "fc_size ?c = h_num h" by simp
  obtain p2 where la: "checkConsistency_last al (int ?L) (int b) (int (far 0 rs)) (length rs) (fi u ?L v) (fc_at ?c g p1 tr) =
      (Inr (), fc_log (?c\<lparr>fc_size := if size_events al (length rs) (h_num h) = [] then h_num h else length rs\<rparr>)
        (size_events al (length rs) (h_num h) @
          (if far 0 rs < ?L then [Cut (far 0 rs), Status ft_end, Body v (ptr u (far 0 rs))] else [])) p2 g tr)"
    using checkConsistency_last_ok [OF refl b(1) fc(1) fc(3) [folded v] fc(4) [folded v] l(5) uo n, of al ?c p1 tr,
      unfolded num] by blast
  have "size_events al (length rs) (h_num h) = [] \<longleftrightarrow> \<not> size_off al (length rs) (h_num h)"
    by (simp add: size_events_def)
  with la lp rd lim u v l(7,8) show ?thesis
    by (intro exI [of _ p2]) (simp add: checkConsistency_def readSize_at FileIterator_new_fi rs
        check_events_def trim_events_def Let_def)
qed

lemma check_events_ok:
  assumes "linked g h rs"
  shows "events_ok (check_events al rs num (length g)) (length g)"
    "chain (run_events (check_events al rs num (length g)) g) 0 rs (far 0 rs)"
    "length (run_events (check_events al rs num (length g)) g) = far 0 rs"
proof -
  note l = linkedD [OF assms]
  note fc = far_cells [OF l(2,4) refl]
  let ?L = "length g" and ?M = "far 0 rs" and ?v = "last_cell 0 rs" and ?u = "last_cell 0 (butlast rs)"
  have n: "off_ok (length rs)" using chain_length [OF l(2,3)] l(5) by simp
  have eok: "events_ok (check_events al rs num ?L) ?L \<and> events_len (check_events al rs num ?L) ?L = ?M"
    using n fc l(9) chain_ptr [of g 0 "butlast rs" "fst (last rs)" "snd (last rs)" "[]" ?L] l(2,4,5)
    by (auto simp: check_events_def size_events_def trim_events_def Let_def max_def dest: elem_at_holds)
  then show ok: "events_ok (check_events al rs num ?L) ?L" by simp
  show "length (run_events (check_events al rs num ?L) g) = ?M"
    using length_run_events [OF l(9) ok] eok by simp
  have body: "filter is_body (check_events al rs num ?L) = (if ?M < ?L then [Cut ?M, Body ?v (ptr ?u ?M)] else [])"
    by (simp add: check_events_def size_events_def trim_events_def Let_def)
  have rs: "rs = butlast rs @ [(fst (last rs), snd (last rs))]" "?v = fst (last rs)"
    using l(4) by (simp_all add: last_cell_def)
  have t: "chain (take ?M g) 0 rs ?L" using chain_take [OF l(2) fc(5)] .
  have "chain (overwrite ?v (ptr ?u ?M) (take ?M g)) 0 rs ?M"
    using chain_set_next [of "take ?M g" 0 "butlast rs" "fst (last rs)" "snd (last rs)" ?L ?M] t l(3,5) fc(1) rs by auto
  moreover have "?L = ?M" if "\<not> ?M < ?L" using that fc(1) by simp
  ultimately have "chain (run_events (filter is_body (check_events al rs num ?L)) g) 0 rs ?M"
    unfolding body using l(2) by (cases "?M < ?L") auto
  then show "chain (run_events (check_events al rs num ?L) g) 0 rs ?M"
    by (rule chain_run_body) (use ok l(9) in simp_all)
qed

lemma check_events_hdr:
  "h_limits (events_hdr (check_events al rs num L) h) = h_limits h"
  "h_epoch (events_hdr (check_events al rs num L) h) = h_epoch h"
  "h_counter (events_hdr (check_events al rs num L) h) = h_counter h"
  "h_num (events_hdr (check_events al rs num L) h) = (if size_off al (length rs) num then length rs else h_num h)"
  by (simp_all add: check_events_def size_events_def trim_events_def Let_def)

lemma finish_file_ok:
  assumes g: "linked g h rs" and n: "h_num h = length rs \<or> h_num h + 1 = length rs"
  defines "es \<equiv> check_events 1 rs (h_num h) (length g) @ [Status closed]"
  shows "file_ok (run_events es g) (events_hdr es h) rs" "stamp_of (events_hdr es h) = stamp_of h"
    "size_off 1 (length rs) (h_num h) \<or> h_num h = length rs" "events_ok es (length g)"
proof -
  note l = linkedD [OF g] and c = check_events_ok [OF g, of 1 "h_num h"]
  note fc = far_cells [OF l(2,4) refl]
  show num: "size_off 1 (length rs) (h_num h) \<or> h_num h = length rs" using n by (auto simp: size_off_def)
  show eok: "events_ok es (length g)" using c(1) by (simp add: es_def)
  show "stamp_of (events_hdr es h) = stamp_of h" by (simp add: es_def stamp_of_def check_events_hdr)
  have "chain (run_events es g) 0 rs (far 0 rs)"
    using chain_header [OF c(2), of 49 "status_text closed"] c(3) fc(2) by (simp add: es_def)
  moreover have "length (run_events es g) = far 0 rs"
    using c(3) fc(2) by (simp add: es_def length_overwrite_inside)
  moreover have "h_num (events_hdr es h) = length rs" "h_limits (events_hdr es h) = (next_cell rs 391, last_cell 391 rs)"
    "h_status (events_hdr es h) = closed"
    using num l(6) by (auto simp: es_def check_events_hdr)
  ultimately show "file_ok (run_events es g) (events_hdr es h) rs"
    unfolding file_ok_def using hdr_run_events [OF l(1) eok] l(3,4,5) fc(1) by simp
qed

section \<open>The steps of the recovery\<close>

lemma overwrite_same: "holds_at q s g \<Longrightarrow> q + length s \<le> length g \<Longrightarrow> overwrite q s g = g"
  unfolding overwrite_def holds_at_def
  by (metis (no_types, lifting) add.commute append_Nil append_take_drop_id diff_is_0_eq drop_drop le_add1
      le_trans replicate_0)

lemma hdr_at_fields:
  assumes "hdr_at h g"
  shows "h_b0 h = (q, a, b) \<Longrightarrow> holds_at 51 (bkp q a b) g \<and> off_ok q \<and> off_ok a \<and> off_ok b"
    "h_l0 h = (x, y) \<Longrightarrow> holds_at 255 (ptr x y) g \<and> off_ok x \<and> off_ok y"
    "h_limits h = (x, y) \<Longrightarrow> holds_at 323 (ptr x y) g \<and> off_ok x \<and> off_ok y"
  using assms hdr_ok_okD(3,7,9) [of h] unfolding hdr_at_def by (simp_all add: bkp3_def ptr2_def)

definition last_backup :: "cells \<Rightarrow> nat \<Rightarrow> nat \<times> nat \<times> nat" where
  "last_backup rs L = (last_cell 0 rs, last_cell 0 (butlast rs), L)"

text \<open>Restoring the first backup writes the pointers that the last cell has anyway.\<close>

definition ae0_events :: "cells \<Rightarrow> nat \<Rightarrow> nat \<Rightarrow> event list" where
  "ae0_events rs num L = Body (last_cell 0 rs) (ptr (last_cell 0 (butlast rs)) L) # check_events 1 rs num L"

lemma linked_last:
  assumes "linked g h rs"
  shows "elem_at g (last_cell 0 rs) (last_cell 0 (butlast rs)) (length g) (snd (last rs))"
    "391 \<le> last_cell 0 rs" "overwrite (last_cell 0 rs) (ptr (last_cell 0 (butlast rs)) (length g)) g = g"
proof -
  note l = linkedD [OF assms]
  have v: "last_cell 0 rs = fst (last rs)" using l(4) by (simp add: last_cell_def)
  show el: "elem_at g (last_cell 0 rs) (last_cell 0 (butlast rs)) (length g) (snd (last rs))"
    and "391 \<le> last_cell 0 rs"
    using chain_ptr [of g 0 "butlast rs" "fst (last rs)" "snd (last rs)" "[]" "length g"] l(2,4) v by simp_all
  show "overwrite (last_cell 0 rs) (ptr (last_cell 0 (butlast rs)) (length g)) g = g"
    using elem_at_holds [OF el] elem_at_end [OF el] by (intro overwrite_same) simp_all
qed

lemma ae0_run:
  assumes g: "linked g h rs" and b: "h_b0 h = last_backup rs (length g)"
    and lim: "fc_limits c = fi (next_cell rs 391) (last_cell 391 rs) x"
  shows "\<exists>p'. fc_then (restore_iterator 0) (checkConsistency 1) (fc_at c g p tr) =
    (Inr (), fc_log (c\<lparr>fc_size := if size_off 1 (length rs) (h_num h) then length rs else h_num h\<rparr>)
       (ae0_events rs (h_num h) (length g)) p' g tr)"
proof -
  note l = linkedD [OF g] and ll = linked_last [OF g]
  let ?q = "last_cell 0 rs" and ?a = "last_cell 0 (butlast rs)" and ?L = "length g"
  note f = hdr_at_fields(1) [OF l(1) b [unfolded last_backup_def]]
  have rb: "readIteratorBackup 0 (fi 0 0 0) (fc_at c g p tr) = (Inr (fi ?a ?L ?q), fc_at c g p tr)"
    using f by (intro readIteratorBackup_at) simp_all
  have wi: "writeIterator (int ?q) (fi ?a ?L ?q) (fc_at c g p tr) = (Inr (), fc_at c g (?q + 34) (tr @ [g]))"
    using f ll by (simp add: writeIterator_at Let_def)
  obtain p' where "checkConsistency 1 (fc_at c g (?q + 34) (tr @ [g])) =
    (Inr (), fc_log (c\<lparr>fc_size := if size_off 1 (length rs) (h_num h) then length rs else h_num h\<rparr>)
       (check_events 1 rs (h_num h) (length g)) p' g (tr @ [g]))"
    using checkConsistency_ok [OF g lim, of 1 "?q + 34" "tr @ [g]"] by blast
  with rb wi ll(3) show ?thesis
    by (intro exI [of _ p']) (simp add: restore_iterator_def FileIterator_new_fi ae0_events_def fc_log_def)
qed

lemma ae0_file:
  assumes "linked g h rs"
  shows "run_events (ae0_events rs num (length g) @ es) g = run_events (check_events 1 rs num (length g) @ es) g"
    "events_hdr (ae0_events rs num L) h' = events_hdr (check_events 1 rs num L) h'"
  using linked_last(3) [OF assms] by (simp_all add: ae0_events_def)

text \<open>The limits are restored first: the header may hold the new ones already.\<close>

lemma ae1_run:
  assumes h: "hdr_at h g" and l0: "h_l0 h = (next_cell rs 391, last_cell 391 rs)"
    and lim: "\<exists>a b. fc_limits c = fi a b x"
  shows "restore_limits (fc_at c g p tr) =
    (Inr (), fc_log (c\<lparr>fc_limits := fi (next_cell rs 391) (last_cell 391 rs) x\<rparr>)
       [Limits (next_cell rs 391) (last_cell 391 rs)] 357 g tr)"
proof -
  note f = hdr_at_fields(2) [OF h l0]
  from lim obtain a b where "fc_limits c = fi a b x" by blast
  then have "(fc_limits c)\<lparr>fi_good := True, fi_prev := int (next_cell rs 391), fi_next := int (last_cell 391 rs)\<rparr> =
      fi (next_cell rs 391) (last_cell 391 rs) x"
    by (simp add: fi_def FileIterator_new_def)
  with f readLimitsBackup_at [of "next_cell rs 391" "last_cell 391 rs" g "fc_limits c" c p tr] show ?thesis
    by (simp add: restore_limits_def writeInitialPosition_at Let_def fc_log_def)
qed

text \<open>A partly written cell is cut off at the position the new limits give.\<close>

lemma ae2_run:
  assumes h: "hdr_at h g" and lm: "h_limits h = (a, L)" and L: "0 < L" "L \<le> length g"
  shows "truncate_at_limit fi_next (fc_at c g p tr) = (Inr (), fc_log c [Cut L, Status ft_end] 0 g tr)"
proof -
  note f = hdr_at_fields(3) [OF h lm]
  have "readInitialPosition (fi 0 0 0) False (fc_at c g p tr) = (Inr (fi a L 0), fc_at c g 356 tr)"
    using f readInitialPosition_at [of False a L g "fi 0 0 0" c p tr] by (simp add: fi_def FileIterator_new_def)
  with truncateFile_log [of L "[]" g c 356 tr] L show ?thesis
    by (simp add: truncate_at_limit_def FileIterator_new_fi fc_at_log)
qed

lemma backupFile_at:
  "backupFile None (fc_at c g p tr) =
     (Inr (), fc_at (c\<lparr>fc_disk := (fc_disk c)(fc_filename c @ ''.bak'' \<mapsto> g)\<rparr>) g 0 tr)"
  by (simp add: backupFile_def Let_def)

section \<open>Recovered files\<close>

text \<open>\<open>recovers st g h rs\<close>: recovery from status \<open>st\<close> turns the file \<open>g\<close> with header \<open>h\<close> into a
  file that holds \<open>rs\<close>, and the handle that recovers it agrees with the result.\<close>

definition recovers :: "filestatus \<Rightarrow> string \<Rightarrow> hdr \<Rightarrow> cells \<Rightarrow> bool" where
  "recovers st g h rs \<longleftrightarrow> (\<forall>c p tr x. fc_limits c = fi (fst (h_limits h)) (snd (h_limits h)) x \<longrightarrow> fc_size c = h_num h \<longrightarrow>
     (\<exists>c' es p'. recover_status st (fc_at c g p tr) = (Inr (), fc_log c' es p' g tr) \<and>
       file_ok (run_events es g) (events_hdr es h) rs \<and> stamp_of (events_hdr es h) = stamp_of h \<and>
       fc_limits c' = fi (next_cell rs 391) (last_cell 391 rs) x \<and> fc_size c' = length rs \<and>
       fc_stamp c' = fc_stamp c \<and> fc_clock c' = fc_clock c))"

lemma init_recovers:
  assumes r: "recovers (h_status h) g h rs" and h: "hdr_at h g" and st: "h_status h \<noteq> closed" and c: "handle_ok c"
  shows "\<exists>c' f'. initContainer (fc_at c g p tr) = (Inr (), c') \<and> container c' f' rs"
proof -
  from h have hs: "holds_at 0 (stamp_line (h_epoch h) (h_counter h)) g" "stamp_ok (h_epoch h) (h_counter h)"
    "holds_at 323 (ptr (fst (h_limits h)) (snd (h_limits h))) g" "ok2 (h_limits h)"
    "holds_at 357 (ptr (fst (h_list h)) (snd (h_list h))) g" "ok2 (h_list h)"
    "holds_at 27 (num_line (h_num h)) g" "off_ok (h_num h)"
    "holds_at 49 (status_text (h_status h)) g" "\<forall>ch. h_status h \<noteq> unlisted ch"
    using hdr_ok_okD(1,2,9,10) [of h] unfolding hdr_at_def by (simp_all add: ptr2_def hdr_ok_def)
  from c obtain x y z where lim: "fc_limits c = fi x y z" by (auto simp: handle_ok_def)
  let ?c1 = "c\<lparr>fc_stamp := stamp_of h, fc_limits := fi (fst (h_limits h)) (snd (h_limits h)) z,
    fc_removed := (fc_removed c)\<lparr>fi_good := True, fi_prev := int (fst (h_list h)), fi_next := int (snd (h_list h))\<rparr>,
    fc_size := h_num h\<rparr>"
  have lim': "(fc_limits c)\<lparr>fi_good := True, fi_prev := int (fst (h_limits h)), fi_next := int (snd (h_limits h))\<rparr>
      = fi (fst (h_limits h)) (snd (h_limits h)) z"
    by (simp add: lim fi_def FileIterator_new_def)
  have "fc_limits ?c1 = fi (fst (h_limits h)) (snd (h_limits h)) z" "fc_size ?c1 = h_num h" by simp_all
  then obtain c' es p' where rc: "recover_status (h_status h) (fc_at ?c1 g 390 tr) = (Inr (), fc_log c' es p' g tr)"
    "file_ok (run_events es g) (events_hdr es h) rs" "stamp_of (events_hdr es h) = stamp_of h"
    "fc_limits c' = fi (next_cell rs 391) (last_cell 391 rs) z" "fc_size c' = length rs"
    "fc_stamp c' = fc_stamp ?c1" "fc_clock c' = fc_clock ?c1"
    using r unfolding recovers_def by blast
  have "initContainer (fc_at c g p tr) = (Inr (), fc_log (c'\<lparr>fc_initialized := True\<rparr>) es p' g tr)"
    using hs st rc(1) lim' by (simp add: initContainer_def readLimits_at readRemoved_at readSize_at readStamp_at
        readFileStatus_at stamp_of_def)
  moreover have "container (fc_log (c'\<lparr>fc_initialized := True\<rparr>) es p' g tr) (run_events es g) rs"
    unfolding fc_log_def using rc c hs(2)
    by (intro containerI) (auto simp: fresh_def synced_def handle_ok_def stamp_of_def)
  ultimately show ?thesis by blast
qed

lemma recovers_opened:
  assumes g: "linked g h rs" and n: "h_num h = length rs"
  shows "recovers opened g h rs"
proof -
  note l = linkedD [OF g]
  have ok: "events_ok [Status closed, Status closed] (length g)" by simp
  have "file_ok (run_events [Status closed, Status closed] g) (events_hdr [Status closed, Status closed] h) rs"
    using l n hdr_run_events [OF l(1) ok] chain_header [OF chain_header [OF l(2)], of 49 "status_text closed" 49 "status_text closed"]
    by (simp add: file_ok_def length_overwrite_inside)
  moreover have "recover_status opened (fc_at c g p tr) =
      (Inr (), fc_log (c\<lparr>fc_disk := (fc_disk c)(fc_filename c @ ''.bak'' \<mapsto> g)\<rparr>) [Status closed, Status closed] 0 g tr)"
    for c p tr
    by (simp add: recover_status_def backupFile_at recover_switch_def Let_def fc_log_def)
  ultimately show ?thesis
    unfolding recovers_def using l(6) n by (simp add: stamp_of_def) fastforce
qed

lemma recovers_ad_empty:
  assumes g: "linked g h rs" and n: "h_num h = length rs \<or> h_num h + 1 = length rs"
  shows "recovers ad_empty g h rs"
  unfolding recovers_def
proof (intro allI impI)
  fix c :: file_container and p tr x
  assume lim: "fc_limits c = fi (fst (h_limits h)) (snd (h_limits h)) x" and "fc_size c = h_num h"
  note l = linkedD [OF g] and fin = finish_file_ok [OF g n]
  let ?c = "c\<lparr>fc_disk := (fc_disk c)(fc_filename c @ ''.bak'' \<mapsto> g)\<rparr>"
  have "fc_limits ?c = fi (next_cell rs 391) (last_cell 391 rs) x" using lim l(6) by simp
  from checkConsistency_ok [OF g this, of 1 0 tr] obtain p' where
    cc: "checkConsistency 1 (fc_at ?c g 0 tr) =
      (Inr (), fc_log (?c\<lparr>fc_size := if size_off 1 (length rs) (h_num h) then length rs else h_num h\<rparr>)
         (check_events 1 rs (h_num h) (length g)) p' g tr)" by blast
  let ?c' = "?c\<lparr>fc_size := length rs\<rparr>" and ?es = "check_events 1 rs (h_num h) (length g) @ [Status closed]"
  have "(if size_off 1 (length rs) (h_num h) then length rs else h_num h) = length rs" using fin(3) by auto
  with cc have "recover_status ad_empty (fc_at c g p tr) = (Inr (), fc_log ?c' ?es p' g tr)"
    by (simp add: recover_status_def backupFile_at recover_switch_def writeFileStatus_log Let_def)
  with fin lim l(6) show "\<exists>c' es p'. recover_status ad_empty (fc_at c g p tr) = (Inr (), fc_log c' es p' g tr) \<and>
       file_ok (run_events es g) (events_hdr es h) rs \<and> stamp_of (events_hdr es h) = stamp_of h \<and>
       fc_limits c' = fi (next_cell rs 391) (last_cell 391 rs) x \<and> fc_size c' = length rs \<and>
       fc_stamp c' = fc_stamp c \<and> fc_clock c' = fc_clock c"
    by (intro exI [of _ ?c'] exI [of _ ?es] exI [of _ p']) auto
qed

lemma recoversI:
  assumes st: "st \<noteq> closed"
    and run: "\<And>c tr x. fc_limits c = fi (fst (h_limits h)) (snd (h_limits h)) x \<Longrightarrow> fc_size c = h_num h \<Longrightarrow>
      \<exists>p'. recover_switch st (fc_at c g 0 tr) =
        (Inr (), fc_log (c\<lparr>fc_limits := fi (next_cell rs 391) (last_cell 391 rs) x, fc_size := length rs\<rparr>) es p' g tr)"
    and f: "file_ok (run_events (es @ [Status closed]) g) (events_hdr (es @ [Status closed]) h) rs"
    and s: "stamp_of (events_hdr (es @ [Status closed]) h) = stamp_of h"
  shows "recovers st g h rs"
  unfolding recovers_def
proof (intro allI impI)
  fix c :: file_container and p tr x
  assume lim: "fc_limits c = fi (fst (h_limits h)) (snd (h_limits h)) x" "fc_size c = h_num h"
  let ?c = "c\<lparr>fc_disk := (fc_disk c)(fc_filename c @ ''.bak'' \<mapsto> g)\<rparr>"
  let ?c' = "?c\<lparr>fc_limits := fi (next_cell rs 391) (last_cell 391 rs) x, fc_size := length rs\<rparr>"
  have "fc_limits ?c = fi (fst (h_limits h)) (snd (h_limits h)) x" "fc_size ?c = h_num h" using lim by simp_all
  from run [OF this, of tr] obtain p' where "recover_switch st (fc_at ?c g 0 tr) = (Inr (), fc_log ?c' es p' g tr)" by blast
  then have "recover_status st (fc_at c g p tr) = (Inr (), fc_log ?c' (es @ [Status closed]) p' g tr)"
    using st by (simp add: recover_status_def backupFile_at writeFileStatus_log)
  with f s show "\<exists>c' es p'. recover_status st (fc_at c g p tr) = (Inr (), fc_log c' es p' g tr) \<and>
       file_ok (run_events es g) (events_hdr es h) rs \<and> stamp_of (events_hdr es h) = stamp_of h \<and>
       fc_limits c' = fi (next_cell rs 391) (last_cell 391 rs) x \<and> fc_size c' = length rs \<and>
       fc_stamp c' = fc_stamp c \<and> fc_clock c' = fc_clock c"
    by (intro exI [of _ ?c'] exI [of _ "es @ [Status closed]"] exI [of _ p']) auto
qed

text \<open>The three statuses of an append share the end of their recovery: after the events \<open>pre\<close>
  the file is linked, and the first backup is that of its last cell.\<close>

lemma recovers_append:
  assumes st: "st \<noteq> closed"
    and g: "linked (run_events pre g) (events_hdr pre h) rs" and n: "h_num (events_hdr pre h) = length rs"
    and b: "h_b0 (events_hdr pre h) = last_backup rs (length (run_events pre g))"
    and s: "stamp_of (events_hdr pre h) = stamp_of h"
    and sw: "recover_switch st = m"
    and run: "\<And>c tr x. fc_limits c = fi (fst (h_limits h)) (snd (h_limits h)) x \<Longrightarrow> fc_size c = h_num h \<Longrightarrow>
      \<exists>p'. m (fc_at c g 0 tr) = fc_then (restore_iterator 0) (checkConsistency 1)
        (fc_log (c\<lparr>fc_limits := fi (next_cell rs 391) (last_cell 391 rs) x\<rparr>) pre p' g tr)"
  shows "recovers st g h rs"
proof (rule recoversI [OF st])
  let ?G = "run_events pre g" and ?H = "events_hdr pre h"
  let ?es = "pre @ ae0_events rs (length rs) (length ?G)"
  have n': "h_num ?H = length rs \<or> h_num ?H + 1 = length rs" using n by simp
  note fin = finish_file_ok [OF g n']
  have noff: "\<not> size_off 1 (length rs) (length rs)" by (simp add: size_off_def)
  have e: "run_events (?es @ [Status closed]) g = run_events (check_events 1 rs (h_num ?H) (length ?G) @ [Status closed]) ?G"
    using ae0_file(1) [OF g, of "length rs" "[Status closed]"] n by simp
  have eh: "events_hdr (?es @ [Status closed]) h = events_hdr (check_events 1 rs (h_num ?H) (length ?G) @ [Status closed]) ?H"
    using ae0_file(2) [OF g] n by simp
  show "file_ok (run_events (?es @ [Status closed]) g) (events_hdr (?es @ [Status closed]) h) rs"
    unfolding e eh by (rule fin(1))
  show "stamp_of (events_hdr (?es @ [Status closed]) h) = stamp_of h"
    unfolding eh using fin(2) s by simp
  fix c :: file_container and tr x
  assume "fc_limits c = fi (fst (h_limits h)) (snd (h_limits h)) x" "fc_size c = h_num h"
  from run [OF this, of tr] obtain p1 where r: "recover_switch st (fc_at c g 0 tr) =
      fc_then (restore_iterator 0) (checkConsistency 1)
        (fc_at (c\<lparr>fc_limits := fi (next_cell rs 391) (last_cell 391 rs) x\<rparr>) ?G p1 (tr @ snaps g pre))"
    unfolding sw fc_log_def by blast
  let ?c = "c\<lparr>fc_limits := fi (next_cell rs 391) (last_cell 391 rs) x\<rparr>"
  have "fc_limits ?c = fi (next_cell rs 391) (last_cell 391 rs) x" by simp
  from ae0_run [OF g b this, of p1 "tr @ snaps g pre"] n noff obtain p2 where
    "fc_then (restore_iterator 0) (checkConsistency 1) (fc_at ?c ?G p1 (tr @ snaps g pre)) =
      (Inr (), fc_log (?c\<lparr>fc_size := length rs\<rparr>) (ae0_events rs (length rs) (length ?G)) p2 ?G (tr @ snaps g pre))"
    by auto
  with r show "\<exists>p'. recover_switch st (fc_at c g 0 tr) =
      (Inr (), fc_log (c\<lparr>fc_limits := fi (next_cell rs 391) (last_cell 391 rs) x, fc_size := length rs\<rparr>) ?es p' g tr)"
    by (intro exI [of _ p2]) (simp add: fc_log_log)
qed

lemma recovers_ae_iterator:
  assumes g: "linked g h rs" and n: "h_num h = length rs" and b: "h_b0 h = last_backup rs (length g)"
  shows "recovers ae_iterator g h rs"
proof (rule recovers_append [where pre = "[]" and m = "fc_then (restore_iterator 0) (checkConsistency 1)"])
  fix c :: file_container and tr x
  assume "fc_limits c = fi (fst (h_limits h)) (snd (h_limits h)) x"
  then have "c\<lparr>fc_limits := fi (next_cell rs 391) (last_cell 391 rs) x\<rparr> = c"
    using linkedD(6) [OF g] by (cases c) simp
  then show "\<exists>p'. fc_then (restore_iterator 0) (checkConsistency 1) (fc_at c g 0 tr) =
      fc_then (restore_iterator 0) (checkConsistency 1)
        (fc_log (c\<lparr>fc_limits := fi (next_cell rs 391) (last_cell 391 rs) x\<rparr>) [] p' g tr)"
    by (metis fc_at_log)
qed (use assms in \<open>simp_all add: recover_switch_def Let_def\<close>)

lemma recovers_ae_limits:
  assumes h: "hdr_at h g" and l0: "h_l0 h = (next_cell rs 391, last_cell 391 rs)"
    and g: "linked (overwrite 323 (ptr (next_cell rs 391) (last_cell 391 rs)) g)
      (h\<lparr>h_limits := (next_cell rs 391, last_cell 391 rs)\<rparr>) rs"
    and n: "h_num h = length rs" and b: "h_b0 h = last_backup rs (length g)"
  shows "recovers ae_limits g h rs"
proof (rule recovers_append [where pre = "[Limits (next_cell rs 391) (last_cell 391 rs)]"
      and m = "fc_then restore_limits (fc_then (restore_iterator 0) (checkConsistency 1))"])
  note f = hdr_at_fields(2) [OF h l0]
  have len: "length (overwrite 323 (ptr (next_cell rs 391) (last_cell 391 rs)) g) = length g"
    using f hdr_at_len [OF h] by (simp add: length_overwrite_inside)
  show "h_b0 (events_hdr [Limits (next_cell rs 391) (last_cell 391 rs)] h) =
      last_backup rs (length (run_events [Limits (next_cell rs 391) (last_cell 391 rs)] g))"
    using b len by simp
  fix c :: file_container and tr x
  assume "fc_limits c = fi (fst (h_limits h)) (snd (h_limits h)) x"
  then have lx: "\<exists>a b. fc_limits c = fi a b x" by blast
  from ae1_run [OF h l0 lx, of 0 tr] show "\<exists>p'. fc_then restore_limits (fc_then (restore_iterator 0) (checkConsistency 1)) (fc_at c g 0 tr) =
      fc_then (restore_iterator 0) (checkConsistency 1)
        (fc_log (c\<lparr>fc_limits := fi (next_cell rs 391) (last_cell 391 rs) x\<rparr>) [Limits (next_cell rs 391) (last_cell 391 rs)] p' g tr)"
    by (intro exI [of _ 357]) (simp del: fc_log_simps)
qed (use assms in \<open>simp_all add: recover_switch_def Let_def stamp_of_def\<close>)

lemma recovers_ae_written:
  assumes h: "hdr_at h g" and l0: "h_l0 h = (next_cell rs 391, last_cell 391 rs)"
    and lm: "h_limits h = (a, L)" and L: "391 \<le> L" "L \<le> length g" and st: "st = ae_writing \<or> st = ae_written"
  defines "pre \<equiv> [Cut L, Status ft_end, Limits (next_cell rs 391) (last_cell 391 rs)]"
  assumes g: "linked (run_events pre g) (events_hdr pre h) rs"
    and n: "h_num h = length rs" and b: "h_b0 h = last_backup rs L"
  shows "recovers st g h rs"
proof (rule recovers_append [where pre = pre
      and m = "fc_then (truncate_at_limit fi_next) (fc_then restore_limits (fc_then (restore_iterator 0) (checkConsistency 1)))"])
  note f = hdr_at_fields(2) [OF h l0]
  have len: "length (run_events pre g) = L"
    using f L by (simp add: pre_def length_overwrite_inside)
  show "h_b0 (events_hdr pre h) = last_backup rs (length (run_events pre g))"
    using b len by (simp add: pre_def)
  let ?es = "[Cut L, Status ft_end]"
  have h2: "hdr_at (events_hdr ?es h) (run_events ?es g)"
    using L by (intro hdr_run_events [OF h]) simp
  fix c :: file_container and tr x
  assume "fc_limits c = fi (fst (h_limits h)) (snd (h_limits h)) x"
  then have lx: "\<exists>a b. fc_limits c = fi a b x" by blast
  have l2: "h_l0 (events_hdr ?es h) = (next_cell rs 391, last_cell 391 rs)" using l0 by simp
  from ae1_run [OF h2 l2 lx, of 0 "tr @ snaps g ?es"]
  have r1: "restore_limits (fc_log c ?es 0 g tr) =
    (Inr (), fc_log (c\<lparr>fc_limits := fi (next_cell rs 391) (last_cell 391 rs) x\<rparr>) pre 357 g tr)"
    by (simp add: fc_log_log [of _ _ _ ?es, symmetric] pre_def fc_log_def)
  show "\<exists>p'. fc_then (truncate_at_limit fi_next) (fc_then restore_limits (fc_then (restore_iterator 0) (checkConsistency 1))) (fc_at c g 0 tr) =
      fc_then (restore_iterator 0) (checkConsistency 1)
        (fc_log (c\<lparr>fc_limits := fi (next_cell rs 391) (last_cell 391 rs) x\<rparr>) pre p' g tr)"
    using r1 ae2_run [OF h lm _ L(2), of c 0 tr] L(1) by (intro exI [of _ 357]) (simp del: fc_log_simps)
qed (use g n st in \<open>auto simp: recover_switch_def Let_def stamp_of_def pre_def\<close>)

end
