(* ===== verification/File_Container_Crash.thy ===== *)
theory File_Container_Crash
  imports File_Container_Recover
begin

text \<open>
  Crashes during an append: the process dies after any number of the writes of
  \<open>add_data\<close> at the end of a list that is not empty, and the next process opens the file.
\<close>

section \<open>The files a crash leaves behind\<close>

text \<open>Writes that leave the cells \<open>rs\<close> alone: to the header, behind them, and the pointers
  that the last cell has anyway.\<close>

fun keeps :: "nat \<Rightarrow> nat \<Rightarrow> nat \<Rightarrow> event \<Rightarrow> bool" where
  "keeps q a L (Body p t) = (L \<le> p \<or> p = q \<and> t = ptr a L)"
| "keeps q a L (Cut n) = (L \<le> n)"
| "keeps q a L _ = True"

lemma keeps_chain:
  assumes "list_all (keeps q a L) es" "events_ok es (length g)" "391 \<le> length g"
    and "chain g 0 rs L" "\<forall>r\<in>set rs. cell_end r \<le> L" "rs \<noteq> []"
    and q: "q = last_cell 0 rs" "a = last_cell 0 (butlast rs)"
  shows "chain (run_events es g) 0 rs L"
  using assms(1-4)
proof (induction es g rule: run_events.induct)
  case (2 e es g)
  have rs: "rs = butlast rs @ [(fst (last rs), snd (last rs))]" "q = fst (last rs)"
    using assms(6) q by (simp_all add: last_cell_def)
  have "chain (ev_write e g) 0 rs L"
  proof (cases e)
    case (Body p t)
    show ?thesis
    proof (cases "L \<le> p")
      case True
      then show ?thesis
        using Body 2 assms(5) by (auto intro!: chain_overwrite)
    next
      case False
      then have pt: "p = q" "t = ptr a L" using Body 2 by auto
      have el: "elem_at g q a L (snd (last rs))"
        using chain_ptr [of g 0 "butlast rs" "fst (last rs)" "snd (last rs)" "[]" L] 2(5) rs q by simp
      have "overwrite q (ptr a L) g = g"
        using elem_at_holds [OF el] elem_at_end [OF el] by (intro overwrite_same) simp_all
      then show ?thesis using Body pt 2(5) by simp
    qed
  next
    case (Cut n)
    then show ?thesis using 2 assms(5) by (auto intro!: chain_take)
  qed (use 2 in \<open>auto intro!: chain_header\<close>)
  moreover have "length (ev_write e g) = ev_len e (length g)" "391 \<le> ev_len e (length g)"
    using 2 length_ev_write [of g e] ev_len_header [of "length g" e] by auto
  ultimately show ?case using 2 by simp
qed simp

definition append_log :: "TimeStamp \<Rightarrow> cells \<Rightarrow> nat \<Rightarrow> nat \<Rightarrow> string \<Rightarrow> event list" where
  "append_log ts rs L N d =
     (let q = last_cell 0 rs; a = last_cell 0 (butlast rs); first = next_cell rs 391 in
      [stamp_ev ts, Status opened, Backup0 q a L, Status ae_iterator, Body q (ptr a L),
       LimitsBackup first q, Status ae_limits, Limits first L, Status ae_writing,
       Body L (ptr q N), Body (L + 34) (size_line (length d) CHR ''g''), Body (L + 60) (d @ [newline] @ ptr q N),
       Status ae_written, Wipe, Status ad_empty, Num (length rs + 1), Status closed])"

lemma append_log_eq: "rs \<noteq> [] \<Longrightarrow> add_events ts rs [] L N d = append_log ts rs L N d"
  by (simp add: add_events_def insert_events_def append_events_def cell_events_def append_log_def Let_def last_cell_def)

lemma append_log_length: "length (append_log ts rs L N d) = 17"
  by (simp add: append_log_def Let_def)

lemma append_log_keeps: "list_all (keeps (last_cell 0 rs) (last_cell 0 (butlast rs)) L) (append_log ts rs L N d)"
  by (simp add: append_log_def Let_def)

text \<open>The file after the first \<open>i\<close> writes of an append to \<open>rs\<close>.\<close>

lemma append_prefix:
  assumes f: "file_ok f h rs" and rs: "rs \<noteq> []" and d: "d \<noteq> []" and N: "N = length f + 95 + length d" "off_ok N"
    and ts: "stamp_ok (ts_epoch ts) (ts_counter ts)" and pre_def: "pre = take i (append_log ts rs (length f) N d)"
  shows "hdr_at (events_hdr pre h) (run_events pre f)" "chain (run_events pre f) 0 rs (length f)"
    "length (run_events pre f) = events_len pre (length f)" "\<forall>r\<in>set rs. cell_end r \<le> length f"
    "file_ok (run_events (append_log ts rs (length f) N d) f) (events_hdr (append_log ts rs (length f) N d) h) (rs @ [(length f, d)])"
    "391 \<le> length f" "391 \<le> last_cell 0 rs"
    "last_cell 0 rs + length (ptr (last_cell 0 (butlast rs)) (length f)) \<le> length f"
    "events_ok (append_log ts rs (length f) N d) (length f)" "length (run_events (append_log ts rs (length f) N d) f) = N"
proof -
  note ok = file_okD [OF f]
  let ?es = "append_log ts rs (length f) N d"
  have f': "file_ok f h (rs @ [])" using f by simp
  note add = add_file_ok [OF f' d N ts]
  have eok: "events_ok pre (length f)"
    using add(4) append_log_eq [OF rs] events_ok_take by (simp add: pre_def)
  show "hdr_at (events_hdr pre h) (run_events pre f)" by (rule hdr_run_events [OF ok(1) eok])
  show cells: "\<forall>r\<in>set rs. cell_end r \<le> length f" using chain_cells [OF ok(16)] by blast
  have "list_all (keeps (last_cell 0 rs) (last_cell 0 (butlast rs)) (length f)) pre"
    using append_log_keeps [of rs "length f" ts N d] unfolding pre_def by (metis append_take_drop_id list_all_append)
  then show "chain (run_events pre f) 0 rs (length f)"
    by (rule keeps_chain [OF _ eok ok(3,16) cells rs refl refl])
  show "length (run_events pre f) = events_len pre (length f)"
    using length_run_events [OF ok(3) eok] by simp
  show "file_ok (run_events ?es f) (events_hdr ?es h) (rs @ [(length f, d)])"
    using add(1) append_log_eq [OF rs] by simp
  show "events_ok ?es (length f)" "length (run_events ?es f) = N" using add(3,4) append_log_eq [OF rs] by simp_all
  show "391 \<le> length f" by (rule ok(3))
  have v: "last_cell 0 rs = fst (last rs)" using rs by (simp add: last_cell_def)
  have el: "elem_at f (last_cell 0 rs) (last_cell 0 (butlast rs)) (length f) (snd (last rs))" "391 \<le> last_cell 0 rs"
    using chain_ptr [of f 0 "butlast rs" "fst (last rs)" "snd (last rs)" "[]" "length f"] ok(16) rs v by simp_all
  then show "391 \<le> last_cell 0 rs" "last_cell 0 rs + length (ptr (last_cell 0 (butlast rs)) (length f)) \<le> length f"
    using elem_at_holds [OF el(1)] elem_at_end [OF el(1)] by simp_all
qed

definition crash_recovers :: "string \<Rightarrow> cells \<Rightarrow> bool" where
  "crash_recovers g rs \<longleftrightarrow> (\<forall>c p tr. handle_ok c \<longrightarrow>
     (\<exists>c' f'. initContainer (fc_at c g p tr) = (Inr (), c') \<and> container c' f' rs))"

lemma crash_recoversI:
  "recovers (h_status h) g h rs \<Longrightarrow> hdr_at h g \<Longrightarrow> h_status h \<noteq> closed \<Longrightarrow> crash_recovers g rs"
  using init_recovers unfolding crash_recovers_def by blast

lemma crash_recovers_closed: "file_ok g h rs \<Longrightarrow> crash_recovers g rs"
  unfolding crash_recovers_def
proof (intro allI impI)
  fix c :: file_container and p tr
  assume "file_ok g h rs" "handle_ok c"
  then show "\<exists>c' f'. initContainer (fc_at c g p tr) = (Inr (), c') \<and> container c' f' rs"
    using initContainer_ok [of g h rs c p tr] containerI by metis
qed

lemma crash_early:
  assumes f: "file_ok f h rs" and rs: "rs \<noteq> []" and d: "d \<noteq> []" and N: "N = length f + 95 + length d" "off_ok N"
    and ts: "stamp_ok (ts_epoch ts) (ts_counter ts)" and i: "i \<in> {1,2,3,4,5,6}"
  shows "crash_recovers (run_events (take i (append_log ts rs (length f) N d)) f) rs"
proof -
  let ?pre = "take i (append_log ts rs (length f) N d)"
  let ?H = "events_hdr ?pre h" and ?G = "run_events ?pre f"
  note a = append_prefix [OF f rs d N ts refl [of ?pre]] and ok = file_okD [OF f]
  have hl: "h_limits h = (next_cell rs 391, last_cell 391 rs)" "h_num h = length rs" "h_status h = closed"
    using f unfolding file_ok_def by blast+
  have len: "length ?G = length f" using i a(3,7,8) by (auto simp: append_log_def Let_def max_def)
  have H: "h_limits ?H = (next_cell rs 391, last_cell 391 rs)" "h_num ?H = length rs"
    using i hl by (auto simp: append_log_def Let_def)
  have l: "linked ?G ?H rs" using a(1,2) len rs ok(4,17) H by (simp add: linked_def)
  consider "i = 1" | "i = 2 \<or> i = 3" | "i = 4 \<or> i = 5 \<or> i = 6" using i by auto
  then show ?thesis
  proof cases
    case 1
    then have "h_status ?H = closed" using hl by (simp add: append_log_def Let_def)
    then have "file_ok ?G ?H rs" using l H len rs unfolding file_ok_def linked_def by simp
    then show ?thesis by (rule crash_recovers_closed)
  next
    case 2
    then have "h_status ?H = opened" by (auto simp: append_log_def Let_def)
    then show ?thesis using recovers_opened [OF l H(2)] a(1) by (intro crash_recoversI [of ?H]) auto
  next
    case 3
    then have s: "h_status ?H = ae_iterator" "h_b0 ?H = last_backup rs (length ?G)"
      using len by (auto simp: append_log_def Let_def last_backup_def)
    then show ?thesis using recovers_ae_iterator [OF l H(2) s(2)] a(1) by (intro crash_recoversI [of ?H]) auto
  qed
qed

lemma crash_middle:
  assumes f: "file_ok f h rs" and rs: "rs \<noteq> []" and d: "d \<noteq> []" and N: "N = length f + 95 + length d" "off_ok N"
    and ts: "stamp_ok (ts_epoch ts) (ts_counter ts)" and i: "i \<in> {7,8,9,10,11,12,13}"
  shows "crash_recovers (run_events (take i (append_log ts rs (length f) N d)) f) rs"
proof -
  let ?pre = "take i (append_log ts rs (length f) N d)" and ?L = "length f"
  let ?H = "events_hdr ?pre h" and ?G = "run_events ?pre f" and ?lim = "(next_cell rs 391, last_cell 391 rs)"
  note a = append_prefix [OF f rs d N ts refl [of ?pre]] and ok = file_okD [OF f]
  have l: "last_cell 391 rs = last_cell 0 rs" using rs by (simp add: last_cell_def)
  have H: "h_num ?H = length rs" "h_l0 ?H = ?lim" "h_b0 ?H = last_backup rs ?L"
    using i f by (auto simp: append_log_def Let_def last_backup_def file_ok_def l)
  have len: "?L \<le> length ?G" "i = 7 \<or> i = 8 \<Longrightarrow> length ?G = ?L"
    using i a(3,7,8) by (auto simp: append_log_def Let_def max_def)
  show ?thesis
  proof (cases "i = 7 \<or> i = 8")
    case True
    note lp = hdr_at_fields(2) [OF a(1) H(2)]
    let ?G1 = "overwrite 323 (ptr (next_cell rs 391) (last_cell 391 rs)) ?G"
    have "length ?G1 = ?L" using len(2) True a(6) lp by (simp add: length_overwrite_inside)
    moreover have "chain ?G1 0 rs ?L" using chain_header [OF a(2)] a(6) len(2) True lp by simp
    ultimately have "linked ?G1 (?H\<lparr>h_limits := ?lim\<rparr>) rs"
      using hdr_limits [OF a(1), of "next_cell rs 391" "last_cell 391 rs"] rs ok(4,17) lp by (simp add: linked_def)
    moreover have "h_status ?H = ae_limits" using True by (auto simp: append_log_def Let_def)
    ultimately show ?thesis
      using recovers_ae_limits [OF a(1) H(2) _ H(1)] H(3) len(2) True a(1) by (intro crash_recoversI [of ?H]) auto
  next
    case False
    then have s: "h_limits ?H = (next_cell rs 391, ?L)" "h_status ?H = ae_writing \<or> h_status ?H = ae_written"
      using i by (auto simp: append_log_def Let_def)
    let ?es = "[Cut ?L, Status ft_end, Limits (next_cell rs 391) (last_cell 391 rs)]"
    note lp = hdr_at_fields(2) [OF a(1) H(2)]
    have eok: "events_ok ?es (length ?G)" using len(1) a(6) lp by simp
    have len3: "length (run_events ?es ?G) = ?L" using len(1) a(6) lp by (simp add: length_overwrite_inside)
    have "chain (run_events ?es ?G) 0 rs ?L"
      by (rule keeps_chain [OF _ eok _ a(2,4) rs refl refl]) (use len(1) a(6) in simp_all)
    then have "linked (run_events ?es ?G) (events_hdr ?es ?H) rs"
      using hdr_run_events [OF a(1) eok] rs ok(4,17) len3 by (simp add: linked_def)
    then show ?thesis
      using recovers_ae_written [OF a(1) H(2) s(1) a(6) len(1) s(2) _ H(1,3)] a(1) s(2) by (intro crash_recoversI [of ?H]) auto
  qed
qed

lemma events_len_header: "list_all (\<lambda>e. \<not> is_body e) es \<Longrightarrow> events_len es n = n"
  by (induction es arbitrary: n) (auto elim: is_body.elims)

lemma crash_late:
  assumes f: "file_ok f h rs" and rs: "rs \<noteq> []" and d: "d \<noteq> []" and N: "N = length f + 95 + length d" "off_ok N"
    and ts: "stamp_ok (ts_epoch ts) (ts_counter ts)" and i: "i \<in> {15,16,17}"
  shows "crash_recovers (run_events (take i (append_log ts rs (length f) N d)) f) (rs @ [(length f, d)])"
proof -
  let ?es = "append_log ts rs (length f) N d"
  let ?pre = "take i ?es" and ?L = "length f" and ?new = "rs @ [(length f, d)]"
  let ?H = "events_hdr ?pre h" and ?G = "run_events ?pre f"
  note a = append_prefix [OF f rs d N ts refl [of ?pre]] and ok = file_okD [OF f]
  note fo = file_okD [OF a(5)]
  have split: "?es = ?pre @ drop i ?es" by simp
  have run: "run_events ?es f = run_events (drop i ?es) ?G"
    by (metis run_events_append append_take_drop_id)
  have hl: "h_limits h = (next_cell rs 391, last_cell 391 rs)" "h_num h = length rs" using f unfolding file_ok_def by blast+
  have nb: "list_all (\<lambda>e. \<not> is_body e) (drop i ?es)" using i by (auto simp: append_log_def Let_def)
  show ?thesis
  proof (cases "i = 17")
    case True
    then have "?pre = ?es" using append_log_length [of ts rs ?L N d] by simp
    then show ?thesis using a(5) by (simp add: crash_recovers_closed)
  next
    case False
    have i': "i = 15 \<or> i = 16" using i False by auto
    have H: "h_limits ?H = (next_cell ?new 391, last_cell 391 ?new)" "h_status ?H = ad_empty"
      "h_num ?H = length ?new \<or> h_num ?H + 1 = length ?new"
      using i' hl rs by (auto simp: append_log_def Let_def) (cases rs; simp)+
    have rest: "events_ok (drop i ?es) (length ?G)"
      using a(3,9) split by (metis events_ok_append)
    have G: "391 \<le> length ?G" using hdr_at_len [OF a(1)] .
    have "filter is_body (drop i ?es) = []" using nb by (simp add: filter_empty_conv list_all_iff)
    then have "drop 391 (run_events ?es f) = drop 391 ?G"
      using drop_run_body [OF rest G refl refl] run by simp
    from chain_body [OF this fo(16)] a(10) have ch: "chain ?G 0 ?new N" by simp
    have "length ?G = N"
      using length_run_events [OF G rest] events_len_header [OF nb] run a(10) by simp
    then have "linked ?G ?H ?new"
      using a(1) ch H(1) fo(17) N(2) by (simp add: linked_def)
    from recovers_ad_empty [OF this H(3)] H(2) a(1) show ?thesis
      by (intro crash_recoversI [of ?H]) auto
  qed
qed

section \<open>Crash safety of an append\<close>

text \<open>The contents of the file after each write that \<open>m\<close> does on \<open>c\<close>.\<close>

definition trace_of :: "file_container \<Rightarrow> string list" where
  "trace_of c = (case fc_stream c of Some s \<Rightarrow> st_trace s | None \<Rightarrow> [])"

definition files_written :: "'a fcm \<Rightarrow> file_container \<Rightarrow> string list" where
  "files_written m c = drop (length (trace_of c)) (trace_of (snd (m c)))"

lemma snaps_nth: "i < length es \<Longrightarrow> snaps f es ! i = run_events (take (Suc i) es) f"
  by (induction f es arbitrary: i rule: snaps.induct) (auto simp: nth_Cons' take_Cons' gr0_conv_Suc)

lemma length_snaps: "length (snaps f es) = length es"
  by (induction f es rule: snaps.induct) auto

lemma append_files_written:
  assumes c: "container c f rs" and rs: "rs \<noteq> []" and d: "d \<noteq> []" "length f + 95 + length d < 2 ^ 63"
  obtains h ts where "file_ok f h rs" "stamp_ok (ts_epoch ts) (ts_counter ts)"
    "files_written (add_data d (int (length f))) c = snaps f (append_log ts rs (length f) (length f + 95 + length d) d)"
proof -
  from c obtain p tr h where k: "c = fc_at c f p tr" "file_ok f h rs" "attached c h rs" by (rule containerE)
  define N where "N = length f + 95 + length d"
  have N: "off_ok N" using d(2) by (simp add: N_def)
  have k': "file_ok f h (rs @ [])" "attached c h (rs @ [])" using k by simp_all
  obtain c' p' where "add_data d (int (next_cell [] (length f))) (fc_at c f p tr) =
      (Inr (fi (last_cell 0 rs) (next_cell [] N) (length f)),
       fc_log c' (add_events (next_stamp c h) rs [] (length f) N d) p' f tr)"
    using add_data_run [OF k' d(1) N_def N, of p tr] by blast
  then have "files_written (add_data d (int (length f))) (fc_at c f p tr) =
      snaps f (append_log (next_stamp c h) rs (length f) N d)"
    using append_log_eq [OF rs] by (simp add: files_written_def trace_of_def)
  with k(1) have "files_written (add_data d (int (length f))) c = snaps f (append_log (next_stamp c h) rs (length f) N d)"
    by simp
  with that [OF k(2) next_stamp_ok(2) [OF k(2) attached_handle [OF k(3)]]] show ?thesis by (simp add: N_def)
qed

text \<open>C5: an append to a non-empty list survives a crash. The writes of \<open>add_data\<close> at the end of such a list
  are seventeen; whichever of them was the last one before the crash, except the
  fourteenth, the next process that opens the file recovers it to a container that holds
  the old list, or the old list and the new element.\<close>

theorem append_crash_safe:
  assumes "container c f rs" "rs \<noteq> []" "d \<noteq> []" "length f + 95 + length d < 2 ^ 63"
    and "i < length (files_written (add_data d (int (length f))) c)" "i \<noteq> 13" "handle_ok c2"
  shows "\<exists>c' f' rs'. initContainer (fc_at c2 (files_written (add_data d (int (length f))) c ! i) p []) = (Inr (), c') \<and>
    container c' f' rs' \<and> (rs' = rs \<or> rs' = rs @ [(length f, d)])"
proof -
  obtain h ts where f: "file_ok f h rs" and ts: "stamp_ok (ts_epoch ts) (ts_counter ts)"
    and w: "files_written (add_data d (int (length f))) c = snaps f (append_log ts rs (length f) (length f + 95 + length d) d)"
    using append_files_written [OF assms(1-4)] by blast
  let ?N = "length f + 95 + length d"
  have i: "i < 17" using assms(5) w by (simp add: length_snaps append_log_length)
  have N: "off_ok ?N" using assms(4) by simp
  have g: "snaps f (append_log ts rs (length f) ?N d) ! i = run_events (take (Suc i) (append_log ts rs (length f) ?N d)) f"
    using i by (simp add: snaps_nth append_log_length)
  have "Suc i \<in> {1,2,3,4,5,6} \<or> Suc i \<in> {7,8,9,10,11,12,13} \<or> Suc i \<in> {15,16,17}"
    using i assms(6) by (simp only: insert_iff empty_iff) presburger
  then have "crash_recovers (snaps f (append_log ts rs (length f) ?N d) ! i) rs \<or>
      crash_recovers (snaps f (append_log ts rs (length f) ?N d) ! i) (rs @ [(length f, d)])"
    unfolding g using crash_early [OF f assms(2,3) refl N ts] crash_middle [OF f assms(2,3) refl N ts]
      crash_late [OF f assms(2,3) refl N ts] by blast
  with assms(7) w show ?thesis unfolding crash_recovers_def by (metis (full_types))
qed

theorem append_crash_safe_witness:
  "\<exists>c' f' rs'. initContainer (fc_at (fc_new 2000 [] (\<lambda>_. None) (\<lambda>_. True) None)
      (files_written (add_data ''gamma'' 590) two_list ! 10) 0 []) = (Inr (), c') \<and> container c' f' rs' \<and>
    (rs' = [(391, ''alpha''), (491, ''beta'')] \<or> rs' = [(391, ''alpha''), (491, ''beta''), (590, ''gamma'')])"
proof -
  obtain f where f: "container two_list f [(391, ''alpha''), (491, ''beta'')]" "length f = 590" using two_list by blast
  obtain h ts where "files_written (add_data ''gamma'' (int (length f))) two_list =
      snaps f (append_log ts [(391, ''alpha''), (491, ''beta'')] (length f) (length f + 95 + length ''gamma'') ''gamma'')"
    using append_files_written [OF f(1), of "''gamma''"] f(2) by auto
  then have "10 < length (files_written (add_data ''gamma'' 590) two_list)"
    using f(2) by (simp add: length_snaps append_log_length)
  moreover have "handle_ok (fc_new 2000 [] (\<lambda>_. None) (\<lambda>_. True) None)"
    using new_ready [of 2000 "[]" "\<lambda>_. None" "\<lambda>_. True"] by (simp add: ready_def)
  ultimately show ?thesis
    using append_crash_safe [OF f(1), of "''gamma''" 10 _ 0] f(2) by auto
qed

end
