(* ===== verification/File_List.thy ===== *)
theory File_List
  imports File_Container
begin

text \<open>
  The list template of \<^verbatim>\<open>org.glite.wms.jobsubmission/src/common\<close> that the job
  controller and the log monitor keep their requests and job identifiers in:
  \<^verbatim>\<open>filelist_iterator.{h,cpp}\<close> (the iterators \<^verbatim>\<open>_base_iterator_t\<close> and \<^verbatim>\<open>FLIterator\<close>) and
  \<^verbatim>\<open>filelist.{h,cpp}\<close> (the sequence \<^verbatim>\<open>_file_sequence_t\<close> and the template \<^verbatim>\<open>FileList\<close>), on
  top of the file container.

  An iterator points to a container: the pointer is an address here, absent for the
  null pointer, and the operations of an iterator run on the container it points to.
  A status code that is not \<^verbatim>\<open>all_good\<close> leaves these classes as the exception
  \<^verbatim>\<open>FileContainerError\<close> after the file has been copied aside; it is the same \<open>Inl (Code st)\<close>
  as in the container. The use of a null pointer is \<open>Inl Null_stream\<close>.

  Not modelled: the reverse iterators, which are \<^verbatim>\<open>std::reverse_iterator\<close> over these.
\<close>

section \<open>Exceptions\<close>

definition throwErrorAndDumpFile :: "iostatus \<Rightarrow> 'a fcm" where
  "throwErrorAndDumpFile st = (\<lambda>c. case dumpFile c of
       (Inl e, c') \<Rightarrow> (Inl e, c')
     | (Inr _, c') \<Rightarrow> (Inl (Code st), c'))"

text \<open>\<open>status = m; if( status != all_good ) throwErrorAndDumpFile( ..., status, ... );\<close>\<close>

definition throwing :: "'a fcm \<Rightarrow> 'a fcm" where
  "throwing m = (\<lambda>c. case m c of
       (Inl (Code st), c') \<Rightarrow> throwErrorAndDumpFile st c'
     | r \<Rightarrow> r)"

section \<open>\<open>_base_iterator_t\<close>\<close>

record base_iterator =
  bi_new :: bool
  bi_good :: bool
  bi_container :: "nat option"
  bi_iterator :: FileIterator
  bi_data :: string

definition base_iterator_null :: base_iterator where
  "base_iterator_null = \<lparr>bi_new = True, bi_good = False, bi_container = None,
     bi_iterator = FileIterator_new 0 0 0, bi_data = []\<rparr>"

definition base_iterator_on :: "nat \<Rightarrow> base_iterator" where
  "base_iterator_on addr = \<lparr>bi_new = True, bi_good = False, bi_container = Some addr,
     bi_iterator = FileIterator_new 0 0 0, bi_data = []\<rparr>"

text \<open>The copy constructor and \<open>copy\<close>.\<close>

definition bi_copy :: "base_iterator \<Rightarrow> base_iterator" where
  "bi_copy it = it\<lparr>bi_new := True\<rparr>"

definition bi_position :: "base_iterator \<Rightarrow> int" where
  "bi_position it = fi_current (bi_iterator it)"

definition bi_is_equal :: "base_iterator \<Rightarrow> base_iterator \<Rightarrow> bool" where
  "bi_is_equal a b \<longleftrightarrow> bi_container a = bi_container b \<and> bi_position a = bi_position b"

definition bi_is_different :: "base_iterator \<Rightarrow> base_iterator \<Rightarrow> bool" where
  "bi_is_different a b \<longleftrightarrow> bi_container a \<noteq> bi_container b \<or> bi_position a \<noteq> bi_position b"

definition null_deref :: "'a fcm" where
  "null_deref = (\<lambda>c. (Inl Null_stream, c))"

definition read_string :: "bool \<Rightarrow> base_iterator \<Rightarrow> base_iterator fcm" where
  "read_string check it =
     (if bi_container it = None then fc_return (it\<lparr>bi_good := False\<rparr>)
      else fc_bind (throwing read_end) (\<lambda>end.
        let it1 = it\<lparr>bi_good := True, bi_new := True\<rparr> in
        if \<not> check \<and> bi_position it = end then fc_return (it1\<lparr>bi_good := False, bi_data := []\<rparr>)
        else fc_bind (throwing (read_data (bi_position it) (bi_iterator it) False)) (\<lambda>(data, iter).
          fc_return (it1\<lparr>bi_data := data, bi_iterator := iter\<rparr>))))"

text \<open>\<open>_base_iterator_t( FileIterator &fi, _file_sequence_t *sequence )\<close>.\<close>

definition base_iterator_at :: "FileIterator \<Rightarrow> nat \<Rightarrow> base_iterator fcm" where
  "base_iterator_at iter addr = read_string False ((base_iterator_on addr)\<lparr>bi_iterator := iter\<rparr>)"

definition bi_increment :: "base_iterator \<Rightarrow> base_iterator fcm" where
  "bi_increment it =
     (if bi_container it = None then null_deref
      else fc_bind (throwing (increment_iterator (bi_iterator it))) (\<lambda>iter.
        fc_return (it\<lparr>bi_iterator := iter\<rparr>)))"

definition bi_decrement :: "base_iterator \<Rightarrow> base_iterator fcm" where
  "bi_decrement it =
     (if bi_container it = None then null_deref
      else fc_bind (throwing (decrement_iterator (bi_iterator it))) (\<lambda>iter.
        fc_return (it\<lparr>bi_iterator := iter\<rparr>)))"

definition check_status :: "base_iterator \<Rightarrow> unit fcm" where
  "check_status it =
     (if bi_good it then fc_return ()
      else if bi_container it = None then null_deref
      else throwErrorAndDumpFile unavailable_position)"

section \<open>Converters and \<open>FLIterator\<close>\<close>

text \<open>A converter prints an element and reads it back; either way it may throw. The
  one for strings is never called: the template is specialised there.\<close>

record 'a converter =
  to_string :: "'a \<Rightarrow> string option"
  of_string :: "string \<Rightarrow> 'a option"

definition convert_to :: "'a converter \<Rightarrow> 'a \<Rightarrow> string fcm" where
  "convert_to cv v = (case to_string cv v of
       Some s \<Rightarrow> fc_return s | None \<Rightarrow> fc_fail cannot_convert_to_string)"

definition convert_from :: "'a converter \<Rightarrow> string \<Rightarrow> 'a fcm" where
  "convert_from cv s = (case of_string cv s of
       Some v \<Rightarrow> fc_return v | None \<Rightarrow> fc_fail cannot_convert_from_string)"

record 'a fl_iterator =
  fli_base :: base_iterator
  fli_object :: "'a option"

text \<open>\<open>FLIterator( const _base_iterator_t & )\<close>: copy and read.\<close>

definition FLIterator_of :: "base_iterator \<Rightarrow> 'a fl_iterator fcm" where
  "FLIterator_of bi = fc_bind (read_string False (bi_copy bi)) (\<lambda>b.
     fc_return \<lparr>fli_base = b, fli_object = None\<rparr>)"

definition FLIterator_copy :: "'a fl_iterator \<Rightarrow> 'a fl_iterator" where
  "FLIterator_copy it = \<lparr>fli_base = bi_copy (fli_base it), fli_object = None\<rparr>"

text \<open>\<open>operator=\<close>.\<close>

definition fli_assign :: "'a fl_iterator \<Rightarrow> 'a fl_iterator" where
  "fli_assign that = \<lparr>fli_base = bi_copy (fli_base that), fli_object = fli_object that\<rparr>"

text \<open>\<open>operator*\<close> converts once per position and keeps the object.\<close>

definition fli_deref :: "'a converter \<Rightarrow> 'a fl_iterator \<Rightarrow> ('a \<times> 'a fl_iterator) fcm" where
  "fli_deref cv it =
     fc_then (check_status (fli_base it))
       (if bi_new (fli_base it) then
          fc_bind (convert_from cv (bi_data (fli_base it))) (\<lambda>v.
            fc_return (v, \<lparr>fli_base = (fli_base it)\<lparr>bi_new := False\<rparr>, fli_object = Some v\<rparr>))
        else case fli_object it of
          Some v \<Rightarrow> fc_return (v, it)
        | None \<Rightarrow> null_deref)"

definition fli_deref_string :: "string fl_iterator \<Rightarrow> string fcm" where
  "fli_deref_string it = fc_then (check_status (fli_base it)) (fc_return (bi_data (fli_base it)))"

definition fli_next_step :: "'a fl_iterator \<Rightarrow> 'a fl_iterator fcm" where
  "fli_next_step it =
     fc_bind (bi_increment (fli_base it)) (\<lambda>b.
     fc_bind (read_string False b) (\<lambda>b. fc_return (it\<lparr>fli_base := b\<rparr>)))"

definition fli_prev_step :: "'a fl_iterator \<Rightarrow> 'a fl_iterator fcm" where
  "fli_prev_step it =
     fc_bind (bi_decrement (fli_base it)) (\<lambda>b.
     fc_bind (read_string False b) (\<lambda>b. fc_return (it\<lparr>fli_base := b\<rparr>)))"

definition fli_reset :: "'a fl_iterator \<Rightarrow> 'a fl_iterator" where
  "fli_reset it = it\<lparr>fli_base := (fli_base it)\<lparr>bi_good := False\<rparr>\<rparr>"

definition fli_equal :: "'a fl_iterator \<Rightarrow> 'a fl_iterator \<Rightarrow> bool" where
  "fli_equal a b \<longleftrightarrow> bi_is_equal (fli_base a) (fli_base b)"

section \<open>\<open>_file_sequence_t\<close>\<close>

record file_sequence =
  fs_address :: nat
  fs_container :: file_container
  fs_last :: base_iterator

type_synonym 'a fsm = "file_sequence \<Rightarrow> (fc_failure + 'a) \<times> file_sequence"

definition fs_return :: "'a \<Rightarrow> 'a fsm" where
  "fs_return v = (\<lambda>s. (Inr v, s))"

definition fs_bind :: "'a fsm \<Rightarrow> ('a \<Rightarrow> 'b fsm) \<Rightarrow> 'b fsm" where
  "fs_bind m k = (\<lambda>s. case m s of (Inl e, s') \<Rightarrow> (Inl e, s') | (Inr v, s') \<Rightarrow> k v s')"

definition on_container :: "'a fcm \<Rightarrow> 'a fsm" where
  "on_container m = (\<lambda>s. let (r, c) = m (fs_container s) in (r, s\<lparr>fs_container := c\<rparr>))"

text \<open>\<open>this->fs_last.bi_iterator = iter\<close>, and the reference the method returns.\<close>

definition set_last_iter :: "FileIterator \<Rightarrow> base_iterator fsm" where
  "set_last_iter iter = (\<lambda>s. let b = (fs_last s)\<lparr>bi_iterator := iter\<rparr> in (Inr b, s\<lparr>fs_last := b\<rparr>))"

definition set_last :: "base_iterator \<Rightarrow> base_iterator fsm" where
  "set_last b = (\<lambda>s. (Inr b, s\<lparr>fs_last := b\<rparr>))"

text \<open>\<open>status = m( ..., this->fs_last.bi_iterator )\<close>: the method gets the old iterator.\<close>

definition with_last :: "(FileIterator \<Rightarrow> FileIterator fcm) \<Rightarrow> base_iterator fsm" where
  "with_last m = (\<lambda>s. fs_bind (on_container (throwing (m (bi_iterator (fs_last s))))) set_last_iter s)"

definition insertData :: "base_iterator \<Rightarrow> string \<Rightarrow> base_iterator fsm" where
  "insertData position val = with_last (\<lambda>_. add_data val (bi_position position))"

definition erasePointer :: "base_iterator \<Rightarrow> base_iterator fsm" where
  "erasePointer position =
     fs_bind (on_container (throwing read_end)) (\<lambda>_.
     fs_bind (on_container (throwing (get_iterator (bi_position position) (FileIterator_new 0 0 0)))) (\<lambda>iter.
     fs_bind (on_container (throwing (increment_iterator iter))) (\<lambda>iter.
     fs_bind (on_container (throwing (remove_data (bi_position position)))) (\<lambda>_.
     fs_bind (on_container (throwing read_size)) (\<lambda>sz.
     if sz \<noteq> 0 then with_last (get_iterator (fi_current iter))
     else fs_bind (on_container (throwing read_end)) (\<lambda>end. with_last (get_iterator end)))))))"

text \<open>The loops break at the first bad status, which is thrown after the loop.\<close>

partial_function (option) eraseInterval_loop ::
    "int \<Rightarrow> FileIterator \<Rightarrow> file_container \<Rightarrow> ((fc_failure + FileIterator) \<times> file_container) option"
where
  "eraseInterval_loop stop iter c =
     (let r = fc_bind (get_iterator (fi_current iter) iter) (\<lambda>iter.
              fc_then (remove_data (fi_current iter))
             (fc_bind (increment_iterator iter) (\<lambda>iter.
              fc_bind read_end (\<lambda>end. fc_return (iter, end))))) c
      in if isl (fst r) then Some (Inl (projl (fst r)), snd r)
         else let (iter', end) = projr (fst r)
              in if fi_current iter' \<noteq> stop \<and> fi_current iter' \<noteq> end
                 then eraseInterval_loop stop iter' (snd r)
                 else Some (Inr iter', snd r))"

declare eraseInterval_loop.simps [code]

definition eraseInterval :: "base_iterator \<Rightarrow> base_iterator \<Rightarrow> base_iterator fsm" where
  "eraseInterval first stop =
     fs_bind (on_container (throwing (\<lambda>c.
       case eraseInterval_loop (bi_position stop) (bi_iterator first) c of
         None \<Rightarrow> (Inl Diverges, c) | Some r \<Rightarrow> r))) set_last_iter"

partial_function (option) removeData_loop ::
    "string \<Rightarrow> FileIterator \<Rightarrow> file_container \<Rightarrow> ((fc_failure + unit) \<times> file_container) option"
where
  "removeData_loop val iter c =
     (let r = fc_bind (read_data (fi_current iter) iter False) (\<lambda>(data, iter).
              fc_then (fc_when (data = val) (remove_data (fi_current iter)))
             (fc_bind (increment_iterator iter) (\<lambda>iter.
              fc_bind read_end (\<lambda>end. fc_return (iter, end))))) c
      in if isl (fst r) then Some (Inl (projl (fst r)), snd r)
         else let (iter', end) = projr (fst r)
              in if fi_current iter' \<noteq> end then removeData_loop val iter' (snd r)
                 else Some (Inr (), snd r))"

declare removeData_loop.simps [code]

definition removeData :: "string \<Rightarrow> unit fsm" where
  "removeData val =
     on_container (throwing
       (fc_bind read_begin (\<lambda>begin.
        fc_bind (get_iterator begin (FileIterator_new 0 0 0)) (\<lambda>iter.
        \<lambda>c. case removeData_loop val iter c of None \<Rightarrow> (Inl Diverges, c) | Some r \<Rightarrow> r))))"

definition getBegin :: "base_iterator fsm" where
  "getBegin =
     fs_bind (on_container (throwing read_begin)) (\<lambda>begin.
     fs_bind (on_container (throwing read_end)) (\<lambda>end.
     fs_bind (with_last (get_iterator begin)) (\<lambda>b.
       set_last (b\<lparr>bi_good := (begin \<noteq> end)\<rparr>))))"

definition getEnd :: "base_iterator fsm" where
  "getEnd =
     fs_bind (on_container (throwing read_end)) (\<lambda>end.
     fs_bind (with_last (get_iterator end)) (\<lambda>b.
       set_last (b\<lparr>bi_good := False\<rparr>)))"

definition getStart :: "base_iterator fsm" where
  "getStart =
     fs_bind (on_container (throwing read_end)) (\<lambda>end.
     fs_bind (with_last (get_iterator 0)) (\<lambda>b.
       set_last (b\<lparr>bi_good := (0 \<noteq> end)\<rparr>)))"

definition getLast :: "base_iterator fsm" where
  "getLast =
     fs_bind (on_container (throwing read_end)) (\<lambda>end.
     fs_bind (on_container (throwing read_last)) (\<lambda>last.
     fs_bind (with_last (get_iterator last)) (\<lambda>b.
       set_last (b\<lparr>bi_good := (last \<noteq> end)\<rparr>))))"

definition fs_clear :: "unit fsm" where
  "fs_clear = on_container (throwing fc_truncate)"

definition fs_sync :: "unit fsm" where
  "fs_sync = on_container (throwing fc_sync)"

definition fs_open :: "string \<Rightarrow> unit fsm" where
  "fs_open filename = on_container (throwing (\<lambda>c. fc_open filename (fc_close c)))"

definition fs_modified :: "bool fsm" where
  "fs_modified = on_container (throwing fc_modified)"

definition fs_empty_list :: "bool fsm" where
  "fs_empty_list =
     fs_bind (on_container (throwing read_begin)) (\<lambda>begin.
     fs_bind (on_container (throwing read_end)) (\<lambda>end. fs_return (begin = end)))"

definition fs_size :: "nat fsm" where
  "fs_size = on_container (throwing read_size)"

definition fs_compact :: "unit fsm" where
  "fs_compact = on_container (throwing compact_data)"

text \<open>The constructors: without a file, and on a file, where a failure to open it is
  thrown without a copy.\<close>

definition file_sequence_new :: "nat \<Rightarrow> file_container \<Rightarrow> file_sequence" where
  "file_sequence_new addr c = \<lparr>fs_address = addr, fs_container = c, fs_last = base_iterator_on addr\<rparr>"

definition file_sequence_open :: "nat \<Rightarrow> file_container \<Rightarrow> string \<Rightarrow> (fc_failure + unit) \<times> file_sequence" where
  "file_sequence_open addr c filename = on_container (fc_open filename) (file_sequence_new addr c)"

text \<open>\<open>swapContainer\<close>: the two lists are read into memory, cleared, and written back
  crosswise. The caller passes two different lists, or one list twice.\<close>

partial_function (option) collect_loop ::
    "base_iterator \<Rightarrow> base_iterator \<Rightarrow> string list \<Rightarrow> file_container \<Rightarrow>
     ((fc_failure + string list) \<times> file_container) option"
where
  "collect_loop it end acc c =
     (if bi_is_different it end then
        let r = fc_bind (read_string True it) (\<lambda>it.
                fc_bind (bi_increment it) (\<lambda>it'. fc_return (bi_data it, it'))) c
        in if isl (fst r) then Some (Inl (projl (fst r)), snd r)
           else collect_loop (snd (projr (fst r))) end (acc @ [fst (projr (fst r))]) (snd r)
      else Some (Inr acc, c))"

declare collect_loop.simps [code]

definition collect :: "string list fsm" where
  "collect =
     fs_bind getEnd (\<lambda>end. fs_bind getBegin (\<lambda>it.
       on_container (\<lambda>c. case collect_loop it end [] c of None \<Rightarrow> (Inl Diverges, c) | Some r \<Rightarrow> r)))"

fun insert_all :: "string list \<Rightarrow> unit fsm" where
  "insert_all [] = fs_return ()"
| "insert_all (v # vs) = fs_bind getEnd (\<lambda>e. fs_bind (insertData e v) (\<lambda>_. insert_all vs))"

definition on_fst :: "'a fsm \<Rightarrow> file_sequence \<times> file_sequence \<Rightarrow> (fc_failure + 'a) \<times> file_sequence \<times> file_sequence" where
  "on_fst m = (\<lambda>(a, b). let (r, a') = m a in (r, a', b))"

definition on_snd :: "'a fsm \<Rightarrow> file_sequence \<times> file_sequence \<Rightarrow> (fc_failure + 'a) \<times> file_sequence \<times> file_sequence" where
  "on_snd m = (\<lambda>(a, b). let (r, b') = m b in (r, a, b'))"

definition then2 where
  "then2 m k = (\<lambda>s. case m s of (Inl e, s') \<Rightarrow> (Inl e, s') | (Inr v, s') \<Rightarrow> k v s')"

definition swapContainer ::
    "file_sequence \<times> file_sequence \<Rightarrow> (fc_failure + unit) \<times> file_sequence \<times> file_sequence" where
  "swapContainer =
     then2 (on_fst collect) (\<lambda>me. then2 (on_snd collect) (\<lambda>you.
     then2 (on_fst fs_clear) (\<lambda>_. then2 (on_snd fs_clear) (\<lambda>_.
     then2 (on_snd (insert_all me)) (\<lambda>_. on_fst (insert_all you))))))"

section \<open>The template \<open>FileList\<close>\<close>

definition fl_begin :: "'a fl_iterator fsm" where
  "fl_begin = fs_bind getBegin (\<lambda>b. on_container (FLIterator_of b))"

definition fl_end :: "'a fl_iterator fsm" where
  "fl_end = fs_bind getEnd (\<lambda>b. on_container (FLIterator_of b))"

definition fl_front :: "'a converter \<Rightarrow> 'a fsm" where
  "fl_front cv = fs_bind fl_begin (\<lambda>it. fs_bind (on_container (fli_deref cv it)) (\<lambda>(v, _). fs_return v))"

definition fl_back :: "'a converter \<Rightarrow> 'a fsm" where
  "fl_back cv =
     fs_bind fl_end (\<lambda>it. fs_bind (on_container (fli_prev_step it)) (\<lambda>it.
     fs_bind (on_container (fli_deref cv it)) (\<lambda>(v, _). fs_return v)))"

definition push_front :: "'a converter \<Rightarrow> 'a \<Rightarrow> unit fsm" where
  "push_front cv v =
     fs_bind getBegin (\<lambda>b. fs_bind (on_container (convert_to cv v)) (\<lambda>s.
     fs_bind (insertData b s) (\<lambda>_. fs_return ())))"

definition push_back :: "'a converter \<Rightarrow> 'a \<Rightarrow> unit fsm" where
  "push_back cv v =
     fs_bind getEnd (\<lambda>b. fs_bind (on_container (convert_to cv v)) (\<lambda>s.
     fs_bind (insertData b s) (\<lambda>_. fs_return ())))"

definition pop_front :: "unit fsm" where
  "pop_front = fs_bind getBegin (\<lambda>b. fs_bind (erasePointer b) (\<lambda>_. fs_return ()))"

text \<open>\<open>this->getEnd().decrement()\<close> moves \<open>fs_last\<close> itself.\<close>

definition pop_back :: "unit fsm" where
  "pop_back =
     fs_bind getEnd (\<lambda>b. fs_bind (on_container (bi_decrement b)) (\<lambda>b.
     fs_bind (set_last b) (\<lambda>b. fs_bind (erasePointer b) (\<lambda>_. fs_return ()))))"

fun insert_range_at :: "'a converter \<Rightarrow> base_iterator \<Rightarrow> 'a list \<Rightarrow> unit fsm" where
  "insert_range_at cv position [] = fs_return ()"
| "insert_range_at cv position (v # vs) =
     fs_bind (on_container (convert_to cv v)) (\<lambda>s.
     fs_bind (insertData position s) (\<lambda>_. insert_range_at cv position vs))"

fun insert_range_end :: "'a converter \<Rightarrow> 'a list \<Rightarrow> unit fsm" where
  "insert_range_end cv [] = fs_return ()"
| "insert_range_end cv (v # vs) = fs_bind (push_back cv v) (\<lambda>_. insert_range_end cv vs)"

definition insert_range :: "'a converter \<Rightarrow> 'a fl_iterator \<Rightarrow> 'a list \<Rightarrow> unit fsm" where
  "insert_range cv position vs =
     fs_bind getBegin (\<lambda>_. fs_bind getEnd (\<lambda>end.
       if bi_is_equal (fli_base position) end then insert_range_end cv vs
       else insert_range_at cv (fli_base position) vs))"

definition fl_insert :: "'a converter \<Rightarrow> 'a fl_iterator \<Rightarrow> 'a \<Rightarrow> 'a fl_iterator fsm" where
  "fl_insert cv position v =
     fs_bind (on_container (convert_to cv v)) (\<lambda>s.
     fs_bind (insertData (fli_base position) s) (\<lambda>b. on_container (FLIterator_of b)))"

definition fl_erase :: "'a fl_iterator \<Rightarrow> 'a fl_iterator fsm" where
  "fl_erase position =
     fs_bind (erasePointer (fli_base position)) (\<lambda>b. on_container (FLIterator_of b))"

definition fl_erase_range :: "'a fl_iterator \<Rightarrow> 'a fl_iterator \<Rightarrow> 'a fl_iterator fsm" where
  "fl_erase_range first stop =
     fs_bind (eraseInterval (fli_base first) (fli_base stop)) (\<lambda>b. on_container (FLIterator_of b))"

definition fl_remove :: "'a converter \<Rightarrow> 'a \<Rightarrow> unit fsm" where
  "fl_remove cv v = fs_bind (on_container (convert_to cv v)) removeData"

end
