(* ===== verification/File_List_Ops.thy ===== *)
theory File_List_Ops
  imports File_List File_Container_Crash
begin

text \<open>
  The methods of the file list on a list whose file holds the cells \<open>rs\<close>. The proofs run
  the methods with weakest preconditions: \<open>wp m P s\<close> says that \<open>m\<close> started in \<open>s\<close> returns
  (no exception, no endless loop) with a value and a state that satisfy \<open>P\<close>.
\<close>

section \<open>Total correctness of computations\<close>

definition wp :: "('s \<Rightarrow> ('e + 'a) \<times> 's) \<Rightarrow> ('a \<Rightarrow> 's \<Rightarrow> bool) \<Rightarrow> 's \<Rightarrow> bool" where
  "wp m P s \<longleftrightarrow> (\<exists>v s'. m s = (Inr v, s') \<and> P v s')"

named_theorems wp_simps \<open>weakest preconditions of the combinators\<close>

lemma wpI: "m s = (Inr v, s') \<Longrightarrow> P v s' \<Longrightarrow> wp m P s"
  by (auto simp: wp_def)

lemma wp_mono: "wp m P s \<Longrightarrow> (\<And>v s'. P v s' \<Longrightarrow> Q v s') \<Longrightarrow> wp m Q s"
  by (auto simp: wp_def)

lemma wp_fc [wp_simps]:
  "wp (fc_return v) P c = P v c"
  "wp (fc_bind m k) P c = wp m (\<lambda>v. wp (k v) P) c"
  "wp (fc_then n l) P c = wp n (\<lambda>_. wp l P) c"
  "wp (fc_when b n) Q c = (if b then wp n Q c else Q () c)"
  "wp (throwing l) P c = wp l P c"
  by (auto simp: wp_def fc_return_def fc_bind_def fc_then_def fc_when_def throwing_def
      throwErrorAndDumpFile_def split: prod.splits sum.splits fc_failure.splits)

lemma wp_fs [wp_simps]:
  "wp (fs_return v) P s = P v s"
  "wp (fs_bind m k) P s = wp m (\<lambda>v. wp (k v) P) s"
  "wp (set_last b) Q s = Q b (s\<lparr>fs_last := b\<rparr>)"
  by (auto simp: wp_def fs_return_def fs_bind_def set_last_def split: prod.splits sum.splits)

lemma wp_on_container: "wp m (\<lambda>v c. P v (s\<lparr>fs_container := c\<rparr>)) (fs_container s) \<Longrightarrow> wp (on_container m) P s"
  by (auto simp: wp_def on_container_def)

lemma wp_with_last:
  "wp (f (bi_iterator (fs_last s)))
     (\<lambda>i c. P ((fs_last s)\<lparr>bi_iterator := i\<rparr>) (s\<lparr>fs_container := c, fs_last := (fs_last s)\<lparr>bi_iterator := i\<rparr>\<rparr>))
     (fs_container s) \<Longrightarrow> wp (with_last f) P s"
  by (auto simp: wp_def with_last_def fs_bind_def on_container_def set_last_iter_def throwing_def Let_def)

section \<open>The container\<close>

text \<open>\<open>list_at c0 f rs c\<close>: the container, which started as \<open>c0\<close>, holds the cells \<open>rs\<close> in the
  file \<open>f\<close>.\<close>

definition list_at :: "file_container \<Rightarrow> string \<Rightarrow> cells \<Rightarrow> file_container \<Rightarrow> bool" where
  "list_at c0 f rs c \<longleftrightarrow> container c f rs \<and> same_env c0 c"

lemma same_env_trans: "same_env a b \<Longrightarrow> same_env b c \<Longrightarrow> same_env a c"
  by (simp add: same_env_def)

lemma same_env_at [simp]: "same_env (fc_at c f p tr) d = same_env c d" "same_env c (fc_at d f p tr) = same_env c d"
  by (simp_all add: same_env_def)

lemma list_atE:
  assumes "list_at c0 f rs c"
  obtains p tr h where "c = fc_at c f p tr" "file_ok f h rs" "attached c h rs" "same_env c0 c"
  using assms containerE unfolding list_at_def by metis

lemma list_atI: "file_ok f h rs \<Longrightarrow> fresh c h rs \<Longrightarrow> same_env c0 c \<Longrightarrow> list_at c0 f rs (fc_at c f p tr)"
  by (simp add: list_at_def containerI)

text \<open>How a lemma about \<open>fc_at\<close> becomes a rule for \<open>wp\<close>.\<close>

lemma list_at_wp:
  assumes "list_at c0 f rs c"
    and "\<And>h p tr. file_ok f h rs \<Longrightarrow> attached c h rs \<Longrightarrow>
      \<exists>c' p'. m (fc_at c f p tr) = (Inr v, fc_at c' f p' tr) \<and> fresh c' h rs \<and> same_env c c'"
    and "\<And>c'. list_at c0 f rs c' \<Longrightarrow> P v c'"
  shows "wp m P c"
proof -
  from assms(1) obtain p tr h where c: "c = fc_at c f p tr" "file_ok f h rs" "attached c h rs" "same_env c0 c"
    by (rule list_atE)
  from assms(2) [OF c(2,3), of p tr] obtain c' p' where
    r: "m c = (Inr v, fc_at c' f p' tr)" "fresh c' h rs" "same_env c c'"
    unfolding c(1) [symmetric] by blast
  from c(2) r(2) same_env_trans [OF c(4) r(3)] have "list_at c0 f rs (fc_at c' f p' tr)" by (rule list_atI)
  with r(1) assms(3) show ?thesis by (auto intro: wpI)
qed

lemma prepare_wp:
  assumes "list_at c0 f rs c"
    and "\<And>c' h p tr. file_ok f h rs \<Longrightarrow> fresh c' h rs \<Longrightarrow> same_env c0 c' \<Longrightarrow> P () (fc_at c' f p tr)"
  shows "wp (prepare True) P c"
proof -
  from assms(1) obtain p tr h where c: "c = fc_at c f p tr" "file_ok f h rs" "attached c h rs" "same_env c0 c"
    by (rule list_atE)
  obtain c1 p1 where "prepare True (fc_at c f p tr) = (Inr (), fc_at c1 f p1 tr)" "fresh c1 h rs" "same_env c c1"
    using prepare_ok [OF c(2,3), of True p tr] by blast
  then show ?thesis
    using c(1) assms(2) [OF c(2), of c1 p1 tr] same_env_trans [OF c(4)] by (auto intro: wpI)
qed

lemma read_begin_wp:
  assumes "list_at c0 f rs c" "\<And>c'. list_at c0 f rs c' \<Longrightarrow> P (int (pos_of rs (length f) 0)) c'"
  shows "wp read_begin P c"
  unfolding read_begin_def wp_simps
proof (rule prepare_wp [OF assms(1)])
  fix c' h p tr assume a: "file_ok f h rs" "fresh c' h rs" "same_env c0 c'"
  then have "fc_getBegin c' = int (pos_of rs (length f) 0)"
    by (auto simp: fresh_def synced_def fc_getBegin_def first_last_pos [OF a(1)])
  with assms(2) [OF list_atI [OF a]] show "wp (fc_get fc_getBegin) P (fc_at c' f p tr)"
    by (simp add: wp_def fc_get_def fc_getBegin_def)
qed

lemma read_last_wp:
  assumes "list_at c0 f rs c" "\<And>c'. list_at c0 f rs c' \<Longrightarrow> P (int (pos_of rs (length f) (length rs - 1))) c'"
  shows "wp read_last P c"
  unfolding read_last_def wp_simps
proof (rule prepare_wp [OF assms(1)])
  fix c' h p tr assume a: "file_ok f h rs" "fresh c' h rs" "same_env c0 c'"
  then have "fi_next (fc_limits c') = int (pos_of rs (length f) (length rs - 1))"
    by (auto simp: fresh_def synced_def first_last_pos [OF a(1)])
  with assms(2) [OF list_atI [OF a]] show "wp (fc_get (\<lambda>c. fi_next (fc_limits c))) P (fc_at c' f p tr)"
    by (simp add: wp_def fc_get_def)
qed

lemma read_end_wp:
  assumes "list_at c0 f rs c" "\<And>c'. list_at c0 f rs c' \<Longrightarrow> P (int (length f)) c'"
  shows "wp read_end P c"
  unfolding read_end_def wp_simps
proof (rule prepare_wp [OF assms(1)])
  fix c' h p tr assume a: "file_ok f h rs" "fresh c' h rs" "same_env c0 c'"
  from assms(2) [OF list_atI [OF a]] show "wp fc_getEnd P (fc_at c' f p tr)" by (simp add: wp_def)
qed

lemma get_iterator_wp:
  assumes "list_at c0 f rs c" "i \<le> length rs" "fi_good it"
    "\<And>c'. list_at c0 f rs c' \<Longrightarrow> P (iter_of rs (length f) i) c'"
  shows "wp (get_iterator (int (pos_of rs (length f) i)) it) P c"
  unfolding get_iterator_def wp_simps
proof (rule prepare_wp [OF assms(1)])
  fix c' h p tr assume a: "file_ok f h rs" "fresh c' h rs" "same_env c0 c'"
  from readIterator_nth [OF a(1) assms(2,3)] assms(4) [OF list_atI [OF a]]
  show "wp (readIterator (int (pos_of rs (length f) i)) it False) P (fc_at c' f p tr)"
    by (metis (no_types, lifting) wpI)
qed

lemma pos_of_length: "pos_of rs L (length rs) = L"
  by (simp add: pos_of_simps)

lemma get_iterator_end_wp:
  assumes "list_at c0 f rs c" "fi_good it" "\<And>c'. list_at c0 f rs c' \<Longrightarrow> P (iter_of rs (length f) (length rs)) c'"
  shows "wp (get_iterator (int (length f)) it) P c"
  using get_iterator_wp [OF assms(1) order_refl [of "length rs"] assms(2), of P] assms(3) by (simp add: pos_of_length)

lemma read_size_wp:
  assumes "list_at c0 f rs c" "\<And>c'. list_at c0 f rs c' \<Longrightarrow> P (length rs) c'"
  shows "wp read_size P c"
  by (rule list_at_wp [OF assms(1)]) (use read_size_ok assms(2) in blast)+

lemma increment_wp:
  assumes "list_at c0 f rs c" "i < length rs" "\<And>c'. list_at c0 f rs c' \<Longrightarrow> P (iter_of rs (length f) (Suc i)) c'"
  shows "wp (increment_iterator (iter_of rs (length f) i)) P c"
  by (rule list_at_wp [OF assms(1)]) (use increment_ok assms(2,3) in blast)+

lemma decrement_wp:
  assumes "list_at c0 f rs c" "i < length rs" "\<And>c'. list_at c0 f rs c' \<Longrightarrow> P (iter_of rs (length f) i) c'"
  shows "wp (decrement_iterator (iter_of rs (length f) (Suc i))) P c"
  by (rule list_at_wp [OF assms(1)]) (use decrement_ok assms(2,3) in blast)+

lemma read_data_wp:
  assumes "list_at c0 f rs c" "i < length rs"
    "\<And>c'. list_at c0 f rs c' \<Longrightarrow> P (snd (rs ! i), iter_of rs (length f) i) c'"
  shows "wp (read_data (int (pos_of rs (length f) i)) it False) P c"
  by (rule list_at_wp [OF assms(1)]) (use read_data_ok assms(2,3) in blast)+

definition fits :: "string \<Rightarrow> nat \<Rightarrow> bool" where
  "fits d L \<longleftrightarrow> d \<noteq> [] \<and> L + 95 + length d < 2 ^ 63"

lemma add_data_wp:
  assumes "list_at c0 f (xs @ ys) c" "fits d (length f)"
    and "\<And>c' f'. list_at c0 f' (xs @ (length f, d) # ys) c' \<Longrightarrow> length f' = length f + 95 + length d \<Longrightarrow>
       P (iter_of (xs @ (length f, d) # ys) (length f') (length xs)) c'"
  shows "wp (add_data d (int (pos_of (xs @ ys) (length f) (length xs)))) P c"
proof -
  from add_data_container [of c f xs ys d] assms(1,2) obtain c' f' where
    "add_data d (int (next_cell ys (length f))) c = (Inr (fi (last_cell 0 xs) (next_cell ys (length f')) (length f)), c')"
    "container c' f' (xs @ (length f, d) # ys)" "length f' = length f + 95 + length d" "same_env c c'"
    by (auto simp: list_at_def fits_def)
  with assms(1) assms(3) [of f' c'] show ?thesis
    by (auto simp: pos_of_def iter_of_def list_at_def intro: wpI same_env_trans)
qed

text \<open>The pointers of a cell that has been removed stay in the file: an iterator that
  stood on it can still go on from there, unless the file was cut.\<close>

definition erased_at :: "nat \<Rightarrow> nat \<Rightarrow> nat \<Rightarrow> string \<Rightarrow> bool" where
  "erased_at q a b f \<longleftrightarrow> 391 \<le> q \<and> off_ok a \<and> off_ok b \<and> holds_at q (ptr a b) f"

lemma remove_events_erased:
  assumes f: "file_ok f h (xs @ (q, d) # ys)" and ts: "stamp_ok (ts_epoch ts) (ts_counter ts)"
    and ne: "xs @ ys \<noteq> []"
  shows "erased_at q (last_cell 0 xs) (next_cell ys (length f)) (run_events (remove_events ts xs q d ys (length f)) f)"
proof -
  let ?es = "remove_events ts xs q d ys (length f)"
  note ok = file_okD [OF f] and eo = remove_file_ok(4) [OF f ts]
  have r: "removable f xs q d ys (length f)" using f by (simp add: removable_def file_ok_def)
  note o = removable_offs [OF r] and n = removable_chains [OF r]
  have el: "off_ok (last_cell 0 xs)" "off_ok (next_cell ys (length f))" "off_ok (length d)"
    using n(2) by (simp_all add: elem_at_def)
  have "filter is_body ?es = filter is_body (unlink_events xs q d ys (length f))"
    by (simp add: remove_events_def)
  then have b: "run_events (filter is_body ?es) f = erase_cell q (last_cell 0 xs) (next_cell ys (length f)) (length d)
      (relink_next 0 xs (next_cell ys (length f)) (relink_prev ys (last_cell 0 xs) (length f) f))" (is "_ = erase_cell _ _ _ _ ?k")
    using run_unlink_body [of xs ys q d "length f" f] ne by simp
  have len: "q \<le> length ?k"
  proof -
    note r1 = relink_prev_chain [OF n(3) n(5) o(4) o(1)]
    have g: "chain (relink_prev ys (last_cell 0 xs) (length f) f) 0 xs q"
      "length (relink_prev ys (last_cell 0 xs) (length f) f) = length f" using r1 n by auto
    note r2 = relink_next_chain [OF g(1) n(4) o(8)]
    show ?thesis using r2 g n(9) by auto
  qed
  have "holds_at q (ptr (last_cell 0 xs) (next_cell ys (length f)))
      (erase_cell q (last_cell 0 xs) (next_cell ys (length f)) (length d) ?k)"
    unfolding erase_cell_def using len el
    by (subst holds_at_overwrite_before) (simp_all add: holds_at_overwrite_same length_overwrite)
  moreover have "drop 391 (run_events ?es f) = drop 391 (run_events (filter is_body ?es) f)"
    using drop_run_body [of ?es f f] eo ok(3) by simp
  ultimately show ?thesis
    using n(8) el b by (simp add: erased_at_def holds_at_drop_iff [of 391 q])
qed

lemma remove_data_wp:
  assumes "list_at c0 f (xs @ (q, d) # ys) c"
    and "\<And>c' f'. list_at c0 f' (xs @ ys) c' \<Longrightarrow> length f' = (if xs @ ys = [] then 391 else length f) \<Longrightarrow>
       (xs @ ys \<noteq> [] \<longrightarrow> erased_at q (last_cell 0 xs) (next_cell ys (length f)) f') \<Longrightarrow> P () c'"
  shows "wp (remove_data (int q)) P c"
proof -
  from assms(1) obtain p tr h where c: "c = fc_at c f p tr" "file_ok f h (xs @ (q, d) # ys)"
    "attached c h (xs @ (q, d) # ys)" "same_env c0 c" by (rule list_atE)
  define es where "es = remove_events (next_stamp c h) xs q d ys (length f)"
  obtain c' p' where a: "remove_data (int q) (fc_at c f p tr) = (Inr (), fc_log c' es p' f tr)"
    "synced c' (xs @ ys)" "handle_ok c'" "fc_stamp c' = next_stamp c h" "same_env c c'"
    using remove_data_run [OF c(2,3), of p tr, folded es_def] by blast
  have ts: "stamp_ok (ts_epoch (next_stamp c h)) (ts_counter (next_stamp c h))" "ts_good (next_stamp c h)"
    using next_stamp_ok [OF c(2) attached_handle [OF c(3)]] by auto
  note fo = remove_file_ok [OF c(2) ts(1), folded es_def]
  have "fresh c' (events_hdr es h) (xs @ ys)"
    using a fo(2) ts_eq_stamp [OF ts(2)] by (simp add: fresh_def)
  then have "list_at c0 (run_events es f) (xs @ ys) (fc_log c' es p' f tr)"
    unfolding fc_log_def by (rule list_atI [OF fo(1) _ same_env_trans [OF c(4) a(5)]])
  with assms(2) fo(3) remove_events_erased [OF c(2) ts(1), folded es_def] a(1) c(1) show ?thesis
    by (auto intro!: wpI)
qed

lemmas list_wp = read_begin_wp read_last_wp read_end_wp get_iterator_wp get_iterator_end_wp read_size_wp
  increment_wp decrement_wp read_data_wp add_data_wp remove_data_wp

section \<open>The sequence\<close>

definition seq_at :: "file_sequence \<Rightarrow> string \<Rightarrow> cells \<Rightarrow> file_sequence \<Rightarrow> bool" where
  "seq_at s0 f rs s \<longleftrightarrow> list_at (fs_container s0) f rs (fs_container s) \<and> fs_address s = fs_address s0 \<and>
     bi_container (fs_last s) = Some (fs_address s) \<and> fi_good (bi_iterator (fs_last s))"

text \<open>An iterator of the sequence at the \<open>i\<close>-th cell, and one that has read its cell.\<close>

definition points :: "file_sequence \<Rightarrow> nat \<Rightarrow> cells \<Rightarrow> nat \<Rightarrow> base_iterator \<Rightarrow> bool" where
  "points s0 L rs i b \<longleftrightarrow> bi_container b = Some (fs_address s0) \<and> bi_iterator b = iter_of rs L i"

definition shows_cell :: "file_sequence \<Rightarrow> nat \<Rightarrow> cells \<Rightarrow> nat \<Rightarrow> base_iterator \<Rightarrow> bool" where
  "shows_cell s0 L rs i b \<longleftrightarrow> points s0 L rs i b \<and> bi_new b \<and> bi_good b = (i < length rs) \<and>
     bi_data b = (if i < length rs then snd (rs ! i) else [])"

lemma points_position: "points s0 L rs i b \<Longrightarrow> bi_position b = int (pos_of rs L i)"
  by (simp add: points_def bi_position_def)

lemma points_bi [simp]:
  "points s0 L rs i (b\<lparr>bi_good := g\<rparr>) = points s0 L rs i b" "points s0 L rs i (bi_copy b) = points s0 L rs i b"
  by (simp_all add: points_def bi_copy_def)

lemma seq_atD:
  assumes "seq_at s0 f rs s"
  shows "list_at (fs_container s0) f rs (fs_container s)" "fi_good (bi_iterator (fs_last s))"
  using assms by (simp_all add: seq_at_def)

text \<open>From the rules of the container to the rules of the sequence: \<open>seq_lift\<close> for a call on
  the container, \<open>seq_lift_last\<close> for one that sets \<open>fs_last\<close>.\<close>

lemma seq_lift:
  assumes "seq_at s0 f rs s"
    and "\<And>Q. (\<And>c' f'. list_at (fs_container s0) f' rs' c' \<Longrightarrow> R f' \<Longrightarrow> Q v c') \<Longrightarrow> wp m Q (fs_container s)"
    and "\<And>f' s'. seq_at s0 f' rs' s' \<Longrightarrow> R f' \<Longrightarrow> P v s'"
  shows "wp (on_container (throwing m)) P s"
  using assms(1)
  by (intro wp_on_container, subst wp_simps) (rule assms(2), rule assms(3), auto simp: seq_at_def)

lemma seq_lift_last:
  assumes "seq_at s0 f rs s"
    and "\<And>Q. (\<And>c' f'. list_at (fs_container s0) f' rs' c' \<Longrightarrow> R f' \<Longrightarrow> Q (iter_of rs' (length f') i) c') \<Longrightarrow>
      wp (m (bi_iterator (fs_last s))) Q (fs_container s)"
    and "\<And>b f' s'. seq_at s0 f' rs' s' \<Longrightarrow> R f' \<Longrightarrow> points s0 (length f') rs' i b \<Longrightarrow> fs_last s' = b \<Longrightarrow> P b s'"
  shows "wp (with_last m) P s"
  using assms(1)
  by (intro wp_with_last assms(2) assms(3)) (auto simp: seq_at_def points_def)

lemma seq_at_last: "seq_at s0 f rs s \<Longrightarrow> points s0 L qs i b \<Longrightarrow> seq_at s0 f rs (s\<lparr>fs_last := b\<rparr>)"
  by (simp add: seq_at_def points_def)

lemma seq_read_begin:
  "seq_at s0 f rs s \<Longrightarrow> (\<And>s'. seq_at s0 f rs s' \<Longrightarrow> P (int (pos_of rs (length f) 0)) s') \<Longrightarrow>
    wp (on_container (throwing read_begin)) P s"
  by (rule seq_lift [where R = "(=) f"]) (auto intro: read_begin_wp seq_atD)

lemma seq_read_end:
  "seq_at s0 f rs s \<Longrightarrow> (\<And>s'. seq_at s0 f rs s' \<Longrightarrow> P (int (length f)) s') \<Longrightarrow>
    wp (on_container (throwing read_end)) P s"
  by (rule seq_lift [where R = "(=) f"]) (auto intro: read_end_wp seq_atD)

lemma seq_read_last:
  "seq_at s0 f rs s \<Longrightarrow> (\<And>s'. seq_at s0 f rs s' \<Longrightarrow> P (int (pos_of rs (length f) (length rs - 1))) s') \<Longrightarrow>
    wp (on_container (throwing read_last)) P s"
  by (rule seq_lift [where R = "(=) f"]) (auto intro: read_last_wp seq_atD)

lemma seq_read_size:
  "seq_at s0 f rs s \<Longrightarrow> (\<And>s'. seq_at s0 f rs s' \<Longrightarrow> P (length rs) s') \<Longrightarrow>
    wp (on_container (throwing read_size)) P s"
  by (rule seq_lift [where R = "(=) f"]) (auto intro: read_size_wp seq_atD)

lemma seq_get_iterator:
  "seq_at s0 f rs s \<Longrightarrow> i \<le> length rs \<Longrightarrow> fi_good it \<Longrightarrow>
    (\<And>s'. seq_at s0 f rs s' \<Longrightarrow> P (iter_of rs (length f) i) s') \<Longrightarrow>
    wp (on_container (throwing (get_iterator (int (pos_of rs (length f) i)) it))) P s"
  by (rule seq_lift [where R = "(=) f"]) (auto intro: get_iterator_wp seq_atD)

lemma seq_increment:
  "seq_at s0 f rs s \<Longrightarrow> i < length rs \<Longrightarrow> (\<And>s'. seq_at s0 f rs s' \<Longrightarrow> P (iter_of rs (length f) (Suc i)) s') \<Longrightarrow>
    wp (on_container (throwing (increment_iterator (iter_of rs (length f) i)))) P s"
  by (rule seq_lift [where R = "(=) f"]) (auto intro: increment_wp seq_atD)

lemma seq_remove_data:
  "seq_at s0 f (xs @ (q, d) # ys) s \<Longrightarrow>
    (\<And>f' s'. seq_at s0 f' (xs @ ys) s' \<Longrightarrow> length f' = (if xs @ ys = [] then 391 else length f) \<Longrightarrow> P () s') \<Longrightarrow>
    wp (on_container (throwing (remove_data (int q)))) P s"
  by (rule seq_lift [where R = "\<lambda>f'. length f' = (if xs @ ys = [] then 391 else length f)"])
    (auto intro: remove_data_wp seq_atD)

lemma seq_last_iterator:
  "seq_at s0 f rs s \<Longrightarrow> i \<le> length rs \<Longrightarrow>
    (\<And>b s'. seq_at s0 f rs s' \<Longrightarrow> points s0 (length f) rs i b \<Longrightarrow> fs_last s' = b \<Longrightarrow> P b s') \<Longrightarrow>
    wp (with_last (get_iterator (int (pos_of rs (length f) i)))) P s"
  by (rule seq_lift_last [where R = "(=) f"]) (auto intro: get_iterator_wp seq_atD)

lemma seq_last_end:
  assumes "seq_at s0 f rs s"
    "\<And>b s'. seq_at s0 f rs s' \<Longrightarrow> points s0 (length f) rs (length rs) b \<Longrightarrow> fs_last s' = b \<Longrightarrow> P b s'"
  shows "wp (with_last (get_iterator (int (length f)))) P s"
  using seq_last_iterator [OF assms(1) order_refl [of "length rs"], of P] assms(2) by (simp add: pos_of_length)

lemma getBegin_wp:
  assumes "seq_at s0 f rs s"
    and P: "\<And>b s'. seq_at s0 f rs s' \<Longrightarrow> points s0 (length f) rs 0 b \<Longrightarrow> fs_last s' = b \<Longrightarrow> P b s'"
  shows "wp getBegin P s"
  unfolding getBegin_def wp_simps
  by (rule seq_read_begin [OF assms(1)], erule seq_read_end, erule seq_last_iterator, simp)
    (auto intro!: P elim: seq_at_last)

lemma getEnd_wp:
  assumes "seq_at s0 f rs s"
    and P: "\<And>b s'. seq_at s0 f rs s' \<Longrightarrow> points s0 (length f) rs (length rs) b \<Longrightarrow> fs_last s' = b \<Longrightarrow> P b s'"
  shows "wp getEnd P s"
  unfolding getEnd_def wp_simps
  by (rule seq_read_end [OF assms(1)], erule seq_last_end) (auto intro!: P elim: seq_at_last)

lemma getLast_wp:
  assumes "seq_at s0 f rs s"
    and P: "\<And>b s'. seq_at s0 f rs s' \<Longrightarrow> points s0 (length f) rs (length rs - 1) b \<Longrightarrow> fs_last s' = b \<Longrightarrow> P b s'"
  shows "wp getLast P s"
  unfolding getLast_def wp_simps
  by (rule seq_read_end [OF assms(1)], erule seq_read_last, erule seq_last_iterator, simp)
    (auto intro!: P elim: seq_at_last)

lemma insertData_wp:
  assumes s: "seq_at s0 f (xs @ ys) s" and b: "bi_position b = int (pos_of (xs @ ys) (length f) (length xs))"
    and d: "fits d (length f)"
    and P: "\<And>b' f' s'. seq_at s0 f' (xs @ (length f, d) # ys) s' \<Longrightarrow> length f' = length f + 95 + length d \<Longrightarrow>
      points s0 (length f') (xs @ (length f, d) # ys) (length xs) b' \<Longrightarrow> P b' s'"
  shows "wp (insertData b d) P s"
  unfolding insertData_def b
  by (rule seq_lift_last [OF s, where R = "\<lambda>f'. length f' = length f + 95 + length d"])
    (rule add_data_wp [OF seq_atD(1) [OF s] d], auto intro: P)

lemma pos_of_mid: "pos_of (xs @ (q, d) # ys) L (length xs) = q"
  "pos_of (xs @ (q, d) # ys) L (Suc (length xs)) = next_cell ys L" "pos_of (xs @ ys) L (length xs) = next_cell ys L"
  by (simp_all add: pos_of_def)

lemma erasePointer_wp:
  assumes s: "seq_at s0 f (xs @ (q, d) # ys) s" and b: "bi_position b = int q"
    and P: "\<And>b' f' s'. seq_at s0 f' (xs @ ys) s' \<Longrightarrow> length f' = (if xs @ ys = [] then 391 else length f) \<Longrightarrow>
      points s0 (length f') (xs @ ys) (length xs) b' \<Longrightarrow> P b' s'"
  shows "wp (erasePointer b) P s"
  unfolding erasePointer_def wp_simps b
proof (rule seq_read_end [OF s])
  let ?rs = "xs @ (q, d) # ys" and ?L = "length f"
  fix s1 assume s1: "seq_at s0 f ?rs s1"
  have g: "fi_good (FileIterator_new 0 0 0)" by (simp add: FileIterator_new_def)
  have "wp (on_container (throwing (get_iterator (int (pos_of ?rs ?L (length xs))) (FileIterator_new 0 0 0))))
     (\<lambda>iter. wp (on_container (throwing (increment_iterator iter))) (\<lambda>iter.
        wp (on_container (throwing (remove_data (int q)))) (\<lambda>_.
        wp (on_container (throwing read_size)) (\<lambda>n.
          wp (if n \<noteq> 0 then with_last (get_iterator (fi_current iter))
            else fs_bind (on_container (throwing read_end)) (\<lambda>end. with_last (get_iterator end))) P)))) s1"
  proof (rule seq_get_iterator [OF s1 _ g], simp, erule seq_increment, simp, erule seq_remove_data, erule seq_read_size)
    fix f' s' assume s': "seq_at s0 f' (xs @ ys) s'" "length f' = (if xs @ ys = [] then 391 else ?L)"
    note P = P [OF _ s'(2)]
    show "wp (if length (xs @ ys) \<noteq> 0 then with_last (get_iterator (fi_current (iter_of ?rs ?L (Suc (length xs)))))
        else fs_bind (on_container (throwing read_end)) (\<lambda>end. with_last (get_iterator end))) P s'"
    proof (cases "xs @ ys = []")
      case True
      then show ?thesis
        using P by (auto simp: wp_simps intro!: seq_read_end [OF s'(1)] elim!: seq_last_end)
    next
      case False
      then have "int (pos_of ?rs ?L (Suc (length xs))) = int (pos_of (xs @ ys) (length f') (length xs))"
        using s'(2) by (auto simp: pos_of_mid)
      with False show ?thesis using P seq_last_iterator [OF s'(1), of "length xs" P] by auto
    qed
  qed
  then show "wp (on_container (throwing (get_iterator (int q) (FileIterator_new 0 0 0))))
     (\<lambda>iter. wp (on_container (throwing (increment_iterator iter))) (\<lambda>iter.
        wp (on_container (throwing (remove_data (int q)))) (\<lambda>_.
        wp (on_container (throwing read_size)) (\<lambda>n.
          wp (if n \<noteq> 0 then with_last (get_iterator (fi_current iter))
            else fs_bind (on_container (throwing read_end)) (\<lambda>end. with_last (get_iterator end))) P)))) s1"
    by (simp add: pos_of_mid)
qed

section \<open>Iterators of the template\<close>

lemma pos_of_end_iff:
  assumes "list_at c0 f rs c" "i \<le> length rs"
  shows "pos_of rs (length f) i = length f \<longleftrightarrow> i = length rs"
proof -
  from assms(1) obtain h where "file_ok f h rs" by (rule list_atE)
  from file_okD(16) [OF this] show ?thesis
    using chain_nth(3) [of f rs "length f" i] assms(2) by (cases "i < length rs") (auto simp: pos_of_length)
qed

lemma read_string_wp:
  assumes c: "list_at c0 f rs c" and b: "points s0 (length f) rs i b" "i \<le> length rs" "check \<longrightarrow> i < length rs"
    and P: "\<And>b' c'. list_at c0 f rs c' \<Longrightarrow> shows_cell s0 (length f) rs i b' \<Longrightarrow> P b' c'"
  shows "wp (read_string check b) P c"
proof -
  have n: "bi_container b = Some (fs_address s0)" "bi_position b = int (pos_of rs (length f) i)"
    "bi_iterator b = iter_of rs (length f) i"
    using b(1) points_position [OF b(1)] by (simp_all add: points_def)
  have e: "int (pos_of rs (length f) i) = int (length f) \<longleftrightarrow> i = length rs"
    using pos_of_end_iff [OF c b(2)] by simp
  have eq: "read_string check b = fc_bind (throwing read_end) (\<lambda>end.
      if \<not> check \<and> int (pos_of rs (length f) i) = end then fc_return (b\<lparr>bi_new := True, bi_good := False, bi_data := []\<rparr>)
      else fc_bind (throwing (read_data (int (pos_of rs (length f) i)) (bi_iterator b) False)) (\<lambda>(data, iter).
          fc_return (b\<lparr>bi_good := True, bi_new := True, bi_data := data, bi_iterator := iter\<rparr>)))"
    by (simp add: read_string_def n Let_def cong: if_cong)
  show ?thesis
    unfolding eq wp_simps
  proof (rule read_end_wp [OF c])
    fix c' assume c': "list_at c0 f rs c'"
    show "wp (if \<not> check \<and> int (pos_of rs (length f) i) = int (length f) then fc_return (b\<lparr>bi_new := True, bi_good := False, bi_data := []\<rparr>)
      else fc_bind (throwing (read_data (int (pos_of rs (length f) i)) (bi_iterator b) False)) (\<lambda>(data, iter).
          fc_return (b\<lparr>bi_good := True, bi_new := True, bi_data := data, bi_iterator := iter\<rparr>))) P c'"
    proof (cases "i < length rs")
      case True
      then show ?thesis
        using n e by (auto simp: wp_simps intro!: read_data_wp [OF c'] P simp: shows_cell_def points_def)
    next
      case False
      then show ?thesis
        using n e b(2,3) P [OF c'] by (auto simp: wp_simps shows_cell_def points_def)
    qed
  qed
qed

lemma FLIterator_of_wp:
  assumes "list_at c0 f rs c" "points s0 (length f) rs i b" "i \<le> length rs"
    and P: "\<And>it c'. list_at c0 f rs c' \<Longrightarrow> shows_cell s0 (length f) rs i (fli_base it) \<Longrightarrow> P it c'"
  shows "wp (FLIterator_of b) P c"
  unfolding FLIterator_of_def wp_simps
  by (rule read_string_wp [OF assms(1), where i = i]) (use assms in auto)

lemma bi_increment_wp:
  assumes "list_at c0 f rs c" "points s0 (length f) rs i b" "i < length rs"
    and P: "\<And>b' c'. list_at c0 f rs c' \<Longrightarrow> points s0 (length f) rs (Suc i) b' \<Longrightarrow> P b' c'"
  shows "wp (bi_increment b) P c"
  using assms(2) unfolding bi_increment_def
  by (auto simp: points_def wp_simps intro!: increment_wp [OF assms(1,3)] P)

lemma bi_decrement_wp:
  assumes "list_at c0 f rs c" "points s0 (length f) rs (Suc i) b" "i < length rs"
    and P: "\<And>b' c'. list_at c0 f rs c' \<Longrightarrow> points s0 (length f) rs i b' \<Longrightarrow> P b' c'"
  shows "wp (bi_decrement b) P c"
  using assms(2) unfolding bi_decrement_def
  by (auto simp: points_def wp_simps intro!: decrement_wp [OF assms(1,3)] P)

lemma fli_next_wp:
  assumes "list_at c0 f rs c" "points s0 (length f) rs i (fli_base it)" "i < length rs"
    and "\<And>it' c'. list_at c0 f rs c' \<Longrightarrow> shows_cell s0 (length f) rs (Suc i) (fli_base it') \<Longrightarrow> P it' c'"
  shows "wp (fli_next_step it) P c"
  unfolding fli_next_step_def wp_simps
  by (rule bi_increment_wp [OF assms(1-3)], rule read_string_wp, assumption+) (use assms(3,4) in auto)

lemma fli_prev_wp:
  assumes "list_at c0 f rs c" "points s0 (length f) rs (Suc i) (fli_base it)" "i < length rs"
    and "\<And>it' c'. list_at c0 f rs c' \<Longrightarrow> shows_cell s0 (length f) rs i (fli_base it') \<Longrightarrow> P it' c'"
  shows "wp (fli_prev_step it) P c"
  unfolding fli_prev_step_def wp_simps
  by (rule bi_decrement_wp [OF assms(1-3)], rule read_string_wp, assumption+) (use assms(3,4) in auto)

lemma fli_deref_wp:
  assumes "list_at c0 f rs c" "shows_cell s0 (length f) rs i (fli_base it)" "i < length rs" "of_string cv (snd (rs ! i)) = Some v"
    and "\<And>it' c'. list_at c0 f rs c' \<Longrightarrow> P (v, it') c'"
  shows "wp (fli_deref cv it) P c"
  using assms by (simp add: fli_deref_def shows_cell_def wp_simps check_status_def convert_from_def)

text \<open>Steps of an iterator inside a method of the list.\<close>

lemma seq_step:
  assumes "seq_at s0 f rs s"
    and "\<And>Q. (\<And>v c'. list_at (fs_container s0) f rs c' \<Longrightarrow> R v \<Longrightarrow> Q v c') \<Longrightarrow> wp m Q (fs_container s)"
    and "\<And>v s'. seq_at s0 f rs s' \<Longrightarrow> R v \<Longrightarrow> P v s'"
  shows "wp (on_container m) P s"
  by (rule wp_on_container, rule assms(2), rule assms(3)) (use assms(1) in \<open>auto simp: seq_at_def\<close>)

section \<open>The template\<close>

definition prints :: "'a converter \<Rightarrow> 'a \<Rightarrow> string \<Rightarrow> bool" where
  "prints cv v d \<longleftrightarrow> to_string cv v = Some d \<and> of_string cv d = Some v"

lemma convert_to_step:
  "seq_at s0 f rs s \<Longrightarrow> to_string cv v = Some d \<Longrightarrow> P d s \<Longrightarrow> wp (on_container (convert_to cv v)) P s"
  by (intro wp_on_container) (simp add: convert_to_def wp_simps)

lemma fl_begin_wp:
  assumes "seq_at s0 f rs s"
    "\<And>it s'. seq_at s0 f rs s' \<Longrightarrow> shows_cell s0 (length f) rs 0 (fli_base it) \<Longrightarrow> P it s'"
  shows "wp fl_begin P s"
  unfolding fl_begin_def wp_simps
  by (rule getBegin_wp [OF assms(1)],
      rule seq_step [where R = "\<lambda>it. shows_cell s0 (length f) rs 0 (fli_base it)"], assumption)
    (auto intro: seq_atD assms(2) FLIterator_of_wp)

lemma fl_end_wp:
  assumes "seq_at s0 f rs s"
    "\<And>it s'. seq_at s0 f rs s' \<Longrightarrow> shows_cell s0 (length f) rs (length rs) (fli_base it) \<Longrightarrow> P it s'"
  shows "wp fl_end P s"
  unfolding fl_end_def wp_simps
  by (rule getEnd_wp [OF assms(1)],
      rule seq_step [where R = "\<lambda>it. shows_cell s0 (length f) rs (length rs) (fli_base it)"], assumption)
    (auto intro: seq_atD assms(2) FLIterator_of_wp)

lemma push_back_wp:
  assumes "seq_at s0 f rs s" "to_string cv v = Some d" "fits d (length f)"
    "\<And>f' s'. seq_at s0 f' (rs @ [(length f, d)]) s' \<Longrightarrow> length f' = length f + 95 + length d \<Longrightarrow> P () s'"
  shows "wp (push_back cv v) P s"
  unfolding push_back_def wp_simps
  by (rule getEnd_wp [OF assms(1)], rule convert_to_step, assumption, rule assms(2))
    (rule insertData_wp [where xs = rs and ys = "[]"], use assms(3,4) points_position in auto)

lemma push_front_wp:
  assumes "seq_at s0 f rs s" "to_string cv v = Some d" "fits d (length f)"
    "\<And>f' s'. seq_at s0 f' ((length f, d) # rs) s' \<Longrightarrow> length f' = length f + 95 + length d \<Longrightarrow> P () s'"
  shows "wp (push_front cv v) P s"
  unfolding push_front_def wp_simps
  by (rule getBegin_wp [OF assms(1)], rule convert_to_step, assumption, rule assms(2))
    (rule insertData_wp [where xs = "[]" and ys = rs], use assms(3,4) points_position in auto)

lemma pop_front_wp:
  assumes "seq_at s0 f ((q, d) # ys) s"
    "\<And>f' s'. seq_at s0 f' ys s' \<Longrightarrow> length f' = (if ys = [] then 391 else length f) \<Longrightarrow> P () s'"
  shows "wp pop_front P s"
  unfolding pop_front_def wp_simps
  by (rule getBegin_wp [OF assms(1)])
    (rule erasePointer_wp [where xs = "[]" and ys = ys], use assms(2) points_position in \<open>auto simp: pos_of_def\<close>)

lemma pop_back_wp:
  assumes "seq_at s0 f (xs @ [(q, d)]) s"
    "\<And>f' s'. seq_at s0 f' xs s' \<Longrightarrow> length f' = (if xs = [] then 391 else length f) \<Longrightarrow> P () s'"
  shows "wp pop_back P s"
  unfolding pop_back_def wp_simps
proof (rule getEnd_wp [OF assms(1)])
  fix b s' assume a: "seq_at s0 f (xs @ [(q, d)]) s'" "points s0 (length f) (xs @ [(q, d)]) (length (xs @ [(q, d)])) b"
  show "wp (on_container (bi_decrement b)) (\<lambda>v s. wp (erasePointer v) (\<lambda>v. P ()) (s\<lparr>fs_last := v\<rparr>)) s'"
  proof (rule seq_step [OF a(1)], rule bi_decrement_wp [where i = "length xs"])
    show "list_at (fs_container s0) f (xs @ [(q, d)]) (fs_container s')" using seq_atD(1) [OF a(1)] .
    show "points s0 (length f) (xs @ [(q, d)]) (Suc (length xs)) b" using a(2) by simp
  next
    fix v s'' assume v: "seq_at s0 f (xs @ [(q, d)]) s''" "points s0 (length f) (xs @ [(q, d)]) (length xs) v"
    show "wp (erasePointer v) (\<lambda>v. P ()) (s''\<lparr>fs_last := v\<rparr>)"
      by (rule erasePointer_wp [where xs = xs and ys = "[]"])
        (use seq_at_last [OF v] points_position [OF v(2)] assms(2) in \<open>auto simp: pos_of_mid\<close>)
  qed simp_all
qed

lemma fl_front_wp:
  assumes "seq_at s0 f (r # rs) s" "of_string cv (snd r) = Some v" "\<And>s'. seq_at s0 f (r # rs) s' \<Longrightarrow> P v s'"
  shows "wp (fl_front cv) P s"
  unfolding fl_front_def wp_simps
  by (rule fl_begin_wp [OF assms(1)], rule seq_step [where R = "\<lambda>x. fst x = v"], assumption,
      rule fli_deref_wp [where i = 0]) (auto intro: seq_atD assms(2,3) simp: wp_simps split: prod.splits)

lemma fl_back_wp:
  assumes "seq_at s0 f (rs @ [r]) s" "of_string cv (snd r) = Some v" "\<And>s'. seq_at s0 f (rs @ [r]) s' \<Longrightarrow> P v s'"
  shows "wp (fl_back cv) P s"
  unfolding fl_back_def wp_simps
proof (rule fl_end_wp [OF assms(1)])
  fix it :: "'a fl_iterator" and s' assume a: "seq_at s0 f (rs @ [r]) s'"
    "shows_cell s0 (length f) (rs @ [r]) (length (rs @ [r])) (fli_base it)"
  show "wp (on_container (fli_prev_step it)) (\<lambda>v. wp (on_container (fli_deref cv v)) (\<lambda>v. wp (case v of (v, _) \<Rightarrow> fs_return v) P)) s'"
    by (rule seq_step [OF a(1), where R = "\<lambda>it. shows_cell s0 (length f) (rs @ [r]) (length rs) (fli_base it)"],
        rule fli_prev_wp [where i = "length rs"],
        use a in \<open>auto intro: seq_atD simp: shows_cell_def\<close>,
        rule seq_step [where R = "\<lambda>x. fst x = v"], assumption, rule fli_deref_wp [where i = "length rs"])
      (auto intro: seq_atD assms(2,3) simp: wp_simps shows_cell_def split: prod.splits)
qed

end
