(* ===== verification/File_List_Erase.thy ===== *)
theory File_List_Erase
  imports File_List_Ops
begin

text \<open>
  The loops of the file list that remove several elements: \<open>eraseInterval\<close> and \<open>removeData\<close>.
  Both step from a cell that has just been removed, through the pointers that are still
  in the file.
\<close>

lemma increment_erased_wp:
  assumes c: "list_at c0 f (xs @ ys) c" and e: "erased_at q a (next_cell ys (length f)) f"
    and P: "\<And>c'. list_at c0 f (xs @ ys) c' \<Longrightarrow> P (iter_of (xs @ ys) (length f) (length xs)) c'"
  shows "wp (increment_iterator (fi a (next_cell ys (length f)) q)) P c"
proof (rule list_at_wp [where v = "iter_of (xs @ ys) (length f) (length xs)" and P = P, OF c _ P])
  fix h p tr assume f: "file_ok f h (xs @ ys)" and at: "attached c h (xs @ ys)"
  let ?L = "length f" and ?n = "next_cell ys (length f)"
  obtain c1 p1 where p: "prepare_end True (fc_at c f p tr) = (Inr (int ?L), fc_at c1 f p1 tr)"
    "fresh c1 h (xs @ ys)" "same_env c c1"
    using prepare_end_ok [OF f at, of True p tr] by blast
  have q: "q \<noteq> 0" "391 \<le> q" "off_ok a" "off_ok ?n" "holds_at q (ptr a ?n) f" using e by (auto simp: erased_at_def)
  have n: "pos_of (xs @ ys) ?L (length xs) = ?n" by (simp add: pos_of_mid)
  show "\<exists>c' p'. increment_iterator (fi a ?n q) (fc_at c f p tr) =
      (Inr (iter_of (xs @ ys) ?L (length xs)), fc_at c' f p' tr) \<and> fresh c' h (xs @ ys) \<and> same_env c c'"
  proof (cases "?n = ?L")
    case True
    have "ys = []"
    proof (rule ccontr)
      assume "ys \<noteq> []"
      then have "pos_of (xs @ ys) ?L (length xs) < ?L" by (intro chain_nth(3) [OF file_okD(16) [OF f]]) simp
      with True n show False by simp
    qed
    then have "iter_of (xs @ ys) ?L (length xs) = fi 0 0 ?L" by (simp add: iter_of_def pos_of_simps)
    then show ?thesis
      using p True q(1) by (intro exI [of _ c1] exI [of _ p1]) (simp add: increment_iterator_def increment_with_def)
  next
    case False
    have r1: "readIterator (int q) (fi a ?n q) False (fc_at c1 f p1 tr) = (Inr (fi a ?n q), fc_at c1 f (q + 34) tr)"
      using readIterator_at [OF q(5,3,4,2)] by simp
    obtain p2 where r2: "readIterator (int ?n) (fi a ?n q) False (fc_at c1 f (q + 34) tr) =
        (Inr (iter_of (xs @ ys) ?L (length xs)), fc_at c1 f p2 tr)"
      using readIterator_nth [OF f, of "length xs" "fi a ?n q" c1 "q + 34" tr] n by auto
    show ?thesis
      using p False q(1) r1 r2 by (intro exI [of _ c1] exI [of _ p2]) (simp add: increment_iterator_def increment_with_def)
  qed
qed

lemma iter_of_mid: "iter_of (xs @ (q, d) # ys) L (length xs) = fi (last_cell 0 xs) (next_cell ys L) q"
  by (simp add: iter_of_def pos_of_mid)

text \<open>Remove the cell an iterator stands on and step on: one round of both loops.\<close>

lemma remove_step_wp:
  assumes c: "list_at c0 f (xs @ (q, d) # ys) c" and ne: "xs @ ys \<noteq> []"
    and P: "\<And>c' f'. list_at c0 f' (xs @ ys) c' \<Longrightarrow> length f' = length f \<Longrightarrow>
      P (iter_of (xs @ ys) (length f) (length xs), int (length f)) c'"
  shows "wp (fc_then (remove_data (int q)) (fc_bind (increment_iterator (iter_of (xs @ (q, d) # ys) (length f) (length xs)))
      (\<lambda>iter. fc_bind read_end (\<lambda>end. fc_return (iter, end))))) P c"
  unfolding wp_simps iter_of_mid
proof (rule remove_data_wp [OF c])
  fix c' f' assume a: "list_at c0 f' (xs @ ys) c'" "length f' = (if xs @ ys = [] then 391 else length f)"
    "xs @ ys \<noteq> [] \<longrightarrow> erased_at q (last_cell 0 xs) (next_cell ys (length f)) f'"
  have L: "length f = length f'" using a(2) ne by auto
  show "wp (increment_iterator (fi (last_cell 0 xs) (next_cell ys (length f)) q))
      (\<lambda>iter. wp read_end (\<lambda>end. P (iter, end))) c'"
    unfolding L
  proof (rule increment_erased_wp [OF a(1)])
    show "erased_at q (last_cell 0 xs) (next_cell ys (length f')) f'" using a ne L by simp
    fix c1 assume "list_at c0 f' (xs @ ys) c1"
    then show "wp read_end (\<lambda>end. P (iter_of (xs @ ys) (length f') (length xs), end)) c1"
      using P [of f'] L by (auto intro: read_end_wp)
  qed
qed

section \<open>\<open>eraseInterval\<close>\<close>

lemma end_iff_nil:
  assumes "list_at c0 f (xs @ ys) c"
  shows "int (pos_of (xs @ ys) (length f) (length xs)) = int (length f) \<longleftrightarrow> ys = []"
  using pos_of_end_iff [OF assms, of "length xs"] by simp

lemma get_iterator_mid_wp:
  assumes "list_at c0 f (xs @ (q, d) # ys) c" "fi_good it"
    "\<And>c'. list_at c0 f (xs @ (q, d) # ys) c' \<Longrightarrow> P (iter_of (xs @ (q, d) # ys) (length f) (length xs)) c'"
  shows "wp (get_iterator (int q) it) P c"
  using get_iterator_wp [OF assms(1) _ assms(2), of "length xs" P] assms(3) by (simp add: pos_of_mid)

definition erase_round :: "FileIterator \<Rightarrow> (FileIterator \<times> int) fcm" where
  "erase_round iter = fc_bind (get_iterator (fi_current iter) iter) (\<lambda>iter.
     fc_then (remove_data (fi_current iter))
    (fc_bind (increment_iterator iter) (\<lambda>iter.
     fc_bind read_end (\<lambda>end. fc_return (iter, end)))))"

lemma erase_round_ok:
  assumes "list_at c0 f (xs @ r # ys) c" "xs @ ys \<noteq> []" "fi_good it" "fi_current it = int (fst r)"
  obtains c' f' where "erase_round it c = (Inr (iter_of (xs @ ys) (length f) (length xs), int (length f)), c')"
    "list_at c0 f' (xs @ ys) c'" "length f' = length f"
proof -
  obtain q d where r: "r = (q, d)" by force
  let ?it = "iter_of (xs @ ys) (length f) (length xs)"
  have c: "list_at c0 f (xs @ (q, d) # ys) c" using assms(1) r by simp
  have rem: "wp (fc_then (remove_data (fi_current (iter_of (xs @ (q, d) # ys) (length f) (length xs))))
      (fc_bind (increment_iterator (iter_of (xs @ (q, d) # ys) (length f) (length xs)))
      (\<lambda>iter. fc_bind read_end (\<lambda>end. fc_return (iter, end)))))
      (\<lambda>v c'. v = (?it, int (length f)) \<and> (\<exists>f'. list_at c0 f' (xs @ ys) c' \<and> length f' = length f)) c1"
    if "list_at c0 f (xs @ (q, d) # ys) c1" for c1
    unfolding iter_of_good pos_of_mid(1) by (rule remove_step_wp [OF that assms(2)]) auto
  have "wp (erase_round it) (\<lambda>v c'. v = (?it, int (length f)) \<and> (\<exists>f'. list_at c0 f' (xs @ ys) c' \<and> length f' = length f)) c"
    unfolding erase_round_def wp_fc(2) assms(4) r fst_conv
    by (rule get_iterator_mid_wp [OF c assms(3)]) (rule rem)
  then show ?thesis using that by (auto simp: wp_def)
qed

lemma eraseInterval_loop_round:
  "eraseInterval_loop stop it c = (let r = erase_round it c in
     if isl (fst r) then Some (Inl (projl (fst r)), snd r)
     else let (iter', end) = projr (fst r)
          in if fi_current iter' \<noteq> stop \<and> fi_current iter' \<noteq> end then eraseInterval_loop stop iter' (snd r)
             else Some (Inr iter', snd r))"
  by (subst eraseInterval_loop.simps) (simp only: erase_round_def)

lemma eraseInterval_loop_ok:
  assumes "list_at c0 f (xs @ r # ys @ zs) c" "\<forall>s\<in>set ys. fst s \<noteq> stop" "zs = [] \<or> fst (hd zs) = stop" "xs @ zs \<noteq> []"
    and "fi_good it" "fi_current it = int (fst r)"
  shows "\<exists>c' f'. eraseInterval_loop (int stop) it c = Some (Inr (iter_of (xs @ zs) (length f) (length xs)), c') \<and>
    list_at c0 f' (xs @ zs) c' \<and> length f' = length f"
  using assms
proof (induction ys arbitrary: r it c f)
  case (Nil r it c f)
  let ?it = "iter_of (xs @ zs) (length f) (length xs)"
  obtain c' f' where body: "erase_round it c = (Inr (?it, int (length f)), c')"
    "list_at c0 f' (xs @ zs) c'" "length f' = length f"
    using erase_round_ok [of c0 f xs r zs c it] Nil by auto
  have "fi_current ?it = int stop \<or> fi_current ?it = int (length f)"
    using Nil(3) by (cases zs) (auto simp: pos_of_def next_cell_def)
  with body show ?case by (subst eraseInterval_loop_round) auto
next
  case (Cons s ys r it c f)
  let ?it = "iter_of (xs @ s # ys @ zs) (length f) (length xs)"
  obtain c' f' where body: "erase_round it c = (Inr (?it, int (length f)), c')"
    "list_at c0 f' (xs @ s # ys @ zs) c'" "length f' = length f"
    using erase_round_ok [of c0 f xs r "s # ys @ zs" c it] Cons(2,6,7) by auto
  have pos: "fi_current ?it = int (fst s)" by (simp add: pos_of_def)
  have "fi_current ?it \<noteq> int stop" "fi_current ?it \<noteq> int (length f)"
    using Cons(3) pos end_iff_nil [OF body(2)] body(3) by simp_all
  with body have "eraseInterval_loop (int stop) it c = eraseInterval_loop (int stop) ?it c'"
    by (subst eraseInterval_loop_round) auto
  with Cons.IH [OF body(2) _ Cons(4,5), of ?it] Cons(3) body(3) pos show ?case by auto
qed

lemma eraseInterval_wp:
  assumes s: "seq_at s0 f (xs @ r # ys @ zs) s" and "\<forall>t\<in>set ys. fst t \<noteq> stop" "zs = [] \<or> fst (hd zs) = stop" "xs @ zs \<noteq> []"
    and b: "points s0 (length f) (xs @ r # ys @ zs) (length xs) b" "bi_position e = int stop"
    and P: "\<And>b' f' s'. seq_at s0 f' (xs @ zs) s' \<Longrightarrow> length f' = length f \<Longrightarrow>
      points s0 (length f') (xs @ zs) (length xs) b' \<Longrightarrow> P b' s'"
  shows "wp (eraseInterval b e) P s"
proof -
  have it: "fi_good (bi_iterator b)" "fi_current (bi_iterator b) = int (fst r)"
    using b(1) by (simp_all add: points_def pos_of_def)
  from eraseInterval_loop_ok [OF seq_atD(1) [OF s] assms(2-4) it] obtain c' f' where
    c': "eraseInterval_loop (int stop) (bi_iterator b) (fs_container s) =
      Some (Inr (iter_of (xs @ zs) (length f) (length xs)), c')"
      "list_at (fs_container s0) f' (xs @ zs) c'" "length f' = length f" by blast
  let ?b = "(fs_last s)\<lparr>bi_iterator := iter_of (xs @ zs) (length f') (length xs)\<rparr>"
  have "eraseInterval b e s = (Inr ?b, s\<lparr>fs_container := c', fs_last := ?b\<rparr>)"
    using c' b(2) by (simp add: eraseInterval_def fs_bind_def on_container_def throwing_def set_last_iter_def Let_def)
  moreover have "seq_at s0 f' (xs @ zs) (s\<lparr>fs_container := c', fs_last := ?b\<rparr>)"
    using s c'(2) by (simp add: seq_at_def)
  moreover have "points s0 (length f') (xs @ zs) (length xs) ?b" using s by (simp add: points_def seq_at_def)
  ultimately show ?thesis using P [of f'] c'(3) by (intro wpI) auto
qed

section \<open>\<open>removeData\<close>\<close>

definition remove_round :: "string \<Rightarrow> FileIterator \<Rightarrow> (FileIterator \<times> int) fcm" where
  "remove_round val iter = fc_bind (read_data (fi_current iter) iter False) (\<lambda>(data, iter).
     fc_then (fc_when (data = val) (remove_data (fi_current iter)))
    (fc_bind (increment_iterator iter) (\<lambda>iter.
     fc_bind read_end (\<lambda>end. fc_return (iter, end)))))"

text \<open>What one round keeps of the cell it looks at.\<close>

abbreviation kept :: "string \<Rightarrow> cells \<Rightarrow> cells" where
  "kept v \<equiv> filter (\<lambda>s. snd s \<noteq> v)"

lemma remove_round_ok:
  assumes c: "list_at c0 f (xs @ r # ys) c" and ne: "xs @ kept v [r] @ ys \<noteq> []"
  obtains c' f' where "remove_round v (iter_of (xs @ r # ys) (length f) (length xs)) c =
      (Inr (iter_of ((xs @ kept v [r]) @ ys) (length f) (length (xs @ kept v [r])), int (length f)), c')"
    "list_at c0 f' ((xs @ kept v [r]) @ ys) c'" "length f' = length f"
proof -
  obtain q d where r: "r = (q, d)" by force
  let ?it = "iter_of (xs @ (q, d) # ys) (length f) (length xs)"
    and ?new = "iter_of ((xs @ kept v [r]) @ ys) (length f) (length (xs @ kept v [r]))"
  let ?Q = "\<lambda>x c'. x = (?new, int (length f)) \<and> (\<exists>f'. list_at c0 f' ((xs @ kept v [r]) @ ys) c' \<and> length f' = length f)"
  have "wp (fc_then (fc_when (d = v) (remove_data (fi_current ?it)))
      (fc_bind (increment_iterator ?it) (\<lambda>iter. fc_bind read_end (\<lambda>end. fc_return (iter, end))))) ?Q c1"
    if c1: "list_at c0 f (xs @ (q, d) # ys) c1" for c1
  proof (cases "d = v")
    case True
    then have k: "kept v [r] = []" using r by simp
    show ?thesis
      unfolding fc_when_def iter_of_good pos_of_mid(1) k if_P [OF True]
      by (rule remove_step_wp [OF c1]) (use ne k in auto)
  next
    case False
    then have k: "kept v [r] = [r]" using r by simp
    show ?thesis
      unfolding fc_when_def if_not_P [OF False] wp_simps k
      by (rule increment_wp [OF c1], simp) (auto simp: r elim!: read_end_wp)
  qed
  then have "wp (remove_round v ?it) ?Q c"
    unfolding remove_round_def wp_fc(2)
    using read_data_wp [of c0 f "xs @ (q, d) # ys" c "length xs"] c r by auto
  then show ?thesis using that r by (auto simp: wp_def)
qed

lemma removeData_loop_round:
  "removeData_loop v it c = (let r = remove_round v it c in
     if isl (fst r) then Some (Inl (projl (fst r)), snd r)
     else let (iter', end) = projr (fst r)
          in if fi_current iter' \<noteq> end then removeData_loop v iter' (snd r) else Some (Inr (), snd r))"
  by (subst removeData_loop.simps) (simp only: remove_round_def)

lemma removeData_loop_ok:
  assumes "list_at c0 f (xs @ r # ys) c" "xs @ kept v (r # ys) \<noteq> []"
  shows "\<exists>c' f'. removeData_loop v (iter_of (xs @ r # ys) (length f) (length xs)) c = Some (Inr (), c') \<and>
    list_at c0 f' (xs @ kept v (r # ys)) c' \<and> length f' = length f"
  using assms
proof (induction ys arbitrary: xs r c f)
  case (Nil xs r c f)
  let ?it = "iter_of ((xs @ kept v [r]) @ []) (length f) (length (xs @ kept v [r]))"
  obtain c' f' where body: "remove_round v (iter_of (xs @ [r]) (length f) (length xs)) c = (Inr (?it, int (length f)), c')"
    "list_at c0 f' ((xs @ kept v [r]) @ []) c'" "length f' = length f"
    using remove_round_ok [of c0 f xs r "[]" c v] Nil by auto
  have "fi_current ?it = int (length f)" by (simp add: pos_of_simps)
  with body show ?case by (subst removeData_loop_round) auto
next
  case (Cons s ys xs r c f)
  let ?it = "iter_of ((xs @ kept v [r]) @ s # ys) (length f) (length (xs @ kept v [r]))"
  obtain c' f' where body: "remove_round v (iter_of (xs @ r # s # ys) (length f) (length xs)) c = (Inr (?it, int (length f)), c')"
    "list_at c0 f' ((xs @ kept v [r]) @ s # ys) c'" "length f' = length f"
    using remove_round_ok [of c0 f xs r "s # ys" c v] Cons(2) by auto
  have "fi_current ?it \<noteq> int (length f)"
    using end_iff_nil [OF body(2)] body(3) by simp
  with body(1) have "removeData_loop v (iter_of (xs @ r # s # ys) (length f) (length xs)) c = removeData_loop v ?it c'"
    by (subst removeData_loop_round) auto
  with Cons.IH [OF body(2)] Cons(3) body(3) show ?case by (auto split: if_splits)
qed

lemma removeData_wp:
  assumes s: "seq_at s0 f rs s" and "kept v rs \<noteq> []"
    and P: "\<And>f' s'. seq_at s0 f' (kept v rs) s' \<Longrightarrow> length f' = length f \<Longrightarrow> P () s'"
  shows "wp (removeData v) P s"
  unfolding removeData_def
proof (rule seq_lift [OF s, where R = "\<lambda>f'. length f' = length f"])
  fix Q assume Q: "\<And>c' f'. list_at (fs_container s0) f' (kept v rs) c' \<Longrightarrow> length f' = length f \<Longrightarrow> Q () c'"
  obtain r ys where rs: "rs = r # ys" using assms(2) by (cases rs) auto
  have g: "fi_good (FileIterator_new 0 0 0)" by (simp add: FileIterator_new_def)
  have "wp (\<lambda>c. case removeData_loop v (iter_of rs (length f) 0) c of None \<Rightarrow> (Inl Diverges, c) | Some r \<Rightarrow> r) Q c1"
    if "list_at (fs_container s0) f rs c1" for c1
    using removeData_loop_ok [of "fs_container s0" f "[]" r ys c1 v] that rs assms(2) Q by (auto simp: wp_def)
  then show "wp (fc_bind read_begin (\<lambda>begin. fc_bind (get_iterator begin (FileIterator_new 0 0 0)) (\<lambda>iter.
        \<lambda>c. case removeData_loop v iter c of None \<Rightarrow> (Inl Diverges, c) | Some r \<Rightarrow> r))) Q (fs_container s)"
    unfolding wp_fc(2)
    by (intro read_begin_wp [OF seq_atD(1) [OF s]], elim get_iterator_wp) (auto simp: g)
qed (rule P)

end
