(* ===== verification/File_List_Props.thy ===== *)
theory File_List_Props
  imports File_List_Erase
begin

text \<open>
  What the file list promises to the daemons that use it: a double-ended queue of
  elements, iterators that stay valid while other elements come and go, removal of one
  element, of a range and by value; and the corners in which it does not.
\<close>

section \<open>The queue a client sees\<close>

text \<open>What a client of a queue does: put values in, and take the first value out as often
  as it likes.\<close>

fun push_all :: "('v \<Rightarrow> 's \<Rightarrow> ('e + unit) \<times> 's) \<Rightarrow> 'v list \<Rightarrow> 's \<Rightarrow> ('e + unit) \<times> 's" where
  "push_all push [] s = (Inr (), s)"
| "push_all push (v # vs) s = (case push v s of (Inl e, s') \<Rightarrow> (Inl e, s') | (Inr _, s') \<Rightarrow> push_all push vs s')"

fun drain :: "('s \<Rightarrow> ('e + 'v) \<times> 's) \<Rightarrow> ('s \<Rightarrow> ('e + unit) \<times> 's) \<Rightarrow> nat \<Rightarrow> 's \<Rightarrow> ('e + 'v list) \<times> 's" where
  "drain look pop 0 s = (Inr [], s)"
| "drain look pop (Suc k) s = (case look s of (Inl e, s') \<Rightarrow> (Inl e, s') | (Inr v, s') \<Rightarrow>
     (case pop s' of (Inl e, s'') \<Rightarrow> (Inl e, s'') | (Inr _, s'') \<Rightarrow>
       (case drain look pop k s'' of (Inl e, t) \<Rightarrow> (Inl e, t) | (Inr vs, t) \<Rightarrow> (Inr (v # vs), t))))"

text \<open>A queue of values kept in a bounded store: \<open>rep s n vs\<close> says that \<open>s\<close> holds \<open>vs\<close> and uses
  \<open>n\<close> units of the \<open>cap\<close> that there are; \<open>ok\<close> are the values that can be stored.\<close>

locale bounded_queue =
  fixes rep :: "'s \<Rightarrow> nat \<Rightarrow> 'v list \<Rightarrow> bool"
    and ok :: "'v \<Rightarrow> bool" and cost :: "'v \<Rightarrow> nat" and cap :: nat
    and push :: "'v \<Rightarrow> 's \<Rightarrow> ('e + unit) \<times> 's"
    and pop :: "'s \<Rightarrow> ('e + unit) \<times> 's"
    and look :: "'s \<Rightarrow> ('e + 'v) \<times> 's"
  assumes push: "rep s n vs \<Longrightarrow> ok v \<Longrightarrow> n + cost v < cap \<Longrightarrow>
      \<exists>s'. push v s = (Inr (), s') \<and> rep s' (n + cost v) (vs @ [v])"
    and pop: "rep s n (v # vs) \<Longrightarrow> \<exists>s' m. pop s = (Inr (), s') \<and> rep s' m vs \<and> m \<le> n"
    and look: "rep s n (v # vs) \<Longrightarrow> \<exists>s'. look s = (Inr v, s') \<and> rep s' n (v # vs)"
begin

lemma push_all_rep:
  "rep s n vs \<Longrightarrow> \<forall>w\<in>set ws. ok w \<Longrightarrow> n + sum_list (map cost ws) < cap \<Longrightarrow>
    \<exists>s'. push_all push ws s = (Inr (), s') \<and> rep s' (n + sum_list (map cost ws)) (vs @ ws)"
proof (induction ws arbitrary: s n vs)
  case (Cons w ws)
  from Cons.prems push [of s n vs w] obtain s' where
    s': "push w s = (Inr (), s')" "rep s' (n + cost w) (vs @ [w])" by auto
  with Cons.IH [OF s'(2)] Cons.prems show ?case by (auto simp: add.assoc)
qed auto

lemma drain_rep:
  "rep s n (us @ vs) \<Longrightarrow> \<exists>s' m. drain look pop (length us) s = (Inr us, s') \<and> rep s' m vs \<and> m \<le> n"
proof (induction us arbitrary: s n)
  case (Cons u us)
  from Cons.prems look [of s n u "us @ vs"] obtain s1 where
    s1: "look s = (Inr u, s1)" "rep s1 n (u # us @ vs)" by auto
  from pop [OF s1(2)] obtain s2 m where s2: "pop s1 = (Inr (), s2)" "rep s2 m (us @ vs)" "m \<le> n" by blast
  from Cons.IH [OF s2(2)] obtain s3 k where "drain look pop (length us) s2 = (Inr us, s3)" "rep s3 k vs" "k \<le> m" by blast
  with s1 s2 show ?case by auto
qed auto

lemma fifo:
  assumes "rep s n vs" "\<forall>w\<in>set ws. ok w" "n + sum_list (map cost ws) < cap"
  shows "\<exists>s' m. drain look pop (length vs + length ws) (snd (push_all push ws s)) = (Inr (vs @ ws), s') \<and> rep s' m []"
proof -
  from push_all_rep [OF assms] obtain s1 where
    "push_all push ws s = (Inr (), s1)" "rep s1 (n + sum_list (map cost ws)) ((vs @ ws) @ [])" by auto
  with drain_rep [of s1 "n + sum_list (map cost ws)" "vs @ ws" "[]"] show ?thesis by auto
qed

end

text \<open>A converter whose printed elements are not empty and read back.\<close>

locale lossless =
  fixes cv :: "'a converter" and ok :: "'a \<Rightarrow> bool"
  assumes lossless: "ok v \<Longrightarrow> \<exists>d. to_string cv v = Some d \<and> d \<noteq> [] \<and> of_string cv d = Some v"

definition represents :: "'a converter \<Rightarrow> cells \<Rightarrow> 'a list \<Rightarrow> bool" where
  "represents cv rs vs \<longleftrightarrow> list_all2 (\<lambda>r v. of_string cv (snd r) = Some v) rs vs"

definition queue_rep :: "'a converter \<Rightarrow> file_sequence \<Rightarrow> nat \<Rightarrow> 'a list \<Rightarrow> bool" where
  "queue_rep cv s n vs \<longleftrightarrow> (\<exists>f rs. seq_at s f rs s \<and> length f = n \<and> represents cv rs vs)"

definition element_cost :: "'a converter \<Rightarrow> 'a \<Rightarrow> nat" where
  "element_cost cv v = (case to_string cv v of Some d \<Rightarrow> 95 + length d | None \<Rightarrow> 0)"

lemma seq_at_refl: "seq_at s0 f rs s \<Longrightarrow> seq_at s f rs s"
  by (simp add: seq_at_def list_at_def same_env_def)

lemma represents_Cons:
  "represents cv rs (v # vs) \<longleftrightarrow> (\<exists>q d qs. rs = (q, d) # qs \<and> of_string cv d = Some v \<and> represents cv qs vs)"
  by (auto simp: represents_def list_all2_Cons2)

lemma represents_snoc:
  "represents cv rs vs \<Longrightarrow> of_string cv d = Some v \<Longrightarrow> represents cv (rs @ [(q, d)]) (vs @ [v])"
  by (simp add: represents_def list_all2_appendI)

lemma push_back_rep:
  assumes "lossless cv ok" "queue_rep cv s n vs" "ok v" "n + element_cost cv v < 2 ^ 63"
  shows "\<exists>s'. push_back cv v s = (Inr (), s') \<and> queue_rep cv s' (n + element_cost cv v) (vs @ [v])"
proof -
  from assms(2) obtain f rs where s: "seq_at s f rs s" "length f = n" "represents cv rs vs" by (auto simp: queue_rep_def)
  from assms(1,3) obtain d where d: "to_string cv v = Some d" "d \<noteq> []" "of_string cv d = Some v"
    by (auto simp: lossless_def)
  have "fits d (length f)" using assms(4) d s(2) by (simp add: fits_def element_cost_def)
  then have "wp (push_back cv v) (\<lambda>_ s'. \<exists>f'. seq_at s f' (rs @ [(length f, d)]) s' \<and> length f' = length f + 95 + length d) s"
    by (rule push_back_wp [OF s(1) d(1)]) blast
  with s d(1) represents_snoc [OF s(3) d(3)] seq_at_refl show ?thesis
    by (fastforce simp: wp_def queue_rep_def element_cost_def)
qed

lemma pop_front_rep:
  assumes "queue_rep cv s n (v # vs)"
  shows "\<exists>s' m. pop_front s = (Inr (), s') \<and> queue_rep cv s' m vs \<and> m \<le> n"
proof -
  from assms obtain f q d qs where s: "seq_at s f ((q, d) # qs) s" "length f = n" "represents cv qs vs"
    by (auto simp: queue_rep_def represents_Cons)
  have n: "391 \<le> length f" using s(1) file_okD(3) by (auto simp: seq_at_def elim!: list_atE)
  have "wp pop_front (\<lambda>_ s'. \<exists>f'. seq_at s f' qs s' \<and> length f' \<le> length f) s"
    by (rule pop_front_wp [OF s(1)]) (use n in auto)
  with s seq_at_refl show ?thesis by (fastforce simp: wp_def queue_rep_def)
qed

lemma fl_front_rep:
  assumes "queue_rep cv s n (v # vs)"
  shows "\<exists>s'. fl_front cv s = (Inr v, s') \<and> queue_rep cv s' n (v # vs)"
proof -
  from assms obtain f q d qs where s: "seq_at s f ((q, d) # qs) s" "length f = n" "of_string cv d = Some v"
    "represents cv ((q, d) # qs) (v # vs)" by (auto simp: queue_rep_def represents_Cons)
  have "wp (fl_front cv) (\<lambda>x s'. x = v \<and> seq_at s f ((q, d) # qs) s') s"
    by (rule fl_front_wp [OF s(1)]) (use s(3) in auto)
  with s seq_at_refl show ?thesis by (fastforce simp: wp_def queue_rep_def)
qed

sublocale lossless \<subseteq> bounded_queue "queue_rep cv" ok "element_cost cv" "2 ^ 63" "push_back cv" pop_front "fl_front cv"
  by unfold_locales (rule push_back_rep [OF lossless_axioms] pop_front_rep fl_front_rep; assumption)+

context lossless
begin

lemma queue_fifo:
  assumes "queue_rep cv s n vs" "\<forall>w\<in>set ws. ok w" "n + sum_list (map (element_cost cv) ws) < 2 ^ 63"
  shows "\<exists>s' m. drain (fl_front cv) pop_front (length vs + length ws) (snd (push_all (push_back cv) ws s)) =
      (Inr (vs @ ws), s') \<and> queue_rep cv s' m []"
  using assms by (rule fifo)

end

text \<open>The converter of the specialisation for strings, which copies.\<close>

definition string_converter :: "string converter" where
  "string_converter = \<lparr>to_string = Some, of_string = Some\<rparr>"

interpretation strings: lossless string_converter "\<lambda>v. v \<noteq> []"
  by unfold_locales (simp add: string_converter_def)

section \<open>A list to try them on\<close>

definition two_seq :: file_sequence where
  "two_seq = file_sequence_new 7 two_list"

lemma two_seq: "\<exists>f. seq_at two_seq f [(391, ''alpha''), (491, ''beta'')] two_seq \<and> length f = 590"
  using two_list
  by (auto simp: two_seq_def file_sequence_new_def seq_at_def list_at_def same_env_def base_iterator_on_def
      FileIterator_new_def)

definition iter_at :: "nat \<Rightarrow> FileIterator \<Rightarrow> string fl_iterator" where
  "iter_at addr it = \<lparr>fli_base = (base_iterator_on addr)\<lparr>bi_iterator := it\<rparr>, fli_object = None\<rparr>"

lemma points_iter_at: "points s L rs i (fli_base (iter_at (fs_address s) (iter_of rs L i)))"
  by (simp add: iter_at_def points_def base_iterator_on_def)

section \<open>The properties\<close>

text \<open>C19: the file list is a queue. Values pushed at the back of a list come out at the
  front after the ones it held, in their order, each exactly once, and leave it empty,
  for every type whose converter prints non-empty text that reads back and as long as the
  file stays below \<open>2 ^ 63\<close> bytes.\<close>

theorem filelist_fifo:
  assumes "lossless cv ok" "queue_rep cv s n vs" "\<forall>w\<in>set ws. ok w" "n + sum_list (map (element_cost cv) ws) < 2 ^ 63"
  shows "\<exists>s' m. drain (fl_front cv) pop_front (length vs + length ws) (snd (push_all (push_back cv) ws s)) =
      (Inr (vs @ ws), s') \<and> queue_rep cv s' m []"
  using assms by (rule lossless.queue_fifo)

theorem filelist_fifo_witness:
  "fst (drain (fl_front string_converter) pop_front 4
     (snd (push_all (push_back string_converter) [''x'', ''yz''] two_seq))) = Inr [''alpha'', ''beta'', ''x'', ''yz'']"
proof -
  obtain f where f: "seq_at two_seq f [(391, ''alpha''), (491, ''beta'')] two_seq" "length f = 590" using two_seq by blast
  then have "queue_rep string_converter two_seq 590 [''alpha'', ''beta'']"
    unfolding queue_rep_def by (intro exI conjI) (auto simp: represents_def string_converter_def)
  moreover have "590 + sum_list (map (element_cost string_converter) [''x'', ''yz'']) < 2 ^ 63"
    by (simp add: element_cost_def string_converter_def)
  ultimately obtain s' where "drain (fl_front string_converter) pop_front (length [''alpha'', ''beta''] + length [''x'', ''yz''])
      (snd (push_all (push_back string_converter) [''x'', ''yz''] two_seq)) = (Inr ([''alpha'', ''beta''] @ [''x'', ''yz'']), s')"
    using filelist_fifo [OF strings.lossless_axioms, of two_seq 590 "[''alpha'', ''beta'']" "[''x'', ''yz'']"] by force
  moreover have "length [''alpha'', ''beta''] + length [''x'', ''yz''] = 4" by simp
  ultimately show ?thesis by (metis append_Cons append_Nil fst_conv)
qed

text \<open>\<open>erase\<close> removes the element an iterator stands on, keeps the others in their order
  and returns the iterator of the element after it, with its data read.\<close>

theorem fl_erase_removes:
  assumes "seq_at s f (xs @ (q, d) # ys) s" "points s (length f) (xs @ (q, d) # ys) (length xs) (fli_base it)"
  shows "\<exists>it' s' f'. fl_erase it s = (Inr it', s') \<and> seq_at s f' (xs @ ys) s' \<and>
    shows_cell s (length f') (xs @ ys) (length xs) (fli_base it')"
proof -
  have b: "bi_position (fli_base it) = int q" using points_position [OF assms(2)] by (simp add: pos_of_mid)
  have "wp (fl_erase it) (\<lambda>it' s'. \<exists>f'. seq_at s f' (xs @ ys) s' \<and>
      shows_cell s (length f') (xs @ ys) (length xs) (fli_base it')) s"
    unfolding fl_erase_def wp_simps
  proof (rule erasePointer_wp [OF assms(1) b])
    fix b' f' s' assume a: "seq_at s f' (xs @ ys) s'" "points s (length f') (xs @ ys) (length xs) b'"
    show "wp (on_container (FLIterator_of b')) (\<lambda>it' s'. \<exists>f'. seq_at s f' (xs @ ys) s' \<and>
        shows_cell s (length f') (xs @ ys) (length xs) (fli_base it')) s'"
      by (rule seq_step [OF a(1), where R = "\<lambda>it. shows_cell s (length f') (xs @ ys) (length xs) (fli_base it)"])
        (use a in \<open>auto intro: FLIterator_of_wp seq_atD\<close>)
  qed
  then show ?thesis by (auto simp: wp_def)
qed

theorem fl_erase_removes_witness:
  "\<exists>it s f. fl_erase (iter_at 7 (fi 0 491 391)) two_seq = (Inr it, s) \<and> seq_at two_seq f [(491, ''beta'')] s \<and>
    bi_data (fli_base it) = ''beta''"
proof -
  obtain f where f: "seq_at two_seq f ([] @ (391, ''alpha'') # [(491, ''beta'')]) two_seq" "length f = 590"
    using two_seq by auto
  have a: "fs_address two_seq = 7" by (simp add: two_seq_def file_sequence_new_def)
  from fl_erase_removes [OF f(1) points_iter_at] f(2) show ?thesis
    by (auto simp: a iter_of_def pos_of_def shows_cell_def)
qed

text \<open>Inserting a range. The elements are put in their order in front of the one the
  iterator stands on, or at the end of the list; every other element keeps its place.\<close>

lemma insert_range_end_wp:
  assumes "seq_at s0 f rs s" "list_all2 (\<lambda>v d. to_string cv v = Some d \<and> d \<noteq> []) vs ds"
    "length f + sum_list (map (\<lambda>d. 95 + length d) ds) < 2 ^ 63"
    "\<And>f' rs' s'. seq_at s0 f' (rs @ rs') s' \<Longrightarrow> map snd rs' = ds \<Longrightarrow> P () s'"
  shows "wp (insert_range_end cv vs) P s"
  using assms
proof (induction vs arbitrary: f rs s ds)
  case Nil
  then show ?case using Nil(4) [of f "[]"] by (simp add: wp_simps)
next
  case (Cons v vs)
  then obtain d es where ds: "ds = d # es" "to_string cv v = Some d" "d \<noteq> []"
    "list_all2 (\<lambda>v d. to_string cv v = Some d \<and> d \<noteq> []) vs es" by (auto simp: list_all2_Cons1)
  have fit: "fits d (length f)" using Cons.prems(3) ds by (simp add: fits_def)
  show ?case
    unfolding insert_range_end.simps wp_simps
  proof (rule push_back_wp [OF Cons.prems(1) ds(2) fit])
    fix f' s' assume a: "seq_at s0 f' (rs @ [(length f, d)]) s'" "length f' = length f + 95 + length d"
    show "wp (insert_range_end cv vs) P s'"
    proof (rule Cons.IH [OF a(1) ds(4)])
      fix f2 rs2 s2 assume "seq_at s0 f2 ((rs @ [(length f, d)]) @ rs2) s2" "map snd rs2 = es"
      then show "P () s2" using Cons.prems(4) [of f2 "(length f, d) # rs2" s2] ds(1) by simp
    qed (use Cons.prems(3) ds(1) a(2) in simp)
  qed
qed

lemma insert_range_at_wp:
  assumes "seq_at s0 f (xs @ y # ys) s" "bi_position b = int (fst y)"
    "list_all2 (\<lambda>v d. to_string cv v = Some d \<and> d \<noteq> []) vs ds"
    "length f + sum_list (map (\<lambda>d. 95 + length d) ds) < 2 ^ 63"
    "\<And>f' rs' s'. seq_at s0 f' (xs @ rs' @ y # ys) s' \<Longrightarrow> map snd rs' = ds \<Longrightarrow> P () s'"
  shows "wp (insert_range_at cv b vs) P s"
  using assms
proof (induction vs arbitrary: f xs s ds)
  case Nil
  then show ?case using Nil(5) [of f "[]"] by (simp add: wp_simps)
next
  case (Cons v vs)
  then obtain d es where ds: "ds = d # es" "to_string cv v = Some d" "d \<noteq> []"
    "list_all2 (\<lambda>v d. to_string cv v = Some d \<and> d \<noteq> []) vs es" by (auto simp: list_all2_Cons1)
  have fit: "fits d (length f)" using Cons.prems(4) ds by (simp add: fits_def)
  have pos: "bi_position b = int (pos_of (xs @ y # ys) (length f) (length xs))"
    using Cons.prems(2) by (simp add: pos_of_def)
  show ?case
    unfolding insert_range_at.simps wp_simps
  proof (rule convert_to_step [OF Cons.prems(1) ds(2)], rule insertData_wp [OF Cons.prems(1) pos fit])
    fix b' f' s' assume a: "seq_at s0 f' (xs @ (length f, d) # y # ys) s'" "length f' = length f + 95 + length d"
    have a': "seq_at s0 f' ((xs @ [(length f, d)]) @ y # ys) s'" using a(1) by simp
    show "wp (insert_range_at cv b vs) P s'"
    proof (rule Cons.IH [OF a' Cons.prems(2) ds(4)])
      fix f2 rs2 s2 assume "seq_at s0 f2 ((xs @ [(length f, d)]) @ rs2 @ y # ys) s2" "map snd rs2 = es"
      then show "P () s2" using Cons.prems(5) [of f2 "(length f, d) # rs2" s2] ds(1) by simp
    qed (use Cons.prems(4) ds(1) a(2) in simp)
  qed
qed

theorem insert_range_inserts:
  assumes "seq_at s f (xs @ ys) s" "points s (length f) (xs @ ys) (length xs) (fli_base it)"
    "list_all2 (\<lambda>v d. to_string cv v = Some d \<and> d \<noteq> []) vs ds"
    "length f + sum_list (map (\<lambda>d. 95 + length d) ds) < 2 ^ 63"
  shows "\<exists>s' f' rs'. insert_range cv it vs s = (Inr (), s') \<and> seq_at s f' (xs @ rs' @ ys) s' \<and> map snd rs' = ds"
proof -
  let ?Q = "\<lambda>(_::unit) s'. \<exists>f' rs'. seq_at s f' (xs @ rs' @ ys) s' \<and> map snd rs' = ds"
  have "wp (insert_range cv it vs) ?Q s"
    unfolding insert_range_def wp_simps
  proof (rule getBegin_wp [OF assms(1)], rule getEnd_wp, assumption)
    fix e s' assume s': "seq_at s f (xs @ ys) s'" and e: "points s (length f) (xs @ ys) (length (xs @ ys)) e"
    have eq: "bi_is_equal (fli_base it) e \<longleftrightarrow> ys = []"
      using assms(2) e points_position [OF assms(2)] points_position [OF e] end_iff_nil [OF seq_atD(1) [OF s']]
        pos_of_length [of "xs @ ys" "length f"]
      by (simp add: bi_is_equal_def points_def)
    show "wp (if bi_is_equal (fli_base it) e then insert_range_end cv vs else insert_range_at cv (fli_base it) vs) ?Q s'"
    proof (cases ys)
      case Nil
      then have "wp (insert_range_end cv vs) ?Q s'"
        using insert_range_end_wp [OF _ assms(3,4), of s xs s' ?Q] s' by fastforce
      then show ?thesis using eq Nil by simp
    next
      case (Cons y zs)
      have b: "bi_position (fli_base it) = int (fst y)"
        using points_position [OF assms(2)] Cons by (simp add: pos_of_def)
      have "wp (insert_range_at cv (fli_base it) vs) ?Q s'"
        using insert_range_at_wp [OF _ b assms(3,4), of s xs zs s' ?Q] s' Cons by fastforce
      then show ?thesis using eq Cons by simp
    qed
  qed
  then show ?thesis by (auto simp: wp_def)
qed

theorem insert_range_inserts_witness:
  "\<exists>s f rs. insert_range string_converter (iter_at 7 (fi 391 590 491)) [''x'', ''y''] two_seq = (Inr (), s) \<and>
    seq_at two_seq f rs s \<and> map snd rs = [''alpha'', ''x'', ''y'', ''beta'']"
proof -
  obtain f where f: "seq_at two_seq f ([(391, ''alpha'')] @ [(491, ''beta'')]) two_seq" "length f = 590"
    using two_seq by auto
  have a: "fs_address two_seq = 7" by (simp add: two_seq_def file_sequence_new_def)
  have "iter_of ([(391, ''alpha'')] @ [(491, ''beta'')]) (length f) (length [(391::nat, ''alpha'')]) = fi 391 590 491"
    using f(2) by (simp add: iter_of_def pos_of_def)
  with insert_range_inserts [OF f(1) points_iter_at, of string_converter "[''x'', ''y'']" "[''x'', ''y'']"] f(2) a
  show ?thesis by (fastforce simp: string_converter_def)
qed

text \<open>removal by value ends and removes exactly the elements with that value, as long as
  another element stays in the list.\<close>

theorem removeData_filters:
  assumes "seq_at s f rs s" "\<exists>r\<in>set rs. snd r \<noteq> v"
  shows "\<exists>s' f'. removeData v s = (Inr (), s') \<and> seq_at s f' (filter (\<lambda>r. snd r \<noteq> v) rs) s'"
proof -
  have "kept v rs \<noteq> []" using assms(2) by (simp add: filter_empty_conv)
  from removeData_wp [OF assms(1) this, of "\<lambda>_ s'. \<exists>f'. seq_at s f' (kept v rs) s'"] show ?thesis
    by (auto simp: wp_def)
qed

theorem removeData_filters_witness:
  "\<exists>s f. removeData ''alpha'' two_seq = (Inr (), s) \<and> seq_at two_seq f [(491, ''beta'')] s"
proof -
  obtain f where f: "seq_at two_seq f [(391, ''alpha''), (491, ''beta'')] two_seq" using two_seq by blast
  from removeData_filters [OF f, of "''alpha''"] show ?thesis by simp
qed

text \<open>Erasing a range ends, removes the elements from the first iterator up to the second
  one and returns the iterator of the element after them, as long as an element outside
  the range stays.\<close>

theorem fl_erase_range_removes:
  assumes "seq_at s f (xs @ ys @ zs) s" "ys \<noteq> []" "xs @ zs \<noteq> []"
    "points s (length f) (xs @ ys @ zs) (length xs) (fli_base it)"
    "points s (length f) (xs @ ys @ zs) (length (xs @ ys)) (fli_base it2)"
  shows "\<exists>it' s' f'. fl_erase_range it it2 s = (Inr it', s') \<and> seq_at s f' (xs @ zs) s' \<and>
    shows_cell s (length f') (xs @ zs) (length xs) (fli_base it')"
proof -
  let ?Q = "\<lambda>it' s'. \<exists>f'. seq_at s f' (xs @ zs) s' \<and> shows_cell s (length f') (xs @ zs) (length xs) (fli_base it')"
  obtain y ys' where ys: "ys = y # ys'" using assms(2) by (cases ys) auto
  define stop where "stop = next_cell zs (length f)"
  have s: "seq_at s f (xs @ y # ys' @ zs) s" using assms(1) ys by simp
  have b: "points s (length f) (xs @ y # ys' @ zs) (length xs) (fli_base it)" using assms(4) ys by simp
  have e: "bi_position (fli_base it2) = int stop"
    using points_position [OF assms(5)] by (simp add: pos_of_def stop_def)
  from s obtain h where fo: "file_ok f h (xs @ y # ys' @ zs)" by (auto simp: seq_at_def elim: list_atE)
  have "apart (y # ys' @ zs)" "\<forall>r\<in>set (xs @ y # ys' @ zs). cell_end r \<le> length f"
    using file_okD(17) [OF fo] chain_cells [OF file_okD(16) [OF fo]] by (simp_all add: apart_append)
  then have st: "\<forall>t\<in>set ys'. fst t \<noteq> stop"
    by (cases zs) (force simp: stop_def cell_end_def next_cell_def apart_append)+
  have z: "zs = [] \<or> fst (hd zs) = stop" by (cases zs) (simp_all add: stop_def next_cell_def)
  have "wp (fl_erase_range it it2) ?Q s"
    unfolding fl_erase_range_def wp_simps
  proof (rule eraseInterval_wp [OF s st z assms(3) b e])
    fix b' f' s' assume a: "seq_at s f' (xs @ zs) s'" "points s (length f') (xs @ zs) (length xs) b'"
    show "wp (on_container (FLIterator_of b')) ?Q s'"
      by (rule seq_step [OF a(1), where R = "\<lambda>it. shows_cell s (length f') (xs @ zs) (length xs) (fli_base it)"])
        (use a in \<open>auto intro: FLIterator_of_wp seq_atD\<close>)
  qed
  then show ?thesis by (auto simp: wp_def)
qed

theorem fl_erase_range_removes_witness:
  "\<exists>it s f. fl_erase_range (iter_at 7 (fi 0 491 391)) (iter_at 7 (fi 391 590 491)) two_seq = (Inr it, s) \<and>
    seq_at two_seq f [(491, ''beta'')] s \<and> bi_data (fli_base it) = ''beta''"
proof -
  obtain f where f: "seq_at two_seq f ([] @ [(391, ''alpha'')] @ [(491, ''beta'')]) two_seq" "length f = 590"
    using two_seq by auto
  have a: "fs_address two_seq = 7" by (simp add: two_seq_def file_sequence_new_def)
  have i: "iter_of ([] @ [(391, ''alpha'')] @ [(491, ''beta'')]) (length f) (length ([] :: cells)) = fi 0 491 391"
    "iter_of ([] @ [(391, ''alpha'')] @ [(491, ''beta'')]) (length f) (length ([] @ [(391::nat, ''alpha'')])) = fi 391 590 491"
    using f(2) by (simp_all add: iter_of_def pos_of_def)
  from fl_erase_range_removes [OF f(1) _ _ points_iter_at points_iter_at, unfolded i a] show ?thesis
    by (auto simp: shows_cell_def)
qed

text \<open>an empty range is not left alone. The loop of \<open>eraseInterval\<close> removes before it tests,
  so erasing from an iterator up to the same iterator removes that element and every
  one after it (here when an element comes before it).\<close>

theorem erase_empty_range_erases:
  assumes "seq_at s f (xs @ ys) s" "xs \<noteq> []" "ys \<noteq> []" "points s (length f) (xs @ ys) (length xs) b"
  shows "\<exists>b' s' f'. eraseInterval b b s = (Inr b', s') \<and> seq_at s f' xs s'"
proof -
  obtain y zs where ys: "ys = y # zs" using assms(3) by (cases ys) auto
  have s: "seq_at s f (xs @ y # zs @ []) s" and b: "points s (length f) (xs @ y # zs @ []) (length xs) b"
    using assms(1,4) ys by simp_all
  from s obtain h where fo: "file_ok f h (xs @ y # zs)" by (auto simp: seq_at_def elim: list_atE)
  have "apart (y # zs)" using file_okD(17) [OF fo] by (simp add: apart_append)
  then have "\<forall>t\<in>set zs. fst t \<noteq> fst y" by (force simp: cell_end_def)
  moreover have "bi_position b = int (fst y)" using points_position [OF b] by (simp add: pos_of_def)
  ultimately have "wp (eraseInterval b b) (\<lambda>_ s'. \<exists>f'. seq_at s f' xs s') s"
    using eraseInterval_wp [OF s _ _ _ b, of "fst y" b "\<lambda>_ s'. \<exists>f'. seq_at s f' xs s'"] assms(2) by auto
  then show ?thesis by (auto simp: wp_def)
qed

theorem erase_empty_range_erases_witness:
  "\<exists>b s f. eraseInterval (fli_base (iter_at 7 (fi 391 590 491))) (fli_base (iter_at 7 (fi 391 590 491))) two_seq = (Inr b, s) \<and>
    seq_at two_seq f [(391, ''alpha'')] s"
proof -
  obtain f where f: "seq_at two_seq f ([(391, ''alpha'')] @ [(491, ''beta'')]) two_seq" "length f = 590"
    using two_seq by auto
  have a: "fs_address two_seq = 7" by (simp add: two_seq_def file_sequence_new_def)
  have i: "iter_of ([(391, ''alpha'')] @ [(491, ''beta'')]) (length f) (length [(391::nat, ''alpha'')]) = fi 391 590 491"
    using f(2) by (simp add: iter_of_def pos_of_def)
  from erase_empty_range_erases [OF f(1) _ _ points_iter_at, unfolded i a] show ?thesis by auto
qed

text \<open>Removing the last element by value fails after it has been removed. The element is
  gone, the file is cut back to its header, and the step to the next element leads to a
  position beyond the end: the exception \<open>unavailable_position\<close> (for an element that is not
  the first one of the file).\<close>

lemma removeData_only_loop:
  assumes c: "list_at c0 f [(q, v)] c" and q: "q \<noteq> 391"
  shows "\<exists>c' f'. removeData_loop v (iter_of [(q, v)] (length f) 0) c = Some (Inl (Code unavailable_position), c') \<and>
    list_at c0 f' [] c'"
proof -
  let ?it = "iter_of [(q, v)] (length f) 0"
  have it: "?it = fi 0 (length f) q" by (simp add: iter_of_def pos_of_def)
  have step: "\<exists>c2. increment_iterator ?it c1 = (Inl (Code unavailable_position), c2) \<and> list_at c0 f' [] c2"
    if a: "list_at c0 f' [] c1" "length f' = 391" for c1 f'
  proof -
    from a(1) obtain p tr h where k: "c1 = fc_at c1 f' p tr" "file_ok f' h []" "attached c1 h []" "same_env c0 c1"
      by (rule list_atE)
    obtain c2 p2 where p: "prepare_end True (fc_at c1 f' p tr) = (Inr (int (length f')), fc_at c2 f' p2 tr)"
      "fresh c2 h []" "same_env c1 c2"
      using prepare_end_ok [OF k(2,3), of True p tr] by blast
    from c obtain h' where fo: "file_ok f h' [(q, v)]" by (auto elim: list_atE)
    have "391 \<le> q" "q < length f" using chain_nth [OF file_okD(16) [OF fo], of 0] by (auto simp: pos_of_def)
    with q a(2) have "readIterator (int q) ?it False (fc_at c2 f' p2 tr) =
        (Inl (Code unavailable_position), fc_at c2 f' 391 tr)"
      by (simp add: readIterator_def)
    moreover have "increment_iterator ?it (fc_at c1 f' p tr) =
        fc_bind (readIterator (int q) ?it False) (\<lambda>it. readIterator (fi_next it) it False) (fc_at c2 f' p2 tr)"
      using p(1) a(2) \<open>391 \<le> q\<close> \<open>q < length f\<close> by (simp add: increment_iterator_def increment_with_def it)
    ultimately have "increment_iterator ?it (fc_at c1 f' p tr) = (Inl (Code unavailable_position), fc_at c2 f' 391 tr)"
      by simp
    with k p(2,3) same_env_trans list_atI [OF k(2) p(2)] show ?thesis by metis
  qed
  have "wp (read_data (fi_current ?it) ?it False) (\<lambda>x c1. x = (v, ?it) \<and> list_at c0 f [(q, v)] c1) c"
    using read_data_wp [OF c, of 0 "\<lambda>x c1. x = (v, ?it) \<and> list_at c0 f [(q, v)] c1"] by simp
  then obtain c1 where r1: "read_data (fi_current ?it) ?it False c = (Inr (v, ?it), c1)" "list_at c0 f [(q, v)] c1"
    by (auto simp: wp_def)
  have "wp (remove_data (int q)) (\<lambda>_ c2. \<exists>f'. list_at c0 f' [] c2 \<and> length f' = 391) c1"
    using remove_data_wp [of c0 f "[]" q v "[]" c1 "\<lambda>_ c2. \<exists>f'. list_at c0 f' [] c2 \<and> length f' = 391"] r1(2) by auto
  then obtain c2 f2 where r2: "remove_data (int q) c1 = (Inr (), c2)" "list_at c0 f2 [] c2" "length f2 = 391"
    by (auto simp: wp_def)
  obtain c3 where r3: "increment_iterator ?it c2 = (Inl (Code unavailable_position), c3)" "list_at c0 f2 [] c3"
    using step [OF r2(2,3)] by blast
  have pq: "fi_current ?it = int q" by (simp add: it)
  have "remove_round v ?it c = (Inl (Code unavailable_position), c3)"
    unfolding remove_round_def using r1(1) r2(1) r3(1) unfolding pq
    by (simp add: fc_bind_def fc_then_def fc_when_def pos_of_def)
  with r3(2) show ?thesis by (subst removeData_loop_round) auto
qed

lemma throw_fst: "fst (throwErrorAndDumpFile st (fc_at c f p tr)) = Inl (Code st)"
  by (simp add: throwErrorAndDumpFile_def dumpFile_def backupFile_def Let_def split: prod.splits option.splits)

theorem removeData_only_throws:
  assumes "seq_at s f [(q, v)] s" "q \<noteq> 391"
  shows "fst (removeData v s) = Inl (Code unavailable_position)"
proof -
  have g: "fi_good (FileIterator_new 0 0 0)" by (simp add: FileIterator_new_def)
  let ?Q = "\<lambda>it c. it = iter_of [(q, v)] (length f) 0 \<and> list_at (fs_container s) f [(q, v)] c"
  have "wp (fc_bind read_begin (\<lambda>begin. get_iterator begin (FileIterator_new 0 0 0))) ?Q (fs_container s)"
    unfolding wp_simps
    by (rule read_begin_wp [OF seq_atD(1) [OF assms(1)]], erule get_iterator_wp) (auto simp: g)
  then obtain c1 where r: "fc_bind read_begin (\<lambda>begin. get_iterator begin (FileIterator_new 0 0 0)) (fs_container s) =
      (Inr (iter_of [(q, v)] (length f) 0), c1)" "list_at (fs_container s) f [(q, v)] c1"
    by (auto simp: wp_def)
  obtain c2 f2 where l: "removeData_loop v (iter_of [(q, v)] (length f) 0) c1 = Some (Inl (Code unavailable_position), c2)"
    "list_at (fs_container s) f2 [] c2" using removeData_only_loop [OF r(2) assms(2)] by blast
  have "fc_bind read_begin (\<lambda>begin. fc_bind (get_iterator begin (FileIterator_new 0 0 0)) (\<lambda>iter.
        \<lambda>c. case removeData_loop v iter c of None \<Rightarrow> (Inl Diverges, c) | Some r \<Rightarrow> r)) (fs_container s) =
      (Inl (Code unavailable_position), c2)"
    using r(1) l(1) by (auto simp: fc_bind_def split: prod.splits sum.splits)
  moreover from l(2) obtain p tr where "c2 = fc_at c2 f2 p tr" by (rule list_atE)
  then have "fst (throwErrorAndDumpFile unavailable_position c2 :: (fc_failure + unit) \<times> file_container) =
      Inl (Code unavailable_position)"
    by (metis throw_fst)
  ultimately show ?thesis
    by (cases "throwErrorAndDumpFile unavailable_position c2 :: (fc_failure + unit) \<times> file_container")
      (auto simp: removeData_def on_container_def throwing_def split: prod.splits)
qed

theorem removeData_only_throws_witness:
  "fst (removeData ''beta'' (snd (pop_front two_seq))) = Inl (Code unavailable_position)"
proof -
  obtain f where f: "seq_at two_seq f [(391, ''alpha''), (491, ''beta'')] two_seq" using two_seq by blast
  have "wp pop_front (\<lambda>_ s'. \<exists>f'. seq_at two_seq f' [(491, ''beta'')] s') two_seq"
    by (rule pop_front_wp [OF f]) auto
  then obtain f' where "seq_at (snd (pop_front two_seq)) f' [(491, ''beta'')] (snd (pop_front two_seq))"
    using seq_at_refl by (fastforce simp: wp_def)
  from removeData_only_throws [OF this] show ?thesis by simp
qed

end
