(* ===== verification/Id_Container.thy ===== *)
theory Id_Container
  imports File_List "HOL-Library.List_Lexorder" "HOL-Library.Char_ord"
begin

text \<open>
  The table of submitted jobs of \<^verbatim>\<open>org.glite.wms.jobsubmission/src/common\<close>: \<^verbatim>\<open>pointer_id\<close> (one
  job: its grid identifier, its Condor identifier, its position in the file list),
  \<^verbatim>\<open>id_container\<close> (the table, with its file list and two sorted index vectors) and
  \<^verbatim>\<open>ram_container\<close> (the table in memory only).

  The nodes of a \<^verbatim>\<open>std::list<PointerId>\<close> keep their address while they live: the list is
  an association list from addresses to nodes and the entries of the vectors hold
  addresses. Using an entry whose node has been erased is the failure \<open>Dangling\<close>.
  An exception of the file list is \<open>Thrown\<close>.

  The ClassAd library is a parameter. Not modelled: \<^verbatim>\<open>PointerId::job_ad\<close> and
  \<^verbatim>\<open>proxy_file\<close>, which read the job's ad from another file, and the file lock that each
  operation holds while it runs.
\<close>

section \<open>The ClassAd library\<close>

record 'ad classad_api =
  ad_new :: 'ad
  ad_insert_str :: "string \<Rightarrow> string \<Rightarrow> 'ad \<Rightarrow> 'ad"
  ad_insert_int :: "string \<Rightarrow> int \<Rightarrow> 'ad \<Rightarrow> 'ad"
  ad_eval_str :: "string \<Rightarrow> 'ad \<Rightarrow> string option"
  ad_eval_num :: "string \<Rightarrow> 'ad \<Rightarrow> int option"
  ad_update :: "'ad \<Rightarrow> 'ad \<Rightarrow> 'ad"
  ad_unparse :: "'ad \<Rightarrow> string"
  ad_parse :: "string \<Rightarrow> 'ad option"

text \<open>\<^verbatim>\<open>StdConverter<classad::ClassAd>\<close>: printing never throws, a null pointer from the parser
  does.\<close>

definition ad_converter :: "'ad classad_api \<Rightarrow> 'ad converter" where
  "ad_converter api = \<lparr>to_string = (\<lambda>a. Some (ad_unparse api a)), of_string = ad_parse api\<rparr>"

section \<open>\<open>PointerId\<close>, \<open>EdgId\<close>, \<open>CondorId\<close>\<close>

record 'ad pointer_id =
  pi_condorStatus :: int
  pi_lastStatus :: int
  pi_retryCount :: int
  pi_position :: "'ad fl_iterator"
  pi_condorId :: string
  pi_edgId :: string
  pi_sequenceCode :: string

definition undefined_status :: int where "undefined_status = -2"

definition pi_s_CondorId :: string where "pi_s_CondorId = ''CondorId''"
definition pi_s_EdgId :: string where "pi_s_EdgId = ''EdgId''"
definition pi_s_SequenceCode :: string where "pi_s_SequenceCode = ''SequenceCode''"
definition pi_s_CondorStatus :: string where "pi_s_CondorStatus = ''CondorStatus''"
definition pi_s_LastStatus :: string where "pi_s_LastStatus = ''LastStatus''"
definition pi_s_RetryCount :: string where "pi_s_RetryCount = ''RetryCount''"

text \<open>\<open>EvaluateAttrString( name, var )\<close> leaves the variable alone when the attribute is missing.\<close>

definition eval_or :: "'v option \<Rightarrow> 'v \<Rightarrow> 'v" where
  "eval_or r old = (case r of Some v \<Rightarrow> v | None \<Rightarrow> old)"

definition pointer_eval :: "'ad classad_api \<Rightarrow> 'ad \<Rightarrow> 'ad pointer_id \<Rightarrow> 'ad pointer_id" where
  "pointer_eval api ad p = p\<lparr>
     pi_condorId := eval_or (ad_eval_str api pi_s_CondorId ad) (pi_condorId p),
     pi_edgId := eval_or (ad_eval_str api pi_s_EdgId ad) (pi_edgId p),
     pi_sequenceCode := eval_or (ad_eval_str api pi_s_SequenceCode ad) (pi_sequenceCode p),
     pi_condorStatus := eval_or (ad_eval_num api pi_s_CondorStatus ad) (pi_condorStatus p),
     pi_lastStatus := eval_or (ad_eval_num api pi_s_LastStatus ad) (pi_lastStatus p),
     pi_retryCount := eval_or (ad_eval_num api pi_s_RetryCount ad) (pi_retryCount p)\<rparr>"

text \<open>\<open>PointerId( position, condorId, edgId, seqcode )\<close>.\<close>

definition PointerId_with :: "'ad fl_iterator \<Rightarrow> string \<Rightarrow> string \<Rightarrow> string \<Rightarrow> 'ad pointer_id" where
  "PointerId_with it condorId edgId seqcode =
     \<lparr>pi_condorStatus = 0, pi_lastStatus = undefined_status, pi_retryCount = 0, pi_position = FLIterator_copy it,
      pi_condorId = condorId, pi_edgId = edgId, pi_sequenceCode = seqcode\<rparr>"

text \<open>\<open>PointerId( position )\<close> on the ad that \<open>*position\<close> gives.\<close>

definition PointerId_at :: "'ad classad_api \<Rightarrow> 'ad fl_iterator \<Rightarrow> 'ad \<Rightarrow> 'ad pointer_id" where
  "PointerId_at api it ad = pointer_eval api ad (PointerId_with it [] [] [])"

text \<open>\<open>PointerId( condorId, edgId )\<close>, whose iterator points nowhere.\<close>

definition PointerId_ids :: "string \<Rightarrow> string \<Rightarrow> 'ad pointer_id" where
  "PointerId_ids condorId edgId =
     PointerId_with \<lparr>fli_base = base_iterator_null, fli_object = None\<rparr> condorId edgId []"

text \<open>\<open>reset( position )\<close>, where \<open>value.Update( *position )\<close> fills an empty ad.\<close>

definition pointer_reset :: "'ad classad_api \<Rightarrow> 'ad fl_iterator \<Rightarrow> 'ad \<Rightarrow> 'ad pointer_id \<Rightarrow> 'ad pointer_id" where
  "pointer_reset api it ad p = pointer_eval api (ad_update api (ad_new api) ad) (p\<lparr>pi_position := fli_assign it\<rparr>)"

definition pointer_unset_position :: "'ad pointer_id \<Rightarrow> 'ad pointer_id" where
  "pointer_unset_position p = p\<lparr>pi_position := fli_reset (pi_position p)\<rparr>"

text \<open>An entry of an index vector: the key it was made with and the address of its node.\<close>

type_synonym id_entry = "string \<times> nat"

definition CondorId :: "nat \<Rightarrow> 'ad pointer_id \<Rightarrow> id_entry" where
  "CondorId a p = (pi_condorId p, a)"

definition EdgId :: "nat \<Rightarrow> 'ad pointer_id \<Rightarrow> id_entry" where
  "EdgId a p = (pi_edgId p, a)"

section \<open>Index vectors\<close>

text \<open>\<^verbatim>\<open>std::lower_bound\<close> with \<^verbatim>\<open>Compare\<close>: halving of the range.\<close>

function lower_bound_from :: "id_entry list \<Rightarrow> string \<Rightarrow> nat \<Rightarrow> nat \<Rightarrow> nat" where
  "lower_bound_from xs k first len =
     (if len = 0 then first
      else let half = len div 2; middle = first + half
           in if fst (xs ! middle) < k then lower_bound_from xs k (middle + 1) (len - half - 1)
              else lower_bound_from xs k first half)"
  by pat_completeness auto

termination
  by (relation "measure (\<lambda>(xs, k, first, len). len)") auto

declare lower_bound_from.simps [simp del]

definition lower_bound :: "id_entry list \<Rightarrow> string \<Rightarrow> nat" where
  "lower_bound xs k = lower_bound_from xs k 0 (length xs)"

text \<open>\<open>(pos != end) && (pos->id() == k)\<close>.\<close>

definition found :: "id_entry list \<Rightarrow> nat \<Rightarrow> string \<Rightarrow> bool" where
  "found xs i k \<longleftrightarrow> i < length xs \<and> fst (xs ! i) = k"

definition vec_insert :: "nat \<Rightarrow> 'x \<Rightarrow> 'x list \<Rightarrow> 'x list" where
  "vec_insert i x xs = take i xs @ x # drop i xs"

definition vec_erase :: "nat \<Rightarrow> 'x list \<Rightarrow> 'x list" where
  "vec_erase i xs = take i xs @ drop (Suc i) xs"

section \<open>\<open>IdContainer\<close>\<close>

text \<open>\<open>ic_fresh\<close> is the address that the next node will get.\<close>

record 'ad id_container =
  ic_inserted :: nat
  ic_container :: file_sequence
  ic_pointers :: "(nat \<times> 'ad pointer_id) list"
  ic_edgs :: "id_entry list"
  ic_condors :: "id_entry list"
  ic_last :: "nat option"
  ic_fresh :: nat

datatype ic_failure = Thrown fc_failure | Dangling

type_synonym ('v, 'ad) icm = "'ad id_container \<Rightarrow> (ic_failure + 'v) \<times> 'ad id_container"

definition ic_return :: "'v \<Rightarrow> ('v, 'ad) icm" where
  "ic_return v = (\<lambda>s. (Inr v, s))"

definition ic_bind :: "('v, 'ad) icm \<Rightarrow> ('v \<Rightarrow> ('w, 'ad) icm) \<Rightarrow> ('w, 'ad) icm" where
  "ic_bind m k = (\<lambda>s. case m s of (Inl e, s') \<Rightarrow> (Inl e, s') | (Inr v, s') \<Rightarrow> k v s')"

definition ic_get :: "('ad id_container \<Rightarrow> 'v) \<Rightarrow> ('v, 'ad) icm" where
  "ic_get f = (\<lambda>s. (Inr (f s), s))"

definition ic_modify :: "('ad id_container \<Rightarrow> 'ad id_container) \<Rightarrow> (unit, 'ad) icm" where
  "ic_modify f = (\<lambda>s. (Inr (), f s))"

definition on_list :: "'v fsm \<Rightarrow> ('v, 'ad) icm" where
  "on_list m = (\<lambda>s. case m (ic_container s) of
       (Inl e, l) \<Rightarrow> (Inl (Thrown e), s\<lparr>ic_container := l\<rparr>)
     | (Inr v, l) \<Rightarrow> (Inr v, s\<lparr>ic_container := l\<rparr>))"

definition node_at :: "nat \<Rightarrow> ('ad pointer_id, 'ad) icm" where
  "node_at a = (\<lambda>s. case map_of (ic_pointers s) a of Some p \<Rightarrow> (Inr p, s) | None \<Rightarrow> (Inl Dangling, s))"

definition set_node :: "nat \<Rightarrow> 'ad pointer_id \<Rightarrow> (unit, 'ad) icm" where
  "set_node a p = ic_modify (\<lambda>s. s\<lparr>ic_pointers := map (\<lambda>(b, q). (b, if b = a then p else q)) (ic_pointers s)\<rparr>)"

text \<open>\<open>ic_pointers.push_back( p )\<close>; the result is the address of the new node.\<close>

definition push_node :: "'ad pointer_id \<Rightarrow> (nat, 'ad) icm" where
  "push_node p = (\<lambda>s. (Inr (ic_fresh s),
     s\<lparr>ic_pointers := ic_pointers s @ [(ic_fresh s, p)], ic_fresh := Suc (ic_fresh s)\<rparr>))"

definition erase_node :: "nat \<Rightarrow> (nat \<times> 'p) list \<Rightarrow> (nat \<times> 'p) list" where
  "erase_node a ps = filter (\<lambda>(b, _). b \<noteq> a) ps"

partial_function (option) onConstruct_loop ::
    "'ad classad_api \<Rightarrow> 'ad fl_iterator \<Rightarrow> 'ad fl_iterator \<Rightarrow> 'ad id_container \<Rightarrow>
     ((ic_failure + unit) \<times> 'ad id_container) option"
where
  "onConstruct_loop api position end s =
     (if fli_equal position end then Some (Inr (), s)
      else let r = ic_bind (on_list (on_container (fli_deref (ad_converter api) position))) (\<lambda>(ad, position).
                   ic_bind (push_node (PointerId_at api position ad)) (\<lambda>a.
                   ic_bind (node_at a) (\<lambda>p.
                   ic_bind (ic_modify (\<lambda>s. s\<lparr>ic_condors := ic_condors s @ [CondorId a p],
                                              ic_edgs := ic_edgs s @ [EdgId a p]\<rparr>)) (\<lambda>_.
                   on_list (on_container (fli_next_step position)))))) s
           in if isl (fst r) then Some (Inl (projl (fst r)), snd r)
              else onConstruct_loop api (projr (fst r)) end (snd r))"

declare onConstruct_loop.simps [code]

text \<open>\<^verbatim>\<open>std::sort\<close> by key; entries with the same key would come in an unspecified order.\<close>

definition onConstruct :: "'ad classad_api \<Rightarrow> (unit, 'ad) icm" where
  "onConstruct api =
     ic_bind (on_list fl_end) (\<lambda>end.
     ic_bind (on_list fl_begin) (\<lambda>position.
     ic_bind (\<lambda>s. case onConstruct_loop api (fli_assign position) end s of
                None \<Rightarrow> (Inl (Thrown Diverges), s) | Some r \<Rightarrow> r) (\<lambda>_.
       ic_modify (\<lambda>s. s\<lparr>ic_condors := sort_key fst (ic_condors s), ic_edgs := sort_key fst (ic_edgs s)\<rparr>))))"

definition IdContainer_new :: "'ad classad_api \<Rightarrow> nat \<Rightarrow> file_container \<Rightarrow> string \<Rightarrow> (ic_failure + unit) \<times> 'ad id_container" where
  "IdContainer_new api addr c filename =
     (let s0 = \<lparr>ic_inserted = 0, ic_container = file_sequence_new addr c, ic_pointers = [], ic_edgs = [],
                ic_condors = [], ic_last = None, ic_fresh = 0\<rparr>
      in ic_bind (on_list (on_container (fc_open filename))) (\<lambda>_.
         ic_bind (on_list fs_empty_list) (\<lambda>empty.
           if \<not> empty then onConstruct api else ic_return ())) s0)"

definition removePointers :: "nat \<Rightarrow> nat \<Rightarrow> (bool, 'ad) icm" where
  "removePointers edgPos condorPos =
     ic_bind (ic_get (\<lambda>s. snd (ic_edgs s ! edgPos))) (\<lambda>position.
     ic_bind (node_at position) (\<lambda>p.
     \<lambda>s. case on_list (fl_erase (fli_assign (pi_position p))) s of
           (Inl (Thrown (Code _)), s') \<Rightarrow> (Inr True, s')
         | (Inl e, s') \<Rightarrow> (Inl e, s')
         | (Inr _, s') \<Rightarrow> (Inr False, s'\<lparr>ic_pointers := erase_node position (ic_pointers s'),
               ic_edgs := vec_erase edgPos (ic_edgs s'), ic_condors := vec_erase condorPos (ic_condors s')\<rparr>)))"

definition condor_id :: "string \<Rightarrow> (string, 'ad) icm" where
  "condor_id edgId =
     ic_bind (ic_get ic_edgs) (\<lambda>edgs. let i = lower_bound edgs edgId in
       if found edgs i edgId then ic_bind (node_at (snd (edgs ! i))) (\<lambda>p. ic_return (pi_condorId p))
       else ic_return [])"

definition edg_id :: "string \<Rightarrow> (string, 'ad) icm" where
  "edg_id condorId =
     ic_bind (ic_get ic_condors) (\<lambda>condors. let i = lower_bound condors condorId in
       if found condors i condorId then ic_bind (node_at (snd (condors ! i))) (\<lambda>p. ic_return (pi_edgId p))
       else ic_return [])"

text \<open>\<open>None\<close> is \<open>ic_pointers.end()\<close>.\<close>

definition position_by_condor_id :: "string \<Rightarrow> 'ad id_container \<Rightarrow> nat option" where
  "position_by_condor_id condorId s = (let i = lower_bound (ic_condors s) condorId in
     if found (ic_condors s) i condorId then Some (snd (ic_condors s ! i)) else None)"

definition position_by_edg_id :: "string \<Rightarrow> 'ad id_container \<Rightarrow> nat option" where
  "position_by_edg_id edgId s = (let i = lower_bound (ic_edgs s) edgId in
     if found (ic_edgs s) i edgId then Some (snd (ic_edgs s ! i)) else None)"

text \<open>\<open>push_back( value ); last = end(); --last;\<close>\<close>

definition append_ad :: "'ad classad_api \<Rightarrow> 'ad \<Rightarrow> 'ad fl_iterator fsm" where
  "append_ad api ad =
     fs_bind (push_back (ad_converter api) ad) (\<lambda>_.
     fs_bind fl_end (\<lambda>last. on_container (fli_prev_step (fli_assign last))))"

definition id_insert :: "'ad classad_api \<Rightarrow> string \<Rightarrow> string \<Rightarrow> string \<Rightarrow> int \<Rightarrow> (bool, 'ad) icm" where
  "id_insert api edgId condorId sequenceCode status = (\<lambda>s.
     let condorPos = lower_bound (ic_condors s) condorId;
         edgPos = lower_bound (ic_edgs s) edgId
     in if found (ic_edgs s) edgPos edgId \<or> found (ic_condors s) condorPos condorId then (Inr True, s)
        else let val = ad_insert_int api pi_s_CondorStatus status
                        (ad_insert_str api pi_s_SequenceCode sequenceCode
                        (ad_insert_str api pi_s_EdgId edgId
                        (ad_insert_str api pi_s_CondorId condorId (ad_new api))))
             in ic_bind (on_list (append_ad api val)) (\<lambda>last.
                ic_bind (push_node (PointerId_with last condorId edgId sequenceCode)) (\<lambda>a.
                ic_bind (node_at a) (\<lambda>p.
                ic_bind (ic_modify (\<lambda>s. s\<lparr>ic_last := Some a,
                    ic_condors := vec_insert condorPos (CondorId a p) (ic_condors s),
                    ic_edgs := vec_insert edgPos (EdgId a p) (ic_edgs s),
                    ic_inserted := ic_inserted s + 1\<rparr>)) (\<lambda>_. ic_return False)))) s)"

text \<open>\<open>position->position()->Copy()\<close>: the node keeps the object that the iterator converts.\<close>

definition node_ad :: "'ad classad_api \<Rightarrow> nat \<Rightarrow> ('ad, 'ad) icm" where
  "node_ad api a =
     ic_bind (node_at a) (\<lambda>p.
     ic_bind (on_list (on_container (fli_deref (ad_converter api) (pi_position p)))) (\<lambda>(ad, it).
     ic_bind (set_node a (p\<lparr>pi_position := it\<rparr>)) (\<lambda>_. ic_return ad)))"

text \<open>The end of \<open>update_pointer\<close> and \<open>increment_pointer_retry_count\<close>: the changed ad goes to the
  end of the file.\<close>

definition replace_ad :: "'ad classad_api \<Rightarrow> nat \<Rightarrow> 'ad \<Rightarrow> (bool, 'ad) icm" where
  "replace_ad api a modified =
     ic_bind (node_at a) (\<lambda>p.
     ic_bind (on_list (fl_erase (pi_position p))) (\<lambda>(_ :: 'ad fl_iterator).
     ic_bind (on_list (append_ad api modified)) (\<lambda>last.
     ic_bind (on_list (on_container (fli_deref (ad_converter api) last))) (\<lambda>(ad, last').
     ic_bind (set_node a (pointer_reset api last ad p)) (\<lambda>_. ic_return False)))))"

definition update_pointer :: "'ad classad_api \<Rightarrow> nat \<Rightarrow> string \<Rightarrow> int \<Rightarrow> int \<Rightarrow> (bool, 'ad) icm" where
  "update_pointer api position seqcode status laststatus =
     ic_bind (node_ad api position) (\<lambda>ad.
     let ad = ad_insert_str api pi_s_SequenceCode seqcode ad;
         ad = ad_insert_int api pi_s_CondorStatus status ad;
         ad = (if laststatus \<noteq> undefined_status then ad_insert_int api pi_s_LastStatus laststatus ad else ad)
     in replace_ad api position ad)"

definition increment_pointer_retry_count :: "'ad classad_api \<Rightarrow> nat \<Rightarrow> (bool, 'ad) icm" where
  "increment_pointer_retry_count api position =
     ic_bind (node_at position) (\<lambda>p. let count = pi_retryCount p in
     ic_bind (node_ad api position) (\<lambda>ad.
       replace_ad api position (ad_insert_int api pi_s_RetryCount (count + 1) ad)))"

definition remove_by_edg_id :: "string \<Rightarrow> (bool, 'ad) icm" where
  "remove_by_edg_id edgId =
     ic_bind (ic_get ic_edgs) (\<lambda>edgs. let edgPos = lower_bound edgs edgId in
       if \<not> found edgs edgPos edgId then ic_return True
       else ic_bind (node_at (snd (edgs ! edgPos))) (\<lambda>p. let condorId = pi_condorId p in
            ic_bind (ic_get ic_condors) (\<lambda>condors. let condorPos = lower_bound condors condorId in
              if \<not> found condors condorPos condorId then ic_return True
              else removePointers edgPos condorPos)))"

definition remove_by_condor_id :: "string \<Rightarrow> (bool, 'ad) icm" where
  "remove_by_condor_id condorId =
     ic_bind (ic_get ic_condors) (\<lambda>condors. let condorPos = lower_bound condors condorId in
       if \<not> found condors condorPos condorId then ic_return True
       else ic_bind (node_at (snd (condors ! condorPos))) (\<lambda>p. let edgId = pi_edgId p in
            ic_bind (ic_get ic_edgs) (\<lambda>edgs. let edgPos = lower_bound edgs edgId in
              if \<not> found edgs edgPos edgId then ic_return True
              else removePointers edgPos condorPos)))"

definition ic_forget :: "(unit, 'ad) icm" where
  "ic_forget = ic_modify (\<lambda>s. s\<lparr>ic_pointers := [], ic_edgs := [], ic_condors := []\<rparr>)"

definition id_refresh :: "'ad classad_api \<Rightarrow> (unit, 'ad) icm" where
  "id_refresh api =
     ic_bind (on_list fs_modified) (\<lambda>modified.
       if modified then
         ic_bind (on_list fs_sync) (\<lambda>_. ic_bind ic_forget (\<lambda>_. onConstruct api))
       else ic_return ())"

definition id_compact :: "'ad classad_api \<Rightarrow> (unit, 'ad) icm" where
  "id_compact api =
     ic_bind (on_list fs_compact) (\<lambda>_. ic_bind ic_forget (\<lambda>_. ic_bind (onConstruct api) (\<lambda>_.
       ic_modify (\<lambda>s. s\<lparr>ic_inserted := 0\<rparr>))))"

definition id_clear :: "(unit, 'ad) icm" where
  "id_clear = ic_bind (on_list fs_clear) (\<lambda>_. ic_forget)"

section \<open>\<open>RamContainer\<close>\<close>

record 'ad ram_container =
  rc_inserted :: int
  rc_pointers :: "(nat \<times> 'ad pointer_id) list"
  rc_edgs :: "id_entry list"
  rc_condors :: "id_entry list"
  rc_fresh :: nat

definition RamContainer_new :: "'ad ram_container" where
  "RamContainer_new = \<lparr>rc_inserted = 0, rc_pointers = [], rc_edgs = [], rc_condors = [], rc_fresh = 0\<rparr>"

definition rc_push :: "'ad pointer_id \<Rightarrow> 'ad ram_container \<Rightarrow> 'ad ram_container" where
  "rc_push p s = s\<lparr>rc_pointers := rc_pointers s @ [(rc_fresh s, p)], rc_fresh := Suc (rc_fresh s)\<rparr>"

text \<open>\<open>internalCopy\<close>: \<open>current\<close> is one variable that every element resets, so an attribute that
  an element does not have keeps the value of the element before; it starts
  uninitialised, as \<open>junk\<close>.\<close>

partial_function (option) internalCopy_loop ::
    "'ad classad_api \<Rightarrow> 'ad fl_iterator \<Rightarrow> 'ad fl_iterator \<Rightarrow> 'ad pointer_id \<Rightarrow> 'ad ram_container \<Rightarrow> file_sequence \<Rightarrow>
     ((fc_failure + 'ad ram_container) \<times> file_sequence) option"
where
  "internalCopy_loop api position end current rc l =
     (if fli_equal position end then Some (Inr rc, l)
      else let r = fs_bind (on_container (fli_deref (ad_converter api) position)) (\<lambda>(ad, position).
                   fs_bind (on_container (fli_next_step position)) (\<lambda>next.
                     let current = pointer_unset_position (pointer_reset api position ad current);
                         a = rc_fresh rc;
                         rc' = rc_push current rc
                     in fs_return (next, current,
                          rc'\<lparr>rc_condors := rc_condors rc' @ [CondorId a current],
                              rc_edgs := rc_edgs rc' @ [EdgId a current]\<rparr>))) l
           in if isl (fst r) then Some (Inl (projl (fst r)), snd r)
              else let (next, current, rc') = projr (fst r)
                   in internalCopy_loop api next end current rc' (snd r))"

declare internalCopy_loop.simps [code]

definition internalCopy :: "'ad classad_api \<Rightarrow> 'ad pointer_id \<Rightarrow> 'ad ram_container \<Rightarrow> 'ad ram_container fsm" where
  "internalCopy api junk rc =
     fs_bind fl_end (\<lambda>end. fs_bind fl_begin (\<lambda>position.
     fs_bind (\<lambda>l. case internalCopy_loop api (fli_assign position) end junk rc l of
                None \<Rightarrow> (Inl Diverges, l) | Some r \<Rightarrow> r) (\<lambda>rc.
       fs_return (rc\<lparr>rc_condors := sort_key fst (rc_condors rc), rc_edgs := sort_key fst (rc_edgs rc)\<rparr>))))"

definition rc_copy :: "'ad classad_api \<Rightarrow> 'ad pointer_id \<Rightarrow> 'ad ram_container \<Rightarrow> 'ad ram_container fsm" where
  "rc_copy api junk rc =
     internalCopy api junk (rc\<lparr>rc_inserted := 0, rc_pointers := [], rc_edgs := [], rc_condors := []\<rparr>)"

definition rc_node :: "'ad ram_container \<Rightarrow> nat \<Rightarrow> ic_failure + 'ad pointer_id" where
  "rc_node s a = (case map_of (rc_pointers s) a of Some p \<Rightarrow> Inr p | None \<Rightarrow> Inl Dangling)"

definition rc_condor_id :: "string \<Rightarrow> 'ad ram_container \<Rightarrow> ic_failure + string" where
  "rc_condor_id edgId s = (let i = lower_bound (rc_edgs s) edgId in
     if found (rc_edgs s) i edgId then
       (case rc_node s (snd (rc_edgs s ! i)) of Inl e \<Rightarrow> Inl e | Inr p \<Rightarrow> Inr (pi_condorId p))
     else Inr [])"

definition rc_edg_id :: "string \<Rightarrow> 'ad ram_container \<Rightarrow> ic_failure + string" where
  "rc_edg_id condorId s = (let i = lower_bound (rc_condors s) condorId in
     if found (rc_condors s) i condorId then
       (case rc_node s (snd (rc_condors s ! i)) of Inl e \<Rightarrow> Inl e | Inr p \<Rightarrow> Inr (pi_edgId p))
     else Inr [])"

lemma length_vec_erase: "i < length xs \<Longrightarrow> length (vec_erase i xs) < length xs"
  by (simp add: vec_erase_def)

text \<open>The loop of \<open>insert\<close>: the entry of the one identifier that is known goes, with its node
  (erasing a node that is not there is a use of a dangling iterator); the result says
  whether both are known.\<close>

function rc_insert_loop :: "string \<Rightarrow> string \<Rightarrow> 'ad ram_container \<Rightarrow> ic_failure + bool \<times> 'ad ram_container" where
  "rc_insert_loop edgId condorId s =
     (let condorPos = lower_bound (rc_condors s) condorId; edgPos = lower_bound (rc_edgs s) edgId;
          haveEdg = found (rc_edgs s) edgPos edgId; haveCondor = found (rc_condors s) condorPos condorId
      in if haveEdg \<and> haveCondor then Inr (True, s)
         else if haveEdg then
           (case rc_node s (snd (rc_edgs s ! edgPos)) of Inl e \<Rightarrow> Inl e
            | Inr _ \<Rightarrow> rc_insert_loop edgId condorId
                (s\<lparr>rc_pointers := erase_node (snd (rc_edgs s ! edgPos)) (rc_pointers s),
                   rc_edgs := vec_erase edgPos (rc_edgs s)\<rparr>))
         else if haveCondor then
           (case rc_node s (snd (rc_condors s ! condorPos)) of Inl e \<Rightarrow> Inl e
            | Inr _ \<Rightarrow> rc_insert_loop edgId condorId
                (s\<lparr>rc_pointers := erase_node (snd (rc_condors s ! condorPos)) (rc_pointers s),
                   rc_condors := vec_erase condorPos (rc_condors s)\<rparr>))
         else Inr (False, s))"
  by pat_completeness auto

termination
  by (relation "measure (\<lambda>(e, c, s). length (rc_edgs s) + length (rc_condors s))")
    (auto simp: found_def length_vec_erase)

declare rc_insert_loop.simps [simp del]

definition rc_insert :: "string \<Rightarrow> string \<Rightarrow> 'ad ram_container \<Rightarrow> ic_failure + 'ad ram_container" where
  "rc_insert edgId condorId s =
     (case rc_insert_loop edgId condorId s of Inl e \<Rightarrow> Inl e
      | Inr (True, s') \<Rightarrow> Inr s'
      | Inr (False, s') \<Rightarrow>
          (let condorPos = lower_bound (rc_condors s') condorId; edgPos = lower_bound (rc_edgs s') edgId;
               p = PointerId_ids condorId edgId; a = rc_fresh s'; t = rc_push p s'
           in Inr (t\<lparr>rc_condors := vec_insert condorPos (CondorId a p) (rc_condors t),
                     rc_edgs := vec_insert edgPos (EdgId a p) (rc_edgs t),
                     rc_inserted := rc_inserted t + 1\<rparr>)))"

definition rc_remove_by_condor_id :: "string \<Rightarrow> 'ad ram_container \<Rightarrow> ic_failure + bool \<times> 'ad ram_container" where
  "rc_remove_by_condor_id condorId s = (let condorPos = lower_bound (rc_condors s) condorId in
     if \<not> found (rc_condors s) condorPos condorId then Inr (True, s)
     else case rc_node s (snd (rc_condors s ! condorPos)) of Inl e \<Rightarrow> Inl e
       | Inr p \<Rightarrow> (let edgId = pi_edgId p; edgPos = lower_bound (rc_edgs s) edgId in
           if \<not> found (rc_edgs s) edgPos edgId then Inr (True, s)
           else case rc_node s (snd (rc_edgs s ! edgPos)) of Inl e \<Rightarrow> Inl e
             | Inr _ \<Rightarrow> Inr (False, s\<lparr>rc_pointers := erase_node (snd (rc_edgs s ! edgPos)) (rc_pointers s),
                 rc_edgs := vec_erase edgPos (rc_edgs s), rc_condors := vec_erase condorPos (rc_condors s),
                 rc_inserted := rc_inserted s - 1\<rparr>)))"

end
