(* ===== verification/Id_Index.thy ===== *)
theory Id_Index
  imports Id_Container File_List_Props
begin

text \<open>
  The index vectors of the job tables: binary search against a scan, insertion and
  removal at the position it gives, and the invariant that ties the vectors to the
  nodes. It is shared by the table on file and the table in memory.
\<close>

section \<open>Binary search\<close>

text \<open>The range that is left has the keys below \<open>k\<close> before it and no such key after it.\<close>

lemma lower_bound_from_split:
  assumes "sorted (map fst xs)" "first + len \<le> length xs"
    "\<forall>i<first. fst (xs ! i) < k" "\<forall>i. first + len \<le> i \<longrightarrow> i < length xs \<longrightarrow> k \<le> fst (xs ! i)"
  shows "lower_bound_from xs k first len \<le> length xs \<and>
    (\<forall>i<lower_bound_from xs k first len. fst (xs ! i) < k) \<and>
    (\<forall>i. lower_bound_from xs k first len \<le> i \<longrightarrow> i < length xs \<longrightarrow> k \<le> fst (xs ! i))"
  using assms
proof (induction xs k first len rule: lower_bound_from.induct)
  case (1 xs k first len)
  show ?case
  proof (cases "len = 0")
    case True
    then have "lower_bound_from xs k first len = first" by (subst lower_bound_from.simps) simp
    with 1(4-) True show ?thesis by simp
  next
    case False
    define m where "m = first + len div 2"
    have m: "m < length xs" "first \<le> m" "len div 2 < len" using False 1(4) by (auto simp: m_def)
    have mono: "fst (xs ! i) \<le> fst (xs ! j)" if "i \<le> j" "j < length xs" for i j
      using sorted_nth_mono [OF 1(3), of i j] that by simp
    show ?thesis
    proof (cases "fst (xs ! m) < k")
      case True
      have eq: "lower_bound_from xs k first len = lower_bound_from xs k (m + 1) (len - len div 2 - 1)"
        by (subst lower_bound_from.simps) (use False True m_def in \<open>simp add: Let_def\<close>)
      have "\<forall>i<m + 1. fst (xs ! i) < k" 
      proof (intro allI impI)
        fix i assume "i < m + 1"
        then have "fst (xs ! i) \<le> fst (xs ! m)" using mono [of i m] m(1) by simp
        then show "fst (xs ! i) < k" using True by (rule order_le_less_trans)
      qed
      moreover have len: "m + 1 + (len - len div 2 - 1) = first + len" using m by (simp add: m_def)
      ultimately show ?thesis
        unfolding eq using 1(4-6) by (intro 1(1) [OF False refl refl, folded m_def, OF True 1(3)]) (simp_all only: len)
    next
      case f: False
      have eq: "lower_bound_from xs k first len = lower_bound_from xs k first (len div 2)"
        by (subst lower_bound_from.simps) (use False f m_def in \<open>simp add: Let_def\<close>)
      have "\<forall>i. first + len div 2 \<le> i \<longrightarrow> i < length xs \<longrightarrow> k \<le> fst (xs ! i)"
      proof (intro allI impI)
        fix i assume "first + len div 2 \<le> i" "i < length xs"
        then have "fst (xs ! m) \<le> fst (xs ! i)" using mono [of m i] by (simp add: m_def)
        moreover have "k \<le> fst (xs ! m)" using f by simp
        ultimately show "k \<le> fst (xs ! i)" by (rule order_trans [rotated])
      qed
      then show ?thesis
        unfolding eq using 1(4,5) m by (intro 1(2) [OF False refl refl, folded m_def, OF f 1(3)]) (simp_all add: m_def)
    qed
  qed
qed

lemma lower_bound_split:
  assumes "sorted (map fst xs)"
  shows "lower_bound xs k \<le> length xs" "i < lower_bound xs k \<Longrightarrow> fst (xs ! i) < k"
    "lower_bound xs k \<le> i \<Longrightarrow> i < length xs \<Longrightarrow> k \<le> fst (xs ! i)"
  using lower_bound_from_split [OF assms, of 0 "length xs" k] by (auto simp: lower_bound_def)

text \<open>C25: the binary search of the job tables gives the same position as a scan for the first
  key that is not smaller, on every sorted vector.\<close>

theorem lower_bound_scans:
  assumes "sorted (map fst xs)"
  shows "lower_bound xs k = length (takeWhile (\<lambda>e. fst e < k) xs)"
proof -
  note lb = lower_bound_split [OF assms]
  have "takeWhile (\<lambda>e. fst e < k) xs = take (lower_bound xs k) xs"
  proof (rule takeWhile_eq_take_P_nth)
    show "fst (xs ! i) < k" if "i < lower_bound xs k" "i < length xs" for i using lb(2) that by blast
    show "\<not> fst (xs ! lower_bound xs k) < k" if "lower_bound xs k < length xs" using lb(3) that by (simp add: leD)
  qed
  with lb(1) show ?thesis by simp
qed

theorem lower_bound_scans_witness:
  "lower_bound [(''a'', 3), (''c'', 1), (''d'', 2)] ''c'' = 1"
  using lower_bound_scans [of "[(''a'', 3), (''c'', 1), (''d'', 2)]" "''c''"] by (simp add: less_list_code less_eq_list_code)

section \<open>Vectors with distinct keys\<close>

definition vector_ok :: "id_entry list \<Rightarrow> bool" where
  "vector_ok xs \<longleftrightarrow> sorted (map fst xs) \<and> distinct (map fst xs)"

lemma lower_bound_entry:
  assumes "vector_ok xs" "(k, a) \<in> set xs"
  shows "found xs (lower_bound xs k) k" "xs ! lower_bound xs k = (k, a)"
proof -
  from assms have s: "sorted (map fst xs)" and d: "distinct (map fst xs)" by (simp_all add: vector_ok_def)
  from assms(2) obtain i where i: "i < length xs" "xs ! i = (k, a)" by (auto simp: in_set_conv_nth)
  have "\<not> i < lower_bound xs k" using lower_bound_split(2) [OF s, of i k] i by auto
  moreover have "\<not> lower_bound xs k < i"
  proof
    assume l: "lower_bound xs k < i"
    then have "k \<le> fst (xs ! lower_bound xs k)" using lower_bound_split(3) [OF s, of k "lower_bound xs k"] i by simp
    moreover have "fst (xs ! lower_bound xs k) \<le> k"
      using sorted_nth_mono [OF s, of "lower_bound xs k" i] l i by simp
    ultimately have "map fst xs ! lower_bound xs k = map fst xs ! i" using l i by simp
    with nth_eq_iff_index_eq [OF d, of "lower_bound xs k" i] l i show False by simp
  qed
  ultimately have "lower_bound xs k = i" by simp
  with i show "found xs (lower_bound xs k) k" "xs ! lower_bound xs k = (k, a)" by (simp_all add: found_def)
qed

lemma found_iff:
  assumes v: "vector_ok xs"
  shows "found xs (lower_bound xs k) k \<longleftrightarrow> k \<in> fst ` set xs"
proof
  assume "k \<in> fst ` set xs"
  then obtain a where "(k, a) \<in> set xs" by auto
  with v show "found xs (lower_bound xs k) k" by (rule lower_bound_entry(1))
next
  assume "found xs (lower_bound xs k) k"
  then show "k \<in> fst ` set xs" by (metis found_def image_eqI nth_mem)
qed

lemma insert_between:
  "vector_ok (ys @ zs) \<Longrightarrow> \<forall>e\<in>set ys. fst e \<le> k \<Longrightarrow> \<forall>e\<in>set zs. k \<le> fst e \<Longrightarrow> k \<notin> fst ` set (ys @ zs) \<Longrightarrow>
    vector_ok (ys @ (k, a) # zs)"
  by (auto simp: vector_ok_def sorted_append)

lemma vec_insert_ok:
  assumes "vector_ok xs" "k \<notin> fst ` set xs"
  shows "vector_ok (vec_insert (lower_bound xs k) (k, a) xs)"
    "set (vec_insert (lower_bound xs k) (k, a) xs) = insert (k, a) (set xs)"
proof -
  let ?i = "lower_bound xs k"
  from assms have s: "sorted (map fst xs)" and d: "distinct (map fst xs)" by (simp_all add: vector_ok_def)
  note lb = lower_bound_split [OF s]
  have t: "\<forall>e\<in>set (take ?i xs). fst e \<le> k" 
  proof
    fix e assume "e \<in> set (take ?i xs)"
    then obtain j where "j < ?i" "e = xs ! j" by (auto simp: in_set_conv_nth)
    then show "fst e \<le> k" using lb(2) [of j k] by simp
  qed
  have u: "\<forall>e\<in>set (drop ?i xs). k \<le> fst e" 
  proof
    fix e assume "e \<in> set (drop ?i xs)"
    then obtain j where "j < length xs - ?i" "e = xs ! (?i + j)" by (auto simp: in_set_conv_nth)
    then show "k \<le> fst e" using lb(3) [of k "?i + j"] by simp
  qed
  have su: "set (take ?i xs) \<union> set (drop ?i xs) = set xs" by (metis append_take_drop_id set_append)
  show set: "set (vec_insert ?i (k, a) xs) = insert (k, a) (set xs)"
    using su by (simp add: vec_insert_def)
  show "vector_ok (vec_insert ?i (k, a) xs)"
    unfolding vec_insert_def by (rule insert_between [OF _ t u]) (use assms in simp_all)
qed

lemma vec_erase_ok:
  assumes "vector_ok xs" "(k, a) \<in> set xs"
  shows "vector_ok (vec_erase (lower_bound xs k) xs)"
    "set (vec_erase (lower_bound xs k) xs) = set xs - {(k, a)}"
proof -
  let ?i = "lower_bound xs k"
  have i: "?i < length xs" "xs ! ?i = (k, a)" using lower_bound_entry [OF assms] by (simp_all add: found_def)
  have xs: "xs = take ?i xs @ (k, a) # drop (Suc ?i) xs" using i by (metis id_take_nth_drop)
  have "vector_ok (take ?i xs @ (k, a) # drop (Suc ?i) xs)" using assms(1) xs by simp
  then have ok: "vector_ok (take ?i xs @ drop (Suc ?i) xs)" "(k, a) \<notin> set (take ?i xs @ drop (Suc ?i) xs)"
    unfolding vector_ok_def by (auto simp: sorted_append image_iff)
  then show "vector_ok (vec_erase ?i xs)" by (simp add: vec_erase_def)
  have "set xs = insert (k, a) (set (take ?i xs @ drop (Suc ?i) xs))" by (subst xs) auto
  with ok(2) show "set (vec_erase ?i xs) = set xs - {(k, a)}" by (simp add: vec_erase_def)
qed

section \<open>Nodes and their entries\<close>

definition index_ok :: "(nat \<times> 'ad pointer_id) list \<Rightarrow> id_entry list \<Rightarrow> id_entry list \<Rightarrow> bool" where
  "index_ok ps es cs \<longleftrightarrow> distinct (map fst ps) \<and> vector_ok es \<and> vector_ok cs \<and>
     set es = (\<lambda>(a, p). EdgId a p) ` set ps \<and> set cs = (\<lambda>(a, p). CondorId a p) ` set ps"

text \<open>What the table is about: pairs of a grid and a Condor identifier.\<close>

definition id_pairs :: "(nat \<times> 'ad pointer_id) list \<Rightarrow> (string \<times> string) set" where
  "id_pairs ps = (\<lambda>(a, p). (pi_edgId p, pi_condorId p)) ` set ps"

lemma index_node:
  assumes "index_ok ps es cs" "(a, p) \<in> set ps"
  shows "found es (lower_bound es (pi_edgId p)) (pi_edgId p)" "es ! lower_bound es (pi_edgId p) = (pi_edgId p, a)"
    "found cs (lower_bound cs (pi_condorId p)) (pi_condorId p)" "cs ! lower_bound cs (pi_condorId p) = (pi_condorId p, a)"
    "map_of ps a = Some p"
proof -
  have "(pi_edgId p, a) \<in> set es" "(pi_condorId p, a) \<in> set cs"
    using assms by (force simp: index_ok_def EdgId_def CondorId_def)+
  with lower_bound_entry assms show "found es (lower_bound es (pi_edgId p)) (pi_edgId p)"
    "es ! lower_bound es (pi_edgId p) = (pi_edgId p, a)" "found cs (lower_bound cs (pi_condorId p)) (pi_condorId p)"
    "cs ! lower_bound cs (pi_condorId p) = (pi_condorId p, a)" by (auto simp: index_ok_def)
  show "map_of ps a = Some p" using assms by (simp add: index_ok_def)
qed

lemma index_keys:
  assumes "index_ok ps es cs"
  shows "fst ` set es = fst ` id_pairs ps" "fst ` set cs = snd ` id_pairs ps"
  using assms by (simp_all add: index_ok_def id_pairs_def EdgId_def CondorId_def image_image case_prod_unfold)

lemma index_found:
  assumes "index_ok ps es cs"
  shows "found es (lower_bound es e) e \<longleftrightarrow> e \<in> fst ` id_pairs ps" "found cs (lower_bound cs c) c \<longleftrightarrow> c \<in> snd ` id_pairs ps"
proof -
  from index_keys [OF assms] assms show "found es (lower_bound es e) e \<longleftrightarrow> e \<in> fst ` id_pairs ps"
    "found cs (lower_bound cs c) c \<longleftrightarrow> c \<in> snd ` id_pairs ps" by (simp_all add: index_ok_def found_iff)
qed

lemma index_unique:
  assumes "index_ok ps es cs" "(a, p) \<in> set ps" "(b, q) \<in> set ps" "pi_edgId p = pi_edgId q \<or> pi_condorId p = pi_condorId q"
  shows "(a, p) = (b, q)"
proof -
  note n = index_node [OF assms(1,2)] and m = index_node [OF assms(1,3)]
  from assms(4) have "a = b" using n(2,4) m(2,4) by auto
  with n(5) m(5) show ?thesis by simp
qed

lemma id_pairs_append [simp]: "id_pairs (ps @ qs) = id_pairs ps \<union> id_pairs qs"
  "id_pairs [] = {}" "id_pairs ((a, p) # qs) = insert (pi_edgId p, pi_condorId p) (id_pairs qs)"
  by (auto simp: id_pairs_def)

lemma index_insert:
  assumes "index_ok ps es cs" "a \<notin> fst ` set ps" "pi_edgId p \<notin> fst ` id_pairs ps" "pi_condorId p \<notin> snd ` id_pairs ps"
  shows "index_ok (ps @ [(a, p)]) (vec_insert (lower_bound es (pi_edgId p)) (EdgId a p) es)
    (vec_insert (lower_bound cs (pi_condorId p)) (CondorId a p) cs)"
proof -
  from assms(1) have v: "vector_ok es" "vector_ok cs" "distinct (map fst ps)"
    "set es = (\<lambda>(a, p). EdgId a p) ` set ps" "set cs = (\<lambda>(a, p). CondorId a p) ` set ps" by (simp_all add: index_ok_def)
  have "pi_edgId p \<notin> fst ` set es" "pi_condorId p \<notin> fst ` set cs"
    using assms(3,4) index_keys [OF assms(1)] by simp_all
  note i = vec_insert_ok [OF v(1) this(1), of a] vec_insert_ok [OF v(2) this(2), of a]
  show ?thesis
    using i v assms(2) by (auto simp: index_ok_def EdgId_def CondorId_def)
qed

lemma set_erase_node: "distinct (map fst ps) \<Longrightarrow> (a, p) \<in> set ps \<Longrightarrow> set (erase_node a ps) = set ps - {(a, p)}"
  by (auto simp: erase_node_def dest: eq_key_imp_eq_value)

lemma index_erase:
  assumes "index_ok ps es cs" "(a, p) \<in> set ps"
  shows "index_ok (erase_node a ps) (vec_erase (lower_bound es (pi_edgId p)) es) (vec_erase (lower_bound cs (pi_condorId p)) cs)"
    "id_pairs (erase_node a ps) = id_pairs ps - {(pi_edgId p, pi_condorId p)}"
proof -
  from assms(1) have v: "vector_ok es" "vector_ok cs" "distinct (map fst ps)"
    "set es = (\<lambda>(a, p). EdgId a p) ` set ps" "set cs = (\<lambda>(a, p). CondorId a p) ` set ps" by (simp_all add: index_ok_def)
  have "(pi_edgId p, a) \<in> set es" "(pi_condorId p, a) \<in> set cs"
    using assms(2) v(4,5) by (force simp: EdgId_def CondorId_def)+
  note i = vec_erase_ok [OF v(1) this(1)] vec_erase_ok [OF v(2) this(2)]
  note s = set_erase_node [OF v(3) assms(2)]
  have inj: "inj_on (\<lambda>(a, p). EdgId a p) (set ps)" "inj_on (\<lambda>(a, p). CondorId a p) (set ps)"
    using v(3) by (auto simp: inj_on_def EdgId_def CondorId_def dest: eq_key_imp_eq_value)
  have inj': "inj_on (\<lambda>(a, p). (pi_edgId p, pi_condorId p)) (set ps)"
    using index_unique [OF assms(1)] by (auto simp: inj_on_def)
  have d: "g ` (set ps - {(a, p)}) = g ` set ps - {g (a, p)}" if "inj_on g (set ps)" for g :: "nat \<times> 'a pointer_id \<Rightarrow> 'b"
    using inj_on_image_set_diff [OF that, of "set ps" "{(a, p)}"] assms(2) by simp
  have "set es - {(pi_edgId p, a)} = (\<lambda>(a, p). EdgId a p) ` (set ps - {(a, p)})"
    "set cs - {(pi_condorId p, a)} = (\<lambda>(a, p). CondorId a p) ` (set ps - {(a, p)})"
    unfolding d [OF inj(1)] d [OF inj(2)] v(4,5) by (simp_all add: EdgId_def CondorId_def)
  moreover have "distinct (map fst (erase_node a ps))" using v(3) by (simp add: erase_node_def distinct_map_filter)
  ultimately show "index_ok (erase_node a ps) (vec_erase (lower_bound es (pi_edgId p)) es) (vec_erase (lower_bound cs (pi_condorId p)) cs)"
    using i s by (simp add: index_ok_def)
  show "id_pairs (erase_node a ps) = id_pairs ps - {(pi_edgId p, pi_condorId p)}"
    unfolding id_pairs_def s d [OF inj'] by simp
qed

section \<open>The contract of a job table\<close>

locale job_table =
  fixes ok :: "'s \<Rightarrow> bool" and ids :: "'s \<Rightarrow> (string \<times> string) set"
    and condor_of :: "string \<Rightarrow> 's \<Rightarrow> ic_failure + string" and edg_of :: "string \<Rightarrow> 's \<Rightarrow> ic_failure + string"
  assumes one_condor: "ok s \<Longrightarrow> (e, c) \<in> ids s \<Longrightarrow> (e, c') \<in> ids s \<Longrightarrow> c = c'"
    and one_edg: "ok s \<Longrightarrow> (e, c) \<in> ids s \<Longrightarrow> (e', c) \<in> ids s \<Longrightarrow> e = e'"
    and condor_of: "ok s \<Longrightarrow> (e, c) \<in> ids s \<Longrightarrow> condor_of e s = Inr c"
    and edg_of: "ok s \<Longrightarrow> (e, c) \<in> ids s \<Longrightarrow> edg_of c s = Inr e"
    and no_condor: "ok s \<Longrightarrow> e \<notin> fst ` ids s \<Longrightarrow> condor_of e s = Inr []"
    and no_edg: "ok s \<Longrightarrow> c \<notin> snd ` ids s \<Longrightarrow> edg_of c s = Inr []"
begin

lemma never_dangling: "ok s \<Longrightarrow> condor_of e s \<noteq> Inl x \<and> edg_of c s \<noteq> Inl x"
  using condor_of edg_of no_condor no_edg by (metis (no_types, lifting) Inl_Inr_False image_iff prod.collapse)

lemma lookup_inverse:
  assumes "ok s" "condor_of e s = Inr c" "c \<noteq> []"
  shows "edg_of c s = Inr e"
proof -
  have "e \<in> fst ` ids s" using no_condor [OF assms(1), of e] assms(2,3) by auto
  then obtain c' where "(e, c') \<in> ids s" by auto
  with condor_of [OF assms(1) this] edg_of [OF assms(1) this] assms(2) show ?thesis by simp
qed

end

section \<open>The table in memory\<close>

definition rc_ok :: "'ad ram_container \<Rightarrow> bool" where
  "rc_ok s \<longleftrightarrow> index_ok (rc_pointers s) (rc_edgs s) (rc_condors s) \<and> (\<forall>a\<in>fst ` set (rc_pointers s). a < rc_fresh s)"

definition rc_ids :: "'ad ram_container \<Rightarrow> (string \<times> string) set" where
  "rc_ids s = id_pairs (rc_pointers s)"

lemma rc_idsE:
  assumes "(e, c) \<in> rc_ids s"
  obtains a p where "(a, p) \<in> set (rc_pointers s)" "pi_edgId p = e" "pi_condorId p = c"
  using assms by (auto simp: rc_ids_def id_pairs_def)

interpretation ram: job_table rc_ok rc_ids rc_condor_id rc_edg_id
proof
  fix s :: "'ad ram_container" and e c e' c'
  assume "rc_ok s"
  then have ok: "index_ok (rc_pointers s) (rc_edgs s) (rc_condors s)" by (simp add: rc_ok_def)
  show "c = c'" if "(e, c) \<in> rc_ids s" "(e, c') \<in> rc_ids s"
    using that index_unique [OF ok] by (metis prod.inject rc_idsE)
  show "e = e'" if "(e, c) \<in> rc_ids s" "(e', c) \<in> rc_ids s"
    using that index_unique [OF ok] by (metis prod.inject rc_idsE)
  show "rc_condor_id e s = Inr c" "rc_edg_id c s = Inr e" if "(e, c) \<in> rc_ids s"
    using that index_node [OF ok] by (auto simp: rc_condor_id_def rc_edg_id_def rc_node_def Let_def elim!: rc_idsE)
  show "rc_condor_id e s = Inr []" if "e \<notin> fst ` rc_ids s"
    using that index_found(1) [OF ok] by (simp add: rc_condor_id_def rc_ids_def Let_def)
  show "rc_edg_id c s = Inr []" if "c \<notin> snd ` rc_ids s"
    using that index_found(2) [OF ok] by (simp add: rc_edg_id_def rc_ids_def Let_def)
qed

lemma rc_insert_new:
  assumes "rc_ok s" "e \<notin> fst ` rc_ids s" "c \<notin> snd ` rc_ids s"
  shows "\<exists>s'. rc_insert e c s = Inr s' \<and> rc_ok s' \<and> rc_ids s' = insert (e, c) (rc_ids s)"
proof -
  have ok: "index_ok (rc_pointers s) (rc_edgs s) (rc_condors s)" and fr: "rc_fresh s \<notin> fst ` set (rc_pointers s)"
    using assms(1) by (auto simp: rc_ok_def)
  have nf: "\<not> found (rc_edgs s) (lower_bound (rc_edgs s) e) e" "\<not> found (rc_condors s) (lower_bound (rc_condors s) c) c"
    using assms(2,3) index_found [OF ok] by (simp_all add: rc_ids_def)
  let ?p = "PointerId_ids c e :: 'a pointer_id"
  have p: "pi_edgId ?p = e" "pi_condorId ?p = c" by (simp_all add: PointerId_ids_def PointerId_with_def)
  have "rc_insert_loop e c s = Inr (False, s)" using nf by (subst rc_insert_loop.simps) (simp add: Let_def)
  moreover have "index_ok (rc_pointers s @ [(rc_fresh s, ?p)])
      (vec_insert (lower_bound (rc_edgs s) e) (EdgId (rc_fresh s) ?p) (rc_edgs s))
      (vec_insert (lower_bound (rc_condors s) c) (CondorId (rc_fresh s) ?p) (rc_condors s))"
    using index_insert [OF ok fr, of ?p] assms(2,3) p by (simp add: rc_ids_def)
  ultimately show ?thesis
    using assms(1) p by (auto simp: rc_insert_def rc_push_def rc_ok_def rc_ids_def Let_def)
qed

text \<open>The table in memory keeps pairs. Inserting a pair of unknown identifiers adds just
  that pair, and both identifiers are found afterwards.\<close>

theorem rc_insert_adds:
  assumes "rc_ok s" "e \<notin> fst ` rc_ids s" "c \<notin> snd ` rc_ids s"
  shows "\<exists>s'. rc_insert e c s = Inr s' \<and> rc_ok s' \<and> rc_ids s' = insert (e, c) (rc_ids s) \<and>
    rc_condor_id e s' = Inr c \<and> rc_edg_id c s' = Inr e"
  using rc_insert_new [OF assms] ram.condor_of ram.edg_of by (metis insertI1)

lemma rc_ok_new: "rc_ok RamContainer_new" "rc_ids RamContainer_new = {}"
  by (simp_all add: rc_ok_def rc_ids_def RamContainer_new_def index_ok_def vector_ok_def)

theorem rc_insert_adds_witness:
  "\<exists>s'. rc_insert ''job'' ''7.0'' (RamContainer_new :: unit ram_container) = Inr s' \<and> rc_condor_id ''job'' s' = Inr ''7.0''"
  using rc_insert_adds [OF rc_ok_new(1), of "''job''" "''7.0''"] by (auto simp: rc_ok_new(2))

text \<open>Removal by Condor identifier takes out exactly the pair of that identifier and
  keeps the table well formed.\<close>

theorem rc_remove_removes:
  assumes "rc_ok s" "(e, c) \<in> rc_ids s"
  shows "\<exists>s'. rc_remove_by_condor_id c s = Inr (False, s') \<and> rc_ok s' \<and> rc_ids s' = rc_ids s - {(e, c)}"
proof -
  have ok: "index_ok (rc_pointers s) (rc_edgs s) (rc_condors s)" using assms(1) by (simp add: rc_ok_def)
  from assms(2) obtain a p where p: "(a, p) \<in> set (rc_pointers s)" "pi_edgId p = e" "pi_condorId p = c" by (rule rc_idsE)
  note n = index_node [OF ok p(1), unfolded p(2,3)] and er = index_erase [OF ok p(1), unfolded p(2,3)]
  have "\<forall>x\<in>set (erase_node a (rc_pointers s)). fst x < rc_fresh s"
    using assms(1) by (auto simp: erase_node_def rc_ok_def)
  with n er assms(1) p(2) show ?thesis
    by (auto simp: rc_remove_by_condor_id_def rc_node_def rc_ok_def rc_ids_def Let_def)
qed

theorem rc_remove_removes_witness:
  "\<exists>s' s''. rc_insert ''job'' ''7.0'' (RamContainer_new :: unit ram_container) = Inr s' \<and>
    rc_remove_by_condor_id ''7.0'' s' = Inr (False, s'') \<and> rc_ids s'' = {}"
  using rc_insert_new [OF rc_ok_new(1), of "''job''" "''7.0''"] rc_remove_removes [of _ "''job''" "''7.0''"]
  by (fastforce simp: rc_ok_new(2))

text \<open>a job that gets a new Condor identifier breaks the table in memory. The node of the
  old pair is erased with its grid identifier, the entry of the old Condor identifier
  stays, and looking that identifier up uses the erased node.\<close>

theorem rc_insert_dangles:
  assumes "rc_ok s" "(e, c) \<in> rc_ids s" "c' \<notin> snd ` rc_ids s"
  shows "\<exists>s'. rc_insert e c' s = Inr s' \<and> rc_edg_id c s' = Inl Dangling"
proof -
  have ok: "index_ok (rc_pointers s) (rc_edgs s) (rc_condors s)" and fr: "\<forall>a\<in>fst ` set (rc_pointers s). a < rc_fresh s"
    using assms(1) by (simp_all add: rc_ok_def)
  from assms(2) obtain a p where p: "(a, p) \<in> set (rc_pointers s)" "pi_edgId p = e" "pi_condorId p = c" by (rule rc_idsE)
  note n = index_node [OF ok p(1), unfolded p(2,3)]
  define t where "t = s\<lparr>rc_pointers := erase_node a (rc_pointers s), rc_edgs := vec_erase (lower_bound (rc_edgs s) e) (rc_edgs s)\<rparr>"
  have nc: "\<not> found (rc_condors s) (lower_bound (rc_condors s) c') c'" using assms(3) index_found(2) [OF ok] by (simp add: rc_ids_def)
  have v: "vector_ok (rc_condors s)" "vector_ok (rc_edgs s)" using ok by (simp_all add: index_ok_def)
  have "(e, a) \<in> set (rc_edgs s)" using n(1,2) by (metis found_def nth_mem)
  note er = vec_erase_ok [OF v(2) this]
  have ne: "\<not> found (rc_edgs t) (lower_bound (rc_edgs t) e) e"
  proof -
    have "e \<notin> fst ` (set (rc_edgs s) - {(e, a)})"
      using lower_bound_entry(2) [OF v(2)] n(2) by (metis (no_types, lifting) DiffE Pair_inject image_iff insertI1 prod.collapse)
    then show ?thesis using found_iff [OF er(1)] er(2) by (simp add: t_def)
  qed
  have "rc_insert_loop e c' t = Inr (False, t)"
    using ne nc by (subst rc_insert_loop.simps) (simp add: t_def Let_def)
  then have "rc_insert_loop e c' s = Inr (False, t)"
    using n nc by (subst rc_insert_loop.simps) (simp add: t_def rc_node_def Let_def)
  let ?p = "PointerId_ids c' e :: 'a pointer_id"
  define u where "u = t\<lparr>rc_pointers := rc_pointers t @ [(rc_fresh t, ?p)], rc_fresh := Suc (rc_fresh t),
    rc_condors := vec_insert (lower_bound (rc_condors t) c') (CondorId (rc_fresh t) ?p) (rc_condors t),
    rc_edgs := vec_insert (lower_bound (rc_edgs t) e) (EdgId (rc_fresh t) ?p) (rc_edgs t), rc_inserted := rc_inserted t + 1\<rparr>"
  have "rc_insert e c' s = Inr u"
    using \<open>rc_insert_loop e c' s = Inr (False, t)\<close> by (simp add: rc_insert_def rc_push_def u_def Let_def)
  moreover have "c' \<notin> fst ` set (rc_condors s)" using nc found_iff [OF v(1)] by simp
  note ci = vec_insert_ok [OF v(1) this, of "rc_fresh s"]
  have "CondorId (rc_fresh s) ?p = (c', rc_fresh s)" by (simp add: CondorId_def PointerId_ids_def PointerId_with_def)
  then have uc: "rc_condors u = vec_insert (lower_bound (rc_condors s) c') (c', rc_fresh s) (rc_condors s)"
    by (simp add: u_def t_def)
  have "(c, a) \<in> set (rc_condors u)" using ci(2) uc n(3,4) by (metis found_def insertI2 nth_mem)
  from lower_bound_entry [OF _ this] ci(1) uc
  have "found (rc_condors u) (lower_bound (rc_condors u) c) c" "rc_condors u ! lower_bound (rc_condors u) c = (c, a)" by simp_all
  moreover have "a \<noteq> rc_fresh s" using fr p(1) by force
  then have "map_of (rc_pointers u) a = None"
    by (auto simp: u_def t_def erase_node_def map_add_def map_of_eq_None_iff split: option.splits)
  ultimately show ?thesis by (auto simp: rc_edg_id_def rc_node_def Let_def)
qed

theorem rc_insert_dangles_witness:
  "\<exists>s' s''. rc_insert ''job'' ''7.0'' (RamContainer_new :: unit ram_container) = Inr s' \<and>
    rc_insert ''job'' ''8.0'' s' = Inr s'' \<and> rc_edg_id ''7.0'' s'' = Inl Dangling"
proof -
  obtain s' where s': "rc_insert ''job'' ''7.0'' (RamContainer_new :: unit ram_container) = Inr s'" "rc_ok s'" "rc_ids s' = {(''job'', ''7.0'')}"
    using rc_insert_new [OF rc_ok_new(1), of "''job''" "''7.0''"] by (auto simp: rc_ok_new(2))
  with rc_insert_dangles [of s' "''job''" "''7.0''" "''8.0''"] show ?thesis by auto
qed

end
