(* ===== verification/Id_Container_Ops.thy ===== *)
theory Id_Container_Ops
  imports Id_Index
begin

text \<open>
  The job table on file: its invariant and what each operation does to the pairs of
  identifiers it holds.
\<close>

section \<open>What is assumed of the ClassAd library\<close>

definition attr_names :: "string list" where
  "attr_names = [pi_s_CondorId, pi_s_EdgId, pi_s_SequenceCode, pi_s_CondorStatus, pi_s_LastStatus, pi_s_RetryCount]"

text \<open>An ad that is printed reads back; an attribute that is inserted evaluates to its value
  and leaves the other ones alone; updating the empty ad gives an ad with the same
  attributes. Only the names that the table uses matter.\<close>

definition classad_laws :: "'ad classad_api \<Rightarrow> bool" where
  "classad_laws api \<longleftrightarrow>
     (\<forall>ad. ad_parse api (ad_unparse api ad) = Some ad \<and> ad_unparse api ad \<noteq> []) \<and>
     (\<forall>n\<in>set attr_names. \<forall>m\<in>set attr_names. \<forall>v ad.
        ad_eval_str api n (ad_insert_str api m v ad) = (if n = m then Some v else ad_eval_str api n ad)) \<and>
     (\<forall>n\<in>set attr_names. \<forall>m\<in>set attr_names. \<forall>v ad.
        ad_eval_num api n (ad_insert_int api m v ad) = (if n = m then Some v else ad_eval_num api n ad)) \<and>
     (\<forall>n\<in>set attr_names. \<forall>m\<in>set attr_names. \<forall>v ad. n \<noteq> m \<longrightarrow>
        ad_eval_str api n (ad_insert_int api m v ad) = ad_eval_str api n ad) \<and>
     (\<forall>n\<in>set attr_names. \<forall>m\<in>set attr_names. \<forall>v ad. n \<noteq> m \<longrightarrow>
        ad_eval_num api n (ad_insert_str api m v ad) = ad_eval_num api n ad) \<and>
     (\<forall>n\<in>set attr_names. \<forall>ad. ad_eval_str api n (ad_update api (ad_new api) ad) = ad_eval_str api n ad \<and>
        ad_eval_num api n (ad_update api (ad_new api) ad) = ad_eval_num api n ad) \<and>
     (\<forall>n\<in>set attr_names. ad_eval_str api n (ad_new api) = None \<and> ad_eval_num api n (ad_new api) = None)"

lemma attr_names_in [simp]:
  "pi_s_CondorId \<in> set attr_names" "pi_s_EdgId \<in> set attr_names" "pi_s_SequenceCode \<in> set attr_names"
  "pi_s_CondorStatus \<in> set attr_names" "pi_s_LastStatus \<in> set attr_names" "pi_s_RetryCount \<in> set attr_names"
  by (simp_all add: attr_names_def)

lemma attr_names_distinct: "distinct attr_names"
  by (simp add: attr_names_def pi_s_CondorId_def pi_s_EdgId_def pi_s_SequenceCode_def pi_s_CondorStatus_def
      pi_s_LastStatus_def pi_s_RetryCount_def)

lemma attr_names_neq [simp]:
  "pi_s_CondorId \<noteq> pi_s_EdgId" "pi_s_CondorId \<noteq> pi_s_SequenceCode" "pi_s_CondorId \<noteq> pi_s_CondorStatus"
  "pi_s_CondorId \<noteq> pi_s_LastStatus" "pi_s_CondorId \<noteq> pi_s_RetryCount" "pi_s_EdgId \<noteq> pi_s_CondorId"
  "pi_s_EdgId \<noteq> pi_s_SequenceCode" "pi_s_EdgId \<noteq> pi_s_CondorStatus" "pi_s_EdgId \<noteq> pi_s_LastStatus"
  "pi_s_EdgId \<noteq> pi_s_RetryCount" "pi_s_SequenceCode \<noteq> pi_s_CondorId" "pi_s_SequenceCode \<noteq> pi_s_EdgId"
  "pi_s_SequenceCode \<noteq> pi_s_CondorStatus" "pi_s_SequenceCode \<noteq> pi_s_LastStatus" "pi_s_SequenceCode \<noteq> pi_s_RetryCount"
  "pi_s_CondorStatus \<noteq> pi_s_CondorId" "pi_s_CondorStatus \<noteq> pi_s_EdgId" "pi_s_CondorStatus \<noteq> pi_s_SequenceCode"
  "pi_s_CondorStatus \<noteq> pi_s_LastStatus" "pi_s_CondorStatus \<noteq> pi_s_RetryCount" "pi_s_LastStatus \<noteq> pi_s_CondorId"
  "pi_s_LastStatus \<noteq> pi_s_EdgId" "pi_s_LastStatus \<noteq> pi_s_SequenceCode" "pi_s_LastStatus \<noteq> pi_s_CondorStatus"
  "pi_s_LastStatus \<noteq> pi_s_RetryCount" "pi_s_RetryCount \<noteq> pi_s_CondorId" "pi_s_RetryCount \<noteq> pi_s_EdgId"
  "pi_s_RetryCount \<noteq> pi_s_SequenceCode" "pi_s_RetryCount \<noteq> pi_s_CondorStatus" "pi_s_RetryCount \<noteq> pi_s_LastStatus"
  using attr_names_distinct by (auto simp: attr_names_def)

lemma classad_lawsD:
  assumes "classad_laws api"
  shows "ad_parse api (ad_unparse api ad) = Some ad" "ad_unparse api ad \<noteq> []"
    "n \<in> set attr_names \<Longrightarrow> m \<in> set attr_names \<Longrightarrow>
       ad_eval_str api n (ad_insert_str api m v ad) = (if n = m then Some v else ad_eval_str api n ad)"
    "n \<in> set attr_names \<Longrightarrow> m \<in> set attr_names \<Longrightarrow>
       ad_eval_num api n (ad_insert_int api m i ad) = (if n = m then Some i else ad_eval_num api n ad)"
    "n \<in> set attr_names \<Longrightarrow> m \<in> set attr_names \<Longrightarrow> n \<noteq> m \<Longrightarrow> ad_eval_str api n (ad_insert_int api m i ad) = ad_eval_str api n ad"
    "n \<in> set attr_names \<Longrightarrow> m \<in> set attr_names \<Longrightarrow> n \<noteq> m \<Longrightarrow> ad_eval_num api n (ad_insert_str api m v ad) = ad_eval_num api n ad"
    "n \<in> set attr_names \<Longrightarrow> ad_eval_str api n (ad_update api (ad_new api) ad) = ad_eval_str api n ad"
    "n \<in> set attr_names \<Longrightarrow> ad_eval_num api n (ad_update api (ad_new api) ad) = ad_eval_num api n ad"
    "n \<in> set attr_names \<Longrightarrow> ad_eval_str api n (ad_new api) = None"
    "n \<in> set attr_names \<Longrightarrow> ad_eval_num api n (ad_new api) = None"
  using assms by (simp_all add: classad_laws_def)

section \<open>The invariant\<close>

abbreviation node_pos :: "'ad pointer_id \<Rightarrow> int" where
  "node_pos p \<equiv> bi_position (fli_base (pi_position p))"

text \<open>The attributes that a node has of its ad; the status is not among them, since \<open>insert\<close>
  writes it to the file and leaves \<open>0\<close> in the node.\<close>

definition agrees :: "'ad classad_api \<Rightarrow> 'ad \<Rightarrow> 'ad pointer_id \<Rightarrow> bool" where
  "agrees api ad p \<longleftrightarrow>
     ad_eval_str api pi_s_EdgId ad = Some (pi_edgId p) \<and> ad_eval_str api pi_s_CondorId ad = Some (pi_condorId p) \<and>
     eval_or (ad_eval_str api pi_s_SequenceCode ad) [] = pi_sequenceCode p \<and>
     eval_or (ad_eval_num api pi_s_LastStatus ad) undefined_status = pi_lastStatus p \<and>
     eval_or (ad_eval_num api pi_s_RetryCount ad) 0 = pi_retryCount p"

text \<open>The iterator of a node stands on a cell of the file and has its data; the ad in the
  cell has the attributes of the node.\<close>

definition node_ok :: "'ad classad_api \<Rightarrow> nat \<Rightarrow> cells \<Rightarrow> 'ad pointer_id \<Rightarrow> bool" where
  "node_ok api addr rs p \<longleftrightarrow> (\<exists>q ad. (q, bi_data (fli_base (pi_position p))) \<in> set rs \<and> node_pos p = int q \<and>
     bi_container (fli_base (pi_position p)) = Some addr \<and> bi_good (fli_base (pi_position p)) \<and>
     ad_parse api (bi_data (fli_base (pi_position p))) = Some ad \<and>
     agrees api ad p \<and> (\<not> bi_new (fli_base (pi_position p)) \<longrightarrow> fli_object (pi_position p) = Some ad))"

definition table_at :: "'ad classad_api \<Rightarrow> file_sequence \<Rightarrow> string \<Rightarrow> cells \<Rightarrow> 'ad id_container \<Rightarrow> bool" where
  "table_at api s0 f rs s \<longleftrightarrow> seq_at s0 f rs (ic_container s) \<and>
     index_ok (ic_pointers s) (ic_edgs s) (ic_condors s) \<and>
     (\<forall>x\<in>set (ic_pointers s). fst x < ic_fresh s \<and> node_ok api (fs_address s0) rs (snd x)) \<and>
     inj_on (\<lambda>x. node_pos (snd x)) (set (ic_pointers s)) \<and>
     (\<lambda>x. node_pos (snd x)) ` set (ic_pointers s) = (\<lambda>r. int (fst r)) ` set rs"

definition ids :: "'ad id_container \<Rightarrow> (string \<times> string) set" where
  "ids s = id_pairs (ic_pointers s)"

text \<open>What a client reads of a node, apart from the Condor status, which the node and the file need not have
  in common; \<open>statuses\<close> has it too.\<close>

type_synonym job = "string \<times> string \<times> string \<times> int \<times> int"

definition job :: "'ad pointer_id \<Rightarrow> job" where
  "job p = (pi_edgId p, pi_condorId p, pi_sequenceCode p, pi_lastStatus p, pi_retryCount p)"

definition jobs :: "'ad id_container \<Rightarrow> job set" where
  "jobs s = (\<lambda>x. job (snd x)) ` set (ic_pointers s)"

definition statuses :: "'ad id_container \<Rightarrow> (job \<times> int) set" where
  "statuses s = (\<lambda>x. (job (snd x), pi_condorStatus (snd x))) ` set (ic_pointers s)"

lemma table_atD:
  assumes "table_at api s0 f rs s"
  shows "seq_at s0 f rs (ic_container s)" "index_ok (ic_pointers s) (ic_edgs s) (ic_condors s)"
    "x \<in> set (ic_pointers s) \<Longrightarrow> fst x < ic_fresh s" "x \<in> set (ic_pointers s) \<Longrightarrow> node_ok api (fs_address s0) rs (snd x)"
    "inj_on (\<lambda>x. node_pos (snd x)) (set (ic_pointers s))"
    "(\<lambda>x. node_pos (snd x)) ` set (ic_pointers s) = (\<lambda>r. int (fst r)) ` set rs"
  using assms by (auto simp: table_at_def)

lemma seq_at_distinct: "seq_at s0 f rs s \<Longrightarrow> distinct (map fst rs)"
proof -
  assume "seq_at s0 f rs s"
  then obtain h where "file_ok f h rs" by (auto simp: seq_at_def elim: list_atE)
  from file_okD(17) [OF this] show ?thesis
    by (induction rs) (force simp: cell_end_def)+
qed

lemma seq_at_below: "seq_at s0 f rs s \<Longrightarrow> r \<in> set rs \<Longrightarrow> fst r < length f"
proof -
  assume "seq_at s0 f rs s" "r \<in> set rs"
  then obtain h where "file_ok f h rs" by (auto simp: seq_at_def elim: list_atE)
  from chain_cells [OF file_okD(16) [OF this] \<open>r \<in> set rs\<close>] show ?thesis by (simp add: cell_end_def)
qed

section \<open>Rules\<close>

lemma wp_ic [wp_simps]:
  "wp (ic_return v) P s = P v s"
  "wp (ic_bind m k) P s = wp m (\<lambda>v. wp (k v) P) s"
  "wp (ic_get g) Q s = Q (g s) s"
  "wp (ic_modify f) R s = R () (f s)"
  by (auto simp: wp_def ic_return_def ic_bind_def ic_get_def ic_modify_def split: prod.splits sum.splits)

lemma wp_push_node [wp_simps]: "wp (push_node p) P s =
    P (ic_fresh s) (s\<lparr>ic_pointers := ic_pointers s @ [(ic_fresh s, p)], ic_fresh := Suc (ic_fresh s)\<rparr>)"
  by (simp add: wp_def push_node_def)

lemma wp_node_at: "map_of (ic_pointers s) a = Some p \<Longrightarrow> wp (node_at a) P s = P p s"
  by (simp add: wp_def node_at_def)

lemma wp_on_list: "wp m (\<lambda>v l. P v (s\<lparr>ic_container := l\<rparr>)) (ic_container s) \<Longrightarrow> wp (on_list m) P s"
  by (auto simp: wp_def on_list_def)

lemma append_ad_wp:
  assumes api: "classad_laws api" and s: "seq_at s0 f rs s" and fit: "fits (ad_unparse api ad) (length f)"
    and P: "\<And>it f' s'. seq_at s0 f' (rs @ [(length f, ad_unparse api ad)]) s' \<Longrightarrow>
      length f' = length f + 95 + length (ad_unparse api ad) \<Longrightarrow>
      shows_cell s0 (length f') (rs @ [(length f, ad_unparse api ad)]) (length rs) (fli_base it) \<Longrightarrow> P it s'"
  shows "wp (append_ad api ad) P s"
  unfolding append_ad_def wp_simps
proof (rule push_back_wp [OF s _ fit])
  show "to_string (ad_converter api) ad = Some (ad_unparse api ad)" by (simp add: ad_converter_def)
  let ?rs = "rs @ [(length f, ad_unparse api ad)]"
  fix f' s' assume a: "seq_at s0 f' ?rs s'" "length f' = length f + 95 + length (ad_unparse api ad)"
  show "wp fl_end (\<lambda>last. wp (on_container (fli_prev_step (fli_assign last))) P) s'"
  proof (rule fl_end_wp [OF a(1)])
    fix it :: "'a fl_iterator" and s'' assume b: "seq_at s0 f' ?rs s''" "shows_cell s0 (length f') ?rs (length ?rs) (fli_base it)"
    show "wp (on_container (fli_prev_step (fli_assign it))) P s''"
    proof (rule seq_step [OF b(1), where R = "\<lambda>it. shows_cell s0 (length f') ?rs (length rs) (fli_base it)"])
      fix Q :: "'a fl_iterator \<Rightarrow> file_container \<Rightarrow> bool"
      assume "\<And>v c'. list_at (fs_container s0) f' ?rs c' \<Longrightarrow>
        shows_cell s0 (length f') ?rs (length rs) (fli_base v) \<Longrightarrow> Q v c'"
      then show "wp (fli_prev_step (fli_assign it)) Q (fs_container s'')"
        using fli_prev_wp [OF seq_atD(1) [OF b(1)], of s0 "length rs" "fli_assign it" Q] b(2)
        by (simp add: shows_cell_def fli_assign_def)
    qed (use P a(2) in auto)
  qed
qed

lemma fl_erase_wp:
  assumes s: "seq_at s0 f (xs @ (q, d) # ys) s" and b: "bi_position (fli_base it) = int q"
    and P: "\<And>it' f' s'. seq_at s0 f' (xs @ ys) s' \<Longrightarrow> length f' \<le> length f \<Longrightarrow> P it' s'"
  shows "wp (fl_erase it) P s"
  unfolding fl_erase_def wp_simps
proof (rule erasePointer_wp [OF s b])
  fix b' f' s' assume a: "seq_at s0 f' (xs @ ys) s'" "length f' = (if xs @ ys = [] then 391 else length f)"
    "points s0 (length f') (xs @ ys) (length xs) b'"
  have "391 \<le> length f" using s file_okD(3) by (auto simp: seq_at_def elim!: list_atE)
  then have l: "length f' \<le> length f" using a(2) by simp
  show "wp (on_container (FLIterator_of b')) P s'"
    by (rule seq_step [OF a(1), where R = "\<lambda>it. shows_cell s0 (length f') (xs @ ys) (length xs) (fli_base it)"])
      (use a P l in \<open>auto intro: FLIterator_of_wp seq_atD\<close>)
qed

section \<open>Insertion\<close>

lemma node_ok_mono: "node_ok api addr rs p \<Longrightarrow> set rs \<subseteq> set qs \<Longrightarrow> node_ok api addr qs p"
  by (force simp: node_ok_def)

definition new_ad :: "'ad classad_api \<Rightarrow> string \<Rightarrow> string \<Rightarrow> string \<Rightarrow> int \<Rightarrow> 'ad" where
  "new_ad api e c q st = ad_insert_int api pi_s_CondorStatus st (ad_insert_str api pi_s_SequenceCode q
     (ad_insert_str api pi_s_EdgId e (ad_insert_str api pi_s_CondorId c (ad_new api))))"

lemma shows_last_node_ok:
  assumes "classad_laws api" "shows_cell s0 L (rs @ [(q, ad_unparse api ad)]) (length rs) (fli_base it)"
    "agrees api ad p" "fli_base (pi_position p) = bi_copy (fli_base it)"
  shows "node_ok api (fs_address s0) (rs @ [(q, ad_unparse api ad)]) p" "node_pos p = int q"
proof -
  have b: "bi_container (fli_base it) = Some (fs_address s0)" "bi_iterator (fli_base it) = iter_of (rs @ [(q, ad_unparse api ad)]) L (length rs)"
    "bi_good (fli_base it)" "bi_data (fli_base it) = ad_unparse api ad"
    using assms(2) by (simp_all add: shows_cell_def points_def)
  then show n: "node_pos p = int q" using assms(4) by (simp add: bi_position_def bi_copy_def pos_of_mid)
  with b classad_lawsD(1) [OF assms(1), of ad] assms(3,4)
  show "node_ok api (fs_address s0) (rs @ [(q, ad_unparse api ad)]) p" by (auto simp: node_ok_def bi_copy_def)
qed

lemma id_insert_wp:
  assumes api: "classad_laws api" and t: "table_at api s0 f rs s"
    and new: "e \<notin> fst ` ids s" "c \<notin> snd ` ids s" and fit: "fits (ad_unparse api (new_ad api e c q st)) (length f)"
    and P: "\<And>f' s'. table_at api s0 f' (rs @ [(length f, ad_unparse api (new_ad api e c q st))]) s' \<Longrightarrow> ids s' = insert (e, c) (ids s) \<Longrightarrow>
      jobs s' = insert (e, c, q, undefined_status, 0) (jobs s) \<Longrightarrow> length f' = length f + 95 + length (ad_unparse api (new_ad api e c q st)) \<Longrightarrow> P False s'"
  shows "wp (id_insert api e c q st) P s"
proof -
  note d = table_atD [OF t]
  let ?ad = "new_ad api e c q st"
  have nf: "\<not> found (ic_edgs s) (lower_bound (ic_edgs s) e) e" "\<not> found (ic_condors s) (lower_bound (ic_condors s) c) c"
    using new index_found [OF d(2)] by (simp_all add: ids_def)
  have eq: "id_insert api e c q st s = ic_bind (on_list (append_ad api ?ad)) (\<lambda>last.
      ic_bind (push_node (PointerId_with last c e q)) (\<lambda>a.
      ic_bind (node_at a) (\<lambda>p.
      ic_bind (ic_modify (\<lambda>t. t\<lparr>ic_last := Some a,
          ic_condors := vec_insert (lower_bound (ic_condors s) c) (CondorId a p) (ic_condors t),
          ic_edgs := vec_insert (lower_bound (ic_edgs s) e) (EdgId a p) (ic_edgs t),
          ic_inserted := ic_inserted t + 1\<rparr>)) (\<lambda>_. ic_return False)))) s"
    using nf by (simp add: id_insert_def new_ad_def Let_def)
  have "wp (ic_bind (on_list (append_ad api ?ad)) (\<lambda>last.
      ic_bind (push_node (PointerId_with last c e q)) (\<lambda>a.
      ic_bind (node_at a) (\<lambda>p.
      ic_bind (ic_modify (\<lambda>t. t\<lparr>ic_last := Some a,
          ic_condors := vec_insert (lower_bound (ic_condors s) c) (CondorId a p) (ic_condors t),
          ic_edgs := vec_insert (lower_bound (ic_edgs s) e) (EdgId a p) (ic_edgs t),
          ic_inserted := ic_inserted t + 1\<rparr>)) (\<lambda>_. ic_return False))))) P s"
    unfolding wp_simps
  proof (rule wp_on_list, rule append_ad_wp [OF api d(1) fit])
    fix it :: "'a fl_iterator" and f' l
    let ?rs = "rs @ [(length f, ad_unparse api ?ad)]" and ?p = "PointerId_with it c e q"
    let ?ps = "ic_pointers s @ [(ic_fresh s, ?p)]"
    assume a: "seq_at s0 f' ?rs l" "shows_cell s0 (length f') ?rs (length rs) (fli_base it)"
      "length f' = length f + 95 + length (ad_unparse api ?ad)"
    have p: "pi_edgId ?p = e" "pi_condorId ?p = c" "fli_base (pi_position ?p) = bi_copy (fli_base it)"
      by (simp_all add: PointerId_with_def FLIterator_copy_def)
    have ev: "agrees api ?ad ?p"
      using classad_lawsD(3-6,9-10) [OF api] by (simp add: agrees_def new_ad_def PointerId_with_def eval_or_def)
    have j: "(\<lambda>x. job (snd x)) ` set ?ps = insert (e, c, q, undefined_status, 0) ((\<lambda>x. job (snd x)) ` set (ic_pointers s))"
      by (simp add: job_def PointerId_with_def)
    note nok = shows_last_node_ok [OF api a(2) ev p(3)]
    have fr: "ic_fresh s \<notin> fst ` set (ic_pointers s)" using d(3) by force
    have ix: "index_ok ?ps (vec_insert (lower_bound (ic_edgs s) e) (EdgId (ic_fresh s) ?p) (ic_edgs s))
        (vec_insert (lower_bound (ic_condors s) c) (CondorId (ic_fresh s) ?p) (ic_condors s))"
      using index_insert [OF d(2) fr, of ?p] new p by (simp add: ids_def)
    have np: "node_pos ?p \<notin> (\<lambda>x. node_pos (snd x)) ` set (ic_pointers s)"
      unfolding d(6) nok(2) using seq_at_below [OF d(1)] by force
    have all: "\<forall>x\<in>set ?ps. fst x < Suc (ic_fresh s) \<and> node_ok api (fs_address s0) ?rs (snd x)"
    proof
      fix x assume "x \<in> set ?ps"
      then show "fst x < Suc (ic_fresh s) \<and> node_ok api (fs_address s0) ?rs (snd x)"
        using d(3) [of x] nok(1) node_ok_mono [OF d(4) [of x], of ?rs] by auto
    qed
    have inj: "inj_on (\<lambda>x. node_pos (snd x)) (set ?ps)" using d(5) np by (simp add: inj_on_insert) blast
    have img: "(\<lambda>x. node_pos (snd x)) ` set ?ps = (\<lambda>r. int (fst r)) ` set ?rs" using d(6) nok(2) by simp
    have mp: "map_of ?ps (ic_fresh s) = Some ?p" by (rule index_node(5) [OF ix]) simp
    show "wp (node_at (ic_fresh (s\<lparr>ic_container := l\<rparr>))) (\<lambda>p sa. P False (sa\<lparr>ic_last := Some (ic_fresh (s\<lparr>ic_container := l\<rparr>)),
          ic_condors := vec_insert (lower_bound (ic_condors s) c) (CondorId (ic_fresh (s\<lparr>ic_container := l\<rparr>)) p) (ic_condors sa),
          ic_edgs := vec_insert (lower_bound (ic_edgs s) e) (EdgId (ic_fresh (s\<lparr>ic_container := l\<rparr>)) p) (ic_edgs sa),
          ic_inserted := ic_inserted sa + 1\<rparr>))
        (s\<lparr>ic_container := l, ic_pointers := ic_pointers (s\<lparr>ic_container := l\<rparr>) @ [(ic_fresh (s\<lparr>ic_container := l\<rparr>), ?p)],
          ic_fresh := Suc (ic_fresh (s\<lparr>ic_container := l\<rparr>))\<rparr>)"
      using mp p by (subst wp_node_at [where p = ?p]) (auto intro!: P [where f' = f']
        simp: table_at_def a(1) ix all inj img ids_def jobs_def j a(3) simp del: set_append)
  qed
  then show ?thesis by (simp add: wp_def eq)
qed

end
