(* ===== verification/Id_Container_Change.thy ===== *)
theory Id_Container_Change
  imports Id_Container_Ops
begin

text \<open>
  The job table on file: removal of a job, change of a job in place.
\<close>

section \<open>The cell of a node\<close>

lemma node_cell:
  assumes t: "table_at api s0 f rs s" and p: "(a, p) \<in> set (ic_pointers s)"
  obtains xs q d ys ad where "rs = xs @ (q, d) # ys" "node_pos p = int q"
    "ad_parse api d = Some ad" "d = bi_data (fli_base (pi_position p))"
    "agrees api ad p" "bi_good (fli_base (pi_position p))" "\<not> bi_new (fli_base (pi_position p)) \<longrightarrow> fli_object (pi_position p) = Some ad"
proof -
  from table_atD(4) [OF t p] obtain q ad where q: "(q, bi_data (fli_base (pi_position p))) \<in> set rs" "node_pos p = int q"
    "bi_good (fli_base (pi_position p))" "ad_parse api (bi_data (fli_base (pi_position p))) = Some ad"
    "agrees api ad p"
    "\<not> bi_new (fli_base (pi_position p)) \<longrightarrow> fli_object (pi_position p) = Some ad" by (auto simp: node_ok_def)
  from split_list [OF q(1)] obtain xs ys where "rs = xs @ (q, bi_data (fli_base (pi_position p))) # ys" by blast
  with q that show thesis by blast
qed

lemma node_ok_other:
  "node_ok api addr (xs @ (q, d) # ys) p \<Longrightarrow> node_pos p \<noteq> int q \<Longrightarrow> node_ok api addr (xs @ ys) p"
  by (fastforce simp: node_ok_def)

text \<open>The nodes of the other cells once the cell of one node is erased.\<close>

lemma other_nodes:
  assumes t: "table_at api s0 f (xs @ (q, d) # ys) s" and p: "(a, p) \<in> set (ic_pointers s)" "node_pos p = int q"
  shows "x \<in> set (ic_pointers s) - {(a, p)} \<Longrightarrow> node_ok api (fs_address s0) (xs @ ys) (snd x)"
    "(\<lambda>x. node_pos (snd x)) ` (set (ic_pointers s) - {(a, p)}) = (\<lambda>r. int (fst r)) ` set (xs @ ys)"
proof -
  note d = table_atD [OF t]
  have ne: "node_pos (snd x) \<noteq> int q" if "x \<in> set (ic_pointers s) - {(a, p)}" for x
    using inj_onD [OF d(5), of x "(a, p)"] that p by auto
  show "node_ok api (fs_address s0) (xs @ ys) (snd x)" if "x \<in> set (ic_pointers s) - {(a, p)}"
    using node_ok_other [OF d(4)] ne [OF that] that by blast
  have "distinct (map fst (xs @ (q, d) # ys))" using seq_at_distinct [OF d(1)] .
  then have "(\<lambda>r. int (fst r)) ` set (xs @ ys) = (\<lambda>r. int (fst r)) ` set (xs @ (q, d) # ys) - {int q}"
    by (auto simp: image_iff)
  also have "\<dots> = (\<lambda>x. node_pos (snd x)) ` set (ic_pointers s) - {node_pos (snd (a, p))}" using d(6) p(2) by simp
  also have "\<dots> = (\<lambda>x. node_pos (snd x)) ` (set (ic_pointers s) - {(a, p)})"
    using inj_on_image_set_diff [OF d(5), of "set (ic_pointers s)" "{(a, p)}"] p(1) by simp
  finally show "(\<lambda>x. node_pos (snd x)) ` (set (ic_pointers s) - {(a, p)}) = (\<lambda>r. int (fst r)) ` set (xs @ ys)" by simp
qed

lemma job_eqD: "job p = job q \<Longrightarrow> pi_edgId p = pi_edgId q"
  by (simp add: job_def)

lemma jobs_inj:
  assumes t: "table_at api s0 f rs s"
  shows "inj_on (\<lambda>x. job (snd x)) (set (ic_pointers s))"
  using index_unique [OF table_atD(2) [OF t]] by (auto simp: inj_on_def dest!: job_eqD)

lemma jobs_change:
  assumes t: "table_at api s0 f rs s" and p: "(a, p) \<in> set (ic_pointers s)"
    and s': "set (ic_pointers s') = insert (a, p') (set (ic_pointers s) - {(a, p)})"
  shows "jobs s' = insert (job p') (jobs s - {job p})"
proof -
  from inj_on_image_set_diff [OF jobs_inj [OF t], of "set (ic_pointers s)" "{(a, p)}"] p
  show ?thesis by (simp add: jobs_def s')
qed

section \<open>Removal\<close>

lemma table_erase:
  assumes t: "table_at api s0 f (xs @ (q, d) # ys) s" and p: "(a, p) \<in> set (ic_pointers s)" "node_pos p = int q"
    and l: "seq_at s0 f' (xs @ ys) l"
    and s': "ic_container s' = l" "ic_pointers s' = erase_node a (ic_pointers s)" "ic_fresh s' = ic_fresh s"
      "ic_edgs s' = vec_erase (lower_bound (ic_edgs s) (pi_edgId p)) (ic_edgs s)"
      "ic_condors s' = vec_erase (lower_bound (ic_condors s) (pi_condorId p)) (ic_condors s)"
  shows "table_at api s0 f' (xs @ ys) s'" "ids s' = ids s - {(pi_edgId p, pi_condorId p)}" "jobs s' = jobs s - {job p}"
proof -
  note d = table_atD [OF t] and e = index_erase [OF table_atD(2) [OF t] p(1)] and o = other_nodes [OF t p]
  have "distinct (map fst (ic_pointers s))" using d(2) by (simp add: index_ok_def)
  note st = set_erase_node [OF this p(1)]
  show "table_at api s0 f' (xs @ ys) s'"
    unfolding table_at_def s' st using l e(1) d(3) o inj_on_subset [OF d(5), of "set (ic_pointers s) - {(a, p)}"] by blast
  show "ids s' = ids s - {(pi_edgId p, pi_condorId p)}" using e(2) s'(2) by (simp add: ids_def)
  show "jobs s' = jobs s - {job p}" unfolding jobs_def s' st
    using inj_on_image_set_diff [OF jobs_inj [OF t], of "set (ic_pointers s)" "{(a, p)}"] p(1) by simp
qed

lemma removePointers_wp:
  assumes t: "table_at api s0 f rs s" and p: "(a, p) \<in> set (ic_pointers s)"
    and P: "\<And>f' rs' s'. table_at api s0 f' rs' s' \<Longrightarrow> ids s' = ids s - {(pi_edgId p, pi_condorId p)} \<Longrightarrow>
      jobs s' = jobs s - {job p} \<Longrightarrow> length f' \<le> length f \<Longrightarrow> P False s'"
  shows "wp (removePointers (lower_bound (ic_edgs s) (pi_edgId p)) (lower_bound (ic_condors s) (pi_condorId p))) P s"
proof -
  from node_cell [OF t p] obtain xs q d ys where rs: "rs = xs @ (q, d) # ys" and q: "node_pos p = int q" .
  note n = index_node [OF table_atD(2) [OF t] p]
  have q': "bi_position (fli_base (fli_assign (pi_position p))) = int q" using q by (simp add: fli_assign_def bi_copy_def bi_position_def)
  have "wp (fl_erase (fli_assign (pi_position p))) (\<lambda>_ l. \<exists>f'. seq_at s0 f' (xs @ ys) l \<and> length f' \<le> length f) (ic_container s)"
    by (rule fl_erase_wp [OF table_atD(1) [OF t, unfolded rs] q']) blast
  then obtain it :: "'a fl_iterator" and l f' where
    l: "fl_erase (fli_assign (pi_position p)) (ic_container s) = (Inr it, l)" "seq_at s0 f' (xs @ ys) l" "length f' \<le> length f"
    by (auto simp: wp_def)
  have "P False (s\<lparr>ic_container := l, ic_pointers := erase_node a (ic_pointers s),
      ic_edgs := vec_erase (lower_bound (ic_edgs s) (pi_edgId p)) (ic_edgs s),
      ic_condors := vec_erase (lower_bound (ic_condors s) (pi_condorId p)) (ic_condors s)\<rparr>)"
    using table_erase [OF t [unfolded rs] p q l(2)] l(3) by (intro P [where rs' = "xs @ ys" and f' = f']) simp_all
  then show ?thesis
    unfolding removePointers_def wp_simps n(2) snd_conv wp_node_at [OF n(5)] by (auto simp: wp_def on_list_def l(1))
qed

lemma remove_by_edg_id_wp:
  assumes t: "table_at api s0 f rs s" and p: "(a, p) \<in> set (ic_pointers s)"
    and P: "\<And>f' rs' s'. table_at api s0 f' rs' s' \<Longrightarrow> ids s' = ids s - {(pi_edgId p, pi_condorId p)} \<Longrightarrow>
      jobs s' = jobs s - {job p} \<Longrightarrow> length f' \<le> length f \<Longrightarrow> P False s'"
  shows "wp (remove_by_edg_id (pi_edgId p)) P s"
  using index_node [OF table_atD(2) [OF t] p] removePointers_wp [OF t p, of P] P
  by (simp add: remove_by_edg_id_def wp_simps Let_def wp_node_at)

lemma remove_by_condor_id_wp:
  assumes t: "table_at api s0 f rs s" and p: "(a, p) \<in> set (ic_pointers s)"
    and P: "\<And>f' rs' s'. table_at api s0 f' rs' s' \<Longrightarrow> ids s' = ids s - {(pi_edgId p, pi_condorId p)} \<Longrightarrow>
      jobs s' = jobs s - {job p} \<Longrightarrow> length f' \<le> length f \<Longrightarrow> P False s'"
  shows "wp (remove_by_condor_id (pi_condorId p)) P s"
  using index_node [OF table_atD(2) [OF t] p] removePointers_wp [OF t p, of P] P
  by (simp add: remove_by_condor_id_def wp_simps Let_def wp_node_at)

section \<open>Change in place\<close>

definition put_node :: "nat \<Rightarrow> 'p \<Rightarrow> (nat \<times> 'p) list \<Rightarrow> (nat \<times> 'p) list" where
  "put_node a p ps = map (\<lambda>(b, q). (b, if b = a then p else q)) ps"

lemma wp_set_node [wp_simps]: "wp (set_node a p) P s = P () (s\<lparr>ic_pointers := put_node a p (ic_pointers s)\<rparr>)"
  by (simp add: set_node_def put_node_def wp_simps)

lemma put_node_set:
  assumes "distinct (map fst ps)" "(a, p) \<in> set ps"
  shows "set (put_node a p' ps) = insert (a, p') (set ps - {(a, p)})" "map fst (put_node a p' ps) = map fst ps"
proof -
  let ?g = "\<lambda>(b, q). (b, if b = a then p' else q)"
  have "?g x = x" if "x \<in> set ps - {(a, p)}" for x
    using that assms by (cases x) (auto dest: eq_key_imp_eq_value)
  then have i: "?g ` (set ps - {(a, p)}) = set ps - {(a, p)}" by force
  have "?g ` set ps = ?g ` insert (a, p) (set ps - {(a, p)})" using assms(2) by (simp add: insert_absorb)
  then show "set (put_node a p' ps) = insert (a, p') (set ps - {(a, p)})" unfolding image_insert i by (simp add: put_node_def)
  show "map fst (put_node a p' ps) = map fst ps" by (auto simp: put_node_def)
qed

lemma index_put_node:
  assumes "index_ok ps es cs" "(a, p) \<in> set ps" "pi_edgId p' = pi_edgId p" "pi_condorId p' = pi_condorId p"
  shows "index_ok (put_node a p' ps) es cs" "id_pairs (put_node a p' ps) = id_pairs ps"
proof -
  have "distinct (map fst ps)" using assms(1) by (simp add: index_ok_def)
  note s = put_node_set [OF this assms(2), of p']
  have im: "g ` set (put_node a p' ps) = g ` set ps" if "g (a, p') = g (a, p)" for g :: "nat \<times> 'a pointer_id \<Rightarrow> 'c"
    using that assms(2) by (auto simp: s(1) image_iff)
  show "index_ok (put_node a p' ps) es cs"
    using assms(1) im [of "\<lambda>(a, p). EdgId a p"] im [of "\<lambda>(a, p). CondorId a p"] assms(3,4)
    by (simp add: index_ok_def s(2) EdgId_def CondorId_def)
  show "id_pairs (put_node a p' ps) = id_pairs ps"
    using im [of "\<lambda>(a, p). (pi_edgId p, pi_condorId p)"] assms(3,4) by (simp add: id_pairs_def)
qed

lemma table_put_node:
  assumes t: "table_at api s0 f rs s" and p: "(a, p) \<in> set (ic_pointers s)"
    and same: "pi_edgId p' = pi_edgId p" "pi_condorId p' = pi_condorId p"
    and l: "seq_at s0 f' rs' (ic_container s')" and mine: "node_ok api (fs_address s0) rs' p'"
    and others: "\<And>x. x \<in> set (ic_pointers s) - {(a, p)} \<Longrightarrow> node_ok api (fs_address s0) rs' (snd x)"
    and A: "(\<lambda>x. node_pos (snd x)) ` (set (ic_pointers s) - {(a, p)}) = A" "node_pos p' \<notin> A"
      "insert (node_pos p') A = (\<lambda>r. int (fst r)) ` set rs'"
    and s': "ic_pointers s' = put_node a p' (ic_pointers s)" "ic_fresh s' = ic_fresh s" "ic_edgs s' = ic_edgs s" "ic_condors s' = ic_condors s"
  shows "table_at api s0 f' rs' s'" "ids s' = ids s"
proof -
  note d = table_atD [OF t] and e = index_put_node [OF table_atD(2) [OF t] p same]
  have "distinct (map fst (ic_pointers s))" using d(2) by (simp add: index_ok_def)
  note st = put_node_set(1) [OF this p]
  have "inj_on (\<lambda>x. node_pos (snd x)) (insert (a, p') (set (ic_pointers s) - {(a, p)}))"
    using A(1,2) inj_on_subset [OF d(5), of "set (ic_pointers s) - {(a, p)}"] by (subst inj_on_insert) auto
  moreover have "fst x < ic_fresh s" if "x \<in> insert (a, p') (set (ic_pointers s) - {(a, p)})" for x
    using that d(3) [of x] d(3) [of "(a, p)"] p by auto
  moreover have "node_ok api (fs_address s0) rs' (snd x)" if "x \<in> insert (a, p') (set (ic_pointers s) - {(a, p)})" for x
    using that mine others [of x] by auto
  moreover have "(\<lambda>x. node_pos (snd x)) ` insert (a, p') (set (ic_pointers s) - {(a, p)}) = (\<lambda>r. int (fst r)) ` set rs'"
    using A(1,3) by simp
  ultimately show "table_at api s0 f' rs' s'" unfolding table_at_def s' st using l e(1) by blast
  show "ids s' = ids s" using e(2) s'(1) by (simp add: ids_def)
qed

lemma wp_deref_node:
  assumes "bi_good (fli_base it)" "ad_parse api (bi_data (fli_base it)) = Some ad"
    "\<not> bi_new (fli_base it) \<longrightarrow> fli_object it = Some ad"
  shows "wp (on_list (on_container (fli_deref (ad_converter api) it))) P s \<longleftrightarrow>
    P (ad, \<lparr>fli_base = (fli_base it)\<lparr>bi_new := False\<rparr>, fli_object = Some ad\<rparr>) s"
  using assms by (cases it; cases "fli_base it")
    (auto simp: wp_def on_list_def on_container_def fli_deref_def check_status_def convert_from_def ad_converter_def
      fc_then_def fc_bind_def fc_return_def)

text \<open>The job itself stays while its iterator is copied or its object read.\<close>

lemma node_ad_wp:
  assumes t: "table_at api s0 f rs s" and p: "(a, p) \<in> set (ic_pointers s)"
    and ad: "ad_parse api (bi_data (fli_base (pi_position p))) = Some ad"
    and P: "\<And>s' p'. table_at api s0 f rs s' \<Longrightarrow> ids s' = ids s \<Longrightarrow>
      p' = p\<lparr>pi_position := pi_position p'\<rparr> \<Longrightarrow> bi_data (fli_base (pi_position p')) = bi_data (fli_base (pi_position p)) \<Longrightarrow>
      (a, p') \<in> set (ic_pointers s') \<Longrightarrow> set (ic_pointers s') = insert (a, p') (set (ic_pointers s) - {(a, p)}) \<Longrightarrow> P ad s'"
  shows "wp (node_ad api a) P s"
proof -
  note n = index_node [OF table_atD(2) [OF t] p] and d = table_atD [OF t]
  have it: "bi_good (fli_base (pi_position p))" "\<not> bi_new (fli_base (pi_position p)) \<longrightarrow> fli_object (pi_position p) = Some ad"
    using d(4) [OF p] ad by (auto simp: node_ok_def)
  let ?p = "p\<lparr>pi_position := \<lparr>fli_base = (fli_base (pi_position p))\<lparr>bi_new := False\<rparr>, fli_object = Some ad\<rparr>\<rparr>"
  let ?s = "s\<lparr>ic_pointers := put_node a ?p (ic_pointers s)\<rparr>"
  have np: "node_pos ?p = node_pos p" by (simp add: bi_position_def)
  have ok: "node_ok api (fs_address s0) rs ?p" using d(4) [OF p] ad by (auto simp: node_ok_def bi_position_def agrees_def)
  have A: "node_pos p \<notin> (\<lambda>x. node_pos (snd x)) ` (set (ic_pointers s) - {(a, p)})"
    using inj_onD [OF d(5), of "(a, p)"] p by auto
  have B: "insert (node_pos p) ((\<lambda>x. node_pos (snd x)) ` (set (ic_pointers s) - {(a, p)})) = (\<lambda>r. int (fst r)) ` set rs"
    using image_insert [of "\<lambda>x. node_pos (snd x)" "(a, p)" "set (ic_pointers s) - {(a, p)}"] d(6) p by (simp add: insert_absorb)
  have s': "seq_at s0 f rs (ic_container ?s)" "ic_pointers ?s = put_node a ?p (ic_pointers s)" "ic_fresh ?s = ic_fresh s"
    "ic_edgs ?s = ic_edgs s" "ic_condors ?s = ic_condors s" "pi_edgId ?p = pi_edgId p" "pi_condorId ?p = pi_condorId p"
    using d(1) by simp_all
  have ot: "node_ok api (fs_address s0) rs (snd x)" if "x \<in> set (ic_pointers s) - {(a, p)}" for x
    using d(4) that by blast
  note T = table_put_node [OF t p s'(6,7,1) ok ot refl A [folded np] B [folded np] s'(2-5)]
  have "distinct (map fst (ic_pointers s))" using d(2) by (simp add: index_ok_def)
  note st = put_node_set(1) [OF this p, of ?p]
  have "P ad ?s" using T st by (intro P [where p' = ?p]) simp_all
  then show ?thesis
    unfolding node_ad_def wp_simps wp_node_at [OF n(5)] wp_deref_node [OF it(1) ad it(2)] by (simp add: wp_simps)
qed

text \<open>What the node becomes: the attributes of the new ad.\<close>

lemma replace_ad_wp:
  assumes api: "classad_laws api" and t: "table_at api s0 f rs s" and p: "(a, p) \<in> set (ic_pointers s)"
    and ids: "ad_eval_str api pi_s_EdgId ad = Some (pi_edgId p)" "ad_eval_str api pi_s_CondorId ad = Some (pi_condorId p)"
    and agr: "\<And>it. agrees api ad (pointer_reset api it ad p)" and fit: "fits (ad_unparse api ad) (length f)"
    and P: "\<And>f' rs' s' it. table_at api s0 f' rs' s' \<Longrightarrow> ids s' = ids s \<Longrightarrow>
      set (ic_pointers s') = insert (a, pointer_reset api it ad p) (set (ic_pointers s) - {(a, p)}) \<Longrightarrow> P False s'"
  shows "wp (replace_ad api a ad) P s"
proof -
  note n = index_node [OF table_atD(2) [OF t] p] and d = table_atD [OF t]
  from node_cell [OF t p] obtain xs q dat ys where rs: "rs = xs @ (q, dat) # ys" and q: "node_pos p = int q" .
  have "distinct (map fst (ic_pointers s))" using d(2) by (simp add: index_ok_def)
  note st = put_node_set(1) [OF this p] and o = other_nodes [OF t [unfolded rs] p q]
  have ev: "pi_edgId (pointer_reset api it ad p) = pi_edgId p" "pi_condorId (pointer_reset api it ad p) = pi_condorId p"
    "pi_position (pointer_reset api it ad p) = fli_assign it" for it
    using ids classad_lawsD(7) [OF api] by (simp_all add: pointer_reset_def pointer_eval_def eval_or_def)
  show ?thesis
    unfolding replace_ad_def wp_simps wp_node_at [OF n(5)]
  proof (rule wp_on_list, rule fl_erase_wp [OF d(1) [unfolded rs] q], rule wp_on_list, rule append_ad_wp [OF api])
    fix it' :: "'a fl_iterator" and f1 l1
    assume l1: "seq_at s0 f1 (xs @ ys) l1" "length f1 \<le> length f"
    then show "seq_at s0 f1 (xs @ ys) (ic_container (s\<lparr>ic_container := l1\<rparr>))" by simp
    show "fits (ad_unparse api ad) (length f1)" using fit l1(2) by (simp add: fits_def)
    fix it :: "'a fl_iterator" and f2 l2
    let ?rs = "(xs @ ys) @ [(length f1, ad_unparse api ad)]"
    assume l2: "seq_at s0 f2 ?rs l2" "shows_cell s0 (length f2) ?rs (length (xs @ ys)) (fli_base it)"
    let ?p = "pointer_reset api it ad p"
    let ?s = "s\<lparr>ic_container := l2, ic_pointers := put_node a ?p (ic_pointers s)\<rparr>"
    have b: "bi_good (fli_base it)" "ad_parse api (bi_data (fli_base it)) = Some ad" "\<not> bi_new (fli_base it) \<longrightarrow> fli_object it = Some ad"
      using l2(2) classad_lawsD(1) [OF api] by (simp_all add: shows_cell_def)
    note nok = shows_last_node_ok [OF api l2(2), of ?p]
    have nok': "node_ok api (fs_address s0) ?rs ?p" "node_pos ?p = int (length f1)"
      by (rule nok [OF agr]; simp add: ev(3) fli_assign_def)+
    have A: "node_pos ?p \<notin> (\<lambda>r. int (fst r)) ` set (xs @ ys)"
      unfolding nok'(2) using seq_at_below [OF l1(1)] by force
    have ot: "node_ok api (fs_address s0) ?rs (snd x)" if "x \<in> set (ic_pointers s) - {(a, p)}" for x
      by (rule node_ok_mono [OF o(1) [OF that]]) auto
    have ins: "insert (node_pos ?p) ((\<lambda>r. int (fst r)) ` set (xs @ ys)) = (\<lambda>r. int (fst r)) ` set ?rs" using nok'(2) by simp
    have s': "seq_at s0 f2 ?rs (ic_container ?s)" "ic_pointers ?s = put_node a ?p (ic_pointers s)" "ic_fresh ?s = ic_fresh s"
      "ic_edgs ?s = ic_edgs s" "ic_condors ?s = ic_condors s" using l2(1) by simp_all
    note T = table_put_node [OF t p ev(1,2) s'(1) nok'(1) ot o(2) A ins s'(2-5)]
    have "P False ?s" using T st [of ?p] by (intro P [where it = it]) simp_all
    then show "wp (on_list (on_container (fli_deref (ad_converter api) it))) (\<lambda>v. wp (case v of (ad, last') \<Rightarrow>
        ic_bind (set_node a (pointer_reset api it ad p)) (\<lambda>_. ic_return False)) P) (s\<lparr>ic_container := l1, ic_container := l2\<rparr>)"
      unfolding wp_deref_node [OF b] by (simp add: wp_simps)
  qed
qed

lemma pointer_reset_position [simp]: "pointer_reset api it ad (p\<lparr>pi_position := x\<rparr>) = pointer_reset api it ad p"
  by (simp add: pointer_reset_def)

text \<open>Reading the ad of a job, changing it and writing it back, as \<open>update_pointer\<close> and
  \<open>increment_pointer_retry_count\<close> do.\<close>

lemma change_ad_wp:
  assumes api: "classad_laws api" and t: "table_at api s0 f rs s" and p: "(a, p) \<in> set (ic_pointers s)"
    and ad: "ad_parse api (bi_data (fli_base (pi_position p))) = Some ad"
    and ids: "ad_eval_str api pi_s_EdgId (g ad) = Some (pi_edgId p)" "ad_eval_str api pi_s_CondorId (g ad) = Some (pi_condorId p)"
    and agr: "\<And>it. agrees api (g ad) (pointer_reset api it (g ad) p)" and fit: "fits (ad_unparse api (g ad)) (length f)"
    and P: "\<And>f' rs' s' it. table_at api s0 f' rs' s' \<Longrightarrow> ids s' = ids s \<Longrightarrow>
      set (ic_pointers s') = insert (a, pointer_reset api it (g ad) p) (set (ic_pointers s) - {(a, p)}) \<Longrightarrow> P False s'"
  shows "wp (ic_bind (node_ad api a) (\<lambda>ad. replace_ad api a (g ad))) P s"
  unfolding wp_simps
proof (rule node_ad_wp [OF t p ad])
  fix s1 :: "'a id_container" and p1
  assume s1: "table_at api s0 f rs s1" "ids s1 = ids s" "(a, p1) \<in> set (ic_pointers s1)"
    "set (ic_pointers s1) = insert (a, p1) (set (ic_pointers s) - {(a, p)})" and p1: "p1 = p\<lparr>pi_position := pi_position p1\<rparr>"
  have e: "pi_edgId p1 = pi_edgId p" "pi_condorId p1 = pi_condorId p" "pointer_reset api it (g ad) p1 = pointer_reset api it (g ad) p" for it
    using arg_cong [OF p1, of pi_edgId] arg_cong [OF p1, of pi_condorId] arg_cong [OF p1, of "pointer_reset api it (g ad)"] by simp_all
  have "distinct (map fst (ic_pointers s))" using table_atD(2) [OF t] by (simp add: index_ok_def)
  then have "(a, p1) \<notin> set (ic_pointers s) - {(a, p)}" using p by (auto dest: eq_key_imp_eq_value)
  then have d: "set (ic_pointers s1) - {(a, p1)} = set (ic_pointers s) - {(a, p)}" using s1(4) by auto
  show "wp (replace_ad api a (g ad)) P s1"
  proof (rule replace_ad_wp [OF api s1(1,3) _ _ _ fit])
    fix f' rs' s' it
    assume "table_at api s0 f' rs' s'" "ids s' = ids s1"
      "set (ic_pointers s') = insert (a, pointer_reset api it (g ad) p1) (set (ic_pointers s1) - {(a, p1)})"
    then show "P False s'" unfolding d e s1(2) by (rule P)
  qed (use ids agr in \<open>simp_all add: e\<close>)
qed

definition updated_ad :: "'ad classad_api \<Rightarrow> string \<Rightarrow> int \<Rightarrow> int \<Rightarrow> 'ad \<Rightarrow> 'ad" where
  "updated_ad api q st ls ad = (if ls \<noteq> undefined_status then ad_insert_int api pi_s_LastStatus ls
         (ad_insert_int api pi_s_CondorStatus st (ad_insert_str api pi_s_SequenceCode q ad))
       else ad_insert_int api pi_s_CondorStatus st (ad_insert_str api pi_s_SequenceCode q ad))"

lemma update_pointer_wp:
  assumes api: "classad_laws api" and t: "table_at api s0 f rs s" and p: "(a, p) \<in> set (ic_pointers s)"
    and ad: "ad_parse api (bi_data (fli_base (pi_position p))) = Some ad" and fit: "fits (ad_unparse api (updated_ad api q st ls ad)) (length f)"
    and P: "\<And>f' rs' s' p'. table_at api s0 f' rs' s' \<Longrightarrow> ids s' = ids s \<Longrightarrow> (a, p') \<in> set (ic_pointers s') \<Longrightarrow>
      job p' = (pi_edgId p, pi_condorId p, q, if ls \<noteq> undefined_status then ls else pi_lastStatus p, pi_retryCount p) \<Longrightarrow>
      pi_condorStatus p' = st \<Longrightarrow> jobs s' = insert (job p') (jobs s - {job p}) \<Longrightarrow> P False s'"
  shows "wp (update_pointer api a q st ls) P s"
proof -
  note law = classad_lawsD(3-8) [OF api]
  define g where "g = updated_ad api q st ls"
  have agr: "agrees api ad p" using node_cell [OF t p] ad by (metis option.inject)
  have g: "ad_eval_str api pi_s_EdgId (g ad) = Some (pi_edgId p)" "ad_eval_str api pi_s_CondorId (g ad) = Some (pi_condorId p)"
    "agrees api (g ad) (pointer_reset api it (g ad) p)"
    "job (pointer_reset api it (g ad) p) =
      (pi_edgId p, pi_condorId p, q, if ls \<noteq> undefined_status then ls else pi_lastStatus p, pi_retryCount p)"
    "pi_condorStatus (pointer_reset api it (g ad) p) = st" for it
    using agr law by (auto simp: g_def updated_ad_def agrees_def job_def pointer_reset_def pointer_eval_def eval_or_def split: option.splits)
  have eq: "update_pointer api a q st ls = ic_bind (node_ad api a) (\<lambda>ad. replace_ad api a (g ad))"
    by (simp add: update_pointer_def g_def updated_ad_def Let_def)
  show ?thesis unfolding eq
  proof (rule change_ad_wp [where g = g, OF api t p ad g(1-3) fit [folded g_def]])
    fix f' rs' s' it
    assume "table_at api s0 f' rs' s'" "ids s' = ids s"
      "set (ic_pointers s') = insert (a, pointer_reset api it (g ad) p) (set (ic_pointers s) - {(a, p)})"
    then show "P False s'" using jobs_change [OF t p] g(4,5) by (intro P [where p' = "pointer_reset api it (g ad) p"]) auto
  qed
qed

lemma increment_pointer_retry_count_wp:
  assumes api: "classad_laws api" and t: "table_at api s0 f rs s" and p: "(a, p) \<in> set (ic_pointers s)"
    and ad: "ad_parse api (bi_data (fli_base (pi_position p))) = Some ad"
    and fit: "fits (ad_unparse api (ad_insert_int api pi_s_RetryCount (pi_retryCount p + 1) ad)) (length f)"
    and P: "\<And>f' rs' s' p'. table_at api s0 f' rs' s' \<Longrightarrow> ids s' = ids s \<Longrightarrow> (a, p') \<in> set (ic_pointers s') \<Longrightarrow>
      job p' = (pi_edgId p, pi_condorId p, pi_sequenceCode p, pi_lastStatus p, pi_retryCount p + 1) \<Longrightarrow>
      jobs s' = insert (job p') (jobs s - {job p}) \<Longrightarrow> P False s'"
  shows "wp (increment_pointer_retry_count api a) P s"
proof -
  note law = classad_lawsD(3-8) [OF api] and n = index_node [OF table_atD(2) [OF t] p]
  define g where "g = ad_insert_int api pi_s_RetryCount (pi_retryCount p + 1)"
  have agr: "agrees api ad p" using node_cell [OF t p] ad by (metis option.inject)
  have g: "ad_eval_str api pi_s_EdgId (g ad) = Some (pi_edgId p)" "ad_eval_str api pi_s_CondorId (g ad) = Some (pi_condorId p)"
    "agrees api (g ad) (pointer_reset api it (g ad) p)"
    "job (pointer_reset api it (g ad) p) =
      (pi_edgId p, pi_condorId p, pi_sequenceCode p, pi_lastStatus p, pi_retryCount p + 1)" for it
    using agr law by (auto simp: g_def agrees_def job_def pointer_reset_def pointer_eval_def eval_or_def split: option.splits)
  have eq: "wp (increment_pointer_retry_count api a) P s = wp (ic_bind (node_ad api a) (\<lambda>ad. replace_ad api a (g ad))) P s"
    using n(5) by (simp add: increment_pointer_retry_count_def g_def Let_def wp_simps wp_node_at)
  show ?thesis unfolding eq
  proof (rule change_ad_wp [where g = g, OF api t p ad g(1-3) fit [folded g_def]])
    fix f' rs' s' it
    assume "table_at api s0 f' rs' s'" "ids s' = ids s"
      "set (ic_pointers s') = insert (a, pointer_reset api it (g ad) p) (set (ic_pointers s) - {(a, p)})"
    then show "P False s'" using jobs_change [OF t p] g(4) by (intro P [where p' = "pointer_reset api it (g ad) p"]) auto
  qed
qed

end
