(* ===== verification/Id_Container_Load.thy ===== *)
theory Id_Container_Load
  imports Id_Container_Change "HOL-Library.Multiset"
begin

text \<open>
  Loading the job table from its file, as the constructor, \<open>refresh\<close> and \<open>compact\<close> do.
\<close>

section \<open>The jobs in the cells\<close>

definition cell_job :: "'ad classad_api \<Rightarrow> string \<Rightarrow> job" where
  "cell_job api d = (case ad_parse api d of
     Some ad \<Rightarrow> (eval_or (ad_eval_str api pi_s_EdgId ad) [], eval_or (ad_eval_str api pi_s_CondorId ad) [],
       eval_or (ad_eval_str api pi_s_SequenceCode ad) [], eval_or (ad_eval_num api pi_s_LastStatus ad) undefined_status,
       eval_or (ad_eval_num api pi_s_RetryCount ad) 0)
   | None \<Rightarrow> ([], [], [], 0, 0))"

definition stored_status :: "'ad classad_api \<Rightarrow> string \<Rightarrow> int" where
  "stored_status api d = (case ad_parse api d of Some ad \<Rightarrow> eval_or (ad_eval_num api pi_s_CondorStatus ad) 0 | None \<Rightarrow> 0)"

text \<open>The nodes have the Condor status that the file has, as after a load or \<open>update_pointer\<close>; after \<open>insert\<close> they need not.\<close>

definition statuses_current :: "'ad classad_api \<Rightarrow> 'ad id_container \<Rightarrow> bool" where
  "statuses_current api s \<longleftrightarrow> (\<forall>x\<in>set (ic_pointers s).
     pi_condorStatus (snd x) = stored_status api (bi_data (fli_base (pi_position (snd x)))))"

definition job_cell :: "'ad classad_api \<Rightarrow> string \<Rightarrow> bool" where
  "job_cell api d \<longleftrightarrow> (\<exists>ad. ad_parse api d = Some ad \<and>
     ad_eval_str api pi_s_EdgId ad \<noteq> None \<and> ad_eval_str api pi_s_CondorId ad \<noteq> None)"

text \<open>A file whose cells can be loaded: every cell is a job, no identifier comes twice.\<close>

definition loadable :: "'ad classad_api \<Rightarrow> cells \<Rightarrow> bool" where
  "loadable api rs \<longleftrightarrow> (\<forall>r\<in>set rs. job_cell api (snd r)) \<and> distinct (map (\<lambda>r. fst (cell_job api (snd r))) rs) \<and>
     distinct (map (\<lambda>r. fst (snd (cell_job api (snd r)))) rs)"

lemma agrees_job: "ad_parse api d = Some ad \<Longrightarrow> agrees api ad p \<Longrightarrow> cell_job api d = job p"
  by (simp add: cell_job_def agrees_def job_def eval_or_def)

lemma table_jobs:
  assumes t: "table_at api s0 f rs s"
  shows "loadable api rs" "jobs s = (\<lambda>r. cell_job api (snd r)) ` set rs"
    "statuses_current api s \<Longrightarrow> statuses s = (\<lambda>r. (cell_job api (snd r), stored_status api (snd r))) ` set rs"
proof -
  note d = table_atD [OF t]
  have dr: "distinct (map fst rs)" using seq_at_distinct [OF d(1)] .
  define g where "g x = (nat (node_pos (snd x)), bi_data (fli_base (pi_position (snd x))))" for x :: "nat \<times> 'a pointer_id"
  have g: "g x \<in> set rs" "cell_job api (snd (g x)) = job (snd x)" "job_cell api (snd (g x))" if "x \<in> set (ic_pointers s)" for x
    using d(4) [OF that] agrees_job unfolding node_ok_def g_def job_cell_def agrees_def by fastforce+
  have sur: "\<exists>x\<in>set (ic_pointers s). r = g x" if "r \<in> set rs" for r
  proof -
    have "int (fst r) \<in> (\<lambda>x. node_pos (snd x)) ` set (ic_pointers s)" unfolding d(6) using that by blast
    then obtain x where x: "x \<in> set (ic_pointers s)" "int (fst r) = node_pos (snd x)" by auto
    then have "fst r = fst (g x)" by (simp add: g_def flip: x(2))
    with that g(1) [OF x(1)] dr have "r = g x" by (metis eq_key_imp_eq_value prod.collapse)
    with x(1) show ?thesis by blast
  qed
  have rs: "set rs = g ` set (ic_pointers s)" using g(1) sur by blast
  show "jobs s = (\<lambda>r. cell_job api (snd r)) ` set rs"
    unfolding jobs_def rs image_image using g(2) by (intro image_cong) simp_all
  show "statuses s = (\<lambda>r. (cell_job api (snd r), stored_status api (snd r))) ` set rs" if "statuses_current api s"
    unfolding statuses_def rs image_image using g(2) that by (intro image_cong) (simp_all add: statuses_current_def g_def)
  have "distinct rs" using dr by (simp add: distinct_map)
  moreover have "inj_on (\<lambda>r. fst (cell_job api (snd r))) (set rs)" "inj_on (\<lambda>r. fst (snd (cell_job api (snd r)))) (set rs)"
    by (rule inj_onI, use sur g index_unique [OF d(2)] in \<open>metis fst_conv snd_conv job_def prod.collapse\<close>)+
  ultimately show "loadable api rs" unfolding loadable_def distinct_map using g(3) sur by blast
qed

section \<open>The loop\<close>

text \<open>The first \<open>i\<close> cells have nodes, in order, and entries in both vectors.\<close>

definition loaded :: "'ad classad_api \<Rightarrow> nat \<Rightarrow> cells \<Rightarrow> nat \<Rightarrow> 'ad id_container \<Rightarrow> bool" where
  "loaded api addr rs i s \<longleftrightarrow> length (ic_pointers s) = i \<and> distinct (map fst (ic_pointers s)) \<and>
     (\<forall>x\<in>set (ic_pointers s). fst x < ic_fresh s \<and> node_ok api addr rs (snd x)) \<and>
     map (\<lambda>x. node_pos (snd x)) (ic_pointers s) = map (\<lambda>r. int (fst r)) (take i rs) \<and>
     map (\<lambda>x. job (snd x)) (ic_pointers s) = map (\<lambda>r. cell_job api (snd r)) (take i rs) \<and>
     map (\<lambda>x. (job (snd x), pi_condorStatus (snd x))) (ic_pointers s) =
       map (\<lambda>r. (cell_job api (snd r), stored_status api (snd r))) (take i rs) \<and>
     ic_edgs s = map (\<lambda>(a, p). EdgId a p) (ic_pointers s) \<and> ic_condors s = map (\<lambda>(a, p). CondorId a p) (ic_pointers s)"

lemma PointerId_at_ok:
  assumes "ad_parse api d = Some ad" "ad_eval_str api pi_s_EdgId ad \<noteq> None" "ad_eval_str api pi_s_CondorId ad \<noteq> None"
    and "(q, d) \<in> set rs" "fli_base it = b\<lparr>bi_new := False\<rparr>" "bi_data b = d" "bi_position b = int q"
    "bi_container b = Some addr" "bi_good b"
  shows "node_ok api addr rs (PointerId_at api it ad)" "job (PointerId_at api it ad) = cell_job api d"
    "node_pos (PointerId_at api it ad) = int q" "pi_condorStatus (PointerId_at api it ad) = stored_status api d"
proof -
  show "pi_condorStatus (PointerId_at api it ad) = stored_status api d"
    using assms(1) by (simp add: stored_status_def PointerId_at_def pointer_eval_def PointerId_with_def)
  have a: "agrees api ad (PointerId_at api it ad)"
    using assms(2,3) by (auto simp: agrees_def PointerId_at_def pointer_eval_def PointerId_with_def eval_or_def)
  from agrees_job [OF assms(1) a] show "job (PointerId_at api it ad) = cell_job api d" by simp
  have b: "fli_base (pi_position (PointerId_at api it ad)) = b\<lparr>bi_new := True\<rparr>"
    using assms(5) by (simp add: PointerId_at_def pointer_eval_def PointerId_with_def FLIterator_copy_def bi_copy_def)
  show "node_pos (PointerId_at api it ad) = int q" unfolding b using assms(7) by (simp add: bi_position_def)
  with a b assms show "node_ok api addr rs (PointerId_at api it ad)" by (auto simp: node_ok_def)
qed

definition load_round :: "'ad classad_api \<Rightarrow> 'ad fl_iterator \<Rightarrow> ('ad fl_iterator, 'ad) icm" where
  "load_round api position = ic_bind (on_list (on_container (fli_deref (ad_converter api) position))) (\<lambda>(ad, position).
     ic_bind (push_node (PointerId_at api position ad)) (\<lambda>a.
     ic_bind (node_at a) (\<lambda>p.
     ic_bind (ic_modify (\<lambda>s. s\<lparr>ic_condors := ic_condors s @ [CondorId a p],
                                ic_edgs := ic_edgs s @ [EdgId a p]\<rparr>)) (\<lambda>_.
     on_list (on_container (fli_next_step position))))))"

lemma onConstruct_loop_round:
  "onConstruct_loop api position end s =
     (if fli_equal position end then Some (Inr (), s)
      else let r = load_round api position s
           in if isl (fst r) then Some (Inl (projl (fst r)), snd r)
              else onConstruct_loop api (projr (fst r)) end (snd r))"
  by (subst onConstruct_loop.simps) (simp only: load_round_def)

lemma loaded_snoc:
  assumes l: "loaded api addr rs i s" and i: "i < length rs"
    and p: "node_ok api addr rs p" "job p = cell_job api (snd (rs ! i))" "node_pos p = int (fst (rs ! i))"
      "pi_condorStatus p = stored_status api (snd (rs ! i))"
    and s': "ic_pointers s' = ic_pointers s @ [(ic_fresh s, p)]" "ic_fresh s' = Suc (ic_fresh s)"
      "ic_edgs s' = ic_edgs s @ [EdgId (ic_fresh s) p]" "ic_condors s' = ic_condors s @ [CondorId (ic_fresh s) p]"
  shows "loaded api addr rs (Suc i) s'"
proof -
  have "ic_fresh s \<notin> fst ` set (ic_pointers s)" using l by (auto simp: loaded_def)
  moreover have "\<forall>x\<in>set (ic_pointers s). fst x < Suc (ic_fresh s)" using l by (auto simp: loaded_def)
  ultimately show ?thesis
    using l p unfolding loaded_def s' by (simp add: take_Suc_conv_app_nth [OF i])
qed

lemma load_round_ok:
  fixes api :: "'a classad_api"
  assumes s: "seq_at s0 f rs (ic_container s)" and l: "loaded api (fs_address s0) rs i s" and i: "i < length rs"
    and j: "job_cell api (snd (rs ! i))" and it: "shows_cell s0 (length f) rs i (fli_base it)"
  obtains it' s' where "load_round api it s = (Inr it', s')" "seq_at s0 f rs (ic_container s')"
    "loaded api (fs_address s0) rs (Suc i) s'" "shows_cell s0 (length f) rs (Suc i) (fli_base it')"
proof -
  from j obtain ad where ad: "ad_parse api (snd (rs ! i)) = Some ad" "ad_eval_str api pi_s_EdgId ad \<noteq> None"
    "ad_eval_str api pi_s_CondorId ad \<noteq> None" by (auto simp: job_cell_def)
  have b: "bi_good (fli_base it)" "ad_parse api (bi_data (fli_base it)) = Some ad" "\<not> bi_new (fli_base it) \<longrightarrow> fli_object it = Some ad"
    "bi_data (fli_base it) = snd (rs ! i)" "bi_container (fli_base it) = Some (fs_address s0)"
    "bi_position (fli_base it) = int (fst (rs ! i))"
    using it ad(1) i points_position [of s0 "length f" rs i "fli_base it"] by (auto simp: shows_cell_def points_def pos_of_simps)
  let ?it = "\<lparr>fli_base = (fli_base it)\<lparr>bi_new := False\<rparr>, fli_object = Some ad\<rparr>"
  let ?p = "PointerId_at api ?it ad"
  have pt: "points s0 (length f) rs i (fli_base ?it)" using it by (simp add: shows_cell_def points_def)
  have mem: "(fst (rs ! i), snd (rs ! i)) \<in> set rs" using i by simp
  note p = PointerId_at_ok [OF ad mem _ b(4,6,5,1), of ?it, simplified]
  let ?s = "s\<lparr>ic_pointers := ic_pointers s @ [(ic_fresh s, ?p)], ic_fresh := Suc (ic_fresh s),
    ic_condors := ic_condors s @ [CondorId (ic_fresh s) ?p], ic_edgs := ic_edgs s @ [EdgId (ic_fresh s) ?p]\<rparr>"
  have fr: "map_of (ic_pointers s @ [(ic_fresh s, ?p)]) (ic_fresh s) = Some ?p"
    using l by (subst map_of_append) (auto simp: loaded_def map_add_def dest!: map_of_SomeD split: option.splits)
  have "loaded api (fs_address s0) rs (Suc i) ?s" by (rule loaded_snoc [OF l i p]) simp_all
  then have lo: "loaded api (fs_address s0) rs (Suc i) (?s\<lparr>ic_container := c\<rparr>)" for c by (simp add: loaded_def)
  have "wp (on_list (on_container (fli_next_step ?it))) (\<lambda>it' s'. seq_at s0 f rs (ic_container s') \<and>
      loaded api (fs_address s0) rs (Suc i) s' \<and> shows_cell s0 (length f) rs (Suc i) (fli_base it')) ?s"
    by (rule wp_on_list, rule seq_step [where R = "\<lambda>it' :: 'a fl_iterator. shows_cell s0 (length f) rs (Suc i) (fli_base it')"])
      (use s lo in \<open>auto intro!: fli_next_wp [OF seq_atD(1) [OF s] pt i]\<close>)
  then have "wp (load_round api it) (\<lambda>it' s'. seq_at s0 f rs (ic_container s') \<and>
      loaded api (fs_address s0) rs (Suc i) s' \<and> shows_cell s0 (length f) rs (Suc i) (fli_base it')) s"
    unfolding load_round_def wp_simps wp_deref_node [OF b(1-3)] by (simp add: wp_simps wp_node_at fr del: map_of_append)
  then show ?thesis using that by (auto simp: wp_def)
qed

lemma onConstruct_loop_ok:
  assumes "seq_at s0 f rs (ic_container s)" "loaded api (fs_address s0) rs i s" "i \<le> length rs"
    and "\<forall>r\<in>set rs. job_cell api (snd r)" "shows_cell s0 (length f) rs i (fli_base it)"
    and e: "shows_cell s0 (length f) rs (length rs) (fli_base e)"
  shows "\<exists>s'. onConstruct_loop api it e s = Some (Inr (), s') \<and> seq_at s0 f rs (ic_container s') \<and>
    loaded api (fs_address s0) rs (length rs) s'"
  using assms(1-5)
proof (induction "length rs - i" arbitrary: i s it)
  case (0 i s it)
  then have "i = length rs" by simp
  then have "fli_equal it e" using 0 e by (simp add: fli_equal_def bi_is_equal_def shows_cell_def points_def bi_position_def)
  with 0 \<open>i = length rs\<close> show ?case by (subst onConstruct_loop_round) auto
next
  case (Suc n i s it)
  then have i: "i < length rs" by simp
  have "pos_of rs (length f) i \<noteq> pos_of rs (length f) (length rs)"
    using pos_of_end_iff [OF seq_atD(1) [OF Suc(3)] less_imp_le [OF i]] i by (simp add: pos_of_length)
  then have ne: "\<not> fli_equal it e" using Suc(7) e by (simp add: fli_equal_def bi_is_equal_def shows_cell_def points_def bi_position_def)
  from Suc(6) i have "job_cell api (snd (rs ! i))" by simp
  from load_round_ok [OF Suc(3,4) i this Suc(7)] obtain it' s' where r: "load_round api it s = (Inr it', s')"
    "seq_at s0 f rs (ic_container s')" "loaded api (fs_address s0) rs (Suc i) s'"
    "shows_cell s0 (length f) rs (Suc i) (fli_base it')" .
  have "onConstruct_loop api it e s = onConstruct_loop api it' e s'"
    by (subst onConstruct_loop_round) (simp add: r(1) ne)
  with Suc(1) [of "Suc i" s' it'] r i Suc(2,6) show ?case by simp
qed

section \<open>The table that is loaded\<close>

lemma sort_vector_ok: "distinct (map fst xs) \<Longrightarrow> vector_ok (sort_key fst xs)"
proof -
  assume "distinct (map fst xs)"
  moreover have "mset (map fst (sort_key fst xs)) = mset (map fst xs)" by simp
  ultimately show ?thesis using mset_eq_imp_distinct_iff by (metis sorted_sort_key vector_ok_def)
qed

lemma loaded_table:
  assumes s: "seq_at s0 f rs (ic_container s)" and l: "loaded api (fs_address s0) rs (length rs) s" and ok: "loadable api rs"
    and s': "ic_container s' = ic_container s" "ic_pointers s' = ic_pointers s" "ic_fresh s' = ic_fresh s"
      "ic_edgs s' = sort_key fst (ic_edgs s)" "ic_condors s' = sort_key fst (ic_condors s)"
  shows "table_at api s0 f rs s'" "jobs s' = (\<lambda>r. cell_job api (snd r)) ` set rs"
    "statuses s' = (\<lambda>r. (cell_job api (snd r), stored_status api (snd r))) ` set rs"
proof -
  from l have d: "distinct (map fst (ic_pointers s))" and n: "\<forall>x\<in>set (ic_pointers s). fst x < ic_fresh s \<and> node_ok api (fs_address s0) rs (snd x)"
    and pos: "map (\<lambda>x. node_pos (snd x)) (ic_pointers s) = map (\<lambda>r. int (fst r)) rs"
    and j: "map (\<lambda>x. job (snd x)) (ic_pointers s) = map (\<lambda>r. cell_job api (snd r)) rs"
    and st: "map (\<lambda>x. (job (snd x), pi_condorStatus (snd x))) (ic_pointers s) = map (\<lambda>r. (cell_job api (snd r), stored_status api (snd r))) rs"
    and v: "ic_edgs s = map (\<lambda>(a, p). EdgId a p) (ic_pointers s)" "ic_condors s = map (\<lambda>(a, p). CondorId a p) (ic_pointers s)"
    by (simp_all add: loaded_def)
  have "map fst (ic_edgs s) = map fst (map (\<lambda>x. job (snd x)) (ic_pointers s))"
    "map fst (ic_condors s) = map (\<lambda>j. fst (snd j)) (map (\<lambda>x. job (snd x)) (ic_pointers s))"
    by (simp_all add: v EdgId_def CondorId_def job_def case_prod_unfold comp_def)
  then have "distinct (map fst (ic_edgs s))" "distinct (map fst (ic_condors s))"
    unfolding j using ok by (simp_all add: loadable_def comp_def)
  then have ix: "index_ok (ic_pointers s') (ic_edgs s') (ic_condors s')"
    unfolding index_ok_def s' using d by (simp add: sort_vector_ok) (simp add: v)
  have "distinct (map (\<lambda>r. int (fst r)) rs)"
    using seq_at_distinct [OF s] by (simp add: distinct_map inj_on_def)
  then have "distinct (map (\<lambda>x. node_pos (snd x)) (ic_pointers s))" unfolding pos .
  then have "inj_on (\<lambda>x. node_pos (snd x)) (set (ic_pointers s))" by (simp only: distinct_map)
  moreover have "(\<lambda>x. node_pos (snd x)) ` set (ic_pointers s) = (\<lambda>r. int (fst r)) ` set rs" using arg_cong [OF pos, of set] by simp
  ultimately show "table_at api s0 f rs s'" unfolding table_at_def using s ix n by (simp add: s')
  show "jobs s' = (\<lambda>r. cell_job api (snd r)) ` set rs" unfolding jobs_def s' using arg_cong [OF j, of set] by simp
  show "statuses s' = (\<lambda>r. (cell_job api (snd r), stored_status api (snd r))) ` set rs"
    unfolding statuses_def s' using arg_cong [OF st, of set] by simp
qed

lemma onConstruct_wp:
  assumes s: "seq_at s0 f rs (ic_container s)" and e: "ic_pointers s = []" "ic_edgs s = []" "ic_condors s = []"
    and ok: "loadable api rs"
    and P: "\<And>s'. table_at api s0 f rs s' \<Longrightarrow> jobs s' = (\<lambda>r. cell_job api (snd r)) ` set rs \<Longrightarrow>
      statuses s' = (\<lambda>r. (cell_job api (snd r), stored_status api (snd r))) ` set rs \<Longrightarrow> P () s'"
  shows "wp (onConstruct api) P s"
  unfolding onConstruct_def wp_simps
proof (rule wp_on_list, rule fl_end_wp [OF s])
  fix e :: "'a fl_iterator" and l
  assume a: "seq_at s0 f rs l" "shows_cell s0 (length f) rs (length rs) (fli_base e)"
  then have sl: "seq_at s0 f rs (ic_container (s\<lparr>ic_container := l\<rparr>))" by simp
  show "wp (on_list fl_begin) (\<lambda>v. wp (\<lambda>s. case onConstruct_loop api (fli_assign v) e s of
      None \<Rightarrow> (Inl (Thrown Diverges), s) | Some r \<Rightarrow> r)
      (\<lambda>v s. P () (s\<lparr>ic_condors := sort_key fst (ic_condors s), ic_edgs := sort_key fst (ic_edgs s)\<rparr>)))
      (s\<lparr>ic_container := l\<rparr>)"
  proof (rule wp_on_list, rule fl_begin_wp [OF sl])
    fix it :: "'a fl_iterator" and l'
    assume b: "seq_at s0 f rs l'" "shows_cell s0 (length f) rs 0 (fli_base it)"
    let ?s = "s\<lparr>ic_container := l'\<rparr>"
    have c: "shows_cell s0 (length f) rs 0 (fli_base (fli_assign it))"
      using b(2) by (simp add: fli_assign_def shows_cell_def bi_copy_def points_def)
    have l0: "loaded api (fs_address s0) rs 0 ?s" using e by (simp add: loaded_def)
    from ok have "\<forall>r\<in>set rs. job_cell api (snd r)" by (simp add: loadable_def)
    from onConstruct_loop_ok [of s0 f rs ?s, OF _ l0 _ this c a(2)] b(1) obtain s'
      where r: "onConstruct_loop api (fli_assign it) e ?s = Some (Inr (), s')" "seq_at s0 f rs (ic_container s')"
        "loaded api (fs_address s0) rs (length rs) s'" by auto
    let ?s' = "s'\<lparr>ic_condors := sort_key fst (ic_condors s'), ic_edgs := sort_key fst (ic_edgs s')\<rparr>"
    have "P () ?s'" using loaded_table [OF r(2,3) ok] by (intro P) simp_all
    then show "wp (\<lambda>s. case onConstruct_loop api (fli_assign it) e s of None \<Rightarrow> (Inl (Thrown Diverges), s) | Some r \<Rightarrow> r)
        (\<lambda>v s. P () (s\<lparr>ic_condors := sort_key fst (ic_condors s), ic_edgs := sort_key fst (ic_edgs s)\<rparr>))
        (s\<lparr>ic_container := l, ic_container := l'\<rparr>)"
      by (simp add: wp_def r(1))
  qed
qed

end
