(* ===== verification/Id_Container_Props.thy ===== *)
theory Id_Container_Props
  imports Id_Container_Load File_List_Props
begin

text \<open>
  The properties of the job table on file, and a small ClassAd library to try them with.
\<close>

section \<open>The contract\<close>

definition table_ok :: "'ad classad_api \<Rightarrow> 'ad id_container \<Rightarrow> bool" where
  "table_ok api s \<longleftrightarrow> (\<exists>s0 f rs. table_at api s0 f rs s)"

lemma idsE:
  assumes "(e, c) \<in> ids s"
  obtains a p where "(a, p) \<in> set (ic_pointers s)" "pi_edgId p = e" "pi_condorId p = c"
  using assms by (auto simp: ids_def id_pairs_def)

interpretation on_file: job_table "table_ok api" ids "\<lambda>e s. fst (condor_id e s)" "\<lambda>c s. fst (edg_id c s)" for api
proof
  fix s e c e' c'
  assume "table_ok api s"
  then have ok: "index_ok (ic_pointers s) (ic_edgs s) (ic_condors s)" by (auto simp: table_ok_def dest: table_atD(2))
  show "c = c'" if "(e, c) \<in> ids s" "(e, c') \<in> ids s"
    using that index_unique [OF ok] by (metis prod.inject idsE)
  show "e = e'" if "(e, c) \<in> ids s" "(e', c) \<in> ids s"
    using that index_unique [OF ok] by (metis prod.inject idsE)
  show "fst (condor_id e s) = Inr c" "fst (edg_id c s) = Inr e" if "(e, c) \<in> ids s"
    using that index_node [OF ok]
    by (auto simp: condor_id_def edg_id_def ic_bind_def ic_get_def node_at_def ic_return_def Let_def elim!: idsE)
  show "fst (condor_id e s) = Inr []" if "e \<notin> fst ` ids s"
    using that index_found(1) [OF ok] by (simp add: condor_id_def ic_bind_def ic_get_def ic_return_def ids_def Let_def)
  show "fst (edg_id c s) = Inr []" if "c \<notin> snd ` ids s"
    using that index_found(2) [OF ok] by (simp add: edg_id_def ic_bind_def ic_get_def ic_return_def ids_def Let_def)
qed

section \<open>A ClassAd library\<close>

text \<open>An ad is a list of attributes, the newest first; numbers are kept in unary.\<close>

type_synonym toy_ad = "(string \<times> string) list"

definition num_text :: "int \<Rightarrow> string" where
  "num_text i = (if i < 0 then replicate (nat (- i)) CHR ''m'' else replicate (nat i) CHR ''p'')"

definition text_num :: "string \<Rightarrow> int" where
  "text_num s = (if s \<noteq> [] \<and> hd s = CHR ''m'' then - int (length s) else int (length s))"

fun put_text :: "string \<Rightarrow> string" where
  "put_text [] = ''0''"
| "put_text (c # s) = CHR ''1'' # c # put_text s"

fun get_text :: "string \<Rightarrow> (string \<times> string) option" where
  "get_text [] = None"
| "get_text (k # s) = (if k = CHR ''0'' then Some ([], s) else
     case s of [] \<Rightarrow> None | c # s' \<Rightarrow> (case get_text s' of None \<Rightarrow> None | Some (t, r) \<Rightarrow> Some (c # t, r)))"

fun put_ad :: "toy_ad \<Rightarrow> string" where
  "put_ad [] = ''.''"
| "put_ad ((n, v) # ad) = CHR '','' # put_text n @ put_text v @ put_ad ad"

fun get_ad :: "nat \<Rightarrow> string \<Rightarrow> toy_ad option" where
  "get_ad 0 s = None"
| "get_ad (Suc k) s = (case s of [] \<Rightarrow> None | c # s \<Rightarrow> if c = CHR ''.'' then Some [] else
     (case get_text s of None \<Rightarrow> None | Some (n, s) \<Rightarrow>
      (case get_text s of None \<Rightarrow> None | Some (v, s) \<Rightarrow>
       (case get_ad k s of None \<Rightarrow> None | Some ad \<Rightarrow> Some ((n, v) # ad)))))"

definition toy_api :: "toy_ad classad_api" where
  "toy_api = \<lparr>ad_new = [], ad_insert_str = (\<lambda>n v ad. (n, v) # ad), ad_insert_int = (\<lambda>n i ad. (n, num_text i) # ad),
     ad_eval_str = (\<lambda>n ad. map_of ad n), ad_eval_num = (\<lambda>n ad. map_option text_num (map_of ad n)),
     ad_update = (\<lambda>old new. new @ old), ad_unparse = put_ad, ad_parse = (\<lambda>s. get_ad (length s) s)\<rparr>"

lemma text_num_num_text [simp]: "text_num (num_text i) = i"
proof (cases "i < 0")
  case True
  then obtain n where "nat (- i) = Suc n" using not0_implies_Suc by fastforce
  with True show ?thesis by (simp add: text_num_def num_text_def)
next
  case False
  then show ?thesis by (cases "nat i") (simp_all add: text_num_def num_text_def)
qed

lemma get_put_text [simp]: "get_text (put_text s @ r) = Some (s, r)"
  by (induction s) simp_all

lemma get_put_ad: "length (put_ad ad) \<le> k \<Longrightarrow> get_ad k (put_ad ad) = Some ad"
proof (induction ad arbitrary: k)
  case Nil
  then show ?case by (cases k) simp_all
next
  case (Cons x ad)
  then show ?case by (cases x; cases k) simp_all
qed

lemma put_ad_ne [simp]: "put_ad ad \<noteq> []"
  by (cases ad rule: put_ad.cases) simp_all

lemma toy_laws: "classad_laws toy_api"
  by (simp add: classad_laws_def toy_api_def get_put_ad)

section \<open>A table to try them on\<close>

definition new_table :: "toy_ad id_container" where
  "new_table = \<lparr>ic_inserted = 0, ic_container = file_sequence_new 7 new_list, ic_pointers = [], ic_edgs = [],
     ic_condors = [], ic_last = None, ic_fresh = 0\<rparr>"

lemma new_table: "\<exists>f. table_at toy_api (ic_container new_table) f [] new_table \<and> length f = 391 \<and> ids new_table = {} \<and> jobs new_table = {}"
proof -
  obtain f where f: "container new_list f []" "length f = 391" using new_list by blast
  have "seq_at (ic_container new_table) f [] (ic_container new_table)"
    using f(1) by (simp add: new_table_def file_sequence_new_def seq_at_def list_at_def same_env_def base_iterator_on_def
        FileIterator_new_def)
  with f(2) show ?thesis
    by (intro exI [of _ f]) (simp add: table_at_def, simp add: new_table_def index_ok_def vector_ok_def ids_def jobs_def)
qed

definition one_table :: "toy_ad id_container" where
  "one_table = snd (id_insert toy_api ''job1'' ''12.0'' ''UI=1'' 1 new_table)"

lemma toy_new_ad: "length (ad_unparse toy_api (new_ad toy_api ''job1'' ''12.0'' ''UI=1'' 1)) = 113"
  by (simp add: new_ad_def toy_api_def num_text_def pi_s_CondorId_def pi_s_EdgId_def pi_s_SequenceCode_def pi_s_CondorStatus_def)

lemma one_table:
  "\<exists>f. table_at toy_api (ic_container new_table) f [(391, ad_unparse toy_api (new_ad toy_api ''job1'' ''12.0'' ''UI=1'' 1))] one_table \<and> ids one_table = {(''job1'', ''12.0'')} \<and>
     jobs one_table = {(''job1'', ''12.0'', ''UI=1'', undefined_status, 0)} \<and> length f = 599"
proof -
  obtain f where f: "table_at toy_api (ic_container new_table) f [] new_table" "length f = 391" "ids new_table = {}" "jobs new_table = {}"
    using new_table by blast
  have "fits (ad_unparse toy_api (new_ad toy_api ''job1'' ''12.0'' ''UI=1'' 1)) (length f)"
    using toy_new_ad by (simp add: fits_def f(2)) (simp add: toy_api_def)
  then have "wp (id_insert toy_api ''job1'' ''12.0'' ''UI=1'' 1) (\<lambda>_ s. \<exists>f.
      table_at toy_api (ic_container new_table) f [(391, ad_unparse toy_api (new_ad toy_api ''job1'' ''12.0'' ''UI=1'' 1))] s \<and>
      ids s = {(''job1'', ''12.0'')} \<and> jobs s = {(''job1'', ''12.0'', ''UI=1'', undefined_status, 0)} \<and> length f = 599) new_table"
    using toy_new_ad f by (intro id_insert_wp [OF toy_laws f(1)]) auto
  then show ?thesis unfolding wp_def one_table_def by fastforce
qed

section \<open>The properties\<close>

text \<open>\<open>IdContainer::insert\<close>. A pair of identifiers of which one is known is refused and
  nothing changes. A new pair is added to the file and to both indexes, with an undefined
  last status and no retries, every other job stays, and both look-ups find it.\<close>

theorem id_insert_adds:
  assumes api: "classad_laws api" and t: "table_at api s0 f rs s"
    and fit: "fits (ad_unparse api (new_ad api e c q st)) (length f)"
  shows "if e \<in> fst ` ids s \<or> c \<in> snd ` ids s then id_insert api e c q st s = (Inr True, s)
    else \<exists>s' f' rs'. id_insert api e c q st s = (Inr False, s') \<and> table_at api s0 f' rs' s' \<and>
      jobs s' = insert (e, c, q, undefined_status, 0) (jobs s) \<and> ids s' = insert (e, c) (ids s) \<and>
      fst (condor_id e s') = Inr c \<and> fst (edg_id c s') = Inr e"
proof (cases "e \<in> fst ` ids s \<or> c \<in> snd ` ids s")
  case True
  then show ?thesis
    using index_found [OF table_atD(2) [OF t]] by (auto simp: id_insert_def Let_def ids_def)
next
  case False
  then have "wp (id_insert api e c q st) (\<lambda>v s'. v = False \<and> (\<exists>f' rs'. table_at api s0 f' rs' s' \<and>
      jobs s' = insert (e, c, q, undefined_status, 0) (jobs s) \<and> ids s' = insert (e, c) (ids s))) s"
    by (intro id_insert_wp [OF api t _ _ fit]) auto
  then obtain s' f' rs' where r: "id_insert api e c q st s = (Inr False, s')" "table_at api s0 f' rs' s'"
    "jobs s' = insert (e, c, q, undefined_status, 0) (jobs s)" "ids s' = insert (e, c) (ids s)" by (auto simp: wp_def)
  have ok: "table_ok api s'" using r(2) by (auto simp: table_ok_def)
  have "fst (condor_id e s') = Inr c" "fst (edg_id c s') = Inr e"
    using on_file.condor_of [OF ok, of e c] on_file.edg_of [OF ok, of e c] r(4) by simp_all
  with False r show ?thesis by auto
qed

theorem id_insert_adds_witness:
  "\<exists>s. id_insert toy_api ''job1'' ''12.0'' ''UI=1'' 1 new_table = (Inr False, s) \<and>
     jobs s = {(''job1'', ''12.0'', ''UI=1'', undefined_status, 0)} \<and> fst (condor_id ''job1'' s) = Inr ''12.0''"
proof -
  obtain f where f: "table_at toy_api (ic_container new_table) f [] new_table" "length f = 391" "ids new_table = {}" "jobs new_table = {}"
    using new_table by blast
  have "fits (ad_unparse toy_api (new_ad toy_api ''job1'' ''12.0'' ''UI=1'' 1)) (length f)"
    using toy_new_ad by (simp add: fits_def f(2)) (simp add: toy_api_def)
  from id_insert_adds [OF toy_laws f(1) this] f(3,4) show ?thesis by auto
qed

lemma remove_edg:
  assumes t: "table_at api s0 f rs s" and e: "e \<in> fst ` ids s"
  shows "\<exists>s' f' rs' j. remove_by_edg_id e s = (Inr False, s') \<and> table_at api s0 f' rs' s' \<and>
    j \<in> jobs s \<and> fst j = e \<and> jobs s' = jobs s - {j} \<and> fst (condor_id e s') = Inr []"
proof -
  from e obtain c where "(e, c) \<in> ids s" by auto
  then obtain a p where p: "(a, p) \<in> set (ic_pointers s)" "pi_edgId p = e" "pi_condorId p = c" by (rule idsE)
  have "wp (remove_by_edg_id (pi_edgId p)) (\<lambda>v s'. v = False \<and> (\<exists>f' rs'. table_at api s0 f' rs' s') \<and>
      jobs s' = jobs s - {job p} \<and> ids s' = ids s - {(pi_edgId p, pi_condorId p)}) s"
    by (rule remove_by_edg_id_wp [OF t p(1)]) auto
  then obtain s' f' rs' where r: "remove_by_edg_id e s = (Inr False, s')" "table_at api s0 f' rs' s'" "jobs s' = jobs s - {job p}"
    "ids s' = ids s - {(e, c)}" using p by (auto simp: wp_def)
  have ok: "table_ok api s" "table_ok api s'" using t r(2) by (auto simp: table_ok_def)
  have "e \<notin> fst ` ids s'" using on_file.one_condor [OF ok(1)] \<open>(e, c) \<in> ids s\<close> r(4) by auto
  then have "fst (condor_id e s') = Inr []" by (rule on_file.no_condor [OF ok(2)])
  moreover have "job p \<in> jobs s" "fst (job p) = e" using p by (force simp: jobs_def, simp add: job_def)
  ultimately show ?thesis using r by blast
qed

lemma remove_condor:
  assumes t: "table_at api s0 f rs s" and c: "c \<in> snd ` ids s"
  shows "\<exists>s' f' rs' j. remove_by_condor_id c s = (Inr False, s') \<and> table_at api s0 f' rs' s' \<and>
    j \<in> jobs s \<and> fst (snd j) = c \<and> jobs s' = jobs s - {j} \<and> fst (edg_id c s') = Inr []"
proof -
  from c obtain e where "(e, c) \<in> ids s" by auto
  then obtain a p where p: "(a, p) \<in> set (ic_pointers s)" "pi_edgId p = e" "pi_condorId p = c" by (rule idsE)
  have "wp (remove_by_condor_id (pi_condorId p)) (\<lambda>v s'. v = False \<and> (\<exists>f' rs'. table_at api s0 f' rs' s') \<and>
      jobs s' = jobs s - {job p} \<and> ids s' = ids s - {(pi_edgId p, pi_condorId p)}) s"
    by (rule remove_by_condor_id_wp [OF t p(1)]) auto
  then obtain s' f' rs' where r: "remove_by_condor_id c s = (Inr False, s')" "table_at api s0 f' rs' s'" "jobs s' = jobs s - {job p}"
    "ids s' = ids s - {(e, c)}" using p by (auto simp: wp_def)
  have ok: "table_ok api s" "table_ok api s'" using t r(2) by (auto simp: table_ok_def)
  have "c \<notin> snd ` ids s'" using on_file.one_edg [OF ok(1)] \<open>(e, c) \<in> ids s\<close> r(4) by auto
  then have "fst (edg_id c s') = Inr []" by (rule on_file.no_edg [OF ok(2)])
  moreover have "job p \<in> jobs s" "fst (snd (job p)) = c" using p by (force simp: jobs_def, simp add: job_def)
  ultimately show ?thesis using r by blast
qed

text \<open>removal, by either identifier. A pair that is in the table goes from the file and
  from both indexes and every other job stays; an identifier that is not known is an
  error and nothing changes.\<close>

theorem id_remove_removes:
  assumes t: "table_at api s0 f rs s"
  shows "(if e \<in> fst ` ids s then \<exists>s' f' rs' j. remove_by_edg_id e s = (Inr False, s') \<and> table_at api s0 f' rs' s' \<and>
        j \<in> jobs s \<and> fst j = e \<and> jobs s' = jobs s - {j} \<and> fst (condor_id e s') = Inr []
      else remove_by_edg_id e s = (Inr True, s)) \<and>
    (if c \<in> snd ` ids s then \<exists>s' f' rs' j. remove_by_condor_id c s = (Inr False, s') \<and> table_at api s0 f' rs' s' \<and>
        j \<in> jobs s \<and> fst (snd j) = c \<and> jobs s' = jobs s - {j} \<and> fst (edg_id c s') = Inr []
      else remove_by_condor_id c s = (Inr True, s))"
proof -
  note x = index_found [OF table_atD(2) [OF t]]
  have "e \<notin> fst ` ids s \<Longrightarrow> remove_by_edg_id e s = (Inr True, s)" "c \<notin> snd ` ids s \<Longrightarrow> remove_by_condor_id c s = (Inr True, s)"
    using x by (simp_all add: remove_by_edg_id_def remove_by_condor_id_def ic_bind_def ic_get_def ic_return_def ids_def Let_def)
  then show ?thesis using remove_edg [OF t, of e] remove_condor [OF t, of c] by simp
qed

theorem id_remove_removes_witness:
  "\<exists>s. remove_by_condor_id ''12.0'' one_table = (Inr False, s) \<and> jobs s = {} \<and> remove_by_edg_id ''job2'' one_table = (Inr True, one_table)"
proof -
  obtain f rs where f: "table_at toy_api (ic_container new_table) f rs one_table" "ids one_table = {(''job1'', ''12.0'')}"
    "jobs one_table = {(''job1'', ''12.0'', ''UI=1'', undefined_status, 0)}" using one_table by blast
  from id_remove_removes [OF f(1), of "''job2''" "''12.0''"] f(2,3) show ?thesis by auto
qed

text \<open>C27: \<open>update_pointer\<close>. The job of the position gets the new sequence code, status and,
  unless it is undefined, last status; its identifiers, its retries and every other job
  stay. In the file its cell moves to the end.\<close>

theorem update_pointer_updates:
  assumes "classad_laws api" and "table_at api s0 f rs s" and "(a, p) \<in> set (ic_pointers s)"
    and "ad_parse api (bi_data (fli_base (pi_position p))) = Some ad" "fits (ad_unparse api (updated_ad api q st ls ad)) (length f)"
  shows "\<exists>s' f' rs' p'. update_pointer api a q st ls s = (Inr False, s') \<and> table_at api s0 f' rs' s' \<and>
    (a, p') \<in> set (ic_pointers s') \<and> pi_condorStatus p' = st \<and>
    job p' = (pi_edgId p, pi_condorId p, q, if ls \<noteq> undefined_status then ls else pi_lastStatus p, pi_retryCount p) \<and>
    jobs s' = insert (job p') (jobs s - {job p})"
proof -
  let ?Q = "\<lambda>v s'. v = False \<and> (\<exists>f' rs' p'. table_at api s0 f' rs' s' \<and>
    (a, p') \<in> set (ic_pointers s') \<and> pi_condorStatus p' = st \<and>
    job p' = (pi_edgId p, pi_condorId p, q, if ls \<noteq> undefined_status then ls else pi_lastStatus p, pi_retryCount p) \<and>
    jobs s' = insert (job p') (jobs s - {job p}))"
  have "wp (update_pointer api a q st ls) ?Q s" by (rule update_pointer_wp [OF assms]) blast
  then show ?thesis unfolding wp_def by blast
qed

text \<open>The node of the only job, and the ad in its cell.\<close>

lemma one_node:
  obtains f rs a p where "table_at toy_api (ic_container new_table) f rs one_table" "length f = 599"
    "(a, p) \<in> set (ic_pointers one_table)" "job p = (''job1'', ''12.0'', ''UI=1'', undefined_status, 0)"
    "ad_parse toy_api (bi_data (fli_base (pi_position p))) = Some (new_ad toy_api ''job1'' ''12.0'' ''UI=1'' 1)"
    "jobs one_table = {job p}"
proof -
  let ?d = "ad_unparse toy_api (new_ad toy_api ''job1'' ''12.0'' ''UI=1'' 1)"
  obtain f where f: "table_at toy_api (ic_container new_table) f [(391, ?d)] one_table" "length f = 599"
    "jobs one_table = {(''job1'', ''12.0'', ''UI=1'', undefined_status, 0)}" using one_table by blast
  have "(''job1'', ''12.0'', ''UI=1'', undefined_status, 0) \<in> jobs one_table" unfolding f(3) by simp
  then obtain a p where p: "(a, p) \<in> set (ic_pointers one_table)" "job p = (''job1'', ''12.0'', ''UI=1'', undefined_status, 0)"
    unfolding jobs_def by (elim imageE) (metis prod.collapse)
  have "bi_data (fli_base (pi_position p)) = ?d" using table_atD(4) [OF f(1) p(1)] by (auto simp: node_ok_def)
  then have "ad_parse toy_api (bi_data (fli_base (pi_position p))) = Some (new_ad toy_api ''job1'' ''12.0'' ''UI=1'' 1)"
    by (simp add: classad_lawsD(1) [OF toy_laws])
  from that [OF f(1,2) p this] f(3) p(2) show thesis by simp
qed

lemma toy_updated: "length (ad_unparse toy_api (updated_ad toy_api ''UI=2'' 4 2 (new_ad toy_api ''job1'' ''12.0'' ''UI=1'' 1))) < 300"
  "length (ad_unparse toy_api (ad_insert_int toy_api pi_s_RetryCount 1 (new_ad toy_api ''job1'' ''12.0'' ''UI=1'' 1))) < 300"
  by (simp_all add: updated_ad_def new_ad_def toy_api_def num_text_def numeral_eq_Suc pi_s_CondorId_def pi_s_EdgId_def
      pi_s_SequenceCode_def pi_s_CondorStatus_def pi_s_LastStatus_def pi_s_RetryCount_def undefined_status_def)

theorem update_pointer_updates_witness:
  "\<exists>a s. update_pointer toy_api a ''UI=2'' 4 2 one_table = (Inr False, s) \<and> jobs s = {(''job1'', ''12.0'', ''UI=2'', 2, 0)}"
proof -
  obtain f rs a p where n: "table_at toy_api (ic_container new_table) f rs one_table" "length f = 599"
    "(a, p) \<in> set (ic_pointers one_table)" "job p = (''job1'', ''12.0'', ''UI=1'', undefined_status, 0)"
    "ad_parse toy_api (bi_data (fli_base (pi_position p))) = Some (new_ad toy_api ''job1'' ''12.0'' ''UI=1'' 1)"
    "jobs one_table = {job p}" by (rule one_node)
  have "fits (ad_unparse toy_api (updated_ad toy_api ''UI=2'' 4 2 (new_ad toy_api ''job1'' ''12.0'' ''UI=1'' 1))) (length f)"
    using toy_updated(1) classad_lawsD(2) [OF toy_laws] by (simp add: fits_def n(2))
  from update_pointer_updates [OF toy_laws n(1,3,5) this] n(4,6) show ?thesis
    by (fastforce simp: job_def undefined_status_def)
qed

text \<open>\<open>increment_pointer_retry_count\<close> adds one to the retries of the job, on file and in
  memory, and changes nothing else that a client reads.\<close>

theorem retry_count_increments:
  assumes "classad_laws api" and "table_at api s0 f rs s" and "(a, p) \<in> set (ic_pointers s)"
    and "ad_parse api (bi_data (fli_base (pi_position p))) = Some ad"
      "fits (ad_unparse api (ad_insert_int api pi_s_RetryCount (pi_retryCount p + 1) ad)) (length f)"
  shows "\<exists>s' f' rs' p'. increment_pointer_retry_count api a s = (Inr False, s') \<and> table_at api s0 f' rs' s' \<and>
    (a, p') \<in> set (ic_pointers s') \<and>
    job p' = (pi_edgId p, pi_condorId p, pi_sequenceCode p, pi_lastStatus p, pi_retryCount p + 1) \<and>
    jobs s' = insert (job p') (jobs s - {job p})"
proof -
  let ?Q = "\<lambda>v s'. v = False \<and> (\<exists>f' rs' p'. table_at api s0 f' rs' s' \<and> (a, p') \<in> set (ic_pointers s') \<and>
    job p' = (pi_edgId p, pi_condorId p, pi_sequenceCode p, pi_lastStatus p, pi_retryCount p + 1) \<and>
    jobs s' = insert (job p') (jobs s - {job p}))"
  have "wp (increment_pointer_retry_count api a) ?Q s" by (rule increment_pointer_retry_count_wp [OF assms]) blast
  then show ?thesis unfolding wp_def by blast
qed

theorem retry_count_increments_witness:
  "\<exists>a s. increment_pointer_retry_count toy_api a one_table = (Inr False, s) \<and> jobs s = {(''job1'', ''12.0'', ''UI=1'', -2, 1)}"
proof -
  obtain f rs a p where n: "table_at toy_api (ic_container new_table) f rs one_table" "length f = 599"
    "(a, p) \<in> set (ic_pointers one_table)" "job p = (''job1'', ''12.0'', ''UI=1'', undefined_status, 0)"
    "ad_parse toy_api (bi_data (fli_base (pi_position p))) = Some (new_ad toy_api ''job1'' ''12.0'' ''UI=1'' 1)"
    "jobs one_table = {job p}" by (rule one_node)
  have r: "pi_retryCount p = 0" using n(4) by (simp add: job_def)
  have "fits (ad_unparse toy_api (ad_insert_int toy_api pi_s_RetryCount (pi_retryCount p + 1) (new_ad toy_api ''job1'' ''12.0'' ''UI=1'' 1)))
      (length f)"
    using toy_updated(2) classad_lawsD(2) [OF toy_laws] by (simp add: fits_def n(2) r)
  from retry_count_increments [OF toy_laws n(1,3,5) this] n(4,6) show ?thesis
    by (fastforce simp: job_def undefined_status_def)
qed

section \<open>Restart and refresh\<close>

lemma fs_empty_list_wp:
  assumes "seq_at s0 f rs s" "\<And>s'. seq_at s0 f rs s' \<Longrightarrow> P (rs = []) s'"
  shows "wp fs_empty_list P s"
proof -
  have "int (pos_of rs (length f) 0) = int (length f) \<longleftrightarrow> rs = []"
    using pos_of_end_iff [OF seq_atD(1) [OF assms(1)], of 0] by simp
  then show ?thesis unfolding fs_empty_list_def wp_simps
    by (intro seq_read_begin [OF assms(1)]) (erule seq_read_end, simp add: assms(2) wp_simps)
qed

lemma ic_bind_run: "m s = (Inr v, s') \<Longrightarrow> ic_bind m k s = k v s'"
  by (simp add: ic_bind_def)

text \<open>C29: restart. A process that opens the file of a table finds the jobs of the table, with their
  identifiers, sequence codes, last statuses and retry counts: the constructor ends without an exception and keeps the invariant.
  The Condor status of each job is the one that the file has, \<open>0\<close> when it has none; it is the status that the table had before if the
  nodes were current, which a node that \<open>insert\<close> has just made with another status than \<open>0\<close> is not.\<close>

theorem restart_keeps_jobs:
  assumes t: "table_at api s0 f rs s" and c: "ready c" "fc_disk (fc_close c) name = Some f" "fc_access c name"
  shows "\<exists>s' s1. IdContainer_new api addr c name = (Inr (), s') \<and> table_at api s1 f rs s' \<and> jobs s' = jobs s \<and>
    statuses s' = (\<lambda>r. (cell_job api (snd r), stored_status api (snd r))) ` set rs \<and>
    (statuses_current api s \<longrightarrow> statuses s' = statuses s)"
proof -
  obtain h where h: "file_ok f h rs" using table_atD(1) [OF t] by (auto simp: seq_at_def elim: list_atE)
  from fc_open_existing [OF c h] obtain c' where c': "fc_open name c = (Inr (), c')" "container c' f rs" by blast
  note j = table_jobs [OF t]
  define s1 where "s1 = file_sequence_new addr c'"
  have s1: "seq_at s1 f rs s1"
    using c'(2) by (simp add: s1_def file_sequence_new_def seq_at_def list_at_def same_env_def base_iterator_on_def FileIterator_new_def)
  let ?t = "\<lparr>ic_inserted = 0, ic_container = s1, ic_pointers = [], ic_edgs = [], ic_condors = [], ic_last = None, ic_fresh = 0\<rparr>"
  let ?Q = "\<lambda>s'. table_at api s1 f rs s' \<and> jobs s' = jobs s \<and>
    statuses s' = (\<lambda>r. (cell_job api (snd r), stored_status api (snd r))) ` set rs"
  have "wp (ic_bind (on_list fs_empty_list) (\<lambda>empty. if \<not> empty then onConstruct api else ic_return ()))
      (\<lambda>_. ?Q) ?t"
    unfolding wp_simps
  proof (rule wp_on_list, rule fs_empty_list_wp)
    show "seq_at s1 f rs (ic_container ?t)" using s1 by simp
    fix l assume l: "seq_at s1 f rs l"
    show "wp (if \<not> (rs = []) then onConstruct api else ic_return ()) (\<lambda>_. ?Q) (?t\<lparr>ic_container := l\<rparr>)"
    proof (cases "rs = []")
      case True
      then show ?thesis using l j(2) by (simp add: wp_simps table_at_def index_ok_def vector_ok_def jobs_def statuses_def)
    next
      case False
      have "wp (onConstruct api) (\<lambda>_. ?Q) (?t\<lparr>ic_container := l\<rparr>)"
        by (rule onConstruct_wp [of s1 f rs]) (use l j in simp_all)
      with False show ?thesis by simp
    qed
  qed
  moreover have "IdContainer_new api addr c name =
      ic_bind (on_list fs_empty_list) (\<lambda>empty. if \<not> empty then onConstruct api else ic_return ()) ?t"
    unfolding IdContainer_new_def Let_def
    by (rule ic_bind_run) (simp add: on_list_def on_container_def c'(1) file_sequence_new_def s1_def)
  ultimately show ?thesis using j(3) by (auto simp: wp_def)
qed

text \<open>The job was inserted with status \<open>1\<close>: its node has \<open>0\<close>, the node that is loaded after the restart has \<open>1\<close>.\<close>

theorem restart_keeps_jobs_witness:
  "\<exists>s. IdContainer_new toy_api 9 (fc_close (fs_container (ic_container one_table))) ''list'' = (Inr (), s) \<and>
     jobs s = {(''job1'', ''12.0'', ''UI=1'', undefined_status, 0)} \<and> snd ` statuses s = {1}"
proof -
  let ?c = "fs_container (ic_container one_table)" and ?d = "ad_unparse toy_api (new_ad toy_api ''job1'' ''12.0'' ''UI=1'' 1)"
  obtain f where f: "table_at toy_api (ic_container new_table) f [(391, ?d)] one_table"
    "jobs one_table = {(''job1'', ''12.0'', ''UI=1'', undefined_status, 0)}" using one_table by blast
  have st: "stored_status toy_api ?d = 1"
    using classad_lawsD(1,4) [OF toy_laws] by (simp add: stored_status_def eval_or_def new_ad_def)
  have c: "container ?c f [(391, ?d)]" "same_env new_list ?c"
    using table_atD(1) [OF f(1)] by (simp_all add: seq_at_def list_at_def new_table_def file_sequence_new_def)
  obtain h where h: "handle_ok ?c" using c(1) by (auto simp: container_def dest: attached_handle)
  have e: "fc_budget ?c = None" "fc_access ?c = (\<lambda>_. True)" "fc_filename ?c = ''list''"
    using new_list c(2) by (auto simp: same_env_def)
  have "fc_stream (fc_close ?c) = None" by (simp add: fc_close_def split: option.splits)
  then have d: "fc_disk (fc_close (fc_close ?c)) ''list'' = Some f"
    using reopen(1) [OF c(1) e(3,1)] e(2) by (simp add: fc_close_def [of "fc_close ?c"])
  have "ready (fc_close ?c)" using h e(1) by (simp add: ready_def)
  from restart_keeps_jobs [OF f(1) this d] f(2) e(2) st show ?thesis by fastforce
qed

text \<open>\<open>refresh\<close> on a table whose file another process has changed. \<^verbatim>\<open>FileContainer::sync\<close> answers
  \<open>container_modified\<close> when it finds the file modified, and the file list throws on every answer
  that is not \<open>all_good\<close>: the refresh throws exactly when there is something to load. The
  handle has taken the new stamp by then, so that the next refresh finds nothing to do and the
  table keeps the jobs it had.\<close>

theorem refresh_loses_changes:
  assumes c: "fs_container (ic_container s) = fc_at c f p tr" "file_ok f h rs" "stale c h"
  shows "\<exists>s1 s2. id_refresh api s = (Inl (Thrown (Code container_modified)), s1) \<and>
    id_refresh api s1 = (Inr (), s2) \<and> jobs s2 = jobs s"
proof -
  from c(3) have st: "handle_ok c" "fc_initialized c" "ts_gt (stamp_of h) (fc_stamp c)" by (simp_all add: stale_def)
  note ok = file_okD [OF c(2)]
  have m: "fc_modified (fc_at d f p tr) = (Inr (ts_gt (stamp_of h) (fc_stamp d)), fc_at d f 26 tr)" if "fc_initialized d" for d p tr
    using that ok by (simp add: fc_modified_def checkStamp_at stamp_of_def)
  obtain c' p' where s: "syncData True (fc_at c f 26 tr) = (Inr (), fc_at c' f p' tr)" "synced c' rs" "fc_stamp c' = stamp_of h"
    by (rule syncData_ok [OF c(2) st(1,2), of True 26 tr]) simp
  have "fc_sync (fc_at c f 26 tr) = (Inl (Code container_modified), fc_at c' f p' tr)"
    using st s(1) by (simp add: fc_sync_def checkStreamAndStamp_ok [OF c(2)])
  moreover obtain d q where "(throwErrorAndDumpFile container_modified :: unit fcm) (fc_at c' f p' tr) = (Inl (Code container_modified), fc_at d f q tr)"
    and d: "fc_initialized d" "fc_stamp d = stamp_of h"
    using s(2,3) by (simp add: throwErrorAndDumpFile_def dumpFile_def backupFile_def Let_def synced_def)
  ultimately have sy: "throwing fc_sync (fc_at c f 26 tr) = (Inl (Code container_modified), fc_at d f q tr)" by (simp add: throwing_def)
  define at where "at x = s\<lparr>ic_container := (ic_container s)\<lparr>fs_container := x\<rparr>\<rparr>" for x
  have m1: "on_list fs_modified s = (Inr True, at (fc_at c f 26 tr))"
    using c(1) st m [OF st(2)] by (simp add: on_list_def fs_modified_def on_container_def throwing_def at_def)
  have sy1: "on_list fs_sync (at (fc_at c f 26 tr)) = (Inl (Thrown (Code container_modified)), at (fc_at d f q tr))"
    by (simp add: on_list_def fs_sync_def on_container_def sy at_def)
  have m2: "on_list fs_modified (at (fc_at d f q tr)) = (Inr False, at (fc_at d f 26 tr))"
    using m [OF d(1)] d(2) by (simp add: on_list_def fs_modified_def on_container_def throwing_def at_def)
  have "id_refresh api s = (Inl (Thrown (Code container_modified)), at (fc_at d f q tr))"
    by (simp add: id_refresh_def ic_bind_def m1 sy1)
  moreover have "id_refresh api (at (fc_at d f q tr)) = (Inr (), at (fc_at d f 26 tr))"
    by (simp add: id_refresh_def ic_bind_def m2 ic_return_def)
  ultimately show ?thesis by (simp add: jobs_def at_def)
qed

definition old_table :: "toy_ad id_container" where
  "old_table = new_table\<lparr>ic_container := file_sequence_new 7 (new_list\<lparr>fc_stamp := \<lparr>ts_good = True, ts_epoch = 0, ts_counter = 0\<rparr>\<rparr>)\<rparr>"

theorem refresh_loses_changes_witness:
  "\<exists>s1 s2. id_refresh toy_api old_table = (Inl (Thrown (Code container_modified)), s1) \<and>
    id_refresh toy_api s1 = (Inr (), s2) \<and> jobs s2 = jobs old_table"
proof -
  let ?t = "\<lparr>ts_good = True, ts_epoch = 0, ts_counter = 0\<rparr>"
  obtain f where f: "container new_list f []" "fc_initialized new_list" "\<exists>h. file_ok f h [] \<and> h_counter h = 1"
    using new_list by blast
  from f(1) obtain p tr h' where c: "new_list = fc_at new_list f p tr" "attached new_list h' []" by (rule containerE)
  from f(3) obtain h where h: "file_ok f h []" "h_counter h = 1" by blast
  have "fc_at (new_list\<lparr>fc_stamp := ?t\<rparr>) f p tr = (fc_at new_list f p tr)\<lparr>fc_stamp := ?t\<rparr>" by simp
  then have e: "fs_container (ic_container old_table) = fc_at (new_list\<lparr>fc_stamp := ?t\<rparr>) f p tr"
    using c(1) by (simp add: old_table_def file_sequence_new_def)
  have "stale (new_list\<lparr>fc_stamp := ?t\<rparr>) h"
    using attached_handle [OF c(2)] f(2) h(2) by (auto simp: stale_def handle_ok_def stamp_ok_def ts_gt_def stamp_of_def)
  from refresh_loses_changes [OF e h(1) this] show ?thesis .
qed

end
