(* ===== verification/Wm_Events.thy ===== *)
theory Wm_Events
  imports Main "HOL-Library.Multiset"
begin

text \<open>
  The event queue of the workload manager, \<^verbatim>\<open>org.glite.wms.core/src/events.cpp\<close> and \<^verbatim>\<open>events.h\<close>:
  the ready queue ordered by priority, the waiting queue ordered by time, \<open>schedule\<close>,
  \<open>schedule_at\<close>, \<open>stop\<close>, and the loop \<open>run\<close> that each worker thread executes.

  A multimap is the list of its entries in order. An insertion descends to the left of a
  node \<open>x\<close> when \<open>comp( new, x )\<close>, so the new entry comes before the first entry with that
  property; \<open>lower_bound( k )\<close> is the first entry \<open>x\<close> with \<open>!comp( x, k )\<close>.

  The mutex is held over each stretch of \<open>run\<close> between two waits, and over each call of
  \<open>schedule\<close>, \<open>schedule_at\<close> and \<open>stop\<close>: these are the atomic steps. A worker that waits on the condition
  may go on at any step, as spurious wake-ups are allowed; a worker runs an event without the
  mutex. What an event does is schedule other events, stop the queue, or throw.
\<close>

section \<open>Keys and queues\<close>

record TimePriority =
  tp_time :: int
  tp_priority :: int

definition time_first :: "TimePriority \<Rightarrow> TimePriority \<Rightarrow> bool" where
  "time_first lhs rhs \<longleftrightarrow> tp_time lhs \<le> tp_time rhs"

definition priority_first :: "TimePriority \<Rightarrow> TimePriority \<Rightarrow> bool" where
  "priority_first lhs rhs \<longleftrightarrow> tp_priority lhs < tp_priority rhs \<or>
     tp_priority lhs = tp_priority rhs \<and> tp_time lhs < tp_time rhs"

text \<open>The function of an entry; \<open>None\<close> is an empty \<^verbatim>\<open>boost::function\<close>.\<close>

type_synonym 'f entry = "TimePriority \<times> 'f option"

definition multimap_insert :: "(TimePriority \<Rightarrow> TimePriority \<Rightarrow> bool) \<Rightarrow> 'f entry \<Rightarrow> 'f entry list \<Rightarrow> 'f entry list" where
  "multimap_insert cmp v q = takeWhile (\<lambda>x. \<not> cmp (fst v) (fst x)) q @ v # dropWhile (\<lambda>x. \<not> cmp (fst v) (fst x)) q"

definition multimap_lower_bound :: "(TimePriority \<Rightarrow> TimePriority \<Rightarrow> bool) \<Rightarrow> TimePriority \<Rightarrow> 'f entry list \<Rightarrow> nat" where
  "multimap_lower_bound cmp k q = length (takeWhile (\<lambda>x. cmp (fst x) k) q)"

section \<open>\<open>Events\<close>\<close>

record 'f events =
  shutdown :: bool
  ready :: "'f entry list"
  waiting :: "'f entry list"

definition Events_new :: "'f events" where
  "Events_new = \<lparr>shutdown = False, ready = [], waiting = []\<rparr>"

definition expired_to_ready :: "int \<Rightarrow> 'f events \<Rightarrow> 'f events" where
  "expired_to_ready now s =
     (let last_expired = multimap_lower_bound time_first \<lparr>tp_time = now, tp_priority = 0\<rparr> (waiting s)
      in s\<lparr>ready := fold (multimap_insert priority_first) (take last_expired (waiting s)) (ready s),
            waiting := drop last_expired (waiting s)\<rparr>)"

definition ready_size :: "'f events \<Rightarrow> nat" where
  "ready_size s = length (ready s)"

definition waiting_size :: "'f events \<Rightarrow> nat" where
  "waiting_size s = length (waiting s)"

definition schedule :: "int \<Rightarrow> 'f option \<Rightarrow> int \<Rightarrow> 'f events \<Rightarrow> 'f events" where
  "schedule now f priority s =
     s\<lparr>ready := multimap_insert priority_first (\<lparr>tp_time = now, tp_priority = priority\<rparr>, f) (ready s)\<rparr>"

definition schedule_at :: "'f option \<Rightarrow> int \<Rightarrow> int \<Rightarrow> 'f events \<Rightarrow> 'f events" where
  "schedule_at f t priority s =
     s\<lparr>waiting := multimap_insert time_first (\<lparr>tp_time = t, tp_priority = priority\<rparr>, f) (waiting s)\<rparr>"

definition stop :: "'f events \<Rightarrow> 'f events" where
  "stop s = s\<lparr>shutdown := True\<rparr>"

section \<open>\<open>run\<close>\<close>

text \<open>Where a worker stands: at the head of the loop, in \<open>cond.wait\<close>, in \<open>cond.timed_wait\<close> until a time,
  running the function of an entry, past the loop, or after reading \<open>waiting.begin()->first\<close> of an
  empty queue.\<close>

datatype 'f worker = Head | Cond_wait | Timed_wait int | Running "'f entry" | Exited | Bad_deref

text \<open>The second inner loop with what follows it: leave on shutdown, wait for the first
  waiting entry when nothing is ready, else take the first ready entry.\<close>

definition wait_or_take :: "'f events \<Rightarrow> 'f worker \<times> 'f events" where
  "wait_or_take s =
     (if shutdown s then (Exited, s)
      else case ready s of
        [] \<Rightarrow> (case waiting s of [] \<Rightarrow> (Bad_deref, s) | e # _ \<Rightarrow> (Timed_wait (tp_time (fst e)), s))
      | e # q \<Rightarrow> (Running e, s\<lparr>ready := q\<rparr>))"

text \<open>From the head of the outer loop, or from a wake-up in the first inner loop.\<close>

definition enter :: "int \<Rightarrow> 'f events \<Rightarrow> 'f worker \<times> 'f events" where
  "enter now s =
     (if shutdown s then (Exited, s)
      else if ready s = [] \<and> waiting s = [] then (Cond_wait, s)
      else wait_or_take (expired_to_ready now s))"

text \<open>From a wake-up in the second inner loop.\<close>

definition resume :: "int \<Rightarrow> 'f events \<Rightarrow> 'f worker \<times> 'f events" where
  "resume now s = wait_or_take (expired_to_ready now s)"

text \<open>How the call of the function ends.\<close>

datatype call_end = Returns | Bad_alloc | Throws

definition after_call :: "call_end \<Rightarrow> 'f events \<Rightarrow> 'f events" where
  "after_call r s = (if r = Bad_alloc then stop s else s)"

section \<open>The threads\<close>

text \<open>\<open>w_scheduled\<close> and \<open>w_finished\<close> record what was put into the queue and what has been run.\<close>

record 'f pool =
  w_events :: "'f events"
  w_workers :: "'f worker list"
  w_now :: int
  w_scheduled :: "'f entry multiset"
  w_finished :: "'f entry multiset"

definition pool_new :: "nat \<Rightarrow> int \<Rightarrow> 'f pool" where
  "pool_new n now = \<lparr>w_events = Events_new, w_workers = replicate n Head, w_now = now, w_scheduled = {#}, w_finished = {#}\<rparr>"

definition set_worker :: "nat \<Rightarrow> 'f worker \<times> 'f events \<Rightarrow> 'f pool \<Rightarrow> 'f pool" where
  "set_worker i r w = w\<lparr>w_workers := (w_workers w)[i := fst r], w_events := snd r\<rparr>"

inductive step :: "'f pool \<Rightarrow> 'f pool \<Rightarrow> bool" where
  tick: "w_now w \<le> t \<Longrightarrow> step w (w\<lparr>w_now := t\<rparr>)"
| call_schedule: "step w (w\<lparr>w_events := schedule (w_now w) f p (w_events w),
      w_scheduled := add_mset (\<lparr>tp_time = w_now w, tp_priority = p\<rparr>, f) (w_scheduled w)\<rparr>)"
| call_schedule_at: "step w (w\<lparr>w_events := schedule_at f t p (w_events w),
      w_scheduled := add_mset (\<lparr>tp_time = t, tp_priority = p\<rparr>, f) (w_scheduled w)\<rparr>)"
| call_stop: "step w (w\<lparr>w_events := stop (w_events w)\<rparr>)"
| head: "i < length (w_workers w) \<Longrightarrow> w_workers w ! i = Head \<Longrightarrow> step w (set_worker i (enter (w_now w) (w_events w)) w)"
| wake: "i < length (w_workers w) \<Longrightarrow> w_workers w ! i = Cond_wait \<Longrightarrow> step w (set_worker i (enter (w_now w) (w_events w)) w)"
| timeout: "i < length (w_workers w) \<Longrightarrow> w_workers w ! i = Timed_wait t \<Longrightarrow> t \<le> w_now w \<Longrightarrow>
    step w (set_worker i (resume (w_now w) (w_events w)) w)"
| notified: "i < length (w_workers w) \<Longrightarrow> w_workers w ! i = Timed_wait t \<Longrightarrow>
    step w (set_worker i (resume (w_now w) (w_events w)) w)"
| finish: "i < length (w_workers w) \<Longrightarrow> w_workers w ! i = Running e \<Longrightarrow> (snd e = None \<longrightarrow> r = Returns) \<Longrightarrow>
    step w ((set_worker i (Head, after_call r (w_events w)) w)\<lparr>w_finished := add_mset e (w_finished w)\<rparr>)"

definition reachable :: "nat \<Rightarrow> int \<Rightarrow> 'f pool \<Rightarrow> bool" where
  "reachable n now w \<longleftrightarrow> step\<^sup>*\<^sup>* (pool_new n now) w"

end
