(* ===== verification/Wm_Events_Props.thy ===== *)
theory Wm_Events_Props
  imports Wm_Events
begin

text \<open>
  What the event queue of the workload manager guarantees to the threads that use it.
\<close>

section \<open>The queues\<close>

text \<open>The order that each queue is kept in.\<close>

definition ready_ordered :: "'f entry list \<Rightarrow> bool" where
  "ready_ordered q \<longleftrightarrow> sorted_wrt (\<lambda>x y. \<not> priority_first (fst y) (fst x)) q"

definition waiting_ordered :: "'f entry list \<Rightarrow> bool" where
  "waiting_ordered q \<longleftrightarrow> sorted_wrt (\<lambda>x y. tp_time (fst x) \<le> tp_time (fst y)) q"

lemma sorted_wrt_between:
  "sorted_wrt R (xs @ ys) \<Longrightarrow> \<forall>x\<in>set xs. R x v \<Longrightarrow> \<forall>y\<in>set ys. R v y \<Longrightarrow> sorted_wrt R (xs @ v # ys)"
  by (auto simp: sorted_wrt_append)

lemma mset_multimap_insert [simp]: "mset (multimap_insert c v q) = add_mset v (mset q)"
  unfolding multimap_insert_def by (metis mset.simps(2) mset_append takeWhile_dropWhile_id union_mset_add_mset_right)

lemma set_multimap_insert [simp]: "set (multimap_insert c v q) = insert v (set q)"
  by (metis mset_multimap_insert set_mset_add_mset_insert set_mset_mset)

lemma mset_fold_insert [simp]: "mset (fold (multimap_insert c) vs q) = mset vs + mset q"
  by (induction vs arbitrary: q) simp_all

lemma not_priority_first_trans:
  "\<not> priority_first b a \<Longrightarrow> \<not> priority_first c b \<Longrightarrow> \<not> priority_first c a"
  by (auto simp: priority_first_def)

lemma ready_insert:
  assumes "ready_ordered q"
  shows "ready_ordered (multimap_insert priority_first v q)"
proof -
  let ?P = "\<lambda>x. \<not> priority_first (fst v) (fst x)"
  let ?a = "takeWhile ?P q" and ?b = "dropWhile ?P q"
  have ab: "ready_ordered (?a @ ?b)" using assms by simp
  have a: "\<forall>x\<in>set ?a. \<not> priority_first (fst v) (fst x)" by (auto dest: set_takeWhileD)
  have b: "\<not> priority_first (fst x) (fst v)" if "x \<in> set ?b" for x
  proof (cases ?b)
    case Nil
    with that show ?thesis by simp
  next
    case (Cons y ys)
    then have y: "priority_first (fst v) (fst y)" using hd_dropWhile [of ?P q] by auto
    have "x = y \<or> \<not> priority_first (fst x) (fst y)"
      using that ab Cons unfolding ready_ordered_def sorted_wrt_append by auto
    with y show ?thesis by (auto simp: priority_first_def)
  qed
  show ?thesis
    unfolding multimap_insert_def ready_ordered_def
    by (rule sorted_wrt_between [OF ab [unfolded ready_ordered_def] a]) (use b in blast)
qed

lemma ready_fold_insert: "ready_ordered q \<Longrightarrow> ready_ordered (fold (multimap_insert priority_first) vs q)"
  by (induction vs arbitrary: q) (simp_all add: ready_insert)

lemma waiting_insert:
  assumes "waiting_ordered q"
  shows "waiting_ordered (multimap_insert time_first v q)"
proof -
  let ?P = "\<lambda>x. \<not> time_first (fst v) (fst x)"
  let ?a = "takeWhile ?P q" and ?b = "dropWhile ?P q"
  have ab: "waiting_ordered (?a @ ?b)" using assms by simp
  have a: "\<forall>x\<in>set ?a. tp_time (fst x) \<le> tp_time (fst v)" by (auto simp: time_first_def dest!: set_takeWhileD)
  have b: "tp_time (fst v) \<le> tp_time (fst x)" if "x \<in> set ?b" for x
  proof (cases ?b)
    case Nil
    with that show ?thesis by simp
  next
    case (Cons y ys)
    then have y: "tp_time (fst v) \<le> tp_time (fst y)" using hd_dropWhile [of ?P q] by (auto simp: time_first_def)
    have "x = y \<or> tp_time (fst y) \<le> tp_time (fst x)"
      using that ab Cons unfolding waiting_ordered_def sorted_wrt_append by auto
    with y show ?thesis by auto
  qed
  show ?thesis
    unfolding multimap_insert_def waiting_ordered_def
    by (rule sorted_wrt_between [OF ab [unfolded waiting_ordered_def] a]) (use b in blast)
qed

text \<open>With the order by time, \<open>lower_bound\<close> under \<open>\<le>\<close> separates exactly what is due.\<close>

lemma expired_split:
  fixes now :: int and q :: "'f entry list"
  assumes "waiting_ordered q"
  defines "n \<equiv> multimap_lower_bound time_first \<lparr>tp_time = now, tp_priority = 0\<rparr> q"
  shows "x \<in> set (take n q) \<Longrightarrow> tp_time (fst x) \<le> now" "x \<in> set (drop n q) \<Longrightarrow> now < tp_time (fst x)"
proof -
  let ?P = "\<lambda>x. time_first (fst x) \<lparr>tp_time = now, tp_priority = 0\<rparr>"
  have t: "take n q = takeWhile ?P q" "drop n q = dropWhile ?P q"
    unfolding n_def multimap_lower_bound_def by (rule takeWhile_eq_take [symmetric], rule dropWhile_eq_drop [symmetric])
  show "x \<in> set (take n q) \<Longrightarrow> tp_time (fst x) \<le> now" unfolding t by (auto simp: time_first_def dest!: set_takeWhileD)
  assume x: "x \<in> set (drop n q)"
  then obtain y ys where y: "dropWhile ?P q = y # ys" by (cases "dropWhile ?P q") (simp_all add: t)
  then have "now < tp_time (fst y)" using hd_dropWhile [of ?P q] by (auto simp: time_first_def)
  moreover have "waiting_ordered (takeWhile ?P q @ y # ys)" using assms(1) y by (metis takeWhile_dropWhile_id)
  then have "x = y \<or> tp_time (fst y) \<le> tp_time (fst x)" using x unfolding t y waiting_ordered_def sorted_wrt_append by auto
  ultimately show "now < tp_time (fst x)" by auto
qed

lemma expired_to_ready_props:
  fixes s :: "'f events"
  assumes "waiting_ordered (waiting s)" "ready_ordered (ready s)"
  shows "mset (ready (expired_to_ready now s)) + mset (waiting (expired_to_ready now s)) = mset (ready s) + mset (waiting s)"
    "set (ready (expired_to_ready now s)) = set (ready s) \<union> {x \<in> set (waiting s). tp_time (fst x) \<le> now}"
    "set (waiting (expired_to_ready now s)) = {x \<in> set (waiting s). now < tp_time (fst x)}"
    "ready_ordered (ready (expired_to_ready now s))" "waiting_ordered (waiting (expired_to_ready now s))"
    "shutdown (expired_to_ready now s) = shutdown s"
proof -
  define n where "n = multimap_lower_bound time_first \<lparr>tp_time = now, tp_priority = 0\<rparr> (waiting s)"
  note sp = expired_split [OF assms(1), of _ now, folded n_def]
  have w: "waiting (expired_to_ready now s) = drop n (waiting s)"
    and r: "ready (expired_to_ready now s) = fold (multimap_insert priority_first) (take n (waiting s)) (ready s)"
    by (simp_all add: expired_to_ready_def Let_def n_def)
  have td: "mset (take n (waiting s)) + mset (drop n (waiting s)) = mset (waiting s)" by (metis append_take_drop_id mset_append)
  then show "mset (ready (expired_to_ready now s)) + mset (waiting (expired_to_ready now s)) = mset (ready s) + mset (waiting s)"
    unfolding w r by (simp flip: td)
  have su: "set (waiting s) = set (take n (waiting s)) \<union> set (drop n (waiting s))" by (metis append_take_drop_id set_append)
  have sr: "set (ready (expired_to_ready now s)) = set (take n (waiting s)) \<union> set (ready s)"
    unfolding r by (metis mset_fold_insert set_mset_mset set_mset_union)
  show "set (ready (expired_to_ready now s)) = set (ready s) \<union> {x \<in> set (waiting s). tp_time (fst x) \<le> now}"
    unfolding sr su using sp by force
  show "set (waiting (expired_to_ready now s)) = {x \<in> set (waiting s). now < tp_time (fst x)}"
    unfolding w su using sp by force
  show "ready_ordered (ready (expired_to_ready now s))" unfolding r using assms(2) by (rule ready_fold_insert)
  show "waiting_ordered (waiting (expired_to_ready now s))"
    unfolding w waiting_ordered_def using assms(1) by (simp add: waiting_ordered_def sorted_wrt_drop)
  show "shutdown (expired_to_ready now s) = shutdown s" by (simp add: expired_to_ready_def Let_def)
qed

section \<open>What a worker gets\<close>

definition queue_ok :: "'f events \<Rightarrow> bool" where
  "queue_ok s \<longleftrightarrow> ready_ordered (ready s) \<and> waiting_ordered (waiting s)"

text \<open>The entries a worker may take: the ready ones and the waiting ones that are due.\<close>

definition due :: "int \<Rightarrow> 'f events \<Rightarrow> 'f entry set" where
  "due now s = set (ready s) \<union> {x \<in> set (waiting s). tp_time (fst x) \<le> now}"

definition taken :: "'f worker \<Rightarrow> 'f entry multiset" where
  "taken k = (case k of Running e \<Rightarrow> {#e#} | _ \<Rightarrow> {#})"

definition pending :: "'f events \<Rightarrow> 'f entry multiset" where
  "pending s = mset (ready s) + mset (waiting s)"

lemma wait_or_take_props:
  assumes "queue_ok s" "wait_or_take s = (k, s')"
  shows "queue_ok s'" "pending s' + taken k = pending s" "waiting s' = waiting s" "set (ready s') \<subseteq> set (ready s)"
    "taken k = {#} \<Longrightarrow> s' = s" "shutdown s' = shutdown s"
  using assms by (auto simp: wait_or_take_def queue_ok_def ready_ordered_def pending_def taken_def
      split: if_splits list.splits)

lemma resume_props:
  assumes q: "queue_ok s" and r: "resume now s = (k, s')"
  shows "queue_ok s'" "pending s' + taken k = pending s" "shutdown s' = shutdown s"
    "set (ready s') \<subseteq> due now s" "set (waiting s') \<subseteq> set (waiting s)" "\<forall>e\<in>#taken k. e \<in> due now s"
proof -
  let ?s = "expired_to_ready now s"
  note e = expired_to_ready_props [of s now] and q' = q [unfolded queue_ok_def]
  have qs: "queue_ok ?s" using e q' by (simp add: queue_ok_def)
  note w = wait_or_take_props [OF qs r [unfolded resume_def]]
  show "queue_ok s'" by (rule w)
  show "pending s' + taken k = pending s" using w(2) e(1) q' by (simp add: pending_def)
  show "shutdown s' = shutdown s" using w(6) e(6) q' by simp
  have d: "due now s = set (ready ?s)" using e(2) q' by (simp add: due_def)
  show "set (ready s') \<subseteq> due now s" using w(4) d by simp
  show "set (waiting s') \<subseteq> set (waiting s)" using w(3) e(3) q' by auto
  show "\<forall>e\<in>#taken k. e \<in> due now s"
    using r unfolding d resume_def by (auto simp: wait_or_take_def taken_def split: if_splits list.splits)
qed

lemma enter_props:
  assumes q: "queue_ok s" and r: "enter now s = (k, s')"
  shows "queue_ok s'" "pending s' + taken k = pending s" "shutdown s' = shutdown s"
    "set (ready s') \<subseteq> due now s" "set (waiting s') \<subseteq> set (waiting s)" "\<forall>e\<in>#taken k. e \<in> due now s"
proof -
  consider "k \<in> {Exited, Cond_wait}" "s' = s" | "resume now s = (k, s')"
    using r by (auto simp: enter_def resume_def split: if_splits)
  then show "queue_ok s'" "pending s' + taken k = pending s" "shutdown s' = shutdown s"
    "set (ready s') \<subseteq> due now s" "set (waiting s') \<subseteq> set (waiting s)" "\<forall>e\<in>#taken k. e \<in> due now s"
    by (cases, use q resume_props [OF q, of now k s'] in \<open>auto simp: taken_def due_def\<close>)+
qed

section \<open>All threads\<close>

lemma steps: "step\<^sup>*\<^sup>* w w" "step v w \<Longrightarrow> step\<^sup>*\<^sup>* w x \<Longrightarrow> step\<^sup>*\<^sup>* v x"
  by (simp_all add: converse_rtranclp_into_rtranclp)

definition running :: "'f pool \<Rightarrow> 'f entry multiset" where
  "running w = (\<Sum>k\<in>#mset (w_workers w). taken k)"

lemma running_set_worker:
  assumes "i < length (w_workers w)"
  shows "running (set_worker i (k, s) w) + taken (w_workers w ! i) = running w + taken k"
proof -
  have m: "w_workers w ! i \<in># mset (w_workers w)" using assms by simp
  have "mset ((w_workers w)[i := k]) = add_mset k (mset (w_workers w) - {#w_workers w ! i#})"
    using assms by (rule mset_update)
  moreover have "(\<Sum>k\<in>#mset (w_workers w). taken k) =
      taken (w_workers w ! i) + (\<Sum>k\<in>#mset (w_workers w) - {#w_workers w ! i#}. taken k)"
    using m by (metis image_mset_add_mset insert_DiffM sum_mset.insert)
  ultimately show ?thesis by (simp add: running_def set_worker_def)
qed

definition pool_ok :: "'f pool \<Rightarrow> bool" where
  "pool_ok w \<longleftrightarrow> queue_ok (w_events w) \<and>
     w_scheduled w = pending (w_events w) + running w + w_finished w \<and>
     (\<forall>e\<in>#mset (ready (w_events w)) + running w + w_finished w. tp_time (fst e) \<le> w_now w)"

lemma pool_okD:
  assumes "pool_ok w"
  shows "queue_ok (w_events w)" "w_scheduled w = pending (w_events w) + running w + w_finished w"
    "e \<in> set (ready (w_events w)) \<Longrightarrow> tp_time (fst e) \<le> w_now w" "e \<in># running w \<Longrightarrow> tp_time (fst e) \<le> w_now w"
    "e \<in># w_finished w \<Longrightarrow> tp_time (fst e) \<le> w_now w"
  using assms by (auto simp: pool_ok_def)

lemma pool_ok_turn:
  assumes w: "pool_ok w" and i: "i < length (w_workers w)" "taken (w_workers w ! i) = {#}"
    and s': "queue_ok s'" "pending s' + taken k = pending (w_events w)" "set (ready s') \<subseteq> due (w_now w) (w_events w)"
      "\<forall>e\<in>#taken k. e \<in> due (w_now w) (w_events w)"
  shows "pool_ok (set_worker i (k, s') w)"
proof -
  note d = pool_okD [OF w]
  have r: "running (set_worker i (k, s') w) = running w + taken k" using running_set_worker [OF i(1), of k s'] i(2) by simp
  have due: "tp_time (fst e) \<le> w_now w" if "e \<in> due (w_now w) (w_events w)" for e using that d(3) [of e] by (auto simp: due_def)
  have "w_scheduled w = pending s' + (running w + taken k) + w_finished w" unfolding d(2) s'(2) [symmetric] by (simp add: ac_simps)
  moreover have "tp_time (fst e) \<le> w_now w" if "e \<in># mset (ready s') + (running w + taken k) + w_finished w" for e
    using that due [of e] s'(3,4) d(4,5) [of e] by auto
  ultimately show ?thesis using s'(1) by (simp add: pool_ok_def r) (simp add: set_worker_def)
qed

lemma pool_ok_step:
  assumes "step w w'" "pool_ok w"
  shows "pool_ok w'"
  using assms
proof (cases rule: step.cases)
  case (tick t)
  have "tp_time (fst e) \<le> t" if "e \<in># mset (ready (w_events w)) + running w + w_finished w" for e
    using assms(2) that tick(2) order_trans unfolding pool_ok_def by blast
  then show ?thesis using assms(2) tick(1) by (simp add: pool_ok_def running_def)
next
  case (call_schedule f p)
  then show ?thesis
    using assms(2) by (auto simp: pool_ok_def running_def schedule_def queue_ok_def pending_def ready_insert)
next
  case (call_schedule_at f t p)
  then show ?thesis
    using assms(2) by (auto simp: pool_ok_def running_def schedule_at_def queue_ok_def pending_def waiting_insert)
next
  case call_stop
  then show ?thesis using assms(2) by (simp add: pool_ok_def running_def stop_def queue_ok_def pending_def)
next
  case (head i)
  obtain k s' where e: "enter (w_now w) (w_events w) = (k, s')" by force
  with head enter_props [OF pool_okD(1) [OF assms(2)] e] show ?thesis
    using assms(2) by (auto simp: taken_def intro!: pool_ok_turn)
next
  case (wake i)
  obtain k s' where e: "enter (w_now w) (w_events w) = (k, s')" by force
  with wake enter_props [OF pool_okD(1) [OF assms(2)] e] show ?thesis
    using assms(2) by (auto simp: taken_def intro!: pool_ok_turn)
next
  case (timeout i t)
  obtain k s' where e: "resume (w_now w) (w_events w) = (k, s')" by force
  with timeout resume_props [OF pool_okD(1) [OF assms(2)] e] show ?thesis
    using assms(2) by (auto simp: taken_def intro!: pool_ok_turn)
next
  case (notified i t)
  obtain k s' where e: "resume (w_now w) (w_events w) = (k, s')" by force
  with notified resume_props [OF pool_okD(1) [OF assms(2)] e] show ?thesis
    using assms(2) by (auto simp: taken_def intro!: pool_ok_turn)
next
  case (finish i e r)
  let ?v = "set_worker i (Head, after_call r (w_events w)) w"
  have r: "running ?v + {#e#} = running w"
    using running_set_worker [OF finish(2), of Head "after_call r (w_events w)"] finish(3) by (simp add: taken_def)
  have q: "queue_ok (after_call r (w_events w))" "pending (after_call r (w_events w)) = pending (w_events w)"
    "ready (after_call r (w_events w)) = ready (w_events w)"
    using pool_okD(1) [OF assms(2)] by (simp_all add: after_call_def stop_def queue_ok_def pending_def)
  have "running (?v\<lparr>w_finished := add_mset e (w_finished w)\<rparr>) = running ?v" by (simp add: running_def)
  with assms(2) r q show ?thesis unfolding finish(1) pool_ok_def
    by (simp add: set_worker_def flip: r)
qed

lemma reachable_world_ok: "reachable n t0 w \<Longrightarrow> pool_ok w"
proof -
  assume "reachable n t0 w"
  then have "step\<^sup>*\<^sup>* (pool_new n t0) w" by (simp add: reachable_def)
  then show ?thesis
  proof (induction rule: rtranclp_induct)
    case base
    show ?case
      by (simp add: taken_def pool_ok_def pool_new_def running_def Events_new_def queue_ok_def ready_ordered_def waiting_ordered_def pending_def)
  qed (blast intro: pool_ok_step)
qed

section \<open>A queue to try them on\<close>

text \<open>One entry of priority 60, two waiting ones of which one is due.\<close>

definition three_events :: "nat pool" where
  "three_events = (pool_new 1 7)\<lparr>w_events := schedule_at (Some 2) 7 20 (schedule_at (Some 3) 9 10 (schedule 7 (Some 1) 60 Events_new)),
     w_scheduled := {#(\<lparr>tp_time = 7, tp_priority = 20\<rparr>, Some 2), (\<lparr>tp_time = 9, tp_priority = 10\<rparr>, Some 3),
       (\<lparr>tp_time = 7, tp_priority = 60\<rparr>, Some 1)#}\<rparr>"

lemma three_events: "reachable 1 7 three_events"
proof -
  let ?a = "(pool_new 1 7)\<lparr>w_events := schedule 7 (Some 1) 60 Events_new, w_scheduled := {#(\<lparr>tp_time = 7, tp_priority = 60\<rparr>, Some 1)#}\<rparr> :: nat pool"
  let ?b = "?a\<lparr>w_events := schedule_at (Some 3) 9 10 (w_events ?a), w_scheduled := add_mset (\<lparr>tp_time = 9, tp_priority = 10\<rparr>, Some 3) (w_scheduled ?a)\<rparr>"
  have s1: "step (pool_new 1 7) ?a" using call_schedule [where w = "pool_new 1 7 :: nat pool" and f = "Some 1" and p = 60] by (simp add: pool_new_def)
  have s2: "step ?a ?b" by (rule call_schedule_at)
  have s3: "step ?b three_events"
    using call_schedule_at [where w = ?b and f = "Some 2" and t = 7 and p = 20] by (simp add: three_events_def)
  note s = steps(2) [OF s1 steps(2) [OF s2 steps(2) [OF s3 steps(1)]]]
  from s show ?thesis by (simp add: reachable_def)
qed

section \<open>The properties\<close>

text \<open>C6: no event is lost, none is run twice and none is run early. In every state that the
  workers and the threads that schedule can reach together, the entries that were scheduled
  are, each exactly once, the ones in the two queues, the ones being run and the ones that
  have been run, and whatever is ready, being run or has been run was due.\<close>

theorem events_conserved:
  assumes "reachable n t0 w"
  shows "w_scheduled w = mset (ready (w_events w)) + mset (waiting (w_events w)) + running w + w_finished w \<and>
    (\<forall>e. e \<in># mset (ready (w_events w)) + running w + w_finished w \<longrightarrow> tp_time (fst e) \<le> w_now w)"
  using reachable_world_ok [OF assms] by (simp add: pool_ok_def pending_def)

theorem events_conserved_witness:
  "size (mset (ready (w_events three_events)) + mset (waiting (w_events three_events)) + running three_events) = 3"
proof -
  have "w_finished three_events = {#}" "size (w_scheduled three_events) = 3" by (simp_all add: three_events_def pool_new_def)
  with events_conserved [OF three_events] show ?thesis by simp
qed

text \<open>What a worker does when it looks at the queue. On shutdown it leaves. Otherwise it takes
  an entry when some entry is due, and it takes one that no due entry comes before, neither by
  priority nor, at the same priority, by time; it sleeps only when no entry is due, on the
  condition if there is none at all and else until the first of them.\<close>

theorem worker_takes_first:
  assumes "reachable n t0 w" and "enter (w_now w) (w_events w) = (k, s')"
  defines "D \<equiv> due (w_now w) (w_events w)"
  shows "if shutdown (w_events w) then k = Exited
    else if D \<noteq> {} then \<exists>e\<in>D. k = Running e \<and> (\<forall>x\<in>D. \<not> priority_first (fst x) (fst e))
    else if waiting (w_events w) = [] then k = Cond_wait
    else \<exists>e\<in>set (waiting (w_events w)). k = Timed_wait (tp_time (fst e)) \<and>
      (\<forall>x\<in>set (waiting (w_events w)). tp_time (fst e) \<le> tp_time (fst x))"
proof -
  let ?s = "w_events w" and ?x = "expired_to_ready (w_now w) (w_events w)"
  have q: "ready_ordered (ready ?s)" "waiting_ordered (waiting ?s)"
    using pool_okD(1) [OF reachable_world_ok [OF assms(1)]] by (simp_all add: queue_ok_def)
  note e = expired_to_ready_props [OF q(2,1), of "w_now w"]
  have D: "D = set (ready ?x)" using e(2) by (simp add: D_def due_def)
  show ?thesis
  proof (cases "shutdown ?s \<or> ready ?s = [] \<and> waiting ?s = []")
    case True
    then show ?thesis using assms(2) by (auto simp: enter_def D_def due_def split: if_splits)
  next
    case False
    then have k: "wait_or_take ?x = (k, s')" using assms(2) by (auto simp: enter_def split: if_splits)
    show ?thesis
    proof (cases "ready ?x")
      case Nil
      then have "set (waiting ?x) = set (waiting ?s)" using e(2,3) by auto
      moreover have "waiting ?s \<noteq> []" using False e(2) Nil by auto
      ultimately obtain y ys where y: "waiting ?x = y # ys" "y \<in> set (waiting ?s)" by (cases "waiting ?x") auto
      then have "\<forall>x\<in>set (waiting ?s). tp_time (fst y) \<le> tp_time (fst x)"
        using e(5) \<open>set (waiting ?x) = set (waiting ?s)\<close> by (auto simp: waiting_ordered_def)
      with y Nil k D False e(6) \<open>waiting ?s \<noteq> []\<close> show ?thesis by (auto simp: wait_or_take_def)
    next
      case (Cons y ys)
      then have "\<forall>x\<in>D. \<not> priority_first (fst x) (fst y)" using e(4) D by (auto simp: ready_ordered_def priority_first_def)
      with Cons k D False e(6) show ?thesis by (auto simp: wait_or_take_def)
    qed
  qed
qed

theorem worker_takes_first_witness:
  "fst (enter 7 (w_events three_events)) = Running (\<lparr>tp_time = 7, tp_priority = 20\<rparr>, Some 2)"
proof -
  let ?D = "due (w_now three_events) (w_events three_events)"
  let ?a = "(\<lparr>tp_time = 7, tp_priority = 60\<rparr>, Some 1)" and ?b = "(\<lparr>tp_time = 7, tp_priority = 20\<rparr>, Some 2)"
  have D: "?D = {?a, ?b}"
    by (auto simp: due_def three_events_def schedule_def schedule_at_def Events_new_def pool_new_def)
  obtain k s' where e: "enter (w_now three_events) (w_events three_events) = (k, s')" by force
  have "\<not> shutdown (w_events three_events)" by (simp add: three_events_def schedule_def schedule_at_def Events_new_def)
  with worker_takes_first [OF three_events e] obtain x where "x \<in> ?D" "k = Running x" "\<forall>y\<in>?D. \<not> priority_first (fst y) (fst x)"
    unfolding D by auto
  moreover have "priority_first (fst ?b) (fst ?a)" by (simp add: priority_first_def)
  ultimately have "k = Running ?b" unfolding D by auto
  moreover have "w_now three_events = 7" by (simp add: three_events_def pool_new_def)
  ultimately show ?thesis using e by simp
qed

section \<open>The first waiting entry\<close>

lemma wait_or_take_waits:
  "wait_or_take s = (k, s') \<Longrightarrow> (k = Bad_deref \<longrightarrow> ready s = [] \<and> waiting s = []) \<and> (k = Timed_wait t \<longrightarrow> waiting s' \<noteq> [])"
  by (auto simp: wait_or_take_def split: if_splits list.splits)

lemma resume_waits:
  assumes "queue_ok s" "resume now s = (k, s')" "pending s \<noteq> {#}"
  shows "k \<noteq> Bad_deref" "k = Timed_wait t \<Longrightarrow> waiting s' \<noteq> []"
proof -
  let ?x = "expired_to_ready now s"
  have "pending ?x = pending s" using expired_to_ready_props(1) [of s now] assms(1) by (simp add: queue_ok_def pending_def)
  then show "k \<noteq> Bad_deref" "k = Timed_wait t \<Longrightarrow> waiting s' \<noteq> []"
    using wait_or_take_waits [of ?x k s' t] assms(2,3) by (auto simp: resume_def pending_def)
qed

lemma enter_waits:
  assumes "queue_ok s" "enter now s = (k, s')"
  shows "k \<noteq> Bad_deref" "k = Timed_wait t \<Longrightarrow> waiting s' \<noteq> []"
proof -
  consider "k \<in> {Exited, Cond_wait}" | "resume now s = (k, s')" "pending s \<noteq> {#}"
    using assms(2) by (auto simp: enter_def resume_def pending_def split: if_splits)
  then show "k \<noteq> Bad_deref" "k = Timed_wait t \<Longrightarrow> waiting s' \<noteq> []"
    by (cases, use resume_waits [OF assms(1), of now k s'] in auto)+
qed

definition lone_ok :: "'f pool \<Rightarrow> bool" where
  "lone_ok w \<longleftrightarrow> (\<exists>k. w_workers w = [k] \<and> k \<noteq> Bad_deref \<and> (\<forall>t. k = Timed_wait t \<longrightarrow> waiting (w_events w) \<noteq> []))"

lemma lone_ok_step:
  assumes "step w w'" "lone_ok w" "pool_ok w"
  shows "lone_ok w'"
  using assms(1,2)
proof (cases rule: step.cases)
  case (head i)
  then show ?thesis using assms(2) enter_waits [OF pool_okD(1) [OF assms(3)], of "w_now w"]
    by (cases "enter (w_now w) (w_events w)") (auto simp: lone_ok_def set_worker_def)
next
  case (wake i)
  then show ?thesis using assms(2) enter_waits [OF pool_okD(1) [OF assms(3)], of "w_now w"]
    by (cases "enter (w_now w) (w_events w)") (auto simp: lone_ok_def set_worker_def)
next
  case (timeout i t)
  then show ?thesis using assms(2) resume_waits [OF pool_okD(1) [OF assms(3)], of "w_now w"]
    by (cases "resume (w_now w) (w_events w)") (auto simp: lone_ok_def set_worker_def pending_def)
next
  case (notified i t)
  then show ?thesis using assms(2) resume_waits [OF pool_okD(1) [OF assms(3)], of "w_now w"]
    by (cases "resume (w_now w) (w_events w)") (auto simp: lone_ok_def set_worker_def pending_def)
qed (auto simp: lone_ok_def schedule_def schedule_at_def stop_def set_worker_def multimap_insert_def)

text \<open>with one worker thread, \<open>waiting.begin()\<close> is never read of an empty queue, whatever the
  other threads schedule and whenever the worker wakes up.\<close>

theorem one_worker_safe:
  assumes "reachable 1 t0 w"
  shows "Bad_deref \<notin> set (w_workers w)"
proof -
  have "step\<^sup>*\<^sup>* (pool_new 1 t0) w" using assms by (simp add: reachable_def)
  then have "lone_ok w \<and> pool_ok w"
  proof (induction rule: rtranclp_induct)
    case base
    have "pool_ok (pool_new 1 t0 :: 'a pool)" using reachable_world_ok by (auto simp: reachable_def)
    then show ?case by (simp add: lone_ok_def pool_new_def)
  qed (blast intro: lone_ok_step pool_ok_step)
  then show ?thesis by (auto simp: lone_ok_def)
qed

theorem one_worker_safe_witness: "Bad_deref \<notin> set (w_workers three_events)"
  using one_worker_safe [OF three_events] .

text \<open>C30: with two or more worker threads it is read. Two workers wait for one timed event; at
  its time the first moves it to the ready queue and takes it, the second finds both queues
  empty and reads \<open>waiting.begin()->first.time\<close> to wait again.\<close>

theorem workers_deref_end:
  "\<exists>w. reachable (n + 2) t0 w \<and> w_workers w ! 1 = (Bad_deref :: 'f worker)"
proof -
  let ?e = "(\<lparr>tp_time = t0 + 1, tp_priority = 60\<rparr>, None :: 'f option)"
  let ?q = "\<lparr>shutdown = False, ready = [], waiting = [?e]\<rparr>" and ?k = "replicate n Head :: 'f worker list"
  define at where "at q ks t = \<lparr>w_events = q, w_workers = ks, w_now = t, w_scheduled = {#?e#}, w_finished = {#}\<rparr>" for q ks t
  note d = at_def set_worker_def enter_def resume_def wait_or_take_def expired_to_ready_def multimap_lower_bound_def
    time_first_def multimap_insert_def Events_new_def
  have s1: "step (pool_new (n + 2) t0) (at ?q (Head # Head # ?k) t0)"
    using call_schedule_at [where w = "pool_new (n + 2) t0" and f = None and t = "t0 + 1" and p = 60]
    by (simp add: pool_new_def schedule_at_def d)
  have s2: "step (at ?q (Head # Head # ?k) t0) (at ?q (Timed_wait (t0 + 1) # Head # ?k) t0)"
    using head [where w = "at ?q (Head # Head # ?k) t0" and i = 0] by (simp add: d)
  have s3: "step (at ?q (Timed_wait (t0 + 1) # Head # ?k) t0) (at ?q (Timed_wait (t0 + 1) # Timed_wait (t0 + 1) # ?k) t0)"
    using head [where w = "at ?q (Timed_wait (t0 + 1) # Head # ?k) t0" and i = 1] by (simp add: d)
  have s4: "step (at ?q (Timed_wait (t0 + 1) # Timed_wait (t0 + 1) # ?k) t0) (at ?q (Timed_wait (t0 + 1) # Timed_wait (t0 + 1) # ?k) (t0 + 1))"
    using tick [where w = "at ?q (Timed_wait (t0 + 1) # Timed_wait (t0 + 1) # ?k) t0" and t = "t0 + 1"] by (simp add: d)
  have s5: "step (at ?q (Timed_wait (t0 + 1) # Timed_wait (t0 + 1) # ?k) (t0 + 1)) (at Events_new (Running ?e # Timed_wait (t0 + 1) # ?k) (t0 + 1))"
    using timeout [where w = "at ?q (Timed_wait (t0 + 1) # Timed_wait (t0 + 1) # ?k) (t0 + 1)" and i = 0] by (simp add: d)
  have s6: "step (at Events_new (Running ?e # Timed_wait (t0 + 1) # ?k) (t0 + 1)) (at Events_new (Running ?e # Bad_deref # ?k) (t0 + 1))"
    using timeout [where w = "at Events_new (Running ?e # Timed_wait (t0 + 1) # ?k) (t0 + 1)" and i = 1] by (simp add: d)
  note s = steps(2) [OF s1 steps(2) [OF s2 steps(2) [OF s3 steps(2) [OF s4 steps(2) [OF s5 steps(2) [OF s6 steps(1)]]]]]]
  from s show ?thesis
    by (intro exI [of _ "at Events_new (Running ?e # Bad_deref # ?k) (t0 + 1)"]) (simp add: reachable_def at_def)
qed

end
