(* ===== verification/Wm_Lb.thy ===== *)
theory Wm_Lb
  imports Main "HOL-Library.Char_ord"
begin

text \<open>
  What the workload manager computes from the logging and bookkeeping service (LB):
  \<^verbatim>\<open>org.glite.wms.core/src/lb_utils.cpp\<close> (the predicates on a job status and on the events of a
  job, the counts of resubmissions, the previous matches, limbo) and \<^verbatim>\<open>submission_utils.cpp\<close> (the
  type of a job, the limits on resubmissions).

  The queries to the service are not modelled: a status is a value or a null pointer, the
  events of a job are a list, and where the code queries them the result may also be one
  of the two exceptions of \<open>do_query_events\<close>.
\<close>

section \<open>Status\<close>

datatype job_state = Undef | Submitted | Waiting | Ready | Scheduled | Job_running | Done | Cleared | Aborted
  | Cancelled | Unknown | Purged

text \<open>\<open>JobStatusPtr\<close>: \<open>None\<close> is a null pointer.\<close>

type_synonym job_status = "job_state option"

definition is_submitted :: "job_status \<Rightarrow> bool" where "is_submitted st \<longleftrightarrow> st = Some Submitted"
definition is_waiting :: "job_status \<Rightarrow> bool" where "is_waiting st \<longleftrightarrow> st = Some Waiting"
definition is_ready :: "job_status \<Rightarrow> bool" where "is_ready st \<longleftrightarrow> st = Some Ready"
definition is_done :: "job_status \<Rightarrow> bool" where "is_done st \<longleftrightarrow> st = Some Done"
definition is_cancelled :: "job_status \<Rightarrow> bool" where "is_cancelled st \<longleftrightarrow> st = Some Cancelled"
definition is_aborted :: "job_status \<Rightarrow> bool" where "is_aborted st \<longleftrightarrow> st = Some Aborted"

section \<open>Events\<close>

datatype lb_source = Workload_manager | Log_monitor | Other_source

datatype resubmission = Will_resub | Wont_resub | Shallow

datatype enqueued = Enqueued_start | Enqueued_ok | Enqueued_fail | Enqueued_refused

datatype done_code = Done_ok | Done_failed | Done_cancelled

datatype lb_event =
    Resubmission_event lb_source resubmission
  | Enqueued_event lb_source enqueued
  | Done_event lb_source done_code
  | Cancel_event lb_source
  | Usertag_event lb_source string string int
  | Other_event lb_source

datatype query_failure = LB_QueryFailed | LB_QueryTemporarilyFailed

definition is_deep_resubmission :: "lb_event \<Rightarrow> bool" where
  "is_deep_resubmission event = (case event of Resubmission_event _ r \<Rightarrow> r = Will_resub | _ \<Rightarrow> False)"

definition is_shallow_resubmission :: "lb_event \<Rightarrow> bool" where
  "is_shallow_resubmission event = (case event of Resubmission_event _ r \<Rightarrow> r = Shallow | _ \<Rightarrow> False)"

definition is_enqueued_to_jc :: "lb_event \<Rightarrow> bool" where
  "is_enqueued_to_jc event = (case event of Enqueued_event s _ \<Rightarrow> s = Workload_manager | _ \<Rightarrow> False)"

definition is_cancelled_event :: "lb_event \<Rightarrow> bool" where
  "is_cancelled_event event = (case event of Cancel_event _ \<Rightarrow> True | _ \<Rightarrow> False)"

definition is_done_event :: "lb_event \<Rightarrow> bool" where
  "is_done_event event = (case event of Done_event s _ \<Rightarrow> s = Log_monitor | _ \<Rightarrow> False)"

text \<open>The search from the back that \<open>find_last_deep_resubmission\<close>, \<open>find_last_enqueued_to_jc\<close>,
  \<open>find_last_cancelled\<close> and \<open>find_last_done\<close> make: the index of the last match, the end when there is
  none.\<close>

definition find_last :: "(lb_event \<Rightarrow> bool) \<Rightarrow> lb_event list \<Rightarrow> nat" where
  "find_last P events = (let it = dropWhile (\<lambda>e. \<not> P e) (rev events) in
     if it \<noteq> [] then length it - 1 else length events)"

definition get_retry_counts :: "lb_event list \<Rightarrow> nat \<times> nat" where
  "get_retry_counts events =
     (let deep_count = length (filter is_deep_resubmission events);
          last_deep = find_last is_deep_resubmission events;
          start = (if last_deep = length events then 0 else last_deep)
      in (deep_count, length (filter is_shallow_resubmission (drop start events))))"

text \<open>\<open>iequals\<close> compares without regard to case; \<open>ce_info_host\<close> is the name of the tag, a constant of the
  JDL library.\<close>

definition to_lower :: "char \<Rightarrow> char" where
  "to_lower c = (if CHR ''A'' \<le> c \<and> c \<le> CHR ''Z'' then char_of (of_char c + (32 :: nat)) else c)"

definition iequals :: "string \<Rightarrow> string \<Rightarrow> bool" where
  "iequals a b \<longleftrightarrow> map to_lower a = map to_lower b"

fun get_previous_matches :: "string \<Rightarrow> lb_event list \<Rightarrow> (string \<times> int) list" where
  "get_previous_matches ce_info_host [] = []"
| "get_previous_matches ce_info_host (event # events) =
     (case event of
        Usertag_event _ name val timestamp \<Rightarrow>
          if iequals name ce_info_host then (val, timestamp) # get_previous_matches ce_info_host events
          else get_previous_matches ce_info_host events
      | _ \<Rightarrow> get_previous_matches ce_info_host events)"

definition is_last_done :: "lb_event list \<Rightarrow> done_code \<Rightarrow> bool" where
  "is_last_done events status_code = (let e = find_last is_done_event events in
     e \<noteq> length events \<and> (case events ! e of Done_event _ r \<Rightarrow> r = status_code | _ \<Rightarrow> False))"

definition is_last_enqueued_by_wm :: "lb_event list \<Rightarrow> enqueued \<Rightarrow> bool" where
  "is_last_enqueued_by_wm events res = (let e = find_last is_enqueued_to_jc events in
     e \<noteq> length events \<and> (case events ! e of Enqueued_event _ r \<Rightarrow> r = res | _ \<Rightarrow> False))"

definition is_last_cancelled_by_wm :: "lb_event list \<Rightarrow> bool" where
  "is_last_cancelled_by_wm events = (let e = find_last is_cancelled_event events in
     e \<noteq> length events \<and> (case events ! e of Cancel_event s \<Rightarrow> s = Workload_manager | _ \<Rightarrow> False))"

definition in_limbo :: "job_status \<Rightarrow> lb_event list \<Rightarrow> bool" where
  "in_limbo st events =
     (let last_enqueued_by_wm_is_start = is_last_enqueued_by_wm events Enqueued_start
      in is_ready st \<and> last_enqueued_by_wm_is_start \<or>
         is_done st \<and> is_last_done events Done_failed \<and> last_enqueued_by_wm_is_start)"

section \<open>Limits on resubmissions\<close>

datatype hit = HitMaxRetryCount int | HitJobRetryCount int | HitMaxShallowCount int | HitJobShallowCount int

text \<open>The count in the JDL is \<open>None\<close> when the attribute is not valid.\<close>

definition check_shallow_count :: "int option \<Rightarrow> int \<Rightarrow> int \<Rightarrow> hit + unit" where
  "check_shallow_count jdl_count max_shallow count =
     (let job_shallow_count = (case jdl_count of None \<Rightarrow> 0 | Some n \<Rightarrow> if n < 0 then 0 else n)
      in if count \<ge> job_shallow_count then Inl (HitJobShallowCount job_shallow_count)
         else let max_shallow_count = (if max_shallow < 0 then 0 else max_shallow)
              in if count \<ge> max_shallow_count then Inl (HitMaxShallowCount max_shallow_count) else Inr ())"

definition check_deep_count :: "int option \<Rightarrow> int \<Rightarrow> int \<Rightarrow> hit + unit" where
  "check_deep_count jdl_count max_retry_count count =
     (let job_retry_count = (case jdl_count of None \<Rightarrow> 0 | Some n \<Rightarrow> if n < 0 then 0 else n)
      in if count \<ge> job_retry_count then Inl (HitJobRetryCount job_retry_count)
         else if count \<ge> max_retry_count then Inl (HitMaxRetryCount max_retry_count) else Inr ())"

definition get_job_shallow_count :: "int option \<Rightarrow> int" where
  "get_job_shallow_count jdl_count = (case jdl_count of None \<Rightarrow> 0 | Some n \<Rightarrow> n)"

definition shallow_resubmission_is_enabled :: "int option \<Rightarrow> bool" where
  "shallow_resubmission_is_enabled jdl_count \<longleftrightarrow> get_job_shallow_count jdl_count \<noteq> -1"

section \<open>The type of a job\<close>

datatype job_type = Single | Dag | Collection

text \<open>The type attribute and the list of dependencies of the nodes, \<open>None\<close> when the attribute does not
  evaluate.\<close>

definition job_type :: "string option \<Rightarrow> 'd list option \<Rightarrow> job_type" where
  "job_type type dependencies =
     (if type = Some ''dag'' then
        (case dependencies of None \<Rightarrow> Single | Some d \<Rightarrow> if d \<noteq> [] then Dag else Collection)
      else Single)"

end
