(* ===== verification/Wm_Submit.thy ===== *)
theory Wm_Submit
  imports Wm_Lb Wms_Prelude
begin

text \<open>
  The processing of one (re)submission, \<open>SubmitProcessor::operator()\<close> of
  \<^verbatim>\<open>org.glite.wms.core/src/submit_request.cpp\<close>: the checks on the proxy and on the age of the request,
  then a DAG, a collection or a single job.

  One call of the processor is a function of what it is told: \<open>submit_env\<close> has the answers of
  the LB service, of the proxy, of the file system and of the workload manager itself
  (\<open>WMReal\<close>), which are not modelled. Its effects are a list of actions, the checkpoint, the
  pending nodes of a collection and the token files of the job. Writing to the log of the daemon
  is left out.
\<close>

section \<open>State and environment\<close>

datatype checkpoint = START | LIMBO | PENDING

text \<open>The file of the token \<open>reallyrunning_n\<close> and its temporary name, which ends with a dot.\<close>

datatype token = Token nat | Token_tmp nat

fun token_number :: "token \<Rightarrow> nat" where
  "token_number (Token n) = n"
| "token_number (Token_tmp n) = n"

datatype 'n action =
    Postpone string
  | Unrecoverable string
  | Deliver bool
  | Log_resubmission resubmission
  | Log_cancelled
  | Purge
  | Unlink_maradona
  | Log_dag_running
  | Queue_submit 'n
  | Abort_node 'n
  | Reschedule
  | Log_done_ok
  | Log_abort
  | Submit_collection

text \<open>What is thrown inside the \<open>try\<close> block, by the clause that catches it: \<open>Std_exception\<close> stands for the
  classes whose message goes to \<open>unrecoverable\<close>.\<close>

datatype submit_exn =
    Query_exn query_failure
  | Hit_exn hit
  | CannotRetrieveJDL
  | HelperError string
  | CannotCreateToken
  | CannotDeliverFatal
  | CannotCreateLBContext string
  | Std_exception string
  | Unknown_exn

text \<open>\<open>Return\<close> is a \<open>return\<close> statement, \<open>Null_deref\<close> a dereference of a null pointer.\<close>

datatype 'v outcome = Value 'v | Return | Thrown submit_exn | Null_deref

record 'n submit_state =
  ss_checkpoint :: checkpoint
  ss_collection_pending :: "'n list"
  ss_tokens :: "token list"
  ss_actions :: "'n action list"

type_synonym ('v, 'n) sm = "'n submit_state \<Rightarrow> 'v outcome \<times> 'n submit_state"

definition sm_return :: "'v \<Rightarrow> ('v, 'n) sm" where
  "sm_return v = (\<lambda>s. (Value v, s))"

definition sm_bind :: "('v, 'n) sm \<Rightarrow> ('v \<Rightarrow> ('w, 'n) sm) \<Rightarrow> ('w, 'n) sm" where
  "sm_bind m k = (\<lambda>s. case m s of
       (Value v, s') \<Rightarrow> k v s'
     | (Return, s') \<Rightarrow> (Return, s')
     | (Thrown e, s') \<Rightarrow> (Thrown e, s')
     | (Null_deref, s') \<Rightarrow> (Null_deref, s'))"

definition sm_then :: "('v, 'n) sm \<Rightarrow> ('w, 'n) sm \<Rightarrow> ('w, 'n) sm" where
  "sm_then m k = sm_bind m (\<lambda>_. k)"

definition sm_get :: "('n submit_state \<Rightarrow> 'v) \<Rightarrow> ('v, 'n) sm" where
  "sm_get g = (\<lambda>s. (Value (g s), s))"

definition sm_modify :: "('n submit_state \<Rightarrow> 'n submit_state) \<Rightarrow> (unit, 'n) sm" where
  "sm_modify g = (\<lambda>s. (Value (), g s))"

definition act :: "'n action \<Rightarrow> (unit, 'n) sm" where
  "act a = sm_modify (\<lambda>s. s\<lparr>ss_actions := ss_actions s @ [a]\<rparr>)"

definition sm_throw :: "submit_exn \<Rightarrow> ('v, 'n) sm" where
  "sm_throw e = (\<lambda>s. (Thrown e, s))"

definition sm_exit :: "('v, 'n) sm" where
  "sm_exit = (\<lambda>s. (Return, s))"

definition sm_when :: "bool \<Rightarrow> (unit, 'n) sm \<Rightarrow> (unit, 'n) sm" where
  "sm_when b m = (if b then m else sm_return ())"

definition answer :: "submit_exn + 'v \<Rightarrow> ('v, 'n) sm" where
  "answer r = (case r of Inl e \<Rightarrow> sm_throw e | Inr v \<Rightarrow> sm_return v)"

datatype proxy_state = Valid_proxy | Expired_proxy | Missing_proxy string | Invalid_proxy string

text \<open>The attributes of the job that the processor reads.\<close>

record job_ad =
  jdl_type :: job_type
  jdl_expiry_time :: "int option"
  jdl_retry_count :: "int option"
  jdl_shallow_count :: "int option"
  jdl_replans_count :: "int option"

record 'n dag =
  vertices :: "'n list"
  in_edges :: "'n \<Rightarrow> 'n list"

record 'n submit_env =
  env_command :: string
  env_now :: int
  env_created_at :: int
  env_expiry_period :: int
  env_proxy :: proxy_state
  env_ad :: job_ad
  env_dag :: "'n dag"
  env_node_status :: "'n \<Rightarrow> job_status"
  env_node_events :: "'n \<Rightarrow> query_failure + lb_event list"
  env_node_context :: "'n \<Rightarrow> string option"
  env_collection :: "submit_exn + 'n list"
  env_status :: "submit_exn + job_status"
  env_recovery_events :: "query_failure + lb_event list"
  env_interesting_events :: "query_failure + lb_event list"
  env_original_jdl :: "submit_exn + job_ad option"
  env_max_retry_count :: int
  env_max_shallow_count :: int
  env_cancel_token :: bool
  env_directory_error :: bool
  env_rename_error :: bool
  env_create_error :: bool
  env_submit :: "submit_exn option"

section \<open>Helpers\<close>

definition postpone :: "string \<Rightarrow> (unit, 'n) sm" where
  "postpone reason = act (Postpone reason)"

definition unrecoverable :: "string \<Rightarrow> (unit, 'n) sm" where
  "unrecoverable msg = act (Unrecoverable msg)"

definition is_request_expired :: "'n submit_env \<Rightarrow> job_ad \<Rightarrow> bool" where
  "is_request_expired env jdl =
     (case jdl_expiry_time jdl of
        None \<Rightarrow> env_now env - env_created_at env > env_expiry_period env
      | Some expiry_time \<Rightarrow> expiry_time < env_now env)"

text \<open>\<open>queue_new_submit_request\<close>: throws \<open>CannotCreateLBContext\<close> before anything is scheduled.\<close>

definition queue_new_submit_request :: "'n submit_env \<Rightarrow> 'n \<Rightarrow> (unit, 'n) sm" where
  "queue_new_submit_request env n =
     (case env_node_context env n of
        Some e \<Rightarrow> sm_throw (CannotCreateLBContext e)
      | None \<Rightarrow> act (Queue_submit n))"

definition query :: "query_failure + 'v \<Rightarrow> ('v, 'n) sm" where
  "query r = (case r of Inl e \<Rightarrow> sm_throw (Query_exn e) | Inr v \<Rightarrow> sm_return v)"

section \<open>DAGs\<close>

datatype color = White | Gray | Green | Red

type_synonym 'n colors = "'n \<Rightarrow> color"

text \<open>The first phase on one vertex. A vertex whose events cannot be read for the time being keeps
  the colour it has and the request is scheduled again.\<close>

definition assess_node :: "'n submit_env \<Rightarrow> 'n \<Rightarrow> 'n colors \<Rightarrow> ('n colors, 'n) sm" where
  "assess_node env n col =
     (case env_node_status env n of
        None \<Rightarrow> (\<lambda>s. (Null_deref, s))
      | Some st \<Rightarrow>
          if is_aborted (Some st) \<or> is_cancelled (Some st) then sm_return (col(n := Red))
          else if is_done (Some st) then
            (case env_node_events env n of
               Inr events \<Rightarrow> sm_return (col(n := if is_last_done events Done_ok then Green else Gray))
             | Inl LB_QueryFailed \<Rightarrow> sm_exit
             | Inl LB_QueryTemporarilyFailed \<Rightarrow> sm_then (act Reschedule) (sm_return col))
          else if is_submitted (Some st) then sm_return (col(n := White))
          else sm_return (col(n := Gray)))"

fun assess :: "'n submit_env \<Rightarrow> 'n list \<Rightarrow> 'n colors \<Rightarrow> ('n colors, 'n) sm" where
  "assess env [] col = sm_return col"
| "assess env (n # ns) col = sm_bind (assess_node env n col) (assess env ns)"

text \<open>The loop over the in-edges of a white vertex: it stops at the first red source, which aborts
  the node, and tells whether all sources are green.\<close>

fun check_sources :: "'n submit_env \<Rightarrow> 'n \<Rightarrow> 'n list \<Rightarrow> bool \<Rightarrow> 'n colors \<Rightarrow> (bool \<times> 'n colors, 'n) sm" where
  "check_sources env n [] preceding_jobs_are_green col = sm_return (preceding_jobs_are_green, col)"
| "check_sources env n (src # srcs) preceding_jobs_are_green col =
     (if col src = Red then
        (case env_node_context env n of
           Some e \<Rightarrow> sm_throw (CannotCreateLBContext e)
         | None \<Rightarrow> sm_then (act (Abort_node n)) (sm_return (False, col(n := Red))))
      else check_sources env n srcs (preceding_jobs_are_green \<and> col src \<noteq> White \<and> col src \<noteq> Gray) col)"

text \<open>\<open>try { queue_new_submit_request } catch (CannotCreateLBContext)\<close>: whether the node was queued.\<close>

definition try_queue :: "'n submit_env \<Rightarrow> 'n \<Rightarrow> (bool, 'n) sm" where
  "try_queue env n = (\<lambda>s. case queue_new_submit_request env n s of
       (Thrown (CannotCreateLBContext _), s') \<Rightarrow> (Value False, s')
     | (Value _, s') \<Rightarrow> (Value True, s')
     | (Return, s') \<Rightarrow> (Return, s')
     | (Null_deref, s') \<Rightarrow> (Null_deref, s')
     | (Thrown e, s') \<Rightarrow> (Thrown e, s'))"

text \<open>The second phase on one vertex.\<close>

definition plan_node :: "'n submit_env \<Rightarrow> 'n \<Rightarrow> bool \<times> 'n colors \<Rightarrow> (bool \<times> 'n colors, 'n) sm" where
  "plan_node env n state =
     (let (completed_dag, col) = state in
      case col n of
        Gray \<Rightarrow> sm_return (False, col)
      | White \<Rightarrow>
          if in_edges (env_dag env) n = [] then
            sm_bind (try_queue env n) (\<lambda>queued. sm_return (False, col(n := if queued then Gray else Red)))
          else
            sm_bind (check_sources env n (in_edges (env_dag env) n) True col) (\<lambda>(green, col).
              if green then
                sm_bind (try_queue env n) (\<lambda>queued. sm_return (False, if queued then col else col(n := Red)))
              else sm_return (False, col))
      | _ \<Rightarrow> sm_return (completed_dag, col))"

fun plan :: "'n submit_env \<Rightarrow> 'n list \<Rightarrow> bool \<times> 'n colors \<Rightarrow> (bool \<times> 'n colors, 'n) sm" where
  "plan env [] state = sm_return state"
| "plan env (n # ns) state = sm_bind (plan_node env n state) (plan env ns)"

definition process_dag :: "'n submit_env \<Rightarrow> (unit, 'n) sm" where
  "process_dag env =
     sm_bind (sm_get ss_checkpoint) (\<lambda>cp.
     sm_then (sm_when (cp = START) (act Log_dag_running))
    (sm_bind (assess env (vertices (env_dag env)) (\<lambda>_. White)) (\<lambda>col.
     sm_bind (plan env (vertices (env_dag env)) (True, col)) (\<lambda>(completed_dag, col).
     if \<not> completed_dag then
       sm_then (act Reschedule) (sm_modify (\<lambda>s. s\<lparr>ss_checkpoint := PENDING\<rparr>))
     else if \<forall>n\<in>set (vertices (env_dag env)). col n = Green then act Log_done_ok
     else act Log_abort))))"

section \<open>Collections\<close>

text \<open>Each node of the collection that the bulk match-making left pending is queued as a job of its
  own; one whose context cannot be created stays pending.\<close>

fun queue_pending :: "'n submit_env \<Rightarrow> 'n list \<Rightarrow> (unit, 'n) sm" where
  "queue_pending env [] = sm_return ()"
| "queue_pending env (n # ns) = sm_bind (try_queue env n) (\<lambda>_. queue_pending env ns)"

definition process_collection :: "'n submit_env \<Rightarrow> (unit, 'n) sm" where
  "process_collection env =
     sm_bind (sm_get ss_checkpoint) (\<lambda>cp.
     sm_then (sm_when (cp = START) (sm_then (act Submit_collection)
       (sm_bind (answer (env_collection env)) (\<lambda>pending. sm_modify (\<lambda>s. s\<lparr>ss_collection_pending := pending\<rparr>)))))
    (sm_bind (sm_get ss_collection_pending) (\<lambda>pending.
     if pending \<noteq> [] \<and> cp = START then
       sm_then (queue_pending env pending)
      (sm_then (sm_modify (\<lambda>s. s\<lparr>ss_checkpoint := PENDING\<rparr>)) (act Reschedule))
     else sm_return ())))"

section \<open>Single jobs\<close>

text \<open>The check at the checkpoint \<open>LIMBO\<close>. A job that is still in limbo is postponed, and the
  processing goes on.\<close>

definition check_limbo :: "'n submit_env \<Rightarrow> (unit, 'n) sm" where
  "check_limbo env =
     sm_bind (sm_get ss_checkpoint) (\<lambda>cp.
     if cp = LIMBO then
       sm_bind (answer (env_status env)) (\<lambda>st.
       case env_recovery_events env of
         Inl LB_QueryFailed \<Rightarrow> sm_exit
       | Inl LB_QueryTemporarilyFailed \<Rightarrow> sm_throw (Query_exn LB_QueryTemporarilyFailed)
       | Inr events \<Rightarrow>
           if in_limbo st events then postpone '' waiting in limbo''
           else sm_modify (\<lambda>s. s\<lparr>ss_checkpoint := START\<rparr>))
     else sm_return ())"

text \<open>What a resubmission reads from the LB: the two counts and the original JDL.\<close>

definition retrieve_job :: "'n submit_env \<Rightarrow> (job_ad \<times> nat \<times> nat, 'n) sm" where
  "retrieve_job env =
     (if env_command env = ''jobresubmit'' then
        sm_bind (query (env_interesting_events env)) (\<lambda>events.
        sm_bind (answer (env_original_jdl env)) (\<lambda>jdl.
        case jdl of
          None \<Rightarrow> sm_throw CannotRetrieveJDL
        | Some ad \<Rightarrow> sm_return (ad, get_retry_counts events)))
      else sm_return (env_ad env, 0, 0))"

text \<open>The search for the token of the job: the first one found, and an error for each other one,
  after which the search goes on. The path of the token at the front of the message is left out.\<close>

fun find_tokens :: "token list \<Rightarrow> token option \<Rightarrow> (token option, 'n) sm" where
  "find_tokens [] last_token = sm_return last_token"
| "find_tokens (t # ts) last_token =
     (case last_token of
        None \<Rightarrow> find_tokens ts (Some t)
      | Some _ \<Rightarrow> sm_then (unrecoverable ''at least two shallow resubmit tokens are present at the same time!'')
          (find_tokens ts last_token))"

definition has_token :: "token \<Rightarrow> (bool, 'n) sm" where
  "has_token t = sm_get (\<lambda>s. t \<in> set (ss_tokens s))"

text \<open>\<open>rename\<close> replaces the target.\<close>

definition rename_token :: "token \<Rightarrow> token \<Rightarrow> (unit, 'n) sm" where
  "rename_token old new = sm_modify (\<lambda>s. s\<lparr>ss_tokens := new # removeAll old (removeAll new (ss_tokens s))\<rparr>)"

definition create_token :: "'n submit_env \<Rightarrow> token \<Rightarrow> (unit, 'n) sm" where
  "create_token env t =
     (if env_create_error env then sm_throw CannotCreateToken
      else sm_modify (\<lambda>s. s\<lparr>ss_tokens := t # removeAll t (ss_tokens s)\<rparr>))"

definition checked :: "hit + unit \<Rightarrow> (unit, 'n) sm" where
  "checked r = (case r of Inl e \<Rightarrow> sm_throw (Hit_exn e) | Inr _ \<Rightarrow> sm_return ())"

text \<open>A resubmission is shallow when the token is still there, so that the job has not started, and
  deep otherwise.\<close>

definition resubmit_token :: "'n submit_env \<Rightarrow> job_ad \<Rightarrow> nat \<Rightarrow> nat \<Rightarrow> nat \<Rightarrow> (unit, 'n) sm" where
  "resubmit_token env ad deep_count shallow_count replans_count =
     (if shallow_resubmission_is_enabled (jdl_shallow_count ad) then
        sm_bind (has_token (Token replans_count)) (\<lambda>there.
        sm_then (if env_rename_error env then sm_throw CannotCreateToken
                 else sm_when there (rename_token (Token replans_count) (Token_tmp replans_count)))
       (sm_bind (has_token (Token_tmp replans_count)) (\<lambda>tmp.
          if tmp then
            sm_then (checked (check_shallow_count (jdl_shallow_count ad) (env_max_shallow_count env) (int shallow_count)))
              (act (Log_resubmission Shallow))
          else
            sm_then (checked (check_deep_count (jdl_retry_count ad) (env_max_retry_count env) (int deep_count)))
           (sm_then (act (Log_resubmission Will_resub)) (create_token env (Token_tmp replans_count))))))
      else
        sm_then (checked (check_deep_count (jdl_retry_count ad) (env_max_retry_count env) (int deep_count)))
          (act (Log_resubmission Will_resub)))"

text \<open>For a submission: whether it is a replan, in which case the replanner has made the token.
  One that another replan has overtaken is dropped.\<close>

definition submit_token :: "'n submit_env \<Rightarrow> job_ad \<Rightarrow> nat \<Rightarrow> (bool, 'n) sm" where
  "submit_token env ad replans_count =
     (let jdl_replans = (case jdl_replans_count ad of None \<Rightarrow> 0 | Some n \<Rightarrow> n) in
      if jdl_replans > 0 \<and> int replans_count = jdl_replans then sm_return True
      else if jdl_replans > 0 \<and> int replans_count > jdl_replans then sm_exit
      else sm_bind (has_token (Token_tmp replans_count)) (\<lambda>tmp.
        sm_then (sm_when (shallow_resubmission_is_enabled (jdl_shallow_count ad) \<and> \<not> tmp)
          (create_token env (Token_tmp replans_count))) (sm_return False)))"

definition publish_token :: "'n submit_env \<Rightarrow> nat \<Rightarrow> (unit, 'n) sm" where
  "publish_token env replans_count =
     sm_bind (has_token (Token_tmp replans_count)) (\<lambda>tmp.
       if env_rename_error env \<or> \<not> tmp then sm_throw CannotCreateToken
       else rename_token (Token_tmp replans_count) (Token replans_count))"

text \<open>From the search for a token to the delivery. When a token is found its number goes into the
  JDL of the job, where the code below reads it again.\<close>

definition deliver :: "'n submit_env \<Rightarrow> job_ad \<Rightarrow> nat \<Rightarrow> nat \<Rightarrow> (unit, 'n) sm" where
  "deliver env ad deep_count shallow_count =
     (if env_directory_error env then sm_exit else
      sm_bind (sm_get ss_tokens) (\<lambda>tokens.
      sm_bind (find_tokens tokens None) (\<lambda>last_token.
      let replans_count = (case last_token of None \<Rightarrow> 0 | Some t \<Rightarrow> token_number t);
          ad' = (case last_token of None \<Rightarrow> ad | Some t \<Rightarrow> ad\<lparr>jdl_replans_count := Some (int (token_number t))\<rparr>)
      in sm_then (sm_when (env_command env = ''jobresubmit'') (resubmit_token env ad' deep_count shallow_count replans_count))
        (sm_bind (if env_command env = ''jobsubmit'' then submit_token env ad' replans_count else sm_return False) (\<lambda>is_replan.
         sm_then (sm_when (\<not> is_replan \<and> shallow_resubmission_is_enabled (jdl_shallow_count ad')) (publish_token env replans_count))
        (sm_then (act Unlink_maradona)
        (case env_submit env of Some e \<Rightarrow> sm_throw e | None \<Rightarrow> act (Deliver is_replan))))))))"

definition process_single :: "'n submit_env \<Rightarrow> (unit, 'n) sm" where
  "process_single env =
     sm_then (check_limbo env)
    (sm_bind (retrieve_job env) (\<lambda>(ad, deep_count, shallow_count).
     if env_cancel_token env then
       sm_then (act Log_cancelled) (sm_then (act Purge) sm_exit)
     else deliver env ad deep_count shallow_count))"

section \<open>The processor\<close>

definition lexical_cast :: "int \<Rightarrow> string" where
  "lexical_cast i = (if i < 0 then ''-'' @ digits 10 (nat (- i)) else digits 10 (nat i))"

text \<open>The catch clauses.\<close>

fun handle :: "submit_exn \<Rightarrow> 'n action" where
  "handle (Query_exn LB_QueryFailed) = Unrecoverable '' failed (LB query failed)''"
| "handle (Query_exn LB_QueryTemporarilyFailed) = Postpone ''LB query temporarily failed''"
| "handle (Hit_exn (HitMaxRetryCount n)) = Unrecoverable (''hit max retry count ('' @ lexical_cast n @ '')'')"
| "handle (Hit_exn (HitJobRetryCount n)) = Unrecoverable (''hit job retry count ('' @ lexical_cast n @ '')'')"
| "handle (Hit_exn (HitMaxShallowCount n)) = Unrecoverable (''hit shallow max retry count ('' @ lexical_cast n @ '')'')"
| "handle (Hit_exn (HitJobShallowCount n)) = Unrecoverable (''hit job shallow retry count ('' @ lexical_cast n @ '')'')"
| "handle CannotRetrieveJDL = Postpone ''cannot retrieve jdl''"
| "handle (HelperError msg) = Postpone msg"
| "handle CannotCreateToken = Postpone ''cannot create token for shallow resubmission''"
| "handle CannotDeliverFatal = Unrecoverable '' cannot deliver request''"
| "handle (CannotCreateLBContext msg) = Unrecoverable (msg @ '': ignoring request'')"
| "handle (Std_exception msg) = Unrecoverable msg"
| "handle Unknown_exn = Unrecoverable ''unknown exception caught handling submit request''"

definition process_job :: "'n submit_env \<Rightarrow> (unit, 'n) sm" where
  "process_job env = (case jdl_type (env_ad env) of
     Dag \<Rightarrow> process_dag env | Collection \<Rightarrow> process_collection env | Single \<Rightarrow> process_single env)"

definition SubmitProcessor :: "'n submit_env \<Rightarrow> 'n submit_state \<Rightarrow> unit outcome \<times> 'n submit_state" where
  "SubmitProcessor env s =
     (case env_proxy env of
        Missing_proxy e \<Rightarrow> unrecoverable (''X509 proxy not found or I/O error ('' @ e @ '')'') s
      | Invalid_proxy e \<Rightarrow> unrecoverable (''invalid X509 proxy ('' @ e @ '')'') s
      | Expired_proxy \<Rightarrow> unrecoverable ''proxy expired'' s
      | Valid_proxy \<Rightarrow>
          if is_request_expired env (env_ad env) then unrecoverable ''request expired'' s
          else (case process_job env s of
            (Thrown e, s') \<Rightarrow> act (handle e) s'
          | r \<Rightarrow> r))"

end
