(* ===== verification/Wm_Submit_Dag.thy ===== *)
theory Wm_Submit_Dag
  imports Wm_Submit
begin

text \<open>
  The scheduling of the nodes of a DAG: which nodes one call of the processor queues, when it makes
  progress and when it declares the DAG over.
\<close>

section \<open>The monad\<close>

named_theorems sm_simps \<open>running the combinators\<close>

lemma sm_simps_basic [sm_simps]:
  "sm_return v s = (Value v, s)" "sm_then m k = sm_bind m (\<lambda>_. k)" "sm_get g s = (Value (g s), s)"
  "sm_modify f s = (Value (), f s)" "act a s = (Value (), s\<lparr>ss_actions := ss_actions s @ [a]\<rparr>)"
  "sm_throw e s = (Thrown e, s)" "sm_exit s = (Return, s)"
  by (simp_all add: sm_return_def sm_then_def sm_get_def sm_modify_def act_def sm_throw_def sm_exit_def)

lemma sm_bind_value [sm_simps]: "m s = (Value v, s') \<Longrightarrow> sm_bind m k s = k v s'"
  by (simp add: sm_bind_def)

text \<open>The actions that a computation adds to any state.\<close>

definition adds :: "('v, 'n) sm \<Rightarrow> ('v outcome \<Rightarrow> 'n action list \<Rightarrow> bool) \<Rightarrow> 'n submit_state \<Rightarrow> bool" where
  "adds m P s \<longleftrightarrow> (\<exists>r as s'. m s = (r, s') \<and> ss_actions s' = ss_actions s @ as \<and> P r as)"

lemma addsI: "m s = (r, s') \<Longrightarrow> ss_actions s' = ss_actions s @ as \<Longrightarrow> P r as \<Longrightarrow> adds m P s"
  by (auto simp: adds_def)

lemma adds_mono: "adds m P s \<Longrightarrow> (\<And>r as. P r as \<Longrightarrow> Q r as) \<Longrightarrow> adds m Q s"
  by (auto simp: adds_def)

lemma adds_simple:
  "P (Value v) [] \<Longrightarrow> adds (sm_return v) P s" "Q (Value ()) [a] \<Longrightarrow> adds (act a) Q s"
  "R (Thrown e) [] \<Longrightarrow> adds (sm_throw e) R s" "R Return [] \<Longrightarrow> adds sm_exit R s"
  "V (Value (g s)) [] \<Longrightarrow> adds (sm_get g) V s"
  by (auto simp: adds_def sm_simps)

lemma adds_bind:
  assumes "adds m P s"
    and "\<And>v as s'. m s = (Value v, s') \<Longrightarrow> P (Value v) as \<Longrightarrow> adds (k v) (\<lambda>r bs. Q r (as @ bs)) s'"
    and "\<And>r as. P r as \<Longrightarrow> r = Return \<Longrightarrow> Q Return as" "\<And>r as e. P r as \<Longrightarrow> r = Thrown e \<Longrightarrow> Q (Thrown e) as"
      "\<And>r as. P r as \<Longrightarrow> r = Null_deref \<Longrightarrow> Q Null_deref as"
  shows "adds (sm_bind m k) Q s"
proof -
  from assms(1) obtain r as s' where m: "m s = (r, s')" "ss_actions s' = ss_actions s @ as" "P r as" by (auto simp: adds_def)
  show ?thesis
  proof (cases r)
    case (Value v)
    with assms(2) [of v s' as] m show ?thesis by (force simp: adds_def sm_bind_def)
  qed (use m assms(3-5) [of r as] in \<open>auto simp: adds_def sm_bind_def\<close>)
qed

section \<open>Safety of the second phase\<close>

text \<open>A node is done when its last event says so.\<close>

definition done_ok :: "'n submit_env \<Rightarrow> 'n \<Rightarrow> bool" where
  "done_ok env n \<longleftrightarrow> env_node_status env n = Some Done \<and>
     (\<exists>events. env_node_events env n = Inr events \<and> is_last_done events Done_ok)"

text \<open>A node has not been started when it is still submitted; the processor takes a node for one that
  has not been started also when its events cannot be read.\<close>

definition startable :: "'n submit_env \<Rightarrow> 'n \<Rightarrow> bool" where
  "startable env n \<longleftrightarrow> env_node_status env n = Some Submitted \<or>
     env_node_status env n = Some Done \<and> env_node_events env n = Inl LB_QueryTemporarilyFailed"

definition colors_ok :: "'n submit_env \<Rightarrow> 'n set \<Rightarrow> 'n colors \<Rightarrow> bool" where
  "colors_ok env N col \<longleftrightarrow> (\<forall>n. col n = Green \<longrightarrow> done_ok env n) \<and> (\<forall>n\<in>N. col n = White \<longrightarrow> startable env n)"

definition no_submit :: "'n action list \<Rightarrow> bool" where
  "no_submit as \<longleftrightarrow> (\<forall>m. Queue_submit m \<notin> set as)"

lemma no_submit_simps [simp]: "no_submit []" "no_submit (as @ bs) = (no_submit as \<and> no_submit bs)"
  by (auto simp: no_submit_def)

lemma assess_node_colors:
  assumes "colors_ok env N col"
  shows "adds (assess_node env n col) (\<lambda>r as. no_submit as \<and> (\<forall>col'. r = Value col' \<longrightarrow> colors_ok env (insert n N) col')) s"
  using assms by (auto simp: assess_node_def adds_def sm_simps sm_bind_def colors_ok_def done_ok_def startable_def is_done_def
      is_submitted_def no_submit_def split: option.splits sum.splits query_failure.splits)

lemma assess_colors:
  "colors_ok env N col \<Longrightarrow>
    adds (assess env ns col) (\<lambda>r as. no_submit as \<and> (\<forall>col'. r = Value col' \<longrightarrow> colors_ok env (N \<union> set ns) col')) s"
proof (induction ns arbitrary: N col s)
  case Nil
  then show ?case by (simp add: adds_simple)
next
  case (Cons n ns)
  show ?case unfolding assess.simps
  proof (rule adds_bind [OF assess_node_colors [OF Cons(2)]])
    fix col' :: "'a colors" and as :: "'a action list" and s' assume "no_submit as \<and> (\<forall>col''. Value col' = Value col'' \<longrightarrow> colors_ok env (insert n N) col'')"
    with Cons(1) [of "insert n N" col' s'] show "adds (assess env ns col')
        (\<lambda>r bs. no_submit (as @ bs) \<and> (\<forall>col'. r = Value col' \<longrightarrow> colors_ok env (N \<union> set (n # ns)) col')) s'"
      by (auto elim!: adds_mono)
  qed auto
qed

lemma check_sources_green:
  "adds (check_sources env n srcs b col) (\<lambda>r as. no_submit as \<and> (\<forall>g col'. r = Value (g, col') \<longrightarrow>
     (col' = col \<or> col' = col(n := Red)) \<and> (g \<longrightarrow> b \<and> col' = col \<and> (\<forall>p\<in>set srcs. col p = Green)))) s"
proof (induction srcs arbitrary: b)
  case Nil
  then show ?case by (simp add: adds_simple)
next
  case (Cons p srcs)
  show ?case
  proof (cases "col p = Red")
    case True
    then show ?thesis by (auto simp: adds_def sm_simps sm_bind_def no_submit_def split: option.splits)
  next
    case False
    then have c: "col p \<noteq> White \<and> col p \<noteq> Gray \<longrightarrow> col p = Green" by (cases "col p") simp_all
    show ?thesis unfolding check_sources.simps if_not_P [OF False]
    proof (rule adds_mono [OF Cons])
      fix r as assume a: "no_submit as \<and> (\<forall>g col'. r = Value (g, col') \<longrightarrow> (col' = col \<or> col' = col(n := Red)) \<and>
        (g \<longrightarrow> (b \<and> col p \<noteq> White \<and> col p \<noteq> Gray) \<and> col' = col \<and> (\<forall>p\<in>set srcs. col p = Green)))"
      have a1: "no_submit as" using a by simp
      have a2: "col' = col \<or> col' = col(n := Red)" if "r = Value (g, col')" for g col' using a that by simp
      have a3: "b" "col' = col" "col p = Green" "\<forall>p\<in>set srcs. col p = Green" if "r = Value (g, col')" g for g col'
        using a that c by auto
      show "no_submit as \<and> (\<forall>g col'. r = Value (g, col') \<longrightarrow> (col' = col \<or> col' = col(n := Red)) \<and>
        (g \<longrightarrow> b \<and> col' = col \<and> (\<forall>p\<in>set (p # srcs). col p = Green)))"
        by (intro conjI allI impI a1) (erule a2, use a3 in simp_all)
    qed
  qed
qed

lemma try_queue_adds:
  "adds (try_queue env n) (\<lambda>r as. r = Value (as = [Queue_submit n]) \<and> (as = [] \<or> as = [Queue_submit n])) s"
  by (auto simp: try_queue_def queue_new_submit_request_def adds_def sm_simps split: option.splits)

text \<open>What one vertex may add: the node itself, when all its sources are green.\<close>

definition only_ready :: "'n submit_env \<Rightarrow> 'n set \<Rightarrow> 'n action list \<Rightarrow> bool" where
  "only_ready env N as \<longleftrightarrow> (\<forall>m. Queue_submit m \<in> set as \<longrightarrow> m \<in> N \<and> startable env m \<and> (\<forall>p\<in>set (in_edges (env_dag env) m). done_ok env p))"

lemma only_ready_append [simp]: "only_ready env N (as @ bs) \<longleftrightarrow> only_ready env N as \<and> only_ready env N bs" "only_ready env N []"
  by (auto simp: only_ready_def)

lemma colors_ok_paint: "colors_ok env N col \<Longrightarrow> c \<noteq> Green \<Longrightarrow> c \<noteq> White \<Longrightarrow> colors_ok env N (col(n := c))"
  by (auto simp: colors_ok_def)

lemma plan_node_ready:
  assumes c: "colors_ok env N col" and n: "n \<in> N"
  shows "adds (plan_node env n (b, col)) (\<lambda>r as. only_ready env N as \<and> (\<forall>b' col'. r = Value (b', col') \<longrightarrow> colors_ok env N col')) s"
proof (cases "col n")
  case White
  have st: "startable env n" using White c n by (simp add: colors_ok_def)
  show ?thesis
  proof (cases "in_edges (env_dag env) n = []")
    case True
    have "adds (sm_bind (try_queue env n) (\<lambda>queued. sm_return (False, col(n := if queued then Gray else Red))))
        (\<lambda>r as. only_ready env N as \<and> (\<forall>b' col'. r = Value (b', col') \<longrightarrow> colors_ok env N col')) s"
      by (rule adds_bind [OF try_queue_adds])
        (use True st n c in \<open>auto simp: only_ready_def intro!: adds_simple colors_ok_paint\<close>)
    with White True show ?thesis by (simp add: plan_node_def)
  next
    case False
    have "adds (sm_bind (check_sources env n (in_edges (env_dag env) n) True col) (\<lambda>(green, col).
        if green then sm_bind (try_queue env n) (\<lambda>queued. sm_return (False, if queued then col else col(n := Red)))
        else sm_return (False, col)))
        (\<lambda>r as. only_ready env N as \<and> (\<forall>b' col'. r = Value (b', col') \<longrightarrow> colors_ok env N col')) s"
    proof (rule adds_bind [OF check_sources_green])
      fix v :: "bool \<times> 'a colors" and as :: "'a action list" and s'
      assume v: "no_submit as \<and> (\<forall>g col'. Value v = Value (g, col') \<longrightarrow> (col' = col \<or> col' = col(n := Red)) \<and>
        (g \<longrightarrow> True \<and> col' = col \<and> (\<forall>p\<in>set (in_edges (env_dag env) n). col p = Green)))"
      obtain g col' where gc: "v = (g, col')" by force
      have co: "colors_ok env N col'" using v gc c colors_ok_paint [OF c] by auto
      have as: "only_ready env N as" using v by (simp add: only_ready_def no_submit_def)
      have dn: "g \<Longrightarrow> \<forall>p\<in>set (in_edges (env_dag env) n). done_ok env p" using v gc c by (auto simp: colors_ok_def)
      have "adds (sm_bind (try_queue env n) (\<lambda>queued. sm_return (False, if queued then col' else col'(n := Red))))
          (\<lambda>r bs. only_ready env N (as @ bs) \<and> (\<forall>b' col'. r = Value (b', col') \<longrightarrow> colors_ok env N col')) s'" if g
        by (rule adds_bind [OF try_queue_adds])
          (use that as dn st n co in \<open>auto simp: only_ready_def intro!: adds_simple colors_ok_paint\<close>)
      then show "adds ((\<lambda>(green, col). if green then sm_bind (try_queue env n) (\<lambda>queued. sm_return (False, if queued then col else col(n := Red)))
          else sm_return (False, col)) v) (\<lambda>r bs. only_ready env N (as @ bs) \<and> (\<forall>b' col'. r = Value (b', col') \<longrightarrow> colors_ok env N col')) s'"
        using gc as co by (auto intro: adds_simple)
    qed (auto simp: only_ready_def no_submit_def)
    with White False show ?thesis by (simp add: plan_node_def)
  qed
qed (use c in \<open>auto simp: plan_node_def intro!: adds_simple\<close>)

lemma plan_ready:
  "colors_ok env N (snd st) \<Longrightarrow> set ns \<subseteq> N \<Longrightarrow> adds (plan env ns st) (\<lambda>r as. only_ready env N as) s"
proof (induction ns arbitrary: st s)
  case Nil
  then show ?case by (simp add: adds_simple)
next
  case (Cons n ns)
  obtain b col where st: "st = (b, col)" by force
  show ?case unfolding plan.simps st
  proof (rule adds_bind [OF plan_node_ready])
    show "colors_ok env N col" "n \<in> N" using Cons(2,3) st by simp_all
    fix v :: "bool \<times> 'a colors" and as :: "'a action list" and s' assume "only_ready env N as \<and> (\<forall>b' col'. Value v = Value (b', col') \<longrightarrow> colors_ok env N col')"
    then show "adds (plan env ns v) (\<lambda>r bs. only_ready env N (as @ bs)) s'"
      using Cons(1) [of v s'] Cons(3) by (cases v) (auto elim!: adds_mono)
  qed auto
qed

section \<open>What the first phase computes\<close>

text \<open>The colour of a vertex by its status; \<open>old\<close> when the events cannot be read.\<close>

definition paint :: "'n submit_env \<Rightarrow> color \<Rightarrow> 'n \<Rightarrow> color" where
  "paint env old n = (case env_node_status env n of
     Some st \<Rightarrow> if st = Aborted \<or> st = Cancelled then Red
       else if st = Done then
         (case env_node_events env n of Inr events \<Rightarrow> if is_last_done events Done_ok then Green else Gray | Inl _ \<Rightarrow> old)
       else if st = Submitted then White else Gray
   | None \<Rightarrow> old)"

text \<open>The first phase runs to its end: every status is there and no query fails for good.\<close>

definition answered :: "'n submit_env \<Rightarrow> 'n \<Rightarrow> bool" where
  "answered env n \<longleftrightarrow> env_node_status env n \<noteq> None \<and>
     (env_node_status env n = Some Done \<longrightarrow> env_node_events env n \<noteq> Inl LB_QueryFailed)"

definition delayed :: "'n submit_env \<Rightarrow> 'n \<Rightarrow> bool" where
  "delayed env n \<longleftrightarrow> env_node_status env n = Some Done \<and> env_node_events env n = Inl LB_QueryTemporarilyFailed"

lemma assess_node_run:
  assumes "answered env n"
  shows "assess_node env n col s = (Value (col(n := paint env (col n) n)),
    s\<lparr>ss_actions := ss_actions s @ (if delayed env n then [Reschedule] else [])\<rparr>)"
  using assms by (auto simp: assess_node_def answered_def paint_def delayed_def sm_simps sm_bind_def is_done_def is_aborted_def
      is_cancelled_def is_submitted_def split: option.splits sum.splits query_failure.splits)

lemma paint_paint [simp]: "paint env (paint env c n) n = paint env c n"
  by (simp add: paint_def split: option.splits sum.splits)

lemma assess_run:
  "\<forall>n\<in>set ns. answered env n \<Longrightarrow>
    assess env ns col s = (Value (\<lambda>n. if n \<in> set ns then paint env (col n) n else col n),
      s\<lparr>ss_actions := ss_actions s @ map (\<lambda>_. Reschedule) (filter (delayed env) ns)\<rparr>)"
proof (induction ns arbitrary: col s)
  case Nil
  then show ?case by (simp add: sm_simps)
next
  case (Cons n ns)
  have c: "(\<lambda>m. if m \<in> set ns then paint env ((col(n := paint env (col n) n)) m) m else (col(n := paint env (col n) n)) m) =
      (\<lambda>m. if m \<in> set (n # ns) then paint env (col m) m else col m)" by (rule ext) simp
  have "assess env (n # ns) col s = assess env ns (col(n := paint env (col n) n))
      (s\<lparr>ss_actions := ss_actions s @ (if delayed env n then [Reschedule] else [])\<rparr>)"
    unfolding assess.simps by (rule sm_bind_value [OF assess_node_run]) (use Cons(2) in simp)
  also have "\<dots> = (Value (\<lambda>m. if m \<in> set (n # ns) then paint env (col m) m else col m),
      s\<lparr>ss_actions := ss_actions s @ map (\<lambda>_. Reschedule) (filter (delayed env) (n # ns))\<rparr>)"
    by (subst Cons(1)) (use Cons(2) in \<open>simp_all add: c del: fun_upd_apply\<close>)
  finally show ?case .
qed

section \<open>What the second phase computes\<close>

text \<open>Every context can be created.\<close>

definition contexts_ok :: "'n submit_env \<Rightarrow> bool" where
  "contexts_ok env \<longleftrightarrow> (\<forall>n. env_node_context env n = None)"

lemma try_queue_ok: "contexts_ok env \<Longrightarrow> try_queue env n s = (Value True, s\<lparr>ss_actions := ss_actions s @ [Queue_submit n]\<rparr>)"
  by (simp add: try_queue_def queue_new_submit_request_def contexts_ok_def sm_simps)

lemma check_sources_run:
  "contexts_ok env \<Longrightarrow> check_sources env n srcs b col s =
    (if Red \<in> col ` set srcs then (Value (False, col(n := Red)), s\<lparr>ss_actions := ss_actions s @ [Abort_node n]\<rparr>)
     else (Value (b \<and> (\<forall>p\<in>set srcs. col p = Green), col), s))"
proof (induction srcs arbitrary: b)
  case Nil
  then show ?case by (simp add: sm_simps)
next
  case (Cons p srcs)
  have "col p \<noteq> Red \<Longrightarrow> (col p \<noteq> White \<and> col p \<noteq> Gray) = (col p = Green)" by (cases "col p") simp_all
  with Cons show ?case by (auto simp: sm_simps contexts_ok_def sm_bind_def)
qed

text \<open>The three things that can happen to a white vertex.\<close>

lemma plan_node_run:
  assumes "contexts_ok env"
  shows "plan_node env n (b, col) s =
    (let srcs = set (in_edges (env_dag env) n) in
     if col n = White then
       if Red \<in> col ` srcs then (Value (False, col(n := Red)), s\<lparr>ss_actions := ss_actions s @ [Abort_node n]\<rparr>)
       else if \<forall>p\<in>srcs. col p = Green then
         (Value (False, if srcs = {} then col(n := Gray) else col), s\<lparr>ss_actions := ss_actions s @ [Queue_submit n]\<rparr>)
       else (Value (False, col), s)
     else (Value (b \<and> col n \<noteq> Gray, col), s))"
  using assms by (cases "col n") (auto simp: plan_node_def Let_def sm_bind_def try_queue_ok check_sources_run sm_simps)

end
