(* ===== verification/Wm_Lb_Props.thy ===== *)
theory Wm_Lb_Props
  imports Wm_Lb
begin

text \<open>
  Resubmissions are bounded: the counts that are read from the log and the limits that they
  are checked against fit together.
\<close>

section \<open>The last event of a kind\<close>

lemma find_last_none: "\<not> (\<exists>e\<in>set events. P e) \<Longrightarrow> find_last P events = length events"
  by (simp add: find_last_def)

lemma find_last_some: "P d \<Longrightarrow> \<not> (\<exists>e\<in>set ys. P e) \<Longrightarrow> find_last P (xs @ d # ys) = length xs"
  by (simp add: find_last_def dropWhile_append Let_def)

lemma retry_counts_none:
  "\<not> (\<exists>e\<in>set ys. is_deep_resubmission e) \<Longrightarrow> get_retry_counts ys = (0, length (filter is_shallow_resubmission ys))"
  by (auto simp: get_retry_counts_def find_last_none filter_empty_conv)

lemma retry_counts_some:
  assumes "is_deep_resubmission d" "\<not> (\<exists>e\<in>set ys. is_deep_resubmission e)"
  shows "get_retry_counts (xs @ d # ys) =
    (Suc (length (filter is_deep_resubmission xs)), length (filter is_shallow_resubmission ys))"
proof -
  have "\<not> is_shallow_resubmission d" using assms(1) by (auto simp: is_deep_resubmission_def is_shallow_resubmission_def split: lb_event.splits)
  moreover have "filter is_deep_resubmission ys = []" using assms(2) by (simp add: filter_empty_conv)
  ultimately show ?thesis using assms(1) by (simp add: get_retry_counts_def find_last_some [OF assms] Let_def)
qed

text \<open>A log either has no deep resubmission or splits at its last one.\<close>

lemma last_deep_cases:
  obtains "\<not> (\<exists>e\<in>set events. is_deep_resubmission e)"
  | xs d ys where "events = xs @ d # ys" "is_deep_resubmission d" "\<not> (\<exists>e\<in>set ys. is_deep_resubmission e)"
  using split_list_last_prop [of events is_deep_resubmission] by blast

lemma retry_counts_snoc:
  assumes "get_retry_counts events = (deep, shallow)"
  shows "is_deep_resubmission e \<Longrightarrow> get_retry_counts (events @ [e]) = (Suc deep, 0)"
    "is_shallow_resubmission e \<Longrightarrow> get_retry_counts (events @ [e]) = (deep, Suc shallow)"
    "\<not> is_deep_resubmission e \<Longrightarrow> \<not> is_shallow_resubmission e \<Longrightarrow> get_retry_counts (events @ [e]) = (deep, shallow)"
proof -
  have f: "length (filter is_deep_resubmission events) = deep" using assms by (simp add: get_retry_counts_def Let_def)
  then show "is_deep_resubmission e \<Longrightarrow> get_retry_counts (events @ [e]) = (Suc deep, 0)"
    using retry_counts_some [of e "[]" events] by simp
  have n: "\<not> is_deep_resubmission e" if "is_shallow_resubmission e"
    using that by (auto simp: is_deep_resubmission_def is_shallow_resubmission_def split: lb_event.splits)
  have "get_retry_counts (events @ [e]) = (deep, if is_shallow_resubmission e then Suc shallow else shallow)"
    if "\<not> is_deep_resubmission e"
  proof (rule last_deep_cases [of events])
    assume "\<not> (\<exists>e\<in>set events. is_deep_resubmission e)"
    then show ?thesis using that assms retry_counts_none [of events] retry_counts_none [of "events @ [e]"] by auto
  next
    fix xs d ys
    assume "events = xs @ d # ys" "is_deep_resubmission d" "\<not> (\<exists>e\<in>set ys. is_deep_resubmission e)"
    then show ?thesis using that assms retry_counts_some [of d ys xs] retry_counts_some [of d "ys @ [e]" xs] by auto
  qed
  with n show "is_shallow_resubmission e \<Longrightarrow> get_retry_counts (events @ [e]) = (deep, Suc shallow)"
    "\<not> is_deep_resubmission e \<Longrightarrow> \<not> is_shallow_resubmission e \<Longrightarrow> get_retry_counts (events @ [e]) = (deep, shallow)" by auto
qed

section \<open>Limits\<close>

definition retry_limit :: "int option \<Rightarrow> int \<Rightarrow> nat" where
  "retry_limit jdl_count max_count = nat (max 0 (min (case jdl_count of None \<Rightarrow> 0 | Some n \<Rightarrow> n) max_count))"

lemma check_deep_limit: "check_deep_count jc mc (int n) = Inr () \<longleftrightarrow> n < retry_limit jc mc"
  by (auto simp: check_deep_count_def retry_limit_def Let_def split: option.splits)

lemma check_shallow_limit: "check_shallow_count jc mc (int n) = Inr () \<longleftrightarrow> n < retry_limit jc mc"
  by (auto simp: check_shallow_count_def retry_limit_def Let_def split: option.splits)

end
