(* ===== verification/Wm_Submit_Props.thy ===== *)
theory Wm_Submit_Props
  imports Wm_Submit_Dag Wm_Lb_Props
begin

text \<open>
  The properties of the submission processor: DAGs, limbo, resubmissions.
\<close>

section \<open>Running the second phase\<close>

definition add_actions :: "'n action list \<Rightarrow> 'n submit_state \<Rightarrow> 'n submit_state" where
  "add_actions as s = s\<lparr>ss_actions := ss_actions s @ as\<rparr>"

lemma add_actions_simps [simp]:
  "ss_actions (add_actions as s) = ss_actions s @ as" "ss_checkpoint (add_actions as s) = ss_checkpoint s"
  "add_actions bs (add_actions as s) = add_actions (as @ bs) s" "add_actions [] s = s"
  by (simp_all add: add_actions_def)

text \<open>The second phase as a function of the colours, when every context can be created.\<close>

definition node_actions :: "'n submit_env \<Rightarrow> 'n colors \<Rightarrow> 'n \<Rightarrow> 'n action list" where
  "node_actions env col n = (let srcs = set (in_edges (env_dag env) n) in
     if col n \<noteq> White then [] else if Red \<in> col ` srcs then [Abort_node n]
     else if \<forall>p\<in>srcs. col p = Green then [Queue_submit n] else [])"

definition node_colors :: "'n submit_env \<Rightarrow> 'n colors \<Rightarrow> 'n \<Rightarrow> 'n colors" where
  "node_colors env col n = (let srcs = set (in_edges (env_dag env) n) in
     if col n \<noteq> White then col else if Red \<in> col ` srcs then col(n := Red)
     else if srcs = {} then col(n := Gray) else col)"

fun plan_actions :: "'n submit_env \<Rightarrow> 'n list \<Rightarrow> 'n colors \<Rightarrow> 'n action list" where
  "plan_actions env [] col = []"
| "plan_actions env (n # ns) col = node_actions env col n @ plan_actions env ns (node_colors env col n)"

fun plan_colors :: "'n submit_env \<Rightarrow> 'n list \<Rightarrow> 'n colors \<Rightarrow> 'n colors" where
  "plan_colors env [] col = col"
| "plan_colors env (n # ns) col = plan_colors env ns (node_colors env col n)"

lemma plan_node_step:
  assumes "contexts_ok env"
  shows "plan_node env n (b, col) s =
    (Value (b \<and> col n \<noteq> White \<and> col n \<noteq> Gray, node_colors env col n), add_actions (node_actions env col n) s)"
  unfolding plan_node_run [OF assms] Let_def node_colors_def node_actions_def add_actions_def by simp

lemma node_colors_done: "col n \<noteq> White \<Longrightarrow> node_colors env col n = col"
  by (simp add: node_colors_def)

lemma node_colors_other: "m \<noteq> n \<Longrightarrow> node_colors env col n m = col m"
  by (simp add: node_colors_def Let_def)

lemma node_quiet: "node_actions env col n = [] \<Longrightarrow> node_colors env col n = col"
  by (auto simp: node_colors_def node_actions_def Let_def split: if_splits)

lemma plan_run:
  assumes "contexts_ok env"
  shows "plan env ns (b, col) s =
    (Value (b \<and> (\<forall>n\<in>set ns. col n \<noteq> White \<and> col n \<noteq> Gray), plan_colors env ns col), add_actions (plan_actions env ns col) s)"
proof (induction ns arbitrary: b col s)
  case Nil
  show ?case by (simp add: sm_simps)
next
  case (Cons n ns)
  have "(\<forall>m\<in>set ns. node_colors env col n m \<noteq> White \<and> node_colors env col n m \<noteq> Gray) =
      (\<forall>m\<in>set ns. col m \<noteq> White \<and> col m \<noteq> Gray)" if "col n \<noteq> White"
    using that by (simp add: node_colors_done)
  then show ?case unfolding plan.simps sm_bind_value [OF plan_node_step [OF assms]] Cons by auto
qed

lemma node_colors_white: "node_colors env col n m = White \<Longrightarrow> col m = White"
  by (auto simp: node_colors_def Let_def split: if_splits)

lemma plan_actions_form:
  "a \<in> set (plan_actions env ns col) \<Longrightarrow> \<exists>n\<in>set ns. col n = White \<and> (a = Queue_submit n \<or> a = Abort_node n)"
proof (induction ns arbitrary: col)
  case (Cons n ns)
  from Cons.prems consider "a \<in> set (node_actions env col n)" | "a \<in> set (plan_actions env ns (node_colors env col n))" by auto
  then show ?case
  proof cases
    case 1
    then show ?thesis by (auto simp: node_actions_def Let_def split: if_splits)
  next
    case 2
    from Cons.IH [OF this] show ?thesis using node_colors_white by fastforce
  qed
qed simp

lemma plan_no_abort: "\<forall>n. col n \<noteq> Red \<Longrightarrow> Abort_node m \<notin> set (plan_actions env ns col)"
proof (induction ns arbitrary: col)
  case (Cons n ns)
  have r: "Red \<notin> col ` S" for S using Cons.prems by (metis imageE)
  have "\<forall>m. node_colors env col n m \<noteq> Red" using Cons.prems r by (simp add: node_colors_def Let_def)
  then have "Abort_node m \<notin> set (plan_actions env ns (node_colors env col n))" by (rule Cons.IH)
  moreover have "Abort_node m \<notin> set (node_actions env col n)" using r by (simp add: node_actions_def Let_def)
  ultimately show ?case by simp
qed simp

text \<open>A white vertex whose sources are all settled makes the phase act.\<close>

lemma plan_acts:
  assumes "n \<in> set ns" "col n = White" "\<forall>p\<in>set (in_edges (env_dag env) n). col p = Green \<or> col p = Red"
  shows "plan_actions env ns col \<noteq> []"
  using assms
proof (induction ns arbitrary: col)
  case (Cons m ns)
  let ?S = "set (in_edges (env_dag env) n)"
  have g: "col p = Green" if "Red \<notin> col ` ?S" "p \<in> ?S" for p
  proof -
    have "col p \<noteq> Red" using that by (metis imageI)
    then show ?thesis using bspec [OF Cons.prems(3) that(2)] by simp
  qed
  have acts: "node_actions env col n \<noteq> []"
  proof (cases "Red \<in> col ` ?S")
    case True
    then show ?thesis using Cons.prems(2) by (simp add: node_actions_def)
  next
    case False
    then have "\<forall>p\<in>?S. col p = Green" by (intro ballI g)
    with False Cons.prems(2) show ?thesis by (simp only: node_actions_def Let_def) simp
  qed
  show ?case
  proof (cases "m = n")
    case True
    then show ?thesis using acts by simp
  next
    case False
    then have "plan_actions env ns col \<noteq> []" by (intro Cons.IH) (use Cons.prems in simp_all)
    then show ?thesis using node_quiet [of env col m] by (cases "node_actions env col m = []") simp_all
  qed
qed simp

lemma plan_submits:
  assumes "n \<in> set ns" "col n = White" "in_edges (env_dag env) n = []"
  shows "Queue_submit n \<in> set (plan_actions env ns col)"
  using assms
proof (induction ns arbitrary: col)
  case (Cons m ns)
  show ?case
  proof (cases "m = n")
    case True
    then show ?thesis using Cons(3,4) by (simp add: node_actions_def)
  next
    case False
    then show ?thesis using Cons node_colors_other [of n m env col] by simp
  qed
qed simp

lemma plan_white_free: "\<forall>n\<in>set ns. col n \<noteq> White \<Longrightarrow> plan_actions env ns col = [] \<and> plan_colors env ns col = col"
  by (induction ns) (simp_all add: node_actions_def node_colors_def)

section \<open>A DAG as a whole\<close>

definition dag_colors :: "'n submit_env \<Rightarrow> 'n colors" where
  "dag_colors env n = (if n \<in> set (vertices (env_dag env)) then paint env White n else White)"

text \<open>What one call does when the first phase runs to its end.\<close>

lemma process_dag_run:
  assumes "\<forall>n\<in>set (vertices (env_dag env)). answered env n" "contexts_ok env"
  defines "V \<equiv> vertices (env_dag env)" and "c \<equiv> dag_colors env"
  shows "\<exists>s'. process_dag env s = (Value (), s') \<and>
    ss_actions s' = ss_actions s @ (if ss_checkpoint s = START then [Log_dag_running] else []) @
      map (\<lambda>_. Reschedule) (filter (delayed env) V) @ plan_actions env V c @
      [if \<exists>n\<in>set V. c n = White \<or> c n = Gray then Reschedule
       else if \<forall>n\<in>set V. c n = Green then Log_done_ok else Log_abort]"
proof -
  let ?pre = "if ss_checkpoint s = START then [Log_dag_running] else []"
  let ?s1 = "add_actions (?pre @ map (\<lambda>_. Reschedule) (filter (delayed env) V)) s"
  have w: "sm_when (ss_checkpoint s = START) (act Log_dag_running) s = (Value (), add_actions ?pre s)"
    by (simp add: sm_when_def sm_simps add_actions_def)
  have a: "assess env V (\<lambda>_. White) (add_actions ?pre s) = (Value c, ?s1)"
    using assess_run [OF assms(1), of "\<lambda>_. White" "add_actions ?pre s"] unfolding V_def c_def dag_colors_def [abs_def]
    by (simp add: add_actions_def)
  note p = plan_run [OF assms(2), of V True c ?s1]
  have "process_dag env s = (if \<not> (\<forall>n\<in>set V. c n \<noteq> White \<and> c n \<noteq> Gray) then
       sm_then (act Reschedule) (sm_modify (\<lambda>s. s\<lparr>ss_checkpoint := PENDING\<rparr>))
     else if \<forall>n\<in>set V. plan_colors env V c n = Green then act Log_done_ok
     else act Log_abort) (add_actions (plan_actions env V c) ?s1)"
    unfolding process_dag_def V_def [symmetric] by (simp add: sm_bind_def sm_then_def sm_get_def w a p del: add_actions_simps(3))
  moreover have "plan_colors env V c = c" if "\<forall>n\<in>set V. c n \<noteq> White \<and> c n \<noteq> Gray"
    using that plan_white_free [of V c env] by simp
  ultimately show ?thesis by (auto simp: sm_simps sm_bind_def)
qed

text \<open>The request passes the checks and is a DAG.\<close>

definition dag_request :: "'n submit_env \<Rightarrow> bool" where
  "dag_request env \<longleftrightarrow> env_proxy env = Valid_proxy \<and> \<not> is_request_expired env (env_ad env) \<and> jdl_type (env_ad env) = Dag"

lemma dag_processed:
  assumes "dag_request env" "\<forall>n\<in>set (vertices (env_dag env)). answered env n" "contexts_ok env"
  shows "\<exists>s'. SubmitProcessor env s = (Value (), s') \<and>
    ss_actions s' = ss_actions s @ (if ss_checkpoint s = START then [Log_dag_running] else []) @
      map (\<lambda>_. Reschedule) (filter (delayed env) (vertices (env_dag env))) @
      plan_actions env (vertices (env_dag env)) (dag_colors env) @
      [if \<exists>n\<in>set (vertices (env_dag env)). dag_colors env n = White \<or> dag_colors env n = Gray then Reschedule
       else if \<forall>n\<in>set (vertices (env_dag env)). dag_colors env n = Green then Log_done_ok else Log_abort]"
  using process_dag_run [OF assms(2,3), of s] assms(1) by (auto simp: SubmitProcessor_def dag_request_def process_job_def)

section \<open>A DAG to try them on\<close>

text \<open>\<open>c\<close> comes after \<open>a\<close> and \<open>b\<close>.\<close>

definition diamond :: "(string \<Rightarrow> job_status) \<Rightarrow> (string \<Rightarrow> query_failure + lb_event list) \<Rightarrow> string submit_env" where
  "diamond st ev = \<lparr>env_command = ''jobsubmit'', env_now = 10, env_created_at = 5, env_expiry_period = 100,
     env_proxy = Valid_proxy,
     env_ad = \<lparr>jdl_type = Dag, jdl_expiry_time = None, jdl_retry_count = Some 3, jdl_shallow_count = Some 1, jdl_replans_count = None\<rparr>,
     env_dag = \<lparr>vertices = [''c'', ''a'', ''b''], in_edges = (\<lambda>n. if n = ''c'' then [''a'', ''b''] else [])\<rparr>,
     env_node_status = st, env_node_events = ev, env_node_context = (\<lambda>_. None), env_collection = Inr [],
     env_status = Inr None, env_recovery_events = Inr [], env_interesting_events = Inr [], env_original_jdl = Inr None,
     env_max_retry_count = 5, env_max_shallow_count = 5, env_cancel_token = False, env_directory_error = False,
     env_rename_error = False, env_create_error = False, env_submit = None\<rparr>"

definition fresh_state :: "'n submit_state" where
  "fresh_state = \<lparr>ss_checkpoint = START, ss_collection_pending = [], ss_tokens = [], ss_actions = []\<rparr>"

lemma diamond_request [simp]: "dag_request (diamond st ev)" "contexts_ok (diamond st ev)"
  by (simp_all add: dag_request_def is_request_expired_def diamond_def contexts_ok_def)

section \<open>The properties\<close>

lemma only_readyI: "no_submit as \<Longrightarrow> only_ready env N as"
  by (simp add: only_ready_def no_submit_def)

lemma process_dag_ready: "adds (process_dag env) (\<lambda>r as. only_ready env (set (vertices (env_dag env))) as) s"
  unfolding process_dag_def sm_simps_basic(2)
  apply (rule adds_bind [where P = "\<lambda>r as. as = []"])
      apply (simp add: adds_simple)
     apply (rule adds_bind [where P = "\<lambda>r as. no_submit as"])
         apply (simp add: sm_when_def adds_def sm_simps no_submit_def)
        apply (rule adds_bind [OF assess_colors [where N = "{}"]])
            apply (simp add: colors_ok_def)
           apply (rule adds_bind [OF plan_ready [where N = "set (vertices (env_dag env))"]])
               apply simp
              apply simp
             apply (auto simp: only_readyI adds_def sm_simps sm_bind_def no_submit_def)
  done

text \<open>C10: a node of a DAG is queued only after the nodes it depends on have ended well. Whatever the
  services answer, every node that one call of the processor queues is a vertex that the LB has as
  submitted, or as done with events that cannot be read, and each source of its in-edges is done with
  a last event that says so.\<close>

theorem dag_submits_after_parents:
  assumes "jdl_type (env_ad env) = Dag" "ss_actions s = []" "SubmitProcessor env s = (r, s')"
  shows "\<forall>n. Queue_submit n \<in> set (ss_actions s') \<longrightarrow> n \<in> set (vertices (env_dag env)) \<and> startable env n \<and>
    (\<forall>p\<in>set (in_edges (env_dag env) n). done_ok env p)"
proof -
  have u: "no_submit (ss_actions (snd (unrecoverable msg s)))" for msg
    using assms(2) by (simp add: unrecoverable_def sm_simps no_submit_def)
  have h: "no_submit [handle e]" for e by (cases e rule: handle.cases) (simp_all add: no_submit_def)
  from process_dag_ready [of env s] obtain r1 s1 where p: "process_dag env s = (r1, s1)"
    "only_ready env (set (vertices (env_dag env))) (ss_actions s1)" using assms(2) by (auto simp: adds_def)
  have "only_ready env (set (vertices (env_dag env))) (ss_actions s')"
  proof (cases "env_proxy env = Valid_proxy \<and> \<not> is_request_expired env (env_ad env)")
    case True
    then show ?thesis
      using assms(1,3) p only_readyI [OF h] by (cases r1) (auto simp: SubmitProcessor_def process_job_def sm_simps)
  next
    case False
    then have "no_submit (ss_actions s')"
      using assms(3) u by (auto simp: SubmitProcessor_def split: proxy_state.splits if_splits) (metis snd_conv)+
    then show ?thesis by (rule only_readyI)
  qed
  then show ?thesis by (simp add: only_ready_def)
qed

theorem dag_submits_after_parents_witness:
  "Queue_submit ''c'' \<notin> set (ss_actions (snd (SubmitProcessor (diamond (\<lambda>n. Some Submitted) (\<lambda>_. Inr [])) fresh_state)))"
proof -
  let ?e = "diamond (\<lambda>n. Some Submitted) (\<lambda>_. Inr [])"
  have e: "jdl_type (env_ad ?e) = Dag" by (simp add: diamond_def)
  have f: "ss_actions fresh_state = []" by (simp add: fresh_state_def)
  have a: "''a'' \<in> set (in_edges (env_dag ?e) ''c'')" by (simp add: diamond_def)
  have d: "\<not> done_ok ?e ''a''" by (simp add: done_ok_def diamond_def)
  from dag_submits_after_parents [OF e f surjective_pairing] a d show ?thesis by blast
qed

section \<open>A DAG from its start to its end\<close>

text \<open>The LB when every node that was queued has ended: \<open>d n\<close> is \<open>None\<close> for a node that has not
  been queued, \<open>Some True\<close> for one that is done and \<open>Some False\<close> for one that was aborted.\<close>

definition lb_view :: "'n submit_env \<Rightarrow> ('n \<Rightarrow> bool option) \<Rightarrow> 'n submit_env" where
  "lb_view env d = env\<lparr>
     env_node_status := \<lambda>n. Some (case d n of None \<Rightarrow> Submitted | Some b \<Rightarrow> if b then Done else Aborted),
     env_node_events := \<lambda>n. Inr [Done_event Log_monitor Done_ok]\<rparr>"

text \<open>Between two calls the nodes that the first has queued run to their ends, \<open>ends\<close> telling
  which end well.\<close>

definition settle :: "('n \<Rightarrow> bool) \<Rightarrow> 'n action list \<Rightarrow> ('n \<Rightarrow> bool option) \<Rightarrow> 'n \<Rightarrow> bool option" where
  "settle ends as d n = (if Queue_submit n \<in> set as then Some (ends n)
     else if Abort_node n \<in> set as then Some False else d n)"

definition dag_call :: "'n submit_env \<Rightarrow> ('n \<Rightarrow> bool option) \<Rightarrow> 'n action list" where
  "dag_call env d = ss_actions (snd (SubmitProcessor (lb_view env d) fresh_state))"

fun rounds :: "'n submit_env \<Rightarrow> ('n \<Rightarrow> bool) \<Rightarrow> nat \<Rightarrow> ('n \<Rightarrow> bool option) \<Rightarrow> 'n \<Rightarrow> bool option" where
  "rounds env ends 0 d = d"
| "rounds env ends (Suc k) d = rounds env ends k (settle ends (dag_call env d) d)"

definition depends :: "'n dag \<Rightarrow> ('n \<times> 'n) set" where
  "depends g = {(p, n). n \<in> set (vertices g) \<and> p \<in> set (in_edges g n)}"

definition dag_ok :: "'n dag \<Rightarrow> bool" where
  "dag_ok g \<longleftrightarrow> acyclic (depends g) \<and> (\<forall>n\<in>set (vertices g). set (in_edges g n) \<subseteq> set (vertices g))"

lemma lb_view_simps [simp]:
  "env_dag (lb_view env d) = env_dag env" "dag_request (lb_view env d) = dag_request env"
  "contexts_ok (lb_view env d) = contexts_ok env" "answered (lb_view env d) n" "\<not> delayed (lb_view env d) n"
  by (simp_all add: lb_view_def dag_request_def is_request_expired_def contexts_ok_def answered_def delayed_def split: option.splits)

lemma paint_view [simp]: "paint (lb_view env d) c n = (case d n of None \<Rightarrow> White | Some b \<Rightarrow> if b then Green else Red)"
  by (simp add: paint_def lb_view_def is_last_done_def find_last_def is_done_event_def split: option.splits)

lemma view_colors:
  "dag_colors (lb_view env d) n = (if n \<in> set (vertices (env_dag env)) then case d n of None \<Rightarrow> White | Some b \<Rightarrow> if b then Green else Red else White)"
  by (simp add: dag_colors_def)

lemma view_color_iff:
  assumes "n \<in> set (vertices (env_dag env))"
  shows "dag_colors (lb_view env d) n = White \<longleftrightarrow> d n = None" "dag_colors (lb_view env d) n = Green \<longleftrightarrow> d n = Some True"
    "dag_colors (lb_view env d) n = Red \<longleftrightarrow> d n = Some False" "dag_colors (lb_view env d) n \<noteq> Gray"
  using assms by (simp_all add: view_colors split: option.split)

lemma dag_call_run:
  assumes "dag_request env" "contexts_ok env"
  shows "dag_call env d = Log_dag_running # plan_actions (lb_view env d) (vertices (env_dag env)) (dag_colors (lb_view env d)) @
    [if \<exists>n\<in>set (vertices (env_dag env)). d n = None then Reschedule
     else if \<forall>n\<in>set (vertices (env_dag env)). d n = Some True then Log_done_ok else Log_abort]"
proof -
  have g: "(\<exists>n\<in>set (vertices (env_dag env)). dag_colors (lb_view env d) n = White \<or> dag_colors (lb_view env d) n = Gray) =
      (\<exists>n\<in>set (vertices (env_dag env)). d n = None)"
    "(\<forall>n\<in>set (vertices (env_dag env)). dag_colors (lb_view env d) n = Green) = (\<forall>n\<in>set (vertices (env_dag env)). d n = Some True)"
    by (simp_all add: view_color_iff cong: bex_cong ball_cong)
  have "\<forall>n\<in>set (vertices (env_dag (lb_view env d))). answered (lb_view env d) n" by simp
  from dag_processed [OF _ this, of fresh_state] assms g show ?thesis
    by (auto simp: dag_call_def fresh_state_def)
qed

definition waiting_nodes :: "'n submit_env \<Rightarrow> ('n \<Rightarrow> bool option) \<Rightarrow> 'n set" where
  "waiting_nodes env d = {n \<in> set (vertices (env_dag env)). d n = None}"

text \<open>Among the nodes that have not been queued one has no other before it.\<close>

lemma first_waiting:
  assumes "dag_ok (env_dag env)" "waiting_nodes env d \<noteq> {}"
  shows "\<exists>n\<in>waiting_nodes env d. \<forall>p\<in>set (in_edges (env_dag env) n). p \<in> set (vertices (env_dag env)) \<and> d p \<noteq> None"
proof -
  let ?V = "set (vertices (env_dag env))"
  have sub: "depends (env_dag env) \<subseteq> ?V \<times> ?V" using assms(1) by (auto simp: depends_def dag_ok_def)
  have "finite (depends (env_dag env))" by (rule finite_subset [OF sub]) simp
  then have "wf (depends (env_dag env))" using assms(1) by (auto simp: dag_ok_def intro: finite_acyclic_wf)
  from wfE_min' [OF this assms(2)] obtain n
    where n: "n \<in> waiting_nodes env d" "\<And>p. (p, n) \<in> depends (env_dag env) \<Longrightarrow> p \<notin> waiting_nodes env d" by blast
  have "p \<in> ?V \<and> d p \<noteq> None" if "p \<in> set (in_edges (env_dag env) n)" for p
    using n that assms(1) by (auto simp: depends_def dag_ok_def waiting_nodes_def)
  with n(1) show ?thesis by blast
qed

lemma dag_call_acts:
  assumes "dag_request env" "contexts_ok env" "dag_ok (env_dag env)" "waiting_nodes env d \<noteq> {}"
  shows "\<exists>n\<in>waiting_nodes env d. Queue_submit n \<in> set (dag_call env d) \<or> Abort_node n \<in> set (dag_call env d)"
proof -
  let ?V = "vertices (env_dag env)" and ?c = "dag_colors (lb_view env d)"
  from first_waiting [OF assms(3,4)] obtain n where n: "n \<in> waiting_nodes env d"
    "\<forall>p\<in>set (in_edges (env_dag env) n). p \<in> set ?V \<and> d p \<noteq> None" by blast
  have "?c p = Green \<or> ?c p = Red" if "p \<in> set (in_edges (env_dag env) n)" for p
    using bspec [OF n(2) that] view_color_iff [of p env d] by auto
  then have "plan_actions (lb_view env d) ?V ?c \<noteq> []"
    by (intro plan_acts [of n]) (use n(1) in \<open>simp_all add: waiting_nodes_def view_colors\<close>)
  then obtain a where a: "a \<in> set (plan_actions (lb_view env d) ?V ?c)" using last_in_set by blast
  from plan_actions_form [OF this] obtain m where m: "m \<in> set ?V" "?c m = White" "a = Queue_submit m \<or> a = Abort_node m" by blast
  then have "m \<in> waiting_nodes env d" by (auto simp: waiting_nodes_def view_colors split: option.splits if_splits)
  with a m(3) show ?thesis by (auto simp: dag_call_run [OF assms(1,2)])
qed

lemma settle_waiting: "waiting_nodes env (settle ends as d) \<subseteq> waiting_nodes env d"
  by (auto simp: waiting_nodes_def settle_def split: if_splits)

lemma rounds_waiting:
  assumes "dag_request env" "contexts_ok env" "dag_ok (env_dag env)"
  shows "card (waiting_nodes env d) \<le> k \<Longrightarrow> waiting_nodes env (rounds env ends k d) = {}"
proof (induction k arbitrary: d)
  case 0
  then show ?case by (simp add: waiting_nodes_def)
next
  case (Suc k)
  let ?d = "settle ends (dag_call env d) d"
  have fin: "finite (waiting_nodes env d)" by (simp add: waiting_nodes_def)
  have "card (waiting_nodes env ?d) \<le> k"
  proof (cases "waiting_nodes env d = {}")
    case True
    then show ?thesis using settle_waiting [of env ends "dag_call env d" d] by simp
  next
    case False
    from dag_call_acts [OF assms False] obtain n where n: "n \<in> waiting_nodes env d"
      "Queue_submit n \<in> set (dag_call env d) \<or> Abort_node n \<in> set (dag_call env d)" by blast
    then have "n \<notin> waiting_nodes env ?d" by (auto simp: waiting_nodes_def settle_def)
    with n(1) settle_waiting [of env ends "dag_call env d" d] have "waiting_nodes env ?d \<subset> waiting_nodes env d" by blast
    from psubset_card_mono [OF fin this] Suc.prems show ?thesis by simp
  qed
  from Suc.IH [OF this] show ?case by simp
qed

text \<open>What is known of the nodes that have ended.\<close>

lemma rounds_true: "\<forall>n. d n = Some True \<longrightarrow> ends n \<Longrightarrow> rounds env ends k d n = Some True \<Longrightarrow> ends n"
proof (induction k arbitrary: d)
  case (Suc k)
  have "\<forall>n. settle ends (dag_call env d) d n = Some True \<longrightarrow> ends n" using Suc.prems(1) by (auto simp: settle_def)
  from Suc.IH [OF this] Suc.prems(2) show ?case by simp
qed simp

lemma rounds_false:
  assumes "dag_request env" "contexts_ok env" "\<forall>n\<in>set (vertices (env_dag env)). ends n"
  shows "\<forall>n\<in>set (vertices (env_dag env)). d n \<noteq> Some False \<Longrightarrow> n \<in> set (vertices (env_dag env)) \<Longrightarrow>
    rounds env ends k d n \<noteq> Some False"
proof (induction k arbitrary: d)
  case (Suc k)
  have "\<forall>m. dag_colors (lb_view env d) m \<noteq> Red" using Suc.prems(1) by (auto simp: view_colors split: option.splits)
  from plan_no_abort [OF this] have a: "Abort_node m \<notin> set (dag_call env d)" for m by (simp add: dag_call_run [OF assms(1,2)])
  have "\<forall>m\<in>set (vertices (env_dag env)). settle ends (dag_call env d) d m \<noteq> Some False"
    using Suc.prems(1) assms(3) a by (simp add: settle_def)
  from Suc.IH [OF this Suc.prems(2)] show ?case by simp
qed simp

text \<open>C11: a DAG comes to its end. When the proxy is valid, the request is not expired, the dependencies have no cycle, the contexts can be created
  and each node that a call queues has ended before the next call, then after as many calls as there
  are nodes, each from the checkpoint \<open>START\<close> and at the same time, the next call does not schedule the request again: it logs the DAG as done when every node
  ends well, and as aborted otherwise.\<close>

theorem dag_completes:
  assumes "dag_request env" "contexts_ok env" "dag_ok (env_dag env)"
  shows "dag_call env (rounds env ends (length (vertices (env_dag env))) (\<lambda>_. None)) =
    [Log_dag_running, if \<forall>n\<in>set (vertices (env_dag env)). ends n then Log_done_ok else Log_abort]"
proof -
  let ?V = "set (vertices (env_dag env))"
  define d where "d = rounds env ends (length (vertices (env_dag env))) (\<lambda>_. None)"
  have "card (waiting_nodes env (\<lambda>_. None)) \<le> length (vertices (env_dag env))" by (simp add: waiting_nodes_def card_length)
  from rounds_waiting [OF assms this, of ends] have all: "\<forall>n\<in>?V. d n \<noteq> None" by (auto simp: d_def waiting_nodes_def)
  have t: "d n = Some True \<Longrightarrow> ends n" for n using rounds_true [of "\<lambda>_. None" ends env] by (simp add: d_def)
  have f: "\<forall>n\<in>?V. d n \<noteq> Some False" if "\<forall>n\<in>?V. ends n" using rounds_false [OF assms(1,2) that, of "\<lambda>_. None"] by (simp add: d_def)
  have "(\<forall>n\<in>?V. d n = Some True) = (\<forall>n\<in>?V. ends n)" using all t f by (metis (full_types) option.exhaust)
  moreover have "plan_actions (lb_view env d) (vertices (env_dag env)) (dag_colors (lb_view env d)) = []"
    using all by (intro conjunct1 [OF plan_white_free]) (auto simp: view_colors split: option.splits)
  moreover have "\<not> (\<exists>n\<in>?V. d n = None)" using all by blast
  ultimately show ?thesis unfolding d_def [symmetric] dag_call_run [OF assms(1,2)] by (simp only: if_False append_Nil)
qed

theorem dag_completes_witness:
  "dag_call (diamond (\<lambda>_. None) (\<lambda>_. Inr [])) (rounds (diamond (\<lambda>_. None) (\<lambda>_. Inr [])) (\<lambda>n. n \<noteq> ''b'') 3 (\<lambda>_. None)) =
    [Log_dag_running, Log_abort]"
proof -
  let ?e = "diamond (\<lambda>_. None) (\<lambda>_. Inr [])"
  have v: "vertices (env_dag ?e) = [''c'', ''a'', ''b'']" by (simp add: diamond_def)
  have "depends (env_dag ?e) = {(''a'', ''c''), (''b'', ''c'')}" by (auto simp: depends_def diamond_def split: if_splits)
  then have "acyclic (depends (env_dag ?e))" by (auto simp: acyclic_insert rtrancl_insert wf_acyclic)
  then have "dag_ok (env_dag ?e)" by (simp add: dag_ok_def) (auto simp: diamond_def)
  from dag_completes [OF diamond_request this, of "\<lambda>n. n \<noteq> ''b''"] show ?thesis by (simp add: v numeral_3_eq_3)
qed

section \<open>A node whose events cannot be read\<close>

text \<open>A node that is done is queued once more when the LB fails to give its events for the time
  being. The node keeps the colour of a node that has not been started, so that one without sources is
  submitted again, and the request itself is scheduled twice: once for the failure and once for the DAG
  that is not completed.\<close>

theorem dag_resubmits_done:
  assumes "dag_request env" "contexts_ok env" "\<forall>n\<in>set (vertices (env_dag env)). answered env n"
    and "n \<in> set (vertices (env_dag env))" "in_edges (env_dag env) n = []"
    and "env_node_status env n = Some Done" "env_node_events env n = Inl LB_QueryTemporarilyFailed"
  shows "Queue_submit n \<in> set (ss_actions (snd (SubmitProcessor env s))) \<and>
    length (filter (\<lambda>a. a = Reschedule) (ss_actions (snd (SubmitProcessor env s)))) \<ge>
      length (filter (\<lambda>a. a = Reschedule) (ss_actions s)) + 2"
proof -
  let ?V = "vertices (env_dag env)" and ?R = "\<lambda>as. length (filter (\<lambda>a. a = Reschedule) as)"
  have d: "delayed env n" using assms(6,7) by (simp add: delayed_def)
  have w: "dag_colors env n = White" using assms(4,6,7) by (simp add: dag_colors_def paint_def)
  have e: "(\<exists>n\<in>set ?V. dag_colors env n = White \<or> dag_colors env n = Gray) = True" using w assms(4) by blast
  from dag_processed [OF assms(1,3,2), of s] obtain s' where r: "SubmitProcessor env s = (Value (), s')"
    and a: "ss_actions s' = ss_actions s @ (if ss_checkpoint s = START then [Log_dag_running] else []) @
      map (\<lambda>_. Reschedule) (filter (delayed env) ?V) @ plan_actions env ?V (dag_colors env) @ [Reschedule]"
    unfolding e by auto
  have q: "Queue_submit n \<in> set (plan_actions env ?V (dag_colors env))" using assms(4,5) w by (simp add: plan_submits)
  have "filter (delayed env) ?V \<noteq> []" using d assms(4) by (auto simp: filter_empty_conv)
  then have l: "length (filter (delayed env) ?V) \<ge> 1" by (simp add: Suc_leI)
  have "?R (map (\<lambda>_. Reschedule) xs) = length xs" for xs :: "'a list" by (induction xs) simp_all
  with q l show ?thesis by (simp add: r a)
qed

theorem dag_resubmits_done_witness:
  "Queue_submit ''a'' \<in> set (ss_actions (snd (SubmitProcessor
     (diamond (\<lambda>n. if n = ''a'' then Some Done else Some Submitted) (\<lambda>_. Inl LB_QueryTemporarilyFailed)) fresh_state)))"
proof -
  let ?e = "diamond (\<lambda>n. if n = ''a'' then Some Done else Some Submitted) (\<lambda>_. Inl LB_QueryTemporarilyFailed)"
  have "\<forall>n\<in>set (vertices (env_dag ?e)). answered ?e n" by (simp add: answered_def diamond_def)
  moreover have "''a'' \<in> set (vertices (env_dag ?e))" "in_edges (env_dag ?e) ''a'' = []"
    "env_node_status ?e ''a'' = Some Done" "env_node_events ?e ''a'' = Inl LB_QueryTemporarilyFailed"
    by (simp_all add: diamond_def)
  ultimately show ?thesis using dag_resubmits_done [OF diamond_request] by blast
qed

end
