(* ===== verification/Wm_Resubmit_Props.thy ===== *)
theory Wm_Resubmit_Props
  imports Wm_Submit_Props
begin

text \<open>
  The properties of the processing of single jobs: limbo, the limits on resubmissions, the token that
  tells a shallow resubmission from a deep one.
\<close>

section \<open>Which actions a computation may add\<close>

definition acts_only :: "('n action \<Rightarrow> bool) \<Rightarrow> ('v, 'n) sm \<Rightarrow> bool" where
  "acts_only P m \<longleftrightarrow> (\<forall>s. adds m (\<lambda>r as. \<forall>a\<in>set as. P a) s)"

lemma acts_only_bind: "acts_only P m \<Longrightarrow> (\<And>v. acts_only P (k v)) \<Longrightarrow> acts_only P (sm_bind m k)"
  unfolding acts_only_def
proof
  fix s :: "'a submit_state"
  assume m: "\<forall>s. adds m (\<lambda>r as. \<forall>a\<in>set as. P a) s" and k: "\<And>v. \<forall>s. adds (k v) (\<lambda>r as. \<forall>a\<in>set as. P a) s"
  show "adds (sm_bind m k) (\<lambda>r as. \<forall>a\<in>set as. P a) s"
  proof (rule adds_bind [OF spec [OF m]])
    fix v s' and as :: "'a action list"
    assume "\<forall>a\<in>set as. P a"
    then show "adds (k v) (\<lambda>r bs. \<forall>a\<in>set (as @ bs). P a) s'" by (intro adds_mono [OF spec [OF k]]) auto
  qed auto
qed

lemma acts_only_basic:
  "acts_only P (sm_return v)" "acts_only P (sm_throw e)" "acts_only P sm_exit" "acts_only P (sm_get g)"
  "P a \<Longrightarrow> acts_only P (act a)"
  by (simp_all add: acts_only_def adds_simple)

lemma acts_only_modify: "(\<And>s. ss_actions (f s) = ss_actions s) \<Longrightarrow> acts_only P (sm_modify f)"
  by (auto simp: acts_only_def adds_def sm_simps)

lemma acts_only_then: "acts_only P m \<Longrightarrow> acts_only P k \<Longrightarrow> acts_only P (sm_then m k)"
  by (simp add: sm_then_def acts_only_bind)

lemma acts_only_if: "(b \<Longrightarrow> acts_only P m) \<Longrightarrow> (\<not> b \<Longrightarrow> acts_only P k) \<Longrightarrow> acts_only P (if b then m else k)"
  by simp

lemma acts_only_when: "acts_only P m \<Longrightarrow> acts_only P (sm_when b m)"
  by (simp add: sm_when_def acts_only_basic)

lemma acts_only_answer: "acts_only P (answer r)" "acts_only P (query q)" "acts_only P (checked h)" "acts_only P (has_token t)"
  by (simp_all add: answer_def query_def checked_def has_token_def acts_only_basic split: sum.split)

lemma acts_only_tokens: "acts_only P (rename_token old new)" "acts_only P (create_token env t)"
  by (simp_all add: rename_token_def create_token_def acts_only_basic acts_only_modify)

lemmas acts_only_intros = acts_only_bind acts_only_then acts_only_when acts_only_if acts_only_basic acts_only_answer acts_only_tokens

lemma acts_only_find_tokens: "P (Unrecoverable ''at least two shallow resubmit tokens are present at the same time!'') \<Longrightarrow> acts_only P (find_tokens ts t)"
  by (induction ts arbitrary: t) (auto intro!: acts_only_intros simp: unrecoverable_def split: option.split)

lemma acts_only_check_limbo: "P (Postpone '' waiting in limbo'') \<Longrightarrow> acts_only P (check_limbo env)"
  by (auto simp: check_limbo_def postpone_def intro!: acts_only_intros acts_only_modify split: sum.split query_failure.split)

lemma acts_only_retrieve_job: "acts_only P (retrieve_job env)"
  by (auto simp: retrieve_job_def intro!: acts_only_intros split: option.split)

lemma acts_only_submit_token: "acts_only P (submit_token env ad n)"
  by (auto simp: submit_token_def Let_def intro!: acts_only_intros)

lemma acts_only_publish_token: "acts_only P (publish_token env n)"
  by (auto simp: publish_token_def intro!: acts_only_intros)

section \<open>Resubmissions of one call\<close>

fun resubs :: "'n action list \<Rightarrow> resubmission list" where
  "resubs [] = []"
| "resubs (Log_resubmission r # as) = r # resubs as"
| "resubs (_ # as) = resubs as"

lemma resubs_append [simp]: "resubs (as @ bs) = resubs as @ resubs bs"
  by (induction as rule: resubs.induct) simp_all

definition no_resub :: "'n action \<Rightarrow> bool" where
  "no_resub a \<longleftrightarrow> resubs [a] = []"

lemma no_resub_simps [simp]: "no_resub (Postpone m)" "no_resub (Unrecoverable m)" "no_resub (Deliver b)" "no_resub Log_cancelled"
  "no_resub Purge" "no_resub Unlink_maradona"
  by (simp_all add: no_resub_def)

lemma no_resub_list: "\<forall>a\<in>set as. no_resub a \<Longrightarrow> resubs as = []"
proof (induction as)
  case (Cons a as)
  have "resubs (a # as) = resubs [a] @ resubs as" using resubs_append [of "[a]" as] by simp
  with Cons show ?case by (simp add: no_resub_def)
qed simp

text \<open>At most one resubmission is logged, and only below its limit.\<close>

definition within_limits :: "'n submit_env \<Rightarrow> job_ad \<Rightarrow> nat \<Rightarrow> nat \<Rightarrow> resubmission list \<Rightarrow> bool" where
  "within_limits env ad deep shallow rs \<longleftrightarrow> rs = [] \<or>
     rs = [Will_resub] \<and> deep < retry_limit (jdl_retry_count ad) (env_max_retry_count env) \<or>
     rs = [Shallow] \<and> shallow < retry_limit (jdl_shallow_count ad) (env_max_shallow_count env)"

definition limited :: "'n submit_env \<Rightarrow> job_ad \<Rightarrow> nat \<Rightarrow> nat \<Rightarrow> ('v, 'n) sm \<Rightarrow> bool" where
  "limited env ad deep shallow m \<longleftrightarrow> (\<forall>s. adds m (\<lambda>r as. within_limits env ad deep shallow (resubs as)) s)"

lemma limited_quiet: "acts_only no_resub m \<Longrightarrow> limited env ad deep shallow m"
  by (auto simp: acts_only_def limited_def within_limits_def elim!: adds_mono dest!: no_resub_list)

lemma limited_bind:
  assumes "acts_only no_resub m" "\<And>v. limited env ad deep shallow (k v)"
  shows "limited env ad deep shallow (sm_bind m k)"
  unfolding limited_def
proof
  fix s
  show "adds (sm_bind m k) (\<lambda>r as. within_limits env ad deep shallow (resubs as)) s"
  proof (rule adds_bind [where P = "\<lambda>r as. resubs as = []"])
    show "adds m (\<lambda>r as. resubs as = []) s" using assms(1) by (auto simp: acts_only_def elim!: adds_mono dest!: no_resub_list)
  qed (use assms(2) in \<open>auto simp: limited_def within_limits_def elim!: adds_mono\<close>)
qed

lemma limited_end:
  fixes env :: "'n submit_env"
  assumes "limited env ad deep shallow m" "\<And>v. acts_only no_resub (k v)"
  shows "limited env ad deep shallow (sm_bind m k)"
  unfolding limited_def
proof
  fix s :: "'n submit_state"
  show "adds (sm_bind m k) (\<lambda>r as. within_limits env ad deep shallow (resubs as)) s"
  proof (rule adds_bind [where P = "\<lambda>r as. within_limits env ad deep shallow (resubs as)"])
    show "adds m (\<lambda>r as. within_limits env ad deep shallow (resubs as)) s" using assms(1) by (simp add: limited_def)
    fix v s' and as :: "'n action list" assume w: "within_limits env ad deep shallow (resubs as)"
    have "adds (k v) (\<lambda>r bs. \<forall>a\<in>set bs. no_resub a) s'" using assms(2) by (simp add: acts_only_def)
    then show "adds (k v) (\<lambda>r bs. within_limits env ad deep shallow (resubs (as @ bs))) s'"
      by (rule adds_mono) (use w no_resub_list in fastforce)
  qed auto
qed

section \<open>The limits on one call\<close>

lemma limited_resubmit_token:
  assumes "jdl_retry_count ad' = jdl_retry_count ad" "jdl_shallow_count ad' = jdl_shallow_count ad"
  shows "limited env ad deep shallow (resubmit_token env ad' deep shallow replans)"
proof -
  have one: "limited env ad deep shallow (sm_bind (checked (check_deep_count (jdl_retry_count ad) (env_max_retry_count env) (int deep))) (\<lambda>_. act (Log_resubmission Will_resub)))"
    "limited env ad deep shallow (sm_bind (checked (check_shallow_count (jdl_shallow_count ad) (env_max_shallow_count env) (int shallow))) (\<lambda>_. act (Log_resubmission Shallow)))"
    using check_deep_limit [of "jdl_retry_count ad" "env_max_retry_count env" deep]
      check_shallow_limit [of "jdl_shallow_count ad" "env_max_shallow_count env" shallow]
    by (auto simp: limited_def adds_def checked_def sm_simps sm_bind_def within_limits_def split: sum.split)
  have assoc: "sm_bind m (\<lambda>_. sm_bind k (\<lambda>_. l)) = sm_bind (sm_bind m (\<lambda>_. k)) (\<lambda>_. l)" for m k :: "(unit, 'a) sm" and l :: "(unit, 'a) sm"
    by (auto simp: sm_bind_def fun_eq_iff split: outcome.split prod.split)
  have deep_end: "limited env ad deep shallow (sm_bind (checked (check_deep_count (jdl_retry_count ad) (env_max_retry_count env) (int deep)))
      (\<lambda>_. sm_bind (act (Log_resubmission Will_resub)) (\<lambda>_. create_token env t)))" for t
    unfolding assoc by (rule limited_end [OF one(1)]) (rule acts_only_tokens)
  show ?thesis
  proof (cases "shallow_resubmission_is_enabled (jdl_shallow_count ad)")
    case True
    then have e: "shallow_resubmission_is_enabled (jdl_shallow_count ad) = True" by simp
    show ?thesis unfolding resubmit_token_def assms sm_simps_basic(2) e if_True
      apply (rule limited_bind, rule acts_only_answer)
      apply (rule limited_bind, intro acts_only_intros)
      apply (rule limited_bind, rule acts_only_answer)
      using one(2) deep_end by simp
  next
    case False
    then show ?thesis unfolding resubmit_token_def assms sm_simps_basic(2) using one(1) by simp
  qed
qed

lemma limited_deliver: "limited env ad deep shallow (deliver env ad deep shallow)"
proof (cases "env_directory_error env")
  case True
  then show ?thesis by (simp add: deliver_def limited_quiet acts_only_basic)
next
  case False
  then have e: "env_directory_error env = False" by simp
  have s: "acts_only no_resub (if b then submit_token env a n else sm_return False)" for b a n
    by (intro acts_only_intros acts_only_submit_token)
  show ?thesis unfolding deliver_def sm_simps_basic(2) e if_False Let_def
    apply (rule limited_bind, rule acts_only_basic)
    apply (rule limited_bind, rule acts_only_find_tokens, simp)
    apply (rule limited_end)
     apply (auto simp: sm_when_def limited_quiet acts_only_basic intro!: limited_resubmit_token split: option.split) [1]
    apply (intro acts_only_bind s acts_only_when acts_only_publish_token acts_only_basic no_resub_simps)
    apply (auto simp: acts_only_basic split: option.split)
    done
qed

lemma limited_process_single:
  assumes "env_command env = ''jobresubmit''" "env_interesting_events env = Inr events" "env_original_jdl env = Inr (Some ad)"
    and "get_retry_counts events = (deep, shallow)"
  shows "limited env ad deep shallow (process_single env)"
proof -
  have r: "retrieve_job env = sm_return (ad, deep, shallow)"
    using assms by (simp add: retrieve_job_def query_def answer_def sm_simps fun_eq_iff)
  have b: "sm_bind (sm_return v) k = k v" for v :: "'v" and k :: "'v \<Rightarrow> ('w, 'a) sm" by (simp add: fun_eq_iff sm_simps)
  show ?thesis unfolding process_single_def sm_simps_basic(2) r b prod.case
    by (rule limited_bind [OF acts_only_check_limbo]) (auto intro!: limited_deliver limited_quiet acts_only_intros)
qed

text \<open>One call on the request of a resubmission.\<close>

lemma resubmission_limited:
  fixes env :: "'n submit_env"
  assumes "env_command env = ''jobresubmit''" "env_interesting_events env = Inr events" "env_original_jdl env = Inr (Some ad)"
    and "get_retry_counts events = (deep, shallow)" "jdl_type (env_ad env) = Single"
    and "SubmitProcessor env s = (r, s')" "ss_actions s' = ss_actions s @ as"
  shows "within_limits env ad deep shallow (resubs as)"
proof -
  have "adds (process_single env) (\<lambda>r as. within_limits env ad deep shallow (resubs as)) s"
    using limited_process_single [OF assms(1-4)] by (simp add: limited_def)
  then obtain r1 s1 bs where p: "process_single env s = (r1, s1)"
    "ss_actions s1 = ss_actions s @ bs" "within_limits env ad deep shallow (resubs bs)" unfolding adds_def by blast
  have h: "resubs [handle e :: 'n action] = []" for e by (cases e rule: handle.cases) simp_all
  have n: "within_limits env ad deep shallow []" by (simp add: within_limits_def)
  show ?thesis
  proof (cases "env_proxy env = Valid_proxy \<and> \<not> is_request_expired env (env_ad env)")
    case True
    then show ?thesis using assms(5-7) p h
      by (cases r1) (auto simp: SubmitProcessor_def process_job_def sm_simps)
  next
    case False
    then show ?thesis using assms(6,7) n
      by (auto simp: SubmitProcessor_def unrecoverable_def sm_simps split: proxy_state.splits if_splits)
  qed
qed

section \<open>The life of a job\<close>

text \<open>The log of a job: events of other kinds, and what the calls on its resubmissions log. The JDL and
  the configuration stay the same; all else may change from call to call.\<close>

inductive job_log :: "'n itself \<Rightarrow> job_ad \<Rightarrow> int \<Rightarrow> int \<Rightarrow> lb_event list \<Rightarrow> bool" for T :: "'n itself" and ad max_deep max_shallow where
  start: "job_log T ad max_deep max_shallow []"
| other: "job_log T ad max_deep max_shallow events \<Longrightarrow> \<not> is_deep_resubmission e \<Longrightarrow> \<not> is_shallow_resubmission e \<Longrightarrow>
    job_log T ad max_deep max_shallow (events @ [e])"
| resubmit: "job_log T ad max_deep max_shallow events \<Longrightarrow>
    env_command env = ''jobresubmit'' \<Longrightarrow> jdl_type (env_ad env) = Single \<Longrightarrow> env_interesting_events env = Inr events \<Longrightarrow>
    env_original_jdl env = Inr (Some ad) \<Longrightarrow> env_max_retry_count env = max_deep \<Longrightarrow> env_max_shallow_count env = max_shallow \<Longrightarrow>
    SubmitProcessor env s = (r, s' :: 'n submit_state) \<Longrightarrow> ss_actions s' = ss_actions s @ as \<Longrightarrow>
    job_log T ad max_deep max_shallow (events @ map (Resubmission_event Workload_manager) (resubs as))"

definition resubmissions :: "lb_event list \<Rightarrow> nat" where
  "resubmissions events = length (filter (\<lambda>e. is_deep_resubmission e \<or> is_shallow_resubmission e) events)"

lemma resubmissions_simps [simp]:
  "resubmissions [] = 0" "resubmissions (xs @ ys) = resubmissions xs + resubmissions ys"
  "resubmissions [e] = (if is_deep_resubmission e \<or> is_shallow_resubmission e then 1 else 0)"
  by (simp_all add: resubmissions_def)

lemma resub_event_simps [simp]:
  "is_deep_resubmission (Resubmission_event w Will_resub)" "is_shallow_resubmission (Resubmission_event w Shallow)"
  "\<not> is_deep_resubmission (Resubmission_event w Shallow)"
  by (simp_all add: is_deep_resubmission_def is_shallow_resubmission_def)

lemma job_log_counts:
  assumes "job_log T ad max_deep max_shallow events"
  defines "D \<equiv> retry_limit (jdl_retry_count ad) max_deep" and "S \<equiv> retry_limit (jdl_shallow_count ad) max_shallow"
  shows "\<exists>deep shallow. get_retry_counts events = (deep, shallow) \<and> deep \<le> D \<and> shallow \<le> S \<and>
    resubmissions events \<le> deep * (S + 1) + shallow"
  using assms(1)
proof induction
  case start
  show ?case by (simp add: retry_counts_none)
next
  case (other events e)
  from other.IH obtain deep shallow where i: "get_retry_counts events = (deep, shallow)" "deep \<le> D" "shallow \<le> S"
    "resubmissions events \<le> deep * (S + 1) + shallow" by blast
  then show ?case using other.hyps retry_counts_snoc(3) [OF i(1)] by simp
next
  case (resubmit events env s r s' as)
  from resubmit.IH obtain deep shallow where i: "get_retry_counts events = (deep, shallow)" "deep \<le> D" "shallow \<le> S"
    "resubmissions events \<le> deep * (S + 1) + shallow" by blast
  have "within_limits env ad deep shallow (resubs as)"
    using resubmission_limited [OF _ _ _ i(1)] resubmit.hyps by blast
  then consider "resubs as = []" | "resubs as = [Will_resub]" "deep < D" | "resubs as = [Shallow]" "shallow < S"
    using resubmit.hyps by (auto simp: within_limits_def D_def S_def)
  then show ?case
  proof cases
    case 1
    then show ?thesis using i by simp
  next
    case 2
    then show ?thesis using i retry_counts_snoc(1) [OF i(1)] by simp
  next
    case 3
    then show ?thesis using i retry_counts_snoc(2) [OF i(1)] by simp
  qed
qed

section \<open>A single job whose services all answer\<close>

definition services_ok :: "'n submit_env \<Rightarrow> bool" where
  "services_ok env \<longleftrightarrow> env_proxy env = Valid_proxy \<and> \<not> is_request_expired env (env_ad env) \<and> jdl_type (env_ad env) = Single \<and>
     \<not> env_cancel_token env \<and> \<not> env_directory_error env \<and> \<not> env_rename_error env \<and> \<not> env_create_error env \<and> env_submit env = None"

lemma services_single: "services_ok env \<Longrightarrow> process_single env s = (Value (), s') \<Longrightarrow> SubmitProcessor env s = (Value (), s')"
  by (simp add: services_ok_def SubmitProcessor_def process_job_def)

lemma check_limbo_start: "ss_checkpoint s = START \<Longrightarrow> check_limbo env s = (Value (), s)"
  by (simp add: check_limbo_def sm_simps sm_bind_def)

lemma check_limbo_in:
  assumes "ss_checkpoint s = LIMBO" "env_status env = Inr st" "env_recovery_events env = Inr events" "in_limbo st events"
  shows "check_limbo env s = (Value (), s\<lparr>ss_actions := ss_actions s @ [Postpone '' waiting in limbo'']\<rparr>)"
  using assms by (simp add: check_limbo_def answer_def postpone_def sm_simps sm_bind_def)

lemma process_single_value:
  assumes "check_limbo env s = (Value (), s1)" "retrieve_job env s1 = (Value (ad, deep, shallow), s1)" "services_ok env"
  shows "process_single env s = deliver env ad deep shallow s1"
  using assms by (simp add: process_single_def services_ok_def sm_simps sm_bind_def)

lemmas deliver_simps = deliver_def submit_token_def publish_token_def resubmit_token_def has_token_def rename_token_def create_token_def
  Let_def sm_when_def sm_bind_def sm_simps_basic

text \<open>The delivery of a job that has no token yet.\<close>

lemma deliver_new:
  assumes "services_ok env" "env_command env = ''jobsubmit''" "ss_tokens s = []"
  shows "deliver env ad deep shallow s =
    (Value (), s\<lparr>ss_tokens := if shallow_resubmission_is_enabled (jdl_shallow_count ad) then [Token 0] else [],
                 ss_actions := ss_actions s @ [Unlink_maradona, Deliver False]\<rparr>)"
  using assms unfolding services_ok_def by (auto simp: deliver_simps)

text \<open>The delivery of a job with one token of a positive number.\<close>

lemma deliver_replan:
  assumes "services_ok env" "env_command env = ''jobsubmit''" "ss_tokens s = [t]" "token_number t > 0"
  shows "deliver env ad deep shallow s = (Value (), s\<lparr>ss_actions := ss_actions s @ [Unlink_maradona, Deliver True]\<rparr>)"
  using assms unfolding services_ok_def by (simp add: deliver_simps)

section \<open>The properties\<close>

text \<open>C12: the resubmissions of a job are bounded. Whatever else the services answer, a job whose JDL
  and configuration allow \<open>D\<close> deep resubmissions and \<open>S\<close> shallow ones is resubmitted deeply at most \<open>D\<close>
  times and at most \<open>D * (S + 1) + S\<close> times in all: the shallow ones start anew after each deep one.\<close>

theorem retries_bounded:
  assumes "job_log T ad max_deep max_shallow events"
  defines "D \<equiv> retry_limit (jdl_retry_count ad) max_deep" and "S \<equiv> retry_limit (jdl_shallow_count ad) max_shallow"
  shows "length (filter is_deep_resubmission events) \<le> D \<and> resubmissions events \<le> D * (S + 1) + S"
proof -
  from job_log_counts [OF assms(1)] obtain deep shallow where c: "get_retry_counts events = (deep, shallow)" "deep \<le> D" "shallow \<le> S"
    "resubmissions events \<le> deep * (S + 1) + shallow" unfolding D_def S_def by blast
  have "length (filter is_deep_resubmission events) = deep" using c(1) by (simp add: get_retry_counts_def Let_def)
  moreover have "deep * (S + 1) + shallow \<le> D * (S + 1) + S" using c(2,3) by (intro add_mono mult_le_mono1)
  ultimately show ?thesis using c(2,4) by linarith
qed

definition lone :: "string \<Rightarrow> job_status \<Rightarrow> lb_event list \<Rightarrow> job_ad \<Rightarrow> string submit_env" where
  "lone command st events ad = \<lparr>env_command = command, env_now = 10, env_created_at = 5, env_expiry_period = 100,
     env_proxy = Valid_proxy, env_ad = ad, env_dag = \<lparr>vertices = [], in_edges = (\<lambda>_. [])\<rparr>,
     env_node_status = (\<lambda>_. None), env_node_events = (\<lambda>_. Inr []), env_node_context = (\<lambda>_. None), env_collection = Inr [],
     env_status = Inr st, env_recovery_events = Inr events, env_interesting_events = Inr events, env_original_jdl = Inr (Some ad),
     env_max_retry_count = 5, env_max_shallow_count = 5, env_cancel_token = False, env_directory_error = False,
     env_rename_error = False, env_create_error = False, env_submit = None\<rparr>"

definition plain_ad :: "int option \<Rightarrow> job_ad" where
  "plain_ad replans = \<lparr>jdl_type = Single, jdl_expiry_time = None, jdl_retry_count = Some 1, jdl_shallow_count = Some 1, jdl_replans_count = replans\<rparr>"

lemma lone_ok [simp]: "services_ok (lone command st events (plain_ad replans))"
  by (simp add: services_ok_def lone_def plain_ad_def is_request_expired_def)

definition one_token :: "token list \<Rightarrow> 'n submit_state" where
  "one_token ts = \<lparr>ss_checkpoint = START, ss_collection_pending = [], ss_tokens = ts, ss_actions = []\<rparr>"

text \<open>The first deep resubmission of a job that allows one.\<close>

theorem retries_bounded_witness:
  "resubmissions [Resubmission_event Workload_manager Will_resub] \<le> retry_limit (Some 1) 5 * (retry_limit (Some 1) 5 + 1) + retry_limit (Some 1) 5"
proof -
  let ?ad = "plain_ad None"
  let ?e = "lone ''jobresubmit'' None [] ?ad" and ?s = "one_token [] :: string submit_state"
  let ?as = "[Log_resubmission Will_resub, Unlink_maradona, Deliver False] :: string action list"
  let ?s' = "?s\<lparr>ss_tokens := [Token 0], ss_actions := ?as\<rparr>"
  have "retrieve_job ?e ?s = (Value (?ad, 0, 0), ?s)"
    by (simp add: retrieve_job_def query_def answer_def sm_simps sm_bind_def lone_def retry_counts_none)
  moreover have "deliver ?e ?ad 0 0 ?s = (Value (), ?s')"
    by (simp add: deliver_simps lone_def plain_ad_def one_token_def shallow_resubmission_is_enabled_def get_job_shallow_count_def
        checked_def check_deep_count_def)
  ultimately have r: "SubmitProcessor ?e ?s = (Value (), ?s')"
    by (intro services_single) (simp_all add: process_single_value [OF check_limbo_start] one_token_def)
  have "job_log TYPE(string) ?ad 5 5 ([] @ map (Resubmission_event Workload_manager) (resubs ?as))"
    by (rule job_log.resubmit [OF job_log.start _ _ _ _ _ _ r]) (simp_all add: lone_def plain_ad_def one_token_def)
  from retries_bounded [OF this] show ?thesis by (simp add: plain_ad_def)
qed

text \<open>a job in limbo is delivered. The processor postpones a request whose job the LB has as
  handed over but not confirmed, so as not to submit it twice, but goes on and submits it in the same
  call; the request stays at its checkpoint and comes again.\<close>

theorem limbo_delivers:
  assumes "services_ok env" "env_command env = ''jobsubmit''" "ss_checkpoint s = LIMBO" "ss_tokens s = []"
    and "env_status env = Inr st" "env_recovery_events env = Inr events" "in_limbo st events"
  shows "\<exists>s'. SubmitProcessor env s = (Value (), s') \<and> ss_checkpoint s' = LIMBO \<and>
    ss_actions s' = ss_actions s @ [Postpone '' waiting in limbo'', Unlink_maradona, Deliver False]"
proof -
  let ?s = "s\<lparr>ss_actions := ss_actions s @ [Postpone '' waiting in limbo'']\<rparr>"
  have r: "retrieve_job env ?s = (Value (env_ad env, 0, 0), ?s)" using assms(2) by (simp add: retrieve_job_def sm_simps)
  show ?thesis
    using process_single_value [OF check_limbo_in [OF assms(3,5,6,7)] r assms(1)] deliver_new [OF assms(1,2), of ?s] assms(3,4)
      services_single [OF assms(1)] by simp
qed

theorem limbo_delivers_witness:
  "Deliver False \<in> set (ss_actions (snd (SubmitProcessor
     (lone ''jobsubmit'' (Some Ready) [Enqueued_event Workload_manager Enqueued_start] (plain_ad None)) ((one_token [])\<lparr>ss_checkpoint := LIMBO\<rparr>))))"
proof -
  let ?e = "lone ''jobsubmit'' (Some Ready) [Enqueued_event Workload_manager Enqueued_start] (plain_ad None)"
    and ?s = "(one_token [])\<lparr>ss_checkpoint := LIMBO\<rparr> :: string submit_state"
  have "in_limbo (Some Ready) [Enqueued_event Workload_manager Enqueued_start]"
    by (simp add: in_limbo_def is_ready_def is_last_enqueued_by_wm_def find_last_def is_enqueued_to_jc_def)
  moreover have "env_command ?e = ''jobsubmit''" "env_status ?e = Inr (Some Ready)"
    "env_recovery_events ?e = Inr [Enqueued_event Workload_manager Enqueued_start]" by (simp_all add: lone_def)
  moreover have "ss_checkpoint ?s = LIMBO" "ss_tokens ?s = []" by (simp_all add: one_token_def)
  ultimately obtain s' where "SubmitProcessor ?e ?s = (Value (), s')"
    "ss_actions s' = ss_actions ?s @ [Postpone '' waiting in limbo'', Unlink_maradona, Deliver False]"
    using limbo_delivers [OF lone_ok] by blast
  then show ?thesis by simp
qed

text \<open>A request that another replan has overtaken is not dropped. The number of the token goes
  into the JDL before it is compared with the count of the JDL, so that the two are always equal: a
  submission with a token of a positive number is delivered as a replan whatever count it came with.\<close>

theorem overtaken_delivered:
  assumes "services_ok env" "env_command env = ''jobsubmit''" "ss_checkpoint s = START" "ss_tokens s = [t]" "token_number t > 0"
    and "jdl_replans_count (env_ad env) = Some k" "k < int (token_number t)"
  shows "SubmitProcessor env s = (Value (), s\<lparr>ss_actions := ss_actions s @ [Unlink_maradona, Deliver True]\<rparr>)"
proof -
  have r: "retrieve_job env s = (Value (env_ad env, 0, 0), s)" using assms(2) by (simp add: retrieve_job_def sm_simps)
  show ?thesis
    using process_single_value [OF check_limbo_start [OF assms(3)] r assms(1)] deliver_replan [OF assms(1,2,4,5)]
      services_single [OF assms(1)] by simp
qed

theorem overtaken_delivered_witness:
  "ss_actions (snd (SubmitProcessor (lone ''jobsubmit'' None [] (plain_ad (Some 1))) (one_token [Token 2]))) = [Unlink_maradona, Deliver True]"
  using overtaken_delivered [OF lone_ok, of "''jobsubmit''" None "[]" "Some 1" "one_token [Token 2]" "Token 2" 1]
  by (simp add: one_token_def) (simp add: lone_def plain_ad_def)

text \<open>C28: what a resubmission does about the token. When shallow resubmission is enabled, the counts
  are below their limits, the services work, the request is at its start and there is at most one token, a resubmission is shallow if the token of the job is still there, that is
  if the job has not removed it by starting, and deep otherwise; in both cases the job is delivered
  with exactly one token, which carries the number of the one that was found.\<close>

theorem resubmission_token:
  assumes "services_ok env" "env_command env = ''jobresubmit''" "ss_checkpoint s = START" "ss_tokens s \<in> {[], [Token n]}"
    and "env_interesting_events env = Inr events" "env_original_jdl env = Inr (Some ad)" "get_retry_counts events = (deep, shallow)"
    and "shallow_resubmission_is_enabled (jdl_shallow_count ad)"
    and "deep < retry_limit (jdl_retry_count ad) (env_max_retry_count env)" "shallow < retry_limit (jdl_shallow_count ad) (env_max_shallow_count env)"
  shows "\<exists>s'. SubmitProcessor env s = (Value (), s') \<and>
    ss_actions s' = ss_actions s @ [Log_resubmission (if ss_tokens s = [] then Will_resub else Shallow), Unlink_maradona, Deliver False] \<and>
    ss_tokens s' = (if ss_tokens s = [] then [Token 0] else [Token n])"
proof -
  have r: "retrieve_job env s = (Value (ad, deep, shallow), s)"
    using assms by (simp add: retrieve_job_def query_def answer_def sm_simps sm_bind_def)
  have c: "check_deep_count (jdl_retry_count ad) (env_max_retry_count env) (int deep) = Inr ()"
    "check_shallow_count (jdl_shallow_count ad) (env_max_shallow_count env) (int shallow) = Inr ()"
    using assms(9,10) by (simp_all add: check_deep_limit check_shallow_limit)
  have "deliver env ad deep shallow s = (Value (), s\<lparr>ss_tokens := if ss_tokens s = [] then [Token 0] else [Token n],
      ss_actions := ss_actions s @ [Log_resubmission (if ss_tokens s = [] then Will_resub else Shallow), Unlink_maradona, Deliver False]\<rparr>)"
    using assms(1,2,4,8) c unfolding services_ok_def by (auto simp: deliver_simps checked_def)
  then show ?thesis
    using process_single_value [OF check_limbo_start [OF assms(3)] r assms(1)] services_single [OF assms(1)] by simp
qed

theorem resubmission_token_witness:
  "Log_resubmission Shallow \<in> set (ss_actions (snd (SubmitProcessor (lone ''jobresubmit'' None [] (plain_ad None)) (one_token [Token 0]))))"
proof -
  let ?e = "lone ''jobresubmit'' None [] (plain_ad None)" and ?s = "one_token [Token 0] :: string submit_state"
  have "env_command ?e = ''jobresubmit''" "env_interesting_events ?e = Inr []" "env_original_jdl ?e = Inr (Some (plain_ad None))"
    "env_max_retry_count ?e = 5" "env_max_shallow_count ?e = 5" by (simp_all add: lone_def)
  moreover have "ss_checkpoint ?s = START" "ss_tokens ?s = [Token 0]" by (simp_all add: one_token_def)
  moreover have "shallow_resubmission_is_enabled (jdl_shallow_count (plain_ad None))" "0 < retry_limit (jdl_retry_count (plain_ad None)) 5"
    "0 < retry_limit (jdl_shallow_count (plain_ad None)) 5"
    by (simp_all add: shallow_resubmission_is_enabled_def get_job_shallow_count_def plain_ad_def retry_limit_def)
  moreover have "get_retry_counts [] = (0, 0)" by (simp add: retry_counts_none)
  ultimately obtain s' where "SubmitProcessor ?e ?s = (Value (), s')"
    "ss_actions s' = ss_actions ?s @ [Log_resubmission Shallow, Unlink_maradona, Deliver False]"
    using resubmission_token [OF lone_ok, of "''jobresubmit''" None "[]" None ?s 0 "[]" "plain_ad None" 0 0] by auto
  then show ?thesis by simp
qed

section \<open>What escapes the processor\<close>


















end
