(* ===== verification/Job_Dir.thy ===== *)
theory Job_Dir
  imports Wms_Prelude "HOL-Library.AList" "HOL-Library.List_Lexorder"
begin

text \<open>
  The job directory through which the components hand requests to each other:
  \<^verbatim>\<open>org.glite.wms.common/src/utilities/jobdir.cpp\<close> (\<open>JobDir\<close>: \<open>deliver\<close>, \<open>set_old\<close>, \<open>new_entries\<close>,
  \<open>old_entries\<close>, \<open>create\<close>) and \<^verbatim>\<open>jobdir_reader.cpp\<close> (\<open>JobDirReader::read\<close>, \<open>JobDirItem\<close>).

  A request is written to a file of \<open>tmp\<close>, renamed to \<open>new\<close>, renamed to \<open>old\<close> when it is read
  and removed when it is done. A directory is the list of its files with their contents, in the
  order of the directory iterator. The operating system may refuse a call: this is an argument
  of the operations. The text of a time, \<open>to_iso_string\<close>, belongs to the Boost library and is an
  argument, too.
\<close>

section \<open>Time\<close>

text \<open>Counting off units of the lengths \<open>len k\<close>, \<open>len (k + 1)\<close>, ...: years and months.\<close>

fun count_off :: "(nat \<Rightarrow> nat) \<Rightarrow> nat \<Rightarrow> nat \<Rightarrow> nat \<times> nat" where
  "count_off len k d = (if d < len k \<or> len k = 0 then (k, d) else count_off len (Suc k) (d - len k))"

declare count_off.simps [simp del]

definition leap_year :: "nat \<Rightarrow> bool" where
  "leap_year y \<longleftrightarrow> y mod 4 = 0 \<and> (y mod 100 \<noteq> 0 \<or> y mod 400 = 0)"

definition year_length :: "nat \<Rightarrow> nat" where
  "year_length y = (if leap_year y then 366 else 365)"

definition month_length :: "nat \<Rightarrow> nat \<Rightarrow> nat" where
  "month_length y m = (if m = 2 then (if leap_year y then 29 else 28) else if m \<in> {4, 6, 9, 11} then 30 else 31)"

text \<open>\<open>gmtime_r\<close> on the seconds since 1970, with the years and months counted as the \<open>ptime\<close> that is
  made of it counts them.\<close>

record ptime =
  pt_year :: nat
  pt_month :: nat
  pt_day :: nat
  pt_hour :: nat
  pt_min :: nat
  pt_sec :: nat
  pt_frac :: nat

definition universal_time :: "nat \<Rightarrow> nat \<Rightarrow> ptime" where
  "universal_time tv_sec tv_usec =
     (let (y, yday) = count_off year_length 1970 (tv_sec div 86400);
          (m, mday) = count_off (month_length y) 1 yday;
          s = tv_sec mod 86400
      in \<lparr>pt_year = y, pt_month = m, pt_day = mday + 1, pt_hour = s div 3600, pt_min = s mod 3600 div 60,
          pt_sec = s mod 60, pt_frac = tv_usec\<rparr>)"

section \<open>The directories\<close>

type_synonym dir = "(string \<times> string) list"

record job_dir =
  jd_tmp :: dir
  jd_new :: dir
  jd_old :: dir

datatype jobdir_error = Create_failed | Write_failed | Rename_failed

text \<open>\<open>std::rename\<close> from one directory to another: it replaces a file of that name there.\<close>

definition move_file :: "string \<Rightarrow> dir \<Rightarrow> dir \<Rightarrow> (dir \<times> dir) option" where
  "move_file file src dst =
     (case map_of src file of None \<Rightarrow> None | Some c \<Rightarrow> Some (AList.delete file src, AList.update file c dst))"

section \<open>\<open>JobDir\<close>\<close>

text \<open>Which of the three directories exist. \<open>create_directories\<close> is true when it has created one.\<close>

record hierarchy =
  h_tmp :: bool
  h_new :: bool
  h_old :: bool

definition JobDir_valid :: "hierarchy \<Rightarrow> bool" where
  "JobDir_valid h \<longleftrightarrow> h_tmp h \<and> h_new h \<and> h_old h"

definition JobDir_create :: "hierarchy \<Rightarrow> bool \<times> hierarchy" where
  "JobDir_create h =
     (let h1 = h\<lparr>h_tmp := True\<rparr>; h2 = h1\<lparr>h_new := True\<rparr>; h3 = h2\<lparr>h_old := True\<rparr>
      in if h_tmp h then (False, h1) else if h_new h then (False, h2) else (\<not> h_old h, h3))"

text \<open>The name of a new file: the time, the thread that has made the \<open>JobDir\<close>, the tag. A time without
  fractional seconds gets them.\<close>

definition file_name :: "(ptime \<Rightarrow> string) \<Rightarrow> nat \<Rightarrow> string \<Rightarrow> ptime \<Rightarrow> string \<Rightarrow> string" where
  "file_name to_iso_string num_fractional_digits id_str t tag =
     (let name = to_iso_string t;
          name = (if length name = 15 then name @ ''.'' @ replicate num_fractional_digits CHR ''0'' else name)
      in name @ ''_'' @ id_str @ (if tag \<noteq> [] then ''_'' @ tag else []))"

definition open_tmp :: "string \<Rightarrow> job_dir \<Rightarrow> job_dir" where
  "open_tmp file jd = jd\<lparr>jd_tmp := AList.update file [] (jd_tmp jd)\<rparr>"

definition write_tmp :: "string \<Rightarrow> string \<Rightarrow> job_dir \<Rightarrow> job_dir" where
  "write_tmp file s jd =
     jd\<lparr>jd_tmp := AList.update file ((case map_of (jd_tmp jd) file of None \<Rightarrow> [] | Some c \<Rightarrow> c) @ s) (jd_tmp jd)\<rparr>"

definition publish_tmp :: "string \<Rightarrow> job_dir \<Rightarrow> jobdir_error + job_dir" where
  "publish_tmp file jd = (case move_file file (jd_tmp jd) (jd_new jd) of
       None \<Rightarrow> Inl Rename_failed
     | Some (src, dst) \<Rightarrow> Inr (jd\<lparr>jd_tmp := src, jd_new := dst\<rparr>))"

text \<open>What the operating system refuses: \<open>Write_refused n\<close> after \<open>n\<close> characters.\<close>

datatype refused = Nothing_refused | Open_refused | Write_refused nat | Rename_refused

definition JobDir_deliver :: "refused \<Rightarrow> string \<Rightarrow> string \<Rightarrow> job_dir \<Rightarrow> (jobdir_error + string) \<times> job_dir" where
  "JobDir_deliver os file contents jd =
     (if os = Open_refused then (Inl Create_failed, jd)
      else let jd1 = open_tmp file jd in
        case os of
          Write_refused n \<Rightarrow> (Inl Write_failed, write_tmp file (take n contents) jd1)
        | _ \<Rightarrow> let jd2 = write_tmp file contents jd1 in
            if os = Rename_refused then (Inl Rename_failed, jd2)
            else (case publish_tmp file jd2 of Inl e \<Rightarrow> (Inl e, jd2) | Inr jd3 \<Rightarrow> (Inr file, jd3)))"

definition set_old :: "bool \<Rightarrow> string \<Rightarrow> job_dir \<Rightarrow> jobdir_error + job_dir" where
  "set_old rename_refused file jd =
     (if rename_refused then Inl Rename_failed
      else case move_file file (jd_new jd) (jd_old jd) of
        None \<Rightarrow> Inl Rename_failed
      | Some (src, dst) \<Rightarrow> Inr (jd\<lparr>jd_new := src, jd_old := dst\<rparr>))"

definition new_entries :: "job_dir \<Rightarrow> string list" where
  "new_entries jd = sort (map fst (jd_new jd))"

definition old_entries :: "job_dir \<Rightarrow> string list" where
  "old_entries jd = sort (map fst (jd_old jd))"

section \<open>\<open>JobDirReader\<close> and \<open>JobDirItem\<close>\<close>

text \<open>An item is the name of a file of \<open>old\<close>. An exception of \<open>set_old\<close> leaves the loop and
  loses the items that it has collected.\<close>

fun read_items :: "(string \<Rightarrow> bool) \<Rightarrow> string list \<Rightarrow> string list \<Rightarrow> job_dir \<Rightarrow> (jobdir_error + string list) \<times> job_dir" where
  "read_items refuses [] result jd = (Inr result, jd)"
| "read_items refuses (file # files) result jd = (case set_old (refuses file) file jd of
       Inl e \<Rightarrow> (Inl e, jd)
     | Inr jd' \<Rightarrow> read_items refuses files (result @ [file]) jd')"

definition JobDirReader_read :: "(string \<Rightarrow> bool) \<Rightarrow> job_dir \<Rightarrow> (jobdir_error + string list) \<times> job_dir" where
  "JobDirReader_read refuses jd = read_items refuses (new_entries jd) [] jd"

text \<open>\<open>file_size\<close> throws when there is no file; \<open>getline\<close> stops at the first null character.\<close>

definition item_value :: "string \<Rightarrow> job_dir \<Rightarrow> string option" where
  "item_value file jd = map_option (takeWhile (\<lambda>c. c \<noteq> CHR 0x00)) (map_of (jd_old jd) file)"

definition remove_from_input :: "string \<Rightarrow> job_dir \<Rightarrow> job_dir" where
  "remove_from_input file jd = jd\<lparr>jd_old := AList.delete file (jd_old jd)\<rparr>"

text \<open>What the start script does before the daemon runs: every file of \<open>old\<close> goes back to \<open>new\<close>.\<close>

definition restore_file :: "string \<Rightarrow> job_dir \<Rightarrow> job_dir" where
  "restore_file file jd = (case move_file file (jd_old jd) (jd_new jd) of
       None \<Rightarrow> jd
     | Some (src, dst) \<Rightarrow> jd\<lparr>jd_old := src, jd_new := dst\<rparr>)"

definition check_input :: "job_dir \<Rightarrow> job_dir" where
  "check_input jd = fold restore_file (map fst (jd_old jd)) jd"

section \<open>Several writers, a reader and restarts\<close>

text \<open>The steps that the file system makes atomic: each writer opens its file, writes a part of it,
  renames it, or fails; a reader takes one file, a file is removed, the start script restores a
  file. Those of a call of \<open>JobDirReader_read\<close> or \<open>check_input\<close> may mix with others. A delivery in progress: not begun, with a part of the contents in its file of \<open>tmp\<close>,
  renamed, or given up after an error.\<close>

datatype progress = Not_begun | Writing nat | Delivered | Given_up

record jobdir_world =
  jw_dir :: job_dir
  jw_progress :: "progress list"
  jw_removed :: "string list"

inductive jd_step :: "(string \<times> string) list \<Rightarrow> jobdir_world \<Rightarrow> jobdir_world \<Rightarrow> bool" for ds where
  d_open: "i < length ds \<Longrightarrow> jw_progress w ! i = Not_begun \<Longrightarrow>
    jd_step ds w (w\<lparr>jw_dir := open_tmp (fst (ds ! i)) (jw_dir w), jw_progress := (jw_progress w)[i := Writing 0]\<rparr>)"
| d_write: "i < length ds \<Longrightarrow> jw_progress w ! i = Writing k \<Longrightarrow> k + n \<le> length (snd (ds ! i)) \<Longrightarrow>
    jd_step ds w (w\<lparr>jw_dir := write_tmp (fst (ds ! i)) (take n (drop k (snd (ds ! i)))) (jw_dir w),
      jw_progress := (jw_progress w)[i := Writing (k + n)]\<rparr>)"
| d_publish: "i < length ds \<Longrightarrow> jw_progress w ! i = Writing (length (snd (ds ! i))) \<Longrightarrow>
    publish_tmp (fst (ds ! i)) (jw_dir w) = Inr jd \<Longrightarrow>
    jd_step ds w (w\<lparr>jw_dir := jd, jw_progress := (jw_progress w)[i := Delivered]\<rparr>)"
| d_fail: "i < length ds \<Longrightarrow> jw_progress w ! i \<noteq> Delivered \<Longrightarrow>
    jd_step ds w (w\<lparr>jw_progress := (jw_progress w)[i := Given_up]\<rparr>)"
| r_take: "set_old refused file (jw_dir w) = Inr jd \<Longrightarrow> jd_step ds w (w\<lparr>jw_dir := jd\<rparr>)"
| r_remove: "file \<in> fst ` set (jd_old (jw_dir w)) \<Longrightarrow>
    jd_step ds w (w\<lparr>jw_dir := remove_from_input file (jw_dir w), jw_removed := file # jw_removed w\<rparr>)"
| r_restore: "jd_step ds w (w\<lparr>jw_dir := restore_file file (jw_dir w)\<rparr>)"

definition jobdir_start :: "nat \<Rightarrow> jobdir_world" where
  "jobdir_start n = \<lparr>jw_dir = \<lparr>jd_tmp = [], jd_new = [], jd_old = []\<rparr>, jw_progress = replicate n Not_begun, jw_removed = []\<rparr>"

end
