(* ===== verification/Wm_Dispatch.thy ===== *)
theory Wm_Dispatch
  imports Job_Dir Wm_Events Wm_Submit
begin

text \<open>
  How requests enter the workload manager: the commands of
  \<^verbatim>\<open>org.glite.wms.common/src/utilities/wm_commands.cpp\<close> and the dispatcher,
  \<^verbatim>\<open>org.glite.wms.core/src/dispatcher_utils.cpp\<close>, which reads the job directory and schedules an event for
  each request.

  The ClassAd library, the job identifiers, the proxies and the LB contexts are \<open>services\<close>. A
  scheduled event owns the file of its request: the states that the processors share call
  \<open>remove_from_input\<close> when they are destroyed. The guard of \<open>Dispatch\<close> removes the file when it was not
  dismissed.
\<close>

section \<open>Services\<close>

datatype 'ad ad_value = V_string string | V_int int | V_bool bool | V_ad 'ad | V_undefined | V_error | V_other

text \<open>\<open>parse_id\<close> and \<open>id_text\<close> are \<open>None\<close> where the constructor of \<open>JobId\<close> and \<open>toString\<close> throw; a
  context that cannot be created, or a log call that has to create one and fails, throws
  \<open>CannotCreateLBContext\<close>.\<close>

record ('ad, 'id) services =
  parse_ad :: "string \<Rightarrow> 'ad option"
  eval_ad :: "'ad \<Rightarrow> string \<Rightarrow> 'ad ad_value"
  parse_id :: "string \<Rightarrow> 'id option"
  id_text :: "'id \<Rightarrow> string option"
  null_id :: 'id
  local_id :: 'id
  user_proxy :: "'id \<Rightarrow> string"
  can_create_context :: "'id \<Rightarrow> string \<Rightarrow> string \<Rightarrow> bool"
  can_log :: "'id \<Rightarrow> bool"
  can_create_token :: "'id \<Rightarrow> bool"

text \<open>The exceptions, by the clauses that catch them; \<open>Segfault\<close> is a dereference of a null pointer.\<close>

datatype req_exn = ClassAd_exn | Context_exn | Other_exn

datatype 'v req_result = Ok 'v | Raise req_exn | Segfault

section \<open>Commands\<close>

definition is_string :: "'ad ad_value \<Rightarrow> bool" where
  "is_string v \<longleftrightarrow> (case v of V_string _ \<Rightarrow> True | _ \<Rightarrow> False)"

definition is_classad :: "'ad ad_value \<Rightarrow> bool" where
  "is_classad v \<longleftrightarrow> (case v of V_ad _ \<Rightarrow> True | _ \<Rightarrow> False)"

definition is_integer :: "'ad ad_value \<Rightarrow> bool" where
  "is_integer v \<longleftrightarrow> (case v of V_int _ \<Rightarrow> True | _ \<Rightarrow> False)"

definition is_boolean :: "'ad ad_value \<Rightarrow> bool" where
  "is_boolean v \<longleftrightarrow> (case v of V_bool _ \<Rightarrow> True | _ \<Rightarrow> False)"

definition is_undefined :: "'ad ad_value \<Rightarrow> bool" where
  "is_undefined v \<longleftrightarrow> (case v of V_undefined \<Rightarrow> True | _ \<Rightarrow> False)"

text \<open>\<open>==\<close> on strings does not regard case; on anything else it is not true.\<close>

definition equals_string :: "'ad ad_value \<Rightarrow> string \<Rightarrow> bool" where
  "equals_string v s \<longleftrightarrow> (case v of V_string t \<Rightarrow> iequals t s | _ \<Rightarrow> False)"

definition command_is_valid :: "('ad, 'id) services \<Rightarrow> 'ad \<Rightarrow> bool" where
  "command_is_valid sv command_ad = (let other = eval_ad sv command_ad in
     equals_string (other ''version'') ''1.0.0'' \<and>
     is_string (other ''command'') \<and>
     is_classad (other ''arguments'') \<and>
     (equals_string (other ''command'') ''jobsubmit'' \<and>
        is_classad (other ''arguments.ad'') \<and>
        is_string (other ''arguments.ad.edg_jobid'') \<and>
        is_string (other ''arguments.ad.lb_sequence_code'') \<and>
        is_string (other ''arguments.ad.X509UserProxy'') \<or>
      equals_string (other ''command'') ''jobresubmit'' \<and>
        is_string (other ''arguments.id'') \<and>
        is_string (other ''arguments.lb_sequence_code'') \<or>
      equals_string (other ''command'') ''jobcancel'' \<and>
        is_string (other ''arguments.id'') \<and>
        is_string (other ''arguments.lb_sequence_code'') \<or>
      equals_string (other ''command'') ''match'' \<and>
        is_classad (other ''arguments.ad'') \<and>
        is_string (other ''arguments.ad.CertificateSubject'') \<and>
        is_string (other ''arguments.file'') \<and>
        (is_undefined (other ''arguments.number_of_results'') \<or> is_integer (other ''arguments.number_of_results'')) \<and>
        (is_undefined (other ''arguments.include_brokerinfo'') \<or> is_boolean (other ''arguments.include_brokerinfo''))))"

text \<open>\<open>evaluate_attribute\<close> and \<open>evaluate_expression\<close> throw \<open>InvalidValue\<close>, a \<open>ClassAdError\<close>, when the value is
  not of the type asked for.\<close>

definition eval_string :: "('ad, 'id) services \<Rightarrow> 'ad \<Rightarrow> string \<Rightarrow> req_exn + string" where
  "eval_string sv ad expr = (case eval_ad sv ad expr of V_string s \<Rightarrow> Inr s | _ \<Rightarrow> Inl ClassAd_exn)"

definition eval_nested :: "('ad, 'id) services \<Rightarrow> 'ad \<Rightarrow> string \<Rightarrow> req_exn + 'ad" where
  "eval_nested sv ad expr = (case eval_ad sv ad expr of V_ad a \<Rightarrow> Inr a | _ \<Rightarrow> Inl ClassAd_exn)"

definition command_get_command :: "('ad, 'id) services \<Rightarrow> 'ad \<Rightarrow> req_exn + string" where
  "command_get_command sv command_ad =
     (case eval_string sv command_ad ''command'' of Inl e \<Rightarrow> Inl e | Inr s \<Rightarrow> Inr (map to_lower s))"

text \<open>An attribute of the nested description, read by the JDL library, which has exceptions of its own.\<close>

definition jdl_string :: "('ad, 'id) services \<Rightarrow> 'ad \<Rightarrow> string \<Rightarrow> req_exn + string" where
  "jdl_string sv command_ad attr =
     (case eval_nested sv command_ad ''arguments.ad'' of
        Inl e \<Rightarrow> Inl e
      | Inr _ \<Rightarrow> (case eval_ad sv command_ad (''arguments.ad.'' @ attr) of V_string s \<Rightarrow> Inr s | _ \<Rightarrow> Inl Other_exn))"

section \<open>\<open>check_request\<close>\<close>

definition JobId_new :: "('ad, 'id) services \<Rightarrow> string \<Rightarrow> req_exn + 'id" where
  "JobId_new sv s = (case parse_id sv s of None \<Rightarrow> Inl Other_exn | Some jid \<Rightarrow> Inr jid)"

definition aux_get_sequence_code :: "('ad, 'id) services \<Rightarrow> 'ad \<Rightarrow> string \<Rightarrow> req_exn + string" where
  "aux_get_sequence_code sv command_ad command =
     (if command = ''jobsubmit'' then jdl_string sv command_ad ''lb_sequence_code''
      else if command = ''jobcancel'' then eval_string sv command_ad ''arguments.lb_sequence_code''
      else if command = ''jobresubmit'' then eval_string sv command_ad ''arguments.lb_sequence_code''
      else Inr [])"

definition aux_get_x509_proxy :: "('ad, 'id) services \<Rightarrow> 'ad \<Rightarrow> string \<Rightarrow> 'id \<Rightarrow> req_exn + string" where
  "aux_get_x509_proxy sv command_ad command jid =
     (if command = ''jobsubmit'' then jdl_string sv command_ad ''X509UserProxy''
      else if command = ''jobcancel'' then Inr (user_proxy sv jid)
      else if command = ''jobresubmit'' then Inr (user_proxy sv jid)
      else Inr [])"

definition aux_get_id :: "('ad, 'id) services \<Rightarrow> 'ad \<Rightarrow> string \<Rightarrow> req_exn + 'id" where
  "aux_get_id sv command_ad command =
     (if command = ''jobsubmit'' then
        (case jdl_string sv command_ad ''edg_jobid'' of Inl e \<Rightarrow> Inl e | Inr s \<Rightarrow> JobId_new sv s)
      else if command = ''jobresubmit'' then
        (case eval_string sv command_ad ''arguments.id'' of Inl e \<Rightarrow> Inl e | Inr s \<Rightarrow> JobId_new sv s)
      else if command = ''jobcancel'' then
        (case eval_string sv command_ad ''arguments.id'' of Inl e \<Rightarrow> Inl e | Inr s \<Rightarrow> JobId_new sv s)
      else if command = ''match'' then
        (case eval_nested sv command_ad ''arguments.ad'' of
           Inl e \<Rightarrow> Inl e
         | Inr _ \<Rightarrow> (case eval_ad sv command_ad ''arguments.ad.edg_jobid'' of
             V_string s \<Rightarrow> JobId_new sv s
           | _ \<Rightarrow> Inr (local_id sv)))
      else Inr (null_id sv))"

definition check_request :: "('ad, 'id) services \<Rightarrow> 'ad \<Rightarrow> string \<Rightarrow> req_exn + 'id \<times> string \<times> string" where
  "check_request sv command_ad command =
     (if command_is_valid sv command_ad then
        (case aux_get_id sv command_ad command of
           Inl e \<Rightarrow> Inl e
         | Inr jid \<Rightarrow> (case aux_get_sequence_code sv command_ad command of
             Inl e \<Rightarrow> Inl e
           | Inr sequence_code \<Rightarrow> (case aux_get_x509_proxy sv command_ad command jid of
               Inl e \<Rightarrow> Inl e
             | Inr x509_proxy \<Rightarrow> Inr (jid, sequence_code, x509_proxy))))
      else Inr (null_id sv, [], []))"

section \<open>Events and state\<close>

text \<open>The functions in the queue. A request has the file that it owns and its job; a node of a
  collection has its parent and its name instead of a file; \<open>Null_request\<close> is a \<open>SubmitProcessor\<close> without a
  state.\<close>

datatype 'id wm_event =
    Submit_request string 'id string checkpoint
  | Node_request 'id string 'id
  | Null_request
  | Cancel_request string 'id
  | Match_request string 'id
  | Ism_dump
  | Dispatcher_call

abbreviation submit_priority :: int where "submit_priority \<equiv> 60"
abbreviation cancel_priority :: int where "cancel_priority \<equiv> 50"
abbreviation match_priority :: int where "match_priority \<equiv> 30"
abbreviation dispatcher_priority :: int where "dispatcher_priority \<equiv> 20"
abbreviation debug_priority :: int where "debug_priority \<equiv> 0"

text \<open>The job directory, the queue, the jobs that have a token for their cancellation, and the
  pending nodes of recovered collections.\<close>

record 'id wm_state =
  ws_dir :: job_dir
  ws_events :: "'id wm_event events"
  ws_cancel_tokens :: "'id list"
  ws_pending :: "('id \<times> string) list"

definition wm_schedule :: "int \<Rightarrow> 'id wm_event \<Rightarrow> int \<Rightarrow> 'id wm_state \<Rightarrow> 'id wm_state" where
  "wm_schedule now ev priority w = w\<lparr>ws_events := schedule now (Some ev) priority (ws_events w)\<rparr>"

definition cleanup :: "string \<Rightarrow> 'id wm_state \<Rightarrow> 'id wm_state" where
  "cleanup item w = w\<lparr>ws_dir := remove_from_input item (ws_dir w)\<rparr>"

text \<open>The constructor of \<open>SubmitState\<close> takes the description out of a submission: it needs the
  arguments to be there.\<close>

definition SubmitState_ok :: "('ad, 'id) services \<Rightarrow> 'ad \<Rightarrow> string \<Rightarrow> bool" where
  "SubmitState_ok sv command_ad command \<longleftrightarrow> (command = ''jobsubmit'' \<longrightarrow> is_classad (eval_ad sv command_ad ''arguments''))"

text \<open>The constructor of \<open>CancelState\<close> creates the token of the job, and goes on when it cannot.\<close>

definition CancelState_new :: "('ad, 'id) services \<Rightarrow> 'id \<Rightarrow> 'id wm_state \<Rightarrow> 'id wm_state" where
  "CancelState_new sv jid w =
     (if \<not> can_create_token sv jid then w else w\<lparr>ws_cancel_tokens := List.insert jid (ws_cancel_tokens w)\<rparr>)"

section \<open>\<open>Dispatch\<close>\<close>

text \<open>The two catch clauses.\<close>

definition caught :: "req_exn \<Rightarrow> 'id wm_state \<Rightarrow> unit req_result \<times> 'id wm_state" where
  "caught e w = (case e of ClassAd_exn \<Rightarrow> (Ok (), w) | Context_exn \<Rightarrow> (Ok (), w) | Other_exn \<Rightarrow> (Raise Other_exn, w))"

definition dispatch_submit ::
    "('ad, 'id) services \<Rightarrow> int \<Rightarrow> string \<Rightarrow> 'ad \<Rightarrow> string \<Rightarrow> 'id \<times> string \<times> string \<Rightarrow> 'id wm_state \<Rightarrow> unit req_result \<times> 'id wm_state" where
  "dispatch_submit sv now item command_ad command req w =
     (case req of (jid, sequence_code, x509_proxy) \<Rightarrow>
        (case id_text sv jid of
           None \<Rightarrow> caught Other_exn w
         | Some _ \<Rightarrow>
             if \<not> can_create_context sv jid x509_proxy sequence_code then caught Context_exn w
             else if \<not> can_log sv jid then caught Context_exn w
             else if \<not> SubmitState_ok sv command_ad command then (Segfault, w)
             else (Ok (), wm_schedule now (Submit_request item jid command START) submit_priority w)))"

definition dispatch_cancel ::
    "('ad, 'id) services \<Rightarrow> int \<Rightarrow> string \<Rightarrow> 'id \<times> string \<times> string \<Rightarrow> 'id wm_state \<Rightarrow> unit req_result \<times> 'id wm_state" where
  "dispatch_cancel sv now item req w =
     (case req of (jid, sequence_code, x509_proxy) \<Rightarrow>
        if \<not> can_create_context sv jid x509_proxy sequence_code then caught Context_exn w
        else if \<not> can_log sv jid then caught Context_exn w
        else (Ok (), wm_schedule now (Cancel_request item jid) cancel_priority (CancelState_new sv jid w)))"

definition Dispatch :: "('ad, 'id) services \<Rightarrow> int \<Rightarrow> string \<Rightarrow> 'id wm_state \<Rightarrow> unit req_result \<times> 'id wm_state" where
  "Dispatch sv now item w =
     (case item_value item (ws_dir w) of
        None \<Rightarrow> (Raise Other_exn, cleanup item w)
      | Some command_ad_str \<Rightarrow> (case parse_ad sv command_ad_str of
          None \<Rightarrow> (Ok (), cleanup item w)
        | Some command_ad \<Rightarrow> (case command_get_command sv command_ad of
            Inl e \<Rightarrow> caught e (cleanup item w)
          | Inr command \<Rightarrow>
              if command = ''jobsubmit'' \<or> command = ''jobresubmit'' \<or> command = ''jobcancel'' then
                (case check_request sv command_ad command of
                   Inl e \<Rightarrow> caught e (cleanup item w)
                 | Inr req \<Rightarrow>
                     if command = ''jobsubmit'' \<or> command = ''jobresubmit'' then
                       dispatch_submit sv now item command_ad command req w
                     else dispatch_cancel sv now item req w)
              else if command = ''match'' then
                (case aux_get_id sv command_ad command of
                   Inl e \<Rightarrow> caught e w
                 | Inr jid \<Rightarrow> (Ok (), wm_schedule now (Match_request item jid) match_priority w))
              else if command = ''ism_dump'' then
                (Ok (), cleanup item (wm_schedule now Ism_dump debug_priority w))
              else (Ok (), cleanup item w))))"

section \<open>\<open>Dispatcher\<close>\<close>

text \<open>\<open>clock k\<close> is the time that is read for the item number \<open>k\<close>.\<close>

fun dispatch_all :: "('ad, 'id) services \<Rightarrow> (nat \<Rightarrow> int) \<Rightarrow> nat \<Rightarrow> string list \<Rightarrow> 'id wm_state \<Rightarrow> unit req_result \<times> 'id wm_state" where
  "dispatch_all sv clock k [] w = (Ok (), w)"
| "dispatch_all sv clock k (item # items) w = (case Dispatch sv (clock k) item w of
       (Ok _, w') \<Rightarrow> dispatch_all sv clock (Suc k) items w'
     | (Raise e, w') \<Rightarrow> (Raise e, w')
     | (Segfault, w') \<Rightarrow> (Segfault, w'))"

definition reschedule_dispatcher :: "int \<Rightarrow> 'id wm_state \<Rightarrow> 'id wm_state" where
  "reschedule_dispatcher t w = w\<lparr>ws_events := schedule_at (Some Dispatcher_call) t dispatcher_priority (ws_events w)\<rparr>"

definition stop_events :: "'id wm_state \<Rightarrow> 'id wm_state" where
  "stop_events w = w\<lparr>ws_events := stop (ws_events w)\<rparr>"

text \<open>The loop of the code returns in its first pass.\<close>

definition Dispatcher ::
    "('ad, 'id) services \<Rightarrow> (nat \<Rightarrow> int) \<Rightarrow> nat \<Rightarrow> bool \<Rightarrow> (string \<Rightarrow> bool) \<Rightarrow> 'id wm_state \<Rightarrow> unit req_result \<times> 'id wm_state" where
  "Dispatcher sv clock max_ready_events received_quit_signal refuses w =
     (if received_quit_signal then (Ok (), stop_events w)
      else if ready_size (ws_events w) < max_ready_events then
        (case JobDirReader_read refuses (ws_dir w) of
           (Inl e, jd) \<Rightarrow> (Ok (), reschedule_dispatcher (clock 0 + 1) (w\<lparr>ws_dir := jd\<rparr>))
         | (Inr items, jd) \<Rightarrow> (case dispatch_all sv clock 0 items (w\<lparr>ws_dir := jd\<rparr>) of
             (Ok _, w') \<Rightarrow> (Ok (), reschedule_dispatcher (clock (length items) + 1) w')
           | (Raise e, w') \<Rightarrow> (Ok (), stop_events w')
           | (Segfault, w') \<Rightarrow> (Segfault, w')))
      else (Ok (), reschedule_dispatcher (clock 0 + 60) w))"

end
