(* ===== verification/Wm_Recovery.thy ===== *)
theory Wm_Recovery
  imports Wm_Dispatch
begin

text \<open>
  The recovery of requests when the workload manager starts, \<^verbatim>\<open>org.glite.wms.core/src/recovery.cpp\<close>: all
  requests of the job directory are read, then each is scheduled, removed or left, as the LB says
  where its job stands. It runs before the worker threads.

  The answers of the LB and the nodes of a collection's description are a \<open>recovery_env\<close>.
\<close>

section \<open>What the LB answers\<close>

text \<open>The status of a collection with its children: \<open>children\<close> ends at the first null pointer,
  \<open>None\<close> is a null array.\<close>

record collection_status =
  cs_children :: "string list option"
  cs_states :: "job_state list option"
  cs_children_num :: nat

text \<open>\<open>re_status\<close> has the state and whether the job is a collection; \<open>re_nodes\<close> has the names of the
  nodes of a description and their job identifiers, \<open>None\<close> where the attribute is missing.\<close>

record ('ad, 'id) recovery_env =
  re_job_status :: "'id \<Rightarrow> (job_state \<times> bool) option"
  re_collection_status :: "'id \<Rightarrow> req_exn + collection_status option"
  re_events :: "'id \<Rightarrow> query_failure + lb_event list"
  re_nodes :: "'ad \<Rightarrow> req_exn + (string \<times> string option) list"

section \<open>Reading the requests\<close>

record 'ad request_to_recover =
  rr_id :: string
  rr_command :: string
  rr_item :: string
  rr_ad :: 'ad

text \<open>The guard removes the file of a request that cannot be added; only a \<open>ClassAdError\<close> is caught.\<close>

definition insert_request ::
    "('ad, 'id) services \<Rightarrow> string \<Rightarrow> 'ad request_to_recover list \<Rightarrow> 'id wm_state \<Rightarrow> 'ad request_to_recover list req_result \<times> 'id wm_state" where
  "insert_request sv item reqs w =
     (let rejected = (\<lambda>e. (if e = ClassAd_exn then Ok reqs else Raise e, cleanup item w)) in
      case item_value item (ws_dir w) of
        None \<Rightarrow> rejected Other_exn
      | Some command_ad_str \<Rightarrow> (case parse_ad sv command_ad_str of
          None \<Rightarrow> rejected ClassAd_exn
        | Some command_ad \<Rightarrow> (case command_get_command sv command_ad of
            Inl e \<Rightarrow> rejected e
          | Inr command \<Rightarrow> (case check_request sv command_ad command of
              Inl e \<Rightarrow> rejected e
            | Inr (jid, _, _) \<Rightarrow> (case id_text sv jid of
                None \<Rightarrow> rejected Other_exn
              | Some name \<Rightarrow>
                  (Ok (reqs @ [\<lparr>rr_id = name, rr_command = command, rr_item = item, rr_ad = command_ad\<rparr>]), w))))))"

fun insert_requests ::
    "('ad, 'id) services \<Rightarrow> string list \<Rightarrow> 'ad request_to_recover list \<Rightarrow> 'id wm_state \<Rightarrow> 'ad request_to_recover list req_result \<times> 'id wm_state" where
  "insert_requests sv [] reqs w = (Ok reqs, w)"
| "insert_requests sv (item # items) reqs w = (case insert_request sv item reqs w of
       (Ok reqs', w') \<Rightarrow> insert_requests sv items reqs' w'
     | (Raise e, w') \<Rightarrow> (Raise e, w')
     | (Segfault, w') \<Rightarrow> (Segfault, w'))"

section \<open>Collections\<close>

text \<open>The map of the children's states that the constructor of \<open>select_recoverable_nodes\<close> fills.\<close>

fun fill_children_states :: "string list \<Rightarrow> job_state list \<Rightarrow> (string \<times> job_state) list" where
  "fill_children_states (i # is) (j # js) = (if j \<noteq> Undef then (i, j) # fill_children_states is js else [])"
| "fill_children_states _ _ = []"

definition children_states :: "collection_status \<Rightarrow> (string \<times> job_state) list" where
  "children_states cs = (case (cs_children cs, cs_states cs) of
       (Some is, Some js) \<Rightarrow> fill_children_states (take (cs_children_num cs) is) js
     | _ \<Rightarrow> [])"

definition recoverable_node ::
    "('ad, 'id) services \<Rightarrow> ('ad, 'id) recovery_env \<Rightarrow> (string \<times> job_state) list \<Rightarrow> string \<times> string option \<Rightarrow> bool" where
  "recoverable_node sv env states node =
     (case snd node of None \<Rightarrow> False | Some node_id \<Rightarrow> (case parse_id sv node_id of None \<Rightarrow> False | Some jobid \<Rightarrow>
        (case map_of states node_id of None \<Rightarrow> False | Some st \<Rightarrow> (case re_events env jobid of Inl _ \<Rightarrow> False | Inr events \<Rightarrow>
           let status = Some st in
           if is_last_done events Done_failed then False
           else if is_waiting status then True
           else if events = [] \<and> is_submitted status then True
           else if in_limbo status events then False
           else if is_ready status then True
           else False))))"

definition select_recoverable_nodes ::
    "('ad, 'id) services \<Rightarrow> ('ad, 'id) recovery_env \<Rightarrow> collection_status \<Rightarrow> (string \<times> string option) list \<Rightarrow> (string \<times> string option) list" where
  "select_recoverable_nodes sv env cs nodes = filter (recoverable_node sv env (children_states cs)) nodes"

text \<open>\<open>None\<close> when the array of states is missing and there are children: the search reads a null
  pointer.\<close>

definition is_every_children_submitted :: "collection_status \<Rightarrow> bool option" where
  "is_every_children_submitted cs = (case cs_states cs of
       None \<Rightarrow> if cs_children_num cs = 0 then Some True else None
     | Some js \<Rightarrow> Some (\<forall>s\<in>set (take (cs_children_num cs) js). s = Submitted))"

text \<open>\<open>create_submit_request\<close> gives an empty pointer when there is no context; the node is scheduled
  in both cases.\<close>

definition create_submit_request ::
    "('ad, 'id) services \<Rightarrow> 'id \<Rightarrow> string \<Rightarrow> string \<times> string option \<Rightarrow> 'id wm_state \<Rightarrow> 'id wm_event \<times> 'id wm_state" where
  "create_submit_request sv parent proxy node w =
     (case map_option (parse_id sv) (snd node) of
        Some (Some node_id) \<Rightarrow>
          if can_create_context sv node_id proxy [] then
            (Node_request parent (fst node) node_id, w\<lparr>ws_pending := List.insert (parent, fst node) (ws_pending w)\<rparr>)
          else (Null_request, w)
      | _ \<Rightarrow> (Null_request, w))"

fun schedule_nodes ::
    "('ad, 'id) services \<Rightarrow> int \<Rightarrow> 'id \<Rightarrow> string \<Rightarrow> (string \<times> string option) list \<Rightarrow> 'id wm_state \<Rightarrow> 'id wm_state" where
  "schedule_nodes sv now parent proxy [] w = w"
| "schedule_nodes sv now parent proxy (node # nodes) w =
     (case create_submit_request sv parent proxy node w of (ev, w') \<Rightarrow>
        schedule_nodes sv now parent proxy nodes (wm_schedule now ev submit_priority w'))"

definition schedule_submit ::
    "('ad, 'id) services \<Rightarrow> int \<Rightarrow> 'ad request_to_recover \<Rightarrow> 'id \<Rightarrow> checkpoint \<Rightarrow> 'id wm_state \<Rightarrow> unit req_result \<times> 'id wm_state" where
  "schedule_submit sv now req jid starting_point w =
     (if \<not> SubmitState_ok sv (rr_ad req) (rr_command req) then (Segfault, w)
      else (Ok (), wm_schedule now (Submit_request (rr_item req) jid (rr_command req) starting_point) submit_priority w))"

definition recover_collection ::
    "('ad, 'id) services \<Rightarrow> ('ad, 'id) recovery_env \<Rightarrow> int \<Rightarrow> 'ad request_to_recover \<Rightarrow> 'id \<Rightarrow> 'id \<Rightarrow> string \<Rightarrow> job_status \<Rightarrow>
     'id wm_state \<Rightarrow> unit req_result \<times> 'id wm_state" where
  "recover_collection sv env now req jobid jid proxy status w =
     (case eval_nested sv (rr_ad req) ''arguments.ad'' of
        Inl e \<Rightarrow> (Raise e, w)
      | Inr jdl \<Rightarrow> (case re_nodes env jdl of
          Inl e \<Rightarrow> (Raise e, w)
        | Inr nodes \<Rightarrow> (case re_collection_status env jobid of
            Inl e \<Rightarrow> (Raise e, w)
          | Inr None \<Rightarrow> (case id_text sv jobid of None \<Rightarrow> (Raise Other_exn, w) | Some _ \<Rightarrow> (Ok (), cleanup (rr_item req) w))
          | Inr (Some cs) \<Rightarrow>
              (case (if is_submitted status then Some True
                     else if is_waiting status then is_every_children_submitted cs else Some False) of
                 None \<Rightarrow> (Segfault, w)
               | Some True \<Rightarrow> schedule_submit sv now req jid START w
               | Some False \<Rightarrow>
                   let recoverable_nodes = select_recoverable_nodes sv env cs nodes in
                   (case schedule_submit sv now req jid PENDING w of
                      (Ok _, w') \<Rightarrow> (Ok (), schedule_nodes sv now jid proxy recoverable_nodes w')
                    | (Raise e, w') \<Rightarrow> (Raise e, w')
                    | (Segfault, w') \<Rightarrow> (Segfault, w'))))))"

section \<open>One request\<close>

definition starting_point :: "bool \<Rightarrow> checkpoint" where
  "starting_point limbo = (if limbo then LIMBO else START)"

definition recover_single ::
    "('ad, 'id) services \<Rightarrow> ('ad, 'id) recovery_env \<Rightarrow> int \<Rightarrow> 'ad request_to_recover \<Rightarrow> 'id \<Rightarrow> 'id \<Rightarrow> job_status \<Rightarrow>
     'id wm_state \<Rightarrow> unit req_result \<times> 'id wm_state" where
  "recover_single sv env now req jobid jid status w =
     (case re_events env jobid of
        Inl _ \<Rightarrow> schedule_submit sv now req jid (starting_point True) w
      | Inr events \<Rightarrow>
          if is_last_done events Done_failed then (Ok (), w)
          else schedule_submit sv now req jid (starting_point (if is_waiting status then False else in_limbo status events)) w)"

definition recover_resubmit ::
    "('ad, 'id) services \<Rightarrow> ('ad, 'id) recovery_env \<Rightarrow> int \<Rightarrow> 'ad request_to_recover \<Rightarrow> 'id \<Rightarrow> 'id \<Rightarrow> job_status \<Rightarrow>
     'id wm_state \<Rightarrow> unit req_result \<times> 'id wm_state" where
  "recover_resubmit sv env now req jobid jid status w =
     schedule_submit sv now req jid
       (starting_point (if is_waiting status then False
          else case re_events env jobid of Inl _ \<Rightarrow> True | Inr events \<Rightarrow> in_limbo status events)) w"

definition recover_cancel ::
    "('ad, 'id) services \<Rightarrow> int \<Rightarrow> 'ad request_to_recover \<Rightarrow> 'id \<Rightarrow> string \<Rightarrow> 'id wm_state \<Rightarrow> unit req_result \<times> 'id wm_state" where
  "recover_cancel sv now req jid proxy w =
     (case eval_string sv (rr_ad req) ''arguments.lb_sequence_code'' of
        Inl e \<Rightarrow> (Raise e, w)
      | Inr sequence_code \<Rightarrow>
          if \<not> can_create_context sv jid proxy sequence_code then (Ok (), w)
          else (Ok (), wm_schedule now (Cancel_request (rr_item req) jid) cancel_priority (CancelState_new sv jid w)))"

definition request_recovery ::
    "('ad, 'id) services \<Rightarrow> ('ad, 'id) recovery_env \<Rightarrow> int \<Rightarrow> 'ad request_to_recover \<Rightarrow> 'id wm_state \<Rightarrow> unit req_result \<times> 'id wm_state" where
  "request_recovery sv env now req w =
     (case check_request sv (rr_ad req) (rr_command req) of
        Inl e \<Rightarrow> (Raise e, w)
      | Inr (jobid, sequence_code, x509_proxy) \<Rightarrow>
          if rr_command req = ''match'' then (Ok (), cleanup (rr_item req) w)
          else (case parse_id sv (rr_id req) of
            None \<Rightarrow> (Raise Other_exn, w)
          | Some jid \<Rightarrow>
              if \<not> can_create_context sv jid x509_proxy sequence_code then (Ok (), w)
              else
                let status = map_option fst (re_job_status env jobid);
                    is_collection = (case re_job_status env jobid of None \<Rightarrow> False | Some (_, c) \<Rightarrow> c)
                in if rr_command req = ''jobsubmit'' then
                     (if is_collection then recover_collection sv env now req jobid jid x509_proxy status w
                      else recover_single sv env now req jobid jid status w)
                   else if rr_command req = ''jobresubmit'' then recover_resubmit sv env now req jobid jid status w
                   else if rr_command req = ''jobcancel'' then recover_cancel sv now req jid x509_proxy w
                   else (Ok (), cleanup (rr_item req) w)))"

section \<open>\<open>recovery\<close>\<close>

fun recover_all ::
    "('ad, 'id) services \<Rightarrow> ('ad, 'id) recovery_env \<Rightarrow> (nat \<Rightarrow> int) \<Rightarrow> nat \<Rightarrow> 'ad request_to_recover list \<Rightarrow> 'id wm_state \<Rightarrow>
     unit req_result \<times> 'id wm_state" where
  "recover_all sv env clock k [] w = (Ok (), w)"
| "recover_all sv env clock k (req # reqs) w = (case request_recovery sv env (clock k) req w of
       (Ok _, w') \<Rightarrow> recover_all sv env clock (Suc k) reqs w'
     | (Raise e, w') \<Rightarrow> (Raise e, w')
     | (Segfault, w') \<Rightarrow> (Segfault, w'))"

text \<open>Every exception is caught at the end.\<close>

definition recovery ::
    "('ad, 'id) services \<Rightarrow> ('ad, 'id) recovery_env \<Rightarrow> (nat \<Rightarrow> int) \<Rightarrow> (string \<Rightarrow> bool) \<Rightarrow> 'id wm_state \<Rightarrow> unit req_result \<times> 'id wm_state" where
  "recovery sv env clock refuses w =
     (case JobDirReader_read refuses (ws_dir w) of
        (Inl e, jd) \<Rightarrow> (Ok (), w\<lparr>ws_dir := jd\<rparr>)
      | (Inr requests, jd) \<Rightarrow> (case insert_requests sv requests [] (w\<lparr>ws_dir := jd\<rparr>) of
          (Ok reqs, w') \<Rightarrow> (case recover_all sv env clock 0 reqs w' of
              (Segfault, w'') \<Rightarrow> (Segfault, w'')
            | (_, w'') \<Rightarrow> (Ok (), w''))
        | (Segfault, w') \<Rightarrow> (Segfault, w')
        | (Raise e, w') \<Rightarrow> (Ok (), w')))"

end
