(* ===== verification/Job_Dir_Props.thy ===== *)
theory Job_Dir_Props
  imports Job_Dir "HOL-Library.Multiset"
begin

text \<open>
  The properties of the job directory: the names of the files sort like the times of the deliveries,
  so that requests are read in the order in which they were delivered; no request is lost, seen
  incomplete or read twice, under every interleaving; what goes wrong when names coincide or a
  rename fails.
\<close>

section \<open>Time\<close>

lemma count_off_sum:
  assumes "\<forall>k. 0 < len k" "count_off len k d = (k', r)"
  shows "k \<le> k' \<and> r < len k' \<and> d = (\<Sum>i\<in>{k..<k'}. len i) + r"
  using assms
proof (induction len k d arbitrary: r rule: count_off.induct)
  case (1 len k d)
  show ?case
  proof (cases "d < len k")
    case True
    with 1(3) show ?thesis by (simp add: count_off.simps)
  next
    case False
    moreover from 1(2) have "len k \<noteq> 0" by (metis less_irrefl)
    ultimately have "count_off len (Suc k) (d - len k) = (k', r)" using 1(3) by (subst (asm) count_off.simps) simp
    with 1 False have "Suc k \<le> k' \<and> r < len k' \<and> d - len k = (\<Sum>i\<in>{Suc k..<k'}. len i) + r" by (metis not_gr_zero)
    with False show ?thesis by (simp add: sum.atLeast_Suc_lessThan) linarith
  qed
qed

lemma count_off_less:
  assumes len: "\<forall>k. 0 < len k" and c: "count_off len k d1 = (k1, r1)" "count_off len k d2 = (k2, r2)" and l: "d1 < d2"
  shows "k1 < k2 \<or> k1 = k2 \<and> r1 < r2"
proof (rule ccontr)
  note s1 = count_off_sum [OF len c(1)] and s2 = count_off_sum [OF len c(2)]
  assume "\<not> (k1 < k2 \<or> k1 = k2 \<and> r1 < r2)"
  then consider "k2 < k1" | "k1 = k2" "r2 \<le> r1" by linarith
  then show False
  proof cases
    case 1
    then have "(\<Sum>i\<in>{k..<Suc k2}. len i) \<le> (\<Sum>i\<in>{k..<k1}. len i)" by (intro sum_mono2) auto
    with s1 s2 l show False by simp
  qed (use s1 s2 l in simp)
qed

text \<open>The components of a time, the first the most significant.\<close>

definition pt_fields :: "ptime \<Rightarrow> nat list" where
  "pt_fields t = [pt_year t, pt_month t, pt_day t, pt_hour t, pt_min t, pt_sec t, pt_frac t]"

lemma year_length_pos: "\<forall>k. 0 < year_length k"
  by (simp add: year_length_def)

lemma month_length_pos: "\<forall>k. 0 < month_length y k"
  by (simp add: month_length_def)

lemma div_mod_less:
  fixes a b n :: nat
  assumes "a < b"
  shows "a div n < b div n \<or> a div n = b div n \<and> a mod n < b mod n"
proof (cases "a div n = b div n")
  case True
  then have "b = a div n * n + b mod n" by (metis div_mult_mod_eq)
  moreover have "a = a div n * n + a mod n" by simp
  ultimately show ?thesis using assms True by linarith
next
  case False
  with div_le_mono [of a b n] assms show ?thesis by simp
qed

lemma hour_minute: "(s :: nat) mod 3600 div 60 = s div 60 mod 60" "s div 3600 = s div 60 div 60"
  by (simp_all add: div_mult2_eq [of s 60 60, simplified] mod_mult2_eq [of s 60 60, simplified])

lemma day_seconds_less:
  assumes "s1 < s2 \<or> s1 = s2 \<and> u1 < u2"
  shows "[s1 div 3600, s1 mod 3600 div 60, s1 mod 60, u1] < [s2 div 3600, s2 mod 3600 div 60, s2 mod 60, u2 :: nat]"
proof (cases "s1 = s2")
  case True
  with assms show ?thesis by simp
next
  case False
  with assms have "s1 < s2" by simp
  then show ?thesis
    using div_mod_less [of s1 s2 60] div_mod_less [of "s1 div 60" "s2 div 60" 60] unfolding hour_minute
    by (cases "s1 div 60 = s2 div 60") auto
qed

lemma append_less: "length s = length t \<Longrightarrow> s < t \<Longrightarrow> s @ a < t @ b"
  for s :: "'a :: linorder list"
  by (induction s t rule: list_induct2) auto

lemma append_less_same: "(s @ a < s @ b) = (a < b)"
  for s :: "'a :: linorder list"
  by (induction s) auto

lemma universal_time_less:
  assumes "s1 < s2 \<or> s1 = s2 \<and> u1 < u2"
  shows "pt_fields (universal_time s1 u1) < pt_fields (universal_time s2 u2)"
proof -
  obtain y1 d1 where y1: "count_off year_length 1970 (s1 div 86400) = (y1, d1)" by force
  obtain y2 d2 where y2: "count_off year_length 1970 (s2 div 86400) = (y2, d2)" by force
  obtain m1 e1 where m1: "count_off (month_length y1) 1 d1 = (m1, e1)" by force
  obtain m2 e2 where m2: "count_off (month_length y2) 1 d2 = (m2, e2)" by force
  define h1 where "h1 = [s1 mod 86400 div 3600, s1 mod 86400 mod 3600 div 60, s1 mod 86400 mod 60, u1]"
  define h2 where "h2 = [s2 mod 86400 div 3600, s2 mod 86400 mod 3600 div 60, s2 mod 86400 mod 60, u2]"
  have f1: "pt_fields (universal_time s1 u1) = [y1, m1, e1 + 1] @ h1"
    and f2: "pt_fields (universal_time s2 u2) = [y2, m2, e2 + 1] @ h2"
    by (simp_all only: universal_time_def pt_fields_def Let_def y1 y2 prod.case m1 m2 h1_def h2_def) simp_all
  show ?thesis
  proof (cases "s1 div 86400 < s2 div 86400")
    case True
    then consider "y1 < y2" | "y1 = y2" "d1 < d2" using count_off_less [OF year_length_pos y1 y2] by blast
    then have "[y1, m1, e1 + 1] < [y2, m2, e2 + 1]"
    proof cases
      case 2
      then show ?thesis using count_off_less [OF month_length_pos m1, of d2 m2 e2] m2 by auto
    qed simp
    then show ?thesis unfolding f1 f2 by (intro append_less) simp_all
  next
    case False
    with assms have day: "s1 div 86400 = s2 div 86400"
      and l: "s1 mod 86400 < s2 mod 86400 \<or> s1 mod 86400 = s2 mod 86400 \<and> u1 < u2"
      using div_mod_less [of s1 s2 86400] by auto
    from day have "y1 = y2" "m1 = m2" "e1 = e2" using y1 y2 m1 m2 by auto
    with day_seconds_less [OF l] show ?thesis unfolding f1 f2 append_less_same h1_def h2_def by simp
  qed
qed

section \<open>Names\<close>

lemma base_digit_less:
  assumes "is_base_digit 10 c" "is_base_digit 10 d" "the (char_digit c) < the (char_digit d)"
  shows "c < d"
  using assms by (auto simp: is_base_digit_def char_digit_def Let_def less_char_def split: if_splits option.splits)

lemma digits_value_order:
  assumes "length s = length t" "list_all (is_base_digit 10) s" "list_all (is_base_digit 10) t"
  shows "(digits_value 10 s < digits_value 10 t \<longrightarrow> s < t) \<and> (digits_value 10 s = digits_value 10 t \<longrightarrow> s = t)"
  using assms
proof (induction s arbitrary: t rule: rev_induct)
  case (snoc c s)
  then obtain d t' where t: "t = t' @ [d]" by (cases t rule: rev_cases) auto
  with snoc have IH: "(digits_value 10 s < digits_value 10 t' \<longrightarrow> s < t') \<and> (digits_value 10 s = digits_value 10 t' \<longrightarrow> s = t')"
    and l: "length s = length t'" by simp_all
  from snoc(3,4) t obtain p q where d: "char_digit c = Some p" "char_digit d = Some q" "p < 10" "q < 10"
    by (auto simp: is_base_digit_def split: option.splits)
  have cd: "p < q \<Longrightarrow> c < d" using base_digit_less [of c d] snoc(3,4) t d by simp
  have eq: "c = d" if "p = q"
  proof -
    from d(1,3) have "of_char c = p + 48" by (auto simp: char_digit_def Let_def split: if_splits)
    moreover from d(2,4) have "of_char d = q + 48" by (auto simp: char_digit_def Let_def split: if_splits)
    ultimately show ?thesis using that by (metis char_of_char)
  qed
  show ?case using IH d cd eq append_less [OF l] by (auto simp: t digits_value_append1 append_less_same)
qed simp

lemma padded_less:
  assumes "n < m" "m < 10 ^ w" "0 < w"
  shows "padded 10 w n < padded 10 w m"
  using assms digits_value_order [of "padded 10 w n" "padded 10 w m"] padded_all [of 10] 
  by (simp add: codec_simps)

text \<open>What the Boost library promises: \<open>YYYYMMDDTHHMMSS\<close>, and \<open>.ffffff\<close> after it when the fraction is not
  zero. The separator is the one that \<open>deliver\<close> itself writes.\<close>

definition iso_text :: "ptime \<Rightarrow> string" where
  "iso_text t = padded 10 4 (pt_year t) @ padded 10 2 (pt_month t) @ padded 10 2 (pt_day t) @ ''T'' @
     padded 10 2 (pt_hour t) @ padded 10 2 (pt_min t) @ padded 10 2 (pt_sec t)"

definition iso_documented :: "(ptime \<Rightarrow> string) \<Rightarrow> bool" where
  "iso_documented to_iso_string \<longleftrightarrow>
     (\<forall>t. to_iso_string t = iso_text t @ (if pt_frac t = 0 then [] else ''.'' @ padded 10 6 (pt_frac t)))"

text \<open>The time is one that fits.\<close>

definition in_range :: "nat \<Rightarrow> nat \<Rightarrow> bool" where
  "in_range s u \<longleftrightarrow> pt_year (universal_time s u) < 10000 \<and> u < 1000000"

lemma month_length_sum: "(\<Sum>i\<in>{1..<13}. month_length y i) = year_length y"
proof -
  have "{1..<13} = {1, 2, 3, 4, 5, 6, 7, 8, 9, 10, 11, 12 :: nat}" by auto presburger
  then show ?thesis by (simp add: month_length_def year_length_def)
qed

lemma universal_time_bounds:
  assumes "in_range s u"
  shows "pt_year (universal_time s u) < 10000" "pt_month (universal_time s u) < 100" "pt_day (universal_time s u) < 100"
    "pt_hour (universal_time s u) < 100" "pt_min (universal_time s u) < 100" "pt_sec (universal_time s u) < 100"
    "pt_frac (universal_time s u) < 1000000"
proof -
  obtain y d where y: "count_off year_length 1970 (s div 86400) = (y, d)" by force
  obtain m e where m: "count_off (month_length y) 1 d = (m, e)" by force
  have d: "d < year_length y" using count_off_sum [OF year_length_pos y] by simp
  note s = count_off_sum [OF month_length_pos m]
  have "m < 13"
  proof (rule ccontr)
    assume "\<not> m < 13"
    then have "(\<Sum>i\<in>{1..<13}. month_length y i) \<le> (\<Sum>i\<in>{1..<m}. month_length y i)" by (intro sum_mono2) auto
    with s d show False unfolding month_length_sum by simp
  qed
  moreover have "e < 31" using s by (auto simp: month_length_def split: if_splits)
  moreover have "s mod 86400 div 3600 < 24" by (simp add: less_mult_imp_div_less)
  moreover have "s mod 86400 mod 3600 div 60 < 60" by (simp add: less_mult_imp_div_less)
  moreover have "s mod 86400 mod 60 < 60" by simp
  ultimately show "pt_year (universal_time s u) < 10000" "pt_month (universal_time s u) < 100" "pt_day (universal_time s u) < 100"
    "pt_hour (universal_time s u) < 100" "pt_min (universal_time s u) < 100" "pt_sec (universal_time s u) < 100"
    "pt_frac (universal_time s u) < 1000000"
    using assms by (simp_all add: in_range_def universal_time_def y m [simplified] Let_def)
qed

lemma field_less:
  assumes "n < m \<or> n = m \<and> s < t" "n < 10 ^ w" "m < 10 ^ w" "0 < w"
  shows "padded 10 w n @ s < padded 10 w m @ t"
  using assms padded_less [of n m w] append_less [of "padded 10 w n" "padded 10 w m" s t]
  by (auto simp: codec_simps append_less_same)

text \<open>The first 22 characters of a name.\<close>

definition stamp_text :: "ptime \<Rightarrow> string" where
  "stamp_text t = iso_text t @ ''.'' @ padded 10 6 (pt_frac t)"

lemma stamp_text_less:
  assumes t: "s1 < s2 \<or> s1 = s2 \<and> u1 < u2" and r: "in_range s1 u1" "in_range s2 u2"
  shows "stamp_text (universal_time s1 u1) < stamp_text (universal_time s2 u2)"
proof -
  define t1 t2 where "t1 = universal_time s1 u1" and "t2 = universal_time s2 u2"
  note b = universal_time_bounds [OF r(1), folded t1_def] universal_time_bounds [OF r(2), folded t2_def]
  have l: "pt_fields t1 < pt_fields t2" unfolding t1_def t2_def by (rule universal_time_less [OF t])
  have last: "pt_frac t1 < pt_frac t2 \<Longrightarrow> padded 10 6 (pt_frac t1) < padded 10 6 (pt_frac t2)"
    using b by (intro padded_less) simp_all
  show ?thesis unfolding t1_def [symmetric] t2_def [symmetric] stamp_text_def iso_text_def append_assoc
    by (rule field_less) (use l b in \<open>auto simp: pt_fields_def intro!: field_less last\<close>)
qed

lemma file_name_text:
  assumes "iso_documented to_iso" "in_range s u"
  shows "file_name to_iso 6 id_str (universal_time s u) tag = stamp_text (universal_time s u) @ ''_'' @ id_str @ (if tag \<noteq> [] then ''_'' @ tag else [])"
proof -
  note b = universal_time_bounds [OF assms(2)]
  have l: "length (iso_text (universal_time s u)) = 15" using b by (simp add: iso_text_def codec_simps)
  have z: "padded 10 6 0 = replicate 6 CHR ''0''" 
  proof -
    have "digit_char 0 = CHR ''0''" by code_simp
    then show ?thesis by (simp add: padded_def digits.simps eval_nat_numeral)
  qed
  show ?thesis
    using assms(1) l z unfolding iso_documented_def file_name_def stamp_text_def Let_def by auto
qed

lemma file_name_less:
  assumes "iso_documented to_iso" "in_range s1 u1" "in_range s2 u2" "s1 < s2 \<or> s1 = s2 \<and> u1 < u2"
  shows "file_name to_iso 6 id1 (universal_time s1 u1) tag1 < file_name to_iso 6 id2 (universal_time s2 u2) tag2"
proof -
  have "length (stamp_text (universal_time s1 u1)) = length (stamp_text (universal_time s2 u2))"
    using universal_time_bounds [OF assms(2)] universal_time_bounds [OF assms(3)] by (simp add: stamp_text_def iso_text_def codec_simps)
  then show ?thesis unfolding file_name_text [OF assms(1,2)] file_name_text [OF assms(1,3)]
    using stamp_text_less [OF assms(4,2,3)] by (rule append_less)
qed

section \<open>Moving files\<close>

lemma alist_update_new: "f \<notin> fst ` set al \<Longrightarrow> AList.update f c al = al @ [(f, c)]"
  by (induction al) auto

lemma alist_delete_append: "AList.delete f (a @ b) = AList.delete f a @ AList.delete f b"
  by (induction a) auto

lemma move_file_cases:
  assumes "move_file f src dst = Some (src', dst')" "distinct (map fst src @ map fst dst)"
  obtains a c b where "src = a @ (f, c) # b" "src' = a @ b" "dst' = dst @ [(f, c)]"
proof -
  from assms(1) obtain c where c: "map_of src f = Some c" "src' = AList.delete f src" "dst' = AList.update f c dst"
    by (auto simp: move_file_def split: option.splits)
  from map_of_SomeD [OF c(1)] obtain a b where s: "src = a @ (f, c) # b" by (auto simp: in_set_conv_decomp)
  with assms(2) have "f \<notin> fst ` set a" "f \<notin> fst ` set b" "f \<notin> fst ` set dst" by auto
  with that [of a c b] s c show thesis by (simp add: alist_update_new alist_delete_append)
qed

lemma move_file_found: "(f, c) \<in> set src \<Longrightarrow> \<exists>r. move_file f src dst = Some r"
  by (cases "map_of src f") (auto simp: move_file_def map_of_eq_None_iff rev_image_eqI split: option.splits)

lemma deliver_publishes:
  "\<exists>tmp. JobDir_deliver Nothing_refused f c jd = (Inr f, jd\<lparr>jd_tmp := tmp, jd_new := AList.update f c (jd_new jd)\<rparr>)"
  by (simp add: JobDir_deliver_def open_tmp_def write_tmp_def publish_tmp_def move_file_def AList.update_conv') blast

lemma distinct_parts:
  "distinct (map fst (a @ (f, c) # b) @ map fst d @ r) \<longleftrightarrow> distinct (map fst (a @ b) @ map fst (d @ [(f, c)]) @ r)"
  by auto

section \<open>Reading\<close>

lemma set_old_ok:
  assumes "file \<in> fst ` set (jd_new jd)" "distinct (map fst (jd_new jd) @ map fst (jd_old jd))"
  obtains a c b where "jd_new jd = a @ (file, c) # b" "set_old False file jd = Inr (jd\<lparr>jd_new := a @ b, jd_old := jd_old jd @ [(file, c)]\<rparr>)"
proof -
  from assms(1) obtain c where "(file, c) \<in> set (jd_new jd)" by force
  from move_file_found [OF this] obtain s d where m: "move_file file (jd_new jd) (jd_old jd) = Some (s, d)" by force
  from move_file_cases [OF this assms(2)] obtain a c b where "jd_new jd = a @ (file, c) # b" "s = a @ b" "d = jd_old jd @ [(file, c)]" .
  with that [of a c b] m show thesis by (simp add: set_old_def)
qed

text \<open>Reading files that can all be renamed.\<close>

lemma read_items_run:
  assumes "distinct files" "set files \<subseteq> fst ` set (jd_new jd)" "distinct (map fst (jd_new jd) @ map fst (jd_old jd))"
    "\<forall>f\<in>set files. \<not> refuses f"
  shows "\<exists>jd'. read_items refuses (files @ rest) res jd = read_items refuses rest (res @ files) jd' \<and>
    jd_tmp jd' = jd_tmp jd \<and> jd_new jd' = filter (\<lambda>x. fst x \<notin> set files) (jd_new jd) \<and>
    map fst (jd_old jd') = map fst (jd_old jd) @ files \<and> set (jd_old jd') = set (jd_old jd) \<union> {x \<in> set (jd_new jd). fst x \<in> set files}"
  using assms
proof (induction files arbitrary: jd res)
  case Nil
  then show ?case by (intro exI [of _ jd]) simp
next
  case (Cons f files)
  from Cons.prems(2) have "f \<in> fst ` set (jd_new jd)" by simp
  from set_old_ok [OF this Cons.prems(3)] obtain a c b where n: "jd_new jd = a @ (f, c) # b"
    and s: "set_old False f jd = Inr (jd\<lparr>jd_new := a @ b, jd_old := jd_old jd @ [(f, c)]\<rparr>)" .
  let ?jd = "jd\<lparr>jd_new := a @ b, jd_old := jd_old jd @ [(f, c)]\<rparr>"
  have fr: "f \<notin> fst ` set (a @ b)" using Cons.prems(3) n by auto
  have sub: "set files \<subseteq> fst ` set (a @ b)" using Cons.prems(1,2) n by auto
  obtain jd' where jd': "read_items refuses (files @ rest) (res @ [f]) ?jd = read_items refuses rest ((res @ [f]) @ files) jd'"
    "jd_tmp jd' = jd_tmp ?jd" "jd_new jd' = filter (\<lambda>x. fst x \<notin> set files) (jd_new ?jd)"
    "map fst (jd_old jd') = map fst (jd_old ?jd) @ files"
    "set (jd_old jd') = set (jd_old ?jd) \<union> {x \<in> set (jd_new ?jd). fst x \<in> set files}"
    using Cons.IH [of ?jd "res @ [f]"] Cons.prems n sub by auto
  have s2: "set_old (refuses f) f jd = Inr ?jd" using s Cons.prems(4) by simp
  have nf: "filter (\<lambda>x. fst x \<notin> set files) (a @ b) = filter (\<lambda>x. fst x \<notin> set (f # files)) (jd_new jd)"
    using fr unfolding n by (auto intro!: filter_cong arg_cong2 [where f = append])
  have n': "jd_new jd' = filter (\<lambda>x. fst x \<notin> set (f # files)) (jd_new jd)"
    using jd'(3) unfolding nf [symmetric] by simp
  have o': "set (jd_old jd') = set (jd_old jd) \<union> {x \<in> set (jd_new jd). fst x \<in> set (f # files)}"
    using jd'(5) fr unfolding n by auto
  show ?case by (rule exI [of _ jd']) (simp only: n' o', simp add: s2 jd'(1,2,4))
qed

section \<open>Requests are read in the order of the deliveries\<close>

text \<open>A delivery: the time, the thread of the \<open>JobDir\<close>, the tag, the contents.\<close>

record delivery =
  dl_sec :: nat
  dl_usec :: nat
  dl_id :: string
  dl_tag :: string
  dl_contents :: string

definition dl_name :: "(ptime \<Rightarrow> string) \<Rightarrow> delivery \<Rightarrow> string" where
  "dl_name to_iso d = file_name to_iso 6 (dl_id d) (universal_time (dl_sec d) (dl_usec d)) (dl_tag d)"

fun deliver_all :: "(ptime \<Rightarrow> string) \<Rightarrow> delivery list \<Rightarrow> job_dir \<Rightarrow> job_dir" where
  "deliver_all to_iso [] jd = jd"
| "deliver_all to_iso (d # ds) jd =
     deliver_all to_iso ds (snd (JobDir_deliver Nothing_refused (dl_name to_iso d) (dl_contents d) jd))"

definition earlier :: "delivery \<Rightarrow> delivery \<Rightarrow> bool" where
  "earlier d e \<longleftrightarrow> dl_sec d < dl_sec e \<or> dl_sec d = dl_sec e \<and> dl_usec d < dl_usec e"

lemma deliver_all_new:
  assumes "distinct (map (dl_name to_iso) ds)" "\<forall>d\<in>set ds. dl_name to_iso d \<notin> fst ` set (jd_new jd)"
  shows "jd_new (deliver_all to_iso ds jd) = jd_new jd @ map (\<lambda>d. (dl_name to_iso d, dl_contents d)) ds \<and>
    jd_old (deliver_all to_iso ds jd) = jd_old jd"
  using assms
proof (induction ds arbitrary: jd)
  case (Cons d ds)
  obtain tmp where t: "JobDir_deliver Nothing_refused (dl_name to_iso d) (dl_contents d) jd =
      (Inr (dl_name to_iso d), jd\<lparr>jd_tmp := tmp, jd_new := AList.update (dl_name to_iso d) (dl_contents d) (jd_new jd)\<rparr>)"
    using deliver_publishes by blast
  have n: "AList.update (dl_name to_iso d) (dl_contents d) (jd_new jd) = jd_new jd @ [(dl_name to_iso d, dl_contents d)]"
    using Cons.prems(2) by (simp add: alist_update_new)
  let ?jd = "jd\<lparr>jd_tmp := tmp, jd_new := jd_new jd @ [(dl_name to_iso d, dl_contents d)]\<rparr>"
  have "\<forall>e\<in>set ds. dl_name to_iso e \<notin> fst ` set (jd_new ?jd)"
  proof
    fix e assume e: "e \<in> set ds"
    then have "dl_name to_iso e \<noteq> dl_name to_iso d" using Cons.prems(1) by (metis distinct.simps(2) image_eqI list.set_map list.simps(9))
    then show "dl_name to_iso e \<notin> fst ` set (jd_new ?jd)" using Cons.prems(2) e by simp
  qed
  with Cons.IH [of ?jd] Cons.prems(1) show ?case by (simp add: t n)
qed simp

lemma names_sorted:
  assumes "iso_documented to_iso" "\<forall>d\<in>set ds. in_range (dl_sec d) (dl_usec d)" "sorted_wrt earlier ds"
  shows "sorted_wrt (<) (map (dl_name to_iso) ds)"
  using assms(2,3)
proof (induction ds)
  case (Cons d ds)
  have "dl_name to_iso d < dl_name to_iso e" if "e \<in> set ds" for e
    using Cons.prems that file_name_less [OF assms(1), of "dl_sec d" "dl_usec d" "dl_sec e" "dl_usec e"]
    by (auto simp: dl_name_def earlier_def)
  with Cons show ?case by simp
qed simp

lemma deliveries_read:
  assumes "iso_documented to_iso" "\<forall>d\<in>set ds. in_range (dl_sec d) (dl_usec d)" "sorted_wrt earlier ds"
    and "jd_new jd = []" "\<forall>d\<in>set ds. dl_name to_iso d \<notin> fst ` set (jd_old jd) \<and> CHR 0x00 \<notin> set (dl_contents d)"
    and "distinct (map fst (jd_old jd))"
  shows "\<exists>jd'. JobDirReader_read (\<lambda>_. False) (deliver_all to_iso ds jd) = (Inr (map (dl_name to_iso) ds), jd') \<and>
    jd_new jd' = [] \<and> (\<forall>d\<in>set ds. item_value (dl_name to_iso d) jd' = Some (dl_contents d))"
proof -
  let ?n = "map (dl_name to_iso) ds" and ?j = "deliver_all to_iso ds jd"
  have s: "sorted ?n" "distinct ?n" using names_sorted [OF assms(1-3)] by (simp_all add: strict_sorted_iff)
  have j: "jd_new ?j = map (\<lambda>d. (dl_name to_iso d, dl_contents d)) ds" "jd_old ?j = jd_old jd"
    using deliver_all_new [OF s(2), of jd] assms(4) by simp_all
  have e: "new_entries ?j = ?n" using s by (simp add: new_entries_def j comp_def sorted_sort_id)
  have d: "distinct (map fst (jd_new ?j) @ map fst (jd_old ?j))" using s(2) assms(5,6) by (auto simp: j comp_def)
  have sub: "set ?n \<subseteq> fst ` set (jd_new ?j)" unfolding j(1) by (simp add: image_image)
  obtain jd' where r: "read_items (\<lambda>_. False) (?n @ []) [] ?j = read_items (\<lambda>_. False) [] ([] @ ?n) jd'"
    "jd_new jd' = filter (\<lambda>x. fst x \<notin> set ?n) (jd_new ?j)" "map fst (jd_old jd') = map fst (jd_old ?j) @ ?n"
    "set (jd_old jd') = set (jd_old ?j) \<union> {x \<in> set (jd_new ?j). fst x \<in> set ?n}"
    using read_items_run [OF s(2) sub d, of "\<lambda>_. False" "[]" "[]"] by blast
  have "x \<notin> fst ` set (jd_old jd)" if "x \<in> set ?n" for x
  proof -
    from that obtain d where "d \<in> set ds" "x = dl_name to_iso d" by (auto simp only: set_map)
    with assms(5) show ?thesis by metis
  qed
  then have "set (map fst (jd_old jd)) \<inter> set ?n = {}" unfolding set_map [of fst] by blast
  then have "distinct (map fst (jd_old jd'))" unfolding r(3) j(2) using s(2) assms(6) by (simp only: distinct_append)
  then have vals: "item_value (dl_name to_iso x) jd' = Some (dl_contents x)" if "x \<in> set ds" for x
  proof -
    have "(dl_name to_iso x, dl_contents x) \<in> set (jd_old jd')" unfolding r(4) j(1) using that by auto
    then have "map_of (jd_old jd') (dl_name to_iso x) = Some (dl_contents x)"
      using \<open>distinct (map fst (jd_old jd'))\<close> by simp
    moreover have "takeWhile (\<lambda>c. c \<noteq> CHR 0x00) (dl_contents x) = dl_contents x"
      using assms(5) that by (auto simp: takeWhile_eq_all_conv)
    ultimately show ?thesis by (simp add: item_value_def)
  qed
  have "jd_new jd' = []" unfolding r(2) j(1) by (auto simp: filter_empty_conv)
  with vals show ?thesis using r(1) unfolding JobDirReader_read_def e by (intro exI [of _ jd']) simp
qed

text \<open>Requests that are delivered at increasing times are read in that order, each once and complete, and
  leave \<open>new\<close> empty.\<close>

theorem requests_read_in_order:
  assumes "iso_documented to_iso" "\<forall>d\<in>set ds. in_range (dl_sec d) (dl_usec d)" "sorted_wrt earlier ds"
    and "jd_new jd = []" "\<forall>d\<in>set ds. dl_name to_iso d \<notin> fst ` set (jd_old jd) \<and> CHR 0x00 \<notin> set (dl_contents d)"
    and "distinct (map fst (jd_old jd))"
  shows "\<exists>jd'. JobDirReader_read (\<lambda>_. False) (deliver_all to_iso ds jd) = (Inr (map (dl_name to_iso) ds), jd') \<and>
    jd_new jd' = [] \<and> (\<forall>d\<in>set ds. item_value (dl_name to_iso d) jd' = Some (dl_contents d))"
  using assms by (rule deliveries_read)

text \<open>Half a second past a full second, and the full second before it.\<close>

definition plain_iso :: "ptime \<Rightarrow> string" where
  "plain_iso t = iso_text t @ (if pt_frac t = 0 then [] else ''.'' @ padded 10 6 (pt_frac t))"

definition two_deliveries :: "delivery list" where
  "two_deliveries = [\<lparr>dl_sec = 1330000000, dl_usec = 0, dl_id = ''7'', dl_tag = [], dl_contents = ''[a]''\<rparr>,
     \<lparr>dl_sec = 1330000000, dl_usec = 500000, dl_id = ''7'', dl_tag = [], dl_contents = ''[b]''\<rparr>]"

theorem requests_read_in_order_witness:
  "fst (JobDirReader_read (\<lambda>_. False) (deliver_all plain_iso two_deliveries \<lparr>jd_tmp = [], jd_new = [], jd_old = []\<rparr>)) =
    Inr (map (dl_name plain_iso) two_deliveries)"
proof -
  let ?jd = "\<lparr>jd_tmp = [], jd_new = [], jd_old = []\<rparr>"
  have a: "iso_documented plain_iso" by (simp add: iso_documented_def plain_iso_def)
  have b: "\<forall>d\<in>set two_deliveries. in_range (dl_sec d) (dl_usec d)"
    by (simp add: two_deliveries_def in_range_def universal_time_def count_off.simps year_length_def leap_year_def month_length_def Let_def)
  have c: "sorted_wrt earlier two_deliveries" by (simp add: two_deliveries_def earlier_def)
  have d: "\<forall>d\<in>set two_deliveries. dl_name plain_iso d \<notin> fst ` set (jd_old ?jd) \<and> CHR 0x00 \<notin> set (dl_contents d)"
    by (simp add: two_deliveries_def)
  from requests_read_in_order [OF a b c, of ?jd] d show ?thesis by auto
qed

section \<open>No request is lost\<close>

text \<open>The files of \<open>new\<close> and \<open>old\<close> and the removed ones.\<close>

definition published :: "jobdir_world \<Rightarrow> string list" where
  "published w = map fst (jd_new (jw_dir w)) @ map fst (jd_old (jw_dir w)) @ jw_removed w"

definition delivered :: "(string \<times> string) list \<Rightarrow> jobdir_world \<Rightarrow> string set" where
  "delivered ds w = {fst (ds ! i) |i. i < length ds \<and> jw_progress w ! i = Delivered}"

definition jobdir_inv :: "(string \<times> string) list \<Rightarrow> jobdir_world \<Rightarrow> bool" where
  "jobdir_inv ds w \<longleftrightarrow> length (jw_progress w) = length ds \<and> distinct (published w) \<and> set (published w) = delivered ds w \<and>
     set (jd_new (jw_dir w)) \<union> set (jd_old (jw_dir w)) \<subseteq> set ds \<and>
     (\<forall>i<length ds. \<forall>k. jw_progress w ! i = Writing k \<longrightarrow> map_of (jd_tmp (jw_dir w)) (fst (ds ! i)) = Some (take k (snd (ds ! i))))"

lemma delivered_update:
  "i < length ds \<Longrightarrow> length (jw_progress w) = length ds \<Longrightarrow> jw_progress w ! i \<noteq> Delivered \<Longrightarrow> p \<noteq> Delivered \<Longrightarrow>
    delivered ds (w\<lparr>jw_dir := jd, jw_progress := (jw_progress w)[i := p]\<rparr>) = delivered ds w"
  by (auto simp: delivered_def nth_list_update)

lemma delivered_publish:
  "i < length ds \<Longrightarrow> length (jw_progress w) = length ds \<Longrightarrow>
    delivered ds (w\<lparr>jw_dir := jd, jw_progress := (jw_progress w)[i := Delivered]\<rparr>) = insert (fst (ds ! i)) (delivered ds w)"
  by (auto simp: delivered_def nth_list_update)

lemma names_distinct: "distinct (map fst ds) \<Longrightarrow> i < length ds \<Longrightarrow> j < length ds \<Longrightarrow> i \<noteq> j \<Longrightarrow> fst (ds ! i) \<noteq> fst (ds ! j)"
  by (simp add: distinct_conv_nth)

lemma take_plus: "take (k + n) s = take k s @ take n (drop k s)"
  by (simp add: take_add)

lemma not_published:
  assumes "distinct (map fst ds)" "jobdir_inv ds w" "i < length ds" "jw_progress w ! i \<noteq> Delivered"
  shows "fst (ds ! i) \<notin> set (published w)"
proof
  assume "fst (ds ! i) \<in> set (published w)"
  with assms(2) obtain j where "j < length ds" "fst (ds ! i) = fst (ds ! j)" "jw_progress w ! j = Delivered"
    by (auto simp: jobdir_inv_def delivered_def)
  with names_distinct [OF assms(1,3), of j] assms(4) show False by metis
qed

text \<open>Steps that only move published files.\<close>

lemma jobdir_inv_moved:
  assumes "jobdir_inv ds w" "jd_tmp jd = jd_tmp (jw_dir w)"
    and "mset (jd_new jd) + mset (jd_old jd) = mset (jd_new (jw_dir w)) + mset (jd_old (jw_dir w))"
  shows "jobdir_inv ds (w\<lparr>jw_dir := jd\<rparr>)"
proof -
  from assms(3) have m: "mset (jd_new jd @ jd_old jd) = mset (jd_new (jw_dir w) @ jd_old (jw_dir w))" by simp
  then have "mset (map fst (jd_new jd @ jd_old jd)) = mset (map fst (jd_new (jw_dir w) @ jd_old (jw_dir w)))"
    by (simp only: mset_map)
  then have p: "mset (published (w\<lparr>jw_dir := jd\<rparr>)) = mset (published w)" by (simp add: published_def add.assoc [symmetric])
  have "set (jd_new jd) \<union> set (jd_old jd) = set (jd_new (jw_dir w)) \<union> set (jd_old (jw_dir w))"
    using m by (metis mset_eq_setD set_append)
  moreover have "distinct (published (w\<lparr>jw_dir := jd\<rparr>)) = distinct (published w)" using p by (rule mset_eq_imp_distinct_iff)
  moreover have "set (published (w\<lparr>jw_dir := jd\<rparr>)) = set (published w)" using p by (rule mset_eq_setD)
  ultimately show ?thesis using assms(1,2) by (simp add: jobdir_inv_def delivered_def)
qed

lemma move_file_mset:
  assumes "move_file f src dst = Some (src', dst')" "distinct (map fst src @ map fst dst)"
  shows "mset src' + mset dst' = mset src + mset dst"
  using assms by (rule move_file_cases) simp

lemma jobdir_inv_step:
  assumes "distinct (map fst ds)" "jobdir_inv ds w" "jd_step ds w w'"
  shows "jobdir_inv ds w'"
  using assms(3,2)
proof cases
  case (d_open i)
  with assms show ?thesis
    by (auto simp: jobdir_inv_def published_def open_tmp_def delivered_update AList.update_conv' nth_list_update names_distinct
        dest: names_distinct [OF assms(1)])
next
  case (d_write i k n)
  with assms show ?thesis
    by (auto simp: jobdir_inv_def published_def write_tmp_def delivered_update AList.update_conv' nth_list_update take_plus
        dest: names_distinct [OF assms(1)])
next
  case (d_publish i jd)
  let ?f = "fst (ds ! i)" and ?d = "jw_dir w"
  have c: "map_of (jd_tmp ?d) ?f = Some (snd (ds ! i))" using assms(2) d_publish by (simp add: jobdir_inv_def)
  have f: "?f \<notin> set (published w)" using not_published [OF assms(1,2) d_publish(2)] d_publish(3) by simp
  then have "?f \<notin> fst ` set (jd_new ?d)" by (simp add: published_def)
  with c d_publish(4) have jd: "jd = ?d\<lparr>jd_tmp := AList.delete ?f (jd_tmp ?d), jd_new := jd_new ?d @ [ds ! i]\<rparr>"
    by (simp add: publish_tmp_def move_file_def alist_update_new)
  have p: "mset (published w') = add_mset ?f (mset (published w))" unfolding d_publish(1) jd by (simp add: published_def)
  have "distinct (published w')"
    using f assms(2) mset_eq_imp_distinct_iff [of "published w'" "?f # published w"] p by (simp add: jobdir_inv_def)
  moreover have "set (published w') = insert ?f (set (published w))" using p mset_eq_setD [of "published w'" "?f # published w"] by simp
  moreover have "delivered ds w' = insert ?f (delivered ds w)"
    unfolding d_publish(1) using assms(2) d_publish(2) by (simp add: delivered_publish jobdir_inv_def)
  moreover have "ds ! i \<in> set ds" using d_publish(2) by simp
  moreover have "map_of (jd_tmp (jw_dir w')) (fst (ds ! j)) = Some (take k (snd (ds ! j)))"
    if "j < length ds" "jw_progress w' ! j = Writing k" for j k
  proof -
    have l: "length (jw_progress w) = length ds" using assms(2) by (simp add: jobdir_inv_def)
    with that d_publish(1,2) have "j \<noteq> i" "jw_progress w ! j = Writing k" by (auto simp: nth_list_update split: if_splits)
    then show ?thesis using names_distinct [OF assms(1) that(1) d_publish(2)] that(1) assms(2) by (simp add: d_publish(1) jd jobdir_inv_def)
  qed
  ultimately show ?thesis using assms(2) unfolding jobdir_inv_def by (simp add: d_publish(1) jd)
next
  case (d_fail i)
  with assms show ?thesis
    using delivered_update [of i ds w Given_up "jw_dir w"]
    by (auto simp: jobdir_inv_def published_def nth_list_update)
next
  case (r_take refused f jd)
  have d: "distinct (map fst (jd_new (jw_dir w)) @ map fst (jd_old (jw_dir w)))"
    using assms(2) by (auto simp: jobdir_inv_def published_def)
  from r_take(2) obtain s t where "move_file f (jd_new (jw_dir w)) (jd_old (jw_dir w)) = Some (s, t)"
    and jd: "jd = jw_dir w\<lparr>jd_new := s, jd_old := t\<rparr>" by (auto simp: set_old_def split: if_splits option.splits)
  from move_file_mset [OF this(1) d] show ?thesis
    unfolding r_take(1) by (intro jobdir_inv_moved assms(2)) (simp_all add: jd)
next
  case (r_remove f)
  from r_remove(2) obtain c where "(f, c) \<in> set (jd_old (jw_dir w))" by force
  then obtain a b where o: "jd_old (jw_dir w) = a @ (f, c) # b" by (auto simp: in_set_conv_decomp)
  have "distinct (map fst (jd_old (jw_dir w)))" using assms(2) by (auto simp: jobdir_inv_def published_def)
  then have d: "AList.delete f (jd_old (jw_dir w)) = a @ b" unfolding o by (auto simp: alist_delete_append)
  have p: "mset (published w') = mset (published w)" unfolding r_remove(1) by (simp add: published_def remove_from_input_def d [unfolded o] o)
  from assms(2) show ?thesis
    using mset_eq_imp_distinct_iff [OF p] mset_eq_setD [OF p] unfolding r_remove(1)
    by (auto simp: jobdir_inv_def remove_from_input_def d [unfolded o] o delivered_def)
next
  case (r_restore f)
  show ?thesis
  proof (cases "move_file f (jd_old (jw_dir w)) (jd_new (jw_dir w))")
    case None
    then show ?thesis using assms(2) by (simp add: r_restore restore_file_def)
  next
    case (Some r)
    then obtain s t where m: "move_file f (jd_old (jw_dir w)) (jd_new (jw_dir w)) = Some (s, t)" by (cases r) simp
    have "distinct (map fst (jd_old (jw_dir w)) @ map fst (jd_new (jw_dir w)))"
      using assms(2) by (auto simp: jobdir_inv_def published_def)
    from move_file_mset [OF m this] show ?thesis
      unfolding r_restore by (intro jobdir_inv_moved assms(2)) (simp_all add: restore_file_def m add.commute)
  qed
qed

lemma jobdir_inv_start: "jobdir_inv ds (jobdir_start (length ds))"
  by (auto simp: jobdir_inv_def jobdir_start_def published_def delivered_def)

lemma jobdir_inv_reachable:
  assumes "(jd_step ds)\<^sup>*\<^sup>* (jobdir_start (length ds)) w" "distinct (map fst ds)"
  shows "jobdir_inv ds w"
  using assms(1) by (induction rule: rtranclp_induct) (simp_all add: jobdir_inv_start jobdir_inv_step [OF assms(2)])

text \<open>C7: when no two deliveries have the same file name, then whatever the writers, the reader and the start script do, and
  wherever they are stopped, each request whose delivery
  has ended is in exactly one of \<open>new\<close>, \<open>old\<close> and the removed ones, no other request is there, and its
  contents are complete.\<close>

theorem requests_conserved:
  assumes "distinct (map fst ds)" "(jd_step ds)\<^sup>*\<^sup>* (jobdir_start (length ds)) w"
  shows "distinct (map fst (jd_new (jw_dir w)) @ map fst (jd_old (jw_dir w)) @ jw_removed w) \<and>
    set (map fst (jd_new (jw_dir w)) @ map fst (jd_old (jw_dir w)) @ jw_removed w) =
      {fst (ds ! i) |i. i < length ds \<and> jw_progress w ! i = Delivered} \<and>
    set (jd_new (jw_dir w)) \<union> set (jd_old (jw_dir w)) \<subseteq> set ds"
  using jobdir_inv_reachable [OF assms(2,1)] by (simp add: jobdir_inv_def published_def delivered_def)

text \<open>The calls are sequences of steps.\<close>

lemma jw_dir_twice: "w\<lparr>jw_dir := jd1\<rparr>\<lparr>jw_dir := jd2\<rparr> = w\<lparr>jw_dir := jd2\<rparr>"
  by simp

lemma read_items_steps:
  "read_items refuses files res (jw_dir w) = (r, jd) \<Longrightarrow> (jd_step ds)\<^sup>*\<^sup>* w (w\<lparr>jw_dir := jd\<rparr>)"
proof (induction files arbitrary: res w)
  case (Cons f files)
  show ?case
  proof (cases "set_old (refuses f) f (jw_dir w)")
    case (Inr jd1)
    then have "jd_step ds w (w\<lparr>jw_dir := jd1\<rparr>)" by (rule r_take)
    moreover have "(jd_step ds)\<^sup>*\<^sup>* (w\<lparr>jw_dir := jd1\<rparr>) (w\<lparr>jw_dir := jd1\<rparr>\<lparr>jw_dir := jd\<rparr>)"
      using Cons Inr by (intro Cons.IH [of "res @ [f]"]) simp
    ultimately show ?thesis unfolding jw_dir_twice by (rule converse_rtranclp_into_rtranclp)
  next
    case (Inl e)
    then have "w\<lparr>jw_dir := jd\<rparr> = w" using Cons.prems by (cases w) simp
    then show ?thesis by simp
  qed
next
  case Nil
  then have "w\<lparr>jw_dir := jd\<rparr> = w" by (cases w) simp
  then show ?case by simp
qed

lemma read_steps: "JobDirReader_read refuses (jw_dir w) = (r, jd) \<Longrightarrow> (jd_step ds)\<^sup>*\<^sup>* w (w\<lparr>jw_dir := jd\<rparr>)"
  unfolding JobDirReader_read_def by (rule read_items_steps)

lemma check_input_steps: "(jd_step ds)\<^sup>*\<^sup>* w (w\<lparr>jw_dir := check_input (jw_dir w)\<rparr>)"
proof -
  have "(jd_step ds)\<^sup>*\<^sup>* w (w\<lparr>jw_dir := fold restore_file files (jw_dir w)\<rparr>)" for files
  proof (induction files arbitrary: w)
    case (Cons f files)
    have "jd_step ds w (w\<lparr>jw_dir := restore_file f (jw_dir w)\<rparr>)" by (rule r_restore)
    then show ?case using Cons [of "w\<lparr>jw_dir := restore_file f (jw_dir w)\<rparr>"] by (simp add: converse_rtranclp_into_rtranclp)
  qed simp
  then show ?thesis unfolding check_input_def .
qed

text \<open>One request, delivered and read.\<close>

theorem requests_conserved_witness:
  "\<exists>w :: jobdir_world. jw_progress w = [Delivered] \<and> set (jd_new (jw_dir w)) \<union> set (jd_old (jw_dir w)) \<subseteq> {(''f'', ''[]'')}"
proof -
  let ?ds = "[(''f'', ''[]'')]"
  define w1 where "w1 = \<lparr>jw_dir = \<lparr>jd_tmp = [(''f'', [])], jd_new = [], jd_old = []\<rparr>, jw_progress = [Writing 0], jw_removed = []\<rparr>"
  define w2 where "w2 = \<lparr>jw_dir = \<lparr>jd_tmp = [(''f'', ''[]'')], jd_new = [], jd_old = []\<rparr>, jw_progress = [Writing 2], jw_removed = []\<rparr>"
  define w3 where "w3 = \<lparr>jw_dir = \<lparr>jd_tmp = [], jd_new = [(''f'', ''[]'')], jd_old = []\<rparr>, jw_progress = [Delivered], jw_removed = []\<rparr>"
  have "jd_step ?ds (jobdir_start (length ?ds)) w1"
    using d_open [of 0 ?ds "jobdir_start 1"] by (simp add: jobdir_start_def open_tmp_def w1_def)
  moreover have "jd_step ?ds w1 w2" using d_write [of 0 ?ds w1 0 2] by (simp add: write_tmp_def numeral_2_eq_2 w1_def w2_def)
  moreover have "jd_step ?ds w2 w3" using d_publish [of 0 ?ds w2] by (simp add: publish_tmp_def move_file_def w2_def w3_def)
  ultimately have reach: "(jd_step ?ds)\<^sup>*\<^sup>* (jobdir_start (length ?ds)) w3"
    by (meson converse_rtranclp_into_rtranclp rtranclp.rtrancl_refl)
  have "distinct (map fst ?ds)" by simp
  from requests_conserved [OF this reach] have "set (jd_new (jw_dir w3)) \<union> set (jd_old (jw_dir w3)) \<subseteq> {(''f'', ''[]'')}" by simp
  moreover have "jw_progress w3 = [Delivered]" by (simp add: w3_def)
  ultimately show ?thesis by blast
qed

section \<open>What goes wrong\<close>

text \<open>A rename that fails makes the reader throw, and the files that it has moved before are in \<open>old\<close>: no later
  call returns them.\<close>

theorem read_failure_drops:
  assumes "new_entries jd = files @ f # rest" "\<forall>x\<in>set files. \<not> refuses x" "refuses f"
    and "distinct (map fst (jd_new jd) @ map fst (jd_old jd))"
  shows "\<exists>jd'. JobDirReader_read refuses jd = (Inl Rename_failed, jd') \<and> set files \<subseteq> set (old_entries jd') \<and>
    new_entries jd' = f # rest"
proof -
  have m: "mset (files @ f # rest) = mset (map fst (jd_new jd))" using assms(1) by (metis mset_sort new_entries_def)
  have d: "distinct (files @ f # rest)" using assms(4) m by (metis distinct_append mset_eq_imp_distinct_iff)
  have srt: "sorted (files @ f # rest)" unfolding assms(1) [symmetric] new_entries_def by (rule sorted_sort)
  have st: "set (files @ f # rest) = fst ` set (jd_new jd)" using m by (metis set_mset_mset list.set_map)
  obtain jd' where r: "read_items refuses (files @ f # rest) [] jd = read_items refuses (f # rest) ([] @ files) jd'"
    "jd_new jd' = filter (\<lambda>x. fst x \<notin> set files) (jd_new jd)" "map fst (jd_old jd') = map fst (jd_old jd) @ files"
    using read_items_run [of files jd refuses "f # rest" "[]"] d st assms(2,4) by auto
  have e: "JobDirReader_read refuses jd = (Inl Rename_failed, jd')"
    using r(1) assms(3) unfolding JobDirReader_read_def assms(1) by (simp add: set_old_def)
  have "set files \<subseteq> set (old_entries jd')" unfolding old_entries_def using r(3) by (metis set_append set_sort sup_ge2)
  moreover have "new_entries jd' = f # rest"
  proof -
    have "map fst (jd_new jd') = filter (\<lambda>x. x \<notin> set files) (map fst (jd_new jd))" unfolding r(2) by (simp add: filter_map comp_def)
    then have "mset (map fst (jd_new jd')) = filter_mset (\<lambda>x. x \<notin> set files) (mset (files @ f # rest))" using m by (metis mset_filter)
    also have "\<dots> = mset (filter (\<lambda>x. x \<notin> set files) (files @ f # rest))" by (simp only: mset_filter)
    also have "filter (\<lambda>x. x \<notin> set files) (files @ f # rest) = f # rest" using d by (auto simp: filter_id_conv filter_empty_conv)
    finally have "mset (map fst (jd_new jd')) = mset (f # rest)" .
    moreover have "sorted (f # rest)" using srt sorted_append by blast
    ultimately show ?thesis unfolding new_entries_def by (metis properties_for_sort)
  qed
  ultimately show ?thesis using e by blast
qed

theorem read_failure_drops_witness:
  "\<exists>jd'. JobDirReader_read (\<lambda>f. f = ''b'') \<lparr>jd_tmp = [], jd_new = [(''b'', ''2''), (''a'', ''1'')], jd_old = []\<rparr> =
    (Inl Rename_failed, jd') \<and> set [''a''] \<subseteq> set (old_entries jd') \<and> new_entries jd' = [''b'']"
  by (rule read_failure_drops) (simp_all add: new_entries_def)

text \<open>two deliveries through one \<open>JobDir\<close> within a microsecond with the same tag both succeed, and the second replaces the
  first.\<close>

theorem same_name_overwrites:
  fixes to_iso :: "ptime \<Rightarrow> string" and t :: ptime and id_str tag :: string
  defines "name \<equiv> file_name to_iso 6 id_str t tag"
  shows "\<exists>jd1 jd2. JobDir_deliver Nothing_refused name first jd = (Inr name, jd1) \<and>
    JobDir_deliver Nothing_refused name second jd1 = (Inr name, jd2) \<and> map_of (jd_new jd2) name = Some second \<and>
    length (new_entries jd2) = length (new_entries jd1)"
proof -
  obtain t1 where 1: "JobDir_deliver Nothing_refused name first jd = (Inr name, jd\<lparr>jd_tmp := t1, jd_new := AList.update name first (jd_new jd)\<rparr>)"
    (is "_ = (_, ?j)") using deliver_publishes by blast
  obtain t2 where 2: "JobDir_deliver Nothing_refused name second ?j = (Inr name, ?j\<lparr>jd_tmp := t2, jd_new := AList.update name second (jd_new ?j)\<rparr>)"
    using deliver_publishes by blast
  have "length (AList.update name second (AList.update name first l)) = length (AList.update name first l)" for l :: dir
    by (induction l) auto
  then show ?thesis using 1 2 by (auto simp: new_entries_def AList.update_conv')
qed

end
