(* ===== verification/Wm_Dispatch_Props.thy ===== *)
theory Wm_Dispatch_Props
  imports Wm_Dispatch Job_Dir_Props Wm_Events_Props
begin

text \<open>
  The properties of the dispatcher: every request that it reads is removed, or owned by one event of
  the queue, or stays in the directory because of the LB; submissions enter the queue in the order
  of their delivery; what invalid requests do to the daemon.
\<close>

section \<open>The queue\<close>

lemma insert_same_priority:
  assumes "ready_ordered q" "\<forall>x\<in>set q. tp_priority (fst x) = p \<longrightarrow> tp_time (fst x) \<le> t"
  shows "filter (\<lambda>x. tp_priority (fst x) = p) (multimap_insert priority_first (\<lparr>tp_time = t, tp_priority = p\<rparr>, f) q) =
    filter (\<lambda>x. tp_priority (fst x) = p) q @ [(\<lparr>tp_time = t, tp_priority = p\<rparr>, f)]"
proof -
  let ?k = "\<lparr>tp_time = t, tp_priority = p\<rparr>"
  let ?P = "\<lambda>x. \<not> priority_first ?k (fst x)" and ?F = "\<lambda>x. tp_priority (fst x) = p"
  have "p < tp_priority (fst x)" if "x \<in> set (dropWhile ?P q)" for x
  proof -
    from that obtain y ys where y: "dropWhile ?P q = y # ys" by (cases "dropWhile ?P q") simp_all
    then have "priority_first ?k (fst y)" using hd_dropWhile [of ?P q] by auto
    moreover have "y \<in> set q" using y by (metis list.set_intros(1) set_dropWhileD)
    ultimately have "p < tp_priority (fst y)" using assms(2) by (auto simp: priority_first_def)
    moreover have "ready_ordered (takeWhile ?P q @ y # ys)" using assms(1) y by (metis takeWhile_dropWhile_id)
    then have "x = y \<or> \<not> priority_first (fst x) (fst y)" using that unfolding y ready_ordered_def sorted_wrt_append by auto
    ultimately show ?thesis by (auto simp: priority_first_def)
  qed
  then have "filter ?F (dropWhile ?P q) = []" by (auto simp: filter_empty_conv)
  then have "filter ?F q = filter ?F (takeWhile ?P q)" by (metis append.right_neutral filter_append takeWhile_dropWhile_id)
  with \<open>filter ?F (dropWhile ?P q) = []\<close> show ?thesis by (simp add: multimap_insert_def)
qed

section \<open>Handling a list of requests\<close>

text \<open>What the dispatcher and the recovery have in common: a loop over the requests that goes on while the handler returns and
  ends with the first exception, and a property of the state that the handler keeps.\<close>

locale request_loop =
  fixes handler :: "nat \<Rightarrow> 'i \<Rightarrow> 'w \<Rightarrow> unit req_result \<times> 'w"
    and loop :: "nat \<Rightarrow> 'i list \<Rightarrow> 'w \<Rightarrow> unit req_result \<times> 'w"
    and ok :: "'w \<Rightarrow> bool"
  assumes loop_Nil: "loop k [] w = (Ok (), w)"
    and loop_Cons: "loop k (i # is) w = (case handler k i w of
        (Ok _, w') \<Rightarrow> loop (Suc k) is w' | (Raise e, w') \<Rightarrow> (Raise e, w') | (Segfault, w') \<Rightarrow> (Segfault, w'))"
    and handler_ok: "ok w \<Longrightarrow> ok (snd (handler k i w))"
begin

lemma loop_ok: "ok w \<Longrightarrow> ok (snd (loop k is w))"
proof (induction "is" arbitrary: k w)
  case (Cons i "is")
  obtain r w' where r: "handler k i w = (r, w')" by force
  with handler_ok [OF Cons.prems, of k i] have "ok w'" by simp
  with Cons.IH r show ?case by (cases r) (simp_all add: loop_Cons)
qed (simp add: loop_Nil)

end

section \<open>Well-formed states\<close>

text \<open>The queues are in order and no two files of \<open>new\<close> and \<open>old\<close> have the same name.\<close>

definition wm_ok :: "'id wm_state \<Rightarrow> bool" where
  "wm_ok w \<longleftrightarrow> queue_ok (ws_events w) \<and> distinct (map fst (jd_new (ws_dir w)) @ map fst (jd_old (ws_dir w)))"

lemma queue_ok_schedule: "queue_ok s \<Longrightarrow> queue_ok (schedule now f p s)"
  by (simp add: queue_ok_def schedule_def ready_insert)

lemma queue_ok_schedule_at: "queue_ok s \<Longrightarrow> queue_ok (schedule_at f t p s)"
  by (simp add: queue_ok_def schedule_at_def waiting_insert)

lemma wm_ok_schedule: "wm_ok w \<Longrightarrow> wm_ok (wm_schedule now ev p w)"
  by (simp add: wm_ok_def wm_schedule_def queue_ok_schedule)

lemma wm_ok_cleanup: "wm_ok w \<Longrightarrow> wm_ok (cleanup item w)"
  using set_mp [OF AList.dom_delete_subset, of _ item "jd_old (ws_dir w)"]
  by (auto simp: wm_ok_def cleanup_def remove_from_input_def AList.distinct_delete)

lemma wm_ok_cancel_state: "wm_ok w \<Longrightarrow> wm_ok (CancelState_new sv jid w)"
  by (simp add: wm_ok_def CancelState_new_def)

lemma wm_ok_reschedule: "wm_ok w \<Longrightarrow> wm_ok (reschedule_dispatcher t w)"
  by (simp add: wm_ok_def reschedule_dispatcher_def queue_ok_schedule_at)

lemma wm_ok_stop: "wm_ok w \<Longrightarrow> wm_ok (stop_events w)"
  by (simp add: wm_ok_def stop_events_def stop_def queue_ok_def)

lemmas wm_ok_intros = wm_ok_schedule wm_ok_cleanup wm_ok_cancel_state wm_ok_reschedule wm_ok_stop

lemma caught_state [simp]: "snd (caught e w) = w"
  by (cases e) (simp_all add: caught_def)

lemma wm_ok_submit: "wm_ok w \<Longrightarrow> wm_ok (snd (dispatch_submit sv now item ad c req w))"
  by (simp add: dispatch_submit_def wm_ok_intros split: prod.split option.split)

lemma wm_ok_cancel: "wm_ok w \<Longrightarrow> wm_ok (snd (dispatch_cancel sv now item req w))"
  by (simp add: dispatch_cancel_def wm_ok_intros split: prod.split)

lemma wm_ok_dispatch: "wm_ok w \<Longrightarrow> wm_ok (snd (Dispatch sv now item w))"
  unfolding Dispatch_def
  by (simp add: wm_ok_intros wm_ok_submit wm_ok_cancel split: option.split sum.split)

interpretation dispatching: request_loop "\<lambda>k. Dispatch sv (clock k)" "dispatch_all sv clock" wm_ok for sv clock
  by unfold_locales (simp_all add: wm_ok_dispatch)

lemma read_items_distinct:
  "distinct (map fst (jd_new jd) @ map fst (jd_old jd)) \<Longrightarrow> read_items refuses files res jd = (r, jd') \<Longrightarrow>
    distinct (map fst (jd_new jd') @ map fst (jd_old jd'))"
proof (induction files arbitrary: res jd)
  case (Cons f files)
  show ?case
  proof (cases "set_old (refuses f) f jd")
    case (Inr jd1)
    then obtain s t where m: "move_file f (jd_new jd) (jd_old jd) = Some (s, t)" "jd1 = jd\<lparr>jd_new := s, jd_old := t\<rparr>"
      by (auto simp: set_old_def split: if_splits option.splits)
    from move_file_cases [OF m(1) Cons.prems(1)] obtain a c b where
      s: "jd_new jd = a @ (f, c) # b" "s = a @ b" "t = jd_old jd @ [(f, c)]" .
    have "distinct (map fst (jd_new jd1) @ map fst (jd_old jd1))"
      using distinct_parts [of a f c b "jd_old jd" "[]"] Cons.prems(1) by (simp add: m(2) s)
    with Cons.IH [of jd1] Cons.prems(2) Inr show ?thesis by simp
  qed (use Cons in simp)
qed simp

text \<open>C33: every call of the dispatcher keeps the queues in order and the names of the files different.\<close>

theorem dispatcher_keeps_state:
  assumes "wm_ok w"
  shows "wm_ok (snd (Dispatcher sv clock max_ready quit refuses w))"
proof -
  obtain r jd where r: "JobDirReader_read refuses (ws_dir w) = (r, jd)" by force
  have "distinct (map fst (jd_new jd) @ map fst (jd_old jd))"
    using read_items_distinct [OF _ r [unfolded JobDirReader_read_def]] assms unfolding wm_ok_def by blast
  then have d: "wm_ok (w\<lparr>ws_dir := jd\<rparr>)" using assms by (simp add: wm_ok_def)
  show ?thesis
  proof (cases r)
    case (Inl e)
    then show ?thesis using d assms by (simp add: Dispatcher_def r wm_ok_intros)
  next
    case (Inr items)
    obtain q w' where q: "dispatch_all sv clock 0 items (w\<lparr>ws_dir := jd\<rparr>) = (q, w')" by force
    with dispatching.loop_ok [OF d, of sv clock 0 items] have "wm_ok w'" by simp
    then show ?thesis using assms Inr by (cases q) (simp_all add: Dispatcher_def r q wm_ok_intros)
  qed
qed

section \<open>What becomes of a request\<close>

text \<open>The file that an event owns.\<close>

fun event_item :: "'id wm_event \<Rightarrow> string option" where
  "event_item (Submit_request item _ _ _) = Some item"
| "event_item (Cancel_request item _) = Some item"
| "event_item (Match_request item _) = Some item"
| "event_item _ = None"

definition owners :: "string \<Rightarrow> 'id wm_state \<Rightarrow> nat" where
  "owners item w = length (filter (\<lambda>e. case snd e of None \<Rightarrow> False | Some ev \<Rightarrow> event_item ev = Some item)
     (ready (ws_events w) @ waiting (ws_events w)))"

lemma filter_length_mset: "mset xs = mset ys \<Longrightarrow> length (filter P xs) = length (filter P ys)"
  by (metis mset_filter size_mset)

lemma owners_schedule:
  "owners item (wm_schedule now ev p w) = owners item w + (if event_item ev = Some item then 1 else 0)"
proof -
  have "mset (ready (ws_events (wm_schedule now ev p w)) @ waiting (ws_events (wm_schedule now ev p w))) =
      mset ((\<lparr>tp_time = now, tp_priority = p\<rparr>, Some ev) # ready (ws_events w) @ waiting (ws_events w))"
    by (simp add: wm_schedule_def schedule_def)
  from filter_length_mset [OF this] show ?thesis by (simp add: owners_def)
qed

lemma owners_simps [simp]:
  "owners item (cleanup i w) = owners item w" "owners item (CancelState_new sv jid w) = owners item w"
  by (simp_all add: owners_def cleanup_def CancelState_new_def)

lemma in_old_simps [simp]:
  "ws_dir (wm_schedule now ev p w) = ws_dir w" "ws_dir (CancelState_new sv jid w) = ws_dir w"
  by (simp_all add: wm_schedule_def CancelState_new_def)

definition in_old :: "string \<Rightarrow> 'id wm_state \<Rightarrow> bool" where
  "in_old item w \<longleftrightarrow> item \<in> fst ` set (jd_old (ws_dir w))"

lemma in_old_simps2 [simp]:
  "in_old item (wm_schedule now ev p w) = in_old item w" "in_old item (CancelState_new sv jid w) = in_old item w"
  "\<not> in_old item (cleanup item w)"
  by (simp_all add: in_old_def cleanup_def remove_from_input_def AList.delete_notin_dom)

text \<open>A request that has no proper owner: the LB refuses its job, or it is a match without a usable job.\<close>

definition stranded :: "('ad, 'id) services \<Rightarrow> string \<Rightarrow> bool" where
  "stranded sv text \<longleftrightarrow> (\<exists>ad command. parse_ad sv text = Some ad \<and> command_get_command sv ad = Inr command \<and>
     ((\<exists>jid sc proxy. check_request sv ad command = Inr (jid, sc, proxy) \<and>
         (\<not> can_create_context sv jid proxy sc \<or> \<not> can_log sv jid)) \<or>
      command = ''match'' \<and> aux_get_id sv ad command = Inl ClassAd_exn))"

lemma caught_ok: "caught e w = (Ok (), w') \<longleftrightarrow> e \<noteq> Other_exn \<and> w' = w"
  by (cases e) (auto simp: caught_def)

lemma aux_get_id_exn: "aux_get_id sv ad c = Inl e \<Longrightarrow> e = ClassAd_exn \<or> e = Other_exn"
  by (auto simp: aux_get_id_def jdl_string_def eval_nested_def eval_string_def JobId_new_def
      split: if_splits sum.splits option.splits ad_value.splits)

text \<open>What one call of \<open>Dispatch\<close> does to the file.\<close>

lemma dispatch_submit_accounts:
  assumes "dispatch_submit sv now item ad c (jid, sc, proxy) w = (Ok (), w')" "in_old item w"
  shows "owners item w' = Suc (owners item w) \<and> in_old item w' \<or>
    w' = w \<and> (\<not> can_create_context sv jid proxy sc \<or> \<not> can_log sv jid)"
  using assms by (auto simp: dispatch_submit_def caught_ok owners_schedule split: option.splits if_splits)

lemma dispatch_cancel_accounts:
  assumes "dispatch_cancel sv now item (jid, sc, proxy) w = (Ok (), w')" "in_old item w"
  shows "owners item w' = Suc (owners item w) \<and> in_old item w' \<or>
    w' = w \<and> (\<not> can_create_context sv jid proxy sc \<or> \<not> can_log sv jid)"
  using assms by (auto simp: dispatch_cancel_def caught_ok owners_schedule split: if_splits)

text \<open>C9: a request that is dispatched is removed, or owned by exactly one new event of the queue, or, when the LB refuses a context for
  its job or a match has no usable description, left in \<open>old\<close> for the next start.\<close>

theorem request_accounted:
  assumes "Dispatch sv now item w = (Ok (), w')" "item_value item (ws_dir w) = Some text"
  shows "\<not> in_old item w' \<and> owners item w' = owners item w \<or>
    in_old item w' \<and> owners item w' = owners item w + 1 \<or>
    in_old item w' \<and> w' = w \<and> stranded sv text"
proof (cases "parse_ad sv text")
  case None
  with assms show ?thesis by (auto simp: Dispatch_def)
next
  case (Some ad)
  have old: "in_old item w" using assms(2) by (auto simp: item_value_def in_old_def dest!: map_of_SomeD intro: rev_image_eqI)
  show ?thesis
  proof (cases "command_get_command sv ad")
    case (Inl e)
    with assms Some show ?thesis by (auto simp: Dispatch_def caught_ok)
  next
    case (Inr c)
    note pre = assms Some Inr
    consider (job) "c = ''jobsubmit'' \<or> c = ''jobresubmit'' \<or> c = ''jobcancel''" | (match) "c = ''match''"
      | (other) "c \<noteq> ''jobsubmit''" "c \<noteq> ''jobresubmit''" "c \<noteq> ''jobcancel''" "c \<noteq> ''match''" by blast
    then show ?thesis
    proof cases
      case job
      show ?thesis
      proof (cases "check_request sv ad c")
        case (Inl e)
        with pre job show ?thesis by (auto simp: Dispatch_def caught_ok)
      next
        case (Inr req)
        obtain jid sc proxy where req: "req = (jid, sc, proxy)" by (cases req)
        have "dispatch_submit sv now item ad c (jid, sc, proxy) w = (Ok (), w') \<or> dispatch_cancel sv now item (jid, sc, proxy) w = (Ok (), w')"
          using pre job Inr req by (simp add: Dispatch_def split: if_splits)
        then have "owners item w' = Suc (owners item w) \<and> in_old item w' \<or>
            w' = w \<and> (\<not> can_create_context sv jid proxy sc \<or> \<not> can_log sv jid)"
          by (elim disjE) (erule dispatch_submit_accounts [OF _ old], erule dispatch_cancel_accounts [OF _ old])
        moreover have "stranded sv text" if "\<not> can_create_context sv jid proxy sc \<or> \<not> can_log sv jid"
          using that Inr req pre by (auto simp: stranded_def)
        ultimately show ?thesis using old by auto
      qed
    next
      case match
      with pre show ?thesis
        by (auto simp: Dispatch_def caught_ok owners_schedule stranded_def old dest: aux_get_id_exn split: sum.splits)
    next
      case other
      with pre show ?thesis by (auto simp: Dispatch_def owners_schedule split: if_splits)
    qed
  qed
qed

section \<open>Services to try them on\<close>

text \<open>Every text is a valid submission of the job with that name.\<close>

definition submissions :: "(string, string) services" where
  "submissions = \<lparr>parse_ad = Some,
     eval_ad = (\<lambda>ad expr. if expr = ''version'' then V_string ''1.0.0'' else if expr = ''command'' then V_string ''JobSubmit''
        else if expr = ''arguments'' \<or> expr = ''arguments.ad'' then V_ad ad else V_string ad),
     parse_id = (\<lambda>s. if s = ''bad'' then None else Some s), id_text = Some, null_id = [], local_id = ''localhost'',
     user_proxy = (\<lambda>_. ''proxy''), can_create_context = (\<lambda>jid _ _. jid \<noteq> []), can_log = (\<lambda>_. True), can_create_token = (\<lambda>_. True)\<rparr>"

definition idle :: "dir \<Rightarrow> string wm_state" where
  "idle old = \<lparr>ws_dir = \<lparr>jd_tmp = [], jd_new = [], jd_old = old\<rparr>, ws_events = Events_new, ws_cancel_tokens = [], ws_pending = []\<rparr>"

lemma idle_ok: "distinct (map fst old) \<Longrightarrow> wm_ok (idle old)"
  by (simp add: wm_ok_def idle_def queue_ok_def Events_new_def ready_ordered_def waiting_ordered_def)

lemma lower_jobsubmit: "map to_lower ''JobSubmit'' = ''jobsubmit''"
  by code_simp

lemma submissions_command: "command_get_command submissions ad = Inr ''jobsubmit''"
  by (simp add: command_get_command_def eval_string_def submissions_def lower_jobsubmit del: list.map)

lemma submissions_valid: "command_is_valid submissions ad"
proof -
  have "iequals ''1.0.0'' ''1.0.0''" "iequals ''JobSubmit'' ''jobsubmit''" by code_simp+
  then show ?thesis
    by (simp add: command_is_valid_def submissions_def equals_string_def is_string_def is_classad_def)
qed

lemma submissions_check:
  "check_request submissions ad ''jobsubmit'' = (if ad = ''bad'' then Inl Other_exn else Inr (ad, ad, ad))"
  unfolding check_request_def using submissions_valid [of ad]
  by (simp add: aux_get_id_def aux_get_sequence_code_def aux_get_x509_proxy_def jdl_string_def eval_nested_def JobId_new_def
      submissions_def)

lemma submissions_fields [simp]:
  "parse_ad submissions = Some" "id_text submissions = Some" "can_create_context submissions jid p s = (jid \<noteq> [])"
  "can_log submissions jid" "eval_ad submissions ad ''arguments'' = V_ad ad"
  by (simp_all add: submissions_def)

theorem request_accounted_witness:
  "owners ''f'' (snd (Dispatch submissions 5 ''f'' (idle [(''f'', ''job'')]))) = 1"
proof -
  let ?w = "idle [(''f'', ''job'')]"
  have v: "item_value ''f'' (ws_dir ?w) = Some ''job''" by (simp add: item_value_def idle_def)
  have d: "Dispatch submissions 5 ''f'' ?w = (Ok (), wm_schedule 5 (Submit_request ''f'' ''job'' ''jobsubmit'' START) submit_priority ?w)"
    by (simp add: Dispatch_def v submissions_command submissions_check dispatch_submit_def SubmitState_ok_def is_classad_def)
  have o: "owners ''f'' ?w = 0" by (simp add: owners_def idle_def Events_new_def)
  have n: "snd (Dispatch submissions 5 ''f'' ?w) \<noteq> ?w"
    unfolding d by (simp add: wm_schedule_def schedule_def idle_def Events_new_def multimap_insert_def)
  have i: "in_old ''f'' (snd (Dispatch submissions 5 ''f'' ?w))" unfolding d by (simp add: in_old_def idle_def)
  from request_accounted [OF d v] o n i show ?thesis unfolding d by auto
qed

section \<open>Submissions enter the queue in the order of their delivery\<close>

text \<open>A text that is a submission or a resubmission of a job which the LB accepts.\<close>

definition submission :: "('ad, 'id) services \<Rightarrow> string \<Rightarrow> 'id \<Rightarrow> string \<Rightarrow> bool" where
  "submission sv text jid command \<longleftrightarrow> (\<exists>ad sc proxy. parse_ad sv text = Some ad \<and> command_get_command sv ad = Inr command \<and>
     (command = ''jobsubmit'' \<or> command = ''jobresubmit'') \<and> check_request sv ad command = Inr (jid, sc, proxy) \<and>
     id_text sv jid \<noteq> None \<and> can_create_context sv jid proxy sc \<and> can_log sv jid \<and> SubmitState_ok sv ad command)"

lemma submission_dispatch:
  assumes "submission sv text jid c" "item_value item (ws_dir w) = Some text"
  shows "Dispatch sv now item w = (Ok (), wm_schedule now (Submit_request item jid c START) submit_priority w)"
  using assms by (auto simp: submission_def Dispatch_def dispatch_submit_def)

text \<open>The entries of the queue for the deliveries, from the number \<open>k\<close> on.\<close>

definition submit_entries ::
    "(nat \<Rightarrow> int) \<Rightarrow> (ptime \<Rightarrow> string) \<Rightarrow> (delivery \<Rightarrow> 'id) \<Rightarrow> (delivery \<Rightarrow> string) \<Rightarrow> nat \<Rightarrow> delivery list \<Rightarrow> 'id wm_event entry list" where
  "submit_entries clock to_iso job com k ds = map (\<lambda>(i, d). (\<lparr>tp_time = clock i, tp_priority = submit_priority\<rparr>,
     Some (Submit_request (dl_name to_iso d) (job d) (com d) START))) (enumerate k ds)"

lemma dispatch_all_submissions:
  assumes "\<forall>d\<in>set ds. item_value (dl_name to_iso d) (ws_dir w) = Some (dl_contents d) \<and> submission sv (dl_contents d) (job d) (com d)"
    and "mono clock" "queue_ok (ws_events w)" "\<forall>x\<in>set (ready (ws_events w)). tp_priority (fst x) = submit_priority \<longrightarrow> tp_time (fst x) \<le> clock k"
  shows "\<exists>w'. dispatch_all sv clock k (map (dl_name to_iso) ds) w = (Ok (), w') \<and>
    filter (\<lambda>x. tp_priority (fst x) = submit_priority) (ready (ws_events w')) =
    filter (\<lambda>x. tp_priority (fst x) = submit_priority) (ready (ws_events w)) @ submit_entries clock to_iso job com k ds"
  using assms(1,3,4)
proof (induction ds arbitrary: k w)
  case Nil
  then show ?case by (simp add: submit_entries_def)
next
  case (Cons d ds)
  let ?ev = "Submit_request (dl_name to_iso d) (job d) (com d) START"
  let ?w = "wm_schedule (clock k) ?ev submit_priority w"
  have d: "Dispatch sv (clock k) (dl_name to_iso d) w = (Ok (), ?w)" by (rule submission_dispatch) (use Cons.prems(1) in simp_all)
  have k: "clock k \<le> clock (Suc k)" using assms(2) by (simp add: monoD)
  have "\<forall>x\<in>set (ready (ws_events ?w)). tp_priority (fst x) = submit_priority \<longrightarrow> tp_time (fst x) \<le> clock (Suc k)"
    using Cons.prems(3) k by (auto simp: wm_schedule_def schedule_def)
  moreover have "queue_ok (ws_events ?w)" using Cons.prems(2) by (simp add: wm_schedule_def queue_ok_schedule)
  ultimately obtain w' where w': "dispatch_all sv clock (Suc k) (map (dl_name to_iso) ds) ?w = (Ok (), w')"
    "filter (\<lambda>x. tp_priority (fst x) = submit_priority) (ready (ws_events w')) =
     filter (\<lambda>x. tp_priority (fst x) = submit_priority) (ready (ws_events ?w)) @ submit_entries clock to_iso job com (Suc k) ds"
    using Cons.IH [of ?w "Suc k"] Cons.prems(1) by auto
  have "filter (\<lambda>x. tp_priority (fst x) = submit_priority) (ready (ws_events ?w)) =
      filter (\<lambda>x. tp_priority (fst x) = submit_priority) (ready (ws_events w)) @ [(\<lparr>tp_time = clock k, tp_priority = submit_priority\<rparr>, Some ?ev)]"
    using insert_same_priority [of "ready (ws_events w)" submit_priority "clock k" "Some ?ev"] Cons.prems(2,3)
    by (simp add: wm_schedule_def schedule_def queue_ok_def)
  with w' d show ?case by (simp add: submit_entries_def)
qed

text \<open>C8: submissions that are delivered at increasing times enter the queue of the ready events in that order, behind the
  submissions that are there: the directory, the dispatcher and the queue together are first in, first out.\<close>

theorem submissions_queue_in_order:
  assumes "iso_documented to_iso" "\<forall>d\<in>set ds. in_range (dl_sec d) (dl_usec d)" "sorted_wrt earlier ds"
    and "wm_ok w" "jd_new (ws_dir w) = []"
    and "\<forall>d\<in>set ds. dl_name to_iso d \<notin> fst ` set (jd_old (ws_dir w)) \<and> CHR 0x00 \<notin> set (dl_contents d)"
    and "\<forall>d\<in>set ds. submission sv (dl_contents d) (job d) (com d)"
    and "mono clock" "\<forall>x\<in>set (ready (ws_events w)). tp_priority (fst x) = submit_priority \<longrightarrow> tp_time (fst x) \<le> clock 0"
    and "ready_size (ws_events w) < max_ready"
  shows "\<exists>w'. Dispatcher sv clock max_ready False (\<lambda>_. False) (w\<lparr>ws_dir := deliver_all to_iso ds (ws_dir w)\<rparr>) = (Ok (), w') \<and>
    filter (\<lambda>x. tp_priority (fst x) = submit_priority) (ready (ws_events w')) =
    filter (\<lambda>x. tp_priority (fst x) = submit_priority) (ready (ws_events w)) @
      map (\<lambda>(k, d). (\<lparr>tp_time = clock k, tp_priority = submit_priority\<rparr>,
        Some (Submit_request (dl_name to_iso d) (job d) (com d) START))) (enumerate 0 ds)"
proof -
  let ?w = "w\<lparr>ws_dir := deliver_all to_iso ds (ws_dir w)\<rparr>"
  have dist: "distinct (map fst (jd_old (ws_dir w)))" using assms(4) by (simp add: wm_ok_def)
  obtain jd where jd: "JobDirReader_read (\<lambda>_. False) (ws_dir ?w) = (Inr (map (dl_name to_iso) ds), jd)"
    "\<forall>d\<in>set ds. item_value (dl_name to_iso d) jd = Some (dl_contents d)"
    using deliveries_read [OF assms(1-3,5,6) dist] by auto
  obtain w' where w': "dispatch_all sv clock 0 (map (dl_name to_iso) ds) (?w\<lparr>ws_dir := jd\<rparr>) = (Ok (), w')"
    "filter (\<lambda>x. tp_priority (fst x) = submit_priority) (ready (ws_events w')) =
     filter (\<lambda>x. tp_priority (fst x) = submit_priority) (ready (ws_events w)) @ submit_entries clock to_iso job com 0 ds"
    using dispatch_all_submissions [of ds to_iso "?w\<lparr>ws_dir := jd\<rparr>" sv job com clock 0] jd(2) assms(4,7-9) by (auto simp: wm_ok_def)
  have "ready_size (ws_events ?w) < max_ready" using assms(10) by simp
  with jd(1) w'(1) have "Dispatcher sv clock max_ready False (\<lambda>_. False) ?w =
      (Ok (), reschedule_dispatcher (clock (length ds) + 1) w')" by (simp add: Dispatcher_def)
  with w'(2) show ?thesis by (simp add: reschedule_dispatcher_def schedule_at_def submit_entries_def)
qed

theorem submissions_queue_in_order_witness:
  "\<exists>w'. Dispatcher submissions int 10 False (\<lambda>_. False) ((idle [])\<lparr>ws_dir := deliver_all plain_iso two_deliveries (ws_dir (idle []))\<rparr>) = (Ok (), w') \<and>
    map snd (filter (\<lambda>x. tp_priority (fst x) = submit_priority) (ready (ws_events w'))) =
    map (\<lambda>d. Some (Submit_request (dl_name plain_iso d) (dl_contents d) ''jobsubmit'' START)) two_deliveries"
proof -
  have a: "iso_documented plain_iso" by (simp add: iso_documented_def plain_iso_def)
  have b: "\<forall>d\<in>set two_deliveries. in_range (dl_sec d) (dl_usec d)"
    by (simp add: two_deliveries_def in_range_def universal_time_def count_off.simps year_length_def leap_year_def month_length_def Let_def)
  have c: "sorted_wrt earlier two_deliveries" by (simp add: two_deliveries_def earlier_def)
  have d: "wm_ok (idle [])" "jd_new (ws_dir (idle [])) = []" by (rule idle_ok, simp, simp add: idle_def)
  have e: "\<forall>d\<in>set two_deliveries. dl_name plain_iso d \<notin> fst ` set (jd_old (ws_dir (idle []))) \<and> CHR 0x00 \<notin> set (dl_contents d)"
    by (simp add: two_deliveries_def idle_def)
  have f: "\<forall>d\<in>set two_deliveries. submission submissions (dl_contents d) (dl_contents d) ''jobsubmit''"
    by (simp add: submission_def submissions_command submissions_check SubmitState_ok_def is_classad_def two_deliveries_def)
  have g: "mono int" "\<forall>x\<in>set (ready (ws_events (idle []))). tp_priority (fst x) = submit_priority \<longrightarrow> tp_time (fst x) \<le> int 0"
    "ready_size (ws_events (idle [])) < 10" by (simp_all add: mono_def idle_def Events_new_def ready_size_def)
  from submissions_queue_in_order [OF a b c d e f g] obtain w' where
    w': "Dispatcher submissions int 10 False (\<lambda>_. False) ((idle [])\<lparr>ws_dir := deliver_all plain_iso two_deliveries (ws_dir (idle []))\<rparr>) = (Ok (), w')"
    and q: "filter (\<lambda>x. tp_priority (fst x) = submit_priority) (ready (ws_events w')) =
      filter (\<lambda>x. tp_priority (fst x) = submit_priority) (ready (ws_events (idle []))) @
      map (\<lambda>(k, d). (\<lparr>tp_time = int k, tp_priority = submit_priority\<rparr>,
        Some (Submit_request (dl_name plain_iso d) (dl_contents d) ''jobsubmit'' START))) (enumerate 0 two_deliveries)" by blast
  have "map snd (filter (\<lambda>x. tp_priority (fst x) = submit_priority) (ready (ws_events w'))) =
    map (\<lambda>d. Some (Submit_request (dl_name plain_iso d) (dl_contents d) ''jobsubmit'' START)) two_deliveries"
    unfolding q by (simp add: idle_def Events_new_def two_deliveries_def)
  with w' show ?thesis by blast
qed

section \<open>Requests that are not valid\<close>

lemma valid_jobsubmit:
  assumes "command_is_valid sv ad" "command_get_command sv ad = Inr ''jobsubmit''"
  shows "is_classad (eval_ad sv ad ''arguments.ad'')"
proof -
  from assms(2) obtain s where s: "eval_ad sv ad ''command'' = V_string s" "map to_lower s = ''jobsubmit''"
    by (simp add: command_get_command_def eval_string_def split: ad_value.splits sum.splits)
  have "\<not> iequals s ''jobresubmit''" "\<not> iequals s ''jobcancel''" "\<not> iequals s ''match''"
    unfolding iequals_def s by code_simp+
  with assms(1) s(1) show ?thesis by (simp only: command_is_valid_def Let_def equals_string_def ad_value.case) blast
qed

text \<open>a submission whose job identifier is not one throws an exception that only the dispatcher catches: the file is
  removed, the queue is stopped for good, and no request that was read with it is scheduled.\<close>

theorem bad_job_id_stops:
  assumes "JobDirReader_read refuses (ws_dir w) = (Inr (item # items), jd)" "item_value item jd = Some text"
    and "parse_ad sv text = Some ad" "command_get_command sv ad = Inr ''jobsubmit''" "command_is_valid sv ad"
    and "eval_ad sv ad ''arguments.ad.edg_jobid'' = V_string name" "parse_id sv name = None"
    and "ready_size (ws_events w) < max_ready"
  shows "\<exists>w'. Dispatcher sv clock max_ready False refuses w = (Ok (), w') \<and> shutdown (ws_events w') \<and>
    ready (ws_events w') = ready (ws_events w) \<and> waiting (ws_events w') = waiting (ws_events w) \<and>
    ws_dir w' = remove_from_input item jd"
proof -
  have "is_classad (eval_ad sv ad ''arguments.ad'')" by (rule valid_jobsubmit [OF assms(5,4)])
  then have "aux_get_id sv ad ''jobsubmit'' = Inl Other_exn"
    using assms(6,7) by (auto simp: aux_get_id_def jdl_string_def JobId_new_def eval_nested_def is_classad_def split: ad_value.splits)
  then have "check_request sv ad ''jobsubmit'' = Inl Other_exn" using assms(5) by (simp add: check_request_def)
  then have "Dispatch sv (clock 0) item (w\<lparr>ws_dir := jd\<rparr>) = (Raise Other_exn, cleanup item (w\<lparr>ws_dir := jd\<rparr>))"
    using assms(2-4) by (simp add: Dispatch_def caught_def)
  then show ?thesis using assms(1,8) by (simp add: Dispatcher_def stop_events_def stop_def cleanup_def)
qed

definition two_files :: "string wm_state" where
  "two_files = (idle [])\<lparr>ws_dir := \<lparr>jd_tmp = [], jd_new = [(''f'', ''bad''), (''g'', ''job'')], jd_old = []\<rparr>\<rparr>"

theorem bad_job_id_stops_witness:
  "\<exists>w'. Dispatcher submissions int 10 False (\<lambda>_. False) two_files = (Ok (), w') \<and> shutdown (ws_events w') \<and> ready (ws_events w') = []"
proof -
  let ?jd = "\<lparr>jd_tmp = [], jd_new = [], jd_old = [(''f'', ''bad''), (''g'', ''job'')]\<rparr>"
  have r: "JobDirReader_read (\<lambda>_. False) (ws_dir two_files) = (Inr (''f'' # [''g'']), ?jd)"
    by (simp add: two_files_def idle_def JobDirReader_read_def new_entries_def set_old_def move_file_def)
  have v: "item_value ''f'' ?jd = Some ''bad''" by (simp add: item_value_def)
  have e: "parse_ad submissions ''bad'' = Some ''bad''" "eval_ad submissions ''bad'' ''arguments.ad.edg_jobid'' = V_string ''bad''"
    "parse_id submissions ''bad'' = None" by (simp_all add: submissions_def)
  have q: "ready_size (ws_events two_files) < 10" by (simp add: two_files_def idle_def ready_size_def Events_new_def)
  from bad_job_id_stops [OF r v e(1) submissions_command submissions_valid e(2,3) q, of int] show ?thesis
    by (auto simp: two_files_def idle_def Events_new_def)
qed

text \<open>A submission without a version, or without another part that it has to have, is not removed, as the comment
  on the guard says: \<open>check_request\<close> gives an empty job, the LB refuses it, and the file stays.\<close>

theorem invalid_request_stays:
  assumes "item_value item (ws_dir w) = Some text" "parse_ad sv text = Some ad"
    and "command_get_command sv ad = Inr ''jobsubmit''" "\<not> command_is_valid sv ad"
    and "id_text sv (null_id sv) \<noteq> None" "\<not> can_create_context sv (null_id sv) [] []"
  shows "Dispatch sv now item w = (Ok (), w)"
  using assms by (auto simp: Dispatch_def check_request_def dispatch_submit_def caught_def)

theorem dispatcher_keeps_state_witness: "wm_ok (snd (Dispatcher submissions int 10 False (\<lambda>_. False) (idle [(''f'', ''job'')])))"
  by (rule dispatcher_keeps_state) (simp add: idle_ok)

text \<open>The same services with another version.\<close>

theorem invalid_request_stays_witness:
  "Dispatch (submissions\<lparr>eval_ad := (\<lambda>ad expr. if expr = ''command'' then V_string ''JobSubmit'' else V_undefined)\<rparr>) 5 ''f'' (idle [(''f'', ''job'')]) =
    (Ok (), idle [(''f'', ''job'')])"
proof (rule invalid_request_stays)
  show "item_value ''f'' (ws_dir (idle [(''f'', ''job'')])) = Some ''job''" by (simp add: item_value_def idle_def)
qed (simp_all add: command_get_command_def eval_string_def lower_jobsubmit command_is_valid_def equals_string_def submissions_def del: list.map)

end
