(* ===== verification/Wm_Recovery_Props.thy ===== *)
theory Wm_Recovery_Props
  imports Wm_Recovery Wm_Dispatch_Props Wm_Resubmit_Props
begin

text \<open>
  The properties of the recovery: it keeps the state of the daemon well-formed and schedules only nodes
  of a collection that are still in charge of the workload manager; and where it goes wrong.
\<close>

section \<open>Reading the requests\<close>

lemma insert_request_state:
  "snd (insert_request sv item reqs w) = w \<or> snd (insert_request sv item reqs w) = cleanup item w"
  by (simp add: insert_request_def Let_def split: option.split sum.split prod.split)

lemma insert_requests_events: "ws_events (snd (insert_requests sv items reqs w)) = ws_events w"
proof (induction items arbitrary: reqs w)
  case (Cons item items)
  obtain r w' where r: "insert_request sv item reqs w = (r, w')" by force
  with insert_request_state [of sv item reqs w] have "ws_events w' = ws_events w" by (auto simp: cleanup_def)
  with Cons r show ?case by (cases r) simp_all
qed simp

text \<open>A request that the recovery accepts, and one whose job identifier is not one.\<close>

definition acceptable :: "('ad, 'id) services \<Rightarrow> string \<Rightarrow> bool" where
  "acceptable sv text \<longleftrightarrow> (\<exists>ad c jid sc proxy. parse_ad sv text = Some ad \<and> command_get_command sv ad = Inr c \<and>
     check_request sv ad c = Inr (jid, sc, proxy) \<and> id_text sv jid \<noteq> None)"

definition bad_job_id :: "('ad, 'id) services \<Rightarrow> string \<Rightarrow> bool" where
  "bad_job_id sv text \<longleftrightarrow> (\<exists>ad name. parse_ad sv text = Some ad \<and> command_get_command sv ad = Inr ''jobsubmit'' \<and>
     command_is_valid sv ad \<and> eval_ad sv ad ''arguments.ad.edg_jobid'' = V_string name \<and> parse_id sv name = None)"

lemma bad_job_id_check:
  assumes "command_is_valid sv ad" "command_get_command sv ad = Inr ''jobsubmit''"
    "eval_ad sv ad ''arguments.ad.edg_jobid'' = V_string name" "parse_id sv name = None"
  shows "check_request sv ad ''jobsubmit'' = Inl Other_exn"
proof -
  have "is_classad (eval_ad sv ad ''arguments.ad'')" by (rule valid_jobsubmit [OF assms(1,2)])
  then have "aux_get_id sv ad ''jobsubmit'' = Inl Other_exn"
    using assms(3,4) by (auto simp: aux_get_id_def jdl_string_def JobId_new_def eval_nested_def is_classad_def split: ad_value.splits)
  then show ?thesis using assms(1) by (simp add: check_request_def)
qed

lemma insert_bad: "bad_job_id sv text \<Longrightarrow> item_value item (ws_dir w) = Some text \<Longrightarrow>
    insert_request sv item reqs w = (Raise Other_exn, cleanup item w)"
  by (auto simp: bad_job_id_def insert_request_def Let_def bad_job_id_check)

lemma insert_acceptable: "acceptable sv text \<Longrightarrow> item_value item (ws_dir w) = Some text \<Longrightarrow>
    \<exists>reqs'. insert_request sv item reqs w = (Ok reqs', w)"
  by (auto simp: acceptable_def insert_request_def Let_def)

lemma insert_no_segfault: "fst (insert_request sv item reqs w) \<noteq> Segfault"
  by (simp add: insert_request_def Let_def split: option.split sum.split prod.split)

lemma item_value_cleanup: "i \<noteq> item \<Longrightarrow> item_value i (ws_dir (cleanup item w)) = item_value i (ws_dir w)"
  by (simp add: item_value_def cleanup_def remove_from_input_def)

lemma insert_requests_bad:
  assumes "distinct items" "item \<in> set items" "item_value item (ws_dir w) = Some text" "bad_job_id sv text"
  shows "\<exists>e w'. insert_requests sv items reqs w = (Raise e, w')"
  using assms(1-3)
proof (induction items arbitrary: reqs w)
  case (Cons i items)
  show ?case
  proof (cases "i = item")
    case True
    then show ?thesis using insert_bad [OF assms(4) Cons.prems(3)] by simp
  next
    case False
    obtain r w' where r: "insert_request sv i reqs w = (r, w')" by force
    have "item_value item (ws_dir w') = Some text"
      using insert_request_state [of sv i reqs w] r Cons.prems(3) False item_value_cleanup [of item i w] by auto
    with False Cons r insert_no_segfault [of sv i reqs w] show ?thesis by (cases r) auto
  qed
qed simp

text \<open>What is acceptable stays.\<close>

lemma insert_requests_keeps:
  assumes "item_value item (ws_dir w) = Some text" "acceptable sv text"
  shows "item_value item (ws_dir (snd (insert_requests sv items reqs w))) = Some text"
  using assms(1)
proof (induction items arbitrary: reqs w)
  case (Cons i items)
  obtain r w' where r: "insert_request sv i reqs w = (r, w')" by force
  have "item_value item (ws_dir w') = Some text"
  proof (cases "i = item")
    case True
    then show ?thesis using insert_acceptable [OF assms(2) Cons.prems, of reqs] r Cons.prems by auto
  next
    case False
    then show ?thesis using insert_request_state [of sv i reqs w] r Cons.prems item_value_cleanup [of item i w] by auto
  qed
  with Cons.IH r show ?case by (cases r) simp_all
qed simp

text \<open>one request with a bad job identifier makes the recovery give up before any request is
  recovered: nothing is scheduled, and the acceptable requests that were read with it stay in \<open>old\<close>, where the
  dispatcher does not look.\<close>

theorem recovery_poisoned:
  assumes "JobDirReader_read refuses (ws_dir w) = (Inr items, jd)" "distinct items"
    and "item \<in> set items" "item_value item jd = Some text" "bad_job_id sv text"
  shows "\<exists>w'. recovery sv env clock refuses w = (Ok (), w') \<and> ws_events w' = ws_events w \<and>
    (\<forall>g t. item_value g jd = Some t \<and> acceptable sv t \<longrightarrow> item_value g (ws_dir w') = Some t)"
proof -
  let ?w = "w\<lparr>ws_dir := jd\<rparr>"
  obtain e w' where r: "insert_requests sv items [] ?w = (Raise e, w')"
    using insert_requests_bad [OF assms(2,3), of ?w "text" sv "[]"] assms(4,5) by auto
  have "recovery sv env clock refuses w = (Ok (), w')" by (simp add: recovery_def assms(1) r)
  moreover have "ws_events w' = ws_events w" using insert_requests_events [of sv items "[]" ?w] r by simp
  moreover have "item_value g (ws_dir w') = Some t" if "item_value g jd = Some t" "acceptable sv t" for g t
    using insert_requests_keeps [of g ?w t sv items "[]"] that r by simp
  ultimately show ?thesis by blast
qed

text \<open>Of two requests the first is bad.\<close>

definition silent :: "(string, string) recovery_env" where
  "silent = \<lparr>re_job_status = (\<lambda>_. None), re_collection_status = (\<lambda>_. Inr None), re_events = (\<lambda>_. Inr []), re_nodes = (\<lambda>_. Inr [])\<rparr>"

theorem recovery_poisoned_witness:
  "\<exists>w'. recovery submissions silent int (\<lambda>_. False) two_files = (Ok (), w') \<and> ready (ws_events w') = [] \<and>
    item_value ''g'' (ws_dir w') = Some ''job''"
proof -
  let ?jd = "\<lparr>jd_tmp = [], jd_new = [], jd_old = [(''f'', ''bad''), (''g'', ''job'')]\<rparr>"
  have r: "JobDirReader_read (\<lambda>_. False) (ws_dir two_files) = (Inr [''f'', ''g''], ?jd)"
    by (simp add: two_files_def idle_def JobDirReader_read_def new_entries_def set_old_def move_file_def)
  have v: "item_value ''f'' ?jd = Some ''bad''" "item_value ''g'' ?jd = Some ''job''" by (simp_all add: item_value_def)
  have b: "bad_job_id submissions ''bad''"
    unfolding bad_job_id_def by (simp add: submissions_command submissions_valid) (simp add: submissions_def)
  have g: "acceptable submissions ''job''" by (simp add: acceptable_def submissions_command submissions_check)
  have d: "distinct [''f'', ''g'']" "''f'' \<in> set [''f'', ''g'']" by simp_all
  from recovery_poisoned [OF r d v(1) b, of silent int] obtain w' where
    "recovery submissions silent int (\<lambda>_. False) two_files = (Ok (), w')" "ws_events w' = ws_events two_files"
    "\<forall>g t. item_value g ?jd = Some t \<and> acceptable submissions t \<longrightarrow> item_value g (ws_dir w') = Some t" by blast
  with v(2) g show ?thesis by (auto simp: two_files_def idle_def Events_new_def)
qed

section \<open>Well-formed states\<close>

lemma wm_ok_pending: "wm_ok w \<Longrightarrow> wm_ok (w\<lparr>ws_pending := p\<rparr>)"
  by (simp add: wm_ok_def)

lemma wm_ok_create_submit: "wm_ok w \<Longrightarrow> create_submit_request sv parent proxy node w = (ev, w') \<Longrightarrow> wm_ok w'"
  by (auto simp: create_submit_request_def wm_ok_pending split: option.splits if_splits)

lemma wm_ok_schedule_nodes: "wm_ok w \<Longrightarrow> wm_ok (schedule_nodes sv now parent proxy nodes w)"
proof (induction nodes arbitrary: w)
  case (Cons node nodes)
  obtain ev w' where "create_submit_request sv parent proxy node w = (ev, w')" by force
  with Cons wm_ok_create_submit [OF Cons.prems this] show ?case by (simp add: wm_ok_schedule)
qed simp

lemma wm_ok_schedule_submit: "wm_ok w \<Longrightarrow> wm_ok (snd (schedule_submit sv now req jid cp w))"
  by (simp add: schedule_submit_def wm_ok_schedule)

lemma schedule_submit_cases:
  obtains "schedule_submit sv now req jid cp w = (Segfault, w)"
  | "schedule_submit sv now req jid cp w = (Ok (), wm_schedule now (Submit_request (rr_item req) jid (rr_command req) cp) submit_priority w)"
  by (metis schedule_submit_def)

lemma wm_ok_collection: "wm_ok w \<Longrightarrow> wm_ok (snd (recover_collection sv env now req jobid jid proxy status w))"
  unfolding recover_collection_def Let_def
  by (rule schedule_submit_cases [of sv now req jid PENDING w])
    (simp_all add: wm_ok_schedule_submit wm_ok_schedule_nodes wm_ok_intros split: sum.split option.split bool.split)

lemma wm_ok_request: "wm_ok w \<Longrightarrow> wm_ok (snd (request_recovery sv env now req w))"
  unfolding request_recovery_def Let_def recover_single_def recover_resubmit_def recover_cancel_def
  by (simp add: wm_ok_collection wm_ok_schedule_submit wm_ok_intros split: sum.split option.split prod.split)

interpretation recovering: request_loop "\<lambda>k. request_recovery sv env (clock k)" "recover_all sv env clock" wm_ok for sv env clock
  by unfold_locales (simp_all add: wm_ok_request)

lemma wm_ok_insert: "wm_ok w \<Longrightarrow> wm_ok (snd (insert_requests sv items reqs w))"
proof (induction items arbitrary: reqs w)
  case (Cons item items)
  obtain r w' where r: "insert_request sv item reqs w = (r, w')" by force
  with insert_request_state [of sv item reqs w] Cons.prems have "wm_ok w'" by (auto simp: wm_ok_cleanup)
  with Cons.IH r show ?case by (cases r) simp_all
qed simp

text \<open>The recovery keeps the queues in order and the names of the files different, so that the daemon starts in a
  well-formed state.\<close>

theorem recovery_keeps_state:
  assumes "wm_ok w"
  shows "wm_ok (snd (recovery sv env clock refuses w))"
proof -
  obtain r jd where r: "JobDirReader_read refuses (ws_dir w) = (r, jd)" by force
  have "distinct (map fst (jd_new jd) @ map fst (jd_old jd))"
    using read_items_distinct [OF _ r [unfolded JobDirReader_read_def]] assms unfolding wm_ok_def by blast
  then have d: "wm_ok (w\<lparr>ws_dir := jd\<rparr>)" using assms by (simp add: wm_ok_def)
  show ?thesis
  proof (cases r)
    case (Inr items)
    obtain q w' where q: "insert_requests sv items [] (w\<lparr>ws_dir := jd\<rparr>) = (q, w')" by force
    with wm_ok_insert [OF d, of sv items "[]"] have w': "wm_ok w'" by simp
    show ?thesis
    proof (cases q)
      case (Ok reqs)
      obtain p w'' where p: "recover_all sv env clock 0 reqs w' = (p, w'')" by force
      with recovering.loop_ok [OF w', of sv env clock 0 reqs] have "wm_ok w''" by simp
      with Inr Ok p q show ?thesis by (cases p) (simp_all add: recovery_def r)
    qed (use Inr q w' in \<open>simp_all add: recovery_def r\<close>)
  qed (use d in \<open>simp add: recovery_def r\<close>)
qed

theorem recovery_keeps_state_witness: "wm_ok (snd (recovery submissions silent int (\<lambda>_. False) (idle [])))"
  by (rule recovery_keeps_state) (simp add: idle_ok)

section \<open>Nodes of a collection\<close>

lemma schedule_nodes_entry:
  assumes "e \<in> set (ready (ws_events (schedule_nodes sv now parent proxy nodes w)))"
  shows "e \<in> set (ready (ws_events w)) \<or> snd e = Some Null_request \<or>
    (\<exists>name s nid. (name, Some s) \<in> set nodes \<and> parse_id sv s = Some nid \<and> snd e = Some (Node_request parent name nid))"
  using assms
proof (induction nodes arbitrary: w)
  case (Cons node nodes)
  obtain ev w' where c: "create_submit_request sv parent proxy node w = (ev, w')" by force
  have ev: "ev = Null_request \<or> (\<exists>s nid. snd node = Some s \<and> parse_id sv s = Some nid \<and> ev = Node_request parent (fst node) nid)"
    and w': "ws_events w' = ws_events w"
    using c by (auto simp: create_submit_request_def split: option.splits if_splits)
  from Cons.IH [of "wm_schedule now ev submit_priority w'"] Cons.prems c
  consider "e \<in> set (ready (ws_events (wm_schedule now ev submit_priority w')))" | "snd e = Some Null_request"
    | "\<exists>name s nid. (name, Some s) \<in> set nodes \<and> parse_id sv s = Some nid \<and> snd e = Some (Node_request parent name nid)" by auto
  then show ?case
  proof cases
    case 1
    then consider "e \<in> set (ready (ws_events w))" | "snd e = Some ev" by (auto simp: wm_schedule_def schedule_def w')
    then show ?thesis using ev by cases (auto, metis prod.collapse)
  qed auto
qed simp

text \<open>The node is still in charge of the workload manager: it waits, or is submitted and has no events, or is ready and was not
  handed over, and it has not failed.\<close>

definition in_charge :: "job_state \<Rightarrow> lb_event list \<Rightarrow> bool" where
  "in_charge st events \<longleftrightarrow> \<not> is_last_done events Done_failed \<and>
     (st = Waiting \<or> st = Submitted \<and> events = [] \<or> st = Ready \<and> \<not> is_last_enqueued_by_wm events Enqueued_start)"

lemma recoverable_node_in_charge:
  assumes "recoverable_node sv env states (name, Some s)" "parse_id sv s = Some nid"
  shows "\<exists>st events. map_of states s = Some st \<and> re_events env nid = Inr events \<and> in_charge st events"
  using assms by (auto simp: recoverable_node_def in_charge_def Let_def is_waiting_def is_submitted_def is_ready_def in_limbo_def
      split: option.splits sum.splits if_splits)

text \<open>C13: of a collection that is recovered node by node only nodes are scheduled that the LB has as still in charge of the
  workload manager.\<close>

theorem recovered_nodes_in_charge:
  assumes "recover_collection sv env now req jobid jid proxy status w = (r, w')" "re_collection_status env jobid = Inr (Some cs)"
    and "(k, Some (Node_request jid name nid)) \<in> set (ready (ws_events w'))" "(k, Some (Node_request jid name nid)) \<notin> set (ready (ws_events w))"
  shows "\<exists>s st events. parse_id sv s = Some nid \<and> map_of (children_states cs) s = Some st \<and> re_events env nid = Inr events \<and> in_charge st events"
proof -
  let ?e = "(k, Some (Node_request jid name nid))"
  have s: "?e \<notin> set (ready (ws_events (snd (schedule_submit sv now req jid cp w))))" for cp
    using assms(4) by (auto simp: schedule_submit_def wm_schedule_def schedule_def)
  obtain nodes where w': "w' = schedule_nodes sv now jid proxy (select_recoverable_nodes sv env cs nodes) (snd (schedule_submit sv now req jid PENDING w))"
  proof (rule schedule_submit_cases [of sv now req jid PENDING w])
    assume "schedule_submit sv now req jid PENDING w = (Segfault, w)"
    then show ?thesis using assms s [of START]
      by (auto simp: recover_collection_def split: sum.splits option.splits bool.splits)
  next
    assume "schedule_submit sv now req jid PENDING w =
        (Ok (), wm_schedule now (Submit_request (rr_item req) jid (rr_command req) PENDING) submit_priority w)"
    then show ?thesis using assms s [of START] that
      by (auto simp: recover_collection_def split: sum.splits option.splits bool.splits)
  qed
  have "\<exists>s. (name, Some s) \<in> set (select_recoverable_nodes sv env cs nodes) \<and> parse_id sv s = Some nid"
    using schedule_nodes_entry [OF assms(3) [unfolded w']] s [of PENDING] by auto
  then show ?thesis using recoverable_node_in_charge by (fastforce simp: select_recoverable_nodes_def)
qed

text \<open>A collection of two nodes, one of which is still waiting and one running; it is running itself.\<close>

definition pair_status :: collection_status where
  "pair_status = \<lparr>cs_children = Some [''a'', ''b''], cs_states = Some [Waiting, Job_running], cs_children_num = 2\<rparr>"

definition pair_env :: "(string, string) recovery_env" where
  "pair_env = \<lparr>re_job_status = (\<lambda>_. Some (Job_running, True)), re_collection_status = (\<lambda>_. Inr (Some pair_status)),
     re_events = (\<lambda>_. Inr []), re_nodes = (\<lambda>_. Inr [(''A'', Some ''a''), (''B'', Some ''b'')])\<rparr>"

definition pair_request :: "string request_to_recover" where
  "pair_request = \<lparr>rr_id = ''pair'', rr_command = ''jobsubmit'', rr_item = ''f'', rr_ad = ''pair''\<rparr>"

lemma pair_nodes: "select_recoverable_nodes submissions pair_env pair_status [(''A'', Some ''a''), (''B'', Some ''b'')] = [(''A'', Some ''a'')]"
  by (simp add: select_recoverable_nodes_def recoverable_node_def pair_env_def pair_status_def children_states_def submissions_def
      is_last_done_def find_last_def is_waiting_def is_submitted_def is_ready_def in_limbo_def)

lemma pair_recovered:
  assumes "\<forall>ad. eval_nested sv ad ''arguments.ad'' = Inr ad" "SubmitState_ok sv (rr_ad pair_request) (rr_command pair_request)"
    and "select_recoverable_nodes sv pair_env pair_status [(''A'', Some ''a''), (''B'', Some ''b'')] = [(''A'', Some ''a'')]"
  shows "recover_collection sv pair_env 5 pair_request ''pair'' ''pair'' p (Some Job_running) w =
    (Ok (), schedule_nodes sv 5 ''pair'' p [(''A'', Some ''a'')]
      (wm_schedule 5 (Submit_request ''f'' ''pair'' ''jobsubmit'' PENDING) submit_priority w))"
  using assms by (simp add: recover_collection_def schedule_submit_def is_submitted_def is_waiting_def pair_env_def pair_request_def)

theorem recovered_nodes_in_charge_witness:
  "\<exists>s st events. parse_id submissions s = Some ''a'' \<and> map_of (children_states pair_status) s = Some st \<and> re_events pair_env ''a'' = Inr events \<and>
    in_charge st events"
proof -
  have e: "\<forall>ad. eval_nested submissions ad ''arguments.ad'' = Inr ad" by (simp add: eval_nested_def submissions_def)
  have o: "SubmitState_ok submissions (rr_ad pair_request) (rr_command pair_request)" by (simp add: SubmitState_ok_def is_classad_def)
  note run = pair_recovered [OF e o pair_nodes, of "[]" "idle []"]
  let ?w = "schedule_nodes submissions 5 ''pair'' [] [(''A'', Some ''a'')]
    (wm_schedule 5 (Submit_request ''f'' ''pair'' ''jobsubmit'' PENDING) submit_priority (idle []))"
  have c: "re_collection_status pair_env ''pair'' = Inr (Some pair_status)" by (simp add: pair_env_def)
  have p: "parse_id submissions ''a'' = Some ''a''" by (simp add: submissions_def)
  have i: "(\<lparr>tp_time = 5, tp_priority = submit_priority\<rparr>, Some (Node_request ''pair'' ''A'' ''a'')) \<in> set (ready (ws_events ?w))"
    by (simp add: create_submit_request_def p wm_schedule_def schedule_def)
  have n: "(\<lparr>tp_time = 5, tp_priority = submit_priority\<rparr>, Some (Node_request ''pair'' ''A'' ''a'')) \<notin> set (ready (ws_events (idle [])))"
    by (simp add: idle_def Events_new_def)
  show ?thesis by (rule recovered_nodes_in_charge [OF run c i n])
qed

lemma schedule_nodes_keeps: "e \<in> set (ready (ws_events w)) \<Longrightarrow> e \<in> set (ready (ws_events (schedule_nodes sv now parent proxy nodes w)))"
proof (induction nodes arbitrary: w)
  case (Cons node nodes)
  obtain ev w' where c: "create_submit_request sv parent proxy node w = (ev, w')" by force
  then have "ws_events w' = ws_events w" by (auto simp: create_submit_request_def split: option.splits if_splits)
  with Cons c show ?case by (simp add: wm_schedule_def schedule_def)
qed simp

lemma schedule_nodes_null:
  assumes "(name, Some s) \<in> set nodes" "parse_id sv s = Some nid" "\<not> can_create_context sv nid proxy []"
  shows "(\<lparr>tp_time = now, tp_priority = submit_priority\<rparr>, Some Null_request) \<in> set (ready (ws_events (schedule_nodes sv now parent proxy nodes w)))"
  using assms(1)
proof (induction nodes arbitrary: w)
  case (Cons node nodes)
  obtain ev w' where c: "create_submit_request sv parent proxy node w = (ev, w')" by force
  show ?case
  proof (cases "node = (name, Some s)")
    case True
    then have "ev = Null_request" using assms(2,3) c by (simp add: create_submit_request_def)
    then show ?thesis using c by (simp add: schedule_nodes_keeps wm_schedule_def schedule_def)
  next
    case False
    with Cons c show ?thesis by simp
  qed
qed simp

text \<open>a node whose LB context cannot be created is scheduled as a processor without a state, which dereferences a null pointer
  when a worker runs it; the log says that the request is ignored.\<close>

theorem node_without_context_null:
  assumes "eval_nested sv (rr_ad req) ''arguments.ad'' = Inr jdl" "re_nodes env jdl = Inr nodes"
    and "re_collection_status env jobid = Inr (Some cs)" "\<not> is_submitted status" "\<not> is_waiting status"
    and "SubmitState_ok sv (rr_ad req) (rr_command req)"
    and "(name, Some s) \<in> set (select_recoverable_nodes sv env cs nodes)" "parse_id sv s = Some nid"
    and "\<not> can_create_context sv nid proxy []"
  shows "\<exists>w'. recover_collection sv env now req jobid jid proxy status w = (Ok (), w') \<and>
    (\<lparr>tp_time = now, tp_priority = submit_priority\<rparr>, Some Null_request) \<in> set (ready (ws_events w'))"
  using assms(1-6) schedule_nodes_null [OF assms(7-9)] by (simp add: recover_collection_def schedule_submit_def)

theorem node_without_context_null_witness:
  "\<exists>w'. recover_collection (submissions\<lparr>can_create_context := (\<lambda>_ _ _. False)\<rparr>) pair_env 5 pair_request ''pair'' ''pair'' [] (Some Job_running) (idle []) = (Ok (), w') \<and>
    (\<lparr>tp_time = 5, tp_priority = submit_priority\<rparr>, Some Null_request) \<in> set (ready (ws_events w'))"
proof (rule node_without_context_null)
  let ?sv = "submissions\<lparr>can_create_context := (\<lambda>_ _ _. False)\<rparr>"
  show "eval_nested ?sv (rr_ad pair_request) ''arguments.ad'' = Inr ''pair''" by (simp add: eval_nested_def submissions_def pair_request_def)
  show "re_nodes pair_env ''pair'' = Inr [(''A'', Some ''a''), (''B'', Some ''b'')]" by (simp add: pair_env_def)
  show "re_collection_status pair_env ''pair'' = Inr (Some pair_status)" by (simp add: pair_env_def)
  show "(''A'', Some ''a'') \<in> set (select_recoverable_nodes ?sv pair_env pair_status [(''A'', Some ''a''), (''B'', Some ''b'')])"
    by (simp add: select_recoverable_nodes_def recoverable_node_def pair_env_def pair_status_def children_states_def submissions_def
        is_last_done_def find_last_def is_waiting_def)
qed (simp_all add: is_submitted_def is_waiting_def SubmitState_ok_def is_classad_def submissions_def)

section \<open>Single jobs\<close>

text \<open>C34: the request of a single job that has left the workload manager, as the LB has it running and handed over, is recovered from the
  start, and the processor delivers the job a second time; the nodes of a collection in that state are left alone.\<close>

theorem recovery_delivers_again:
  assumes "rr_command req = ''jobsubmit''" "check_request sv (rr_ad req) ''jobsubmit'' = Inr (jobid, sc, proxy)"
    and "parse_id sv (rr_id req) = Some jid" "can_create_context sv jid proxy sc" "SubmitState_ok sv (rr_ad req) ''jobsubmit''"
    and "re_job_status env jobid = Some (Job_running, False)" "re_events env jobid = Inr events"
    and "is_last_enqueued_by_wm events Enqueued_ok" "\<not> is_last_done events Done_failed"
    and "services_ok senv" "env_command senv = ''jobsubmit''" "env_status senv = Inr (Some Job_running)"
    and "ss_tokens s = []" "ss_checkpoint s = START"
  shows "request_recovery sv env now req w = (Ok (), wm_schedule now (Submit_request (rr_item req) jid ''jobsubmit'' START) submit_priority w) \<and>
    (\<exists>s'. SubmitProcessor senv s = (Value (), s') \<and> ss_actions s' = ss_actions s @ [Unlink_maradona, Deliver False])"
proof
  show "request_recovery sv env now req w = (Ok (), wm_schedule now (Submit_request (rr_item req) jid ''jobsubmit'' START) submit_priority w)"
    using assms(1-7,9) by (simp add: request_recovery_def recover_single_def schedule_submit_def starting_point_def is_waiting_def in_limbo_def
        is_ready_def is_done_def)
  have r: "retrieve_job senv s = (Value (env_ad senv, 0, 0), s)" using assms(11) by (simp add: retrieve_job_def sm_simps)
  show "\<exists>s'. SubmitProcessor senv s = (Value (), s') \<and> ss_actions s' = ss_actions s @ [Unlink_maradona, Deliver False]"
    using process_single_value [OF check_limbo_start [OF assms(14)] r assms(10)] deliver_new [OF assms(10,11,13)] services_single [OF assms(10)] by simp
qed

theorem recovery_delivers_again_witness:
  "Deliver False \<in> set (ss_actions (snd (SubmitProcessor (lone ''jobsubmit'' (Some Job_running) [] (plain_ad None)) (one_token []))))"
proof -
  let ?req = "\<lparr>rr_id = ''job'', rr_command = ''jobsubmit'', rr_item = ''f'', rr_ad = ''job''\<rparr>"
  let ?ev = "[Enqueued_event Workload_manager Enqueued_ok]"
  let ?env = "silent\<lparr>re_job_status := (\<lambda>_. Some (Job_running, False)), re_events := (\<lambda>_. Inr ?ev)\<rparr>"
  let ?senv = "lone ''jobsubmit'' (Some Job_running) [] (plain_ad None)"
  have 1: "check_request submissions (rr_ad ?req) ''jobsubmit'' = Inr (''job'', ''job'', ''job'')" by (simp add: submissions_check)
  have 2: "parse_id submissions (rr_id ?req) = Some ''job''" by (simp add: submissions_def)
  have 3: "is_last_enqueued_by_wm ?ev Enqueued_ok" "\<not> is_last_done ?ev Done_failed"
    by (simp_all add: is_last_enqueued_by_wm_def is_last_done_def find_last_def is_enqueued_to_jc_def is_done_event_def)
  have 4: "env_command ?senv = ''jobsubmit''" "env_status ?senv = Inr (Some Job_running)" by (simp_all add: lone_def)
  have "request_recovery submissions ?env 5 ?req (idle []) =
      (Ok (), wm_schedule 5 (Submit_request (rr_item ?req) ''job'' ''jobsubmit'' START) submit_priority (idle [])) \<and>
    (\<exists>s'. SubmitProcessor ?senv (one_token []) = (Value (), s') \<and> ss_actions s' = ss_actions (one_token [] :: string submit_state) @ [Unlink_maradona, Deliver False])"
    by (rule recovery_delivers_again [OF _ 1 2 _ _ _ _ 3 lone_ok 4])
      (simp_all add: SubmitState_ok_def is_classad_def one_token_def)
  then show ?thesis by auto
qed

end
