(* ===== verification/Wm_Cancel.thy ===== *)
theory Wm_Cancel
  imports Wm_Lb
begin

text \<open>
  The processing of a cancellation, \<open>CancelProcessor::operator()\<close> of
  \<^verbatim>\<open>org.glite.wms.core/src/cancel_request.cpp\<close>, with the query of
  \<^verbatim>\<open>lb_utils.cpp\<close> for the events that it looks at.

  One call is a function of the answers of the LB, of the file system and of the workload manager; its
  effects are a list of actions. When an exception leaves it, the queue drops the event, and with it the
  request.
\<close>

section \<open>Queries\<close>

text \<open>The events that \<open>get_cancel_events\<close> asks for: enqueued or cancel events of the workload manager.\<close>

definition cancel_condition :: "lb_event \<Rightarrow> bool" where
  "cancel_condition event = (case event of
       Enqueued_event s _ \<Rightarrow> s = Workload_manager | Cancel_event s \<Rightarrow> s = Workload_manager | _ \<Rightarrow> False)"

definition get_cancel_events :: "query_failure + lb_event list \<Rightarrow> query_failure + lb_event list" where
  "get_cancel_events lb = map_sum (\<lambda>e. e) (filter cancel_condition) lb"

section \<open>Environment and effects\<close>

datatype jobtype = Simple_type | Dag_type | Collection_type

text \<open>The children up to the first null pointer, and their states.\<close>

record 'id children_status =
  ch_children :: "'id list option"
  ch_states :: "job_state list option"

text \<open>\<open>ce_create_token\<close>, \<open>ce_log_cancelled\<close> and \<open>ce_wm_cancel\<close> tell whether the call does not throw. \<open>ce_events\<close> has all events of a job, oldest first; \<open>ce_children\<close> is \<open>None\<close> when no context can be
  created for the query, which throws.\<close>

record 'id cancel_env =
  ce_id :: 'id
  ce_status :: "(job_state \<times> jobtype) option"
  ce_children :: "'id children_status option option"
  ce_events :: "'id \<Rightarrow> query_failure + lb_event list"
  ce_token_exists :: bool
  ce_create_token :: "'id \<Rightarrow> bool"
  ce_log_cancelled :: "'id \<Rightarrow> bool"
  ce_wm_cancel :: "'id \<Rightarrow> bool"

datatype 'id cancel_action =
    Create_cancel_token 'id
  | Log_job_cancelled 'id
  | Wm_cancel 'id
  | Reschedule_cancel
  | Log_done_cancelled
  | Purge_cancelled 'id
  | Unregister_proxy 'id
  | Purge_aborted 'id

datatype cancel_end = Returned | Query_raised query_failure | Context_raised

section \<open>Collections and DAGs\<close>

text \<open>\<open>log_cancelled\<close> for the job and \<open>WMReal::cancel\<close>; an exception ends both.\<close>

definition forward_cancel :: "'id cancel_env \<Rightarrow> 'id \<Rightarrow> bool \<times> 'id cancel_action list" where
  "forward_cancel env i =
     (if \<not> ce_log_cancelled env i then (False, [])
      else if \<not> ce_wm_cancel env i then (False, [Log_job_cancelled i])
      else (True, [Log_job_cancelled i, Wm_cancel i]))"

definition forward_child :: "'id cancel_env \<Rightarrow> 'id \<Rightarrow> job_state \<Rightarrow> 'id cancel_action list" where
  "forward_child env i st = (if st \<noteq> Aborted then snd (forward_cancel env i) else [])"

text \<open>One child: its actions and whether it is still being processed.\<close>

definition cancel_child :: "'id cancel_env \<Rightarrow> jobtype \<Rightarrow> 'id \<Rightarrow> job_state \<Rightarrow> lb_event list \<Rightarrow> 'id cancel_action list \<times> bool" where
  "cancel_child env jt i st events =
     (if is_last_cancelled_by_wm events then ([], False)
      else if st = Done \<and> is_last_done events Done_ok then ([], False)
      else if \<not> (st = Done \<and> is_last_done events Done_failed) \<and> is_last_enqueued_by_wm events Enqueued_ok then
        (forward_child env i st, False)
      else if jt = Dag_type then (forward_child env i st, False)
      else ([], True))"

text \<open>The loop over the children, with the actions so far and \<open>incomplete_processing\<close>.\<close>

fun cancel_children ::
    "'id cancel_env \<Rightarrow> jobtype \<Rightarrow> 'id list \<Rightarrow> job_state list option \<Rightarrow> 'id cancel_action list \<Rightarrow> bool \<Rightarrow> (query_failure + bool) \<times> 'id cancel_action list" where
  "cancel_children env jt [] js acts incomplete_processing = (Inr incomplete_processing, acts)"
| "cancel_children env jt (i # is) js acts incomplete_processing =
     (let acts1 = acts @ (if ce_create_token env i then [Create_cancel_token i] else []) in
      case js of
        Some (j # js') \<Rightarrow>
          if j \<noteq> Undef then
            (case get_cancel_events (ce_events env i) of
               Inl e \<Rightarrow> (Inl e, acts1)
             | Inr events \<Rightarrow> (case cancel_child env jt i j events of (as, inc) \<Rightarrow>
                 cancel_children env jt is (Some js') (acts1 @ as) (incomplete_processing \<or> inc)))
          else (Inr incomplete_processing, acts1)
      | _ \<Rightarrow> (Inr incomplete_processing, acts1))"

definition cancel_collection :: "'id cancel_env \<Rightarrow> jobtype \<Rightarrow> cancel_end \<times> 'id cancel_action list" where
  "cancel_collection env jt =
     (case ce_children env of
        None \<Rightarrow> (Context_raised, [])
      | Some None \<Rightarrow> (Returned, [])
      | Some (Some cs) \<Rightarrow>
          (case (case ch_children cs of None \<Rightarrow> (Inr False, []) | Some is \<Rightarrow> cancel_children env jt is (ch_states cs) [] False) of
             (Inl e, acts) \<Rightarrow> (Query_raised e, acts)
           | (Inr incomplete_processing, acts) \<Rightarrow>
               if incomplete_processing then (Returned, acts @ [Reschedule_cancel])
               else if \<not> ce_log_cancelled env (ce_id env) then (Context_raised, acts)
               else (Returned, acts @ [Log_job_cancelled (ce_id env), Log_done_cancelled, Purge_cancelled (ce_id env)])))"

section \<open>Single jobs\<close>

text \<open>When the delivery of the cancellation throws, the job is aborted.\<close>

definition cancel_single :: "'id cancel_env \<Rightarrow> cancel_end \<times> 'id cancel_action list" where
  "cancel_single env =
     (if \<not> ce_token_exists env then (Returned, [])
      else case get_cancel_events (ce_events env (ce_id env)) of
        Inl e \<Rightarrow> (Query_raised e, [])
      | Inr events \<Rightarrow>
          let status = map_option fst (ce_status env) in
          if is_done status \<and> is_last_done events Done_ok then (Returned, [])
          else if \<not> (is_done status \<and> is_last_done events Done_failed) \<and> is_last_enqueued_by_wm events Enqueued_ok then
            (if \<not> is_aborted status then
               (Returned, snd (forward_cancel env (ce_id env)) @
                  (if fst (forward_cancel env (ce_id env)) then [] else [Unregister_proxy (ce_id env), Purge_aborted (ce_id env)]))
             else (Returned, []))
          else (Returned, [Unregister_proxy (ce_id env), Purge_aborted (ce_id env)]))"

definition CancelProcessor :: "'id cancel_env \<Rightarrow> cancel_end \<times> 'id cancel_action list" where
  "CancelProcessor env =
     (case ce_status env of
        Some (_, Collection_type) \<Rightarrow> cancel_collection env Collection_type
      | Some (_, Dag_type) \<Rightarrow> cancel_collection env Dag_type
      | _ \<Rightarrow> cancel_single env)"

end
