(* ===== verification/Wm_Cancel_Props.thy ===== *)
theory Wm_Cancel_Props
  imports Wm_Cancel Wm_Lb_Props
begin

text \<open>
  The properties of the cancellation of jobs and collections.
\<close>

section \<open>The events that are looked at\<close>

lemma find_last_filter:
  assumes "\<forall>e. P e \<longrightarrow> C e"
  shows "(find_last P (filter C es) = length (filter C es)) = (find_last P es = length es) \<and>
    (find_last P es \<noteq> length es \<longrightarrow> filter C es ! find_last P (filter C es) = es ! find_last P es)"
proof (cases "\<exists>e\<in>set es. P e")
  case True
  then obtain xs d ys where es: "es = xs @ d # ys" "P d" "\<not> (\<exists>e\<in>set ys. P e)" by (metis split_list_last_prop)
  then have "find_last P es = length xs" "find_last P (filter C es) = length (filter C xs)"
    using assms find_last_some [of P d ys xs] find_last_some [of P d "filter C ys" "filter C xs"] by auto
  with es assms show ?thesis by simp
next
  case False
  then show ?thesis by (simp add: find_last_none)
qed

lemma cancel_events_enqueued:
  "is_last_enqueued_by_wm (filter cancel_condition es) r = is_last_enqueued_by_wm es r"
proof -
  have "\<forall>e. is_enqueued_to_jc e \<longrightarrow> cancel_condition e" by (simp add: is_enqueued_to_jc_def cancel_condition_def split: lb_event.split)
  from find_last_filter [OF this, of es] show ?thesis by (auto simp: is_last_enqueued_by_wm_def Let_def)
qed

text \<open>No done event passes the query.\<close>

lemma cancel_events_done: "\<not> is_last_done (filter cancel_condition es) c"
proof -
  have "\<not> (\<exists>e\<in>set (filter cancel_condition es). is_done_event e)"
    by (auto simp: is_done_event_def cancel_condition_def split: lb_event.splits)
  then have "find_last is_done_event (filter cancel_condition es) = length (filter cancel_condition es)" by (rule find_last_none)
  then show ?thesis by (simp add: is_last_done_def)
qed

section \<open>A job that is done\<close>

text \<open>a job that is done well is cancelled all the same: the query for its events leaves out done events, so that the test
  which should spare it is never true.\<close>

theorem cancel_of_done_forwarded:
  assumes "ce_status env = Some (Done, Simple_type)" "ce_token_exists env" "ce_events env (ce_id env) = Inr events"
    and "is_last_done events Done_ok" "is_last_enqueued_by_wm events Enqueued_ok"
    and "ce_log_cancelled env (ce_id env)" "ce_wm_cancel env (ce_id env)"
  shows "CancelProcessor env = (Returned, [Log_job_cancelled (ce_id env), Wm_cancel (ce_id env)])"
  using assms by (simp add: CancelProcessor_def cancel_single_def get_cancel_events_def cancel_events_done cancel_events_enqueued
      is_aborted_def forward_cancel_def Let_def)

definition done_job :: "string cancel_env" where
  "done_job = \<lparr>ce_id = ''job'', ce_status = Some (Done, Simple_type), ce_children = Some None,
     ce_events = (\<lambda>_. Inr [Enqueued_event Workload_manager Enqueued_ok, Done_event Log_monitor Done_ok]),
     ce_token_exists = True, ce_create_token = (\<lambda>_. True), ce_log_cancelled = (\<lambda>_. True), ce_wm_cancel = (\<lambda>_. True)\<rparr>"

theorem cancel_of_done_forwarded_witness:
  "CancelProcessor done_job = (Returned, [Log_job_cancelled ''job'', Wm_cancel ''job''])"
proof -
  have "CancelProcessor done_job = (Returned, [Log_job_cancelled (ce_id done_job), Wm_cancel (ce_id done_job)])"
    by (rule cancel_of_done_forwarded [where events = "[Enqueued_event Workload_manager Enqueued_ok, Done_event Log_monitor Done_ok]"])
      (simp_all add: done_job_def is_last_done_def is_last_enqueued_by_wm_def find_last_def is_done_event_def is_enqueued_to_jc_def)
  then show ?thesis by (simp add: done_job_def)
qed

section \<open>A collection\<close>

text \<open>Of the cancel events only those of the workload manager pass the query: the last of them is one as
  soon as there is one.\<close>

lemma cancel_events_cancelled:
  "is_last_cancelled_by_wm (filter cancel_condition es) \<longleftrightarrow> Cancel_event Workload_manager \<in> set es"
proof (cases "\<exists>e\<in>set (filter cancel_condition es). is_cancelled_event e")
  case True
  then obtain xs d ys where f: "filter cancel_condition es = xs @ d # ys" "is_cancelled_event d" "\<not> (\<exists>e\<in>set ys. is_cancelled_event e)"
    by (metis split_list_last_prop)
  have "d \<in> set (filter cancel_condition es)" unfolding f(1) by simp
  then have "d = Cancel_event Workload_manager" "d \<in> set es"
    using f(2) by (auto simp: cancel_condition_def is_cancelled_event_def split: lb_event.splits)
  moreover have "find_last is_cancelled_event (xs @ d # ys) = length xs" by (rule find_last_some [OF f(2,3)])
  ultimately show ?thesis unfolding f(1) by (simp add: is_last_cancelled_by_wm_def Let_def)
next
  case False
  moreover have "cancel_condition (Cancel_event Workload_manager)" "is_cancelled_event (Cancel_event Workload_manager)"
    by (simp_all add: cancel_condition_def is_cancelled_event_def)
  ultimately have "Cancel_event Workload_manager \<notin> set es" by force
  moreover have "find_last is_cancelled_event (filter cancel_condition es) = length (filter cancel_condition es)"
    using False by (rule find_last_none)
  ultimately show ?thesis by (simp add: is_last_cancelled_by_wm_def)
qed

text \<open>A child that was cancelled, and one that the workload manager has handed over.\<close>

definition child_cancelled :: "lb_event list \<Rightarrow> bool" where
  "child_cancelled events \<longleftrightarrow> Cancel_event Workload_manager \<in> set events"

definition child_handed :: "lb_event list \<Rightarrow> bool" where
  "child_handed events \<longleftrightarrow> is_last_enqueued_by_wm events Enqueued_ok"

lemma cancel_child_cases:
  "cancel_child env Collection_type i j (filter cancel_condition es) =
    (if child_cancelled es then ([], False) else if child_handed es then (forward_child env i j, False) else ([], True))"
  by (simp add: cancel_child_def cancel_events_done cancel_events_enqueued cancel_events_cancelled child_cancelled_def child_handed_def)

lemma forward_child_acts: "a \<in> set (forward_child env i j) \<Longrightarrow> a = Log_job_cancelled i \<or> a = Wm_cancel i"
  by (auto simp: forward_child_def forward_cancel_def split: if_splits)

lemma cancel_children_run:
  assumes "length is = length js" "Undef \<notin> set js" "\<forall>i\<in>set is. ce_events env i = Inr (ev i)"
  shows "\<exists>acts'. cancel_children env Collection_type is (Some js) acts inc =
      (Inr (inc \<or> (\<exists>i\<in>set is. \<not> child_cancelled (ev i) \<and> \<not> child_handed (ev i))), acts @ acts') \<and>
    (\<forall>i. Wm_cancel i \<in> set acts' \<longleftrightarrow> (\<exists>j. (i, j) \<in> set (zip is js) \<and> \<not> child_cancelled (ev i) \<and> child_handed (ev i) \<and>
       Wm_cancel i \<in> set (forward_child env i j)))"
  using assms
proof (induction "is" js arbitrary: acts inc rule: list_induct2)
  case Nil
  then show ?case by simp
next
  case (Cons i "is" j js)
  let ?t = "if ce_create_token env i then [Create_cancel_token i] else []"
  let ?r = "if \<not> child_cancelled (ev i) \<and> child_handed (ev i) then forward_child env i j else []"
  let ?p = "\<not> child_cancelled (ev i) \<and> \<not> child_handed (ev i)"
  have step: "cancel_children env Collection_type (i # is) (Some (j # js)) acts inc =
      cancel_children env Collection_type is (Some js) (acts @ ?t @ ?r) (inc \<or> ?p)"
    using Cons.prems by (cases "j = Undef") (auto simp: get_cancel_events_def cancel_child_cases)
  obtain acts' where a: "cancel_children env Collection_type is (Some js) (acts @ ?t @ ?r) (inc \<or> ?p) =
      (Inr ((inc \<or> ?p) \<or> (\<exists>i\<in>set is. \<not> child_cancelled (ev i) \<and> \<not> child_handed (ev i))), (acts @ ?t @ ?r) @ acts')"
    "\<forall>i. Wm_cancel i \<in> set acts' \<longleftrightarrow> (\<exists>j. (i, j) \<in> set (zip is js) \<and> \<not> child_cancelled (ev i) \<and> child_handed (ev i) \<and>
       Wm_cancel i \<in> set (forward_child env i j))"
    using Cons.IH [of "acts @ ?t @ ?r" "inc \<or> ?p"] Cons.prems by auto
  show ?case unfolding step a(1)
    by (intro exI [of _ "?t @ ?r @ acts'"] conjI) (auto simp: a(2) dest: forward_child_acts)
qed

text \<open>C14: when the events of every child can be queried, there is one known state per child, and the logging and the cancellation of every
  child succeed, the cancellation of a collection is tried again if a child is neither cancelled nor handed over, and ends the
  collection otherwise; exactly the children that are handed over, were not cancelled before and are not aborted are
  cancelled.\<close>

theorem collection_cancel_ends:
  assumes "ce_status env = Some (st, Collection_type)" "ce_children env = Some (Some \<lparr>ch_children = Some is, ch_states = Some js\<rparr>)"
    and "length is = length js" "Undef \<notin> set js" "\<forall>i\<in>set is. ce_events env i = Inr (ev i)"
    and "\<forall>i. ce_log_cancelled env i \<and> ce_wm_cancel env i"
  shows "\<exists>acts. CancelProcessor env = (Returned, acts @
      (if \<exists>i\<in>set is. \<not> child_cancelled (ev i) \<and> \<not> child_handed (ev i) then [Reschedule_cancel]
       else [Log_job_cancelled (ce_id env), Log_done_cancelled, Purge_cancelled (ce_id env)])) \<and>
    (\<forall>i. Wm_cancel i \<in> set acts \<longleftrightarrow> (\<exists>j. (i, j) \<in> set (zip is js) \<and> j \<noteq> Aborted \<and> \<not> child_cancelled (ev i) \<and> child_handed (ev i)))"
proof -
  from cancel_children_run [OF assms(3-5), of "[]" False] obtain acts where
    a: "cancel_children env Collection_type is (Some js) [] False =
      (Inr (\<exists>i\<in>set is. \<not> child_cancelled (ev i) \<and> \<not> child_handed (ev i)), acts)"
    "\<forall>i. Wm_cancel i \<in> set acts \<longleftrightarrow> (\<exists>j. (i, j) \<in> set (zip is js) \<and> \<not> child_cancelled (ev i) \<and> child_handed (ev i) \<and>
       Wm_cancel i \<in> set (forward_child env i j))" by auto
  have f: "Wm_cancel i \<in> set (forward_child env i j) \<longleftrightarrow> j \<noteq> Aborted" for i j
    using assms(6) by (simp add: forward_child_def forward_cancel_def)
  show ?thesis using assms(1,2,6) a by (auto simp: CancelProcessor_def cancel_collection_def f)
qed

definition two_children :: "string cancel_env" where
  "two_children = done_job\<lparr>ce_status := Some (Job_running, Collection_type),
     ce_children := Some (Some \<lparr>ch_children = Some [''a'', ''b''], ch_states = Some [Job_running, Waiting]\<rparr>),
     ce_events := (\<lambda>i. if i = ''a'' then Inr [Enqueued_event Workload_manager Enqueued_ok] else Inr [])\<rparr>"

theorem collection_cancel_ends_witness:
  "Reschedule_cancel \<in> set (snd (CancelProcessor two_children)) \<and> Wm_cancel ''a'' \<in> set (snd (CancelProcessor two_children))"
proof -
  let ?ev = "\<lambda>i. if i = ''a'' then [Enqueued_event Workload_manager Enqueued_ok] else []"
  have e: "ce_status two_children = Some (Job_running, Collection_type)"
    "ce_children two_children = Some (Some \<lparr>ch_children = Some [''a'', ''b''], ch_states = Some [Job_running, Waiting]\<rparr>)"
    "\<forall>i\<in>set [''a'', ''b'']. ce_events two_children i = Inr (?ev i)" "\<forall>i. ce_log_cancelled two_children i \<and> ce_wm_cancel two_children i"
    by (simp_all add: two_children_def done_job_def)
  have h: "child_handed [Enqueued_event Workload_manager Enqueued_ok]" "\<not> child_handed []"
    "\<not> child_cancelled [Enqueued_event Workload_manager Enqueued_ok]" "\<not> child_cancelled []"
    by (simp_all add: child_handed_def child_cancelled_def is_last_enqueued_by_wm_def find_last_def is_enqueued_to_jc_def)
  have l: "length [''a'', ''b''] = length [Job_running, Waiting]" "Undef \<notin> set [Job_running, Waiting]" by simp_all
  from collection_cancel_ends [OF e(1,2) l e(3,4)] obtain acts where
    "CancelProcessor two_children = (Returned, acts @
      (if \<exists>i\<in>set [''a'', ''b'']. \<not> child_cancelled (?ev i) \<and> \<not> child_handed (?ev i) then [Reschedule_cancel]
       else [Log_job_cancelled (ce_id two_children), Log_done_cancelled, Purge_cancelled (ce_id two_children)]))"
    "Wm_cancel ''a'' \<in> set acts \<longleftrightarrow> (\<exists>j. (''a'', j) \<in> set (zip [''a'', ''b''] [Job_running, Waiting]) \<and> j \<noteq> Aborted \<and>
       \<not> child_cancelled (?ev ''a'') \<and> child_handed (?ev ''a''))" by blast
  then show ?thesis using h by simp
qed

end
