(* ===== verification/Size_File.thy ===== *)
theory Size_File
  imports Wms_Prelude
begin

text \<open>
  The size file of a Condor log, \<^verbatim>\<open>org.glite.wms.jobsubmission/src/logmonitor/SizeFile.cpp\<close> and \<^verbatim>\<open>SizeFile.h\<close>: how
  far the log monitor has read a log, how many jobs are pending and whether the last one was
  submitted. The file is a header and a row of fields of the same width; every update appends a field,
  and the last one counts.

  The stream is the bytes of the file, one position, eofbit and failbit, and whether it is open; the device
  takes every write, a seek does nothing on a failed stream, \<open>open\<close> clears the state when it succeeds and
  fails on a stream that is open. Making the name of the file
  (\<open>createDotFile\<close>) and the log are left out.
\<close>

section \<open>The stream\<close>

record sstream =
  io_bytes :: string
  io_pos :: nat
  io_eof :: bool
  io_fail :: bool
  io_is_open :: bool

definition io_closed :: "string \<Rightarrow> sstream" where
  "io_closed f = \<lparr>io_bytes = f, io_pos = 0, io_eof = False, io_fail = False, io_is_open = False\<rparr>"

definition io_open :: "string \<Rightarrow> sstream \<Rightarrow> sstream" where
  "io_open f s = (if io_is_open s then s\<lparr>io_fail := True\<rparr> else (io_closed f)\<lparr>io_is_open := True\<rparr>)"

definition io_close :: "sstream \<Rightarrow> sstream" where
  "io_close s = s\<lparr>io_is_open := False\<rparr>"

definition io_good :: "sstream \<Rightarrow> bool" where
  "io_good s \<longleftrightarrow> \<not> io_eof s \<and> \<not> io_fail s"

definition io_clear :: "sstream \<Rightarrow> sstream" where
  "io_clear s = s\<lparr>io_eof := False, io_fail := False\<rparr>"

definition io_tell :: "sstream \<Rightarrow> int" where
  "io_tell s = (if io_fail s then -1 else int (io_pos s))"

definition io_seek :: "int \<Rightarrow> sstream \<Rightarrow> sstream" where
  "io_seek p s = (if io_fail s then s else if p < 0 then s\<lparr>io_fail := True\<rparr> else s\<lparr>io_pos := nat p\<rparr>)"

text \<open>Seek relative to the end of the file.\<close>

definition io_seek_end :: "int \<Rightarrow> sstream \<Rightarrow> sstream" where
  "io_seek_end d s = io_seek (int (length (io_bytes s)) + d) s"

definition io_put :: "string \<Rightarrow> sstream \<Rightarrow> sstream" where
  "io_put str s = (if io_good s then s\<lparr>io_bytes := overwrite (io_pos s) str (io_bytes s), io_pos := io_pos s + length str\<rparr>
     else s\<lparr>io_fail := True\<rparr>)"

definition io_rest :: "sstream \<Rightarrow> string" where
  "io_rest s = drop (io_pos s) (io_bytes s)"

text \<open>Go on to the point where \<open>r\<close> of the file is left.\<close>

definition io_left :: "string \<Rightarrow> sstream \<Rightarrow> sstream" where
  "io_left r s = s\<lparr>io_pos := length (io_bytes s) - length r, io_eof := (r = [])\<rparr>"

text \<open>The numeral that an extraction reads: white space, a sign, digits; \<open>None\<close> when there is no digit.\<close>

definition io_numeral :: "sstream \<Rightarrow> (bool \<times> nat) option \<times> sstream" where
  "io_numeral s =
     (if \<not> io_good s then (None, s\<lparr>io_fail := True\<rparr>)
      else let r = dropWhile isspace_c (io_rest s);
               signed = (r \<noteq> [] \<and> (hd r = CHR ''-'' \<or> hd r = CHR ''+''));
               r1 = (if signed then tl r else r);
               ds = takeWhile isdigit_c r1;
               s1 = io_left (dropWhile isdigit_c r1) s
           in if ds = [] then (None, s1\<lparr>io_fail := True\<rparr>)
              else (Some (signed \<and> hd r = CHR ''-'', digits_value 10 ds), s1))"

text \<open>\<open>long\<close>, \<open>unsigned int\<close> and \<open>bool\<close> of the 64-bit platforms: a value out of range fails; a sign
  in front of an unsigned number negates it modulo its range.\<close>

definition io_long :: "sstream \<Rightarrow> int option \<times> sstream" where
  "io_long s = (case io_numeral s of
       (None, s1) \<Rightarrow> (None, s1)
     | (Some (neg, n), s1) \<Rightarrow> let v = (if neg then - int n else int n)
         in if v < - (2 ^ 63) \<or> 2 ^ 63 \<le> v then (None, s1\<lparr>io_fail := True\<rparr>) else (Some v, s1))"

definition io_unsigned :: "sstream \<Rightarrow> nat option \<times> sstream" where
  "io_unsigned s = (case io_numeral s of
       (None, s1) \<Rightarrow> (None, s1)
     | (Some (neg, n), s1) \<Rightarrow> if 2 ^ 32 \<le> n then (None, s1\<lparr>io_fail := True\<rparr>)
         else (Some (if neg then (2 ^ 32 - n) mod 2 ^ 32 else n), s1))"

definition io_bool :: "sstream \<Rightarrow> bool option \<times> sstream" where
  "io_bool s = (case io_long s of
       (None, s1) \<Rightarrow> (None, s1)
     | (Some v, s1) \<Rightarrow> if v = 0 then (Some False, s1) else if v = 1 then (Some True, s1)
         else (None, s1\<lparr>io_fail := True\<rparr>))"

definition io_char :: "sstream \<Rightarrow> char option \<times> sstream" where
  "io_char s =
     (if \<not> io_good s then (None, s\<lparr>io_fail := True\<rparr>)
      else case dropWhile isspace_c (io_rest s) of
        [] \<Rightarrow> (None, (io_left [] s)\<lparr>io_fail := True\<rparr>)
      | c # r \<Rightarrow> (Some c, s\<lparr>io_pos := length (io_bytes s) - length r\<rparr>))"

definition io_word :: "sstream \<Rightarrow> string \<times> sstream" where
  "io_word s =
     (if \<not> io_good s then ([], s\<lparr>io_fail := True\<rparr>)
      else let r = dropWhile isspace_c (io_rest s);
               w = takeWhile (\<lambda>c. \<not> isspace_c c) r;
               s1 = io_left (dropWhile (\<lambda>c. \<not> isspace_c c) r) s
           in (w, if w = [] then s1\<lparr>io_fail := True\<rparr> else s1))"

definition io_getline :: "sstream \<Rightarrow> string \<times> sstream" where
  "io_getline s =
     (if \<not> io_good s then ([], s\<lparr>io_fail := True\<rparr>)
      else let line = takeWhile (\<lambda>c. c \<noteq> newline) (io_rest s)
           in if length line < length (io_rest s) then (line, s\<lparr>io_pos := io_pos s + length line + 1\<rparr>)
              else (line, (io_left [] s)\<lparr>io_fail := (line = [])\<rparr>))"

section \<open>Fields and headers\<close>

definition sf_s_long :: nat where "sf_s_long = 20"
definition sf_s_unsigned :: nat where "sf_s_unsigned = 10"

record size_field =
  fd_good :: bool
  fd_last :: bool
  fd_pending :: nat
  fd_position :: int

definition SizeField_new :: size_field where
  "SizeField_new = \<lparr>fd_good = False, fd_last = False, fd_pending = 0, fd_position = 0\<rparr>"

definition fd_reset :: "int \<Rightarrow> nat \<Rightarrow> bool \<Rightarrow> size_field" where
  "fd_reset position pending is_last = \<lparr>fd_good = True, fd_last = is_last, fd_pending = pending, fd_position = position\<rparr>"

definition fd_dimension :: nat where "fd_dimension = sf_s_long + sf_s_unsigned + 5"

text \<open>\<open>setfill('0') << setw(w)\<close> pads a negative number in front of its sign.\<close>

definition padded_long :: "nat \<Rightarrow> int \<Rightarrow> string" where
  "padded_long w i = (if 0 \<le> i then padded 10 w (nat i)
     else let s = CHR ''-'' # digits 10 (nat (- i)) in replicate (w - length s) CHR ''0'' @ s)"

definition fd_text :: "size_field \<Rightarrow> string" where
  "fd_text sf = padded_long sf_s_long (fd_position sf) @ '' '' @ padded 10 sf_s_unsigned (fd_pending sf) @ '' '' @
     [if fd_last sf then CHR ''1'' else CHR ''0''] @ '' |''"

definition fd_read :: "size_field \<Rightarrow> sstream \<Rightarrow> size_field \<times> sstream" where
  "fd_read sf s =
     (let (position, s1) = io_long s; (pending, s2) = io_unsigned s1; (is_last, s3) = io_bool s2; (c, s4) = io_char s3
      in case (io_good s4, position, pending, is_last, c = Some CHR ''|'') of
           (True, Some p, Some n, Some l, True) \<Rightarrow> (fd_reset p n l, s4)
         | _ \<Rightarrow> (sf\<lparr>fd_good := False\<rparr>, s4))"

record size_header =
  sh_good :: bool
  sh_header :: string

definition sh_reset :: "string \<Rightarrow> size_header" where
  "sh_reset header = \<lparr>sh_good = (header \<noteq> []), sh_header = header\<rparr>"

definition SizeHeader_new :: size_header where
  "SizeHeader_new = \<lparr>sh_good = False, sh_header = []\<rparr>"

definition sh_size :: "size_header \<Rightarrow> nat" where
  "sh_size sh = length (sh_header sh) + 4"

definition sh_text :: "size_header \<Rightarrow> string" where
  "sh_text sh = sh_header sh @ newline # ''...''"

text \<open>The loop over the lines of the header. When the first line is already the last one the code
  erases before the begin of an empty string; here it stays empty.\<close>

function sh_lines :: "string \<Rightarrow> sstream \<Rightarrow> (bool \<times> string) \<times> sstream" where
  "sh_lines header s =
     (let (buffer, s1) = io_getline s in
      if buffer = ''...'' then ((True, butlast header), s1)
      else if io_good s1 then sh_lines (header @ buffer @ [newline]) s1
      else ((False, header), s1))"
  by pat_completeness auto

termination
  by (relation "measure (\<lambda>(header, s). length (io_bytes s) - io_pos s)")
    (auto simp: io_getline_def io_rest_def io_good_def io_left_def Let_def split: if_splits)

declare sh_lines.simps [simp del]

definition sh_read :: "sstream \<Rightarrow> size_header \<times> sstream" where
  "sh_read s = (let ((is_last, header), s1) = sh_lines [] s
     in (\<lparr>sh_good = is_last, sh_header = if is_last then header else []\<rparr>, s1))"

section \<open>The file\<close>

record size_file =
  sf_good :: bool
  sf_stashed :: bool
  sf_stash_pos :: int
  sf_filename :: string
  sf_stream :: sstream
  sf_header :: size_header
  sf_current :: size_field

definition sf_s_defaultHeader :: string where
  "sf_s_defaultHeader = ''Condor log size file, DAG enabled.'' @ [newline] @ ''This header is made to contain the dagId.'' @ [newline] @
     ''In this moment the DAG Id is unknown.''"

definition on_io :: "(sstream \<Rightarrow> sstream) \<Rightarrow> size_file \<Rightarrow> size_file" where
  "on_io g sf = sf\<lparr>sf_stream := g (sf_stream sf)\<rparr>"

definition newSizeFile :: "size_file \<Rightarrow> size_file" where
  "newSizeFile sf =
     (let s = (if sf_stashed sf then sf_stream sf else io_close (io_clear (sf_stream sf)));
          sf1 = sf\<lparr>sf_stashed := False,
                   sf_header := if sh_good (sf_header sf) then sf_header sf else sh_reset sf_s_defaultHeader\<rparr>;
          s1 = io_put (sh_text (sf_header sf1) @ [newline] @ fd_text (sf_current sf1) @ [newline]) (io_open [] s)
      in sf1\<lparr>sf_stream := io_seek_end 0 (io_open (io_bytes s1) (io_close s1))\<rparr>)"

definition reopenFile :: "size_file \<Rightarrow> size_file" where
  "reopenFile sf = (if \<not> sf_stashed sf then sf
     else let s = io_open (io_bytes (sf_stream sf)) (sf_stream sf); s1 = (if io_good s then io_seek (sf_stash_pos sf) s else s)
          in sf\<lparr>sf_stream := s1, sf_good := io_good s1, sf_stashed := False\<rparr>)"

definition stashFile :: "size_file \<Rightarrow> size_file" where
  "stashFile sf = (if sf_stashed sf then sf else sf\<lparr>sf_stash_pos := io_tell (sf_stream sf), sf_stashed := True, sf_stream := io_close (sf_stream sf)\<rparr>)"

definition readField :: "int \<Rightarrow> size_file \<Rightarrow> size_field \<times> size_file" where
  "readField position sf =
     (let sf1 = reopenFile sf; (field, s) = fd_read SizeField_new (io_seek position (sf_stream sf1))
      in (field, sf1\<lparr>sf_stream := s\<rparr>))"

definition readLastField :: "size_file \<Rightarrow> size_field \<times> size_file" where
  "readLastField sf =
     (let sf1 = reopenFile sf; (field, s) = fd_read SizeField_new (io_seek_end (- int (fd_dimension + 1)) (sf_stream sf1))
      in (field, sf1\<lparr>sf_stream := s\<rparr>))"

text \<open>The old format is one line. What an extraction does not reach keeps the value that the variables
  have from before, \<open>junk\<close>.\<close>

definition checkOldFormat :: "size_field \<Rightarrow> size_file \<Rightarrow> bool \<times> size_file" where
  "checkOldFormat junk sf =
     (let sf1 = reopenFile sf;
          (position, s1) = io_long (io_seek 0 (io_clear (sf_stream sf1)));
          (pending, s2) = io_unsigned s1; (is_last, s3) = io_bool s2;
          (dagid, s4) = (if io_good s3 then io_word s3 else ([], s3))
      in if io_good s4 \<or> io_eof s4 then
           let field = fd_reset (case position of None \<Rightarrow> fd_position junk | Some p \<Rightarrow> p)
                 (case pending of None \<Rightarrow> fd_pending junk | Some n \<Rightarrow> n) (case is_last of None \<Rightarrow> fd_last junk | Some l \<Rightarrow> l);
               header = (if dagid = [] then sf_header sf1
                 else sh_reset (''Restored from old file'' @ [newline] @ ''DagId = '' @ dagid @ [newline] @ ''###########''))
           in (True, sf1\<lparr>sf_stream := io_clear s4, sf_header := header, sf_current := field\<rparr>)
         else (False, sf1\<lparr>sf_stream := s4\<rparr>))"

text \<open>The search for a good field from the back; \<open>None\<close> when there is none.\<close>

fun recover_field :: "nat \<Rightarrow> size_file \<Rightarrow> size_file option" where
  "recover_field 0 sf = None"
| "recover_field (Suc k) sf =
     (let (field, sf1) = readField (int (sh_size (sf_header sf) + Suc k * (fd_dimension + 1))) sf;
          sf2 = sf1\<lparr>sf_current := field\<rparr>
      in if fd_good field \<and> io_good (sf_stream sf2) then Some (on_io (io_seek (io_tell (sf_stream sf2))) sf2)
         else recover_field k (if io_good (sf_stream sf2) then sf2 else on_io io_clear sf2))"

definition restart :: "size_file \<Rightarrow> size_file" where
  "restart sf = newSizeFile (sf\<lparr>sf_current := fd_reset 0 0 False\<rparr>)"

text \<open>A file whose header can be read.\<close>

definition openFields :: "nat \<Rightarrow> size_file \<Rightarrow> size_file" where
  "openFields filesize sf =
     (let (field, sf1) = readLastField sf; sf2 = sf1\<lparr>sf_current := field\<rparr> in
      if fd_good field \<and> io_good (sf_stream sf2) then on_io (io_seek_end 0) sf2
      else let sf3 = (if io_good (sf_stream sf2) then sf2 else on_io io_clear sf2);
               field_number = (int filesize - int (sh_size (sf_header sf3))) div int (fd_dimension + 1)
           in if field_number \<noteq> 0 then case recover_field (nat field_number) sf3 of Some sf4 \<Rightarrow> sf4 | None \<Rightarrow> restart sf3
              else restart sf3)"

definition openFile :: "size_field \<Rightarrow> bool \<Rightarrow> size_file \<Rightarrow> size_file" where
  "openFile junk create sf =
     (if sf_filename sf = [] then sf\<lparr>sf_good := False, sf_stashed := False\<rparr>
      else if create then
        let sf1 = newSizeFile (sf\<lparr>sf_header := sh_reset sf_s_defaultHeader, sf_current := fd_reset 0 0 False\<rparr>)
        in (if io_good (sf_stream sf1) then sf1 else sf1\<lparr>sf_good := False\<rparr>)\<lparr>sf_stashed := False\<rparr>
      else
        let s = io_open (io_bytes (sf_stream sf)) (sf_stream sf); filesize = length (io_bytes s) in
        if filesize = 0 then
          let header = sh_reset sf_s_defaultHeader; current = fd_reset 0 0 False
          in sf\<lparr>sf_header := header, sf_current := current, sf_stashed := False,
                sf_stream := io_put (sh_text header @ [newline] @ fd_text current @ [newline]) (io_seek 0 s)\<rparr>
        else
          let (header, s1) = sh_read (io_seek 0 s); sf1 = sf\<lparr>sf_header := header, sf_stream := s1\<rparr> in
          (if sh_good header \<and> \<not> io_eof s1 then openFields filesize sf1
           else if io_eof s1 then
             let (old, sf2) = checkOldFormat junk sf1 in if old then newSizeFile sf2 else restart sf2
           else sf1\<lparr>sf_good := False\<rparr>)\<lparr>sf_stashed := False\<rparr>)"

text \<open>The constructor on a file with the given contents.\<close>

definition SizeFile_new :: "size_field \<Rightarrow> string \<Rightarrow> bool \<Rightarrow> string \<Rightarrow> size_file" where
  "SizeFile_new junk filename create f =
     stashFile (openFile junk create \<lparr>sf_good = True, sf_stashed = False, sf_stash_pos = 0, sf_filename = filename,
       sf_stream = io_closed f, sf_header = SizeHeader_new, sf_current = SizeField_new\<rparr>)"

text \<open>\<open>open\<close> on an object that has a file already: \<open>f\<close> is the contents of the new one.\<close>

definition sf_open :: "size_field \<Rightarrow> string \<Rightarrow> bool \<Rightarrow> string \<Rightarrow> size_file \<Rightarrow> size_file" where
  "sf_open junk filename create f sf =
     stashFile (openFile junk create (sf\<lparr>sf_good := True, sf_filename := filename, sf_stream := io_closed f\<rparr>))"

section \<open>Updates\<close>

definition dumpField :: "size_file \<Rightarrow> size_file" where
  "dumpField sf =
     (let sf1 = reopenFile sf;
          sf2 = (if io_good (sf_stream sf1) then on_io (io_put (fd_text (sf_current sf1) @ [newline])) sf1 else sf1)
      in sf2\<lparr>sf_good := io_good (sf_stream sf2)\<rparr>)"

text \<open>The common frame of the updates that write.\<close>

definition updating :: "(size_file \<Rightarrow> size_file) \<Rightarrow> size_file \<Rightarrow> size_file" where
  "updating g sf = (let sf1 = reopenFile sf in stashFile (if sf_good sf1 then g sf1 else sf1))"

definition on_field :: "(size_field \<Rightarrow> size_field) \<Rightarrow> size_file \<Rightarrow> size_file" where
  "on_field g sf = sf\<lparr>sf_current := g (sf_current sf)\<rparr>"

definition update_position :: "int \<Rightarrow> size_file \<Rightarrow> size_file" where
  "update_position p = updating (\<lambda>sf. dumpField (on_field (\<lambda>fd. fd\<lparr>fd_position := p\<rparr>) sf))"

definition update_pending :: "nat \<Rightarrow> size_file \<Rightarrow> size_file" where
  "update_pending n = updating (\<lambda>sf. dumpField (on_field (\<lambda>fd. fd\<lparr>fd_pending := n\<rparr>) sf))"

definition update_last :: "bool \<Rightarrow> size_file \<Rightarrow> size_file" where
  "update_last l = updating (\<lambda>sf. dumpField (on_field (\<lambda>fd. fd\<lparr>fd_last := l\<rparr>) sf))"

definition sf_update :: "int \<Rightarrow> nat \<Rightarrow> bool \<Rightarrow> size_file \<Rightarrow> size_file" where
  "sf_update p n l = updating (\<lambda>sf. dumpField (on_field (\<lambda>_. fd_reset p n l) sf))"

definition set_last :: "bool \<Rightarrow> size_file \<Rightarrow> size_file" where
  "set_last l sf = (if sf_good sf then on_field (\<lambda>fd. fd\<lparr>fd_last := l\<rparr>) sf else sf)"

definition set_completed :: "size_file \<Rightarrow> size_file" where
  "set_completed sf = (if sf_good sf then on_field (\<lambda>fd. fd\<lparr>fd_pending := 0, fd_last := True\<rparr>) sf else sf)"

definition increment_pending :: "size_file \<Rightarrow> size_file" where
  "increment_pending sf = (if sf_good sf then on_field (\<lambda>fd. fd\<lparr>fd_pending := (fd_pending fd + 1) mod 2 ^ 32\<rparr>) sf else sf)"

definition decrement_pending :: "size_file \<Rightarrow> size_file" where
  "decrement_pending sf = (if sf_good sf then on_field (\<lambda>fd. if fd_pending fd > 0 then fd\<lparr>fd_pending := fd_pending fd - 1\<rparr> else fd) sf
     else sf)"

definition completed :: "size_file \<Rightarrow> bool" where
  "completed sf \<longleftrightarrow> sf_good sf \<and> fd_last (sf_current sf) \<and> fd_pending (sf_current sf) = 0"

text \<open>A header that is at least as long as the old one is padded by the difference once more and
  written over the old one; a shorter one starts the file anew.\<close>

definition pad_header :: "nat \<Rightarrow> string \<Rightarrow> string" where
  "pad_header space header = (if space > 1 then header @ newline # replicate (space - 1) CHR ''#''
     else if space = 1 then header @ '' '' else header)"

definition update_header :: "string \<Rightarrow> size_file \<Rightarrow> size_file" where
  "update_header newheader = updating (\<lambda>sf.
     if length (sh_header (sf_header sf)) \<le> length newheader then
       let sf1 = sf\<lparr>sf_header := sh_reset (pad_header (length newheader - length (sh_header (sf_header sf))) newheader)\<rparr> in
       if io_good (sf_stream sf1) then
         let sf2 = on_io (\<lambda>s. io_seek_end 0 (io_put (sh_text (sf_header sf1)) (io_seek 0 s))) sf1
         in sf2\<lparr>sf_good := io_good (sf_stream sf2)\<rparr>
       else sf1\<lparr>sf_good := False\<rparr>
     else
       let sf1 = on_io (io_seek 0) (sf\<lparr>sf_header := sh_reset newheader\<rparr>);
           sf2 = on_io (\<lambda>s. io_put (sh_text (sf_header sf1) @ [newline] @ fd_text (sf_current sf1) @ [newline]) (s\<lparr>io_bytes := []\<rparr>)) sf1
       in sf2\<lparr>sf_good := io_good (sf_stream sf2)\<rparr>)"

end
