(* ===== verification/Size_File_Props.thy ===== *)
theory Size_File_Props
  imports Size_File
begin

text \<open>
  The size file keeps the last field that was written, over restarts of the log monitor; and what a
  restart reads when the last write was cut short.
\<close>

section \<open>Reading\<close>

lemma isdigit_base: "is_base_digit 10 c = isdigit_c c"
  by (auto simp: is_base_digit_def char_digit_def isdigit_c_def Let_def)

lemma space_not_digit: "isspace_c c \<Longrightarrow> \<not> isdigit_c c"
  using isspace_not_digit [of c 10] by (simp add: isdigit_base)

lemma sign_not_digit [simp]: "\<not> isdigit_c CHR ''-''" "\<not> isdigit_c CHR ''+''" "\<not> isdigit_c CHR ''|''" "\<not> isspace_c CHR ''|''"
  by (simp_all add: isdigit_c_def isspace_c_def)

lemma io_rest_bound: "io_rest s = xs @ r \<Longrightarrow> r \<noteq> [] \<Longrightarrow> length (io_bytes s) - length r = io_pos s + length xs"
  by (cases r) (auto simp: io_rest_def dest!: arg_cong [of _ _ length])

lemma io_rest_pos: "io_rest s = xs @ r \<Longrightarrow> io_rest (s\<lparr>io_pos := io_pos s + length xs\<rparr>) = r"
  by (auto simp: io_rest_def drop_drop [symmetric] add.commute)

text \<open>A numeral after white space, followed by something that is not a digit.\<close>

lemma io_numeral_at:
  assumes "io_good s" "io_rest s = ws @ ds @ c # r" "list_all isspace_c ws" "list_all isdigit_c ds" "ds \<noteq> []" "\<not> isdigit_c c"
  shows "io_numeral s = (Some (False, digits_value 10 ds), s\<lparr>io_pos := io_pos s + length (ws @ ds)\<rparr>)"
proof -
  obtain d ds' where d: "ds = d # ds'" using assms(5) by (cases ds) auto
  have "\<not> isspace_c d" "d \<noteq> CHR ''-''" "d \<noteq> CHR ''+''" using assms(4) space_not_digit by (auto simp: d)
  then have w: "dropWhile isspace_c (io_rest s) = ds @ c # r"
    unfolding assms(2) d append_Cons using assms(3) by (simp add: dropWhile_append2 list_all_iff)
  have t: "takeWhile isdigit_c (ds @ c # r) = ds" "dropWhile isdigit_c (ds @ c # r) = c # r"
    using assms(4,6) by (simp_all add: takeWhile_append2 dropWhile_append2 list_all_iff)
  have l: "io_left (c # r) s = s\<lparr>io_pos := io_pos s + length (ws @ ds)\<rparr>"
    using io_rest_bound [of s "ws @ ds" "c # r"] assms(1,2) by (simp add: io_left_def io_good_def)
  show ?thesis
    using assms(1,5) w t l \<open>d \<noteq> CHR ''-''\<close> \<open>d \<noteq> CHR ''+''\<close> by (simp add: io_numeral_def Let_def d)
qed

lemma io_good_pos [simp]: "io_good (s\<lparr>io_pos := p\<rparr>) = io_good s"
  by (simp add: io_good_def)

text \<open>Reading a field, possibly behind its first digits.\<close>

lemma fd_read_at:
  assumes g: "io_good s" and r: "io_rest s = ws @ ps @ '' '' @ ns @ '' '' @ [b] @ '' |'' @ r"
    and ws: "list_all isspace_c ws" and ps: "list_all isdigit_c ps" "ps \<noteq> []" "digits_value 10 ps < 2 ^ 63"
    and ns: "list_all isdigit_c ns" "ns \<noteq> []" "digits_value 10 ns < 2 ^ 32" and b: "b = CHR ''0'' \<or> b = CHR ''1''"
  shows "fd_read sf s = (fd_reset (int (digits_value 10 ps)) (digits_value 10 ns) (b = CHR ''1''),
    s\<lparr>io_pos := io_pos s + length ws + length ps + length ns + 5\<rparr>)"
proof -
  let ?s1 = "s\<lparr>io_pos := io_pos s + length (ws @ ps)\<rparr>"
  let ?s2 = "?s1\<lparr>io_pos := io_pos ?s1 + length ('' '' @ ns)\<rparr>"
  let ?s3 = "?s2\<lparr>io_pos := io_pos ?s2 + length ('' '' @ [b])\<rparr>"
  have sp: "\<not> isdigit_c CHR '' ''" by (simp add: space_not_digit)
  have db: "isdigit_c b" "digits_value 10 [b] = (if b = CHR ''1'' then 1 else 0)"
    using b by (auto simp: isdigit_c_def digits_value_def char_digit_def)
  have "io_numeral s = (Some (False, digits_value 10 ps), ?s1)" using io_numeral_at [OF g, of ws ps] r ws ps sp by simp
  then have 1: "io_long s = (Some (int (digits_value 10 ps)), ?s1)" using ps(3) by (simp add: io_long_def Let_def)
  have r1: "io_rest ?s1 = '' '' @ ns @ '' '' @ [b] @ '' |'' @ r" by (rule io_rest_pos) (use r in simp)
  have "io_numeral ?s1 = (Some (False, digits_value 10 ns), ?s2)"
    by (rule io_numeral_at [where ws = "'' ''" and r = "[b] @ '' |'' @ r"]) (use r1 g ns sp in simp_all)
  then have 2: "io_unsigned ?s1 = (Some (digits_value 10 ns), ?s2)" using ns(3) by (simp add: io_unsigned_def)
  have r2: "io_rest ?s2 = '' '' @ [b] @ '' |'' @ r" by (rule io_rest_pos) (use r1 in simp)
  have "io_numeral ?s2 = (Some (False, digits_value 10 [b]), ?s3)"
    by (rule io_numeral_at [where ws = "'' ''" and ds = "[b]" and r = "''|'' @ r"]) (use r2 g db sp in simp_all)
  then have 3: "io_bool ?s2 = (Some (b = CHR ''1''), ?s3)" using db by (simp add: io_bool_def io_long_def)
  have r3: "io_rest ?s3 = '' |'' @ r" by (rule io_rest_pos) (use r2 in simp)
  have p3: "io_pos ?s3 = io_pos s + length ws + length ps + length ns + 3" by simp
  have "length (io_bytes s) = io_pos ?s3 + 2 + length r" using r3 by (auto simp: io_rest_def dest: arg_cong [of _ _ length])
  then have 4: "io_char ?s3 = (Some CHR ''|'', ?s3\<lparr>io_pos := io_pos ?s3 + 2\<rparr>)" using r3 g by (simp add: io_char_def)
  show ?thesis unfolding fd_read_def 1 prod.case Let_def 2 3 4 using g by simp
qed

section \<open>The text of a file\<close>

definition field_ok :: "size_field \<Rightarrow> bool" where
  "field_ok fd \<longleftrightarrow> fd_good fd \<and> 0 \<le> fd_position fd \<and> fd_position fd < 2 ^ 63 \<and> fd_pending fd < 2 ^ 32"

definition fields_text :: "size_field list \<Rightarrow> string" where
  "fields_text fds = concat (map (\<lambda>fd. fd_text fd @ [newline]) fds)"

lemma fields_text_simps [simp]:
  "fields_text [] = []" "fields_text (xs @ ys) = fields_text xs @ fields_text ys" "fields_text [fd] = fd_text fd @ [newline]"
  by (simp_all add: fields_text_def)

lemma fd_text_ok:
  "field_ok fd \<Longrightarrow> fd_text fd = padded 10 20 (nat (fd_position fd)) @ '' '' @ padded 10 10 (fd_pending fd) @ '' '' @
    [if fd_last fd then CHR ''1'' else CHR ''0''] @ '' |''"
  by (simp add: fd_text_def padded_long_def sf_s_long_def sf_s_unsigned_def field_ok_def)

lemma padded_field:
  assumes "field_ok fd"
  shows "length (padded 10 20 (nat (fd_position fd))) = 20" "length (padded 10 10 (fd_pending fd)) = 10"
    "list_all isdigit_c (padded 10 w n)"
proof -
  have "nat (fd_position fd) < 10 ^ 20" "fd_pending fd < 10 ^ 10" using assms by (auto simp: field_ok_def)
  then show "length (padded 10 20 (nat (fd_position fd))) = 20" "length (padded 10 10 (fd_pending fd)) = 10"
    by (simp_all add: length_padded)
  show "list_all isdigit_c (padded 10 w n)" using padded_all [of 10 w n] by (simp add: isdigit_base [abs_def] list_all_iff)
qed

lemma length_fd_text: "field_ok fd \<Longrightarrow> length (fd_text fd) = 35"
  by (simp add: fd_text_ok padded_field)

lemma length_fields_text: "\<forall>fd\<in>set fds. field_ok fd \<Longrightarrow> length (fields_text fds) = 36 * length fds"
  by (induction fds) (simp_all add: fields_text_def length_fd_text)

lemma field_reset: "field_ok fd \<Longrightarrow> fd_reset (fd_position fd) (fd_pending fd) (fd_last fd) = fd"
  by (cases fd) (simp add: fd_reset_def field_ok_def)

lemma digits_value_append: "digits_value b (xs @ ys) = digits_value b xs * b ^ length ys + digits_value b ys"
proof (induction ys rule: rev_induct)
  case Nil
  show ?case by (simp add: digits_value_def)
next
  case (snoc y ys)
  have "digits_value b ((xs @ ys) @ [y]) = b * digits_value b (xs @ ys) + (case char_digit y of None \<Rightarrow> 0 | Some d \<Rightarrow> d)"
    by (rule digits_value_append1)
  then show ?case using snoc digits_value_append1 [of b ys y] by (simp add: algebra_simps)
qed

lemma digits_value_bound: "list_all isdigit_c ds \<Longrightarrow> digits_value 10 ds < 10 ^ length ds"
proof (induction ds rule: rev_induct)
  case Nil
  show ?case by (simp add: digits_value_def)
next
  case (snoc d ds)
  from snoc.prems have "isdigit_c d" by simp
  then have "(case char_digit d of None \<Rightarrow> 0 | Some v \<Rightarrow> v) < 10" by (auto simp: isdigit_c_def char_digit_def Let_def)
  with snoc show ?case by (simp add: digits_value_append1)
qed

lemma digits_value_drop:
  assumes "list_all isdigit_c ds" "t \<le> length ds"
  shows "digits_value 10 (drop t ds) = digits_value 10 ds mod 10 ^ (length ds - t)"
proof -
  have "list_all isdigit_c (drop t ds)" using assms(1) by (auto simp: list_all_iff dest: in_set_dropD)
  then have "digits_value 10 (drop t ds) < 10 ^ (length ds - t)" using digits_value_bound [of "drop t ds"] by simp
  then show ?thesis using digits_value_append [of 10 "take t ds" "drop t ds"] by simp
qed

text \<open>Reading the last \<open>36 - t\<close> characters of a field: the first \<open>t\<close> digits of the position are missing.\<close>

lemma fd_read_tail:
  assumes ok: "field_ok fd" and t: "t < 20" and g: "io_good s"
    and r: "io_rest s = ws @ drop t (fd_text fd) @ r" "list_all isspace_c ws"
  shows "fd_read sf s = (fd_reset (fd_position fd mod 10 ^ (20 - t)) (fd_pending fd) (fd_last fd),
    s\<lparr>io_pos := io_pos s + length ws + 35 - t\<rparr>)"
proof -
  let ?p = "padded 10 20 (nat (fd_position fd))"
  note l = padded_field [OF ok]
  have lt: "list_all isdigit_c (drop t ?p)" using l(3) [of 20] by (auto simp: list_all_iff dest: in_set_dropD)
  have v: "digits_value 10 (drop t ?p) = nat (fd_position fd) mod 10 ^ (20 - t)"
    using digits_value_drop [OF l(3), of t 20] t l(1) by (simp add: digits_value_padded)
  have e: "nat (fd_position fd) < 2 ^ 63" "fd_pending fd < 2 ^ 32" using ok by (auto simp: field_ok_def)
  then have vb: "digits_value 10 (drop t ?p) < 2 ^ 63" unfolding v by (meson le_less_trans mod_less_eq_dividend)
  have "drop t (fd_text fd) = drop t ?p @ '' '' @ padded 10 10 (fd_pending fd) @ '' '' @
      [if fd_last fd then CHR ''1'' else CHR ''0''] @ '' |''"
    using t l(1) by (simp add: fd_text_ok [OF ok])
  with r have "io_rest s = ws @ drop t ?p @ '' '' @ padded 10 10 (fd_pending fd) @ '' '' @
      [if fd_last fd then CHR ''1'' else CHR ''0''] @ '' |'' @ r" by simp
  from fd_read_at [OF g this r(2) lt _ vb l(3) _ _, of sf]
  have "fd_read sf s = (fd_reset (int (nat (fd_position fd) mod 10 ^ (20 - t))) (fd_pending fd) (fd_last fd),
      s\<lparr>io_pos := io_pos s + length ws + length (drop t ?p) + length (padded 10 10 (fd_pending fd)) + 5\<rparr>)"
    using t l(1) e by (simp add: v digits_value_padded split: if_splits)
  moreover have "int (nat (fd_position fd) mod 10 ^ (20 - t)) = fd_position fd mod 10 ^ (20 - t)"
    using ok by (simp add: field_ok_def zmod_int)
  ultimately show ?thesis using t l by (simp add: ac_simps)
qed

section \<open>The header\<close>

definition header_text :: "string list \<Rightarrow> string" where
  "header_text ls = concat (map (\<lambda>l. l @ [newline]) ls)"

definition lines_ok :: "string list \<Rightarrow> bool" where
  "lines_ok ls \<longleftrightarrow> (\<forall>l\<in>set ls. newline \<notin> set l \<and> l \<noteq> ''...'') \<and> butlast (header_text ls) \<noteq> []"

lemma io_getline_at:
  assumes "io_good s" "io_rest s = l @ newline # r" "newline \<notin> set l"
  shows "io_getline s = (l, s\<lparr>io_pos := io_pos s + length l + 1\<rparr>)"
proof -
  have "takeWhile (\<lambda>c. c \<noteq> newline) (l @ newline # r) = l" using assms(3) by (subst takeWhile_append2) auto
  then show ?thesis using assms by (simp add: io_getline_def)
qed

lemma sh_lines_at:
  assumes "\<forall>l\<in>set ls. newline \<notin> set l \<and> l \<noteq> ''...''"
  shows "io_good s \<Longrightarrow> io_rest s = header_text ls @ ''...'' @ newline # r \<Longrightarrow>
    sh_lines acc s = ((True, butlast (acc @ header_text ls)), s\<lparr>io_pos := io_pos s + length (header_text ls) + 4\<rparr>)"
  using assms
proof (induction ls arbitrary: acc s)
  case Nil
  then have "io_getline s = (''...'', s\<lparr>io_pos := io_pos s + 4\<rparr>)" using io_getline_at [of s "''...''" r] by (simp add: header_text_def)
  then show ?case by (subst sh_lines.simps) (simp add: header_text_def)
next
  case (Cons l ls)
  let ?s = "s\<lparr>io_pos := io_pos s + length (l @ [newline])\<rparr>"
  have r: "io_rest s = l @ newline # header_text ls @ ''...'' @ newline # r" using Cons.prems(2) by (simp add: header_text_def)
  have g: "io_getline s = (l, ?s)" using io_getline_at [OF Cons.prems(1) r] Cons.prems(3) by simp
  have "io_rest ?s = header_text ls @ ''...'' @ newline # r" by (rule io_rest_pos) (use r in simp)
  then have "sh_lines (acc @ l @ [newline]) ?s = ((True, butlast ((acc @ l @ [newline]) @ header_text ls)),
      ?s\<lparr>io_pos := io_pos ?s + length (header_text ls) + 4\<rparr>)"
    using Cons.prems(1,3) by (intro Cons.IH) simp_all
  moreover have "l \<noteq> ''...''" using Cons.prems(3) by simp
  ultimately show ?case using Cons.prems(1) by (subst sh_lines.simps) (simp add: g header_text_def add.assoc)
qed

section \<open>Opening\<close>

definition size_text :: "string list \<Rightarrow> string \<Rightarrow> size_field \<Rightarrow> string \<Rightarrow> string" where
  "size_text ls g fd x = header_text ls @ ''...'' @ newline # g @ fd_text fd @ newline # x"

lemma length_size_text: "field_ok fd \<Longrightarrow> length (size_text ls g fd x) = length (header_text ls) + length g + length x + 40"
  by (simp add: size_text_def length_fd_text)

lemma io_closed_simps [simp]:
  "io_bytes (io_closed f) = f" "io_pos (io_closed f) = 0" "\<not> io_eof (io_closed f)" "\<not> io_fail (io_closed f)"
  "\<not> io_is_open (io_closed f)"
  by (simp_all add: io_closed_def)

text \<open>A file whose last field may be followed by a few characters of one more.\<close>

lemma open_reads:
  assumes ls: "lines_ok ls" and ok: "field_ok fd" and x: "length x < 20" and name: "filename \<noteq> []"
  shows "SizeFile_new junk filename False (size_text ls g fd x) =
    \<lparr>sf_good = True, sf_stashed = True, sf_stash_pos = int (length (size_text ls g fd x)), sf_filename = filename,
     sf_stream = (io_closed (size_text ls g fd x))\<lparr>io_pos := length (size_text ls g fd x)\<rparr>,
     sf_header = sh_reset (butlast (header_text ls)),
     sf_current = fd_reset (fd_position fd mod 10 ^ (20 - length x)) (fd_pending fd) (fd_last fd)\<rparr>"
proof -
  let ?f = "size_text ls g fd x"
  let ?s = "(io_closed ?f)\<lparr>io_is_open := True\<rparr>"
  let ?s1 = "?s\<lparr>io_pos := length (header_text ls) + 4\<rparr>"
  let ?k = "length (header_text ls) + 4 + length g + length x"
  let ?s2 = "?s\<lparr>io_pos := ?k\<rparr>"
  note len = length_size_text [OF ok, of ls g x]
  have "sh_lines [] ?s = ((True, butlast (header_text ls)), ?s1)"
    using sh_lines_at [of ls ?s "g @ fd_text fd @ newline # x" "[]"] ls
    by (simp add: lines_ok_def io_good_def io_closed_def io_rest_def size_text_def)
  then have h: "sh_read ?s = (sh_reset (butlast (header_text ls)), ?s1)"
    using ls by (simp add: sh_read_def sh_reset_def lines_ok_def)
  have p: "io_seek_end (- 36) ?s1 = ?s2" by (simp add: io_seek_end_def io_seek_def io_closed_def len)
  have "io_rest ?s2 = drop (length x) (fd_text fd @ newline # x)"
    by (simp add: io_rest_def io_closed_def size_text_def drop_Cons' add.commute)
  then have "io_rest ?s2 = [] @ drop (length x) (fd_text fd) @ newline # x" using x by (simp add: length_fd_text [OF ok])
  from fd_read_tail [OF ok x _ this, of SizeField_new] obtain q
    where q: "fd_read SizeField_new ?s2 = (fd_reset (fd_position fd mod 10 ^ (20 - length x)) (fd_pending fd) (fd_last fd), ?s2\<lparr>io_pos := q\<rparr>)"
    by (auto simp: io_good_def io_closed_def)
  have e: "io_seek_end 0 s = s\<lparr>io_pos := length (io_bytes s)\<rparr>" if "\<not> io_fail s" for s
    using that by (simp add: io_seek_end_def io_seek_def)
  have ne: "?f \<noteq> []" "butlast (header_text ls) \<noteq> []" using ls by (simp_all add: size_text_def lines_ok_def)
  have o: "io_open ?f (io_closed ?f) = ?s" "io_seek 0 ?s = ?s" by (simp_all add: io_open_def io_closed_def io_seek_def)
  have f: "openFields (length ?f) \<lparr>sf_good = True, sf_stashed = False, sf_stash_pos = 0, sf_filename = filename, sf_stream = ?s1,
      sf_header = sh_reset (butlast (header_text ls)), sf_current = SizeField_new\<rparr> =
    \<lparr>sf_good = True, sf_stashed = False, sf_stash_pos = 0, sf_filename = filename, sf_stream = ?s\<lparr>io_pos := length ?f\<rparr>,
      sf_header = sh_reset (butlast (header_text ls)),
      sf_current = fd_reset (fd_position fd mod 10 ^ (20 - length x)) (fd_pending fd) (fd_last fd)\<rparr>"
    using p q by (simp add: openFields_def readLastField_def reopenFile_def fd_dimension_def sf_s_long_def sf_s_unsigned_def
        Let_def on_io_def e io_good_def io_closed_def fd_reset_def)
  show ?thesis
    using name ne h f
    by (simp add: SizeFile_new_def openFile_def stashFile_def Let_def o io_tell_def io_close_def sh_reset_def)
qed

section \<open>The operations\<close>

text \<open>A file object between two operations: its file ends with the field \<open>saved\<close>.\<close>

definition sized :: "string list \<Rightarrow> size_field \<Rightarrow> size_file \<Rightarrow> bool" where
  "sized ls saved sf \<longleftrightarrow> lines_ok ls \<and> field_ok saved \<and> field_ok (sf_current sf) \<and> sf_good sf \<and> sf_stashed sf \<and>
     \<not> io_is_open (sf_stream sf) \<and> sf_stash_pos sf = int (length (io_bytes (sf_stream sf))) \<and>
     (\<exists>g. io_bytes (sf_stream sf) = size_text ls g saved [])"

lemma open_sized:
  assumes "lines_ok ls" "field_ok fd" "length x < 20" "filename \<noteq> []" "x = []"
  shows "sized ls fd (SizeFile_new junk filename False (size_text ls g fd x))"
proof -
  have "fd_position fd mod 10 ^ 20 = fd_position fd" using assms(2) by (auto simp: field_ok_def)
  then show ?thesis using open_reads [OF assms(1-4)] assms by (auto simp: sized_def field_reset)
qed

lemma reopen_id: "\<not> sf_stashed sf \<Longrightarrow> reopenFile sf = sf"
  by (simp add: reopenFile_def)

text \<open>What an update that writes does.\<close>

lemma overwrite_at_end: "overwrite (length f) x f = f @ x"
  by (simp add: overwrite_def)

lemma update_runs:
  assumes "sized ls saved sf" "field_ok (g (sf_current sf))"
  shows "io_bytes (sf_stream (updating (\<lambda>sf. dumpField (on_field g sf)) sf)) =
      io_bytes (sf_stream sf) @ fd_text (g (sf_current sf)) @ [newline]"
    and "sf_current (updating (\<lambda>sf. dumpField (on_field g sf)) sf) = g (sf_current sf)"
    and "sized ls (g (sf_current sf)) (updating (\<lambda>sf. dumpField (on_field g sf)) sf)"
proof -
  let ?f = "io_bytes (sf_stream sf)" and ?w = "fd_text (g (sf_current sf)) @ [newline]"
  let ?s = "(io_closed ?f)\<lparr>io_is_open := True, io_pos := length ?f\<rparr>"
  have "io_open ?f (sf_stream sf) = (io_closed ?f)\<lparr>io_is_open := True\<rparr>" using assms(1) by (simp add: sized_def io_open_def)
  then have r: "reopenFile sf = sf\<lparr>sf_stream := ?s, sf_good := True, sf_stashed := False\<rparr>"
    using assms(1) by (simp add: sized_def reopenFile_def Let_def io_good_def io_seek_def)
  have w: "io_put ?w ?s = ?s\<lparr>io_bytes := ?f @ ?w, io_pos := length ?f + length ?w\<rparr>"
    by (simp add: io_put_def io_good_def overwrite_at_end)
  have u: "updating (\<lambda>sf. dumpField (on_field g sf)) sf =
      sf\<lparr>sf_stream := ?s\<lparr>io_bytes := ?f @ ?w, io_pos := length ?f + length ?w, io_is_open := False\<rparr>,
        sf_good := True, sf_stashed := True, sf_stash_pos := int (length ?f + length ?w), sf_current := g (sf_current sf)\<rparr>"
    using w by (simp add: updating_def r Let_def dumpField_def on_field_def reopen_id on_io_def io_good_def stashFile_def io_tell_def io_close_def)
  show 1: "io_bytes (sf_stream (updating (\<lambda>sf. dumpField (on_field g sf)) sf)) = ?f @ ?w"
    "sf_current (updating (\<lambda>sf. dumpField (on_field g sf)) sf) = g (sf_current sf)" by (simp_all add: u)
  from assms(1) obtain h where "?f = size_text ls h saved []" by (auto simp: sized_def)
  then have "?f @ ?w = size_text ls (h @ fd_text saved @ [newline]) (g (sf_current sf)) []" by (simp add: size_text_def)
  then have "\<exists>h. ?f @ ?w = size_text ls h (g (sf_current sf)) []" by blast
  with assms show "sized ls (g (sf_current sf)) (updating (\<lambda>sf. dumpField (on_field g sf)) sf)"
    unfolding sized_def u by simp
qed

lemma on_field_sized:
  "sized ls saved sf \<Longrightarrow> field_ok (g (sf_current sf)) \<Longrightarrow> sized ls saved (on_field g sf)"
  by (simp add: sized_def on_field_def)

datatype size_op = Position int | Pending nat | Last bool | Field int nat bool | Set_last bool | Completed | Increment | Decrement

fun run_op :: "size_op \<Rightarrow> size_file \<Rightarrow> size_file" where
  "run_op (Position p) = update_position p"
| "run_op (Pending n) = update_pending n"
| "run_op (Last l) = update_last l"
| "run_op (Field p n l) = sf_update p n l"
| "run_op (Set_last l) = set_last l"
| "run_op Completed = set_completed"
| "run_op Increment = increment_pending"
| "run_op Decrement = decrement_pending"

text \<open>The specification: the current field, and whether the operation saves it.\<close>

fun spec_op :: "size_op \<Rightarrow> size_field \<Rightarrow> size_field \<times> bool" where
  "spec_op (Position p) fd = (fd\<lparr>fd_position := p\<rparr>, True)"
| "spec_op (Pending n) fd = (fd\<lparr>fd_pending := n\<rparr>, True)"
| "spec_op (Last l) fd = (fd\<lparr>fd_last := l\<rparr>, True)"
| "spec_op (Field p n l) fd = (fd_reset p n l, True)"
| "spec_op (Set_last l) fd = (fd\<lparr>fd_last := l\<rparr>, False)"
| "spec_op Completed fd = (fd\<lparr>fd_pending := 0, fd_last := True\<rparr>, False)"
| "spec_op Increment fd = (fd\<lparr>fd_pending := (fd_pending fd + 1) mod 2 ^ 32\<rparr>, False)"
| "spec_op Decrement fd = (fd\<lparr>fd_pending := fd_pending fd - 1\<rparr>, False)"

definition spec_step :: "size_op \<Rightarrow> size_field \<times> size_field \<Rightarrow> size_field \<times> size_field" where
  "spec_step oper st = (case spec_op oper (fst st) of (fd, saves) \<Rightarrow> (fd, if saves then fd else snd st))"

fun op_ok :: "size_op \<Rightarrow> bool" where
  "op_ok (Position p) = (0 \<le> p \<and> p < 2 ^ 63)"
| "op_ok (Pending n) = (n < 2 ^ 32)"
| "op_ok (Field p n l) = (0 \<le> p \<and> p < 2 ^ 63 \<and> n < 2 ^ 32)"
| "op_ok _ = True"

lemma spec_op_ok: "field_ok fd \<Longrightarrow> op_ok oper \<Longrightarrow> field_ok (fst (spec_op oper fd))"
  by (cases oper) (auto simp: field_ok_def fd_reset_def)

lemma run_op_sized:
  assumes "sized ls saved sf" "op_ok oper"
  shows "sized ls (snd (spec_step oper (sf_current sf, saved))) (run_op oper sf) \<and>
    sf_current (run_op oper sf) = fst (spec_step oper (sf_current sf, saved))"
proof -
  have ok: "field_ok (fst (spec_op oper (sf_current sf)))" using assms by (simp add: spec_op_ok sized_def)
  have good: "sf_good sf" using assms(1) by (simp add: sized_def)
  note u = update_runs(2,3) [OF assms(1)]
  have dec: "(if fd_pending fd > 0 then fd\<lparr>fd_pending := fd_pending fd - 1\<rparr> else fd) = fd\<lparr>fd_pending := fd_pending fd - 1\<rparr>"
    for fd :: size_field by (cases fd) simp
  show ?thesis
  proof (cases oper)
    case (Position p)
    then show ?thesis using u [of "\<lambda>fd. fd\<lparr>fd_position := p\<rparr>"] ok by (simp add: spec_step_def update_position_def)
  next
    case (Pending n)
    then show ?thesis using u [of "\<lambda>fd. fd\<lparr>fd_pending := n\<rparr>"] ok by (simp add: spec_step_def update_pending_def)
  next
    case (Last l)
    then show ?thesis using u [of "\<lambda>fd. fd\<lparr>fd_last := l\<rparr>"] ok by (simp add: spec_step_def update_last_def)
  next
    case (Field p n l)
    then show ?thesis using u [of "\<lambda>_. fd_reset p n l"] ok by (simp add: spec_step_def sf_update_def)
  next
    case Decrement
    then show ?thesis using on_field_sized [OF assms(1), of "\<lambda>fd. fd\<lparr>fd_pending := fd_pending fd - 1\<rparr>"] ok good
      by (simp add: spec_step_def decrement_pending_def dec) (simp add: on_field_def)
  qed (use on_field_sized [OF assms(1)] ok good in
      \<open>auto simp: spec_step_def set_last_def set_completed_def increment_pending_def on_field_def\<close>)
qed

lemma run_ops_sized:
  "\<forall>oper\<in>set ops. op_ok oper \<Longrightarrow> sized ls saved sf \<Longrightarrow>
    sized ls (snd (fold spec_step ops (sf_current sf, saved))) (fold run_op ops sf) \<and>
    sf_current (fold run_op ops sf) = fst (fold spec_step ops (sf_current sf, saved))"
proof (induction ops arbitrary: saved sf)
  case (Cons oper ops)
  from run_op_sized [OF Cons.prems(2)] Cons.prems(1)
  have "sized ls (snd (spec_step oper (sf_current sf, saved))) (run_op oper sf)"
    "(sf_current (run_op oper sf), snd (spec_step oper (sf_current sf, saved))) = spec_step oper (sf_current sf, saved)" by simp_all
  with Cons.IH Cons.prems(1) show ?case by force
qed simp

section \<open>A new file\<close>

definition default_lines :: "string list" where
  "default_lines = [''Condor log size file, DAG enabled.'', ''This header is made to contain the dagId.'', ''In this moment the DAG Id is unknown.'']"

definition zero_field :: size_field where
  "zero_field = fd_reset 0 0 False"

lemma default_lines_ok: "lines_ok default_lines" "butlast (header_text default_lines) = sf_s_defaultHeader"
  by (simp_all add: lines_ok_def default_lines_def header_text_def sf_s_defaultHeader_def)

lemma zero_field_ok: "field_ok zero_field"
  by (simp add: zero_field_def field_ok_def fd_reset_def)

lemma new_sized:
  assumes "filename \<noteq> []"
  shows "sized default_lines zero_field (SizeFile_new junk filename True f)" "sf_current (SizeFile_new junk filename True f) = zero_field"
proof -
  let ?t = "size_text default_lines [] zero_field []"
  have d: "sf_s_defaultHeader \<noteq> []" by (simp add: sf_s_defaultHeader_def)
  have "sh_text (sh_reset sf_s_defaultHeader) @ [newline] @ fd_text (fd_reset 0 0 False) @ [newline] = ?t"
    by (simp add: sh_text_def sh_reset_def size_text_def zero_field_def default_lines_def header_text_def sf_s_defaultHeader_def)
  then have n: "newSizeFile \<lparr>sf_good = True, sf_stashed = False, sf_stash_pos = 0, sf_filename = filename, sf_stream = io_closed f,
      sf_header = sh_reset sf_s_defaultHeader, sf_current = fd_reset 0 0 False\<rparr> =
    \<lparr>sf_good = True, sf_stashed = False, sf_stash_pos = 0, sf_filename = filename,
      sf_stream = (io_closed ?t)\<lparr>io_is_open := True, io_pos := length ?t\<rparr>,
      sf_header = sh_reset sf_s_defaultHeader, sf_current = fd_reset 0 0 False\<rparr>"
    using d by (simp add: newSizeFile_def Let_def sh_reset_def io_open_def io_close_def io_clear_def io_put_def io_good_def
        io_seek_end_def io_seek_def overwrite_def)
  show "sized default_lines zero_field (SizeFile_new junk filename True f)" "sf_current (SizeFile_new junk filename True f) = zero_field"
    using assms n default_lines_ok(1) zero_field_ok
    by (auto simp: SizeFile_new_def openFile_def Let_def stashFile_def io_tell_def io_close_def io_good_def sized_def zero_field_def)
qed

section \<open>The properties\<close>

text \<open>C32: the size file is the last field that was saved. After any sequence of the operations that change the field
  (\<open>update_position\<close>, \<open>update_pending\<close>, \<open>update_last\<close>, \<open>update\<close>, \<open>set_last\<close>, \<open>set_completed\<close>, \<open>increment_pending\<close>,
  \<open>decrement_pending\<close>, with values in the range of their types and no negative position; \<open>update_header\<close> and
  \<open>open\<close> are not among them) on a new file, a new object on the same file is good, has the header of the file and the field that the last update
  has written; the operations that only change the object are lost.\<close>

theorem size_file_reopens:
  fixes filename f :: string and junk junk' :: size_field and ops :: "size_op list"
  assumes "filename \<noteq> []" "\<forall>oper\<in>set ops. op_ok oper"
  defines "sf \<equiv> fold run_op ops (SizeFile_new junk filename True f)"
  defines "sf' \<equiv> SizeFile_new junk' filename False (io_bytes (sf_stream sf))"
  shows "sf_good sf' \<and> sf_header sf' = sh_reset sf_s_defaultHeader \<and>
    (sf_current sf, sf_current sf') = fold spec_step ops (zero_field, zero_field)"
proof -
  let ?saved = "snd (fold spec_step ops (zero_field, zero_field))"
  from run_ops_sized [OF assms(2) new_sized(1) [OF assms(1), of junk f]]
  have s: "sized default_lines ?saved sf" "sf_current sf = fst (fold spec_step ops (zero_field, zero_field))"
    by (simp_all add: sf_def new_sized(2) [OF assms(1)])
  then obtain g where g: "io_bytes (sf_stream sf) = size_text default_lines g ?saved []" "field_ok ?saved" by (auto simp: sized_def)
  have "fd_position ?saved mod 10 ^ 20 = fd_position ?saved" using g(2) by (auto simp: field_ok_def)
  then have "sf_good sf' \<and> sf_header sf' = sh_reset sf_s_defaultHeader \<and> sf_current sf' = ?saved"
    using open_reads [OF default_lines_ok(1) g(2), of "[]" filename junk' g] assms(1) field_reset [OF g(2)]
    by (simp add: sf'_def g(1) default_lines_ok(2))
  with s(2) show ?thesis by simp
qed

theorem size_file_reopens_witness:
  "sf_current (SizeFile_new zero_field ''log'' False (io_bytes (sf_stream
     (fold run_op [Increment, Position 512, Set_last True] (SizeFile_new zero_field ''log'' True []))))) = fd_reset 512 1 False"
  using size_file_reopens [where filename = "''log''" and ops = "[Increment, Position 512, Set_last True]" and f = "[]" and
    junk = zero_field and junk' = zero_field]
  by (simp add: spec_step_def zero_field_def fd_reset_def)

text \<open>An update that was cut short can change the position. When the log monitor dies or the disk
  is full after the first \<open>t\<close> characters of a field, with \<open>t < 20\<close>, the last 36 characters of the
  file are the end of the field before without its first \<open>t\<close> characters, and a new object takes what is
  left of the digits of its position for the position.\<close>

theorem size_file_torn:
  fixes filename f :: string and junk junk' :: size_field and ops :: "size_op list"
  assumes "filename \<noteq> []" "\<forall>oper\<in>set ops. op_ok oper" "op_ok (Field p n l)" "t < 20"
  defines "sf \<equiv> fold run_op ops (SizeFile_new junk filename True f)" and "saved \<equiv> snd (fold spec_step ops (zero_field, zero_field))"
  defines "torn \<equiv> take (length (io_bytes (sf_stream sf)) + t) (io_bytes (sf_stream (sf_update p n l sf)))"
  shows "sf_good (SizeFile_new junk' filename False torn) \<and>
    sf_current (SizeFile_new junk' filename False torn) = saved\<lparr>fd_position := fd_position saved mod 10 ^ (20 - t)\<rparr>"
proof -
  let ?fd = "fd_reset p n l"
  from run_ops_sized [OF assms(2) new_sized(1) [OF assms(1), of junk f]]
  have s: "sized default_lines saved sf" by (simp add: sf_def saved_def new_sized(2) [OF assms(1)])
  then obtain g where g: "io_bytes (sf_stream sf) = size_text default_lines g saved []" "field_ok saved" by (auto simp: sized_def)
  have ok: "field_ok ?fd" using assms(3) by (simp add: field_ok_def fd_reset_def)
  have "io_bytes (sf_stream (sf_update p n l sf)) = io_bytes (sf_stream sf) @ fd_text ?fd @ [newline]"
    using update_runs(1) [OF s, of "\<lambda>_. ?fd"] ok by (simp add: sf_update_def)
  then have "torn = size_text default_lines g saved (take t (fd_text ?fd))"
    using assms(4) by (simp add: torn_def g(1) length_fd_text [OF ok]) (simp add: size_text_def)
  moreover have "length (take t (fd_text ?fd)) = t" using assms(4) length_fd_text [OF ok] by simp
  moreover have "fd_reset (fd_position saved mod 10 ^ (20 - t)) (fd_pending saved) (fd_last saved) =
      saved\<lparr>fd_position := fd_position saved mod 10 ^ (20 - t)\<rparr>"
    using g(2) by (cases saved) (simp add: fd_reset_def field_ok_def)
  ultimately show ?thesis using open_reads [OF default_lines_ok(1) g(2), of "take t (fd_text ?fd)" filename junk' g] assms(1,4) by simp
qed

text \<open>A log that was read up to its byte 12345 is read again from byte 5.\<close>

theorem size_file_torn_witness:
  "let sf = fold run_op [Field 12345 1 False] (SizeFile_new zero_field ''log'' True []) in
   fd_position (sf_current (SizeFile_new zero_field ''log'' False
     (take (length (io_bytes (sf_stream sf)) + 19) (io_bytes (sf_stream (sf_update 20000 2 False sf)))))) = 5"
  using size_file_torn [where filename = "''log''" and ops = "[Field 12345 1 False]" and p = 20000 and n = 2 and l = False and t = 19 and
    f = "[]" and junk = zero_field and junk' = zero_field]
  by (simp add: spec_step_def zero_field_def fd_reset_def Let_def)

end
