(* ===== verification/Ice_Pool.thy ===== *)
theory Ice_Pool
  imports Wms_Prelude
begin

text \<open>
  The thread pools of ICE, \<^verbatim>\<open>org.glite.wms.ice/src/iceThreads\<close>: \<^verbatim>\<open>iceThreadPoolState.h\<close>,
  \<^verbatim>\<open>iceThread.cpp\<close> (the stop flag) and \<^verbatim>\<open>iceThreadPool.cpp\<close> (\<open>add_request\<close>, \<open>get_command_count\<close>,
  \<open>stopAllThreads\<close>, and \<open>body\<close> and \<open>get_first_request\<close> of the workers).

  A worker holds the mutex from the test of the queue to the wait or to the removal of
  a command, and while it takes the job out of \<open>m_pending_jobs\<close>: these stretches are the
  atomic steps. The stop flags are read and written without the mutex. A wait ends after a
  notification, or without one, as the condition variable allows.
\<close>

section \<open>Commands\<close>

datatype command_kind = Submit_cmd | Reschedule_cmd | Cancel_cmd | EventQuery_cmd | LBLogging_cmd
  | DelegationRenewal_cmd | StatusPoller_cmd | UpdateStatus_cmd | LeaseUpdater_cmd | ProxyRenewal_cmd
  | SubUpdater_cmd | JobKill_cmd

text \<open>A command has an identity, its address in the program.\<close>

record ice_command =
  cmd_no :: nat
  cmd_kind :: command_kind
  cmd_job :: string

text \<open>\<open>tv_sec\<close>, a dot and \<open>tv_usec\<close>; a time is a number of microseconds.\<close>

definition time_id :: "nat \<Rightarrow> string" where
  "time_id now = digits 10 (now div 1000000) @ ''.'' @ digits 10 (now mod 1000000)"

text \<open>Three kinds of commands answer with the time of the call, six with an empty text.\<close>

definition get_grid_job_id :: "ice_command \<Rightarrow> nat \<Rightarrow> string" where
  "get_grid_job_id c now =
     (if cmd_kind c \<in> {Submit_cmd, Reschedule_cmd, Cancel_cmd} then cmd_job c
      else if cmd_kind c \<in> {EventQuery_cmd, LBLogging_cmd, DelegationRenewal_cmd} then time_id now
      else [])"

section \<open>The shared state\<close>

text \<open>Where a worker stands: before the test of its stop flag, past it and before the lock, in the
  wait, past a notification and before the lock, in \<open>execute\<close> of a command, out of \<open>body\<close>.\<close>

datatype pool_worker = Loop_test | Lock_wanted | In_wait | Notified | Executing ice_command | Ended

text \<open>How far \<open>stopAllThreads\<close> is: not called, with the flags of some threads set, in \<open>join_all\<close>.\<close>

datatype stop_progress = Not_called | Flagging nat | Joining

text \<open>\<open>p_exit\<close> is the code with which a worker has ended the program. \<open>p_added\<close> and \<open>p_started\<close> record the
  commands that came in and those that a worker took, in order.\<close>

record ice_pool =
  m_num_running :: int
  m_requests_queue :: "ice_command list"
  m_pending_jobs :: "string set"
  p_workers :: "pool_worker list"
  p_stopped :: "bool list"
  p_stopper :: stop_progress
  p_exit :: "int option"
  p_added :: "ice_command list"
  p_started :: "ice_command list"

definition pool_size :: "int \<Rightarrow> nat" where
  "pool_size n = nat (if n < 1 then 1 else n)"

definition iceThreadPool_new :: "int \<Rightarrow> ice_pool" where
  "iceThreadPool_new n = \<lparr>m_num_running = int (pool_size n), m_requests_queue = [], m_pending_jobs = {},
     p_workers = replicate (pool_size n) Loop_test, p_stopped = replicate (pool_size n) False,
     p_stopper = Not_called, p_exit = None, p_added = [], p_started = []\<rparr>"

definition set_pool_worker :: "nat \<Rightarrow> pool_worker \<Rightarrow> ice_pool \<Rightarrow> ice_pool" where
  "set_pool_worker i w s = s\<lparr>p_workers := (p_workers s)[i := w]\<rparr>"

definition notify_all :: "ice_pool \<Rightarrow> ice_pool" where
  "notify_all s = s\<lparr>p_workers := map (\<lambda>w. if w = In_wait then Notified else w) (p_workers s)\<rparr>"

section \<open>Requests\<close>

definition add_request :: "ice_command \<Rightarrow> ice_pool \<Rightarrow> ice_pool" where
  "add_request c s = notify_all (s\<lparr>m_requests_queue := m_requests_queue s @ [c], p_added := p_added s @ [c]\<rparr>)"

definition get_command_count :: "ice_pool \<Rightarrow> nat" where
  "get_command_count s = length (m_requests_queue s)"

text \<open>The position of the first command whose job is not pending, the length of the queue for \<open>end()\<close>.\<close>

primrec get_first_request :: "nat \<Rightarrow> string set \<Rightarrow> ice_command list \<Rightarrow> nat" where
  "get_first_request now P [] = 0"
| "get_first_request now P (c # q) = (if get_grid_job_id c now \<in> P then Suc (get_first_request now P q) else 0)"

section \<open>A worker\<close>

definition check_stopped :: "nat \<Rightarrow> ice_pool \<Rightarrow> ice_pool" where
  "check_stopped i s = set_pool_worker i (if p_stopped s ! i then Ended else Lock_wanted) s"

text \<open>With the mutex: wait when nothing can be processed, else take the first such command.\<close>

definition take_or_wait :: "nat \<Rightarrow> nat \<Rightarrow> ice_pool \<Rightarrow> ice_pool" where
  "take_or_wait now i s =
     (let it = get_first_request now (m_pending_jobs s) (m_requests_queue s)
      in if it = length (m_requests_queue s)
         then set_pool_worker i In_wait (s\<lparr>m_num_running := m_num_running s - 1\<rparr>)
         else let c = m_requests_queue s ! it
           in set_pool_worker i (Executing c)
                (s\<lparr>m_requests_queue := take it (m_requests_queue s) @ drop (Suc it) (m_requests_queue s),
                   m_pending_jobs := insert (get_grid_job_id c now) (m_pending_jobs s),
                   p_started := p_started s @ [c]\<rparr>))"

definition wait_returns :: "nat \<Rightarrow> nat \<Rightarrow> ice_pool \<Rightarrow> ice_pool" where
  "wait_returns now i s =
     (if p_stopped s ! i then set_pool_worker i Ended s
      else take_or_wait now i (s\<lparr>m_num_running := m_num_running s + 1\<rparr>))"

text \<open>How \<open>execute\<close> ends. Only a \<open>soap_runtime_ex\<close> is not caught and forgotten.\<close>

datatype exec_end = Exec_returns | Fatal_ex | Transient_ex | Soap_runtime_ex | Std_ex | Unknown_ex

definition command_done :: "nat \<Rightarrow> nat \<Rightarrow> ice_command \<Rightarrow> exec_end \<Rightarrow> ice_pool \<Rightarrow> ice_pool" where
  "command_done now i c r s =
     (if r = Soap_runtime_ex then s\<lparr>p_exit := Some 2\<rparr>
      else notify_all (set_pool_worker i Loop_test (s\<lparr>m_pending_jobs := m_pending_jobs s - {get_grid_job_id c now}\<rparr>)))"

section \<open>\<open>stopAllThreads\<close>\<close>

text \<open>The flag of the next thread of the list, or the notification when all flags are set.\<close>

definition stop_next :: "ice_pool \<Rightarrow> ice_pool" where
  "stop_next s = (case p_stopper s of
       Not_called \<Rightarrow> s\<lparr>p_stopper := Flagging 0\<rparr>
     | Flagging k \<Rightarrow>
         (if k < length (p_stopped s) then s\<lparr>p_stopped := (p_stopped s)[k := True], p_stopper := Flagging (Suc k)\<rparr>
          else (notify_all s)\<lparr>p_stopper := Joining\<rparr>)
     | Joining \<Rightarrow> s)"

definition join_all_returns :: "ice_pool \<Rightarrow> bool" where
  "join_all_returns s \<longleftrightarrow> p_stopper s = Joining \<and> list_all (\<lambda>w. w = Ended) (p_workers s)"

section \<open>The steps of the pool\<close>

inductive pool_step :: "ice_pool \<Rightarrow> ice_pool \<Rightarrow> bool" where
  adds: "p_exit s = None \<Longrightarrow> pool_step s (add_request c s)"
| tests: "p_exit s = None \<Longrightarrow> i < length (p_workers s) \<Longrightarrow> p_workers s ! i = Loop_test \<Longrightarrow>
    pool_step s (check_stopped i s)"
| locks: "p_exit s = None \<Longrightarrow> i < length (p_workers s) \<Longrightarrow> p_workers s ! i = Lock_wanted \<Longrightarrow>
    pool_step s (take_or_wait now i s)"
| wakes: "p_exit s = None \<Longrightarrow> i < length (p_workers s) \<Longrightarrow> p_workers s ! i = Notified \<Longrightarrow>
    pool_step s (wait_returns now i s)"
| ends: "p_exit s = None \<Longrightarrow> i < length (p_workers s) \<Longrightarrow> p_workers s ! i = Executing c \<Longrightarrow>
    pool_step s (command_done now i c r s)"
| stops: "p_exit s = None \<Longrightarrow> pool_step s (stop_next s)"

text \<open>A wait that ends without a notification.\<close>

inductive spurious_step :: "ice_pool \<Rightarrow> ice_pool \<Rightarrow> bool" where
  spurious: "p_exit s = None \<Longrightarrow> i < length (p_workers s) \<Longrightarrow> p_workers s ! i = In_wait \<Longrightarrow>
    spurious_step s (wait_returns now i s)"

definition any_step :: "ice_pool \<Rightarrow> ice_pool \<Rightarrow> bool" where
  "any_step s s' \<longleftrightarrow> pool_step s s' \<or> spurious_step s s'"

definition pool_reachable :: "int \<Rightarrow> ice_pool \<Rightarrow> bool" where
  "pool_reachable n s \<longleftrightarrow> any_step\<^sup>*\<^sup>* (iceThreadPool_new n) s"

section \<open>Serial execution per job\<close>

text \<open>What the pool is for: each job has a lane of its own, in which commands arrive, begin one after
  the other and end.\<close>

record lane =
  l_running :: "ice_command option"
  l_waiting :: "ice_command list"

inductive lane_step :: "(string \<Rightarrow> lane) \<Rightarrow> (string \<Rightarrow> lane) \<Rightarrow> bool" where
  arrives: "lane_step L (L(g := (L g)\<lparr>l_waiting := l_waiting (L g) @ [c]\<rparr>))"
| begins: "l_running (L g) = None \<Longrightarrow> l_waiting (L g) = c # q \<Longrightarrow>
    lane_step L (L(g := \<lparr>l_running = Some c, l_waiting = q\<rparr>))"
| finishes: "l_running (L g) = Some c \<Longrightarrow> lane_step L (L(g := (L g)\<lparr>l_running := None\<rparr>))"
| unchanged: "lane_step L L"

primrec executing :: "pool_worker list \<Rightarrow> ice_command list" where
  "executing [] = []"
| "executing (w # ws) = (case w of Executing c \<Rightarrow> c # executing ws | _ \<Rightarrow> executing ws)"

definition lanes :: "ice_pool \<Rightarrow> string \<Rightarrow> lane" where
  "lanes s g = \<lparr>l_running = find (\<lambda>c. cmd_job c = g) (executing (p_workers s)),
                l_waiting = filter (\<lambda>c. cmd_job c = g) (m_requests_queue s)\<rparr>"

text \<open>A pool of commands that name their job, as the submission pool is.\<close>

definition job_command :: "ice_command \<Rightarrow> bool" where
  "job_command c \<longleftrightarrow> cmd_kind c \<in> {Submit_cmd, Reschedule_cmd, Cancel_cmd}"

definition job_pool :: "ice_pool \<Rightarrow> bool" where
  "job_pool s \<longleftrightarrow> list_all job_command (p_added s)"

end
