(* ===== verification/Ice_Pool_Props.thy ===== *)
theory Ice_Pool_Props
  imports Ice_Pool
begin

text \<open>
  The thread pool of ICE: the submission pool executes the commands of a job one after the
  other and in the order in which they came, as a family of serial lanes does; a command that can
  be processed is never left behind by waiting workers. Of \<open>stopAllThreads\<close> and of the
  commands without a job of their own, the library shows what goes wrong.
\<close>

section \<open>The queue\<close>

lemma job_command_id: "job_command c \<Longrightarrow> get_grid_job_id c now = cmd_job c"
  by (auto simp: job_command_def get_grid_job_id_def)

lemma get_first_request_le: "get_first_request now P q \<le> length q"
  by (induction q) auto

lemma first_request_takeWhile:
  "get_first_request now P q = length (takeWhile (\<lambda>c. get_grid_job_id c now \<in> P) q)"
  by (induction q) auto

lemma first_request_jobs:
  "list_all job_command q \<Longrightarrow> get_first_request now P q = length (takeWhile (\<lambda>c. cmd_job c \<in> P) q)"
  by (induction q) (auto simp: job_command_id)

lemma first_request_end:
  "list_all job_command q \<Longrightarrow> get_first_request now P q = length q \<longleftrightarrow> (\<forall>c\<in>set q. cmd_job c \<in> P)"
  by (induction q) (auto simp: job_command_id)

lemma first_request_found:
  assumes "list_all job_command q" "get_first_request now P q \<noteq> length q"
  defines "it \<equiv> get_first_request now P q"
  shows "it < length q" "q = take it q @ q ! it # drop (Suc it) q" "cmd_job (q ! it) \<notin> P"
    "\<forall>c\<in>set (take it q). cmd_job c \<in> P" "job_command (q ! it)"
proof -
  show lt: "it < length q" using assms get_first_request_le [of now P q] by simp
  then show "q = take it q @ q ! it # drop (Suc it) q" by (rule id_take_nth_drop)
  have it: "it = length (takeWhile (\<lambda>c. cmd_job c \<in> P) q)"
    using assms first_request_jobs by simp
  show "cmd_job (q ! it) \<notin> P"
    using lt unfolding it by (rule nth_length_takeWhile)
  show "\<forall>c\<in>set (take it q). cmd_job c \<in> P"
    unfolding it by (metis set_takeWhileD takeWhile_eq_take)
  show "job_command (q ! it)" using assms(1) lt by (simp add: list_all_length)
qed

section \<open>The workers\<close>

lemma executing_append [simp]: "executing (xs @ ys) = executing xs @ executing ys"
  by (induction xs) (auto split: pool_worker.splits)

lemma executing_at:
  "i < length ws \<Longrightarrow> executing ws = executing (take i ws) @ executing [ws ! i] @ executing (drop (Suc i) ws)"
  by (metis append_Cons append_Nil executing_append id_take_nth_drop)

lemma executing_update:
  "i < length ws \<Longrightarrow> executing (ws[i := w]) = executing (take i ws) @ executing [w] @ executing (drop (Suc i) ws)"
  by (metis append_Cons append_Nil executing_append upd_conv_take_nth_drop)

lemma executing_same:
  "i < length ws \<Longrightarrow> executing [w] = executing [ws ! i] \<Longrightarrow> executing (ws[i := w]) = executing ws"
  by (metis executing_at executing_update)

lemma executing_notified [simp]:
  "executing (map (\<lambda>w. if w = In_wait then Notified else w) ws) = executing ws"
  by (induction ws) (auto split: pool_worker.splits)

lemma in_executing: "Executing c \<in> set ws \<Longrightarrow> c \<in> set (executing ws)"
  by (induction ws) (auto split: pool_worker.splits)

lemma executing_distinct_workers:
  assumes "distinct (map cmd_job (executing ws))" "i < j" "j < length ws" "ws ! i = Executing c" "ws ! j = Executing d"
  shows "cmd_job c \<noteq> cmd_job d"
proof -
  from assms have "Executing d \<in> set (drop (Suc i) ws)"
    by (metis Cons_nth_drop_Suc Suc_leI drop_eq_Nil le_less_trans less_imp_le_nat
        list.set_intros(1) not_less nth_mem set_drop_subset_set_drop subsetD)
  then have "d \<in> set (executing (drop (Suc i) ws))" by (rule in_executing)
  with assms executing_at [of i ws] show ?thesis by (auto simp del: executing_append)
qed

lemma notify_all_simps [simp]:
  "m_requests_queue (notify_all s) = m_requests_queue s" "m_pending_jobs (notify_all s) = m_pending_jobs s"
  "executing (p_workers (notify_all s)) = executing (p_workers s)" "length (p_workers (notify_all s)) = length (p_workers s)"
  "p_added (notify_all s) = p_added s" "p_started (notify_all s) = p_started s" "p_exit (notify_all s) = p_exit s"
  "p_stopped (notify_all s) = p_stopped s" "In_wait \<notin> set (p_workers (notify_all s))"
  "m_num_running (notify_all s) = m_num_running s" "p_stopper (notify_all s) = p_stopper s"
  by (auto simp: notify_all_def)

lemma set_pool_worker_simps [simp]:
  "m_requests_queue (set_pool_worker i w s) = m_requests_queue s" "m_pending_jobs (set_pool_worker i w s) = m_pending_jobs s"
  "p_workers (set_pool_worker i w s) = (p_workers s)[i := w]"
  "p_added (set_pool_worker i w s) = p_added s" "p_started (set_pool_worker i w s) = p_started s"
  "p_exit (set_pool_worker i w s) = p_exit s" "p_stopped (set_pool_worker i w s) = p_stopped s"
  "m_num_running (set_pool_worker i w s) = m_num_running s" "p_stopper (set_pool_worker i w s) = p_stopper s"
  by (simp_all add: set_pool_worker_def)

section \<open>The invariant of a pool of job commands\<close>

text \<open>The pending jobs are those of the running commands, each of another job; per job,
  what came in is what was taken followed by what is queued; nobody waits while a
  command can be processed.\<close>

definition serial_inv :: "ice_pool \<Rightarrow> bool" where
  "serial_inv s \<longleftrightarrow>
     list_all job_command (m_requests_queue s) \<and>
     m_pending_jobs s = cmd_job ` set (executing (p_workers s)) \<and>
     distinct (map cmd_job (executing (p_workers s))) \<and>
     (\<forall>g. filter (\<lambda>c. cmd_job c = g) (p_added s) =
        filter (\<lambda>c. cmd_job c = g) (p_started s) @ filter (\<lambda>c. cmd_job c = g) (m_requests_queue s)) \<and>
     ((\<exists>c\<in>set (m_requests_queue s). cmd_job c \<notin> m_pending_jobs s) \<longrightarrow> In_wait \<notin> set (p_workers s)) \<and>
     list_all job_command (executing (p_workers s))"

text \<open>The steps, as what they do to the parts that the invariant and the lanes look at.\<close>

datatype effect = Arrival ice_command | Start ice_command | Completion ice_command | Internal

definition has_effect :: "effect \<Rightarrow> ice_pool \<Rightarrow> ice_pool \<Rightarrow> bool" where
  "has_effect e s s' \<longleftrightarrow> (case e of
       Arrival c \<Rightarrow> m_requests_queue s' = m_requests_queue s @ [c] \<and> m_pending_jobs s' = m_pending_jobs s \<and>
         executing (p_workers s') = executing (p_workers s) \<and> p_added s' = p_added s @ [c] \<and>
         p_started s' = p_started s \<and> In_wait \<notin> set (p_workers s')
     | Start c \<Rightarrow> p_added s' = p_added s \<and> p_started s' = p_started s @ [c] \<and>
         (\<exists>q1 q2 e1 e2. m_requests_queue s = q1 @ c # q2 \<and> m_requests_queue s' = q1 @ q2 \<and>
            (\<forall>d\<in>set q1. cmd_job d \<in> m_pending_jobs s) \<and> cmd_job c \<notin> m_pending_jobs s \<and> job_command c \<and>
            executing (p_workers s) = e1 @ e2 \<and> executing (p_workers s') = e1 @ c # e2) \<and>
         m_pending_jobs s' = insert (cmd_job c) (m_pending_jobs s) \<and>
         (In_wait \<in> set (p_workers s') \<longrightarrow> In_wait \<in> set (p_workers s))
     | Completion c \<Rightarrow> p_added s' = p_added s \<and> p_started s' = p_started s \<and> m_requests_queue s' = m_requests_queue s \<and>
         (\<exists>e1 e2. executing (p_workers s) = e1 @ c # e2 \<and> executing (p_workers s') = e1 @ e2) \<and>
         m_pending_jobs s' = m_pending_jobs s - {cmd_job c} \<and> In_wait \<notin> set (p_workers s')
     | Internal \<Rightarrow> p_added s' = p_added s \<and> p_started s' = p_started s \<and> m_requests_queue s' = m_requests_queue s \<and>
         m_pending_jobs s' = m_pending_jobs s \<and> executing (p_workers s') = executing (p_workers s) \<and>
         (In_wait \<in> set (p_workers s') \<longrightarrow> In_wait \<in> set (p_workers s) \<or> (\<forall>c\<in>set (m_requests_queue s). cmd_job c \<in> m_pending_jobs s)))"

lemma add_request_effect: "has_effect (Arrival c) s (add_request c s)"
  by (simp add: has_effect_def add_request_def)

lemma internal_update:
  assumes "i < length (p_workers s)" "executing [p_workers s ! i] = []" "executing [w] = []" "w \<noteq> In_wait"
  shows "has_effect Internal s (set_pool_worker i w s)"
proof -
  have "In_wait \<in> set ((p_workers s)[i := w]) \<Longrightarrow> In_wait \<in> set (p_workers s)"
    using assms(4) set_update_subset_insert by fastforce
  with assms show ?thesis by (simp add: has_effect_def executing_same del: executing.simps)
qed

lemma take_or_wait_effect:
  assumes "i < length (p_workers s)" "executing [p_workers s ! i] = []" "list_all job_command (m_requests_queue s)"
  shows "\<exists>e. (e = Internal \<or> (\<exists>c. e = Start c)) \<and> has_effect e s (take_or_wait now i s)"
proof (cases "get_first_request now (m_pending_jobs s) (m_requests_queue s) = length (m_requests_queue s)")
  case True
  with assms have "has_effect Internal s (take_or_wait now i s)"
    by (simp add: has_effect_def take_or_wait_def Let_def executing_same first_request_end)
  then show ?thesis by blast
next
  case False
  define it where "it = get_first_request now (m_pending_jobs s) (m_requests_queue s)"
  let ?c = "m_requests_queue s ! it"
  note f = first_request_found [OF assms(3) False, folded it_def]
  have "In_wait \<in> set ((p_workers s)[i := Executing ?c]) \<Longrightarrow> In_wait \<in> set (p_workers s)"
    using set_update_subset_insert by fastforce
  then have "has_effect (Start ?c) s (take_or_wait now i s)"
    using f assms False executing_at [OF assms(1)] executing_update [OF assms(1), of "Executing ?c"]
    by (auto simp: has_effect_def take_or_wait_def Let_def it_def [symmetric] job_command_id
        simp del: executing_append intro!: exI)
  then show ?thesis by blast
qed

lemma command_done_effect:
  assumes "i < length (p_workers s)" "p_workers s ! i = Executing c" "list_all job_command (executing (p_workers s))" "r \<noteq> Soap_runtime_ex"
  shows "has_effect (Completion c) s (command_done now i c r s)"
proof -
  have "job_command c"
    using assms in_executing [of c "p_workers s"] by (metis list_all_iff nth_mem)
  with assms executing_at [OF assms(1)] executing_update [OF assms(1), of Loop_test] show ?thesis
    by (auto simp: has_effect_def command_done_def job_command_id simp del: executing_append intro!: exI)
qed

lemma soap_effect: "has_effect Internal s (command_done now i c Soap_runtime_ex s)"
  by (simp add: command_done_def has_effect_def)

lemma has_effect_running [simp]: "has_effect e (s\<lparr>m_num_running := k\<rparr>) s' = has_effect e s s'"
  by (simp add: has_effect_def split: effect.splits)

lemma wait_returns_effect:
  assumes "i < length (p_workers s)" "executing [p_workers s ! i] = []" "list_all job_command (m_requests_queue s)"
  shows "\<exists>e. (e = Internal \<or> (\<exists>c. e = Start c)) \<and> has_effect e s (wait_returns now i s)"
  using assms internal_update [of i s Ended]
    take_or_wait_effect [of i "s\<lparr>m_num_running := m_num_running s + 1\<rparr>" now]
  by (auto simp: wait_returns_def)

lemma stop_next_effect: "has_effect Internal s (stop_next s)"
  by (auto simp: has_effect_def stop_next_def split: stop_progress.splits)

lemma step_effect:
  assumes "any_step s s'" "serial_inv s"
  shows "\<exists>e. has_effect e s s'"
proof -
  from assms(2) have q: "list_all job_command (m_requests_queue s)" "list_all job_command (executing (p_workers s))"
    by (simp_all add: serial_inv_def)
  from assms(1) have "pool_step s s' \<or> spurious_step s s'" by (simp add: any_step_def)
  then show ?thesis
  proof
    assume "pool_step s s'"
    then show ?thesis
    proof cases
      case (adds c)
      then show ?thesis using add_request_effect by blast
    next
      case (tests i)
      then show ?thesis using internal_update [of i s Ended] internal_update [of i s Lock_wanted]
        by (cases "p_stopped s ! i") (auto simp: check_stopped_def)
    next
      case (locks i now)
      then show ?thesis using take_or_wait_effect [of i s now] q by auto
    next
      case (wakes i now)
      then show ?thesis using wait_returns_effect [of i s now] q by auto
    next
      case (ends i c now r)
      then show ?thesis using command_done_effect [of i s c r now] q soap_effect [of s now i c]
        by (cases "r = Soap_runtime_ex") blast+
    next
      case stops
      then show ?thesis using stop_next_effect by blast
    qed
  next
    assume "spurious_step s s'"
    then show ?thesis
    proof cases
      case (spurious i now)
      then show ?thesis using wait_returns_effect [of i s now] q by auto
    qed
  qed
qed

section \<open>Preservation\<close>

lemma filter_jobs_empty: "\<forall>d\<in>set q. cmd_job d \<in> P \<Longrightarrow> g \<notin> P \<Longrightarrow> filter (\<lambda>c. cmd_job c = g) q = []"
  by (auto simp: filter_empty_conv)

lemma arrival_inv:
  assumes "has_effect (Arrival c) s s'" "serial_inv s" "job_command c"
  shows "serial_inv s'"
  using assms by (auto simp: has_effect_def serial_inv_def)

lemma start_inv:
  assumes "has_effect (Start c) s s'" "serial_inv s"
  shows "serial_inv s'"
proof -
  from assms(1) obtain q1 q2 e1 e2 where e: "m_requests_queue s = q1 @ c # q2" "m_requests_queue s' = q1 @ q2"
    "\<forall>d\<in>set q1. cmd_job d \<in> m_pending_jobs s" "cmd_job c \<notin> m_pending_jobs s" "job_command c"
    "executing (p_workers s) = e1 @ e2" "executing (p_workers s') = e1 @ c # e2"
    "m_pending_jobs s' = insert (cmd_job c) (m_pending_jobs s)" "p_added s' = p_added s" "p_started s' = p_started s @ [c]"
    "In_wait \<in> set (p_workers s') \<longrightarrow> In_wait \<in> set (p_workers s)"
    by (auto simp: has_effect_def)
  have "filter (\<lambda>d. cmd_job d = g) (p_added s') =
      filter (\<lambda>d. cmd_job d = g) (p_started s') @ filter (\<lambda>d. cmd_job d = g) (m_requests_queue s')" for g
    using assms(2) e filter_jobs_empty [OF e(3,4)] by (auto simp: serial_inv_def)
  with assms(2) e show ?thesis by (auto simp: serial_inv_def)
qed

lemma completion_inv:
  assumes "has_effect (Completion c) s s'" "serial_inv s"
  shows "serial_inv s'"
proof -
  from assms obtain e1 e2 where e: "executing (p_workers s) = e1 @ c # e2" "executing (p_workers s') = e1 @ e2"
    by (auto simp: has_effect_def)
  with assms have "cmd_job c \<notin> cmd_job ` set (e1 @ e2)" "m_pending_jobs s = insert (cmd_job c) (cmd_job ` set (e1 @ e2))"
    by (auto simp: serial_inv_def)
  then have "m_pending_jobs s - {cmd_job c} = cmd_job ` set (e1 @ e2)" by blast
  with assms e show ?thesis by (simp add: has_effect_def serial_inv_def)
qed

lemma internal_inv:
  assumes "has_effect Internal s s'" "serial_inv s"
  shows "serial_inv s'"
  using assms by (auto simp: has_effect_def serial_inv_def)

lemma effect_inv:
  assumes "has_effect e s s'" "serial_inv s" "job_pool s'"
  shows "serial_inv s'"
proof (cases e)
  case (Arrival c)
  with assms have "job_command c" by (simp add: has_effect_def job_pool_def)
  with assms Arrival show ?thesis using arrival_inv by blast
qed (use assms start_inv completion_inv internal_inv in blast)+

lemma step_adds: "any_step s s' \<Longrightarrow> \<exists>cs. p_added s' = p_added s @ cs"
  by (auto simp: any_step_def add_request_def check_stopped_def take_or_wait_def wait_returns_def command_done_def
      stop_next_def Let_def elim!: pool_step.cases spurious_step.cases split: stop_progress.splits)

lemma pool_new_inv: "serial_inv (iceThreadPool_new n)"
proof -
  have "executing (replicate k Loop_test) = []" for k by (induction k) simp_all
  then show ?thesis by (simp add: serial_inv_def iceThreadPool_new_def)
qed

lemma reachable_inv:
  assumes "pool_reachable n s" "job_pool s"
  shows "serial_inv s"
proof -
  have "any_step\<^sup>*\<^sup>* (iceThreadPool_new n) s \<Longrightarrow> job_pool s \<Longrightarrow> serial_inv s"
  proof (induction rule: rtranclp_induct)
    case base
    show ?case by (rule pool_new_inv)
  next
    case (step s s')
    from step_adds [OF step.hyps(2)] step.prems have "job_pool s" by (auto simp: job_pool_def)
    with step.IH have "serial_inv s" by simp
    with step_effect [OF step.hyps(2)] step.prems show ?case using effect_inv by blast
  qed
  with assms show ?thesis by (simp add: pool_reachable_def)
qed

section \<open>The lanes\<close>

lemma find_app: "find P (xs @ ys) = (case find P xs of None \<Rightarrow> find P ys | Some x \<Rightarrow> Some x)"
  by (induction xs) auto

lemma find_job_none: "g \<notin> cmd_job ` set cs \<Longrightarrow> find (\<lambda>c. cmd_job c = g) cs = None"
  by (auto simp: find_None_iff)

lemma arrival_lanes: "has_effect (Arrival c) s s' \<Longrightarrow> lane_step (lanes s) (lanes s')"
proof -
  assume "has_effect (Arrival c) s s'"
  then have "lanes s' = (lanes s)(cmd_job c := (lanes s (cmd_job c))\<lparr>l_waiting := l_waiting (lanes s (cmd_job c)) @ [c]\<rparr>)"
    by (auto simp: fun_eq_iff lanes_def has_effect_def)
  then show ?thesis using arrives by metis
qed

lemma start_lanes:
  assumes "has_effect (Start c) s s'" "serial_inv s"
  shows "lane_step (lanes s) (lanes s')"
proof -
  from assms(1) obtain q1 q2 e1 e2 where e: "m_requests_queue s = q1 @ c # q2" "m_requests_queue s' = q1 @ q2"
    "\<forall>d\<in>set q1. cmd_job d \<in> m_pending_jobs s" "cmd_job c \<notin> m_pending_jobs s"
    "executing (p_workers s) = e1 @ e2" "executing (p_workers s') = e1 @ c # e2"
    by (auto simp: has_effect_def)
  from e assms(2) have n: "cmd_job c \<notin> cmd_job ` set e1" "cmd_job c \<notin> cmd_job ` set e2"
    by (auto simp: serial_inv_def)
  let ?q = "filter (\<lambda>d. cmd_job d = cmd_job c) q2"
  have "lanes s' = (lanes s)(cmd_job c := \<lparr>l_running = Some c, l_waiting = ?q\<rparr>)"
    using e find_job_none [OF n(1)] filter_jobs_empty [OF e(3,4)]
    by (auto simp: fun_eq_iff lanes_def find_app split: option.split)
  moreover have "l_running (lanes s (cmd_job c)) = None"
    using e find_job_none [OF n(1)] find_job_none [OF n(2)] by (simp add: lanes_def find_app)
  moreover have "l_waiting (lanes s (cmd_job c)) = c # ?q"
    using e filter_jobs_empty [OF e(3,4)] by (simp add: lanes_def)
  ultimately show ?thesis using begins by metis
qed

lemma completion_lanes:
  assumes "has_effect (Completion c) s s'" "serial_inv s"
  shows "lane_step (lanes s) (lanes s')"
proof -
  from assms(1) obtain e1 e2 where e: "executing (p_workers s) = e1 @ c # e2" "executing (p_workers s') = e1 @ e2"
    "m_requests_queue s' = m_requests_queue s"
    by (auto simp: has_effect_def)
  from e assms(2) have n: "cmd_job c \<notin> cmd_job ` set e1" "cmd_job c \<notin> cmd_job ` set e2"
    by (auto simp: serial_inv_def)
  have "lanes s' = (lanes s)(cmd_job c := (lanes s (cmd_job c))\<lparr>l_running := None\<rparr>)"
    using e find_job_none [OF n(1)] find_job_none [OF n(2)]
    by (auto simp: fun_eq_iff lanes_def find_app split: option.split)
  moreover have "l_running (lanes s (cmd_job c)) = Some c"
    using e find_job_none [OF n(1)] by (simp add: lanes_def find_app)
  ultimately show ?thesis using finishes by metis
qed

lemma internal_lanes: "has_effect Internal s s' \<Longrightarrow> lanes s' = lanes s"
  by (simp add: fun_eq_iff lanes_def has_effect_def)

lemma effect_lanes:
  assumes "has_effect e s s'" "serial_inv s"
  shows "lane_step (lanes s) (lanes s')"
  using assms arrival_lanes start_lanes completion_lanes internal_lanes unchanged by (cases e) metis+

section \<open>The properties of the submission pool\<close>

lemma reach_step: "pool_reachable n s \<Longrightarrow> any_step s s' \<Longrightarrow> pool_reachable n s'"
  unfolding pool_reachable_def by (rule rtranclp.rtrancl_into_rtrancl)

lemma reach_new: "pool_reachable n (iceThreadPool_new n)"
  by (simp add: pool_reachable_def)

lemmas pool_eval = iceThreadPool_new_def add_request_def notify_all_def check_stopped_def take_or_wait_def
  wait_returns_def command_done_def stop_next_def set_pool_worker_def get_grid_job_id_def job_pool_def job_command_def
  pool_size_def

text \<open>C16: the pool of the submissions, cancellations and reschedulings behaves as one serial queue per job:
  each step of the pool, spurious wake-ups and the stopping of the threads included, is an arrival in the lane of
  a job, the start of the first command of a lane in which nothing runs, the end of the command that runs
  in a lane, or none of these.\<close>

theorem submission_pool_is_serial:
  assumes "pool_reachable n s" "any_step s s'" "job_pool s'"
  shows "lane_step (lanes s) (lanes s')"
proof -
  from step_adds [OF assms(2)] assms(3) have "job_pool s" by (auto simp: job_pool_def)
  with assms(1) have "serial_inv s" by (rule reachable_inv)
  with step_effect [OF assms(2)] show ?thesis using effect_lanes by blast
qed

theorem submission_pool_is_serial_witness:
  "lane_step (lanes (iceThreadPool_new 2)) (lanes (add_request \<lparr>cmd_no = 1, cmd_kind = Submit_cmd, cmd_job = ''a''\<rparr> (iceThreadPool_new 2)))"
proof (rule submission_pool_is_serial [OF reach_new])
  show "any_step (iceThreadPool_new 2) (add_request \<lparr>cmd_no = 1, cmd_kind = Submit_cmd, cmd_job = ''a''\<rparr> (iceThreadPool_new 2))"
    by (simp add: any_step_def adds iceThreadPool_new_def)
  show "job_pool (add_request \<lparr>cmd_no = 1, cmd_kind = Submit_cmd, cmd_job = ''a''\<rparr> (iceThreadPool_new 2))"
    by (simp add: pool_eval)
qed

text \<open>C17: two workers of the submission pool never execute commands of the same job at the same time,
  and for each job the commands that came in are those that a worker has taken, in the order of
  their arrival, followed by those of the queue: none is lost, doubled or overtaken by a later one.\<close>

theorem commands_exclusive_in_order:
  assumes "pool_reachable n s" "job_pool s"
  shows "(\<forall>i j c d. i < j \<and> j < length (p_workers s) \<and> p_workers s ! i = Executing c \<and> p_workers s ! j = Executing d \<longrightarrow>
             cmd_job c \<noteq> cmd_job d) \<and>
         (\<forall>g. filter (\<lambda>c. cmd_job c = g) (p_added s) =
            filter (\<lambda>c. cmd_job c = g) (p_started s) @ filter (\<lambda>c. cmd_job c = g) (m_requests_queue s))"
proof -
  from assms have inv: "serial_inv s" by (rule reachable_inv)
  then have "distinct (map cmd_job (executing (p_workers s)))" by (simp add: serial_inv_def)
  with inv show ?thesis using executing_distinct_workers by (auto simp: serial_inv_def)
qed

text \<open>Two workers; the queue holds two commands of one job and one of another.\<close>

definition sample_command :: "nat \<Rightarrow> string \<Rightarrow> ice_command" where
  "sample_command k g = \<lparr>cmd_no = k, cmd_kind = Submit_cmd, cmd_job = g\<rparr>"

definition sample_pool :: ice_pool where
  "sample_pool = take_or_wait 7 1 (take_or_wait 5 0 (check_stopped 1 (check_stopped 0
     (add_request (sample_command 3 ''b'') (add_request (sample_command 2 ''a'') (add_request (sample_command 1 ''a'') (iceThreadPool_new 2)))))))"

lemma any_adds: "p_exit s = None \<Longrightarrow> any_step s (add_request c s)"
  by (simp add: any_step_def adds)

lemma any_tests: "p_exit s = None \<Longrightarrow> i < length (p_workers s) \<Longrightarrow> p_workers s ! i = Loop_test \<Longrightarrow> any_step s (check_stopped i s)"
  by (simp add: any_step_def tests)

lemma any_locks: "p_exit s = None \<Longrightarrow> i < length (p_workers s) \<Longrightarrow> p_workers s ! i = Lock_wanted \<Longrightarrow> any_step s (take_or_wait now i s)"
  by (simp add: any_step_def locks)

lemma sample_pool_reachable: "pool_reachable 2 sample_pool"
  unfolding sample_pool_def
  by (intro reach_step [OF _ any_locks] reach_step [OF _ any_tests] reach_step [OF _ any_adds] reach_new)
     (simp_all add: pool_eval Let_def sample_command_def numeral_2_eq_2)

lemma sample_pool_workers:
  "p_workers sample_pool = [Executing (sample_command 1 ''a''), Executing (sample_command 3 ''b'')]"
  "m_requests_queue sample_pool = [sample_command 2 ''a'']" "job_pool sample_pool"
  by (simp_all add: sample_pool_def pool_eval Let_def sample_command_def numeral_2_eq_2)

theorem commands_exclusive_in_order_witness:
  "cmd_job (sample_command 1 ''a'') \<noteq> cmd_job (sample_command 3 ''b'') \<and>
   filter (\<lambda>c. cmd_job c = ''a'') (p_added sample_pool) =
     filter (\<lambda>c. cmd_job c = ''a'') (p_started sample_pool) @ [sample_command 2 ''a'']"
  using commands_exclusive_in_order [OF sample_pool_reachable sample_pool_workers(3)] sample_pool_workers
  by (auto simp: sample_command_def)

text \<open>The next step of worker \<open>i\<close> when its thread is scheduled: none while it sleeps in the wait, executes a command or has ended.\<close>

definition own_step :: "nat \<Rightarrow> nat \<Rightarrow> ice_pool \<Rightarrow> ice_pool" where
  "own_step now i s = (case p_workers s ! i of
       Loop_test \<Rightarrow> check_stopped i s
     | Lock_wanted \<Rightarrow> take_or_wait now i s
     | Notified \<Rightarrow> wait_returns now i s
     | _ \<Rightarrow> s)"

lemma own_step_is_step:
  "p_exit s = None \<Longrightarrow> i < length (p_workers s) \<Longrightarrow> p_workers s ! i \<notin> {In_wait, Ended} \<union> range Executing \<Longrightarrow>
   pool_step s (own_step now i s)"
  by (cases "p_workers s ! i") (auto simp: own_step_def intro: tests locks wakes)

text \<open>An awake worker takes the first command that can be processed, once it has the mutex.\<close>

lemma take_or_wait_takes:
  assumes "get_first_request now (m_pending_jobs s) (m_requests_queue s) \<noteq> length (m_requests_queue s)" "i < length (p_workers s)"
  defines "d \<equiv> m_requests_queue s ! get_first_request now (m_pending_jobs s) (m_requests_queue s)"
  shows "p_started (take_or_wait now i s) = p_started s @ [d] \<and> p_workers (take_or_wait now i s) ! i = Executing d"
  using assms(1,2) by (simp add: take_or_wait_def Let_def d_def set_pool_worker_def)

lemma first_request_free:
  "list_all job_command q \<Longrightarrow> get_first_request now P q \<noteq> length q \<Longrightarrow>
   q ! get_first_request now P q \<in> set q \<and> cmd_job (q ! get_first_request now P q) \<notin> P"
  by (induction q) (auto simp: get_grid_job_id_def job_command_def split: if_splits)

text \<open>C18: no wake-up is missed in the submission pool: whatever the order of arrivals, completions and spurious
  wake-ups, in no reachable state does a worker sleep in the wait while a command whose job has no other command in execution is
  queued. Any worker that is not executing a command, has not ended and is not asked to stop starts such a command with one or two
  steps of its own thread, when no other thread acts in between.\<close>

theorem eligible_command_is_started:
  assumes "pool_reachable n s" "job_pool s" "p_exit s = None"
    and "c \<in> set (m_requests_queue s)" "cmd_job c \<notin> m_pending_jobs s"
  shows "In_wait \<notin> set (p_workers s) \<and>
    (\<forall>i<length (p_workers s). \<not> p_stopped s ! i \<and> p_workers s ! i \<notin> {Ended} \<union> range Executing \<longrightarrow>
       (\<exists>d k. d \<in> set (m_requests_queue s) \<and> cmd_job d \<notin> m_pending_jobs s \<and> k \<in> {1, 2} \<and>
          (\<forall>j<k. pool_step ((own_step now i ^^ j) s) ((own_step now i ^^ Suc j) s)) \<and>
          p_started ((own_step now i ^^ k) s) = p_started s @ [d] \<and> p_workers ((own_step now i ^^ k) s) ! i = Executing d))"
proof (intro conjI allI impI)
  from assms(1,2) have inv: "serial_inv s" by (rule reachable_inv)
  then have q: "list_all job_command (m_requests_queue s)" by (simp add: serial_inv_def)
  from inv assms(4,5) show awake: "In_wait \<notin> set (p_workers s)"
    unfolding serial_inv_def by metis
  have found: "get_first_request now (m_pending_jobs s) (m_requests_queue s) \<noteq> length (m_requests_queue s)"
    using first_request_end [OF q] assms(4,5) by blast
  fix i
  assume i: "i < length (p_workers s)" "\<not> p_stopped s ! i \<and> p_workers s ! i \<notin> {Ended} \<union> range Executing"
  define d where "d = m_requests_queue s ! get_first_request now (m_pending_jobs s) (m_requests_queue s)"
  note d = first_request_free [OF q found, folded d_def]
  from i awake have first: "pool_step s (own_step now i s)"
    using assms(3) by (intro own_step_is_step) (auto simp: in_set_conv_nth)
  from i awake consider "p_workers s ! i = Loop_test" | "p_workers s ! i = Lock_wanted" | "p_workers s ! i = Notified"
    by (cases "p_workers s ! i") (auto simp: in_set_conv_nth)
  then have "\<exists>k. k \<in> {1, 2} \<and> (\<forall>j<k. pool_step ((own_step now i ^^ j) s) ((own_step now i ^^ Suc j) s)) \<and>
    p_started ((own_step now i ^^ k) s) = p_started s @ [d] \<and> p_workers ((own_step now i ^^ k) s) ! i = Executing d"
  proof cases
    case 1
    let ?t = "check_stopped i s"
    have t: "own_step now i s = ?t" "own_step now i ?t = take_or_wait now i ?t" using 1 i by (simp_all add: own_step_def check_stopped_def set_pool_worker_def)
    have "pool_step ?t (take_or_wait now i ?t)"
      using assms(3) i by (intro locks) (simp_all add: check_stopped_def set_pool_worker_def)
    moreover have "p_started (take_or_wait now i ?t) = p_started s @ [d] \<and> p_workers (take_or_wait now i ?t) ! i = Executing d"
      using take_or_wait_takes [of now ?t i] found i(1) by (simp add: check_stopped_def set_pool_worker_def d_def)
    ultimately show ?thesis using first t by (intro exI [of _ 2]) (simp add: numeral_2_eq_2 less_Suc_eq all_conj_distrib)
  next
    case 2
    then have "own_step now i s = take_or_wait now i s" by (simp add: own_step_def)
    with first take_or_wait_takes [OF found i(1)] show ?thesis by (intro exI [of _ 1]) (simp add: d_def)
  next
    case 3
    then have "own_step now i s = take_or_wait now i (s\<lparr>m_num_running := m_num_running s + 1\<rparr>)"
      using i by (simp add: own_step_def wait_returns_def)
    with first take_or_wait_takes [of now "s\<lparr>m_num_running := m_num_running s + 1\<rparr>" i] found i(1)
    show ?thesis by (intro exI [of _ 1]) (simp add: d_def)
  qed
  with d show "\<exists>d k. d \<in> set (m_requests_queue s) \<and> cmd_job d \<notin> m_pending_jobs s \<and> k \<in> {1, 2} \<and>
      (\<forall>j<k. pool_step ((own_step now i ^^ j) s) ((own_step now i ^^ Suc j) s)) \<and>
      p_started ((own_step now i ^^ k) s) = p_started s @ [d] \<and> p_workers ((own_step now i ^^ k) s) ! i = Executing d" by blast
qed

text \<open>The command arrives while the only worker sleeps: the arrival has woken it.\<close>

definition woken_pool :: ice_pool where
  "woken_pool = add_request (sample_command 1 ''a'') (take_or_wait 0 0 (check_stopped 0 (iceThreadPool_new 1)))"

theorem eligible_command_is_started_witness:
  "p_workers (take_or_wait 0 0 (check_stopped 0 (iceThreadPool_new 1))) = [In_wait] \<and> In_wait \<notin> set (p_workers woken_pool) \<and>
   (\<exists>d k. k \<in> {1, 2} \<and> p_started ((own_step 5 0 ^^ k) woken_pool) = [] @ [d] \<and> p_workers ((own_step 5 0 ^^ k) woken_pool) ! 0 = Executing d)"
proof -
  have "pool_reachable 1 woken_pool"
    unfolding woken_pool_def
    by (intro reach_step [OF _ any_adds] reach_step [OF _ any_locks] reach_step [OF _ any_tests] reach_new) (simp_all add: pool_eval Let_def)
  moreover have "job_pool woken_pool" "p_exit woken_pool = None" "m_requests_queue woken_pool = [sample_command 1 ''a'']"
    "m_pending_jobs woken_pool = {}" "p_workers woken_pool = [Notified]" "p_stopped woken_pool = [False]" "p_started woken_pool = []"
    by (simp_all add: woken_pool_def pool_eval Let_def sample_command_def)
  moreover have "p_workers (take_or_wait 0 0 (check_stopped 0 (iceThreadPool_new 1))) = [In_wait]" by (simp add: pool_eval Let_def)
  ultimately show ?thesis
    using eligible_command_is_started [of 1 woken_pool "sample_command 1 ''a''" 5] by auto
qed

section \<open>The number of running threads\<close>

primrec active :: "pool_worker \<Rightarrow> bool" where
  "active Loop_test = True"
| "active Lock_wanted = True"
| "active In_wait = False"
| "active Notified = False"
| "active (Executing c) = True"
| "active Ended = False"

definition count_workers :: "(pool_worker \<Rightarrow> bool) \<Rightarrow> ice_pool \<Rightarrow> int" where
  "count_workers P s = int (length (filter P (p_workers s)))"

lemma count_update:
  assumes "i < length (p_workers s)"
  shows "count_workers P (set_pool_worker i w s) = count_workers P s - of_bool (P (p_workers s ! i)) + of_bool (P w)"
proof -
  have "int (length (filter P (ws[i := w]))) = int (length (filter P ws)) - of_bool (P (ws ! i)) + of_bool (P w)"
    if "i < length ws" for ws :: "pool_worker list"
    using that by (subst (2) id_take_nth_drop [OF that]) (simp add: upd_conv_take_nth_drop)
  with assms show ?thesis by (simp add: count_workers_def)
qed

lemma count_notify:
  "(\<And>w. P (if w = In_wait then Notified else w) = P w) \<Longrightarrow> count_workers P (notify_all s) = count_workers P s"
  by (simp add: count_workers_def notify_all_def filter_map o_def)

definition running_inv :: "ice_pool \<Rightarrow> bool" where
  "running_inv s \<longleftrightarrow> count_workers active s \<le> m_num_running s \<and>
     m_num_running s \<le> count_workers active s + count_workers (\<lambda>w. w = Ended) s"

lemma count_other [simp]:
  "count_workers P (s\<lparr>m_num_running := k\<rparr>) = count_workers P s" "count_workers P (s\<lparr>m_requests_queue := q\<rparr>) = count_workers P s"
  "count_workers P (s\<lparr>m_pending_jobs := J\<rparr>) = count_workers P s" "count_workers P (s\<lparr>p_started := q\<rparr>) = count_workers P s"
  "count_workers P (s\<lparr>p_added := q\<rparr>) = count_workers P s" "count_workers P (s\<lparr>p_exit := e\<rparr>) = count_workers P s"
  "count_workers P (s\<lparr>p_stopped := b\<rparr>) = count_workers P s" "count_workers P (s\<lparr>p_stopper := x\<rparr>) = count_workers P s"
  by (simp_all add: count_workers_def)

lemmas count_simps = count_update count_notify running_inv_def

lemma take_or_wait_running:
  "i < length (p_workers s) \<Longrightarrow> active (p_workers s ! i) \<Longrightarrow> running_inv s \<Longrightarrow> running_inv (take_or_wait now i s)"
  by (cases "p_workers s ! i") (auto simp: take_or_wait_def Let_def count_simps)

lemma wait_returns_running:
  assumes "i < length (p_workers s)" "p_workers s ! i \<in> {In_wait, Notified}" "running_inv s"
  shows "running_inv (wait_returns now i s)"
  using assms by (auto simp: wait_returns_def take_or_wait_def Let_def count_simps)

lemma step_running: "any_step s s' \<Longrightarrow> running_inv s \<Longrightarrow> running_inv s'"
  unfolding any_step_def
proof (elim disjE)
  assume "pool_step s s'" "running_inv s"
  then show "running_inv s'"
  proof cases
    case (locks i now)
    then show ?thesis using take_or_wait_running \<open>running_inv s\<close> by simp
  next
    case (wakes i now)
    then show ?thesis using wait_returns_running \<open>running_inv s\<close> by simp
  qed (use \<open>running_inv s\<close> in \<open>auto simp: add_request_def check_stopped_def command_done_def stop_next_def count_simps
         split: stop_progress.splits\<close>)
next
  assume "spurious_step s s'" "running_inv s"
  then show "running_inv s'" by cases (auto intro: wait_returns_running)
qed

lemma step_workers: "any_step s s' \<Longrightarrow> length (p_workers s') = length (p_workers s)"
  by (auto simp: any_step_def add_request_def check_stopped_def take_or_wait_def wait_returns_def command_done_def
      stop_next_def Let_def elim!: pool_step.cases spurious_step.cases split: stop_progress.splits)

text \<open>the number of running threads that the pool counts and prints is never negative and never more than
  the size of the pool, which is at least one; as long as no thread has ended, it is the number of the
  threads that are not in the wait or leaving it.\<close>

theorem running_threads_bounds:
  assumes "pool_reachable n s"
  shows "0 \<le> m_num_running s \<and> m_num_running s \<le> max 1 n \<and>
    (Ended \<notin> set (p_workers s) \<longrightarrow> m_num_running s = count_workers active s)"
proof -
  have "any_step\<^sup>*\<^sup>* (iceThreadPool_new n) s \<Longrightarrow> running_inv s \<and> length (p_workers s) = pool_size n"
  proof (induction rule: rtranclp_induct)
    case base
    show ?case by (simp add: running_inv_def count_workers_def iceThreadPool_new_def)
  next
    case (step s s')
    then show ?case using step_running step_workers by metis
  qed
  with assms have r: "running_inv s" "length (p_workers s) = pool_size n" by (auto simp: pool_reachable_def)
  have "length (filter active ws) + length (filter (\<lambda>w. w = Ended) ws) \<le> length ws" for ws
    by (induction ws) (auto split: pool_worker.split)
  then have "count_workers active s + count_workers (\<lambda>w. w = Ended) s \<le> int (pool_size n)"
    unfolding count_workers_def r(2) [symmetric] by (metis of_nat_add of_nat_mono)
  moreover have "count_workers (\<lambda>w. w = Ended) s = 0" if "Ended \<notin> set (p_workers s)"
    using that by (auto simp: count_workers_def filter_empty_conv)
  moreover have "0 \<le> count_workers active s" by (simp add: count_workers_def)
  ultimately show ?thesis using r(1) by (auto simp: running_inv_def pool_size_def split: if_splits)
qed

theorem running_threads_bounds_witness:
  "0 \<le> m_num_running sample_pool \<and> m_num_running sample_pool = count_workers active sample_pool"
  using running_threads_bounds [OF sample_pool_reachable] by (simp add: sample_pool_workers)

section \<open>Stopping the threads\<close>

text \<open>The three stages of a stop that hangs: every worker has seen its flag unset; every flag is set and the
  notification has been sent; the first workers have found the queue empty.\<close>

definition tested :: "nat \<Rightarrow> nat \<Rightarrow> ice_pool" where
  "tested k j = (iceThreadPool_new (int k))\<lparr>p_workers := replicate j Lock_wanted @ replicate (k - j) Loop_test\<rparr>"

definition flagged :: "nat \<Rightarrow> nat \<Rightarrow> ice_pool" where
  "flagged k j = (tested k k)\<lparr>p_stopped := replicate j True @ replicate (k - j) False, p_stopper := Flagging j\<rparr>"

definition hanging :: "nat \<Rightarrow> nat \<Rightarrow> ice_pool" where
  "hanging k j = (flagged k k)\<lparr>p_stopper := Joining, m_num_running := int k - int j,
     p_workers := replicate j In_wait @ replicate (k - j) Lock_wanted\<rparr>"

lemma replicate_next: "j < k \<Longrightarrow> replicate (k - j) x = x # replicate (k - Suc j) x"
  by (metis Suc_diff_Suc replicate_Suc)

lemma update_middle: "(replicate j x @ y # zs)[j := x] = replicate (Suc j) x @ zs"
  by (simp add: list_update_append replicate_append_same)

lemma pool_size_pos: "0 < k \<Longrightarrow> pool_size (int k) = k"
  by (simp add: pool_size_def)

lemma tested_next: "j < k \<Longrightarrow> any_step (tested k j) (tested k (Suc j))"
  using any_tests [of "tested k j" j]
  by (simp add: tested_def check_stopped_def set_pool_worker_def iceThreadPool_new_def pool_size_pos replicate_next
      update_middle nth_append)

lemma flagged_next: "j < k \<Longrightarrow> any_step (flagged k j) (flagged k (Suc j))"
  using stops [of "flagged k j"]
  by (simp add: any_step_def flagged_def tested_def stop_next_def iceThreadPool_new_def replicate_next update_middle)

lemma hanging_next: "j < k \<Longrightarrow> any_step (hanging k j) (hanging k (Suc j))"
  using any_locks [of "hanging k j" j 0]
  by (simp add: hanging_def flagged_def tested_def take_or_wait_def set_pool_worker_def iceThreadPool_new_def replicate_next
      update_middle nth_append algebra_simps)

lemma steps_upto:
  assumes "\<And>j. j < k \<Longrightarrow> any_step (f j) (f (Suc j))" "j \<le> k"
  shows "any_step\<^sup>*\<^sup>* (f 0) (f j)"
  using assms(2)
proof (induction j)
  case 0
  show ?case by simp
next
  case (Suc j)
  then show ?case using assms(1) [of j] by (simp add: rtranclp.rtrancl_into_rtrancl)
qed

lemma hanging_reachable:
  assumes "0 < k"
  shows "pool_reachable (int k) (hanging k k)"
proof -
  have "tested k 0 = iceThreadPool_new (int k)"
    using assms by (simp add: tested_def iceThreadPool_new_def pool_size_pos)
  with steps_upto [of k "tested k" k, OF tested_next] have "any_step\<^sup>*\<^sup>* (iceThreadPool_new (int k)) (tested k k)" by simp
  moreover have "any_step (tested k k) (flagged k 0)"
    using stops [of "tested k k"] assms
    by (simp add: any_step_def flagged_def tested_def stop_next_def iceThreadPool_new_def pool_size_pos)
  moreover have "any_step\<^sup>*\<^sup>* (flagged k 0) (flagged k k)" using steps_upto [of k "flagged k" k, OF flagged_next] by simp
  moreover have "any_step (flagged k k) (hanging k 0)"
    using stops [of "flagged k k"] assms
    by (simp add: any_step_def hanging_def flagged_def tested_def stop_next_def notify_all_def iceThreadPool_new_def pool_size_pos)
  moreover have "any_step\<^sup>*\<^sup>* (hanging k 0) (hanging k k)" using steps_upto [of k "hanging k" k, OF hanging_next] by simp
  ultimately show ?thesis unfolding pool_reachable_def by (metis rtranclp.rtrancl_into_rtrancl rtranclp_trans)
qed

text \<open>C36: \<open>stopAllThreads\<close> sets the flags and notifies without the mutex, so the notification can come between the
  test of the flag and the wait of a worker. A pool of any size can come into a state in which every
  flag is set, \<open>stopAllThreads\<close> is in \<open>join_all\<close>, and all workers wait: no thread of the pool can take a step,
  unless a command is added or a wait ends without a notification, and \<open>join_all\<close> does not return.\<close>

theorem stop_can_hang:
  assumes "0 < k"
  shows "\<exists>s. pool_reachable (int k) s \<and> p_exit s = None \<and> p_stopper s = Joining \<and> p_stopped s = replicate k True \<and>
    p_workers s = replicate k In_wait \<and> \<not> join_all_returns s \<and>
    (\<forall>s'. pool_step s s' \<longrightarrow> s' = s \<or> (\<exists>c. s' = add_request c s))"
proof (intro exI conjI)
  let ?s = "hanging k k"
  show "pool_reachable (int k) ?s" using assms by (rule hanging_reachable)
  show "p_exit ?s = None" "p_stopper ?s = Joining" "p_stopped ?s = replicate k True" "p_workers ?s = replicate k In_wait"
    by (simp_all add: hanging_def flagged_def tested_def iceThreadPool_new_def)
  then show "\<not> join_all_returns ?s" using assms by (simp add: join_all_returns_def list_all_iff)
  show "\<forall>s'. pool_step ?s s' \<longrightarrow> s' = ?s \<or> (\<exists>c. s' = add_request c ?s)"
    using \<open>p_workers ?s = replicate k In_wait\<close> \<open>p_stopper ?s = Joining\<close>
    by (auto elim!: pool_step.cases simp: stop_next_def)
qed

theorem stop_can_hang_witness:
  "\<exists>s. pool_reachable (int 3) s \<and> p_exit s = None \<and> p_stopper s = Joining \<and> p_stopped s = replicate 3 True \<and>
    p_workers s = replicate 3 In_wait \<and> \<not> join_all_returns s"
  using stop_can_hang [of 3] by auto

section \<open>Commands that answer with the time\<close>

lemma digits_no_dot: "CHR ''.'' \<notin> set (digits 10 n)"
  using digits_all [of 10 n] by (auto simp: list_all_iff is_base_digit_def char_digit_def)

lemma takeWhile_dot: "CHR ''.'' \<notin> set xs \<Longrightarrow> takeWhile (\<lambda>c. c \<noteq> CHR ''.'') (xs @ ''.'' @ ys) = xs"
  by (induction xs) auto

lemma time_id_inj: "time_id s = time_id t \<Longrightarrow> s = t"
proof -
  assume e: "time_id s = time_id t"
  then have "digits 10 (s div 1000000) = digits 10 (t div 1000000)"
    using arg_cong [OF e, of "takeWhile (\<lambda>c. c \<noteq> CHR ''.'')"]
    unfolding time_id_def takeWhile_dot [OF digits_no_dot] by simp
  with e have m: "digits 10 (s mod 1000000) = digits 10 (t mod 1000000)"
    "digits 10 (s div 1000000) = digits 10 (t div 1000000)" by (simp_all add: time_id_def)
  have inj: "a = b" if "digits 10 a = digits 10 b" for a b
  proof -
    have "digits_value 10 (digits 10 a) = digits_value 10 (digits 10 b)" using that by (rule arg_cong)
    then show ?thesis by (simp add: digits_value_digits)
  qed
  from inj [OF m(1)] inj [OF m(2)] show "s = t" by (metis div_mult_mod_eq)
qed

definition timed_command :: "ice_command \<Rightarrow> bool" where
  "timed_command c \<longleftrightarrow> cmd_kind c \<in> {EventQuery_cmd, LBLogging_cmd, DelegationRenewal_cmd}"

text \<open>A pool with one thread gets a command, the thread takes it at one time and is done with it at another.\<close>

definition serve_one :: "ice_command \<times> nat \<times> nat \<Rightarrow> ice_pool \<Rightarrow> ice_pool" where
  "serve_one x s = (case x of (c, t, u) \<Rightarrow>
     command_done u 0 c Exec_returns (take_or_wait t 0 (check_stopped 0 (add_request c s))))"

definition serve :: "(ice_command \<times> nat \<times> nat) list \<Rightarrow> ice_pool \<Rightarrow> ice_pool" where
  "serve xs s = fold serve_one xs s"

definition idle :: "ice_pool \<Rightarrow> bool" where
  "idle s \<longleftrightarrow> m_requests_queue s = [] \<and> p_workers s = [Loop_test] \<and> p_stopped s = [False] \<and> p_exit s = None"

lemma serve_one_timed:
  assumes "idle s" "timed_command c" "time_id t \<notin> m_pending_jobs s" "time_id u \<notin> insert (time_id t) (m_pending_jobs s)"
  shows "idle (serve_one (c, t, u) s) \<and> m_pending_jobs (serve_one (c, t, u) s) = insert (time_id t) (m_pending_jobs s)"
proof -
  have "get_grid_job_id c now = time_id now" for now
    using assms(2) by (auto simp: timed_command_def get_grid_job_id_def)
  with assms show ?thesis
    by (simp add: idle_def serve_one_def add_request_def notify_all_def check_stopped_def set_pool_worker_def take_or_wait_def
        Let_def command_done_def)
qed

lemma serve_one_reachable:
  assumes "idle s" "timed_command c" "time_id t \<notin> m_pending_jobs s" "pool_reachable n s"
  shows "pool_reachable n (serve_one (c, t, u) s)"
proof -
  define s1 where "s1 = check_stopped 0 (add_request c s)"
  have id: "get_grid_job_id c t = time_id t"
    using assms(2) by (auto simp: timed_command_def get_grid_job_id_def)
  have "pool_reachable n s1" unfolding s1_def using assms
    by (intro reach_step [OF _ any_tests] reach_step [OF _ any_adds]) (simp_all add: idle_def add_request_def notify_all_def)
  moreover have s1: "p_workers s1 = [Lock_wanted]" "p_exit s1 = None" "m_requests_queue s1 = [c]" "m_pending_jobs s1 = m_pending_jobs s"
    using assms(1) by (simp_all add: s1_def idle_def check_stopped_def add_request_def notify_all_def)
  ultimately have "pool_reachable n (take_or_wait t 0 s1)" by (intro reach_step [OF _ any_locks]) simp_all
  moreover have "any_step (take_or_wait t 0 s1) (command_done u 0 c Exec_returns (take_or_wait t 0 s1))"
    using s1 id assms(3) by (simp add: any_step_def take_or_wait_def Let_def ends)
  ultimately show ?thesis unfolding serve_one_def s1_def by (simp add: reach_step)
qed

text \<open>the event queries, the LB loggings and the delegation renewals give the current time as the
  job to which they refer, so what \<open>body\<close> inserts into \<open>m_pending_jobs\<close> before \<open>execute\<close> is not what it erases after
  it. After any number of such commands, each begun and ended at times of its own, nothing is queued or
  executed, and \<open>m_pending_jobs\<close> holds an entry for each of them; the set only grows.\<close>

theorem timed_commands_stay_pending:
  assumes "\<forall>(c, t, u)\<in>set xs. timed_command c" "sorted_wrt (<) (concat (map (\<lambda>(c, t, u). [t, u]) xs))"
  shows "pool_reachable 1 (serve xs (iceThreadPool_new 1)) \<and> idle (serve xs (iceThreadPool_new 1)) \<and>
    m_pending_jobs (serve xs (iceThreadPool_new 1)) = time_id ` (\<lambda>(c, t, u). t) ` set xs \<and>
    card (m_pending_jobs (serve xs (iceThreadPool_new 1))) = length xs"
  using assms
proof (induction xs rule: rev_induct)
  case Nil
  show ?case using reach_new [of 1] by (simp add: serve_def idle_def iceThreadPool_new_def pool_size_def)
next
  case (snoc x xs)
  obtain c t u where x: "x = (c, t, u)" by (cases x)
  let ?s = "serve xs (iceThreadPool_new 1)"
  let ?starts = "(\<lambda>(c, t, u). t) ` set xs"
  have "sorted_wrt (<) (concat (map (\<lambda>(c, t, u). [t, u]) xs))" using snoc.prems(2) by (simp add: sorted_wrt_append)
  with snoc have IH: "pool_reachable 1 ?s" "idle ?s" "m_pending_jobs ?s = time_id ` ?starts" "card (m_pending_jobs ?s) = length xs"
    by auto
  have later: "s < t \<and> t < u" if "s \<in> ?starts" for s
    using snoc.prems(2) that by (fastforce simp: x sorted_wrt_append)
  have tu: "t < u" using snoc.prems(2) by (simp add: x sorted_wrt_append)
  have fresh: "time_id t \<notin> m_pending_jobs ?s" "time_id u \<notin> insert (time_id t) (m_pending_jobs ?s)"
    using later tu IH(3) time_id_inj by (fastforce dest: time_id_inj)+
  have c: "timed_command c" using snoc.prems(1) by (auto simp: x)
  have "serve (xs @ [x]) (iceThreadPool_new 1) = serve_one (c, t, u) ?s" by (simp add: serve_def x)
  then show ?case
    using serve_one_timed [OF IH(2) c fresh] serve_one_reachable [OF IH(2) c fresh(1) IH(1)] IH(3,4) fresh(1)
    by (simp add: x)
qed

theorem timed_commands_stay_pending_witness:
  "card (m_pending_jobs (serve [(\<lparr>cmd_no = 1, cmd_kind = LBLogging_cmd, cmd_job = []\<rparr>, 5, 9),
     (\<lparr>cmd_no = 2, cmd_kind = EventQuery_cmd, cmd_job = []\<rparr>, 10, 12)] (iceThreadPool_new 1))) = 2"
  using timed_commands_stay_pending [of "[(\<lparr>cmd_no = 1, cmd_kind = LBLogging_cmd, cmd_job = []\<rparr>, 5, 9),
     (\<lparr>cmd_no = 2, cmd_kind = EventQuery_cmd, cmd_job = []\<rparr>, 10, 12)]"]
  by (auto simp: timed_command_def)

end
