(* ===== verification/Ice_Job.thy ===== *)
theory Ice_Job
  imports Wms_Prelude "HOL-Library.Sublist"
begin

text \<open>
  Jobs of ICE, \<^verbatim>\<open>org.glite.wms.ice/src\<close>: the parser of URLs (\<^verbatim>\<open>iceUtils/Url.cpp\<close>), the class of a job with its
  change flags (\<^verbatim>\<open>iceUtils/CreamJob.h\<close>), the operations on the table of jobs (\<^verbatim>\<open>iceDb\<close>) and the choice
  of the event that is logged for a status (\<^verbatim>\<open>iceUtils/iceLBEventFactory.cpp\<close>).

  The class is generated from a table of its members; a member is a value of an enumeration here, and
  a job maps the members to their values. The table of the database has one row per grid job identifier, its
  primary key, and one column per member.
\<close>

section \<open>\<open>Url\<close>\<close>

text \<open>\<open>string::find\<close> from the beginning, \<open>None\<close> for \<open>npos\<close>.\<close>

primrec string_find :: "string \<Rightarrow> string \<Rightarrow> nat option" where
  "string_find pat [] = (if pat = [] then Some 0 else None)"
| "string_find pat (c # s) = (if prefix pat (c # s) then Some 0 else map_option Suc (string_find pat s))"

text \<open>\<open>atoi\<close>: blanks, a sign, and digits up to the first other character.\<close>

definition atoi :: "string \<Rightarrow> int" where
  "atoi s =
     (let t = dropWhile isspace_c s;
          minus = (t \<noteq> [] \<and> hd t = CHR ''-'');
          u = (if t \<noteq> [] \<and> hd t \<in> {CHR ''-'', CHR ''+''} then tl t else t);
          v = int (digits_value 10 (takeWhile isdigit_c u))
      in if minus then - v else v)"

record url =
  u_protocol :: string
  u_hostname :: string
  u_port :: int
  u_path :: string
  u_valid :: bool
  u_error :: string
  u_endpoint :: string

definition Url :: "string \<Rightarrow> url" where
  "Url s =
     (let blank = \<lparr>u_protocol = [], u_hostname = [], u_port = 0, u_path = [], u_valid = False, u_error = [], u_endpoint = []\<rparr>
      in case string_find ''://'' s of
        None \<Rightarrow> blank\<lparr>u_path := s, u_valid := True\<rparr>
      | Some protosep \<Rightarrow>
          let proto = take protosep s; address = drop (protosep + 3) s
          in if proto = ''file'' then blank\<lparr>u_protocol := proto, u_path := address, u_valid := True\<rparr>
             else
               let (path, endpoint) = (case string_find ''/'' address of
                     None \<Rightarrow> ([], address) | Some k \<Rightarrow> (drop (Suc k) address, take k address));
                   u = blank\<lparr>u_protocol := proto, u_path := path, u_endpoint := endpoint\<rparr>
               in case string_find '':'' endpoint of
                   None \<Rightarrow> u\<lparr>u_valid := True\<rparr>
                 | Some k \<Rightarrow>
                     let restport = drop (Suc k) endpoint; v = u\<lparr>u_hostname := take k endpoint\<rparr>
                     in if restport = []
                        then v\<lparr>u_error := ''Specified an empty TCP port in the address ['' @ s @
                          '']. Format must be schema://hostname[:tcpport] and tcpport must be full numeric in the range [2000-65535]''\<rparr>
                        else if atoi restport \<le> 0
                        then v\<lparr>u_port := atoi restport, u_error := ''Specified an zero or negative TCP port in the address ['' @ s @
                          '']. It must be in the range [1-65535]''\<rparr>
                        else v\<lparr>u_port := atoi restport, u_valid := True\<rparr>)"

section \<open>\<open>CreamJob\<close>\<close>

datatype cream_status = REGISTERED | PENDING | IDLE | RUNNING | REALLY_RUNNING | CANCELLED | HELD | ABORTED | DONE_OK | DONE_FAILED
  | PURGED | UNKNOWN

datatype text_field = Grid_jobid | Cream_jobid | Complete_cream_jobid | Jdl | Ceid | Endpoint | Cream_address | Cream_deleg_address
  | User_proxyfile | User_dn | Sequence_code | Delegation_id | Wn_sequence_code | Lease_id | Failure_reason | Worker_node
  | Myproxy_address | Modified_jdl | Token_file | Cancel_sequence_code

datatype num_field = Num_logged_status_changes | Last_seen | Status_poll_retry_count | Exit_code | Last_empty_notification_time
  | Isbproxy_time_end | Last_poller_visited | Cream_dbid

datatype flag_field = Killed_byice | Proxy_renewable

datatype status_field = Status | Prev_status

datatype job_field = TextF text_field | NumF num_field | FlagF flag_field | StatusF status_field

text \<open>The values of the members; a row of the table is such a value, too.\<close>

record job_row =
  r_text :: "text_field \<Rightarrow> string"
  r_num :: "num_field \<Rightarrow> int"
  r_flag :: "flag_field \<Rightarrow> bool"
  r_status :: "status_field \<Rightarrow> cream_status"

text \<open>\<open>j_changed\<close> is the set of the members whose flag \<open>m_changed_...\<close> is set.\<close>

record cream_job =
  j_row :: job_row
  j_changed :: "job_field set"

abbreviation text_of :: "cream_job \<Rightarrow> text_field \<Rightarrow> string" where
  "text_of j \<equiv> r_text (j_row j)"

abbreviation num_of :: "cream_job \<Rightarrow> num_field \<Rightarrow> int" where
  "num_of j \<equiv> r_num (j_row j)"

abbreviation flag_of :: "cream_job \<Rightarrow> flag_field \<Rightarrow> bool" where
  "flag_of j \<equiv> r_flag (j_row j)"

abbreviation status_of :: "cream_job \<Rightarrow> cream_status" where
  "status_of j \<equiv> r_status (j_row j) Status"

definition CreamJob_new :: cream_job where
  "CreamJob_new = \<lparr>j_row = \<lparr>r_text = (\<lambda>_. []), r_num = (\<lambda>_. 0), r_flag = (\<lambda>_. False), r_status = (\<lambda>_. UNKNOWN)\<rparr>, j_changed = UNIV\<rparr>"

definition set_text :: "text_field \<Rightarrow> string \<Rightarrow> cream_job \<Rightarrow> cream_job" where
  "set_text f v j = j\<lparr>j_row := (j_row j)\<lparr>r_text := (text_of j)(f := v)\<rparr>, j_changed := insert (TextF f) (j_changed j)\<rparr>"

definition set_num :: "num_field \<Rightarrow> int \<Rightarrow> cream_job \<Rightarrow> cream_job" where
  "set_num f v j = j\<lparr>j_row := (j_row j)\<lparr>r_num := (num_of j)(f := v)\<rparr>, j_changed := insert (NumF f) (j_changed j)\<rparr>"

definition set_flag :: "flag_field \<Rightarrow> bool \<Rightarrow> cream_job \<Rightarrow> cream_job" where
  "set_flag f v j = j\<lparr>j_row := (j_row j)\<lparr>r_flag := (flag_of j)(f := v)\<rparr>, j_changed := insert (FlagF f) (j_changed j)\<rparr>"

definition set_status :: "cream_status \<Rightarrow> cream_job \<Rightarrow> cream_job" where
  "set_status st j = j\<lparr>j_row := (j_row j)\<lparr>r_status := (\<lambda>f. case f of Status \<Rightarrow> st | Prev_status \<Rightarrow> status_of j)\<rparr>,
     j_changed := {StatusF Status, StatusF Prev_status} \<union> j_changed j\<rparr>"

definition reset_change_flags :: "cream_job \<Rightarrow> cream_job" where
  "reset_change_flags j = j\<lparr>j_changed := {}\<rparr>"

definition is_to_update :: "cream_job \<Rightarrow> bool" where
  "is_to_update j \<longleftrightarrow> j_changed j \<noteq> {}"

text \<open>\<open>boost::replace_all\<close>; an empty text to search for is not found.\<close>

fun replace_all :: "string \<Rightarrow> string \<Rightarrow> string \<Rightarrow> string" where
  "replace_all old new [] = []"
| "replace_all old new (c # s) =
     (if old \<noteq> [] \<and> prefix old (c # s) then new @ replace_all old new (drop (length old) (c # s))
      else c # replace_all old new s)"

text \<open>The complete identifier is the address of the CE without the postfix of the service, and the identifier.\<close>

definition set_cream_jobid :: "string \<Rightarrow> string \<Rightarrow> cream_job \<Rightarrow> cream_job" where
  "set_cream_jobid cream_url_postfix cid j =
     (let j1 = set_text Cream_jobid cid j;
          j2 = (if cid \<noteq> [] \<and> text_of j Cream_address \<noteq> []
                then set_text Complete_cream_jobid (replace_all cream_url_postfix [] (text_of j Cream_address) @ ''/'' @ cid) j1 else j1)
      in j2\<lparr>j_changed := insert (TextF Complete_cream_jobid) (j_changed j2)\<rparr>)"

text \<open>The descriptions follow the sequence code, but their flags are not set.\<close>

definition set_sequence_code :: "string \<Rightarrow> cream_job \<Rightarrow> cream_job" where
  "set_sequence_code seq j =
     (let old = text_of j Sequence_code
      in j\<lparr>j_row := (j_row j)\<lparr>r_text := (text_of j)(Sequence_code := seq, Jdl := replace_all old seq (text_of j Jdl),
              Modified_jdl := replace_all old seq (text_of j Modified_jdl))\<rparr>,
           j_changed := insert (TextF Sequence_code) (j_changed j)\<rparr>)"

definition set_failure_reason :: "string \<Rightarrow> cream_job \<Rightarrow> cream_job" where
  "set_failure_reason f = set_text Failure_reason (if f = [] then '' '' else f)"

definition is_active :: "cream_job \<Rightarrow> bool" where
  "is_active j \<longleftrightarrow> \<not> flag_of j Killed_byice \<and> status_of j \<in> {REGISTERED, PENDING, IDLE, RUNNING, REALLY_RUNNING, HELD}"

definition can_be_purged :: "cream_job \<Rightarrow> bool" where
  "can_be_purged j \<longleftrightarrow> status_of j \<in> {DONE_OK, CANCELLED, DONE_FAILED, ABORTED}"

definition describe :: "cream_job \<Rightarrow> string" where
  "describe j = ''GRIDJobID='' @ [CHR 0x22] @ text_of j Grid_jobid @ [CHR 0x22] @ '' CREAMJobID='' @ [CHR 0x22] @
     text_of j Complete_cream_jobid @ [CHR 0x22]"

text \<open>\<open>at(0)\<close> of an empty path throws \<open>out_of_range\<close>: \<open>None\<close>.\<close>

definition token_file :: "cream_job \<Rightarrow> string option" where
  "token_file j =
     (let u = Url (text_of j Token_file)
      in if \<not> u_valid u then Some (u_error u)
         else if u_path u = [] then None
         else if hd (u_path u) = CHR ''/'' then Some (u_path u)
         else Some (CHR ''/'' # u_path u))"

section \<open>The table of jobs\<close>

type_synonym jobs_table = "string \<rightharpoonup> job_row"

definition CreateJob :: "cream_job \<Rightarrow> jobs_table \<Rightarrow> jobs_table" where
  "CreateJob j t = t(text_of j Grid_jobid \<mapsto> j_row j)"

text \<open>The text of the update is made with the getters, so with \<open>token_file\<close> for that member. A row that is not there is not
  made.\<close>

definition update_row :: "cream_job \<Rightarrow> string \<Rightarrow> job_row \<Rightarrow> job_row" where
  "update_row j token r =
     \<lparr>r_text = (\<lambda>f. if TextF f \<in> j_changed j then (if f = Token_file then token else text_of j f) else r_text r f),
      r_num = (\<lambda>f. if NumF f \<in> j_changed j then num_of j f else r_num r f),
      r_flag = (\<lambda>f. if FlagF f \<in> j_changed j then flag_of j f else r_flag r f),
      r_status = (\<lambda>f. if StatusF f \<in> j_changed j then r_status (j_row j) f else r_status r f)\<rparr>"

definition UpdateJob :: "cream_job \<Rightarrow> jobs_table \<Rightarrow> jobs_table option" where
  "UpdateJob j t =
     (let token = (if TextF Token_file \<in> j_changed j then token_file j else Some [])
      in map_option (\<lambda>tok. t(text_of j Grid_jobid := map_option (update_row j tok) (t (text_of j Grid_jobid)))) token)"

definition RemoveJobByGid :: "string \<Rightarrow> jobs_table \<Rightarrow> jobs_table" where
  "RemoveJobByGid gid t = t(gid := None)"

definition GetJobByGid :: "string \<Rightarrow> jobs_table \<Rightarrow> cream_job option" where
  "GetJobByGid gid t = map_option (\<lambda>r. \<lparr>j_row = r, j_changed = {}\<rparr>) (t gid)"

text \<open>\<open>found\<close> is whether the identifier that was read is not empty.\<close>

definition CheckGridJobID :: "string \<Rightarrow> jobs_table \<Rightarrow> bool" where
  "CheckGridJobID gid t \<longleftrightarrow> t gid \<noteq> None \<and> gid \<noteq> []"

definition GetTerminatedJobs :: "string list \<Rightarrow> jobs_table \<Rightarrow> cream_job list" where
  "GetTerminatedJobs gids t = filter (\<lambda>j. status_of j \<in> {CANCELLED, DONE_OK, DONE_FAILED, ABORTED})
     (List.map_filter (\<lambda>g. GetJobByGid g t) gids)"

section \<open>Events for LB\<close>

datatype ice_event = Cream_transfer_start cream_job | Cream_transfer_ok cream_job | Cream_transfer_fail cream_job string
  | Cream_refused cream_job string | Cream_cancel_request cream_job string | Cream_cancel_refuse cream_job string
  | Job_running cream_job | Job_really_running cream_job | Job_cancelled cream_job | Job_aborted cream_job | Job_done_ok cream_job
  | Job_done_failed cream_job | Ns_enqueued_start cream_job string | Ns_enqueued_fail cream_job string string
  | Ns_enqueued_ok cream_job string | Ice_resubmission cream_job string | Wms_dequeued cream_job string
  | Job_suspended cream_job | Job_resumed cream_job

primrec event_job :: "ice_event \<Rightarrow> cream_job" where
  "event_job (Cream_transfer_start j) = j"
| "event_job (Cream_transfer_ok j) = j"
| "event_job (Cream_transfer_fail j r) = j"
| "event_job (Cream_refused j r) = j"
| "event_job (Cream_cancel_request j r) = j"
| "event_job (Cream_cancel_refuse j r) = j"
| "event_job (Job_running j) = j"
| "event_job (Job_really_running j) = j"
| "event_job (Job_cancelled j) = j"
| "event_job (Job_aborted j) = j"
| "event_job (Job_done_ok j) = j"
| "event_job (Job_done_failed j) = j"
| "event_job (Ns_enqueued_start j q) = j"
| "event_job (Ns_enqueued_fail j q r) = j"
| "event_job (Ns_enqueued_ok j q) = j"
| "event_job (Ice_resubmission j r) = j"
| "event_job (Wms_dequeued j q) = j"
| "event_job (Job_suspended j) = j"
| "event_job (Job_resumed j) = j"

definition mkEvent :: "cream_job \<Rightarrow> bool \<Rightarrow> ice_event option" where
  "mkEvent j force_donefailed = (case status_of j of
       RUNNING \<Rightarrow> Some (if r_status (j_row j) Prev_status = HELD then Job_resumed j else Job_running j)
     | REALLY_RUNNING \<Rightarrow> Some (Job_really_running j)
     | CANCELLED \<Rightarrow> Some (if flag_of j Killed_byice then Job_aborted j else Job_cancelled j)
     | HELD \<Rightarrow> Some (Job_suspended j)
     | ABORTED \<Rightarrow> Some (if force_donefailed then Job_done_failed j else Job_aborted j)
     | DONE_OK \<Rightarrow> Some (Job_done_ok j)
     | DONE_FAILED \<Rightarrow> Some (Job_done_failed j)
     | _ \<Rightarrow> None)"

end
