(* ===== verification/Ice_Cream.thy ===== *)
theory Ice_Cream
  imports Ice_Job "HOL-Library.AList"
begin

text \<open>
  What the commands of ICE share, \<^verbatim>\<open>org.glite.wms.ice/src/iceUtils\<close>: the list of the CEs that are not to be
  called (\<^verbatim>\<open>CEBlackList.cpp\<close>), the repeated call of a CREAM service (\<^verbatim>\<open>CreamProxyMethod.cpp\<close>), the logging of an
  event (\<^verbatim>\<open>iceLBLogger.cpp\<close>, \<^verbatim>\<open>IceLBContext.cpp\<close>), the proxies of the users with the number of the jobs that need
  them (\<^verbatim>\<open>DNProxyManager.cpp\<close>) and the delegations (\<^verbatim>\<open>DelegationManager.cpp\<close>), with the database operations of
  the last two (\<^verbatim>\<open>iceDb\<close>).

  The CREAM services, the clock, LB, the file system and the hash function are an argument, the
  environment; what they answer may depend on the calls and events that came before. The database engine
  accepts every statement, except an insertion that violates a key.
\<close>

section \<open>Environment and state\<close>

datatype cream_call = Call_register string string string string string | Call_start string string string
  | Call_cancel string string string | Call_purge string string string | Call_delegate string string string

text \<open>The classes of the exceptions of a call.\<close>

datatype fault_kind = ConnectionTimeoutException | GridProxyDelegationException | DelegationException | GenericException
  | OtherBaseException | InternalException | Auth_ex | Soap_ex | Other_exception

datatype register_result = Register_ok | Delegation_id_mismatch | Delegation_proxy_error | Lease_id_mismatch | Register_other

text \<open>\<open>a_failed\<close> lists the reasons of the jobs that the service refuses to start, cancel or purge.\<close>

record cream_answer =
  a_result :: register_result
  a_jobid :: string
  a_url :: string
  a_dbid :: string
  a_err :: string
  a_failed :: "string list"

datatype lb_code = Lb_ok | Lb_einval | Lb_gss | Lb_other

record ice_env =
  e_now :: "cream_call list \<Rightarrow> int"
  e_reply :: "cream_call list \<Rightarrow> cream_call \<Rightarrow> fault_kind \<times> string + cream_answer"
  e_is_base :: "fault_kind \<Rightarrow> bool"
  e_lb_enabled :: bool
  e_lb_setup :: "ice_event list \<Rightarrow> ice_event \<Rightarrow> bool"
  e_lb_code :: "ice_event list \<Rightarrow> ice_event \<Rightarrow> nat \<Rightarrow> lb_code"
  e_lb_host :: bool
  e_seqcode :: "ice_event list \<Rightarrow> ice_event \<Rightarrow> string option"
  e_copy :: "cream_call list \<Rightarrow> string \<Rightarrow> bool"
  e_hash :: "string \<Rightarrow> string"
  e_file_digest :: "string \<Rightarrow> string"
  e_new_id :: "cream_call list \<Rightarrow> string"
  e_proxy_end :: "string \<Rightarrow> int"
  e_proxy_error :: "string \<Rightarrow> string option"
  e_deliver :: "(string \<times> string) list \<Rightarrow> bool"
  c_noresubmit :: bool
  c_purge_jobs :: bool
  c_disable_deregister :: bool
  c_disable_purger :: bool
  c_wm_input :: string
  c_opcount_max :: nat
  c_blacklist_time :: int
  c_fail_job_blacklisted_ce :: bool
  c_lease_delta_time :: int
  c_proxy_renewal_frequency :: int
  c_cream_url_postfix :: string
  c_persist_dir :: string
  c_input :: string

record proxy_info =
  px_file :: string
  px_exptime :: int
  px_counter :: int

record table_entry =
  m_sha1_digest :: string
  m_cream_url :: string
  m_expiration_time :: int
  m_delegation_duration :: int
  m_delegation_id :: string
  m_user_dn :: string
  m_renewable :: bool
  m_myproxyserver :: string

record ice =
  i_jobs :: jobs_table
  i_proxies :: "((string \<times> string) \<times> proxy_info) list"
  i_delegations :: "table_entry list"
  i_stats :: "(int \<times> int \<times> cream_status) list"
  i_registered :: "(int \<times> string \<times> string \<times> string) list"
  i_blacklist :: "string \<rightharpoonup> int"
  i_opcount :: nat
  i_calls :: "cream_call list"
  i_lb :: "ice_event list"
  i_wm_input :: "(string \<times> string) list"
  i_deregistered :: "string list"
  i_storage_purged :: "string list"

definition now :: "ice_env \<Rightarrow> ice \<Rightarrow> int" where
  "now e s = e_now e (i_calls s)"

text \<open>\<open>i_wm_input\<close> holds the requests of a resubmission that were handed to the workload manager, a job with its
  sequence code; \<open>i_deregistered\<close> and \<open>i_storage_purged\<close> the jobs whose proxy renewal and whose storage were given up.
  \<open>Terminated\<close>: an exception that the specification of a function does not allow ends the program.\<close>

datatype ice_ex = Fatal_ex string | Transient_ex string | BlackListFailJob_ex string

datatype 'a ice_outcome = Result 'a | Throws ice_ex | Terminated

section \<open>\<open>CEBlackList\<close>\<close>

definition cleanup_blacklist :: "ice_env \<Rightarrow> bool \<Rightarrow> ice \<Rightarrow> ice" where
  "cleanup_blacklist e force s =
     (let s1 = s\<lparr>i_opcount := Suc (i_opcount s)\<rparr>
      in if c_opcount_max e < i_opcount s1 \<or> force
         then s1\<lparr>i_opcount := 0,
                i_blacklist := (\<lambda>ce. case i_blacklist s ce of None \<Rightarrow> None | Some t \<Rightarrow> if t < now e s then None else Some t)\<rparr>
         else s1)"

definition not_listed :: "ice_env \<Rightarrow> string \<Rightarrow> ice \<Rightarrow> bool" where
  "not_listed e endpoint s \<longleftrightarrow> (case i_blacklist s endpoint of None \<Rightarrow> True | Some t \<Rightarrow> t < now e s)"

definition blacklist_endpoint :: "ice_env \<Rightarrow> string \<Rightarrow> ice \<Rightarrow> ice" where
  "blacklist_endpoint e endpoint s =
     (let s1 = cleanup_blacklist e False s
      in if not_listed e endpoint s1
         then s1\<lparr>i_blacklist := (i_blacklist s1)(endpoint \<mapsto> now e s + c_blacklist_time e)\<rparr> else s1)"

definition is_blacklisted :: "ice_env \<Rightarrow> string \<Rightarrow> ice \<Rightarrow> bool \<times> ice" where
  "is_blacklisted e endpoint s = (let s1 = cleanup_blacklist e False s in (\<not> not_listed e endpoint s1, s1))"

section \<open>\<open>CreamProxyMethod::execute\<close>\<close>

datatype call_ex = Cream_fault fault_kind string | Blacklist_fail string

definition connection_text :: "string \<Rightarrow> bool" where
  "connection_text what \<longleftrightarrow> (\<exists>t\<in>{''Connection timed out'', ''No route to host'', ''Connection refused'',
     ''Connection reset by peer'', ''Network is unreachable''}. sublist t what)"

definition give_up :: "ice_env \<Rightarrow> string \<Rightarrow> fault_kind \<Rightarrow> string \<Rightarrow> ice \<Rightarrow> (call_ex + cream_answer) \<times> ice" where
  "give_up e service k what s =
     (Inl (if c_fail_job_blacklisted_ce e
           then Blacklist_fail (''The endpoint ['' @ service @ ''] is blacklisted and ICE if configured to abort the job'')
           else Cream_fault k what),
      blacklist_endpoint e service s)"

text \<open>The argument \<open>honor\<close> is \<^verbatim>\<open>m_honor_blacklist\<close>, which is true unless the caller passes false: the event query,
  the status poller and the renewal of the delegations do, and none of the callers modelled here.\<close>

definition service_blacklisted :: "ice_env \<Rightarrow> bool \<Rightarrow> string \<Rightarrow> ice \<Rightarrow> bool \<times> ice" where
  "service_blacklisted e honor service s = (if honor then is_blacklisted e service s else (False, s))"

lemma service_blacklisted_simps [simp]:
  "service_blacklisted e True service s = is_blacklisted e service s" "service_blacklisted e False service s = (False, s)"
  by (simp_all add: service_blacklisted_def)

text \<open>The third argument of \<open>method_tries\<close> is the number of tries that are left after this one.\<close>

fun method_tries :: "ice_env \<Rightarrow> bool \<Rightarrow> nat \<Rightarrow> cream_call \<Rightarrow> string \<Rightarrow> ice \<Rightarrow> (call_ex + cream_answer) \<times> ice" where
  "method_tries e honor n call service s =
     (let (listed, s1) = service_blacklisted e honor service s
      in if listed
         then (Inl (if c_fail_job_blacklisted_ce e
                    then Blacklist_fail (''The endpoint ['' @ service @ ''] is blacklisted and ICE is configured to abort the job'')
                    else Cream_fault ConnectionTimeoutException (''The endpoint ['' @ service @ ''] is blacklisted'')), s1)
         else
           let s2 = s1\<lparr>i_calls := i_calls s1 @ [call]\<rparr>
           in case e_reply e (i_calls s1) call of
               Inr a \<Rightarrow> (Inr a, s2)
             | Inl (k, what) \<Rightarrow>
                 (if k = ConnectionTimeoutException
                  then (case n of 0 \<Rightarrow> give_up e service k what s2 | Suc m \<Rightarrow> method_tries e honor m call service s2)
                  else if (e_is_base e k \<or> k = InternalException) \<and> connection_text what then give_up e service k what s2
                  else (Inl (Cream_fault k what), s2)))"

declare method_tries.simps [simp del]

definition CreamProxyMethod_execute :: "ice_env \<Rightarrow> bool \<Rightarrow> nat \<Rightarrow> cream_call \<Rightarrow> string \<Rightarrow> ice \<Rightarrow> (call_ex + cream_answer) \<times> ice" where
  "CreamProxyMethod_execute e honor ntries = method_tries e honor (ntries - 1)"

definition ex_what :: "call_ex \<Rightarrow> string" where
  "ex_what x = (case x of Cream_fault k what \<Rightarrow> what | Blacklist_fail what \<Rightarrow> what)"

section \<open>\<open>iceLBLogger::logEvent\<close>\<close>

text \<open>\<open>testCode\<close> after each call: an invalid argument ends the loop, a GSS error is tried once more with the host
  certificate, and any other error up to three times. The result is whether the event was logged, with
  the number of the calls.\<close>

definition el_s_retries :: nat where
  "el_s_retries = 3"

function log_tries :: "(nat \<Rightarrow> lb_code) \<Rightarrow> bool \<Rightarrow> nat \<Rightarrow> bool \<Rightarrow> nat \<Rightarrow> bool \<times> nat" where
  "log_tries code set_host el_count el_hostProxy k = (case code k of
       Lb_ok \<Rightarrow> (True, Suc k)
     | Lb_einval \<Rightarrow> (False, Suc k)
     | Lb_gss \<Rightarrow> (if el_hostProxy \<or> \<not> set_host then (False, Suc k) else log_tries code set_host el_count True (Suc k))
     | Lb_other \<Rightarrow> (if el_s_retries < Suc el_count then (False, Suc k) else log_tries code set_host (Suc el_count) el_hostProxy (Suc k)))"
  by pat_completeness auto
termination
  by (relation "measure (\<lambda>(code, set_host, el_count, el_hostProxy, k). (4 - el_count) + (if el_hostProxy then 0 else 1))") (auto simp: el_s_retries_def)

declare log_tries.simps [simp del]

definition set_new_code :: "bool \<Rightarrow> string \<Rightarrow> cream_job \<Rightarrow> cream_job" where
  "set_new_code use_cancel_sequence_code code j =
     (if use_cancel_sequence_code then set_text Cancel_sequence_code code j else set_sequence_code code j)"

text \<open>\<open>None\<close>: the text of the update cannot be made, and the exception, which the update may not throw, ends the program.\<close>

definition logEvent :: "ice_env \<Rightarrow> ice_event \<Rightarrow> bool \<Rightarrow> bool \<Rightarrow> ice \<Rightarrow> cream_job option \<times> ice" where
  "logEvent e ev use_cancel_sequence_code updatedb s =
     (let j = event_job ev
      in if \<not> e_lb_setup e (i_lb s) ev then (Some j, s)
         else
           let logged = e_lb_enabled e \<and> fst (log_tries (e_lb_code e (i_lb s) ev) (e_lb_host e) 0 False 0);
               s1 = (if logged then s\<lparr>i_lb := i_lb s @ [ev]\<rparr> else s)
           in case e_seqcode e (i_lb s) ev of
               None \<Rightarrow> (Some j, s1)
             | Some code \<Rightarrow>
                 let j1 = set_new_code use_cancel_sequence_code code j
                 in if updatedb then (case UpdateJob j1 (i_jobs s1) of
                        None \<Rightarrow> (None, s1)
                      | Some t \<Rightarrow> (Some (reset_change_flags j1), s1\<lparr>i_jobs := t\<rparr>))
                    else (Some (reset_change_flags j1), s1))"

section \<open>\<open>DNProxyManager\<close>\<close>

definition localProxy_path :: "ice_env \<Rightarrow> string \<Rightarrow> string" where
  "localProxy_path e dn = c_persist_dir e @ ''/'' @ e_hash e dn @ ''.proxy''"

definition make_betterproxy_path :: "ice_env \<Rightarrow> string \<Rightarrow> string \<Rightarrow> string" where
  "make_betterproxy_path e dn myproxy = c_persist_dir e @ ''/'' @ e_hash e (dn @ ''_'' @ myproxy) @ ''.betterproxy''"

text \<open>\<open>SELECT ... WHERE userdn= ... ORDER BY exptime DESC LIMIT 1\<close>.\<close>

fun longest_proxy :: "proxy_info list \<Rightarrow> proxy_info option" where
  "longest_proxy [] = None"
| "longest_proxy (p # ps) = (case longest_proxy ps of
       None \<Rightarrow> Some p
     | Some q \<Rightarrow> Some (if px_exptime p < px_exptime q then q else p))"

definition GetProxyInfoByDN :: "string \<Rightarrow> ice \<Rightarrow> proxy_info option" where
  "GetProxyInfoByDN dn s = longest_proxy (map snd (filter (\<lambda>p. fst (fst p) = dn) (i_proxies s)))"

definition GetProxyInfoByDN_MYProxy :: "string \<Rightarrow> string \<Rightarrow> ice \<Rightarrow> proxy_info option" where
  "GetProxyInfoByDN_MYProxy dn myproxy s = map_of (i_proxies s) (dn, myproxy)"

definition CreateProxyField :: "string \<Rightarrow> string \<Rightarrow> proxy_info \<Rightarrow> ice \<Rightarrow> ice" where
  "CreateProxyField dn myproxy p s = s\<lparr>i_proxies := AList.update (dn, myproxy) p (i_proxies s)\<rparr>"

definition RemoveProxyByDN :: "string \<Rightarrow> string \<Rightarrow> ice \<Rightarrow> ice" where
  "RemoveProxyByDN dn myproxy s = s\<lparr>i_proxies := AList.delete (dn, myproxy) (i_proxies s)\<rparr>"

definition UpdateProxyFieldsByDN :: "string \<Rightarrow> string \<Rightarrow> string \<Rightarrow> int \<Rightarrow> ice \<Rightarrow> ice" where
  "UpdateProxyFieldsByDN dn myproxy file exptime s = s\<lparr>i_proxies := map (\<lambda>(k, p). (k,
     if k = (dn, myproxy) then p\<lparr>px_file := file, px_exptime := exptime\<rparr> else p)) (i_proxies s)\<rparr>"

definition UpdateProxyCounterByDN :: "string \<Rightarrow> string \<Rightarrow> int \<Rightarrow> ice \<Rightarrow> ice" where
  "UpdateProxyCounterByDN dn myproxy counter s = s\<lparr>i_proxies := map (\<lambda>(k, p). (k,
     if k = (dn, myproxy) then p\<lparr>px_counter := counter\<rparr> else p)) (i_proxies s)\<rparr>"

definition setUserProxyIfLonger_Legacy :: "ice_env \<Rightarrow> string \<Rightarrow> string \<Rightarrow> int \<Rightarrow> ice \<Rightarrow> bool \<times> ice" where
  "setUserProxyIfLonger_Legacy e dn prx exptime s =
     (let local = localProxy_path e dn;
          store = (if e_copy e (i_calls s) prx
                   then (True, CreateProxyField dn [] \<lparr>px_file = local, px_exptime = exptime, px_counter = 0\<rparr> s) else (False, s))
      in case GetProxyInfoByDN dn s of
          None \<Rightarrow> store
        | Some p \<Rightarrow> if px_exptime p = 0 \<or> px_exptime p < exptime then store else (True, s))"

definition setBetterProxy :: "ice_env \<Rightarrow> string \<Rightarrow> string \<Rightarrow> string \<Rightarrow> int \<Rightarrow> int \<Rightarrow> ice \<Rightarrow> bool \<times> ice" where
  "setBetterProxy e dn proxyfile myproxyname proxy_time_end init_counter s =
     (if e_copy e (i_calls s) proxyfile
      then (True, CreateProxyField dn myproxyname
              \<lparr>px_file = make_betterproxy_path e dn myproxyname, px_exptime = proxy_time_end, px_counter = init_counter\<rparr> s)
      else (False, s))"

definition updateBetterProxy :: "ice_env \<Rightarrow> string \<Rightarrow> string \<Rightarrow> string \<Rightarrow> int \<Rightarrow> ice \<Rightarrow> bool \<times> ice" where
  "updateBetterProxy e dn myproxyname proxyfile exptime s =
     (if e_copy e (i_calls s) proxyfile
      then (True, UpdateProxyFieldsByDN dn myproxyname (make_betterproxy_path e dn myproxyname) exptime s)
      else (False, s))"

definition getAnyBetterProxyByDN :: "string \<Rightarrow> ice \<Rightarrow> proxy_info" where
  "getAnyBetterProxyByDN dn s = (case GetProxyInfoByDN dn s of
       None \<Rightarrow> \<lparr>px_file = [], px_exptime = 0, px_counter = 0\<rparr> | Some p \<Rightarrow> p)"

definition getExactBetterProxyByDN :: "string \<Rightarrow> string \<Rightarrow> ice \<Rightarrow> proxy_info" where
  "getExactBetterProxyByDN dn myproxyname s = (case GetProxyInfoByDN_MYProxy dn myproxyname s of
       None \<Rightarrow> \<lparr>px_file = [], px_exptime = 0, px_counter = 0\<rparr> | Some p \<Rightarrow> p)"

definition incrementUserProxyCounter :: "ice_env \<Rightarrow> cream_job \<Rightarrow> int \<Rightarrow> ice \<Rightarrow> bool \<times> ice" where
  "incrementUserProxyCounter e j proxy_time_end s =
     (case GetProxyInfoByDN_MYProxy (text_of j User_dn) (text_of j Myproxy_address) s of
        Some p \<Rightarrow> (True, UpdateProxyCounterByDN (text_of j User_dn) (text_of j Myproxy_address) (px_counter p + 1) s)
      | None \<Rightarrow> setBetterProxy e (text_of j User_dn) (text_of j User_proxyfile) (text_of j Myproxy_address) proxy_time_end 1 s)"

definition RemoveDelegationByDNMyProxy :: "string \<Rightarrow> string \<Rightarrow> ice \<Rightarrow> ice" where
  "RemoveDelegationByDNMyProxy dn myproxy s =
     s\<lparr>i_delegations := filter (\<lambda>d. \<not> (m_user_dn d = dn \<and> m_myproxyserver d = myproxy)) (i_delegations s)\<rparr>"

text \<open>When the counter was one, the proxy and the delegations of the user and the server go.\<close>

definition decrementUserProxyCounter :: "string \<Rightarrow> string \<Rightarrow> ice \<Rightarrow> ice" where
  "decrementUserProxyCounter dn myproxy s =
     (case GetProxyInfoByDN_MYProxy dn myproxy s of
        None \<Rightarrow> s
      | Some p \<Rightarrow>
          let s1 = UpdateProxyCounterByDN dn myproxy (px_counter p - 1) s
          in if px_counter p = 1 then RemoveDelegationByDNMyProxy dn myproxy (RemoveProxyByDN dn myproxy s1) else s1)"

section \<open>\<open>Delegation_manager\<close>\<close>

definition deleg_key :: "table_entry \<Rightarrow> string \<times> string \<times> string" where
  "deleg_key d = (m_sha1_digest d, m_cream_url d, m_myproxyserver d)"

text \<open>\<open>found\<close> is whether the digest that was read is not empty.\<close>

definition GetDelegation :: "string \<Rightarrow> string \<Rightarrow> string \<Rightarrow> ice \<Rightarrow> table_entry option" where
  "GetDelegation digest url myproxy s =
     (if digest = [] then None else find (\<lambda>d. deleg_key d = (digest, url, myproxy)) (i_delegations s))"

definition RemoveDelegation :: "string \<Rightarrow> string \<Rightarrow> string \<Rightarrow> ice \<Rightarrow> ice" where
  "RemoveDelegation digest url myproxy s =
     s\<lparr>i_delegations := filter (\<lambda>d. deleg_key d \<noteq> (digest, url, myproxy)) (i_delegations s)\<rparr>"

text \<open>The identifier is the primary key, and there is a unique index of the other key.\<close>

definition CreateDelegation :: "table_entry \<Rightarrow> ice \<Rightarrow> ice option" where
  "CreateDelegation d s =
     (if \<exists>d'\<in>set (i_delegations s). m_delegation_id d' = m_delegation_id d \<or> deleg_key d' = deleg_key d then None
      else Some (s\<lparr>i_delegations := i_delegations s @ [d]\<rparr>))"

definition CheckDelegationByID :: "string \<Rightarrow> ice \<Rightarrow> bool" where
  "CheckDelegationByID i s \<longleftrightarrow> i \<noteq> [] \<and> (\<exists>d\<in>set (i_delegations s). m_delegation_id d = i)"

text \<open>\<open>Inl\<close> is the text of the exception.\<close>

definition delegate :: "ice_env \<Rightarrow> cream_job \<Rightarrow> bool \<Rightarrow> bool \<Rightarrow> ice \<Rightarrow> (string + string) \<times> ice" where
  "delegate e j USE_NEW force s =
     (let digest = (if USE_NEW then text_of j User_dn else e_file_digest e (text_of j User_proxyfile));
          url = text_of j Cream_address; myproxy = text_of j Myproxy_address;
          found = GetDelegation digest url myproxy s;
          (found1, s1) = (if force \<and> found \<noteq> None then (None, RemoveDelegation digest url myproxy s) else (found, s))
      in case found1 of
          Some d \<Rightarrow> (Inr (m_delegation_id d), s1)
        | None \<Rightarrow>
            let new_id = e_new_id e (i_calls s1); duration = num_of j Isbproxy_time_end - now e s1;
                (r, s2) = CreamProxyMethod_execute e True 3
                  (Call_delegate (text_of j Cream_deleg_address) (text_of j User_proxyfile) new_id) (text_of j Cream_deleg_address) s1
            in case r of
                Inl x \<Rightarrow> (Inl (ex_what x), s2)
              | Inr a \<Rightarrow> (case CreateDelegation \<lparr>m_sha1_digest = digest, m_cream_url = url,
                    m_expiration_time = num_of j Isbproxy_time_end, m_delegation_duration = duration, m_delegation_id = new_id,
                    m_user_dn = text_of j User_dn, m_renewable = USE_NEW, m_myproxyserver = myproxy\<rparr> s2 of
                  None \<Rightarrow> (Inl ''Delegation failed: '', s2)
                | Some s3 \<Rightarrow> (Inr new_id, s3)))"

text \<open>An identifier that is not in the table ends the program: \<open>None\<close>. Errors of the call are ignored.\<close>

definition redelegate :: "ice_env \<Rightarrow> string \<Rightarrow> string \<Rightarrow> string \<Rightarrow> ice \<Rightarrow> ice option" where
  "redelegate e certfile delegation_url delegation_id s =
     (if CheckDelegationByID delegation_id s
      then Some (snd (CreamProxyMethod_execute e True 3 (Call_delegate delegation_url certfile delegation_id) delegation_url s)) else None)"

text \<open>The entry with an expiration time of zero stands for none.\<close>

definition getDelegation :: "string \<Rightarrow> string \<Rightarrow> string \<Rightarrow> ice \<Rightarrow> table_entry" where
  "getDelegation userdn ceurl myproxy s = (case GetDelegation userdn ceurl myproxy s of
       None \<Rightarrow> \<lparr>m_sha1_digest = [], m_cream_url = [], m_expiration_time = 0, m_delegation_duration = 0, m_delegation_id = [],
         m_user_dn = [], m_renewable = False, m_myproxyserver = []\<rparr>
     | Some d \<Rightarrow> d)"

end
