(* ===== verification/Ice_Submit.thy ===== *)
theory Ice_Submit
  imports Ice_Cream
begin

text \<open>
  The commands of ICE on a job, \<^verbatim>\<open>org.glite.wms.ice/src\<close>: \<open>resubmit_job\<close> of \<^verbatim>\<open>ice/IceCore.cpp\<close>, the submission
  (\<^verbatim>\<open>iceCommands/iceCommandSubmit.cpp\<close>: \<open>handle_delegation\<close>, \<open>register_job\<close>, \<open>process_result\<close>, \<open>try_to_submit\<close>, \<open>execute\<close>),
  the rescheduling (\<^verbatim>\<open>iceCommandReschedule.cpp\<close>) and the cancellation (\<^verbatim>\<open>iceCommandCancel.cpp\<close>).

  The loop around the registration need not end; it is a partial function, and \<open>None\<close> stands for no
  result. The function that makes a lease is commented out in the source, so the lease of a job stays empty.
\<close>

section \<open>\<open>resubmit_job\<close>\<close>

text \<open>The exception handler: the failure is logged, and the job is aborted.\<close>

definition resubmission_failed :: "ice_env \<Rightarrow> cream_job \<Rightarrow> string \<Rightarrow> ice \<Rightarrow> unit ice_outcome \<times> ice" where
  "resubmission_failed e j what s =
     (case logEvent e (Ns_enqueued_fail j (c_wm_input e) what) False True s of
        (None, s1) \<Rightarrow> (Terminated, s1)
      | (Some _, s1) \<Rightarrow> (case logEvent e (Job_aborted (set_failure_reason (''resubmission failed: '' @ what) j)) False True s1 of
            (None, s2) \<Rightarrow> (Terminated, s2)
          | (Some _, s2) \<Rightarrow> (Result (), s2)))"

definition cancel_code_used :: "cream_job \<Rightarrow> bool" where
  "cancel_code_used j \<longleftrightarrow> status_of j = CANCELLED \<and> text_of j Cancel_sequence_code \<noteq> []"

definition resubmit_job :: "ice_env \<Rightarrow> cream_job \<Rightarrow> string \<Rightarrow> ice \<Rightarrow> unit ice_outcome \<times> ice" where
  "resubmit_job e j reason s =
     (if c_noresubmit e then (Result (), s)
      else if e_proxy_end e (text_of j User_proxyfile) \<le> now e s + 300
      then (case logEvent e (Job_aborted j) (cancel_code_used j) True s of
              (None, s1) \<Rightarrow> (Terminated, s1) | (Some _, s1) \<Rightarrow> (Result (), s1))
      else case logEvent e (Ice_resubmission j reason) False True s of
          (None, s1) \<Rightarrow> (Terminated, s1)
        | (Some j1, s1) \<Rightarrow> (case logEvent e (Ns_enqueued_start j1 (c_wm_input e)) False True s1 of
            (None, s2) \<Rightarrow> (Terminated, s2)
          | (Some j2, s2) \<Rightarrow>
              if e_deliver e (i_wm_input s2)
              then let s3 = s2\<lparr>i_wm_input := i_wm_input s2 @ [(text_of j2 Grid_jobid, text_of j2 Sequence_code)]\<rparr>
                   in (case logEvent e (Ns_enqueued_ok j2 (c_wm_input e)) False True s3 of
                         (None, s4) \<Rightarrow> (Terminated, s4)
                       | (Some _, s4) \<Rightarrow> (Result (), s4))
              else resubmission_failed e j2 ''cannot create file'' s2))"

section \<open>Registration\<close>

definition handle_delegation :: "ice_env \<Rightarrow> cream_job \<Rightarrow> bool \<Rightarrow> ice \<Rightarrow> ((string \<times> bool) ice_outcome) \<times> ice" where
  "handle_delegation e j force s =
     (let dn = text_of j User_dn; my = text_of j Myproxy_address;
          (force1, s1) =
            (if flag_of j Proxy_renewable
             then let SBP = getExactBetterProxyByDN dn my s
               in if px_file SBP = []
                  then (True, snd (setBetterProxy e dn (text_of j User_proxyfile) my (num_of j Isbproxy_time_end) 0 s))
                  else
                    let s' = (if px_exptime SBP < num_of j Isbproxy_time_end
                              then snd (updateBetterProxy e dn my (text_of j User_proxyfile) (num_of j Isbproxy_time_end) s) else s);
                        deleg = getDelegation dn (text_of j Cream_address) my s'
                    in (force \<or> m_expiration_time deleg < now e s' + 2 * c_proxy_renewal_frequency e, s')
             else (force, s));
          (r, s2) = delegate e j (flag_of j Proxy_renewable) force1 s1
      in case r of
          Inl what \<Rightarrow> (Throws (Transient_ex (''Failed to create a delegation id for job '' @ text_of j Grid_jobid @ '': reason is '' @ what)), s2)
        | Inr i \<Rightarrow> (Result (i, force1), s2))"

text \<open>What the registration gives: an answer of the service, or another turn of the loop with the two force flags.\<close>

datatype register_step = Answered cream_answer | Again bool bool

definition register_job :: "ice_env \<Rightarrow> cream_job \<Rightarrow> string \<Rightarrow> bool \<Rightarrow> bool \<Rightarrow> bool \<Rightarrow> ice \<Rightarrow> register_step ice_outcome \<times> ice" where
  "register_job e j delegation lease_enabled force_delegation force_lease s =
     (let (r, s1) = CreamProxyMethod_execute e True 3 (Call_register (text_of j Cream_address) (text_of j User_proxyfile)
            (text_of j Modified_jdl) delegation []) (text_of j Cream_address) s
      in case r of
          Inr a \<Rightarrow> (Result (Answered a), s1)
        | Inl (Blacklist_fail what) \<Rightarrow> (Throws (BlackListFailJob_ex what), s1)
        | Inl (Cream_fault k what) \<Rightarrow>
            (if k = GridProxyDelegationException
             then (case redelegate e (text_of j User_proxyfile) (text_of j Cream_deleg_address) delegation s1 of
                     None \<Rightarrow> (Terminated, s1) | Some s2 \<Rightarrow> (Result (Again force_delegation force_lease), s2))
             else if k = DelegationException
             then (if \<not> force_delegation then (Result (Again True force_lease), s1)
                   else (Throws (Transient_ex (''CREAM Register raised DelegationException '' @ what)), s1))
             else if k = GenericException
             then (if lease_enabled \<and> \<not> force_lease then (Result (Again force_delegation True), s1)
                   else (Throws (Transient_ex (''CREAM Register raised GenericFault '' @ what)), s1))
             else if e_is_base e k then (Throws (Transient_ex (''CREAM Register raised std::exception '' @ what)), s1)
             else (Throws (Transient_ex ''Unknown exception catched''), s1)))"

definition quoted :: "string \<Rightarrow> string" where
  "quoted s = [CHR 0x22] @ s @ [CHR 0x22]"

definition process_result :: "cream_answer \<Rightarrow> bool \<Rightarrow> bool \<Rightarrow> bool \<Rightarrow> register_step ice_outcome" where
  "process_result a lease_enabled force_delegation force_lease = (case a_result a of
       Register_ok \<Rightarrow> Result (Answered a)
     | Lease_id_mismatch \<Rightarrow> (if lease_enabled \<and> \<not> force_lease then Result (Again force_delegation True)
         else Throws (Transient_ex (''CREAM Register returned lease id mismatch '' @ quoted (a_err a))))
     | Register_other \<Rightarrow> Throws (Transient_ex (''CREAM Register returned error '' @ quoted (a_err a)))
     | _ \<Rightarrow> (if \<not> force_delegation then Result (Again True force_lease)
         else Throws (Transient_ex (''CREAM Register returned delegation error '' @ quoted (a_err a)))))"

text \<open>One turn: the delegation with the step to take.\<close>

definition register_turn :: "ice_env \<Rightarrow> cream_job \<Rightarrow> bool \<Rightarrow> bool \<Rightarrow> ice \<Rightarrow> (string \<times> register_step) ice_outcome \<times> ice" where
  "register_turn e j force_delegation force_lease s =
     (let lease_enabled = (0 < c_lease_delta_time e); (d, s1) = handle_delegation e j force_delegation s
      in case d of
          Throws x \<Rightarrow> (Throws x, s1)
        | Terminated \<Rightarrow> (Terminated, s1)
        | Result (delegation, force1) \<Rightarrow>
            (let (r, s2) = register_job e j delegation lease_enabled force1 force_lease s1
             in case r of
                 Throws x \<Rightarrow> (Throws x, s2)
               | Terminated \<Rightarrow> (Terminated, s2)
               | Result (Again fd fl) \<Rightarrow> (Result (delegation, Again fd fl), s2)
               | Result (Answered a) \<Rightarrow> (case process_result a lease_enabled force1 force_lease of
                     Throws x \<Rightarrow> (Throws x, s2)
                   | Terminated \<Rightarrow> (Terminated, s2)
                   | Result st \<Rightarrow> (Result (delegation, st), s2))))"

partial_function (option) register_loop :: "ice_env \<Rightarrow> cream_job \<Rightarrow> bool \<Rightarrow> bool \<Rightarrow> ice \<Rightarrow> ((string \<times> cream_answer) ice_outcome \<times> ice) option" where
  "register_loop e j force_delegation force_lease s = (case register_turn e j force_delegation force_lease s of
       (Throws x, s1) \<Rightarrow> Some (Throws x, s1)
     | (Terminated, s1) \<Rightarrow> Some (Terminated, s1)
     | (Result (delegation, Answered a), s1) \<Rightarrow> Some (Result (delegation, a), s1)
     | (Result (delegation, Again fd fl), s1) \<Rightarrow> register_loop e j fd fl s1)"

declare register_loop.simps [code]

section \<open>\<open>try_to_submit\<close>\<close>

definition strtoull :: "string \<Rightarrow> int" where
  "strtoull s =
     (let t = dropWhile isspace_c s;
          minus = (t \<noteq> [] \<and> hd t = CHR ''-'');
          u = (if t \<noteq> [] \<and> hd t \<in> {CHR ''-'', CHR ''+''} then tl t else t);
          v = min (int (digits_value 10 (takeWhile isdigit_c u))) (2 ^ 64 - 1)
      in if minus then - v mod 2 ^ 64 else v)"

text \<open>The assignment of an \<open>unsigned long long\<close> to a \<open>string\<close> assigns one character, the lowest byte; \<open>c_str\<close> ends at a null.\<close>

definition assign_number :: "int \<Rightarrow> string" where
  "assign_number n = (let c = char_of (nat (n mod 256)) in if c = CHR 0x00 then [] else [c])"

text \<open>The result of a part of the command: how it ended, the job of the command and the state.\<close>

type_synonym 'a job_outcome = "'a ice_outcome \<times> cream_job \<times> ice"

definition log_then :: "ice_env \<Rightarrow> ice_event \<Rightarrow> bool \<Rightarrow> ice \<Rightarrow> (cream_job \<Rightarrow> ice \<Rightarrow> 'a job_outcome) \<Rightarrow> 'a job_outcome" where
  "log_then e ev updatedb s k = (case logEvent e ev False updatedb s of
       (None, s1) \<Rightarrow> (Terminated, event_job ev, s1) | (Some j, s1) \<Rightarrow> k j s1)"

definition update_then :: "cream_job \<Rightarrow> cream_job \<Rightarrow> ice \<Rightarrow> (ice \<Rightarrow> 'a job_outcome) \<Rightarrow> 'a job_outcome" where
  "update_then j' j s k = (case UpdateJob j' (i_jobs s) of None \<Rightarrow> (Terminated, j, s) | Some t \<Rightarrow> k (s\<lparr>i_jobs := t\<rparr>))"

text \<open>What is known of the registered job: identifier, address and database identifier of the service.\<close>

record started =
  st_jobid :: string
  st_url :: string
  st_dbid :: string

definition registered :: "ice_env \<Rightarrow> cream_job \<Rightarrow> string \<Rightarrow> cream_answer \<Rightarrow> ice \<Rightarrow> started job_outcome" where
  "registered e j delegation a s =
     (let j1 = set_text Lease_id [] (set_text Delegation_id delegation j);
          s1 = s\<lparr>i_registered := i_registered s @ [(now e s, a_url a, text_of j Grid_jobid, a_jobid a)]\<rparr>;
          j2 = set_num Cream_dbid (strtoull (a_dbid a)) (set_status REGISTERED j1);
          j3 = set_text Complete_cream_jobid (replace_all (c_cream_url_postfix e) [] (a_url a) @ ''/'' @ a_jobid a) j2;
          j4 = set_cream_jobid (c_cream_url_postfix e) (a_jobid a) j3
      in update_then j4 j4 s1 (\<lambda>s2. (Result \<lparr>st_jobid = a_jobid a, st_url = a_url a, st_dbid = a_dbid a\<rparr>, reset_change_flags j4, s2)))"

definition register_new :: "ice_env \<Rightarrow> cream_job \<Rightarrow> ice \<Rightarrow> started job_outcome option" where
  "register_new e j s = (case logEvent e (Wms_dequeued j (c_input e)) False True s of
       (None, s1) \<Rightarrow> Some (Terminated, j, s1)
     | (Some j1, s1) \<Rightarrow> (case logEvent e (Cream_transfer_start j1) False True s1 of
         (None, s2) \<Rightarrow> Some (Terminated, j1, s2)
       | (Some j2, s2) \<Rightarrow> map_option (\<lambda>(r, s3). case r of
             Throws x \<Rightarrow> (Throws x, j2, s3)
           | Terminated \<Rightarrow> (Terminated, j2, s3)
           | Result (delegation, a) \<Rightarrow> registered e j2 delegation a s3) (register_loop e j2 False False s2)))"

text \<open>The job was registered by an earlier run: what is needed is read from the database.\<close>

definition read_registered :: "cream_job \<Rightarrow> ice \<Rightarrow> started" where
  "read_registered j s = (case GetJobByGid (text_of j Grid_jobid) (i_jobs s) of
       None \<Rightarrow> \<lparr>st_jobid = [], st_url = [], st_dbid = []\<rparr>
     | Some tmp \<Rightarrow> \<lparr>st_jobid = text_of tmp Cream_jobid, st_url = text_of tmp Cream_address, st_dbid = assign_number (num_of tmp Cream_dbid)\<rparr>)"

text \<open>From the call that starts the job to the end. The last update executes the object of the update before it.\<close>

definition start_registered :: "ice_env \<Rightarrow> cream_job \<Rightarrow> started \<Rightarrow> ice \<Rightarrow> unit job_outcome" where
  "start_registered e j st s =
     (let s1 = s\<lparr>i_stats := i_stats s @ [(now e s, now e s, REGISTERED)]\<rparr>;
          (r, s2) = CreamProxyMethod_execute e True 7 (Call_start (st_url st) (text_of j User_proxyfile) (st_jobid st)) (st_url st) s1
      in case r of
          Inl x \<Rightarrow> (Throws (Transient_ex (''CREAM Start raised exception '' @ ex_what x)), j, s2)
        | Inr a \<Rightarrow> (case a_failed a of
              errMex # _ \<Rightarrow> (Throws (Transient_ex (''CREAM Start failed due to error '' @ errMex)), j, s2)
            | [] \<Rightarrow>
                let s3 = s2\<lparr>i_stats := i_stats s2 @ [(now e s2, now e s2, IDLE)]\<rparr>;
                    j1 = set_status IDLE (set_cream_jobid (c_cream_url_postfix e) (st_jobid st) j);
                    j2 = set_num Cream_dbid (strtoull (st_dbid st)) (set_text Wn_sequence_code (text_of j1 Sequence_code) j1)
                in update_then j2 j2 s3 (\<lambda>s4. log_then e (Cream_transfer_ok (reset_change_flags j2)) True s4 (\<lambda>j3 s5.
                     let j4 = set_num Last_seen (now e s5) j3
                     in update_then j2 j4 s5 (\<lambda>s6. (Result (), j4, s6))))))"

definition try_to_submit :: "ice_env \<Rightarrow> bool \<Rightarrow> cream_job \<Rightarrow> ice \<Rightarrow> unit job_outcome option" where
  "try_to_submit e only_start j s =
     (if num_of j Isbproxy_time_end \<le> now e s
      then Some (Throws (Transient_ex (''Authentication error: proxyfile ['' @ text_of j User_proxyfile @
             ''] is expired! Skipping submission of the job ['' @ text_of j Grid_jobid @ '']'')), j, s)
      else if only_start then Some (start_registered e j (read_registered j s) s)
      else map_option (\<lambda>(r, j1, s1). case r of
             Throws x \<Rightarrow> (Throws x, j1, s1)
           | Terminated \<Rightarrow> (Terminated, j1, s1)
           | Result st \<Rightarrow> start_registered e j1 st s1) (register_new e j s))"

section \<open>\<open>iceCommandSubmit::execute\<close>\<close>

text \<open>Before the submission: what to do with a job that the database has, and the entry of a new one.\<close>

datatype known_job = New_job | Only_start | Already_submitted

definition look_up :: "cream_job \<Rightarrow> ice \<Rightarrow> known_job \<times> ice" where
  "look_up j s = (case GetJobByGid (text_of j Grid_jobid) (i_jobs s) of
       None \<Rightarrow> (New_job, s)
     | Some tmp \<Rightarrow> (case status_of tmp of
           UNKNOWN \<Rightarrow> (New_job, s\<lparr>i_jobs := RemoveJobByGid (text_of j Grid_jobid) (i_jobs s)\<rparr>)
         | REGISTERED \<Rightarrow> (Only_start, s)
         | _ \<Rightarrow> (Already_submitted, s)))"

definition enter_job :: "ice_env \<Rightarrow> cream_job \<Rightarrow> ice \<Rightarrow> ice" where
  "enter_job e j s =
     (let s1 = s\<lparr>i_jobs := CreateJob j (i_jobs s)\<rparr>
      in if flag_of j Proxy_renewable then snd (incrementUserProxyCounter e j (num_of j Isbproxy_time_end) s1)
         else snd (setUserProxyIfLonger_Legacy e (text_of j User_dn) (text_of j User_proxyfile) (num_of j Isbproxy_time_end) s1))"

definition release_proxy :: "cream_job \<Rightarrow> ice \<Rightarrow> ice" where
  "release_proxy j s = (if flag_of j Proxy_renewable then decrementUserProxyCounter (text_of j User_dn) (text_of j Myproxy_address) s else s)"

definition remove_job :: "string \<Rightarrow> ice \<Rightarrow> ice" where
  "remove_job gid s = s\<lparr>i_jobs := RemoveJobByGid gid (i_jobs s)\<rparr>"

text \<open>The handlers of the exceptions of \<open>try_to_submit\<close>, with the removal of the job at the end of the scope.\<close>

definition fatal_handler :: "ice_env \<Rightarrow> string \<Rightarrow> cream_job \<Rightarrow> ice \<Rightarrow> unit ice_outcome \<times> ice" where
  "fatal_handler e what j s =
     (case logEvent e (Cream_transfer_fail j (''Transfer to CREAM failed due to exception: '' @ what)) False True s of
        (None, s1) \<Rightarrow> (Terminated, s1)
      | (Some j1, s1) \<Rightarrow>
          let reason = ''Transfer to CREAM ['' @ text_of j1 Cream_address @ ''] failed due to exception: '' @ what
          in (case logEvent e (Job_aborted (set_failure_reason reason j1)) False False s1 of
                (None, s2) \<Rightarrow> (Terminated, s2)
              | (Some j2, s2) \<Rightarrow> (Throws (Fatal_ex reason), remove_job (text_of j Grid_jobid) (release_proxy j2 s2))))"

definition transient_handler :: "ice_env \<Rightarrow> string \<Rightarrow> cream_job \<Rightarrow> ice \<Rightarrow> unit ice_outcome \<times> ice" where
  "transient_handler e what j s =
     (case logEvent e (Cream_transfer_fail (set_failure_reason (''Transfer to CREAM failed due to exception: '' @ what) j) what) False False s of
        (None, s1) \<Rightarrow> (Terminated, s1)
      | (Some j1, s1) \<Rightarrow> (case logEvent e (Job_done_failed j1) False False s1 of
            (None, s2) \<Rightarrow> (Terminated, s2)
          | (Some j2, s2) \<Rightarrow> (case resubmit_job e j2 (''Resubmitting because of exception '' @ what @ '' CEUrl ['' @ text_of j2 Cream_address @ '']'') s2 of
                (Result _, s3) \<Rightarrow> (Throws (Fatal_ex (''Error submitting job to CE ['' @ text_of j2 Cream_address @ '']: '' @ what)),
                   remove_job (text_of j Grid_jobid) (release_proxy j2 s3))
              | (Throws x, s3) \<Rightarrow> (Terminated, s3)
              | (Terminated, s3) \<Rightarrow> (Terminated, s3))))"

definition blacklist_handler :: "ice_env \<Rightarrow> cream_job \<Rightarrow> ice \<Rightarrow> unit ice_outcome \<times> ice" where
  "blacklist_handler e j s =
     (let j1 = set_status ABORTED (set_failure_reason (''Job scheduled to the blacklisted CE ['' @ text_of j Cream_address @
            ''] will be aborted immediately as specified in the WMS configuration'') j)
      in case mkEvent j1 False of
          None \<Rightarrow> (Result (), s)
        | Some ev \<Rightarrow> (case logEvent e ev False False s of (None, s1) \<Rightarrow> (Terminated, s1) | (Some _, s1) \<Rightarrow> (Result (), s1)))"

definition submit_execute :: "ice_env \<Rightarrow> cream_job \<Rightarrow> ice \<Rightarrow> (unit ice_outcome \<times> ice) option" where
  "submit_execute e j s =
     (let (known, s1) = look_up j s;
          (j1, s2) = (if known = New_job then (reset_change_flags j, enter_job e j s1) else (j, s1))
      in if known = Already_submitted then Some (Result (), s1)
         else map_option (\<lambda>(r, j2, s3). case r of
             Result _ \<Rightarrow> (Result (), s3)
           | Throws (Fatal_ex what) \<Rightarrow> fatal_handler e what j2 s3
           | Throws (Transient_ex what) \<Rightarrow> transient_handler e what j2 s3
           | Throws (BlackListFailJob_ex what) \<Rightarrow> blacklist_handler e j2 s3
           | Terminated \<Rightarrow> (Terminated, s3)) (try_to_submit e (known = Only_start) j1 s2))"

section \<open>\<open>iceCommandReschedule::execute\<close>\<close>

text \<open>\<open>exists_file\<close> is the file system. The token of the job may not have a path.\<close>

definition reschedule_execute :: "ice_env \<Rightarrow> (string \<Rightarrow> bool) \<Rightarrow> cream_job \<Rightarrow> ice \<Rightarrow> (unit ice_outcome \<times> ice) option" where
  "reschedule_execute e exists_file j s = (case token_file j of
       None \<Rightarrow> Some (Terminated, s)
     | Some token \<Rightarrow>
         if \<not> exists_file token then Some (Result (), s)
         else submit_execute e j (release_proxy j (remove_job (text_of j Grid_jobid) s)))"

section \<open>\<open>iceCommandCancel::execute\<close>\<close>

definition cancel_execute :: "ice_env \<Rightarrow> string \<Rightarrow> string \<Rightarrow> ice \<Rightarrow> unit ice_outcome \<times> ice" where
  "cancel_execute e gid seq_code s = (case GetJobByGid gid (i_jobs s) of
       None \<Rightarrow> (Throws (Fatal_ex (''ICE cannot cancel job with grid job id=['' @ gid @ ''], as the job does not appear to exist'')), s)
     | Some j0 \<Rightarrow>
         let j1 = set_text Cancel_sequence_code seq_code j0
         in case UpdateJob j1 (i_jobs s) of
             None \<Rightarrow> (Terminated, s)
           | Some t \<Rightarrow> (case logEvent e (Cream_cancel_request j1 ''Cancel request issued by user'') True True (s\<lparr>i_jobs := t\<rparr>) of
               (None, s1) \<Rightarrow> (Terminated, s1)
             | (Some j2, s1) \<Rightarrow>
                 let better = px_file (getAnyBetterProxyByDN (text_of j2 User_dn) s1);
                     proxy = (if better = [] then text_of j2 User_proxyfile else better);
                     refuse = (\<lambda>what x jr sr. case logEvent e (Cream_cancel_refuse jr what) True True sr of
                       (None, s') \<Rightarrow> (Terminated, s') | (Some _, s') \<Rightarrow> (Throws x, s'))
                 in case e_proxy_error e proxy of
                      Some what \<Rightarrow> refuse (''Authentication Exception: '' @ what) (Fatal_ex (''auth_ex: '' @ what)) j2 s1
                    | None \<Rightarrow>
                      let j3 = set_failure_reason ''Aborted by user'' j2
                      in case UpdateJob j3 (i_jobs s1) of
                          None \<Rightarrow> (Terminated, s1)
                        | Some t1 \<Rightarrow>
                            let j4 = reset_change_flags j3;
                                (r, s2) = CreamProxyMethod_execute e True 3 (Call_cancel (text_of j4 Cream_address) proxy (text_of j4 Cream_jobid))
                                  (text_of j4 Cream_address) (s1\<lparr>i_jobs := t1\<rparr>)
                            in case r of
                                Inr a \<Rightarrow> (case a_failed a of
                                    [] \<Rightarrow> (Result (), s2)
                                  | err # _ \<Rightarrow>
                                      let errMex = ''Cancellation of the Job ['' @ describe j4 @ ''] failed: ['' @ err @ '']''
                                      in refuse (''Error: '' @ errMex) (Fatal_ex errMex) j4 s2)
                              | Inl (Blacklist_fail what) \<Rightarrow> (Terminated, s2)
                              | Inl (Cream_fault k what) \<Rightarrow>
                                  (if k = Auth_ex then refuse (''Authentication Exception: '' @ what) (Fatal_ex (''auth_ex: '' @ what)) j4 s2
                                   else if k = Soap_ex then refuse (''SOAP Exception: '' @ what) (Transient_ex (''soap_ex: '' @ what)) j4 s2
                                   else if e_is_base e k then refuse (''BaseException: '' @ what) (Fatal_ex (''BaseException: '' @ what)) j4 s2
                                   else if k = InternalException then refuse (''InternalException: '' @ what) (Fatal_ex (''InternalException: '' @ what)) j4 s2
                                   else if k = ConnectionTimeoutException
                                   then (Throws (Transient_ex (''CREAM Cancel raised a ConnectionTimeoutException '' @ what)), s2)
                                   else (Terminated, s2))))"

end
