(* ===== verification/Ice_Cream_Props.thy ===== *)
theory Ice_Cream_Props
  imports Ice_Cream
begin

text \<open>
  The services that the commands of ICE share: the list of CEs answers as one that is never purged, a CE is called a
  bounded number of times and not at all while it is on the list, an event is logged with a bounded
  number of calls, and the frame lemmas of the proxies, delegations and events that the proofs on the commands use.
\<close>

section \<open>Frames\<close>

text \<open>The parts of the state that the calls of CREAM and the list of CEs leave alone.\<close>

definition same_tables :: "ice \<Rightarrow> ice \<Rightarrow> bool" where
  "same_tables s s' \<longleftrightarrow> i_jobs s' = i_jobs s \<and> i_proxies s' = i_proxies s \<and> i_delegations s' = i_delegations s \<and> i_stats s' = i_stats s \<and>
     i_registered s' = i_registered s \<and> i_lb s' = i_lb s \<and> i_wm_input s' = i_wm_input s \<and>
     i_deregistered s' = i_deregistered s \<and> i_storage_purged s' = i_storage_purged s"

lemma same_tables_refl [simp]: "same_tables s s"
  by (simp add: same_tables_def)

lemma same_tables_trans [trans]: "same_tables s t \<Longrightarrow> same_tables t u \<Longrightarrow> same_tables s u"
  by (simp add: same_tables_def)

lemma cleanup_frame: "same_tables s (cleanup_blacklist e b s)" "i_calls (cleanup_blacklist e b s) = i_calls s"
  by (simp_all add: same_tables_def cleanup_blacklist_def Let_def)

lemma is_blacklisted_frame: "same_tables s (snd (is_blacklisted e ce s))" "i_calls (snd (is_blacklisted e ce s)) = i_calls s"
  using cleanup_frame [where s = s and e = e and b = False] by (simp_all add: is_blacklisted_def Let_def)

lemma blacklist_endpoint_frame: "same_tables s (blacklist_endpoint e ce s)" "i_calls (blacklist_endpoint e ce s) = i_calls s"
  using cleanup_frame [where s = s and e = e and b = False] by (simp_all add: same_tables_def blacklist_endpoint_def Let_def)

lemma give_up_frame: "same_tables s (snd (give_up e service k what s))" "i_calls (snd (give_up e service k what s)) = i_calls s"
  using blacklist_endpoint_frame by (simp_all add: give_up_def)

section \<open>The list of the CEs\<close>

text \<open>The reference: the same operations on a list from which nothing is removed.\<close>

definition listed_at :: "int \<Rightarrow> string \<Rightarrow> (string \<rightharpoonup> int) \<Rightarrow> bool" where
  "listed_at t ce m \<longleftrightarrow> (case m ce of None \<Rightarrow> False | Some u \<Rightarrow> t \<le> u)"

datatype blacklist_op = Query string | Blacklist string

primrec plain_op :: "int \<Rightarrow> int \<Rightarrow> blacklist_op \<Rightarrow> (string \<rightharpoonup> int) \<Rightarrow> bool \<times> (string \<rightharpoonup> int)" where
  "plain_op duration t (Query ce) m = (listed_at t ce m, m)"
| "plain_op duration t (Blacklist ce) m = (True, if listed_at t ce m then m else m(ce \<mapsto> t + duration))"

primrec lazy_op :: "ice_env \<Rightarrow> int \<Rightarrow> blacklist_op \<Rightarrow> ice \<Rightarrow> bool \<times> ice" where
  "lazy_op e t (Query ce) s = is_blacklisted (e\<lparr>e_now := \<lambda>_. t\<rparr>) ce s"
| "lazy_op e t (Blacklist ce) s = (True, blacklist_endpoint (e\<lparr>e_now := \<lambda>_. t\<rparr>) ce s)"

text \<open>The answers of a sequence of operations at given times.\<close>

fun plain_run :: "int \<Rightarrow> (int \<times> blacklist_op) list \<Rightarrow> (string \<rightharpoonup> int) \<Rightarrow> bool list" where
  "plain_run duration [] m = []"
| "plain_run duration ((t, x) # xs) m = (let (b, m') = plain_op duration t x m in b # plain_run duration xs m')"

fun lazy_run :: "ice_env \<Rightarrow> (int \<times> blacklist_op) list \<Rightarrow> ice \<Rightarrow> bool list" where
  "lazy_run e [] s = []"
| "lazy_run e ((t, x) # xs) s = (let (b, s') = lazy_op e t x s in b # lazy_run e xs s')"

definition purged_of :: "int \<Rightarrow> (string \<rightharpoonup> int) \<Rightarrow> (string \<rightharpoonup> int) \<Rightarrow> bool" where
  "purged_of t m m' \<longleftrightarrow> (\<forall>ce. m' ce = m ce \<or> m' ce = None \<and> \<not> listed_at t ce m)"

lemma listed_at_other [simp]: "d \<noteq> ce \<Longrightarrow> listed_at t d (m(ce \<mapsto> u)) = listed_at t d m"
  by (simp add: listed_at_def)

lemma listed_later: "listed_at u ce m \<Longrightarrow> t \<le> u \<Longrightarrow> listed_at t ce m"
  by (auto simp: listed_at_def split: option.splits)

lemma purged_later: "purged_of t m m' \<Longrightarrow> t \<le> u \<Longrightarrow> purged_of u m m'"
  unfolding purged_of_def using listed_later by blast

lemma purged_listed: "purged_of t m m' \<Longrightarrow> listed_at t ce m' = listed_at t ce m"
  unfolding purged_of_def by (metis listed_at_def option.case(1))

lemma cleanup_at:
  "i_blacklist (cleanup_blacklist (e\<lparr>e_now := \<lambda>_. t\<rparr>) b s) ce = i_blacklist s ce \<or>
   i_blacklist (cleanup_blacklist (e\<lparr>e_now := \<lambda>_. t\<rparr>) b s) ce = None \<and> \<not> listed_at t ce (i_blacklist s)"
  by (auto simp: cleanup_blacklist_def now_def Let_def listed_at_def split: option.splits)

lemma cleanup_purged:
  assumes "purged_of t m (i_blacklist s)"
  shows "purged_of t m (i_blacklist (cleanup_blacklist (e\<lparr>e_now := \<lambda>_. t\<rparr>) b s))"
  unfolding purged_of_def
proof
  fix ce
  from assms have "i_blacklist s ce = m ce \<or> i_blacklist s ce = None \<and> \<not> listed_at t ce m" by (simp add: purged_of_def)
  with cleanup_at [where e = e and t = t and b = b and s = s and ce = ce] purged_listed [OF assms, of ce]
  show "i_blacklist (cleanup_blacklist (e\<lparr>e_now := \<lambda>_. t\<rparr>) b s) ce = m ce \<or>
      i_blacklist (cleanup_blacklist (e\<lparr>e_now := \<lambda>_. t\<rparr>) b s) ce = None \<and> \<not> listed_at t ce m"
    by metis
qed

lemma not_listed_at: "not_listed (e\<lparr>e_now := \<lambda>_. t\<rparr>) ce s = (\<not> listed_at t ce (i_blacklist s))"
  by (auto simp: not_listed_def listed_at_def now_def split: option.splits)

lemma lazy_op_sim:
  assumes "purged_of t m (i_blacklist s)"
  shows "fst (lazy_op e t x s) = fst (plain_op (c_blacklist_time e) t x m) \<and>
    purged_of t (snd (plain_op (c_blacklist_time e) t x m)) (i_blacklist (snd (lazy_op e t x s)))"
proof -
  let ?e = "e\<lparr>e_now := \<lambda>_. t\<rparr>"
  note p = cleanup_purged [OF assms, of e False]
  note l = purged_listed [OF p]
  show ?thesis
  proof (cases x)
    case (Query ce)
    then show ?thesis using p l by (simp add: is_blacklisted_def not_listed_at)
  next
    case (Blacklist ce)
    then show ?thesis using p l
      by (simp add: blacklist_endpoint_def not_listed_at purged_of_def now_def Let_def)
  qed
qed

text \<open>C24: the list of the CEs that are not to be called is purged only now and then, after a number of operations, and
  its users never notice: at non-decreasing times any sequence of operations gets the same answers as on
  a list from which nothing is ever removed, in which a CE is listed until the time of its entry.\<close>

theorem lazy_purge_invisible:
  assumes "sorted (map fst xs)" "i_blacklist s = Map.empty"
  shows "lazy_run e xs s = plain_run (c_blacklist_time e) xs Map.empty"
proof -
  have "lazy_run e xs s = plain_run (c_blacklist_time e) xs m"
    if "sorted (map fst xs)" "\<forall>t\<in>fst ` set xs. purged_of t m (i_blacklist s)" for m s
    using that
  proof (induction xs arbitrary: m s)
    case Nil
    show ?case by simp
  next
    case (Cons y xs)
    obtain t x where y: "y = (t, x)" by (cases y)
    let ?m = "snd (plain_op (c_blacklist_time e) t x m)" and ?s = "snd (lazy_op e t x s)"
    from Cons.prems(2) have "purged_of t m (i_blacklist s)" by (simp add: y)
    note sim = lazy_op_sim [OF this, of e x]
    with Cons.prems(1) have "\<forall>u\<in>fst ` set xs. purged_of u ?m (i_blacklist ?s)"
      by (auto simp: y intro: purged_later)
    with Cons.IH [of ?m ?s] Cons.prems(1) sim show ?case by (auto simp: y Let_def split: prod.split)
  qed
  from this [OF assms(1), of Map.empty s] assms(2) show ?thesis by (simp add: purged_of_def)
qed

text \<open>An environment for examples, in which every call succeeds, and a state without any entry.\<close>

definition fine_answer :: cream_answer where
  "fine_answer = \<lparr>a_result = Register_ok, a_jobid = ''CREAM1'', a_url = ''https://ce/CREAM2'', a_dbid = ''4711'', a_err = [], a_failed = []\<rparr>"

definition fine_env :: ice_env where
  "fine_env = \<lparr>e_now = (\<lambda>cs. 1000 + int (length cs)), e_reply = (\<lambda>_ _. Inr fine_answer), e_is_base = (\<lambda>k. k \<in> {GridProxyDelegationException,
       DelegationException, GenericException, OtherBaseException}), e_lb_enabled = True, e_lb_setup = (\<lambda>_ _. True), e_lb_code = (\<lambda>_ _ _. Lb_ok), e_lb_host = True,
     e_seqcode = (\<lambda>evs _. Some (replicate (Suc (length evs)) CHR ''s'')), e_copy = (\<lambda>_ _. True), e_hash = (\<lambda>x. x), e_file_digest = (\<lambda>x. x),
     e_new_id = (\<lambda>cs. replicate (Suc (length cs)) CHR ''d''), e_proxy_end = (\<lambda>_. 90000), e_proxy_error = (\<lambda>_. None), e_deliver = (\<lambda>_. True),
     c_noresubmit = False, c_purge_jobs = True, c_disable_deregister = False, c_disable_purger = False, c_wm_input = ''wm'',
     c_opcount_max = 10, c_blacklist_time = 600, c_fail_job_blacklisted_ce = False, c_lease_delta_time = 0,
     c_proxy_renewal_frequency = 60, c_cream_url_postfix = ''/CREAM2'', c_persist_dir = ''/persist'', c_input = ''ice''\<rparr>"

definition blank_ice :: ice where
  "blank_ice = \<lparr>i_jobs = Map.empty, i_proxies = [], i_delegations = [], i_stats = [], i_registered = [], i_blacklist = Map.empty, i_opcount = 0,
     i_calls = [], i_lb = [], i_wm_input = [], i_deregistered = [], i_storage_purged = []\<rparr>"

theorem lazy_purge_invisible_witness:
  "lazy_run fine_env [(0, Blacklist ''a''), (100, Query ''a''), (601, Query ''a'')] blank_ice = [True, True, False]"
  using lazy_purge_invisible [of "[(0, Blacklist ''a''), (100, Query ''a''), (601, Query ''a'')]" blank_ice fine_env]
  by (simp add: listed_at_def fine_env_def blank_ice_def)

lemma service_blacklisted_frame:
  "same_tables s (snd (service_blacklisted e honor ce s))" "i_calls (snd (service_blacklisted e honor ce s)) = i_calls s"
  using is_blacklisted_frame [where s = s and e = e and ce = ce] by (cases honor; simp add: same_tables_def)+

section \<open>Calls of a service\<close>

lemma is_blacklisted_listed:
  "fst (is_blacklisted e ce s) \<longleftrightarrow> listed_at (now e s) ce (i_blacklist s)"
  by (auto simp: is_blacklisted_def not_listed_def cleanup_blacklist_def listed_at_def now_def Let_def split: option.splits)

lemma is_blacklisted_list:
  "listed_at (now e s) ce (i_blacklist (snd (is_blacklisted e d s))) \<longleftrightarrow> listed_at (now e s) ce (i_blacklist s)"
  by (auto simp: is_blacklisted_def not_listed_def cleanup_blacklist_def listed_at_def now_def Let_def split: option.splits)

lemma method_tries_frame:
  "same_tables s (snd (method_tries e honor n call service s)) \<and>
   (\<exists>k \<le> Suc n. i_calls (snd (method_tries e honor n call service s)) = i_calls s @ replicate k call \<and>
      (\<forall>m. Suc m < k \<longrightarrow> (\<exists>what. e_reply e (i_calls s @ replicate m call) call = Inl (ConnectionTimeoutException, what))))"
proof (induction e honor n call service s rule: method_tries.induct)
  case (1 e honor n call service s)
  obtain b s1 where b: "service_blacklisted e honor service s = (b, s1)" by fastforce
  have f: "same_tables s s1" "i_calls s1 = i_calls s" using service_blacklisted_frame [where e = e and honor = honor and ce = service and s = s] b by simp_all
  define s2 where "s2 = s1\<lparr>i_calls := i_calls s1 @ [call]\<rparr>"
  have f2: "same_tables s s2" "i_calls s2 = i_calls s @ [call]" using f by (simp_all add: s2_def same_tables_def)
  have g: "same_tables s (snd (give_up e service k what s2))" "i_calls (snd (give_up e service k what s2)) = i_calls s @ [call]" for k what
    using give_up_frame [where s = s2 and e = e and service = service] same_tables_trans [OF f2(1)] f2(2) by auto
  show ?case
  proof (cases b)
    case True
    with b f show ?thesis by (subst (1 2) method_tries.simps) (auto intro: exI [of _ 0])
  next
    case False
    show ?thesis
    proof (cases "e_reply e (i_calls s1) call")
      case (Inr a)
      with b False f2 show ?thesis
        by (subst (1 2) method_tries.simps) (auto simp: s2_def [symmetric] intro: exI [of _ 1])
    next
      case (Inl kw)
      obtain k what where kw: "kw = (k, what)" by (cases kw)
      show ?thesis
      proof (cases "k = ConnectionTimeoutException \<and> n \<noteq> 0")
        case True
        then obtain m where m: "n = Suc m" by (cases n) auto
        have "method_tries e honor n call service s = method_tries e honor m call service s2"
          using b False Inl kw True m by (subst method_tries.simps) (simp add: s2_def)
        moreover from "1.IH" [OF refl b [symmetric] False s2_def Inl kw [symmetric] _ m] True
        obtain k' where k': "same_tables s2 (snd (method_tries e honor m call service s2))" "k' \<le> Suc m"
          "i_calls (snd (method_tries e honor m call service s2)) = i_calls s2 @ replicate k' call"
          "\<And>i. Suc i < k' \<Longrightarrow> \<exists>what. e_reply e (i_calls s2 @ replicate i call) call = Inl (ConnectionTimeoutException, what)" by auto
        moreover have "\<exists>what. e_reply e (i_calls s @ replicate i call) call = Inl (ConnectionTimeoutException, what)" if "Suc i < Suc k'" for i
          using that k'(4) [of "i - 1"] Inl kw True f(2) f2(2) by (cases i) auto
        ultimately show ?thesis using f2 m same_tables_trans by (auto intro!: exI [of _ "Suc k'"])
      next
        case nt: False
        have "method_tries e honor n call service s = give_up e service k what s2 \<or> method_tries e honor n call service s = (Inl (Cream_fault k what), s2)"
          using b False Inl kw nt by (subst (1 2) method_tries.simps) (auto simp: s2_def Let_def split: nat.splits)
        with f2 g [of k what] show ?thesis by (auto intro!: exI [of _ 1])
      qed
    qed
  qed
qed

lemma CreamProxyMethod_frame: "same_tables s (snd (CreamProxyMethod_execute e honor n call service s))"
  using method_tries_frame by (simp add: CreamProxyMethod_execute_def)

text \<open>A timeout on the last try, or another loss of the connection, puts the service on the list.\<close>

lemma give_up_lists:
  "0 \<le> c_blacklist_time e \<Longrightarrow> listed_at (now e s) service (i_blacklist (snd (give_up e service k what s)))"
  by (auto simp: give_up_def blacklist_endpoint_def not_listed_def cleanup_blacklist_def listed_at_def now_def Let_def split: option.splits)

text \<open>The call that failed has lost the connection, or was not made because the service is on the list.\<close>

definition connection_lost :: "ice_env \<Rightarrow> call_ex + cream_answer \<Rightarrow> bool" where
  "connection_lost e r \<longleftrightarrow> (case r of
       Inl (Cream_fault k what) \<Rightarrow> k = ConnectionTimeoutException \<or> (e_is_base e k \<or> k = InternalException) \<and> connection_text what
     | Inl (Blacklist_fail what) \<Rightarrow> True
     | Inr a \<Rightarrow> False)"

lemma now_blacklist [simp]: "now e (snd (give_up e service k what s)) = now e s"
  using give_up_frame(2) [of e service k what s] by (simp add: now_def)

lemma service_blacklisted_keeps:
  assumes "service_blacklisted e honor service s = (True, s1)"
  shows "listed_at (now e s1) service (i_blacklist s1)"
proof -
  have h: "is_blacklisted e service s = (True, s1)" using assms by (cases honor) simp_all
  then show ?thesis
    using is_blacklisted_listed [of e service s] is_blacklisted_list [of e s service service] is_blacklisted_frame(2) [of e service s]
    by (simp add: now_def)
qed

lemma method_tries_lists:
  assumes "0 \<le> c_blacklist_time e" "method_tries e honor n call service s = (r, s')" "connection_lost e r"
  shows "listed_at (now e s') service (i_blacklist s')"
  using assms(2)
proof (induction n arbitrary: s)
  case (0 s)
  obtain b s1 where b: "service_blacklisted e honor service s = (b, s1)" by fastforce
  define s2 where "s2 = s1\<lparr>i_calls := i_calls s1 @ [call]\<rparr>"
  have g: "give_up e service k what s2 = (r, s') \<Longrightarrow> ?case" for k what
    using give_up_lists [OF assms(1), of s2 service k what] now_blacklist [of e service k what s2] by auto
  from "0.prems" assms(3) b g service_blacklisted_keeps [of e honor service s] show ?case
    by (subst (asm) method_tries.simps)
       (auto simp: s2_def [symmetric] connection_lost_def Let_def split: if_splits sum.splits)
next
  case (Suc n s)
  obtain b s1 where b: "service_blacklisted e honor service s = (b, s1)" by fastforce
  define s2 where "s2 = s1\<lparr>i_calls := i_calls s1 @ [call]\<rparr>"
  have g: "give_up e service k what s2 = (r, s') \<Longrightarrow> ?case" for k what
    using give_up_lists [OF assms(1), of s2 service k what] now_blacklist [of e service k what s2] by auto
  from Suc.prems assms(3) b g service_blacklisted_keeps [of e honor service s] Suc.IH [of s2] show ?case
    by (subst (asm) method_tries.simps)
       (auto simp: s2_def [symmetric] connection_lost_def Let_def split: if_splits sum.splits)
qed

lemma method_tries_listed:
  "listed_at (now e s) service (i_blacklist s) \<Longrightarrow>
   connection_lost e (fst (method_tries e True n call service s)) \<and> i_calls (snd (method_tries e True n call service s)) = i_calls s"
  using is_blacklisted_listed [of e service s] is_blacklisted_frame(2) [of e service s]
  by (subst (1 2) method_tries.simps) (auto simp: connection_lost_def split: prod.split)

lemma method_tries_asks:
  "\<not> (honor \<and> listed_at (now e s) service (i_blacklist s)) \<Longrightarrow>
   \<exists>k. i_calls (snd (method_tries e honor n call service s)) = i_calls s @ replicate (Suc k) call"
proof -
  assume "\<not> (honor \<and> listed_at (now e s) service (i_blacklist s))"
  then have b: "\<not> fst (service_blacklisted e honor service s)" using is_blacklisted_listed [of e service s] by (cases honor) simp_all
  define s2 where "s2 = (let s1 = snd (service_blacklisted e honor service s) in s1\<lparr>i_calls := i_calls s1 @ [call]\<rparr>)"
  have s2: "i_calls s2 = i_calls s @ [call]" using service_blacklisted_frame(2) [of e honor service s] by (simp add: s2_def Let_def)
  have g: "i_calls (snd (give_up e service k what s2)) = i_calls s2" for k what by (rule give_up_frame)
  have "i_calls (snd (method_tries e honor n call service s)) = i_calls s2 \<or>
    (\<exists>m. method_tries e honor n call service s = method_tries e honor m call service s2)"
    using b g by (subst (1 2) method_tries.simps) (auto simp: s2_def Let_def split: prod.splits sum.splits nat.splits)
  then show ?thesis
  proof
    assume "i_calls (snd (method_tries e honor n call service s)) = i_calls s2"
    with s2 show ?thesis by (auto intro: exI [of _ 0])
  next
    assume "\<exists>m. method_tries e honor n call service s = method_tries e honor m call service s2"
    then obtain m where "method_tries e honor n call service s = method_tries e honor m call service s2" by blast
    moreover obtain k where "i_calls (snd (method_tries e honor m call service s2)) = i_calls s2 @ replicate k call"
      using method_tries_frame by blast
    ultimately show ?thesis using s2 by auto
  qed
qed

text \<open>C21: a call of a CREAM service is repeated after timeouts only, at most as often as asked for, and changes no
  table. A service that is on the list is not called at all when the caller honours the list, and is called otherwise. A call that
  fails because the connection timed out, was refused or broke, or because of the list, leaves the service on the list, whether the
  caller honours it or not.\<close>

theorem service_calls_bounded:
  assumes "0 < ntries" "0 \<le> c_blacklist_time e" "CreamProxyMethod_execute e honor ntries call service s = (r, s')"
  shows "same_tables s s' \<and>
    (\<exists>k \<le> ntries. i_calls s' = i_calls s @ replicate k call \<and>
       (\<forall>m. Suc m < k \<longrightarrow> (\<exists>what. e_reply e (i_calls s @ replicate m call) call = Inl (ConnectionTimeoutException, what)))) \<and>
    (honor \<and> listed_at (now e s) service (i_blacklist s) \<longleftrightarrow> i_calls s' = i_calls s) \<and>
    (honor \<and> listed_at (now e s) service (i_blacklist s) \<longrightarrow> connection_lost e r) \<and>
    (connection_lost e r \<longrightarrow> listed_at (now e s') service (i_blacklist s'))"
proof -
  from assms(3) have m: "method_tries e honor (ntries - 1) call service s = (r, s')" by (simp add: CreamProxyMethod_execute_def)
  then have "same_tables s s' \<and> (\<exists>k \<le> ntries. i_calls s' = i_calls s @ replicate k call \<and>
       (\<forall>m. Suc m < k \<longrightarrow> (\<exists>what. e_reply e (i_calls s @ replicate m call) call = Inl (ConnectionTimeoutException, what))))"
    using method_tries_frame [of s e honor "ntries - 1" call service] assms(1) by simp
  moreover have "honor \<and> listed_at (now e s) service (i_blacklist s) \<longrightarrow> i_calls s' = i_calls s \<and> connection_lost e r"
    using method_tries_listed [of e s service "ntries - 1" call] m by auto
  moreover have "i_calls s' = i_calls s \<longrightarrow> honor \<and> listed_at (now e s) service (i_blacklist s)"
    using method_tries_asks [of honor e s service "ntries - 1" call] m by force
  moreover have "connection_lost e r \<longrightarrow> listed_at (now e s') service (i_blacklist s')"
    using method_tries_lists [OF assms(2) m] by blast
  ultimately show ?thesis by blast
qed

text \<open>A service that does not answer is called three times and then put on the list.\<close>

definition silent_env :: ice_env where
  "silent_env = fine_env\<lparr>e_reply := \<lambda>_ _. Inl (ConnectionTimeoutException, ''timeout'')\<rparr>"

theorem service_calls_bounded_witness:
  "\<exists>r s'. CreamProxyMethod_execute silent_env True 3 (Call_start ''ce'' ''p'' ''j'') ''ce'' blank_ice = (r, s') \<and>
     connection_lost silent_env r \<and> i_calls s' = replicate 3 (Call_start ''ce'' ''p'' ''j'') \<and> listed_at (now silent_env s') ''ce'' (i_blacklist s')"
proof -
  obtain r s' where r: "CreamProxyMethod_execute silent_env True 3 (Call_start ''ce'' ''p'' ''j'') ''ce'' blank_ice = (r, s')" by fastforce
  then have "connection_lost silent_env r" "i_calls s' = replicate 3 (Call_start ''ce'' ''p'' ''j'')"
    by (auto simp: CreamProxyMethod_execute_def method_tries.simps numeral_2_eq_2 numeral_3_eq_3 is_blacklisted_def cleanup_blacklist_def
        not_listed_def give_up_def blacklist_endpoint_def silent_env_def fine_env_def blank_ice_def connection_lost_def Let_def)
  moreover from this(1) have "listed_at (now silent_env s') ''ce'' (i_blacklist s')"
    using service_calls_bounded [OF _ _ r] by (simp add: silent_env_def fine_env_def)
  ultimately show ?thesis using r by blast
qed

section \<open>Logging\<close>

lemma log_tries_bounded: "snd (log_tries code set_host count host k) \<le> k + Suc (3 - count) + (if host then 0 else 1)"
proof (induction code set_host count host k rule: log_tries.induct)
  case (1 code set_host count host k)
  then show ?case by (subst log_tries.simps) (auto simp: el_s_retries_def split: lb_code.split)
qed

end
