(* ===== verification/Ice_Submit_Props.thy ===== *)
theory Ice_Submit_Props
  imports Ice_Submit Ice_Cream_Props
begin

text \<open>
  The commands of ICE: the loop around the registration ends unless the CE asks for a delegation again and again; what a
  submission leaves in the database on every path; that the counters of the proxies are the numbers of
  the jobs that use them, which every path of a submission keeps; and what goes wrong after a restart and
  with a cancellation.
\<close>

section \<open>The registration\<close>

lemma method_tries_fault:
  assumes "method_tries e honor n call service s = (Inl (Cream_fault k what), s')" "k \<noteq> ConnectionTimeoutException"
  shows "\<exists>cs. e_reply e cs call = Inl (k, what)"
  using assms
proof (induction n arbitrary: s)
  case 0
  then show ?case
    by (subst (asm) method_tries.simps) (auto simp: give_up_def Let_def split: prod.splits if_splits sum.splits)
next
  case (Suc n)
  from Suc.prems(1) show ?case
  proof (subst (asm) method_tries.simps, goal_cases)
    case 1
    with Suc.prems(2) Suc.IH show ?case
      by (auto simp: give_up_def Let_def split: prod.splits if_splits sum.splits)
  qed
qed

lemma register_job_again:
  assumes "register_job e j d lease fd fl s = (Result (Again fd' fl'), s')"
    and "\<And>cs c what. e_reply e cs c \<noteq> Inl (GridProxyDelegationException, what)"
  shows "\<not> fd \<and> fd' \<and> fl' = fl \<or> \<not> fl \<and> fl' \<and> fd' = fd"
proof -
  define call where "call = Call_register (text_of j Cream_address) (text_of j User_proxyfile) (text_of j Modified_jdl) d []"
  obtain r s1 where r: "CreamProxyMethod_execute e True 3 call (text_of j Cream_address) s = (r, s1)" by fastforce
  have "k \<noteq> GridProxyDelegationException" if "r = Inl (Cream_fault k what)" for k what
    using method_tries_fault [of e True 2 call "text_of j Cream_address" s k what s1] r that assms(2)
    by (auto simp: CreamProxyMethod_execute_def)
  with assms(1) r show ?thesis
    by (auto simp: register_job_def call_def [symmetric] Let_def split: sum.splits call_ex.splits if_splits option.splits)
qed

lemma process_result_again:
  "process_result a lease fd fl = Result (Again fd' fl') \<Longrightarrow> \<not> fd \<and> fd' \<and> fl' = fl \<or> \<not> fl \<and> fl' \<and> fd' = fd"
  by (auto simp: process_result_def split: register_result.splits if_splits)

lemma handle_delegation_force:
  "handle_delegation e j fd s = (Result (d, fd'), s') \<Longrightarrow> fd \<Longrightarrow> fd'"
  by (auto simp: handle_delegation_def Let_def split: prod.splits sum.splits if_splits)

lemma register_turn_again:
  assumes "register_turn e j fd fl s = (Result (d, Again fd' fl'), s')"
    and "\<And>cs c what. e_reply e cs c \<noteq> Inl (GridProxyDelegationException, what)"
  shows "\<exists>f. (fd \<longrightarrow> f) \<and> (\<not> f \<and> fd' \<and> fl' = fl \<or> \<not> fl \<and> fl' \<and> fd' = f)"
proof -
  obtain h s1 where h: "handle_delegation e j fd s = (h, s1)" by fastforce
  with assms(1) obtain d1 f where h2: "h = Result (d1, f)" by (auto simp: register_turn_def Let_def split: ice_outcome.splits)
  obtain r s2 where r: "register_job e j d1 (0 < c_lease_delta_time e) f fl s1 = (r, s2)" by fastforce
  have f: "fd \<longrightarrow> f" using handle_delegation_force h h2 by blast
  show ?thesis
  proof (cases r)
    case (Result st)
    show ?thesis
    proof (cases st)
      case (Again x y)
      with assms(1) h h2 r Result have "register_job e j d1 (0 < c_lease_delta_time e) f fl s1 = (Result (Again fd' fl'), s2)"
        by (simp add: register_turn_def)
      from register_job_again [OF this assms(2)] f show ?thesis by blast
    next
      case (Answered a)
      show ?thesis
      proof (cases "process_result a (0 < c_lease_delta_time e) f fl")
        case (Result u)
        with assms(1) h h2 r \<open>r = Result st\<close> Answered have "process_result a (0 < c_lease_delta_time e) f fl = Result (Again fd' fl')"
          by (simp add: register_turn_def)
        from process_result_again [OF this] f show ?thesis by blast
      qed (use assms(1) h h2 r Result Answered in \<open>simp_all add: register_turn_def\<close>)
    qed
  qed (use assms(1) h h2 r in \<open>simp_all add: register_turn_def\<close>)
qed

lemma register_loop_step:
  assumes "\<And>d fd' fl' s'. register_turn e j fd fl s = (Result (d, Again fd' fl'), s') \<Longrightarrow> register_loop e j fd' fl' s' \<noteq> None"
  shows "register_loop e j fd fl s \<noteq> None"
  using assms by (subst register_loop.simps) (auto split: prod.splits ice_outcome.splits register_step.splits)

text \<open>C20: the loop around the registration of a job ends, after at most three turns, unless the CE answers with a
  \<open>GridProxyDelegationException\<close>: every other error makes the command throw, or sets one of the two flags
  that enforce a new delegation and a new lease, which are never reset.\<close>

theorem registration_ends:
  assumes "\<And>cs c what. e_reply e cs c \<noteq> Inl (GridProxyDelegationException, what)"
  shows "\<exists>y. register_loop e j fd fl s = Some y"
proof -
  have both: "register_loop e j True True s \<noteq> None" for s
    by (rule register_loop_step) (use register_turn_again [OF _ assms] in blast)
  have deleg: "register_loop e j True fl s \<noteq> None" for fl s
    by (rule register_loop_step) (use register_turn_again [OF _ assms] both in metis)
  have lease: "register_loop e j fd True s \<noteq> None" for fd s
    by (rule register_loop_step) (use register_turn_again [OF _ assms] deleg in metis)
  have "register_loop e j fd fl s \<noteq> None"
    by (rule register_loop_step) (use register_turn_again [OF _ assms] deleg lease in metis)
  then show ?thesis by blast
qed

theorem registration_ends_witness:
  "\<exists>y. register_loop fine_env CreamJob_new False False blank_ice = Some y"
  by (rule registration_ends) (simp add: fine_env_def)

text \<open>A CE that accepts delegations and refuses the registration with the same fault each time.\<close>

definition asks_again :: "ice_env \<Rightarrow> bool" where
  "asks_again e \<longleftrightarrow>
     (\<forall>cs u p x d l. \<exists>what. e_reply e cs (Call_register u p x d l) = Inl (GridProxyDelegationException, what) \<and> \<not> connection_text what) \<and>
     (\<forall>cs u p d. \<exists>a. e_reply e cs (Call_delegate u p d) = Inr a)"

lemma not_listed_empty: "i_blacklist s = Map.empty \<Longrightarrow> fst (is_blacklisted e ce s) = False \<and> i_blacklist (snd (is_blacklisted e ce s)) = Map.empty"
  by (auto simp: is_blacklisted_def not_listed_def cleanup_blacklist_def Let_def)

lemma asked_register:
  assumes "asks_again e" "i_blacklist s = Map.empty"
  obtains what s' where "CreamProxyMethod_execute e True 3 (Call_register u p x d l) ce s = (Inl (Cream_fault GridProxyDelegationException what), s')"
    "same_tables s s'" "i_blacklist s' = Map.empty"
proof -
  let ?c = "Call_register u p x d l"
  obtain s1 where s1: "is_blacklisted e ce s = (False, s1)" "i_blacklist s1 = Map.empty"
    using not_listed_empty [OF assms(2), of e ce] by (metis prod.collapse)
  obtain what where w: "e_reply e (i_calls s1) ?c = Inl (GridProxyDelegationException, what)" "\<not> connection_text what"
    using assms(1) unfolding asks_again_def by blast
  have "CreamProxyMethod_execute e True 3 ?c ce s = (Inl (Cream_fault GridProxyDelegationException what), s1\<lparr>i_calls := i_calls s1 @ [?c]\<rparr>)"
    using s1(1) w by (simp add: CreamProxyMethod_execute_def method_tries.simps)
  then show ?thesis using that s1(2) CreamProxyMethod_frame [of s e True 3 ?c ce] by simp
qed

lemma answered_delegate:
  assumes "asks_again e" "i_blacklist s = Map.empty"
  shows "i_blacklist (snd (CreamProxyMethod_execute e True 3 (Call_delegate u p d) ce s)) = Map.empty"
proof -
  obtain s1 where s1: "is_blacklisted e ce s = (False, s1)" "i_blacklist s1 = Map.empty"
    using not_listed_empty [OF assms(2), of e ce] by (metis prod.collapse)
  obtain a where "e_reply e (i_calls s1) (Call_delegate u p d) = Inr a"
    using assms(1) unfolding asks_again_def by blast
  with s1 show ?thesis by (simp add: CreamProxyMethod_execute_def method_tries.simps)
qed

definition has_delegation :: "ice_env \<Rightarrow> cream_job \<Rightarrow> ice \<Rightarrow> bool" where
  "has_delegation e j s \<longleftrightarrow> \<not> flag_of j Proxy_renewable \<and> (\<exists>d. GetDelegation (e_file_digest e (text_of j User_proxyfile)) (text_of j Cream_address)
     (text_of j Myproxy_address) s = Some d \<and> m_delegation_id d \<noteq> [])"

lemma asked_turn:
  assumes "asks_again e" "i_blacklist s = Map.empty" "has_delegation e j s"
  shows "\<exists>d s'. register_turn e j False False s = (Result (d, Again False False), s') \<and> i_blacklist s' = Map.empty \<and> has_delegation e j s'"
proof -
  from assms(3) obtain d where d: "\<not> flag_of j Proxy_renewable" "m_delegation_id d \<noteq> []"
    "GetDelegation (e_file_digest e (text_of j User_proxyfile)) (text_of j Cream_address) (text_of j Myproxy_address) s = Some d"
    by (auto simp: has_delegation_def)
  then have h: "handle_delegation e j False s = (Result (m_delegation_id d, False), s)"
    by (simp add: handle_delegation_def delegate_def Let_def)
  obtain what s1 where r: "CreamProxyMethod_execute e True 3 (Call_register (text_of j Cream_address) (text_of j User_proxyfile) (text_of j Modified_jdl)
      (m_delegation_id d) []) (text_of j Cream_address) s = (Inl (Cream_fault GridProxyDelegationException what), s1)"
    "same_tables s s1" "i_blacklist s1 = Map.empty"
    using asked_register [OF assms(1,2)] by metis
  from d(2,3) r(2) have c: "CheckDelegationByID (m_delegation_id d) s1"
    by (auto simp: CheckDelegationByID_def GetDelegation_def same_tables_def find_Some_iff split: if_splits)
  let ?s = "snd (CreamProxyMethod_execute e True 3 (Call_delegate (text_of j Cream_deleg_address) (text_of j User_proxyfile) (m_delegation_id d))
      (text_of j Cream_deleg_address) s1)"
  have "register_turn e j False False s = (Result (m_delegation_id d, Again False False), ?s)"
    using h r(1) c by (simp add: register_turn_def register_job_def redelegate_def)
  moreover have "same_tables s ?s" using r(2) CreamProxyMethod_frame same_tables_trans by blast
  then have "has_delegation e j ?s" using assms(3) unfolding has_delegation_def same_tables_def GetDelegation_def by presburger
  ultimately show ?thesis using answered_delegate [OF assms(1) r(3)] by blast
qed

text \<open>C37: a CE that keeps answering the registration with a \<open>GridProxyDelegationException\<close> keeps the command in the loop
  for ever: the delegation is sent again under the same identifier, no flag is set and no turn
  is counted, so the thread, and with it the lane of the job in the pool, is lost.\<close>

theorem registration_can_loop:
  assumes "asks_again e" "i_blacklist s = Map.empty" "has_delegation e j s"
  shows "register_loop e j False False s = None"
proof -
  define P where "P = (\<lambda>e j fd fl s (y :: (string \<times> cream_answer) ice_outcome \<times> ice).
      \<not> (\<not> fd \<and> \<not> fl \<and> asks_again e \<and> i_blacklist s = Map.empty \<and> has_delegation e j s))"
  have no_end: "P e j fd fl s y" if "register_loop e j fd fl s = Some y" for e j fd fl s y
    using that
  proof (rule register_loop.raw_induct [rotated])
    fix loop e j fd fl s y
    assume IH: "\<And>e j fd fl s y. loop e j fd fl s = Some y \<Longrightarrow> P e j fd fl s y"
      and eq: "(case register_turn e j fd fl s of
          (Result (d, Answered a), s1) \<Rightarrow> Some (Result (d, a), s1) | (Result (d, Again fd fl), s1) \<Rightarrow> loop e j fd fl s1
        | (Throws x, s1) \<Rightarrow> Some (Throws x, s1) | (Terminated, s1) \<Rightarrow> Some (Terminated, s1)) = Some y"
    show "P e j fd fl s y"
      unfolding P_def
    proof
      assume a: "\<not> fd \<and> \<not> fl \<and> asks_again e \<and> i_blacklist s = Map.empty \<and> has_delegation e j s"
      then obtain d s' where t: "register_turn e j False False s = (Result (d, Again False False), s')"
        "i_blacklist s' = Map.empty" "has_delegation e j s'" using asked_turn by blast
      with a eq have "loop e j False False s' = Some y" by simp
      with IH [OF this] a t(2,3) show False by (simp add: P_def)
    qed
  qed
  show ?thesis using no_end [of e j False False s] assms by (cases "register_loop e j False False s") (auto simp: P_def)
qed

text \<open>A job whose proxy was delegated before.\<close>

definition delegated_ice :: ice where
  "delegated_ice = blank_ice\<lparr>i_delegations := [\<lparr>m_sha1_digest = ''p'', m_cream_url = ''ce'', m_expiration_time = 9000, m_delegation_duration = 100,
     m_delegation_id = ''d'', m_user_dn = ''u'', m_renewable = False, m_myproxyserver = []\<rparr>]\<rparr>"

definition asking_env :: ice_env where
  "asking_env = fine_env\<lparr>e_reply := \<lambda>_ c. case c of Call_register u p x d l \<Rightarrow> Inl (GridProxyDelegationException, ''no delegation'') | _ \<Rightarrow> Inr fine_answer\<rparr>"

theorem registration_can_loop_witness:
  "register_loop asking_env (set_text User_proxyfile ''p'' (set_text Cream_address ''ce'' CreamJob_new)) False False delegated_ice = None"
proof (rule registration_can_loop)
  show "asks_again asking_env" by (simp add: asks_again_def asking_env_def connection_text_def sublist_code)
  show "i_blacklist delegated_ice = Map.empty" by (simp add: delegated_ice_def blank_ice_def)
  show "has_delegation asking_env (set_text User_proxyfile ''p'' (set_text Cream_address ''ce'' CreamJob_new)) delegated_ice"
    by (simp add: has_delegation_def asking_env_def fine_env_def delegated_ice_def set_text_def CreamJob_new_def GetDelegation_def deleg_key_def)
qed

end
