(* ===== verification/Ice_Rows.thy ===== *)
theory Ice_Rows
  imports Ice_Submit Ice_Cream_Props
begin

text \<open>
  What the parts of a submission leave alone: for a set of members, the columns of the rows of the jobs, and the counters
  of the proxies. The lemmas follow the calls from the logging of an event up to \<open>try_to_submit\<close>; the properties of the
  commands rest on the last of them.
\<close>

section \<open>Rows, counters and owners\<close>

primrec same_field :: "job_field \<Rightarrow> job_row \<Rightarrow> job_row \<Rightarrow> bool" where
  "same_field (TextF f) r r' = (r_text r' f = r_text r f)"
| "same_field (NumF f) r r' = (r_num r' f = r_num r f)"
| "same_field (FlagF f) r r' = (r_flag r' f = r_flag r f)"
| "same_field (StatusF f) r r' = (r_status r' f = r_status r f)"

lemma same_field_refl [simp]: "same_field f r r"
  by (cases f) simp_all

lemma same_field_trans: "same_field f r r' \<Longrightarrow> same_field f r' r'' \<Longrightarrow> same_field f r r''"
  by (cases f) simp_all

definition keeps :: "job_field set \<Rightarrow> jobs_table \<Rightarrow> jobs_table \<Rightarrow> bool" where
  "keeps F t t' \<longleftrightarrow> (\<forall>g. case t g of None \<Rightarrow> t' g = None | Some r \<Rightarrow> (\<exists>r'. t' g = Some r' \<and> (\<forall>f\<in>F. same_field f r r')))"

lemma keeps_none: "keeps F t t' \<Longrightarrow> t' g = None \<longleftrightarrow> t g = None"
  by (auto simp: keeps_def dest: spec [of _ g] split: option.splits)

lemma keeps_some: "keeps F t t' \<Longrightarrow> t g = Some r \<Longrightarrow> \<exists>r'. t' g = Some r' \<and> (\<forall>f\<in>F. same_field f r r')"
  by (auto simp: keeps_def dest: spec [of _ g])

lemma keepsI:
  assumes "\<And>g. t g = None \<Longrightarrow> t' g = None" "\<And>g r. t g = Some r \<Longrightarrow> \<exists>r'. t' g = Some r' \<and> (\<forall>f\<in>F. same_field f r r')"
  shows "keeps F t t'"
  using assms by (simp add: keeps_def split: option.split)

lemma keeps_refl [simp]: "keeps F t t"
  by (rule keepsI) simp_all

lemma keeps_trans:
  assumes "keeps F t u" "keeps F u v"
  shows "keeps F t v"
proof (rule keepsI)
  show "v g = None" if "t g = None" for g using that keeps_none [OF assms(1)] keeps_none [OF assms(2)] by simp
  show "\<exists>r'. v g = Some r' \<and> (\<forall>f\<in>F. same_field f r r')" if "t g = Some r" for g r
    using keeps_some [OF assms(1) that] keeps_some [OF assms(2)] same_field_trans by metis
qed

definition counter :: "ice \<Rightarrow> string \<times> string \<Rightarrow> int option" where
  "counter s k = map_option px_counter (map_of (i_proxies s) k)"

definition proxy_files :: "ice \<Rightarrow> bool" where
  "proxy_files s \<longleftrightarrow> (\<forall>(k, p)\<in>set (i_proxies s). px_file p \<noteq> [])"

definition calm :: "job_field set \<Rightarrow> ice \<Rightarrow> ice \<Rightarrow> bool" where
  "calm F s s' \<longleftrightarrow> keeps F (i_jobs s) (i_jobs s') \<and> counter s' = counter s \<and> (proxy_files s \<longrightarrow> proxy_files s')"

lemma calm_refl [simp]: "calm F s s"
  by (simp add: calm_def)

lemma calm_trans [trans]: "calm F s t \<Longrightarrow> calm F t u \<Longrightarrow> calm F s u"
  unfolding calm_def using keeps_trans by metis

lemma calm_tables: "i_jobs s' = i_jobs s \<Longrightarrow> i_proxies s' = i_proxies s \<Longrightarrow> calm F s s'"
  by (simp add: calm_def counter_def [abs_def] proxy_files_def)

lemma same_tables_calm: "same_tables s s' \<Longrightarrow> calm F s s'"
  by (simp add: same_tables_def calm_tables)

definition same_owner :: "cream_job \<Rightarrow> cream_job \<Rightarrow> bool" where
  "same_owner j j' \<longleftrightarrow> text_of j' Grid_jobid = text_of j Grid_jobid \<and> text_of j' User_dn = text_of j User_dn \<and>
     text_of j' Myproxy_address = text_of j Myproxy_address \<and> flag_of j' Proxy_renewable = flag_of j Proxy_renewable"

lemma same_owner_refl [simp]: "same_owner j j"
  by (simp add: same_owner_def)

lemma same_owner_trans [trans]: "same_owner j k \<Longrightarrow> same_owner k l \<Longrightarrow> same_owner j l"
  by (simp add: same_owner_def)

lemma same_owner_reset [simp]: "same_owner j (reset_change_flags k) = same_owner j k" "same_owner (reset_change_flags j) k = same_owner j k"
  by (simp_all add: same_owner_def reset_change_flags_def)

definition owner_key :: "cream_job \<Rightarrow> string \<times> string" where
  "owner_key j = (text_of j User_dn, text_of j Myproxy_address)"

text \<open>The proxy of a job that can be renewed is in the table.\<close>

definition has_proxy :: "cream_job \<Rightarrow> ice \<Rightarrow> bool" where
  "has_proxy j s \<longleftrightarrow> (flag_of j Proxy_renewable \<longrightarrow> counter s (owner_key j) \<noteq> None)"

lemma has_proxy_calm: "calm F s s' \<Longrightarrow> has_proxy j s' = has_proxy j s"
  by (simp add: has_proxy_def calm_def)

lemma has_proxy_owner: "same_owner j j' \<Longrightarrow> has_proxy j' s = has_proxy j s"
  by (simp add: has_proxy_def same_owner_def owner_key_def)

section \<open>Updates and events\<close>

text \<open>The members that a submission sets.\<close>

definition touched :: "job_field set" where
  "touched = {TextF Sequence_code, TextF Cancel_sequence_code, TextF Delegation_id, TextF Lease_id, TextF Complete_cream_jobid, TextF Cream_jobid,
     TextF Wn_sequence_code, NumF Cream_dbid, StatusF Status, StatusF Prev_status}"

lemma update_row_keeps: "j_changed j \<inter> F = {} \<Longrightarrow> f \<in> F \<Longrightarrow> same_field f r (update_row j tok r)"
  by (cases f) (auto simp: update_row_def)

lemma UpdateJob_row:
  "UpdateJob j t = Some t' \<Longrightarrow> \<exists>tok. t' = t(text_of j Grid_jobid := map_option (update_row j tok) (t (text_of j Grid_jobid)))"
  by (auto simp: UpdateJob_def Let_def)

lemma UpdateJob_keeps:
  assumes "UpdateJob j t = Some t'" "j_changed j \<inter> F = {}"
  shows "keeps F t t'"
proof -
  obtain tok where t': "t' = t(text_of j Grid_jobid := map_option (update_row j tok) (t (text_of j Grid_jobid)))"
    using UpdateJob_row [OF assms(1)] by blast
  show ?thesis unfolding t' using update_row_keeps [OF assms(2)] by (intro keepsI) auto
qed

lemma UpdateJob_some: "TextF Token_file \<notin> j_changed j \<Longrightarrow> \<exists>t'. UpdateJob j t = Some t'"
  by (simp add: UpdateJob_def)

lemma same_owner_sets [simp]:
  "f \<notin> {Grid_jobid, User_dn, Myproxy_address} \<Longrightarrow> same_owner j (set_text f v k) = same_owner j k"
  "same_owner j (set_num n i k) = same_owner j k" "same_owner j (set_status st k) = same_owner j k"
  "same_owner j (set_sequence_code c k) = same_owner j k" "same_owner j (set_cream_jobid p c k) = same_owner j k"
  "same_owner j (set_failure_reason w k) = same_owner j k"
  by (auto simp: same_owner_def set_text_def set_num_def set_status_def set_sequence_code_def set_cream_jobid_def set_failure_reason_def Let_def)

lemma changed_sets [simp]:
  "j_changed (set_text f v k) = insert (TextF f) (j_changed k)" "j_changed (set_num n i k) = insert (NumF n) (j_changed k)"
  "j_changed (set_status st k) = {StatusF Status, StatusF Prev_status} \<union> j_changed k"
  "j_changed (set_sequence_code c k) = insert (TextF Sequence_code) (j_changed k)"
  "j_changed (set_cream_jobid p c k) = {TextF Cream_jobid, TextF Complete_cream_jobid} \<union> j_changed k"
  "j_changed (set_failure_reason w k) = insert (TextF Failure_reason) (j_changed k)" "j_changed (reset_change_flags k) = {}"
  by (auto simp: set_text_def set_num_def set_status_def set_sequence_code_def set_cream_jobid_def set_failure_reason_def reset_change_flags_def Let_def)

text \<open>A job whose flags lie outside a set of members, and outside the token.\<close>

definition quiet :: "job_field set \<Rightarrow> cream_job \<Rightarrow> bool" where
  "quiet F j \<longleftrightarrow> j_changed j \<inter> F = {} \<and> TextF Token_file \<notin> j_changed j"

lemma quiet_reset [simp]: "quiet F (reset_change_flags j)"
  by (simp add: quiet_def)

lemma logEvent_calm:
  assumes "logEvent e ev c u s = (r, s')" "quiet F (event_job ev)" "F \<inter> touched = {}"
  shows "calm F s s' \<and> (\<exists>j'. r = Some j' \<and> same_owner (event_job ev) j' \<and> quiet F j' \<and>
    text_of j' Cream_address = text_of (event_job ev) Cream_address) \<and>
    i_calls s' = i_calls s \<and> i_wm_input s' = i_wm_input s \<and> i_delegations s' = i_delegations s"
proof -
  let ?j = "event_job ev"
  define j1 where "j1 = (\<lambda>code. set_new_code c code ?j)"
  have j1: "quiet F (j1 code)" "same_owner ?j (j1 code)" "text_of (j1 code) Cream_address = text_of ?j Cream_address" for code
    using assms(2,3) by (auto simp: j1_def set_new_code_def quiet_def touched_def) (auto simp: set_text_def set_sequence_code_def Let_def)
  define t' where "t' = (\<lambda>code t. the (UpdateJob (j1 code) t))"
  have t': "UpdateJob (j1 code) t = Some (t' code t)" for code t
    using UpdateJob_some [of "j1 code" t] j1(1) [of code] by (auto simp: t'_def quiet_def)
  have k: "keeps F t (t' code t)" for code t using UpdateJob_keeps [OF t'] j1(1) by (simp add: quiet_def)
  have kept: "text_of (reset_change_flags x) f = text_of x f" for x f by (simp add: reset_change_flags_def)
  show ?thesis using assms(1,2) j1 t' k kept
    by (auto simp: logEvent_def Let_def fun_cong [OF j1_def, symmetric] calm_def counter_def [abs_def] proxy_files_def
        split: if_splits option.splits)
qed

section \<open>The parts of a submission\<close>

lemma map_of_update_entry:
  "map_of (map (\<lambda>(k, p). (k, if k = k0 then f p else p)) xs) k = map_option (if k = k0 then f else id) (map_of xs k)"
  by (induction xs) (auto simp: option.map_id)

lemma UpdateProxyFields_calm:
  assumes "file \<noteq> []"
  shows "calm F s (UpdateProxyFieldsByDN dn my file t s)"
proof -
  have "counter (UpdateProxyFieldsByDN dn my file t s) k = counter s k" for k
    by (cases "map_of (i_proxies s) k") (simp_all add: counter_def UpdateProxyFieldsByDN_def map_of_update_entry)
  moreover have "proxy_files (UpdateProxyFieldsByDN dn my file t s)" if "proxy_files s"
    using that assms by (auto simp: proxy_files_def UpdateProxyFieldsByDN_def split: if_splits)
  ultimately show ?thesis by (auto simp: calm_def UpdateProxyFieldsByDN_def)
qed

lemma betterproxy_path_nonempty [simp]: "make_betterproxy_path e dn my \<noteq> []"
  by (simp add: make_betterproxy_path_def)

lemma delegate_calm: "delegate e j new force s = (r, s') \<Longrightarrow> calm F s s'"
proof -
  assume d: "delegate e j new force s = (r, s')"
  have f: "i_jobs (snd (CreamProxyMethod_execute e True n c u t)) = i_jobs t" "i_proxies (snd (CreamProxyMethod_execute e True n c u t)) = i_proxies t" for n c u t
    using CreamProxyMethod_frame [of t e True n c u] by (simp_all add: same_tables_def)
  have "i_jobs s' = i_jobs s \<and> i_proxies s' = i_proxies s"
    using d unfolding delegate_def Let_def
    by (auto simp: f RemoveDelegation_def CreateDelegation_def split: if_splits option.splits prod.splits sum.splits
        dest!: arg_cong [of "CreamProxyMethod_execute _ _ _ _ _ _" _ snd] )
  then show ?thesis by (simp add: calm_tables)
qed

lemma handle_delegation_calm:
  assumes "handle_delegation e j force s = (r, s')" "has_proxy j s" "proxy_files s"
  shows "calm F s s'"
proof -
  let ?dn = "text_of j User_dn" and ?my = "text_of j Myproxy_address"
  define SBP where "SBP = getExactBetterProxyByDN ?dn ?my s"
  define s1 where "s1 = (if flag_of j Proxy_renewable \<and> px_exptime SBP < num_of j Isbproxy_time_end
    then snd (updateBetterProxy e ?dn ?my (text_of j User_proxyfile) (num_of j Isbproxy_time_end) s) else s)"
  have SBP: "px_file SBP \<noteq> []" if "flag_of j Proxy_renewable"
  proof -
    from assms(2) that obtain p where p: "map_of (i_proxies s) (?dn, ?my) = Some p"
      by (auto simp: has_proxy_def counter_def owner_key_def)
    then have "px_file p \<noteq> []" using assms(3) by (auto simp: proxy_files_def dest: map_of_SomeD)
    with p show ?thesis by (simp add: SBP_def getExactBetterProxyByDN_def GetProxyInfoByDN_MYProxy_def)
  qed
  have c1: "calm F s s1" by (auto simp: s1_def updateBetterProxy_def intro: UpdateProxyFields_calm)
  have "\<exists>f. snd (delegate e j (flag_of j Proxy_renewable) f s1) = s'"
    using assms(1) SBP unfolding handle_delegation_def Let_def SBP_def [symmetric]
    by (auto simp: s1_def split: if_splits prod.splits sum.splits) (metis snd_conv)+
  then show ?thesis using c1 delegate_calm calm_trans by (metis prod.collapse)
qed

lemma redelegate_calm: "redelegate e p u d s = Some s' \<Longrightarrow> calm F s s'"
  using CreamProxyMethod_frame by (auto simp: redelegate_def intro: same_tables_calm split: if_splits)

lemma register_job_calm: "register_job e j d lease fd fl s = (r, s') \<Longrightarrow> calm F s s'"
proof -
  assume r: "register_job e j d lease fd fl s = (r, s')"
  obtain x s1 where x: "CreamProxyMethod_execute e True 3 (Call_register (text_of j Cream_address) (text_of j User_proxyfile)
            (text_of j Modified_jdl) d []) (text_of j Cream_address) s = (x, s1)" by fastforce
  then have c: "calm F s s1" using CreamProxyMethod_frame same_tables_calm by (metis snd_conv)
  have "s' = s1 \<or> redelegate e (text_of j User_proxyfile) (text_of j Cream_deleg_address) d s1 = Some s'"
    using r x by (auto simp: register_job_def split: sum.splits call_ex.splits if_splits option.splits)
  then show ?thesis using c redelegate_calm calm_trans by blast
qed

lemma register_turn_calm:
  assumes "register_turn e j fd fl s = (r, s')" "has_proxy j s" "proxy_files s"
  shows "calm F s s'"
proof -
  obtain h s1 where h: "handle_delegation e j fd s = (h, s1)" by fastforce
  note c = handle_delegation_calm [OF h assms(2,3), of F]
  show ?thesis
  proof (cases h)
    case (Result df)
    obtain d f where df: "df = (d, f)" by (cases df)
    obtain x s2 where x: "register_job e j d (0 < c_lease_delta_time e) f fl s1 = (x, s2)" by fastforce
    have "s' = s2" using assms(1) h Result df x
      by (auto simp: register_turn_def split: ice_outcome.splits register_step.splits)
    then show ?thesis using c register_job_calm [OF x] calm_trans by blast
  qed (use assms(1) h c in \<open>auto simp: register_turn_def\<close>)
qed

lemma register_loop_calm:
  assumes "register_loop e j fd fl s = Some (r, s')" "has_proxy j s" "proxy_files s"
  shows "calm F s s'"
proof -
  define P where "P = (\<lambda>(e :: ice_env) j (fd :: bool) (fl :: bool) s (y :: (string \<times> cream_answer) ice_outcome \<times> ice).
     has_proxy j s \<and> proxy_files s \<longrightarrow> calm F s (snd y))"
  have "P e j fd fl s (r, s')"
    using assms(1)
  proof (rule register_loop.raw_induct [rotated])
    fix loop e j fd fl s and y :: "(string \<times> cream_answer) ice_outcome \<times> ice"
    assume IH: "\<And>e j fd fl s y. loop e j fd fl s = Some y \<Longrightarrow> P e j fd fl s y"
      and eq: "(case register_turn e j fd fl s of
          (Result (d, Answered a), s1) \<Rightarrow> Some (Result (d, a), s1) | (Result (d, Again fd fl), s1) \<Rightarrow> loop e j fd fl s1
        | (Throws x, s1) \<Rightarrow> Some (Throws x, s1) | (Terminated, s1) \<Rightarrow> Some (Terminated, s1)) = Some y"
    show "P e j fd fl s y"
      unfolding P_def
    proof
      assume a: "has_proxy j s \<and> proxy_files s"
      obtain t s1 where t: "register_turn e j fd fl s = (t, s1)" by fastforce
      have c: "calm F s s1" using register_turn_calm [OF t] a by blast
      then have b: "has_proxy j s1 \<and> proxy_files s1" using a has_proxy_calm by (auto simp: calm_def)
      show "calm F s (snd y)"
      proof (cases "\<exists>d fd' fl'. t = Result (d, Again fd' fl')")
        case True
        then obtain d fd' fl' where "t = Result (d, Again fd' fl')" by blast
        with eq t have "loop e j fd' fl' s1 = Some y" by simp
        from IH [OF this] b c show ?thesis using calm_trans unfolding P_def by blast
      next
        case False
        with eq t have "snd y = s1" by (auto split: ice_outcome.splits register_step.splits)
        with c show ?thesis by simp
      qed
    qed
  qed
  with assms show ?thesis by (simp add: P_def)
qed

lemma update_then_calm:
  assumes "update_then j' j s k = y" "quiet F j'"
  obtains t where "UpdateJob j' (i_jobs s) = Some t" "calm F s (s\<lparr>i_jobs := t\<rparr>)" "k (s\<lparr>i_jobs := t\<rparr>) = y"
proof -
  obtain t where t: "UpdateJob j' (i_jobs s) = Some t" using UpdateJob_some [of j' "i_jobs s"] assms(2) unfolding quiet_def by blast
  then have "calm F s (s\<lparr>i_jobs := t\<rparr>)"
    using UpdateJob_keeps [OF t] assms(2) by (simp add: quiet_def calm_def counter_def [abs_def] proxy_files_def)
  with t assms(1) that show ?thesis by (simp add: update_then_def)
qed

lemma log_then_calm:
  assumes "log_then e ev u s k = y" "quiet F (event_job ev)" "F \<inter> touched = {}"
  obtains j' s' where "calm F s s'" "same_owner (event_job ev) j'" "quiet F j'" "k j' s' = y"
proof -
  obtain r s' where l: "logEvent e ev False u s = (r, s')" by fastforce
  from logEvent_calm [OF l assms(2,3)] obtain j' where j': "r = Some j'" "same_owner (event_job ev) j'" "quiet F j'" "calm F s s'" by blast
  with l assms(1) have "k j' s' = y" by (simp add: log_then_def)
  with j' that show ?thesis by blast
qed

lemma registered_calm:
  assumes "registered e j d a s = (r, j', s')" "quiet F j" "F \<inter> touched = {}"
  shows "calm F s s' \<and> same_owner j j' \<and> quiet F j' \<and> (\<exists>st. r = Result st)"
proof -
  define s1 where "s1 = s\<lparr>i_registered := i_registered s @ [(now e s, a_url a, text_of j Grid_jobid, a_jobid a)]\<rparr>"
  define j4 where "j4 = set_cream_jobid (c_cream_url_postfix e) (a_jobid a) (set_text Complete_cream_jobid
     (replace_all (c_cream_url_postfix e) [] (a_url a) @ ''/'' @ a_jobid a) (set_num Cream_dbid (strtoull (a_dbid a)) (set_status REGISTERED
        (set_text Lease_id [] (set_text Delegation_id d j)))))"
  have q: "quiet F j4" "same_owner j j4" using assms(2,3) by (auto simp: j4_def quiet_def touched_def)
  have "update_then j4 j4 s1 (\<lambda>s2. (Result \<lparr>st_jobid = a_jobid a, st_url = a_url a, st_dbid = a_dbid a\<rparr>, reset_change_flags j4, s2)) = (r, j', s')"
    using assms(1) by (simp add: registered_def Let_def s1_def j4_def)
  from update_then_calm [OF this q(1)] obtain t where "calm F s1 (s1\<lparr>i_jobs := t\<rparr>)" "s' = s1\<lparr>i_jobs := t\<rparr>"
    "j' = reset_change_flags j4" "\<exists>st. r = Result st" by (metis Pair_inject)
  moreover have "calm F s s1" by (simp add: s1_def calm_tables)
  ultimately show ?thesis using calm_trans q(2) by auto
qed

lemma register_new_calm:
  assumes "register_new e j s = Some (r, j', s')" "quiet F j" "F \<inter> touched = {}" "has_proxy j s" "proxy_files s"
  shows "calm F s s' \<and> same_owner j j' \<and> quiet F j'"
proof -
  obtain r1 s1 where l1: "logEvent e (Wms_dequeued j (c_input e)) False True s = (r1, s1)" by fastforce
  with logEvent_calm [OF l1 _ assms(3)] assms(2) obtain j1 where j1: "r1 = Some j1" "same_owner j j1" "quiet F j1" "calm F s s1" by auto
  obtain r2 s2 where l2: "logEvent e (Cream_transfer_start j1) False True s1 = (r2, s2)" by fastforce
  with logEvent_calm [OF l2 _ assms(3)] j1(3) obtain j2 where j2: "r2 = Some j2" "same_owner j1 j2" "quiet F j2" "calm F s1 s2" by auto
  have c2: "calm F s s2" "same_owner j j2" using j1 j2 calm_trans same_owner_trans by blast+
  then have p2: "has_proxy j2 s2" "proxy_files s2" using assms(4,5) has_proxy_calm has_proxy_owner by (auto simp: calm_def)
  from assms(1) l1 l2 j1(1) j2(1) obtain x s3 where x: "register_loop e j2 False False s2 = Some (x, s3)"
    "(case x of Throws ex \<Rightarrow> (Throws ex, j2, s3) | Terminated \<Rightarrow> (Terminated, j2, s3) | Result (d, a) \<Rightarrow> registered e j2 d a s3) = (r, j', s')"
    by (auto simp: register_new_def)
  have c3: "calm F s s3" using register_loop_calm [OF x(1) p2] c2(1) calm_trans by blast
  show ?thesis
  proof (cases x)
    case (Result da)
    obtain d a where "da = (d, a)" by (cases da)
    with x(2) Result have "registered e j2 d a s3 = (r, j', s')" by simp
    from registered_calm [OF this j2(3) assms(3)] c3 c2(2) show ?thesis using calm_trans same_owner_trans by blast
  qed (use x(2) c3 c2(2) j2(3) in auto)
qed

lemma start_registered_calm:
  assumes "start_registered e j st s = (r, j', s')" "quiet F j" "F \<inter> touched = {}"
  shows "calm F s s' \<and> same_owner j j' \<and> ((\<forall>u. r \<noteq> Result u) \<longrightarrow> quiet F j')"
proof -
  let ?call = "Call_start (st_url st) (text_of j User_proxyfile) (st_jobid st)"
  define s1 where "s1 = s\<lparr>i_stats := i_stats s @ [(now e s, now e s, REGISTERED)]\<rparr>"
  obtain x s2 where x: "CreamProxyMethod_execute e True 7 ?call (st_url st) s1 = (x, s2)" by fastforce
  have "calm F s s1" by (simp add: s1_def calm_tables)
  also have "calm F s1 s2" using CreamProxyMethod_frame [of s1 e True 7 ?call "st_url st"] x same_tables_calm by simp
  finally have c2: "calm F s s2" .
  show ?thesis
  proof (cases "\<exists>a. x = Inr a \<and> a_failed a = []")
    case True
    then obtain a where a: "x = Inr a" "a_failed a = []" by blast
    define s3 where "s3 = s2\<lparr>i_stats := i_stats s2 @ [(now e s2, now e s2, IDLE)]\<rparr>"
    define j1 where "j1 = set_status IDLE (set_cream_jobid (c_cream_url_postfix e) (st_jobid st) j)"
    define j2 where "j2 = set_num Cream_dbid (strtoull (st_dbid st)) (set_text Wn_sequence_code (text_of j1 Sequence_code) j1)"
    have q2: "quiet F j2" "same_owner j j2" using assms(2,3) by (auto simp: j2_def j1_def quiet_def touched_def)
    have "calm F s2 s3" by (simp add: s3_def calm_tables)
    with c2 have c3: "calm F s s3" using calm_trans by blast
    have "update_then j2 j2 s3 (\<lambda>s4. log_then e (Cream_transfer_ok (reset_change_flags j2)) True s4 (\<lambda>j3 s5.
        let j4 = set_num Last_seen (now e s5) j3 in update_then j2 j4 s5 (\<lambda>s6. (Result (), j4, s6)))) = (r, j', s')"
      using assms(1) x a by (simp add: start_registered_def Let_def s1_def s3_def j1_def j2_def)
    from update_then_calm [OF this q2(1)] obtain t where t: "calm F s3 (s3\<lparr>i_jobs := t\<rparr>)"
      "log_then e (Cream_transfer_ok (reset_change_flags j2)) True (s3\<lparr>i_jobs := t\<rparr>) (\<lambda>j3 s5.
        let j4 = set_num Last_seen (now e s5) j3 in update_then j2 j4 s5 (\<lambda>s6. (Result (), j4, s6))) = (r, j', s')" by blast
    have q3: "quiet F (event_job (Cream_transfer_ok (reset_change_flags j2)))" by simp
    from log_then_calm [OF t(2) q3 assms(3)] obtain j3 s5 where l: "calm F (s3\<lparr>i_jobs := t\<rparr>) s5" "same_owner j2 j3"
      "update_then j2 (set_num Last_seen (now e s5) j3) s5 (\<lambda>s6. (Result (), set_num Last_seen (now e s5) j3, s6)) = (r, j', s')"
      unfolding Let_def event_job.simps same_owner_reset by blast
    from update_then_calm [OF l(3) q2(1)] obtain u where u: "calm F s5 (s5\<lparr>i_jobs := u\<rparr>)"
      "(Result (), set_num Last_seen (now e s5) j3, s5\<lparr>i_jobs := u\<rparr>) = (r, j', s')" by blast
    have "calm F s (s5\<lparr>i_jobs := u\<rparr>)" using c3 t(1) l(1) u(1) calm_trans by blast
    moreover have "same_owner j (set_num Last_seen (now e s5) j3)" using q2(2) l(2) same_owner_trans by auto
    ultimately show ?thesis using u(2) by auto
  next
    case False
    then have "s' = s2 \<and> j' = j"
      using assms(1) x by (auto simp: start_registered_def Let_def s1_def split: sum.splits list.splits)
    with c2 assms(2) show ?thesis by simp
  qed
qed

lemma try_to_submit_calm:
  assumes "try_to_submit e False j s = Some (r, j', s')" "quiet F j" "F \<inter> touched = {}" "has_proxy j s" "proxy_files s"
  shows "calm F s s' \<and> same_owner j j' \<and> ((\<forall>u. r \<noteq> Result u) \<longrightarrow> quiet F j')"
proof (cases "num_of j Isbproxy_time_end \<le> now e s")
  case True
  with assms(1,2) show ?thesis by (auto simp: try_to_submit_def)
next
  case False
  with assms(1) obtain x j1 s1 where x: "register_new e j s = Some (x, j1, s1)"
    "(case x of Throws ex \<Rightarrow> (Throws ex, j1, s1) | Terminated \<Rightarrow> (Terminated, j1, s1) | Result st \<Rightarrow> start_registered e j1 st s1) = (r, j', s')"
    by (auto simp: try_to_submit_def)
  note c = register_new_calm [OF x(1) assms(2-5)]
  show ?thesis
  proof (cases x)
    case (Result st)
    with x(2) have "start_registered e j1 st s1 = (r, j', s')" by simp
    from start_registered_calm [OF this _ assms(3)] c show ?thesis using calm_trans same_owner_trans by blast
  qed (use x(2) c in auto)
qed

end
