(* ===== verification/Ice_Core.thy ===== *)
theory Ice_Core
  imports Ice_Submit Ice_Pool Job_Dir
begin

text \<open>
  The core of ICE, \<^verbatim>\<open>org.glite.wms.ice/src/ice/IceCore.cpp\<close>: what becomes of a job in a final state
  (\<open>resubmit_or_purge_job\<close> with \<open>deregister_proxy_renewal\<close>, \<open>purge_job\<close>, \<open>purge_wms_storage\<close>, and \<open>init\<close>), and the loop that
  reads requests from the input directory and gives commands to the thread pool (\<open>main_loop\<close>), with the
  source of the requests (\<^verbatim>\<open>iceUtils/Request_source_jobdir.cpp\<close>, \<^verbatim>\<open>iceCommands/Request_source_purger.cpp\<close>).

  The input directory is a job directory, modelled in \<^verbatim>\<open>Job_Dir\<close>. What the parser makes of the text of a
  request, and what the VOMS library says of a proxy, are arguments.
\<close>

section \<open>Jobs in a final state\<close>

definition deregister_proxy_renewal :: "ice_env \<Rightarrow> cream_job \<Rightarrow> ice \<Rightarrow> ice" where
  "deregister_proxy_renewal e j s =
     (if c_disable_deregister e then s else s\<lparr>i_deregistered := i_deregistered s @ [text_of j Grid_jobid]\<rparr>)"

definition purge_wms_storage :: "ice_env \<Rightarrow> cream_job \<Rightarrow> ice \<Rightarrow> ice" where
  "purge_wms_storage e j s =
     (if c_disable_purger e then s else s\<lparr>i_storage_purged := i_storage_purged s @ [text_of j Grid_jobid]\<rparr>)"

text \<open>All that the call can throw is logged and forgotten.\<close>

definition purge_job :: "ice_env \<Rightarrow> cream_job \<Rightarrow> ice \<Rightarrow> ice" where
  "purge_job e j s =
     (if \<not> CheckGridJobID (text_of j Grid_jobid) (i_jobs s) then s
      else if \<not> c_purge_jobs e then s
      else
        let better = px_file (getAnyBetterProxyByDN (text_of j User_dn) s);
            proxy = (if better = [] then text_of j User_proxyfile else better)
        in if e_proxy_error e proxy \<noteq> None then s
           else snd (CreamProxyMethod_execute e True 3 (Call_purge (text_of j Cream_address) proxy (text_of j Cream_jobid)) (text_of j Cream_address) s))"

definition final_status :: "cream_status \<Rightarrow> bool" where
  "final_status st \<longleftrightarrow> st \<in> {DONE_OK, CANCELLED, DONE_FAILED, ABORTED}"

definition resubmit_or_purge_job :: "ice_env \<Rightarrow> cream_job \<Rightarrow> ice \<Rightarrow> bool ice_outcome \<times> ice" where
  "resubmit_or_purge_job e j s =
     (let st = status_of j;
          s1 = (if st \<in> {CANCELLED, DONE_OK} then deregister_proxy_renewal e j s else s);
          s2 = (if final_status st then remove_job (text_of j Grid_jobid) (release_proxy j s1) else s1);
          (r, s3) = (if st \<in> {DONE_FAILED, ABORTED} \<and> \<not> flag_of j Killed_byice then resubmit_job e j ''Job resubmitted by ICE'' s2
                     else (Result (), s2));
          s4 = (if final_status st then purge_job e j s3 else s3);
          s5 = (if st = CANCELLED then purge_wms_storage e j s4 else s4)
      in case r of Result _ \<Rightarrow> (Result (final_status st), s5) | _ \<Rightarrow> (Terminated, s3))"

text \<open>\<open>IceCore::init\<close>: the same for the jobs that the database has in a final state; \<open>gids\<close> is the order of the rows.\<close>

fun treat_terminated :: "ice_env \<Rightarrow> cream_job list \<Rightarrow> ice \<Rightarrow> unit ice_outcome \<times> ice" where
  "treat_terminated e [] s = (Result (), s)"
| "treat_terminated e (j # js) s = (case resubmit_or_purge_job e j s of
       (Result _, s1) \<Rightarrow> treat_terminated e js s1
     | (_, s1) \<Rightarrow> (Terminated, s1))"

definition IceCore_init :: "ice_env \<Rightarrow> string list \<Rightarrow> ice \<Rightarrow> unit ice_outcome \<times> ice" where
  "IceCore_init e gids s = treat_terminated e (GetTerminatedJobs gids (i_jobs s)) s"

section \<open>The source of the requests\<close>

text \<open>\<open>get_requests\<close>: at most \<open>max_size\<close> files, in the order of their names. A file that cannot be renamed is passed over.\<close>

fun get_files :: "(string \<Rightarrow> bool) \<Rightarrow> nat \<Rightarrow> string list \<Rightarrow> string list \<Rightarrow> job_dir \<Rightarrow> string list \<times> job_dir" where
  "get_files refuses max_size [] result jd = (result, jd)"
| "get_files refuses max_size (file # files) result jd =
     (if max_size \<le> length result then (result, jd)
      else case set_old (refuses file) file jd of
          Inl _ \<Rightarrow> get_files refuses max_size files result jd
        | Inr jd' \<Rightarrow> get_files refuses max_size files (result @ [file]) jd')"

definition get_requests :: "(string \<Rightarrow> bool) \<Rightarrow> nat \<Rightarrow> job_dir \<Rightarrow> string list \<times> job_dir" where
  "get_requests refuses max_size jd = get_files refuses max_size (new_entries jd) [] jd"

text \<open>\<open>remove_request\<close>, from the main loop or from the purger at the end of a command: the file of \<open>old\<close>, if it is there.\<close>

definition remove_request :: "string \<Rightarrow> job_dir \<Rightarrow> job_dir" where
  "remove_request file jd = remove_from_input file jd"

definition get_size :: "job_dir \<Rightarrow> nat" where
  "get_size jd = length (new_entries jd)"

section \<open>The main loop\<close>

text \<open>What the parser makes of a request.\<close>

datatype request = Bad_request | Cancel_request string | Submit_request cream_job | Reschedule_request cream_job

record ice_main =
  im_ice :: ice
  im_dir :: job_dir
  im_pool :: ice_pool
  im_next :: nat
  im_cmds :: "(nat \<times> string) list"
  im_count_old :: nat

definition new_command :: "command_kind \<Rightarrow> string \<Rightarrow> string \<Rightarrow> ice_main \<Rightarrow> ice_main" where
  "new_command k gid file m =
     m\<lparr>im_pool := add_request \<lparr>cmd_no = im_next m, cmd_kind = k, cmd_job = gid\<rparr> (im_pool m),
       im_next := Suc (im_next m), im_cmds := im_cmds m @ [(im_next m, file)]\<rparr>"

definition drop_request :: "string \<Rightarrow> ice_main \<Rightarrow> ice_main" where
  "drop_request file m = m\<lparr>im_dir := remove_request file (im_dir m)\<rparr>"

text \<open>A submission or rescheduling: a bad proxy aborts the job, a CE that is not to be called leaves the file in \<open>old\<close>.\<close>

definition accept_job :: "ice_env \<Rightarrow> command_kind \<Rightarrow> string \<Rightarrow> cream_job \<Rightarrow> ice_main \<Rightarrow> ice_main" where
  "accept_job e k file j m = (case e_proxy_error e (text_of j User_proxyfile) of
       Some what \<Rightarrow>
         let j1 = set_status ABORTED (set_failure_reason what j);
             s = (case mkEvent j1 False of None \<Rightarrow> im_ice m | Some ev \<Rightarrow> snd (logEvent e ev (cancel_code_used j1) False (im_ice m)))
         in drop_request file (m\<lparr>im_ice := s\<rparr>)
     | None \<Rightarrow>
         let (listed, s) = is_blacklisted e (text_of j Cream_address) (im_ice m)
         in if listed then m\<lparr>im_ice := s\<rparr> else new_command k (text_of j Grid_jobid) file (m\<lparr>im_ice := s\<rparr>))"

definition take_request :: "ice_env \<Rightarrow> (string \<Rightarrow> request) \<Rightarrow> string \<Rightarrow> ice_main \<Rightarrow> ice_main" where
  "take_request e parse file m = (case parse (case item_value file (im_dir m) of None \<Rightarrow> [] | Some t \<Rightarrow> t) of
       Bad_request \<Rightarrow> drop_request file m
     | Cancel_request gid \<Rightarrow> new_command Cancel_cmd gid file m
     | Submit_request j \<Rightarrow> accept_job e Submit_cmd file j m
     | Reschedule_request j \<Rightarrow> accept_job e Reschedule_cmd file j m)"

text \<open>Every two minutes all files of \<open>old\<close> are renamed to \<open>new\<close>.\<close>

definition move_old :: "ice_main \<Rightarrow> ice_main" where
  "move_old m = m\<lparr>im_dir := check_input (im_dir m), im_count_old := 0\<rparr>"

text \<open>One turn of the loop, the check of the memory apart.\<close>

definition loop_turn :: "ice_env \<Rightarrow> (string \<Rightarrow> request) \<Rightarrow> (string \<Rightarrow> bool) \<Rightarrow> int \<Rightarrow> ice_main \<Rightarrow> ice_main" where
  "loop_turn e parse refuses max_ice_threads m =
     (let m1 = (if max_ice_threads < int (get_command_count (im_pool m)) then m
                else let (files, jd) = get_requests refuses (nat (max 5 max_ice_threads)) (im_dir m)
                  in fold (take_request e parse) files (m\<lparr>im_dir := jd\<rparr>));
          m2 = m1\<lparr>im_count_old := Suc (im_count_old m1)\<rparr>
      in if 120 \<le> im_count_old m2 then move_old m2 else m2)"

text \<open>The end of a command: its purger removes the request.\<close>

definition command_ends :: "nat \<Rightarrow> ice_main \<Rightarrow> ice_main" where
  "command_ends no m = (case map_of (im_cmds m) no of None \<Rightarrow> m | Some file \<Rightarrow> drop_request file m)"

end
