(* ===== verification/Ice_Count.thy ===== *)
theory Ice_Count
  imports Ice_Rows Ice_Core
begin

text \<open>
  The counters of the proxies are the numbers of the jobs that need them: the invariant of the database of ICE, that the
  commands and the treatment of finished jobs keep it, and the two commands that break it when they meet a
  job in an unexpected state.
\<close>

section \<open>The invariant\<close>

text \<open>The jobs of a user and a server that renews the proxies of the user.\<close>

definition users :: "jobs_table \<Rightarrow> string \<times> string \<Rightarrow> string set" where
  "users t k = {g. \<exists>r. t g = Some r \<and> r_flag r Proxy_renewable \<and> (r_text r User_dn, r_text r Myproxy_address) = k}"

definition number_of :: "string set \<Rightarrow> int option" where
  "number_of S = (if S = {} then None else Some (int (card S)))"

text \<open>The rows have their key, and a proxy that is renewed has a server.\<close>

definition good_rows :: "jobs_table \<Rightarrow> bool" where
  "good_rows t \<longleftrightarrow> finite (dom t) \<and>
     (\<forall>g r. t g = Some r \<longrightarrow> r_text r Grid_jobid = g \<and> (r_flag r Proxy_renewable \<longrightarrow> r_text r Myproxy_address \<noteq> []))"

definition counted :: "ice \<Rightarrow> bool" where
  "counted s \<longleftrightarrow> good_rows (i_jobs s) \<and> proxy_files s \<and>
     (\<forall>dn my. my \<noteq> [] \<longrightarrow> counter s (dn, my) = number_of (users (i_jobs s) (dn, my)))"

definition owner_fields :: "job_field set" where
  "owner_fields = {TextF Grid_jobid, TextF User_dn, TextF Myproxy_address, FlagF Proxy_renewable}"

lemma owner_fields_untouched [simp]: "owner_fields \<inter> touched = {}"
  by (auto simp: owner_fields_def touched_def)

text \<open>The row of a job in the table has the owner of the job.\<close>

definition owns :: "cream_job \<Rightarrow> jobs_table \<Rightarrow> bool" where
  "owns j t \<longleftrightarrow> (\<exists>r. t (text_of j Grid_jobid) = Some r \<and> (\<forall>f\<in>owner_fields. same_field f (j_row j) r))"

lemma owns_keeps: "keeps owner_fields t t' \<Longrightarrow> owns j t \<Longrightarrow> owns j t'"
  unfolding owns_def using keeps_some same_field_trans by metis

lemma owns_owner: "same_owner j j' \<Longrightarrow> owns j t \<Longrightarrow> owns j' t"
  by (auto simp: owns_def owner_fields_def same_owner_def)

lemma keeps_users: "keeps owner_fields t t' \<Longrightarrow> users t' k = users t k"
proof -
  assume k: "keeps owner_fields t t'"
  show ?thesis
  proof (rule set_eqI)
    fix g
    show "g \<in> users t' k \<longleftrightarrow> g \<in> users t k"
      using keeps_none [OF k, of g] keeps_some [OF k, of g] by (cases "t g") (auto simp: users_def owner_fields_def)
  qed
qed

lemma keeps_good_rows: "keeps owner_fields t t' \<Longrightarrow> good_rows t \<Longrightarrow> good_rows t'"
proof -
  assume k: "keeps owner_fields t t'" and g: "good_rows t"
  have d: "dom t' = dom t" using keeps_none [OF k] by (auto simp: dom_def)
  have "r_text r' Grid_jobid = g \<and> (r_flag r' Proxy_renewable \<longrightarrow> r_text r' Myproxy_address \<noteq> [])" if "t' g = Some r'" for g r'
  proof -
    from that d obtain r where r: "t g = Some r" by blast
    from keeps_some [OF k r] that have "\<forall>f\<in>owner_fields. same_field f r r'" by simp
    then show ?thesis using g r by (auto simp: good_rows_def owner_fields_def)
  qed
  with g d show ?thesis by (simp add: good_rows_def)
qed

lemma counted_calm: "calm owner_fields s s' \<Longrightarrow> counted s \<Longrightarrow> counted s'"
  using keeps_users [of "i_jobs s" "i_jobs s'"] keeps_good_rows [of "i_jobs s" "i_jobs s'"] by (auto simp: counted_def calm_def)

section \<open>Entry and removal of a job\<close>

lemma counter_update: "counter (UpdateProxyCounterByDN dn my c s) k = map_option (if k = (dn, my) then \<lambda>_. c else id) (counter s k)"
  by (cases "map_of (i_proxies s) k") (auto simp: counter_def UpdateProxyCounterByDN_def map_of_update_entry)

lemma counter_create: "counter (CreateProxyField dn my p s) = (counter s)((dn, my) \<mapsto> px_counter p)"
  by (auto simp: counter_def CreateProxyField_def update_conv')

lemma counter_remove: "counter (RemoveProxyByDN dn my s) = (counter s)((dn, my) := None)"
  by (auto simp: counter_def RemoveProxyByDN_def delete_conv')

lemma counter_jobs [simp]: "counter (s\<lparr>i_jobs := t\<rparr>) = counter s" "counter (RemoveDelegationByDNMyProxy dn my s) = counter s"
  by (auto simp: counter_def RemoveDelegationByDNMyProxy_def)

lemma counter_some: "counter s k = Some c \<Longrightarrow> \<exists>p. map_of (i_proxies s) k = Some p \<and> px_counter p = c"
  by (auto simp: counter_def)

lemma enter_counter_renewable:
  assumes "flag_of j Proxy_renewable" "\<And>cs p. e_copy e cs p"
  shows "counter (enter_job e j s) k = (if k = owner_key j then Some (case counter s k of None \<Rightarrow> 1 | Some c \<Rightarrow> c + 1) else counter s k)"
proof (cases "counter s (owner_key j)")
  case None
  then have "map_of (i_proxies s) (text_of j User_dn, text_of j Myproxy_address) = None" by (simp add: counter_def owner_key_def)
  with None assms show ?thesis
    by (simp add: enter_job_def incrementUserProxyCounter_def GetProxyInfoByDN_MYProxy_def setBetterProxy_def counter_create owner_key_def)
next
  case (Some c)
  then obtain p where "map_of (i_proxies s) (text_of j User_dn, text_of j Myproxy_address) = Some p" "px_counter p = c"
    using counter_some unfolding owner_key_def by blast
  with Some assms show ?thesis
    by (auto simp: enter_job_def incrementUserProxyCounter_def GetProxyInfoByDN_MYProxy_def counter_update owner_key_def option.map_id)
qed

lemma enter_counter_other:
  "\<not> flag_of j Proxy_renewable \<Longrightarrow> my \<noteq> [] \<Longrightarrow> counter (enter_job e j s) (dn, my) = counter s (dn, my)"
  by (auto simp: enter_job_def setUserProxyIfLonger_Legacy_def counter_create Let_def split: option.split)

lemma release_counter:
  "counter (release_proxy j s) k =
     (if flag_of j Proxy_renewable \<and> k = owner_key j then (case counter s k of None \<Rightarrow> None | Some c \<Rightarrow> if c = 1 then None else Some (c - 1))
      else counter s k)"
proof (cases "counter s (owner_key j)")
  case None
  then have "map_of (i_proxies s) (text_of j User_dn, text_of j Myproxy_address) = None" by (simp add: counter_def owner_key_def)
  with None show ?thesis by (simp add: release_proxy_def decrementUserProxyCounter_def GetProxyInfoByDN_MYProxy_def)
next
  case (Some c)
  then obtain p where "map_of (i_proxies s) (text_of j User_dn, text_of j Myproxy_address) = Some p" "px_counter p = c"
    using counter_some unfolding owner_key_def by blast
  with Some show ?thesis
    by (auto simp: release_proxy_def decrementUserProxyCounter_def GetProxyInfoByDN_MYProxy_def counter_update counter_remove owner_key_def
        Let_def option.map_id)
qed

lemma update_entries: "set (AList.update k p xs) \<subseteq> insert (k, p) (set xs)"
  by (induction xs) (auto split: if_splits)

lemma enter_files: "proxy_files s \<Longrightarrow> proxy_files (enter_job e j s)"
proof -
  have u: "proxy_files (UpdateProxyCounterByDN dn my c s)" if "proxy_files s" for dn my c s
    using that by (auto simp: proxy_files_def UpdateProxyCounterByDN_def split: if_splits)
  have c: "proxy_files (CreateProxyField dn my p s)" if "proxy_files s" "px_file p \<noteq> []" for dn my p s
    using that update_entries [of "(dn, my)" p "i_proxies s"] by (fastforce simp: proxy_files_def CreateProxyField_def)
  assume "proxy_files s"
  then have "proxy_files (s\<lparr>i_jobs := CreateJob j (i_jobs s)\<rparr>)" by (simp add: proxy_files_def)
  then show ?thesis
    by (auto simp: enter_job_def incrementUserProxyCounter_def setBetterProxy_def setUserProxyIfLonger_Legacy_def localProxy_path_def Let_def
        intro!: u c split: option.split)
qed

lemma release_files: "proxy_files s \<Longrightarrow> proxy_files (release_proxy j s)"
  by (auto simp: proxy_files_def release_proxy_def decrementUserProxyCounter_def UpdateProxyCounterByDN_def RemoveProxyByDN_def
      RemoveDelegationByDNMyProxy_def AList.delete_eq Let_def split: option.splits if_splits)

lemma enter_jobs [simp]: "i_jobs (enter_job e j s) = CreateJob j (i_jobs s)"
  by (auto simp: enter_job_def incrementUserProxyCounter_def setBetterProxy_def setUserProxyIfLonger_Legacy_def CreateProxyField_def
      UpdateProxyCounterByDN_def Let_def split: option.split)

lemma release_jobs [simp]: "i_jobs (release_proxy j s) = i_jobs s"
  by (auto simp: release_proxy_def decrementUserProxyCounter_def UpdateProxyCounterByDN_def RemoveProxyByDN_def
      RemoveDelegationByDNMyProxy_def Let_def split: option.splits)

lemma finite_users: "good_rows t \<Longrightarrow> finite (users t k)"
  by (rule finite_subset [of _ "dom t"]) (auto simp: good_rows_def users_def)

lemma number_insert: "finite S \<Longrightarrow> g \<notin> S \<Longrightarrow> number_of (insert g S) = Some (case number_of S of None \<Rightarrow> 1 | Some c \<Rightarrow> c + 1)"
  by (simp add: number_of_def)

lemma number_remove:
  assumes "finite S" "g \<in> S"
  shows "number_of (S - {g}) = (case number_of S of None \<Rightarrow> None | Some c \<Rightarrow> if c = 1 then None else Some (c - 1))"
proof -
  have n: "0 < card S" using assms by (auto simp: card_gt_0_iff)
  have "S - {g} = {} \<longleftrightarrow> card S = 1" using assms by (metis One_nat_def card_1_singletonE card_insert_disjoint
      card.empty finite.emptyI insert_Diff insert_not_empty Diff_eq_empty_iff empty_iff singletonD singleton_insert_inj_eq subset_singletonD)
  with assms n show ?thesis by (auto simp: number_of_def card_Diff_singleton)
qed

lemma users_create:
  "t (text_of j Grid_jobid) = None \<Longrightarrow> users (CreateJob j t) k =
     (if flag_of j Proxy_renewable \<and> k = owner_key j then insert (text_of j Grid_jobid) (users t k) else users t k)"
  by (auto simp: users_def CreateJob_def owner_key_def)

lemma users_remove: "users (RemoveJobByGid g t) k = users t k - {g}"
  by (auto simp: users_def RemoveJobByGid_def)

lemma owns_users: "owns j t \<Longrightarrow> text_of j Grid_jobid \<in> users t k \<longleftrightarrow> flag_of j Proxy_renewable \<and> k = owner_key j"
  by (auto simp: owns_def users_def owner_fields_def owner_key_def)

lemma counted_enter:
  assumes "counted s" "i_jobs s (text_of j Grid_jobid) = None" "flag_of j Proxy_renewable \<Longrightarrow> text_of j Myproxy_address \<noteq> []" "\<And>cs p. e_copy e cs p"
  shows "counted (enter_job e j s) \<and> has_proxy j (enter_job e j s) \<and> owns j (i_jobs (enter_job e j s))"
proof -
  let ?s = "enter_job e j s" and ?g = "text_of j Grid_jobid"
  have rows: "good_rows (i_jobs s)" "proxy_files s" and n: "my \<noteq> [] \<Longrightarrow> counter s (dn, my) = number_of (users (i_jobs s) (dn, my))" for dn my
    using assms(1) by (auto simp: counted_def)
  have "good_rows (i_jobs ?s)" using rows(1) assms(3) by (auto simp: good_rows_def CreateJob_def)
  moreover have "counter ?s (dn, my) = number_of (users (i_jobs ?s) (dn, my))" if my: "my \<noteq> []" for dn my
  proof (cases "flag_of j Proxy_renewable \<and> (dn, my) = owner_key j")
    case True
    have "?g \<notin> users (i_jobs s) (dn, my)" using assms(2) by (simp add: users_def)
    with True my n [OF my, of dn] number_insert [OF finite_users [OF rows(1)]] assms(2,4) show ?thesis
      by (simp add: enter_counter_renewable users_create)
  next
    case False
    with my n [OF my, of dn] assms(2,4) show ?thesis
      by (cases "flag_of j Proxy_renewable") (auto simp: enter_counter_renewable enter_counter_other users_create)
  qed
  moreover have "has_proxy j ?s" using enter_counter_renewable [OF _ assms(4)] by (simp add: has_proxy_def)
  ultimately show ?thesis using enter_files [OF rows(2)] by (auto simp: counted_def owns_def CreateJob_def)
qed

lemma counted_leave:
  assumes "counted s" "owns j (i_jobs s)"
  shows "counted (remove_job (text_of j Grid_jobid) (release_proxy j s))" "counted (release_proxy j (remove_job (text_of j Grid_jobid) s))"
proof -
  let ?s = "remove_job (text_of j Grid_jobid) (release_proxy j s)" and ?u = "release_proxy j (remove_job (text_of j Grid_jobid) s)"
  have rows: "good_rows (i_jobs s)" "proxy_files s" and n: "my \<noteq> [] \<Longrightarrow> counter s (dn, my) = number_of (users (i_jobs s) (dn, my))" for dn my
    using assms(1) by (auto simp: counted_def)
  have c: "(if flag_of j Proxy_renewable \<and> k = owner_key j then case number_of (users (i_jobs s) k) of None \<Rightarrow> None | Some c \<Rightarrow> if c = 1 then None else Some (c - 1)
      else number_of (users (i_jobs s) k)) = number_of (users (i_jobs s) k - {text_of j Grid_jobid})" for k
    using owns_users [OF assms(2), of k] number_remove [OF finite_users [OF rows(1), of k]] by (cases "flag_of j Proxy_renewable \<and> k = owner_key j") auto
  have r: "good_rows (RemoveJobByGid (text_of j Grid_jobid) (i_jobs s))"
    using rows(1) by (auto simp: good_rows_def RemoveJobByGid_def)
  have "proxy_files (s\<lparr>i_jobs := t\<rparr>)" for t using rows(2) by (simp add: proxy_files_def)
  then have f: "proxy_files ?s" "proxy_files ?u"
    using release_files [of "remove_job (text_of j Grid_jobid) s" j] release_files [OF rows(2), of j] by (simp_all add: remove_job_def proxy_files_def)
  have v: "counter (release_proxy j u) (dn, my) = number_of (users (i_jobs s) (dn, my) - {text_of j Grid_jobid})"
    if "my \<noteq> []" "counter u = counter s" for u dn my
    unfolding release_counter that(2) n [OF that(1)] by (rule c)
  show "counted ?s" using r f(1) v [of _ s] by (simp add: counted_def remove_job_def users_remove)
  show "counted ?u" using r f(2) v by (simp add: counted_def remove_job_def users_remove)
qed

section \<open>The commands\<close>

lemma resubmission_failed_calm:
  assumes "resubmission_failed e j what s = (r, s')" "quiet F j" "F \<inter> touched = {}" "TextF Failure_reason \<notin> F"
  shows "calm F s s' \<and> r = Result ()"
proof -
  have q: "quiet F (event_job (Ns_enqueued_fail j (c_wm_input e) what))"
    "quiet F (event_job (Job_aborted (set_failure_reason (''resubmission failed: '' @ what) j)))"
    using assms(2,4) by (auto simp: quiet_def)
  obtain r1 s1 where l1: "logEvent e (Ns_enqueued_fail j (c_wm_input e) what) False True s = (r1, s1)" by fastforce
  obtain r2 s2 where l2: "logEvent e (Job_aborted (set_failure_reason (''resubmission failed: '' @ what) j)) False True s1 = (r2, s2)" by fastforce
  from logEvent_calm [OF l1 q(1) assms(3)] logEvent_calm [OF l2 q(2) assms(3)] l1 l2 assms(1) show ?thesis
    using calm_trans by (auto simp: resubmission_failed_def)
qed

lemma resubmit_job_calm:
  assumes "resubmit_job e j reason s = (r, s')" "quiet F j" "F \<inter> touched = {}" "TextF Failure_reason \<notin> F"
  shows "calm F s s' \<and> r = Result ()"
proof -
  obtain r0 s0 where l0: "logEvent e (Job_aborted j) (cancel_code_used j) True s = (r0, s0)" by fastforce
  obtain r1 s1 where l1: "logEvent e (Ice_resubmission j reason) False True s = (r1, s1)" by fastforce
  from logEvent_calm [OF l1 _ assms(3)] assms(2) obtain j1 where j1: "r1 = Some j1" "quiet F j1" "calm F s s1" by auto
  obtain r2 s2 where l2: "logEvent e (Ns_enqueued_start j1 (c_wm_input e)) False True s1 = (r2, s2)" by fastforce
  from logEvent_calm [OF l2 _ assms(3)] j1(2) obtain j2 where j2: "r2 = Some j2" "quiet F j2" "calm F s1 s2" by auto
  define s3 where "s3 = s2\<lparr>i_wm_input := i_wm_input s2 @ [(text_of j2 Grid_jobid, text_of j2 Sequence_code)]\<rparr>"
  obtain r4 s4 where l4: "logEvent e (Ns_enqueued_ok j2 (c_wm_input e)) False True s3 = (r4, s4)" by fastforce
  from logEvent_calm [OF l4 _ assms(3)] j2(2) obtain j4 where j4: "r4 = Some j4" "calm F s3 s4" by auto
  have c0: "calm F s s0" "\<exists>k. r0 = Some k" using logEvent_calm [OF l0 _ assms(3)] assms(2) by auto
  have "calm F s2 s3" by (simp add: s3_def calm_tables)
  with j1 j2 j4 have c4: "calm F s s2" "calm F s s4" using calm_trans by blast+
  consider "c_noresubmit e \<or> e_proxy_end e (text_of j User_proxyfile) \<le> now e s + 300"
    | "\<not> c_noresubmit e" "\<not> e_proxy_end e (text_of j User_proxyfile) \<le> now e s + 300" by blast
  then show ?thesis
  proof cases
    case 1
    then have "s' = s \<and> r = Result () \<or> s' = s0 \<and> r = Result ()"
      using assms(1) l0 c0(2) by (cases "c_noresubmit e") (auto simp: resubmit_job_def)
    with c0(1) show ?thesis by auto
  next
    case 2
    show ?thesis
    proof (cases "e_deliver e (i_wm_input s2)")
      case True
      with 2 assms(1) l1 l2 j1(1) j2(1) j4(1) l4 have "s' = s4 \<and> r = Result ()" by (simp add: resubmit_job_def s3_def)
      with c4 show ?thesis by simp
    next
      case False
      with 2 assms(1) l1 l2 j1(1) j2(1) have "resubmission_failed e j2 ''cannot create file'' s2 = (r, s')" by (simp add: resubmit_job_def)
      from resubmission_failed_calm [OF this j2(2) assms(3,4)] c4 show ?thesis using calm_trans by blast
    qed
  qed
qed

text \<open>What the handlers leave: the job and the counter as they are, or the job gone and its proxy released.\<close>

definition left_by :: "cream_job \<Rightarrow> ice \<Rightarrow> ice \<Rightarrow> bool" where
  "left_by j s s' \<longleftrightarrow> calm owner_fields s s' \<or>
     (\<exists>s1 j1. calm owner_fields s s1 \<and> same_owner j j1 \<and> s' = remove_job (text_of j Grid_jobid) (release_proxy j1 s1))"

lemma counted_left:
  assumes "left_by j s s'" "counted s" "owns j (i_jobs s)"
  shows "counted s'"
proof (cases "calm owner_fields s s'")
  case True
  then show ?thesis using assms(2) counted_calm by blast
next
  case False
  with assms(1) obtain s1 j1 where s1: "calm owner_fields s s1" "same_owner j j1" "s' = remove_job (text_of j Grid_jobid) (release_proxy j1 s1)"
    by (auto simp: left_by_def)
  have "owns j1 (i_jobs s1)" using s1(1,2) assms(3) owns_keeps owns_owner by (auto simp: calm_def)
  with counted_leave(1) [of s1 j1] counted_calm [OF s1(1) assms(2)] s1(2,3) show ?thesis by (simp add: same_owner_def)
qed

lemma fatal_handler_left:
  assumes "fatal_handler e what j s = (r, s')" "quiet owner_fields j"
  shows "left_by j s s'"
proof -
  obtain r1 s1 where l1: "logEvent e (Cream_transfer_fail j (''Transfer to CREAM failed due to exception: '' @ what)) False True s = (r1, s1)" by fastforce
  from logEvent_calm [OF l1 _ owner_fields_untouched] assms(2) obtain j1 where j1: "r1 = Some j1" "quiet owner_fields j1"
    "same_owner j j1" "calm owner_fields s s1" by auto
  define reason where "reason = ''Transfer to CREAM ['' @ text_of j1 Cream_address @ ''] failed due to exception: '' @ what"
  obtain r2 s2 where l2: "logEvent e (Job_aborted (set_failure_reason reason j1)) False False s1 = (r2, s2)" by fastforce
  have "quiet owner_fields (set_failure_reason reason j1)" using j1(2) by (auto simp: quiet_def owner_fields_def)
  with logEvent_calm [OF l2 _ owner_fields_untouched] obtain j2 where j2: "r2 = Some j2" "same_owner (set_failure_reason reason j1) j2"
    "calm owner_fields s1 s2" by auto
  then have "same_owner j j2" "calm owner_fields s s2" using j1 same_owner_trans calm_trans by (auto simp: same_owner_def set_failure_reason_def set_text_def)
  moreover have "s' = remove_job (text_of j Grid_jobid) (release_proxy j2 s2)"
    using assms(1) l1 j1(1) l2 j2(1) by (simp add: fatal_handler_def reason_def)
  ultimately show ?thesis by (auto simp: left_by_def)
qed

lemma transient_handler_left:
  assumes "transient_handler e what j s = (r, s')" "quiet owner_fields j"
  shows "left_by j s s'"
proof -
  let ?j = "set_failure_reason (''Transfer to CREAM failed due to exception: '' @ what) j"
  have q: "quiet owner_fields ?j" using assms(2) by (auto simp: quiet_def owner_fields_def)
  obtain r1 s1 where l1: "logEvent e (Cream_transfer_fail ?j what) False False s = (r1, s1)" by fastforce
  from logEvent_calm [OF l1 _ owner_fields_untouched] q obtain j1 where j1: "r1 = Some j1" "quiet owner_fields j1"
    "same_owner ?j j1" "calm owner_fields s s1" by auto
  obtain r2 s2 where l2: "logEvent e (Job_done_failed j1) False False s1 = (r2, s2)" by fastforce
  from logEvent_calm [OF l2 _ owner_fields_untouched] j1(2) obtain j2 where j2: "r2 = Some j2" "quiet owner_fields j2" "same_owner j1 j2"
    "calm owner_fields s1 s2" by auto
  define reason where "reason = ''Resubmitting because of exception '' @ what @ '' CEUrl ['' @ text_of j2 Cream_address @ '']''"
  obtain r3 s3 where l3: "resubmit_job e j2 reason s2 = (r3, s3)" by fastforce
  have c3: "calm owner_fields s2 s3" "r3 = Result ()"
    using resubmit_job_calm [OF l3 j2(2) owner_fields_untouched] by (simp_all add: owner_fields_def)
  have "same_owner j j2" using j1(3) j2(3) by (simp add: same_owner_def set_failure_reason_def set_text_def)
  moreover have "calm owner_fields s s3" using j1(4) j2(4) c3(1) calm_trans by blast
  moreover have "s' = remove_job (text_of j Grid_jobid) (release_proxy j2 s3)"
    using assms(1) l1 j1(1) l2 j2(1) l3 c3(2) by (simp add: transient_handler_def reason_def)
  ultimately show ?thesis by (auto simp: left_by_def)
qed

lemma blacklist_handler_left:
  assumes "blacklist_handler e j s = (r, s')" "quiet owner_fields j"
  shows "left_by j s s'"
proof -
  define j1 where "j1 = set_status ABORTED (set_failure_reason (''Job scheduled to the blacklisted CE ['' @ text_of j Cream_address @
            ''] will be aborted immediately as specified in the WMS configuration'') j)"
  have q: "quiet owner_fields (event_job (Job_aborted j1))" using assms(2) by (auto simp: quiet_def owner_fields_def j1_def)
  obtain r1 s1 where l1: "logEvent e (Job_aborted j1) False False s = (r1, s1)" by fastforce
  have "mkEvent j1 False = Some (Job_aborted j1)" by (simp add: mkEvent_def j1_def set_status_def)
  with assms(1) l1 logEvent_calm [OF l1 q owner_fields_untouched] have "calm owner_fields s s'"
    unfolding blacklist_handler_def Let_def j1_def [symmetric] by auto
  then show ?thesis by (simp add: left_by_def)
qed

lemma submit_new_left:
  assumes "submit_execute e j s = Some (r, s')" "look_up j s = (New_job, s1)" "has_proxy j (enter_job e j s1)" "proxy_files (enter_job e j s1)"
  shows "left_by j (enter_job e j s1) s'"
proof -
  let ?j = "reset_change_flags j" and ?s = "enter_job e j s1"
  have same: "same_owner j ?j" by simp
  from assms(1,2) obtain x j2 s3 where x: "try_to_submit e False ?j ?s = Some (x, j2, s3)"
    "(case x of Result _ \<Rightarrow> (Result (), s3) | Throws (ice_ex.Fatal_ex what) \<Rightarrow> fatal_handler e what j2 s3
      | Throws (ice_ex.Transient_ex what) \<Rightarrow> transient_handler e what j2 s3 | Throws (BlackListFailJob_ex what) \<Rightarrow> blacklist_handler e j2 s3
      | Terminated \<Rightarrow> (Terminated, s3)) = (r, s')" by (auto simp: submit_execute_def)
  have h: "has_proxy ?j ?s" using assms(3) has_proxy_owner [OF same] by simp
  have c: "calm owner_fields ?s s3" "same_owner j j2" "(\<forall>u. x \<noteq> Result u) \<Longrightarrow> quiet owner_fields j2"
    using try_to_submit_calm [OF x(1) quiet_reset owner_fields_untouched h assms(4)] by auto
  have "left_by j2 s3 s'"
  proof (cases x)
    case (Throws ex)
    with c(3) have q: "quiet owner_fields j2" by simp
    show ?thesis using x(2) Throws fatal_handler_left [OF _ q] transient_handler_left [OF _ q] blacklist_handler_left [OF _ q]
      by (cases ex) auto
  qed (use x(2) in \<open>auto simp: left_by_def\<close>)
  moreover have "text_of j2 Grid_jobid = text_of j Grid_jobid" using c(2) by (simp add: same_owner_def)
  ultimately show ?thesis unfolding left_by_def using c(1,2) calm_trans same_owner_trans by metis
qed

lemma submit_fresh_counted:
  assumes "submit_execute e j s = Some (r, s')" "counted s" "i_jobs s (text_of j Grid_jobid) = None"
    and "flag_of j Proxy_renewable \<Longrightarrow> text_of j Myproxy_address \<noteq> []" "\<And>cs p. e_copy e cs p"
  shows "counted s'"
proof -
  have l: "look_up j s = (New_job, s)" using assms(3) by (simp add: look_up_def GetJobByGid_def)
  note c = counted_enter [OF assms(2,3,4,5)]
  then have "proxy_files (enter_job e j s)" by (simp add: counted_def)
  from submit_new_left [OF assms(1) l _ this] c counted_left show ?thesis by blast
qed

lemma finished_counted:
  assumes "resubmit_or_purge_job e j s = (r, s')" "counted s" "GetJobByGid g (i_jobs s) = Some j"
  shows "counted s'"
proof -
  from assms(3) obtain rw where rw: "i_jobs s g = Some rw" "j = \<lparr>j_row = rw, j_changed = {}\<rparr>" by (auto simp: GetJobByGid_def)
  have g: "text_of j Grid_jobid = g" using assms(2) rw by (simp add: counted_def good_rows_def)
  have o: "owns j (i_jobs s)" using rw g by (auto simp: owns_def)
  have q: "quiet owner_fields j" using rw(2) by (simp add: quiet_def)
  define s1 where "s1 = (if status_of j \<in> {CANCELLED, DONE_OK} then deregister_proxy_renewal e j s else s)"
  define s2 where "s2 = (if final_status (status_of j) then remove_job (text_of j Grid_jobid) (release_proxy j s1) else s1)"
  obtain x s3 where x: "(if status_of j \<in> {DONE_FAILED, ABORTED} \<and> \<not> flag_of j Killed_byice then resubmit_job e j ''Job resubmitted by ICE'' s2
    else (Result (), s2)) = (x, s3)" by fastforce
  have t1: "i_jobs s1 = i_jobs s" "i_proxies s1 = i_proxies s" by (auto simp: s1_def deregister_proxy_renewal_def)
  then have "calm owner_fields s s1" by (rule calm_tables)
  then have "counted s2" using counted_calm [OF _ assms(2)] counted_leave(1) [of s1 j] o t1(1) by (auto simp: s2_def)
  moreover have "calm owner_fields s2 s3" using x resubmit_job_calm [OF _ q owner_fields_untouched] by (auto simp: owner_fields_def split: if_splits)
  ultimately have c3: "counted s3" using counted_calm by blast
  have p: "calm owner_fields u (purge_job e j u)" for u
    using CreamProxyMethod_frame same_tables_calm by (auto simp: purge_job_def Let_def)
  have w: "calm owner_fields u (purge_wms_storage e j u)" for u by (auto simp: purge_wms_storage_def intro: calm_tables)
  define s4 where "s4 = (if final_status (status_of j) then purge_job e j s3 else s3)"
  define s5 where "s5 = (if status_of j = CANCELLED then purge_wms_storage e j s4 else s4)"
  have "(case x of Result _ \<Rightarrow> (Result (final_status (status_of j)), s5) | _ \<Rightarrow> (Terminated, s3)) = (r, s')"
    using assms(1) x unfolding resubmit_or_purge_job_def Let_def s1_def [symmetric] s2_def [symmetric] s4_def s5_def by simp
  moreover have "counted s5" using c3 counted_calm [OF p] counted_calm [OF w] by (auto simp: s4_def s5_def)
  ultimately show ?thesis using c3 by (cases x) auto
qed

text \<open>A refused cancellation is logged, and nothing else.\<close>

definition refused_from :: "ice_env \<Rightarrow> job_field set \<Rightarrow> ice \<Rightarrow> ice \<Rightarrow> bool" where
  "refused_from e F s s' \<longleftrightarrow> s' = s \<or> (\<exists>j what r. quiet F j \<and> logEvent e (Cream_cancel_refuse j what) True True s = (r, s'))"

lemma refused_calm: "refused_from e F s s' \<Longrightarrow> F \<inter> touched = {} \<Longrightarrow> calm F s s'"
  unfolding refused_from_def using logEvent_calm event_job.simps(6) calm_refl by metis

lemma refuse_from:
  assumes "(case logEvent e (Cream_cancel_refuse j what) True True s of (None, s1) \<Rightarrow> (Terminated, s1) | (Some _, s1) \<Rightarrow> (Throws x, s1)) = (r, s')"
    and "quiet F j"
  shows "refused_from e F s s'"
  using assms by (auto simp: refused_from_def split: prod.splits option.splits)

lemma cancel_execute_calm:
  assumes "cancel_execute e g code s = (r, s')"
  shows "calm owner_fields s s'"
proof (cases "GetJobByGid g (i_jobs s)")
  case None
  with assms show ?thesis by (simp add: cancel_execute_def)
next
  case (Some j0)
  define j1 where "j1 = set_text Cancel_sequence_code code j0"
  have q1: "quiet owner_fields j1" using Some by (auto simp: j1_def GetJobByGid_def quiet_def owner_fields_def)
  then obtain t where t: "UpdateJob j1 (i_jobs s) = Some t" using UpdateJob_some unfolding quiet_def by blast
  have c1: "calm owner_fields s (s\<lparr>i_jobs := t\<rparr>)" using UpdateJob_keeps [OF t] q1 by (simp add: calm_def quiet_def proxy_files_def)
  obtain r1 s1 where l: "logEvent e (Cream_cancel_request j1 ''Cancel request issued by user'') True True (s\<lparr>i_jobs := t\<rparr>) = (r1, s1)" by fastforce
  from logEvent_calm [OF l _ owner_fields_untouched] q1 obtain j2 where j2: "r1 = Some j2" "quiet owner_fields j2"
    "calm owner_fields (s\<lparr>i_jobs := t\<rparr>) s1" by auto
  define proxy where "proxy = (let better = px_file (getAnyBetterProxyByDN (text_of j2 User_dn) s1) in if better = [] then text_of j2 User_proxyfile else better)"
  define j3 where "j3 = set_failure_reason ''Aborted by user'' j2"
  have q3: "quiet owner_fields j3" using j2(2) by (auto simp: j3_def quiet_def owner_fields_def)
  then obtain t1 where t1: "UpdateJob j3 (i_jobs s1) = Some t1" using UpdateJob_some unfolding quiet_def by blast
  have c3: "calm owner_fields s1 (s1\<lparr>i_jobs := t1\<rparr>)" using UpdateJob_keeps [OF t1] q3 by (simp add: calm_def quiet_def proxy_files_def)
  let ?j = "reset_change_flags j3"
  obtain x s2 where x: "CreamProxyMethod_execute e True 3 (Call_cancel (text_of ?j Cream_address) proxy (text_of ?j Cream_jobid))
      (text_of ?j Cream_address) (s1\<lparr>i_jobs := t1\<rparr>) = (x, s2)" by fastforce
  then have "calm owner_fields (s1\<lparr>i_jobs := t1\<rparr>) s2" using CreamProxyMethod_frame same_tables_calm by (metis snd_conv)
  then have c: "calm owner_fields s s1" "calm owner_fields s s2" using c1 j2(3) c3 calm_trans by blast+
  note refuse1 = refuse_from [where j = j2 and F = owner_fields and s = s1, OF _ j2(2)] and refuse2 = refuse_from [where j = ?j and F = owner_fields and s = s2, OF _ quiet_reset]
  note ends = assms [unfolded cancel_execute_def Some option.case Let_def j1_def [symmetric] t l j2(1) prod.case]
  have "refused_from e owner_fields s1 s' \<or> refused_from e owner_fields s2 s'"
  proof (cases "e_proxy_error e proxy")
    case (Some what)
    then show ?thesis using ends by (auto simp: proxy_def [unfolded Let_def, symmetric] dest: refuse1)
  next
    case None
    note ends = ends [folded proxy_def [unfolded Let_def] j3_def, unfolded None option.case t1 x prod.case]
    have same: "refused_from e owner_fields s2 s2" by (simp add: refused_from_def)
    show ?thesis
    proof (cases x)
      case (Inr a)
      then show ?thesis using ends same by (cases "a_failed a") (auto dest: refuse2)
    next
      case (Inl ex)
      then show ?thesis using ends same by (cases ex) (auto split: if_splits dest: refuse2)
    qed
  qed
  then show ?thesis using c calm_trans refused_calm [OF _ owner_fields_untouched] by blast
qed

end
