(* ===== verification/Ice_Count_Props.thy ===== *)
theory Ice_Count_Props
  imports Ice_Count
begin

text \<open>
  The counters of the proxies along the life of the jobs: every command on a job that is where the command expects it
  keeps them exact, and two commands do not when the database has another state: a submission that finds
  the job of an interrupted submission, and a rescheduling that does not find its job.
\<close>

section \<open>The steps\<close>

text \<open>The commands, the treatment of a finished job, and the updates of other members, as the pollers make them.\<close>

inductive ice_step :: "ice_env \<Rightarrow> ice \<Rightarrow> ice \<Rightarrow> bool" for e where
  submit: "i_jobs s (text_of j Grid_jobid) = None \<Longrightarrow> (flag_of j Proxy_renewable \<Longrightarrow> text_of j Myproxy_address \<noteq> []) \<Longrightarrow>
     submit_execute e j s = Some (r, s') \<Longrightarrow> ice_step e s s'"
| reschedule: "owns j (i_jobs s) \<Longrightarrow> reschedule_execute e exists_file j s = Some (r, s') \<Longrightarrow> ice_step e s s'"
| cancel: "cancel_execute e g code s = (r, s') \<Longrightarrow> ice_step e s s'"
| update: "quiet owner_fields j \<Longrightarrow> UpdateJob j (i_jobs s) = Some t \<Longrightarrow> ice_step e s (s\<lparr>i_jobs := t\<rparr>)"
| finish: "GetJobByGid g (i_jobs s) = Some j \<Longrightarrow> resubmit_or_purge_job e j s = (b, s') \<Longrightarrow> ice_step e s s'"

lemma reschedule_counted:
  assumes "reschedule_execute e exists_file j s = Some (r, s')" "counted s" "owns j (i_jobs s)" "\<And>cs p. e_copy e cs p"
  shows "counted s'"
proof -
  let ?s = "release_proxy j (remove_job (text_of j Grid_jobid) s)"
  have none: "i_jobs ?s (text_of j Grid_jobid) = None" by (simp add: remove_job_def RemoveJobByGid_def)
  have my: "text_of j Myproxy_address \<noteq> []" if "flag_of j Proxy_renewable"
    using assms(2,3) that by (auto simp: counted_def good_rows_def owns_def owner_fields_def)
  have "s' = s \<or> submit_execute e j ?s = Some (r, s')"
    using assms(1) by (auto simp: reschedule_execute_def split: option.splits if_splits)
  then show ?thesis
    using assms(2) submit_fresh_counted [OF _ counted_leave(2) [OF assms(2,3)] none my assms(4)] by blast
qed

lemma ice_step_counted: "ice_step e s s' \<Longrightarrow> counted s \<Longrightarrow> (\<And>cs p. e_copy e cs p) \<Longrightarrow> counted s'"
proof (induction rule: ice_step.induct)
  case (update j s t)
  then have "calm owner_fields s (s\<lparr>i_jobs := t\<rparr>)" using UpdateJob_keeps by (simp add: calm_def quiet_def proxy_files_def)
  with update counted_calm show ?case by blast
next
  case (submit s j r s')
  then show ?case using submit_fresh_counted by blast
next
  case (reschedule j s exists_file r s')
  then show ?case using reschedule_counted by blast
next
  case (cancel g code s r s')
  then show ?case using cancel_execute_calm counted_calm by blast
next
  case (finish g s j b s')
  then show ?case using finished_counted by blast
qed

text \<open>C15: the counter of a proxy that a server renews is the number of the jobs in the database that need it, and there
  is no entry without such a job: any sequence of submissions of jobs that are not in the database, reschedulings of jobs that are in
  it, cancellations, changes of status and treatments of finished jobs keeps this, on every path of the
  commands, the failures of the CE included, as long as proxies can be copied.\<close>

theorem proxy_counters_exact:
  assumes "(ice_step e)\<^sup>*\<^sup>* s s'" "counted s" "\<And>cs p. e_copy e cs p"
  shows "counted s'"
  using assms(1,2) by (induction rule: rtranclp_induct) (use ice_step_counted assms(3) in blast)+

text \<open>A job with a proxy that is renewed, and one whose proxy is over.\<close>

definition sample_job :: cream_job where
  "sample_job = set_flag Proxy_renewable True (set_num Isbproxy_time_end 90000 (set_text Cream_address ''ce'' (set_text Myproxy_address ''my''
     (set_text User_dn ''u'' (set_text Grid_jobid ''g'' CreamJob_new)))))"

definition late_job :: cream_job where
  "late_job = set_num Isbproxy_time_end 10 (set_text Grid_jobid ''h'' sample_job)"

text \<open>The state behind the entry of a job.\<close>

definition interrupted_ice :: ice where
  "interrupted_ice = enter_job fine_env sample_job blank_ice"

text \<open>LB is not there, the CE is on the list, and ICE is configured to give up its jobs.\<close>

definition listing_env :: ice_env where
  "listing_env = fine_env\<lparr>e_lb_setup := \<lambda>_ _. False, c_fail_job_blacklisted_ce := True\<rparr>"

definition listed_ice :: ice where
  "listed_ice = interrupted_ice\<lparr>i_blacklist := [''ce'' \<mapsto> 9000]\<rparr>"

lemma interrupted_counted:
  "counted interrupted_ice \<and> has_proxy sample_job interrupted_ice \<and> owns sample_job (i_jobs interrupted_ice)"
proof -
  have "counted blank_ice"
    by (auto simp: counted_def blank_ice_def good_rows_def proxy_files_def counter_def users_def number_of_def)
  then show ?thesis unfolding interrupted_ice_def
    by (rule counted_enter) (simp_all add: blank_ice_def sample_job_def set_flag_def set_num_def set_text_def fine_env_def)
qed

lemma listed_counted: "counted listed_ice \<and> owns sample_job (i_jobs listed_ice)"
proof -
  have "calm owner_fields interrupted_ice listed_ice" by (rule calm_tables) (simp_all add: listed_ice_def)
  with interrupted_counted counted_calm show ?thesis by (auto simp: listed_ice_def)
qed

theorem proxy_counters_exact_witness:
  "counted (snd (the (submit_execute listing_env late_job interrupted_ice)))"
proof -
  let ?r = "submit_execute listing_env late_job interrupted_ice"
  have "?r \<noteq> None" by code_simp
  then obtain r s' where r: "?r = Some (r, s')" by fastforce
  have "i_jobs interrupted_ice (text_of late_job Grid_jobid) = None" by code_simp
  then have "ice_step listing_env interrupted_ice s'"
    by (rule ice_step.submit [OF _ _ r]) (simp_all add: late_job_def sample_job_def set_flag_def set_num_def set_text_def)
  moreover have "e_copy listing_env cs p" for cs p by (simp add: listing_env_def fine_env_def)
  ultimately have "counted s'" using proxy_counters_exact [of listing_env interrupted_ice s'] interrupted_counted by blast
  with r show ?thesis by simp
qed

section \<open>Two errors\<close>

text \<open>C35: a submission that was interrupted before the registration leaves its job in the database without a status.
  When the request is read again, the row is removed and made again, but the proxy is counted a second
  time: as long as the job is there, its counter is one more than the number of the jobs, and so the proxy and its
  delegations stay when the last job ends.\<close>

theorem restarted_submission_counted_twice:
  assumes "counted s" "owns j (i_jobs s)" "flag_of j Proxy_renewable" "\<And>cs p. e_copy e cs p"
    and "map_option (\<lambda>r. r_status r Status) (i_jobs s (text_of j Grid_jobid)) = Some UNKNOWN"
    and "submit_execute e j s = Some (r, s')" "i_jobs s' (text_of j Grid_jobid) \<noteq> None"
  shows "counter s' (owner_key j) = Some (int (card (users (i_jobs s') (owner_key j))) + 1)"
proof -
  let ?g = "text_of j Grid_jobid" and ?k = "owner_key j"
  define s1 where "s1 = s\<lparr>i_jobs := RemoveJobByGid ?g (i_jobs s)\<rparr>"
  let ?s = "enter_job e j s1"
  have rows: "good_rows (i_jobs s)" "proxy_files s" using assms(1) by (auto simp: counted_def)
  have l: "look_up j s = (New_job, s1)" using assms(5) by (auto simp: look_up_def GetJobByGid_def s1_def)
  have "snd ?k \<noteq> []" using assms(2,3) rows(1) by (auto simp: owns_def good_rows_def owner_fields_def owner_key_def)
  then have n: "counter s ?k = number_of (users (i_jobs s) ?k)" using assms(1) by (cases ?k) (simp add: counted_def)
  have mem: "?g \<in> users (i_jobs s) ?k" using owns_users [OF assms(2)] assms(3) by simp
  have fin: "finite (users (i_jobs s) ?k)" using finite_users rows(1) by blast
  have none: "i_jobs s1 ?g = None" by (simp add: s1_def RemoveJobByGid_def)
  have u: "users (i_jobs ?s) ?k = users (i_jobs s) ?k"
    using users_create [of "i_jobs s1" j ?k] none assms(3) mem by (auto simp: s1_def users_remove insert_absorb)
  have c: "counter ?s ?k = Some (int (card (users (i_jobs s) ?k)) + 1)"
    using enter_counter_renewable [OF assms(3,4), where s = s1 and k = ?k] n mem by (auto simp: s1_def number_of_def)
  have "proxy_files s1" using rows(2) by (simp add: s1_def proxy_files_def)
  from submit_new_left [OF assms(6) l _ enter_files [OF this]] c have "left_by j ?s s'" by (auto simp: has_proxy_def)
  then have "calm owner_fields ?s s'" using assms(7) by (auto simp: left_by_def remove_job_def RemoveJobByGid_def)
  then have "counter s' = counter ?s" "users (i_jobs s') ?k = users (i_jobs ?s) ?k" using keeps_users by (simp_all add: calm_def)
  with c u show ?thesis by simp
qed

theorem restarted_submission_counted_twice_witness:
  "counter (snd (the (submit_execute listing_env sample_job listed_ice))) (''u'', ''my'') =
     Some (int (card (users (i_jobs (snd (the (submit_execute listing_env sample_job listed_ice)))) (''u'', ''my''))) + 1)"
proof -
  let ?r = "submit_execute listing_env sample_job listed_ice"
  have "?r \<noteq> None" by code_simp
  then obtain r s' where r: "?r = Some (r, s')" by fastforce
  have i: "counted listed_ice" "owns sample_job (i_jobs listed_ice)" using listed_counted by auto
  have "i_jobs (snd (the ?r)) ''g'' \<noteq> None" by code_simp
  then have "i_jobs s' (text_of sample_job Grid_jobid) \<noteq> None" using r by (simp add: sample_job_def set_flag_def set_num_def set_text_def)
  moreover have "map_option (\<lambda>r. r_status r Status) (i_jobs listed_ice (text_of sample_job Grid_jobid)) = Some UNKNOWN" by code_simp
  ultimately show ?thesis
    using restarted_submission_counted_twice [OF i _ _ _ r] r
    by (simp add: sample_job_def set_flag_def set_num_def set_text_def owner_key_def listing_env_def fine_env_def)
qed

text \<open>a rescheduling releases the proxy of its job before it looks for the job: if the database has lost the job,
  the count of another job of the user is taken away. As long as the job that is submitted again is there,
  the counter is one less than the number of the jobs, and so the proxy and its delegations go while a
  job still needs them.\<close>

theorem lost_job_undercounted:
  assumes "counted s" "i_jobs s (text_of j Grid_jobid) = None" "flag_of j Proxy_renewable" "text_of j Myproxy_address \<noteq> []"
    and "users (i_jobs s) (owner_key j) \<noteq> {}" "\<And>cs p. e_copy e cs p"
    and "reschedule_execute e exists_file j s = Some (r, s')" "i_jobs s' (text_of j Grid_jobid) \<noteq> None"
  shows "counter s' (owner_key j) = Some (int (card (users (i_jobs s') (owner_key j))) - 1)"
proof -
  let ?g = "text_of j Grid_jobid" and ?k = "owner_key j"
  define s1 where "s1 = release_proxy j (remove_job ?g s)"
  let ?s = "enter_job e j s1"
  have rows: "good_rows (i_jobs s)" "proxy_files s" using assms(1) by (auto simp: counted_def)
  have t1: "i_jobs s1 = i_jobs s" using assms(2) by (auto simp: s1_def remove_job_def RemoveJobByGid_def)
  have l: "look_up j s1 = (New_job, s1)" using assms(2) t1 by (simp add: look_up_def GetJobByGid_def)
  have n: "counter s ?k = Some (int (card (users (i_jobs s) ?k)))" using assms(1,4,5) by (simp add: counted_def owner_key_def number_of_def)
  have u: "users (i_jobs ?s) ?k = insert ?g (users (i_jobs s) ?k)" "?g \<notin> users (i_jobs s) ?k"
    using users_create [of "i_jobs s1" j ?k] assms(2,3) t1 by (simp_all add: users_def)
  have "counter (remove_job ?g s) = counter s" by (simp add: remove_job_def)
  then have c: "counter ?s ?k = Some (int (card (users (i_jobs s) ?k)))"
    using enter_counter_renewable [OF assms(3,6), where s = s1 and k = ?k] n assms(3) by (simp add: s1_def release_counter)
  have "proxy_files (remove_job ?g s)" using rows(2) by (simp add: remove_job_def proxy_files_def)
  then have f: "proxy_files ?s" using enter_files release_files by (simp add: s1_def)
  have "submit_execute e j s1 = Some (r, s')"
    using assms(2,7,8) by (auto simp: reschedule_execute_def s1_def split: option.splits if_splits)
  from submit_new_left [OF this l _ f] c have "left_by j ?s s'" by (auto simp: has_proxy_def)
  then have "calm owner_fields ?s s'" using assms(8) by (auto simp: left_by_def remove_job_def RemoveJobByGid_def)
  then have "counter s' = counter ?s" "users (i_jobs s') ?k = users (i_jobs ?s) ?k" using keeps_users by (simp_all add: calm_def)
  with c u finite_users [OF rows(1)] show ?thesis by simp
qed

text \<open>A second job of the user, which the database does not have.\<close>

definition lost_job :: cream_job where
  "lost_job = set_text Token_file ''/token'' (set_text Grid_jobid ''h'' sample_job)"

theorem lost_job_undercounted_witness:
  "counter (snd (the (reschedule_execute listing_env (\<lambda>_. True) lost_job listed_ice))) (''u'', ''my'') =
     Some (int (card (users (i_jobs (snd (the (reschedule_execute listing_env (\<lambda>_. True) lost_job listed_ice)))) (''u'', ''my''))) - 1)"
proof -
  let ?r = "reschedule_execute listing_env (\<lambda>_. True) lost_job listed_ice"
  have "?r \<noteq> None" by code_simp
  then obtain r s' where r: "?r = Some (r, s')" by fastforce
  have k: "owner_key lost_job = (''u'', ''my'')" "text_of lost_job Grid_jobid = ''h''" by code_simp+
  have "flag_of sample_job Proxy_renewable" "owner_key lost_job = owner_key sample_job"
    by (simp_all add: lost_job_def sample_job_def set_flag_def set_num_def set_text_def owner_key_def)
  then have "text_of sample_job Grid_jobid \<in> users (i_jobs listed_ice) (owner_key lost_job)"
    using owns_users listed_counted by blast
  then have "users (i_jobs listed_ice) (owner_key lost_job) \<noteq> {}" by blast
  moreover have "i_jobs (snd (the ?r)) ''h'' \<noteq> None" by code_simp
  then have "i_jobs s' (text_of lost_job Grid_jobid) \<noteq> None" using r k by simp
  moreover have "i_jobs listed_ice (text_of lost_job Grid_jobid) = None" by code_simp
  ultimately show ?thesis
    using lost_job_undercounted [OF _ _ _ _ _ _ r] listed_counted r k
    by (simp add: lost_job_def sample_job_def set_flag_def set_num_def set_text_def listing_env_def fine_env_def)
qed

end
