(* ===== verification/Ice_Life_Props.thy ===== *)
theory Ice_Life_Props
  imports Ice_Count_Props
begin

text \<open>
  The life of a job in ICE: what a submission stores, what becomes of a job in a final state, and three situations that the
  commands do not expect: a job that was registered before a restart, with and without a token, and the
  cancellation of a job on a CE that is not to be called.
\<close>

section \<open>Frames of the events\<close>

lemma logEvent_frame:
  "logEvent e ev c u s = (r, s') \<Longrightarrow> i_calls s' = i_calls s \<and> i_wm_input s' = i_wm_input s \<and> i_blacklist s' = i_blacklist s \<and>
     i_deregistered s' = i_deregistered s \<and> i_storage_purged s' = i_storage_purged s"
  by (auto simp: logEvent_def Let_def split: if_splits option.splits)

lemma logEvent_frames [simp]:
  "i_calls (snd (logEvent e ev c u s)) = i_calls s" "i_wm_input (snd (logEvent e ev c u s)) = i_wm_input s"
  "i_blacklist (snd (logEvent e ev c u s)) = i_blacklist s"
  using logEvent_frame [of e ev c u s] by (metis prod.collapse)+

section \<open>What a submission stores\<close>

text \<open>the time at which a job was seen last is not stored by the submission that has set it: the transaction executes
  the update that was made before. After a submission without exception the column has the value of
  the request, so the poller takes the new job for one without news.\<close>

theorem last_seen_not_stored:
  assumes "submit_execute e j s = Some (Result u, s')" "i_jobs s (text_of j Grid_jobid) = None" "proxy_files s" "\<And>cs p. e_copy e cs p"
  shows "\<exists>r. i_jobs s' (text_of j Grid_jobid) = Some r \<and> r_num r Last_seen = num_of j Last_seen"
proof -
  let ?F = "{NumF Last_seen}" and ?j = "reset_change_flags j" and ?s = "enter_job e j s"
  have untouched: "?F \<inter> touched = {}" by (auto simp: touched_def)
  have l: "look_up j s = (New_job, s)" using assms(2) by (simp add: look_up_def GetJobByGid_def)
  have "has_proxy j ?s" using enter_counter_renewable [OF _ assms(4)] by (simp add: has_proxy_def)
  then have h: "has_proxy ?j ?s" using has_proxy_owner [of j ?j] by simp
  from assms(1) l obtain x j2 s3 where x: "try_to_submit e False ?j ?s = Some (x, j2, s3)"
    "(case x of Result _ \<Rightarrow> (Result (), s3) | Throws (ice_ex.Fatal_ex what) \<Rightarrow> fatal_handler e what j2 s3
      | Throws (ice_ex.Transient_ex what) \<Rightarrow> transient_handler e what j2 s3 | Throws (BlackListFailJob_ex what) \<Rightarrow> blacklist_handler e j2 s3
      | Terminated \<Rightarrow> (Terminated, s3)) = (Result u, s')" by (auto simp: submit_execute_def)
  note c = try_to_submit_calm [OF x(1) quiet_reset untouched h enter_files [OF assms(3)]]
  have never: "fatal_handler e what j2 s3 \<noteq> (Result u, s')" "transient_handler e what j2 s3 \<noteq> (Result u, s')" for what
    by (auto simp: fatal_handler_def transient_handler_def Let_def split: prod.splits option.splits ice_outcome.splits)
  have b: "i_jobs s' = i_jobs s3" if "blacklist_handler e j2 s3 = (Result u, s')"
    using that by (auto simp: blacklist_handler_def logEvent_def Let_def split: prod.splits option.splits if_splits)
  have "i_jobs s' = i_jobs s3" using x(2) never b by (auto split: ice_outcome.splits ice_ex.splits)
  moreover have "keeps ?F (CreateJob j (i_jobs s)) (i_jobs s3)" using c by (simp add: calm_def)
  from keeps_some [OF this, of "text_of j Grid_jobid" "j_row j"] have "\<exists>r. i_jobs s3 (text_of j Grid_jobid) = Some r \<and> r_num r Last_seen = num_of j Last_seen"
    by (simp add: CreateJob_def)
  ultimately show ?thesis by simp
qed

text \<open>A new job for a CE on the list.\<close>

theorem last_seen_not_stored_witness:
  "\<exists>r. i_jobs (snd (the (submit_execute listing_env sample_job (blank_ice\<lparr>i_blacklist := [''ce'' \<mapsto> 9000]\<rparr>)))) ''g'' = Some r \<and> r_num r Last_seen = 0"
proof -
  let ?s = "blank_ice\<lparr>i_blacklist := [''ce'' \<mapsto> 9000]\<rparr>"
  let ?r = "submit_execute listing_env sample_job ?s"
  have "case ?r of Some (Result _, _) \<Rightarrow> True | _ \<Rightarrow> False" by code_simp
  then obtain u s' where r: "?r = Some (Result u, s')" by (auto split: option.splits prod.splits ice_outcome.splits)
  have g: "text_of sample_job Grid_jobid = ''g''" "num_of sample_job Last_seen = 0"
    by (simp_all add: sample_job_def set_flag_def set_num_def set_text_def CreamJob_new_def)
  show ?thesis
    using last_seen_not_stored [OF r] r g by (simp add: blank_ice_def proxy_files_def listing_env_def fine_env_def)
qed

section \<open>Jobs in a final state\<close>

lemma resubmission_failed_frame:
  "i_calls (snd (resubmission_failed e j what s)) = i_calls s \<and> i_wm_input (snd (resubmission_failed e j what s)) = i_wm_input s"
  using logEvent_frame by (auto simp: resubmission_failed_def split: prod.split option.split)

text \<open>The requests that a resubmission hands to the workload manager.\<close>

definition handed_back :: "ice_env \<Rightarrow> cream_job \<Rightarrow> ice \<Rightarrow> bool" where
  "handed_back e j s \<longleftrightarrow> \<not> c_noresubmit e \<and> now e s + 300 < e_proxy_end e (text_of j User_proxyfile) \<and> e_deliver e (i_wm_input s)"

lemma resubmit_job_effect:
  assumes "resubmit_job e j reason s = (r, s')" "quiet {} j"
  shows "i_calls s' = i_calls s \<and>
    (\<exists>code. i_wm_input s' = i_wm_input s @ (if handed_back e j s then [(text_of j Grid_jobid, code)] else []))"
proof (cases "c_noresubmit e \<or> e_proxy_end e (text_of j User_proxyfile) \<le> now e s + 300")
  case True
  then show ?thesis using assms(1) logEvent_frame [of e "Job_aborted j" "cancel_code_used j" True s]
    by (cases "c_noresubmit e") (auto simp: resubmit_job_def handed_back_def split: prod.splits option.splits)
next
  case False
  obtain r1 s1 where l1: "logEvent e (Ice_resubmission j reason) False True s = (r1, s1)" by fastforce
  from logEvent_calm [OF l1, of "{}"] assms(2) obtain j1 where j1: "r1 = Some j1" "quiet {} j1" "same_owner j j1" by auto
  obtain r2 s2 where l2: "logEvent e (Ns_enqueued_start j1 (c_wm_input e)) False True s1 = (r2, s2)" by fastforce
  from logEvent_calm [OF l2, of "{}"] j1(2) obtain j2 where j2: "r2 = Some j2" "quiet {} j2" "same_owner j1 j2" by auto
  define s3 where "s3 = s2\<lparr>i_wm_input := i_wm_input s2 @ [(text_of j2 Grid_jobid, text_of j2 Sequence_code)]\<rparr>"
  obtain r4 s4 where l4: "logEvent e (Ns_enqueued_ok j2 (c_wm_input e)) False True s3 = (r4, s4)" by fastforce
  from logEvent_calm [OF l4, of "{}"] j2(2) obtain j4 where j4: "r4 = Some j4" by auto
  have f: "i_calls s2 = i_calls s" "i_wm_input s2 = i_wm_input s" "i_calls s4 = i_calls s"
    "i_wm_input s4 = i_wm_input s @ [(text_of j2 Grid_jobid, text_of j2 Sequence_code)]"
    using logEvent_frame [OF l1] logEvent_frame [OF l2] logEvent_frame [OF l4] by (simp_all add: s3_def)
  have g: "text_of j2 Grid_jobid = text_of j Grid_jobid" using j1(3) j2(3) by (simp add: same_owner_def)
  show ?thesis
  proof (cases "e_deliver e (i_wm_input s2)")
    case True
    with False assms(1) l1 l2 j1(1) j2(1) j4 l4 have "s' = s4" by (simp add: resubmit_job_def s3_def)
    with f g True False show ?thesis by (auto simp: handed_back_def)
  next
    case no: False
    with False assms(1) l1 l2 j1(1) j2(1) have "s' = snd (resubmission_failed e j2 ''cannot create file'' s2)" by (simp add: resubmit_job_def)
    with f no resubmission_failed_frame [of e j2 "''cannot create file''" s2] show ?thesis by (auto simp: handed_back_def)
  qed
qed

lemma release_frame:
  "i_calls (release_proxy j s) = i_calls s \<and> i_wm_input (release_proxy j s) = i_wm_input s"
  by (simp add: release_proxy_def decrementUserProxyCounter_def UpdateProxyCounterByDN_def RemoveProxyByDN_def RemoveDelegationByDNMyProxy_def
      Let_def split: option.split)

text \<open>The whole treatment: the row goes first, so \<open>purge_job\<close> finds no job.\<close>

lemma finished_steps:
  assumes "GetJobByGid g (i_jobs s) = Some j" "text_of j Grid_jobid = g" "final_status (status_of j)" "resubmit_or_purge_job e j s = (r, s')"
  obtains s2 x s3 where "i_calls s2 = i_calls s" "i_wm_input s2 = i_wm_input s"
    "(if status_of j \<in> {DONE_FAILED, ABORTED} \<and> \<not> flag_of j Killed_byice then resubmit_job e j ''Job resubmitted by ICE'' s2 else (Result (), s2)) = (x, s3)"
    "x = Result ()" "r = Result True" "i_jobs s' = i_jobs s3" "i_jobs s3 g = None" "i_calls s' = i_calls s3" "i_wm_input s' = i_wm_input s3"
proof -
  have q: "quiet {} j" using assms(1) by (auto simp: GetJobByGid_def quiet_def)
  define s1 where "s1 = (if status_of j \<in> {CANCELLED, DONE_OK} then deregister_proxy_renewal e j s else s)"
  define s2 where "s2 = remove_job g (release_proxy j s1)"
  obtain x s3 where x: "(if status_of j \<in> {DONE_FAILED, ABORTED} \<and> \<not> flag_of j Killed_byice then resubmit_job e j ''Job resubmitted by ICE'' s2
    else (Result (), s2)) = (x, s3)" by fastforce
  have f: "i_calls s2 = i_calls s" "i_wm_input s2 = i_wm_input s" "i_jobs s2 g = None"
    using release_frame [of j s1] by (auto simp: s2_def remove_job_def RemoveJobByGid_def s1_def deregister_proxy_renewal_def)
  have "calm {} s2 s3 \<and> x = Result ()" using x resubmit_job_calm [OF _ q] by (auto split: if_splits)
  then have x2: "x = Result ()" "i_jobs s3 g = None" using f(3) keeps_none by (auto simp: calm_def)
  have s2: "s2 = (if final_status (status_of j) then remove_job (text_of j Grid_jobid) (release_proxy j s1) else s1)"
    using assms(2,3) by (simp add: s2_def)
  from x2 have "purge_job e j s3 = s3" by (simp add: purge_job_def CheckGridJobID_def assms(2))
  then have "resubmit_or_purge_job e j s = (Result True, if status_of j = CANCELLED then purge_wms_storage e j s3 else s3)"
    unfolding resubmit_or_purge_job_def Let_def s1_def [symmetric] s2 [symmetric] x prod.case x2(1) using assms(3) by simp
  then have "r = Result True" "i_jobs s' = i_jobs s3" "i_calls s' = i_calls s3" "i_wm_input s' = i_wm_input s3"
    using assms(4) by (auto simp: purge_wms_storage_def)
  then show ?thesis using that [OF f(1,2) x x2(1) _ _ x2(2)] by simp
qed

text \<open>C23: a job that has failed and was not killed by ICE is taken out of the database, and the workload manager gets
  exactly one request to submit it again, unless resubmission is switched off, the proxy of the
  job ends within five minutes or the request cannot be written, and none in these cases; no failure of LB prevents it.\<close>

theorem failed_job_handed_back:
  assumes "GetJobByGid g (i_jobs s) = Some j" "text_of j Grid_jobid = g" "status_of j \<in> {DONE_FAILED, ABORTED}" "\<not> flag_of j Killed_byice"
    and "resubmit_or_purge_job e j s = (r, s')"
  shows "r = Result True \<and> i_jobs s' g = None \<and>
    (\<exists>code. i_wm_input s' = i_wm_input s @ (if handed_back e j s then [(g, code)] else []))"
proof -
  have "final_status (status_of j)" using assms(3) by (auto simp: final_status_def)
  from finished_steps [OF assms(1,2) this assms(5)] obtain s2 x s3 where f: "i_calls s2 = i_calls s" "i_wm_input s2 = i_wm_input s"
    "(if status_of j \<in> {DONE_FAILED, ABORTED} \<and> \<not> flag_of j Killed_byice then resubmit_job e j ''Job resubmitted by ICE'' s2 else (Result (), s2)) = (x, s3)"
    "r = Result True" "i_jobs s' g = None" "i_wm_input s' = i_wm_input s3" by metis
  have "quiet {} j" using assms(1) by (auto simp: GetJobByGid_def quiet_def)
  with f(3) assms(3,4) have "\<exists>code. i_wm_input s3 = i_wm_input s2 @ (if handed_back e j s2 then [(text_of j Grid_jobid, code)] else [])"
    using resubmit_job_effect by auto
  moreover have "handed_back e j s2 = handed_back e j s" using f(1,2) by (simp add: handed_back_def now_def)
  ultimately show ?thesis using f(2,4,5,6) assms(2) by (auto split: if_splits)
qed

text \<open>A job in a given state in the database.\<close>

definition stored_job :: "cream_status \<Rightarrow> cream_job" where
  "stored_job st = reset_change_flags (set_num Cream_dbid 4711 (set_status st sample_job))"

definition stored_ice :: "cream_status \<Rightarrow> ice" where
  "stored_ice st = blank_ice\<lparr>i_jobs := [''g'' \<mapsto> j_row (stored_job st)]\<rparr>"

lemma stored_job_simps [simp]:
  "GetJobByGid ''g'' (i_jobs (stored_ice st)) = Some (stored_job st)" "text_of (stored_job st) Grid_jobid = ''g''" "status_of (stored_job st) = st"
  "flag_of (stored_job st) Killed_byice = False" "text_of (stored_job st) Cream_address = ''ce''"
  by (simp_all add: stored_ice_def stored_job_def GetJobByGid_def sample_job_def reset_change_flags_def set_flag_def set_num_def set_text_def
      set_status_def CreamJob_new_def)

lemma stored_ice_simps [simp]: "i_calls (stored_ice st) = []" "i_wm_input (stored_ice st) = []"
  by (simp_all add: stored_ice_def blank_ice_def)

theorem failed_job_handed_back_witness:
  "\<exists>s' code. resubmit_or_purge_job fine_env (stored_job ABORTED) (stored_ice ABORTED) = (Result True, s') \<and> i_jobs s' ''g'' = None \<and>
     i_wm_input s' = [(''g'', code)]"
proof -
  obtain r s' where r: "resubmit_or_purge_job fine_env (stored_job ABORTED) (stored_ice ABORTED) = (r, s')" by fastforce
  have "handed_back fine_env (stored_job ABORTED) (stored_ice ABORTED)"
    by (simp add: handed_back_def fine_env_def now_def)
  then show ?thesis using failed_job_handed_back [OF _ _ _ _ r, of "''g''"] r by auto
qed

text \<open>C38: the CE is never told to purge a job in a final state: the row of the job is removed from the database before
  \<open>purge_job\<close> looks for it, which then takes the job for one that somebody else has removed.\<close>

theorem finished_job_not_purged:
  assumes "GetJobByGid g (i_jobs s) = Some j" "text_of j Grid_jobid = g" "final_status (status_of j)" "resubmit_or_purge_job e j s = (r, s')"
  shows "i_calls s' = i_calls s"
proof -
  from finished_steps [OF assms] obtain s2 x s3 where f: "i_calls s2 = i_calls s"
    "(if status_of j \<in> {DONE_FAILED, ABORTED} \<and> \<not> flag_of j Killed_byice then resubmit_job e j ''Job resubmitted by ICE'' s2 else (Result (), s2)) = (x, s3)"
    "i_calls s' = i_calls s3" by metis
  have "quiet {} j" using assms(1) by (auto simp: GetJobByGid_def quiet_def)
  then have "i_calls s3 = i_calls s2" using f(2) resubmit_job_effect by (auto split: if_splits)
  with f show ?thesis by simp
qed

theorem finished_job_not_purged_witness:
  "i_calls (snd (resubmit_or_purge_job fine_env (stored_job DONE_OK) (stored_ice DONE_OK))) = []"
proof -
  obtain r s' where r: "resubmit_or_purge_job fine_env (stored_job DONE_OK) (stored_ice DONE_OK) = (r, s')" by fastforce
  then show ?thesis using finished_job_not_purged [OF _ _ _ r, of "''g''"] by (simp add: final_status_def)
qed

section \<open>A CE that is not to be called\<close>

lemma listed_call:
  "listed_at (now e s) service (i_blacklist s) \<Longrightarrow> c_fail_job_blacklisted_ce e \<Longrightarrow>
   \<exists>what s'. CreamProxyMethod_execute e True n call service s = (Inl (Blacklist_fail what), s')"
  using is_blacklisted_listed [of e service s]
  by (auto simp: CreamProxyMethod_execute_def method_tries.simps split: prod.split)

text \<open>the cancellation of a job on a CE that is on the list ends ICE when the jobs of such CEs are to be aborted: the
  exception that the call throws is none of those that the command may throw.\<close>

theorem listed_cancellation_ends_ice:
  assumes "GetJobByGid g (i_jobs s) = Some j" "listed_at (now e s) (text_of j Cream_address) (i_blacklist s)" "c_fail_job_blacklisted_ce e"
    and "\<And>p. e_proxy_error e p = None"
  shows "fst (cancel_execute e g code s) = Terminated"
proof -
  define j1 where "j1 = set_text Cancel_sequence_code code j"
  have q1: "quiet {} j1" using assms(1) by (auto simp: j1_def GetJobByGid_def quiet_def)
  then obtain t where t: "UpdateJob j1 (i_jobs s) = Some t" using UpdateJob_some unfolding quiet_def by blast
  obtain r1 s1 where l: "logEvent e (Cream_cancel_request j1 ''Cancel request issued by user'') True True (s\<lparr>i_jobs := t\<rparr>) = (r1, s1)" by fastforce
  from logEvent_calm [OF l, of "{}"] q1 obtain j2 where j2: "r1 = Some j2" "quiet {} j2" "text_of j2 Cream_address = text_of j1 Cream_address" by auto
  define j3 where "j3 = set_failure_reason ''Aborted by user'' j2"
  have "quiet {} j3" using j2(2) by (auto simp: j3_def quiet_def)
  then obtain t1 where t1: "UpdateJob j3 (i_jobs s1) = Some t1" using UpdateJob_some unfolding quiet_def by blast
  let ?j = "reset_change_flags j3" and ?s = "s1\<lparr>i_jobs := t1\<rparr>"
  have "text_of ?j Cream_address = text_of j Cream_address"
    using j2(3) by (simp add: j3_def j1_def set_failure_reason_def set_text_def reset_change_flags_def)
  then have "listed_at (now e ?s) (text_of ?j Cream_address) (i_blacklist ?s)"
    using assms(2) logEvent_frame [OF l] by (simp add: now_def)
  from listed_call [OF this assms(3)] have "\<exists>what s'. CreamProxyMethod_execute e True 3 c (text_of ?j Cream_address) ?s = (Inl (Blacklist_fail what), s')" for c
    by blast
  then show ?thesis
    unfolding cancel_execute_def assms(1,4) option.case Let_def j1_def [symmetric] t l j2(1) prod.case j3_def [symmetric] t1
    by (metis (no_types, lifting) call_ex.case(2) fst_conv old.sum.simps(5) split_conv)
qed

theorem listed_cancellation_ends_ice_witness:
  "fst (cancel_execute listing_env ''g'' ''code'' ((stored_ice IDLE)\<lparr>i_blacklist := [''ce'' \<mapsto> 9000]\<rparr>)) = Terminated"
  by (rule listed_cancellation_ends_ice [where j = "stored_job IDLE"])
     (use stored_job_simps(1) [of IDLE] in \<open>simp_all add: listed_at_def listing_env_def fine_env_def now_def stored_ice_def blank_ice_def\<close>)

section \<open>A job that was registered before a restart\<close>

lemma UpdateJob_none: "UpdateJob j t = Some t' \<Longrightarrow> t' g = None \<longleftrightarrow> t g = None"
  using UpdateJob_row [of j t t'] by (auto split: if_splits)

lemma logEvent_none: "logEvent e ev c u s = (r, s') \<Longrightarrow> i_jobs s' g = None \<longleftrightarrow> i_jobs s g = None"
  by (auto simp: logEvent_def Let_def UpdateJob_none split: if_splits option.splits)

lemma UpdateJob_num:
  "UpdateJob j t = Some t' \<Longrightarrow> t (text_of j Grid_jobid) \<noteq> None \<Longrightarrow> NumF f \<in> j_changed j \<Longrightarrow>
   \<exists>r. t' (text_of j Grid_jobid) = Some r \<and> r_num r f = num_of j f"
  using UpdateJob_row [of j t t'] by (auto simp: update_row_def)

text \<open>What the success of the call stores.\<close>

definition started_job :: "ice_env \<Rightarrow> cream_job \<Rightarrow> started \<Rightarrow> cream_job" where
  "started_job e j st =
     (let j1 = set_status IDLE (set_cream_jobid (c_cream_url_postfix e) (st_jobid st) j)
      in set_num Cream_dbid (strtoull (st_dbid st)) (set_text Wn_sequence_code (text_of j1 Sequence_code) j1))"

lemma started_job_simps:
  "text_of (started_job e j st) Grid_jobid = text_of j Grid_jobid" "text_of (started_job e j st) Token_file = text_of j Token_file"
  "num_of (started_job e j st) Cream_dbid = strtoull (st_dbid st)" "NumF Cream_dbid \<in> j_changed (started_job e j st)"
  "TextF Token_file \<in> j_changed (started_job e j st) \<longleftrightarrow> TextF Token_file \<in> j_changed j"
  by (simp_all add: started_job_def Let_def) (simp_all add: set_num_def set_text_def set_status_def set_cream_jobid_def Let_def)

lemma start_registered_row:
  assumes "start_registered e j st s = (Result u, j', s')" "i_jobs s (text_of j Grid_jobid) \<noteq> None"
  shows "\<exists>r. i_jobs s' (text_of j Grid_jobid) = Some r \<and> r_num r Cream_dbid = strtoull (st_dbid st)"
proof -
  let ?call = "Call_start (st_url st) (text_of j User_proxyfile) (st_jobid st)" and ?j = "started_job e j st"
  define s1 where "s1 = s\<lparr>i_stats := i_stats s @ [(now e s, now e s, REGISTERED)]\<rparr>"
  obtain x s2 where x: "CreamProxyMethod_execute e True 7 ?call (st_url st) s1 = (x, s2)" by fastforce
  have s2: "i_jobs s2 = i_jobs s" using CreamProxyMethod_frame [of s1 e True 7 ?call "st_url st"] x by (simp add: same_tables_def s1_def)
  obtain a where a: "x = Inr a" "a_failed a = []"
    using assms(1) x by (auto simp: start_registered_def Let_def s1_def split: sum.splits list.splits)
  define s3 where "s3 = s2\<lparr>i_stats := i_stats s2 @ [(now e s2, now e s2, IDLE)]\<rparr>"
  have "update_then ?j ?j s3 (\<lambda>s4. log_then e (Cream_transfer_ok (reset_change_flags ?j)) True s4 (\<lambda>j3 s5.
      let j4 = set_num Last_seen (now e s5) j3 in update_then ?j j4 s5 (\<lambda>s6. (Result (), j4, s6)))) = (Result u, j', s')"
    using assms(1) x a by (simp add: start_registered_def Let_def s1_def s3_def started_job_def)
  then obtain t r3 s5 where t: "UpdateJob ?j (i_jobs s3) = Some t"
    "logEvent e (Cream_transfer_ok (reset_change_flags ?j)) False True (s3\<lparr>i_jobs := t\<rparr>) = (r3, s5)" "UpdateJob ?j (i_jobs s5) = Some (i_jobs s')"
    by (auto simp: update_then_def log_then_def Let_def split: option.splits prod.splits)
  have "i_jobs s5 (text_of ?j Grid_jobid) \<noteq> None"
    using logEvent_none [OF t(2)] UpdateJob_none [OF t(1)] assms(2) s2 by (simp add: s3_def started_job_simps)
  from UpdateJob_num [OF t(3) this started_job_simps(4)] show ?thesis by (simp add: started_job_simps)
qed

lemma digit_small: "isdigit_c c \<Longrightarrow> (case char_digit c of None \<Rightarrow> 0 | Some d \<Rightarrow> d) < 10"
  by (auto simp: isdigit_c_def char_digit_def Let_def split: if_splits)

lemma strtoull_char: "strtoull [c] < 10"
proof -
  define v where "v = int (digits_value 10 (takeWhile isdigit_c [c]))"
  have "digits_value 10 (takeWhile isdigit_c [c]) < 10" using digit_small [of c] by (simp add: digits_value_def)
  then have "0 \<le> v \<and> v < 10" by (simp add: v_def)
  moreover have "strtoull [c] = 0 \<or> strtoull [c] = min v (2 ^ 64 - 1)"
    by (simp add: strtoull_def v_def Let_def digits_value_def)
  ultimately show ?thesis by linarith
qed

lemma one_digit: "strtoull (assign_number n) < 10"
proof -
  have "strtoull [] = 0" by (simp add: strtoull_def digits_value_def)
  then show ?thesis using strtoull_char by (simp add: assign_number_def Let_def)
qed

text \<open>the command that finds its job registered, because ICE was stopped before the job was started, reads the
  identifier of the database of the CE into a text by way of one character. When it starts the job,
  it stores a number of at most one digit in its place.\<close>

theorem restarted_start_loses_dbid:
  assumes "submit_execute e j s = Some (Result u, s')" "i_jobs s (text_of j Grid_jobid) = Some r" "r_status r Status = REGISTERED"
  shows "\<exists>r'. i_jobs s' (text_of j Grid_jobid) = Some r' \<and> r_num r' Cream_dbid < 10"
proof -
  have l: "look_up j s = (Only_start, s)" using assms(2,3) by (simp add: look_up_def GetJobByGid_def)
  have d: "st_dbid (read_registered j s) = assign_number (r_num r Cream_dbid)" using assms(2) by (simp add: read_registered_def GetJobByGid_def)
  from assms(1) l obtain x j2 s3 where x: "try_to_submit e True j s = Some (x, j2, s3)"
    "(case x of Result _ \<Rightarrow> (Result (), s3) | Throws (ice_ex.Fatal_ex what) \<Rightarrow> fatal_handler e what j2 s3
      | Throws (ice_ex.Transient_ex what) \<Rightarrow> transient_handler e what j2 s3 | Throws (BlackListFailJob_ex what) \<Rightarrow> blacklist_handler e j2 s3
      | Terminated \<Rightarrow> (Terminated, s3)) = (Result u, s')" by (auto simp: submit_execute_def)
  have never: "fatal_handler e what j2 s3 \<noteq> (Result u, s')" "transient_handler e what j2 s3 \<noteq> (Result u, s')" for what
    by (auto simp: fatal_handler_def transient_handler_def Let_def split: prod.splits option.splits ice_outcome.splits)
  have "x \<noteq> Throws (BlackListFailJob_ex what)" for what
    using x(1) by (auto simp: try_to_submit_def start_registered_def update_then_def log_then_def Let_def split: if_splits prod.splits sum.splits list.splits option.splits)
  with x(2) never have "x = Result ()" "s' = s3" by (auto split: ice_outcome.splits ice_ex.splits)
  with x(1) have "start_registered e j (read_registered j s) s = (Result (), j2, s')" by (simp add: try_to_submit_def split: if_splits)
  from start_registered_row [OF this] assms(2) d one_digit show ?thesis by auto
qed

text \<open>The identifier \<open>4711\<close> of the registered job is lost.\<close>

theorem restarted_start_loses_dbid_witness:
  "\<exists>r'. i_jobs (snd (the (submit_execute listing_env (set_text Token_file ''/token'' sample_job) (stored_ice REGISTERED)))) ''g'' = Some r' \<and>
     r_num r' Cream_dbid < 10"
proof -
  let ?j = "set_text Token_file ''/token'' sample_job"
  let ?r = "submit_execute listing_env ?j (stored_ice REGISTERED)"
  have "case ?r of Some (Result _, _) \<Rightarrow> True | _ \<Rightarrow> False" by code_simp
  then obtain u s' where r: "?r = Some (Result u, s')" by (auto split: option.splits prod.splits ice_outcome.splits)
  have g: "text_of ?j Grid_jobid = ''g''" by (simp add: sample_job_def set_flag_def set_num_def set_text_def)
  have "i_jobs (stored_ice REGISTERED) ''g'' = Some (j_row (stored_job REGISTERED))" by (simp add: stored_ice_def)
  then show ?thesis using restarted_start_loses_dbid [OF r, of "j_row (stored_job REGISTERED)"] r g by simp
qed

text \<open>C39: a submission command that ICE repeats after a restart, for a job that the database has as REGISTERED and that
  has no token, because it is not to be resubmitted, ends ICE right after the CE has started the job. The CE is not
  on the list and accepts the start: that call is made, the text of the update that follows needs the token, since the flags of the request
  are all set, and the exception is none that an update may throw. The row of the job is as before, still REGISTERED, so
  the next start of ICE does the same.\<close>

theorem restarted_start_without_token:
  assumes "i_jobs s (text_of j Grid_jobid) = Some r" "r_status r Status = REGISTERED" "now e s < num_of j Isbproxy_time_end"
    and "TextF Token_file \<in> j_changed j" "token_file j = None"
    and "\<not> listed_at (now e s) (r_text r Cream_address) (i_blacklist s)"
    and "e_reply e (i_calls s) (Call_start (r_text r Cream_address) (text_of j User_proxyfile) (r_text r Cream_jobid)) = Inr a" "a_failed a = []"
  shows "\<exists>s'. submit_execute e j s = Some (Terminated, s') \<and>
    i_calls s' = i_calls s @ [Call_start (r_text r Cream_address) (text_of j User_proxyfile) (r_text r Cream_jobid)] \<and>
    i_jobs s' = i_jobs s \<and> i_lb s' = i_lb s \<and> i_wm_input s' = i_wm_input s"
proof -
  define st where "st = read_registered j s"
  have st: "st_url st = r_text r Cream_address" "st_jobid st = r_text r Cream_jobid"
    using assms(1) by (simp_all add: st_def read_registered_def GetJobByGid_def)
  let ?call = "Call_start (st_url st) (text_of j User_proxyfile) (st_jobid st)" and ?j = "started_job e j st"
  define s1 where "s1 = s\<lparr>i_stats := i_stats s @ [(now e s, now e s, REGISTERED)]\<rparr>"
  have s1: "i_calls s1 = i_calls s" "i_jobs s1 = i_jobs s" "i_lb s1 = i_lb s" "i_wm_input s1 = i_wm_input s" "now e s1 = now e s"
    by (simp_all add: s1_def now_def)
  obtain b t where b: "is_blacklisted e (st_url st) s1 = (b, t)" by fastforce
  have "\<not> b" using b assms(6) st is_blacklisted_listed [of e "st_url st" s1] s1(5) by (simp add: s1_def)
  have t: "i_calls t = i_calls s" "i_jobs t = i_jobs s" "i_lb t = i_lb s" "i_wm_input t = i_wm_input s"
    using is_blacklisted_frame [where s = s1 and e = e and ce = "st_url st"] b s1 by (simp_all add: same_tables_def)
  define s2 where "s2 = t\<lparr>i_calls := i_calls t @ [?call]\<rparr>"
  have x: "CreamProxyMethod_execute e True 7 ?call (st_url st) s1 = (Inr a, s2)"
    using b \<open>\<not> b\<close> t assms(7) by (simp add: CreamProxyMethod_execute_def method_tries.simps s2_def st)
  have l: "look_up j s = (Only_start, s)" using assms(1,2) by (simp add: look_up_def GetJobByGid_def)
  have "token_file ?j = token_file j" by (simp add: token_file_def started_job_simps)
  then have "UpdateJob ?j t = None" for t using assms(4,5) by (simp add: UpdateJob_def started_job_simps)
  then have "start_registered e j st s = (Terminated, ?j, s2\<lparr>i_stats := i_stats s2 @ [(now e s2, now e s2, IDLE)]\<rparr>)
    \<or> start_registered e j st s = (Terminated, j, s2\<lparr>i_stats := i_stats s2 @ [(now e s2, now e s2, IDLE)]\<rparr>)"
    using x assms(8) by (simp add: start_registered_def Let_def s1_def update_then_def started_job_def)
  then have "submit_execute e j s = Some (Terminated, s2\<lparr>i_stats := i_stats s2 @ [(now e s2, now e s2, IDLE)]\<rparr>)"
    using l assms(3) by (auto simp: submit_execute_def try_to_submit_def st_def)
  then show ?thesis by (simp add: s2_def t st)
qed

theorem restarted_start_without_token_witness:
  "\<exists>s'. submit_execute fine_env sample_job (stored_ice REGISTERED) = Some (Terminated, s') \<and> length (i_calls s') = 1"
proof -
  have n: "token_file sample_job = None" by code_simp
  have "\<exists>s'. submit_execute fine_env sample_job (stored_ice REGISTERED) = Some (Terminated, s') \<and>
    i_calls s' = i_calls (stored_ice REGISTERED) @ [Call_start (r_text (j_row (stored_job REGISTERED)) Cream_address)
      (text_of sample_job User_proxyfile) (r_text (j_row (stored_job REGISTERED)) Cream_jobid)] \<and>
    i_jobs s' = i_jobs (stored_ice REGISTERED) \<and> i_lb s' = i_lb (stored_ice REGISTERED) \<and> i_wm_input s' = i_wm_input (stored_ice REGISTERED)"
    by (rule restarted_start_without_token [where r = "j_row (stored_job REGISTERED)" and a = fine_answer])
       (simp_all add: n, simp_all add: now_def listed_at_def stored_ice_def blank_ice_def fine_env_def fine_answer_def sample_job_def
         set_flag_def set_num_def set_text_def CreamJob_new_def)
  then show ?thesis by (auto simp: stored_ice_def blank_ice_def)
qed

end
