(* ===== verification/Ice_Core_Props.thy ===== *)
theory Ice_Core_Props
  imports Ice_Core Ice_Cream_Props Job_Dir_Props
begin

text \<open>
  The main loop of ICE and its input directory: no turn of the loop loses a request that it can parse, and the periodic move
  of the files of \<^verbatim>\<open>old\<close> makes the loop read requests again that commands still hold.
\<close>

section \<open>The files of the directory\<close>

definition files :: "job_dir \<Rightarrow> (string \<times> string) multiset" where
  "files jd = mset (jd_new jd) + mset (jd_old jd)"

definition names_ok :: "job_dir \<Rightarrow> bool" where
  "names_ok jd \<longleftrightarrow> distinct (map fst (jd_new jd) @ map fst (jd_old jd))"

lemma names_ok_files: "files jd' = files jd \<Longrightarrow> names_ok jd \<Longrightarrow> names_ok jd'"
proof -
  assume f: "files jd' = files jd" and n: "names_ok jd"
  have "image_mset fst (files jd') = image_mset fst (files jd)" using f by simp
  then have "mset (map fst (jd_new jd') @ map fst (jd_old jd')) = mset (map fst (jd_new jd) @ map fst (jd_old jd))"
    by (simp add: files_def)
  then show ?thesis using n mset_eq_imp_distinct_iff unfolding names_ok_def by blast
qed

lemma set_old_files: "set_old b f jd = Inr jd' \<Longrightarrow> names_ok jd \<Longrightarrow> files jd' = files jd"
  by (auto simp: set_old_def files_def names_ok_def split: if_splits option.splits dest!: move_file_mset)

lemma restore_file_files: "names_ok jd \<Longrightarrow> files (restore_file f jd) = files jd"
proof -
  assume "names_ok jd"
  then have d: "distinct (map fst (jd_old jd) @ map fst (jd_new jd))" by (auto simp: names_ok_def)
  show ?thesis
  proof (cases "move_file f (jd_old jd) (jd_new jd)")
    case None
    then show ?thesis by (simp add: restore_file_def)
  next
    case (Some sd)
    obtain src dst where sd: "sd = (src, dst)" by (cases sd)
    from move_file_mset [OF Some [unfolded sd] d] Some sd show ?thesis by (simp add: restore_file_def files_def add.commute)
  qed
qed

lemma check_input_files: "names_ok jd \<Longrightarrow> files (check_input jd) = files jd"
proof -
  have "files (fold restore_file fs jd) = files jd" if "names_ok jd" for fs jd
    using that
  proof (induction fs arbitrary: jd)
    case (Cons f fs)
    from restore_file_files [OF Cons.prems] Cons.IH [of "restore_file f jd"] names_ok_files Cons.prems show ?case by auto
  qed simp
  then show "names_ok jd \<Longrightarrow> ?thesis" by (simp add: check_input_def)
qed

lemma get_files_files: "get_files refuses n fs acc jd = (r, jd') \<Longrightarrow> names_ok jd \<Longrightarrow> files jd' = files jd"
proof (induction refuses n fs acc jd rule: get_files.induct)
  case (2 refuses n f fs acc jd)
  show ?case
  proof (cases "n \<le> length acc")
    case True
    with "2.prems" show ?thesis by simp
  next
    case False
    show ?thesis
    proof (cases "set_old (refuses f) f jd")
      case (Inl x)
      with 2 False show ?thesis by simp
    next
      case (Inr jd1)
      note f1 = set_old_files [OF Inr "2.prems"(2)]
      from "2.IH"(2) [OF False Inr] "2.prems" False Inr names_ok_files [OF f1 "2.prems"(2)] f1 show ?thesis by simp
    qed
  qed
qed simp

section \<open>No request is lost\<close>

text \<open>A request that becomes a command, or has to wait for its CE.\<close>

definition accepted :: "ice_env \<Rightarrow> (string \<Rightarrow> request) \<Rightarrow> string \<Rightarrow> bool" where
  "accepted e parse c \<longleftrightarrow> (case parse (takeWhile (\<lambda>x. x \<noteq> CHR 0x00) c) of
       Bad_request \<Rightarrow> False
     | Cancel_request gid \<Rightarrow> True
     | Submit_request j \<Rightarrow> e_proxy_error e (text_of j User_proxyfile) = None
     | Reschedule_request j \<Rightarrow> e_proxy_error e (text_of j User_proxyfile) = None)"

definition has_request :: "string \<times> string \<Rightarrow> job_dir \<Rightarrow> bool" where
  "has_request x jd \<longleftrightarrow> names_ok jd \<and> x \<in># files jd"

lemma has_request_files: "files jd' = files jd \<Longrightarrow> has_request x jd \<Longrightarrow> has_request x jd'"
  using names_ok_files by (simp add: has_request_def)

lemma new_command_dir [simp]: "im_dir (new_command k g f m) = im_dir m"
  by (simp add: new_command_def)

lemma remove_keeps:
  assumes "has_request (f, c) jd" "(f, c) \<notin> set (jd_old jd) \<or> g \<noteq> f"
  shows "has_request (f, c) (remove_request g jd)"
  using assms by (auto simp: has_request_def names_ok_def files_def remove_request_def remove_from_input_def AList.delete_eq
      intro: distinct_filter distinct_map_filter)

lemma accept_job_keeps:
  "has_request x (im_dir m) \<Longrightarrow> e_proxy_error e (text_of j User_proxyfile) = None \<Longrightarrow> has_request x (im_dir (accept_job e k f j m))"
  by (auto simp: accept_job_def split: prod.split)

lemma accept_job_other:
  assumes "has_request (f, c) (im_dir m)" "(f, c) \<notin> set (jd_old (im_dir m)) \<or> g \<noteq> f"
  shows "has_request (f, c) (im_dir (accept_job e k g j m))"
  using assms remove_keeps [OF assms] by (auto simp: accept_job_def drop_request_def Let_def split: option.split prod.split)

lemma take_request_keeps:
  assumes "has_request (f, c) (im_dir m)" "accepted e parse c"
  shows "has_request (f, c) (im_dir (take_request e parse g m))"
proof (cases "(f, c) \<notin> set (jd_old (im_dir m)) \<or> g \<noteq> f")
  case True
  with assms(1) remove_keeps accept_job_other show ?thesis
    by (auto simp: take_request_def drop_request_def split: request.split)
next
  case False
  then have "map_of (jd_old (im_dir m)) f = Some c" using assms(1) by (simp add: has_request_def names_ok_def)
  then have "item_value g (im_dir m) = Some (takeWhile (\<lambda>x. x \<noteq> CHR 0x00) c)" using False by (simp add: item_value_def)
  then show ?thesis using assms accept_job_keeps by (auto simp: take_request_def accepted_def split: request.splits)
qed

text \<open>C22: a turn of the main loop does not lose a request that the parser accepts and whose proxy is valid: its file is in
  \<^verbatim>\<open>new\<close> or in \<^verbatim>\<open>old\<close> afterwards, with its contents, whether it became a command, waits for a CE that is not to be
  called, could not be renamed or was moved back. Only the end of its command removes it.\<close>

theorem loop_keeps_requests:
  assumes "names_ok (im_dir m)" "(f, c) \<in> set (jd_new (im_dir m)) \<union> set (jd_old (im_dir m))" "accepted e parse c"
  shows "names_ok (im_dir (loop_turn e parse refuses n m)) \<and>
    (f, c) \<in> set (jd_new (im_dir (loop_turn e parse refuses n m))) \<union> set (jd_old (im_dir (loop_turn e parse refuses n m)))"
proof -
  have h: "has_request (f, c) (im_dir m)" using assms(1,2) by (simp add: has_request_def files_def)
  obtain fs jd where g: "get_requests refuses (nat (max 5 n)) (im_dir m) = (fs, jd)" by fastforce
  have "has_request (f, c) jd" using has_request_files [OF get_files_files h] g assms(1) by (simp add: get_requests_def)
  then have k: "has_request (f, c) (im_dir (m\<lparr>im_dir := jd\<rparr>))" by simp
  have t: "has_request (f, c) (im_dir (fold (take_request e parse) fs m'))" if "has_request (f, c) (im_dir m')" for fs m'
    using that by (induction fs arbitrary: m') (simp_all add: take_request_keeps [OF _ assms(3)])
  define m1 where "m1 = (if n < int (get_command_count (im_pool m)) then m else fold (take_request e parse) fs (m\<lparr>im_dir := jd\<rparr>))"
  have h1: "has_request (f, c) (im_dir m1)" using h t [OF k] by (simp add: m1_def)
  then have h2: "has_request (f, c) (check_input (im_dir m1))"
    using has_request_files [OF check_input_files h1] by (simp add: has_request_def)
  have "loop_turn e parse refuses n m = (let m2 = m1\<lparr>im_count_old := Suc (im_count_old m1)\<rparr> in if 120 \<le> im_count_old m2 then move_old m2 else m2)"
    unfolding loop_turn_def g prod.case m1_def Let_def by simp
  then have "has_request (f, c) (im_dir (loop_turn e parse refuses n m))"
    using h1 h2 by (simp add: move_old_def Let_def)
  then show ?thesis by (simp add: has_request_def files_def)
qed

text \<open>A request in \<^verbatim>\<open>new\<close> and another one in \<^verbatim>\<open>old\<close>, with its command.\<close>

definition waiting_ice :: "string list \<Rightarrow> ice_main" where
  "waiting_ice fs = \<lparr>im_ice = blank_ice, im_dir = \<lparr>jd_tmp = [], jd_new = map (\<lambda>f. (f, ''cancel'')) fs, jd_old = [(''f'', ''cancel'')]\<rparr>,
     im_pool = iceThreadPool_new 2, im_next = 1, im_cmds = [(0, ''f'')], im_count_old = 119\<rparr>"

theorem loop_keeps_requests_witness:
  "(''f'', ''cancel'') \<in> set (jd_new (im_dir (loop_turn fine_env (\<lambda>_. Cancel_request ''g'') (\<lambda>_. False) 2 (waiting_ice [''h''])))) \<union>
     set (jd_old (im_dir (loop_turn fine_env (\<lambda>_. Cancel_request ''g'') (\<lambda>_. False) 2 (waiting_ice [''h'']))))"
proof -
  have "names_ok (im_dir (waiting_ice [''h'']))" by (simp add: waiting_ice_def names_ok_def)
  moreover have "(''f'', ''cancel'') \<in> set (jd_new (im_dir (waiting_ice [''h'']))) \<union> set (jd_old (im_dir (waiting_ice [''h''])))"
    by (simp add: waiting_ice_def)
  moreover have "accepted fine_env (\<lambda>_. Cancel_request ''g'') ''cancel''" by (simp add: accepted_def)
  ultimately show ?thesis using loop_keeps_requests by blast
qed

section \<open>Requests that are read twice\<close>

text \<open>C40: a request whose command has not ended is read again after at most two minutes: when the count of the turns is
  full, its file goes back from \<^verbatim>\<open>old\<close> to \<^verbatim>\<open>new\<close>, and the next turn makes a second command of it while the
  first one is still in the queue or in execution. The end of the first then removes the file of the second.\<close>

theorem request_read_again:
  assumes "jd_new (im_dir m) = []" "jd_old (im_dir m) = [(f, c)]" "im_count_old m = 119" "int (get_command_count (im_pool m)) \<le> n"
    and "parse (takeWhile (\<lambda>x. x \<noteq> CHR 0x00) c) = Cancel_request gid" "\<not> refuses f" "(no, f) \<in> set (im_cmds m)"
  shows "im_cmds (loop_turn e parse refuses n (loop_turn e parse refuses n m)) = im_cmds m @ [(im_next m, f)]"
proof -
  let ?jd = "\<lparr>jd_tmp = jd_tmp (im_dir m), jd_new = [(f, c)], jd_old = []\<rparr>"
  define m1 where "m1 = m\<lparr>im_dir := ?jd, im_count_old := 0\<rparr>"
  have "check_input (im_dir m) = ?jd"
    using assms(1,2) by (simp add: check_input_def restore_file_def move_file_def)
  then have l1: "loop_turn e parse refuses n m = m1"
    using assms(1,3,4) by (simp add: loop_turn_def get_requests_def new_entries_def move_old_def m1_def Let_def)
  have g: "get_requests refuses (nat (max 5 n)) ?jd = ([f], ?jd\<lparr>jd_new := [], jd_old := [(f, c)]\<rparr>)"
    using assms(6) by (simp add: get_requests_def new_entries_def set_old_def move_file_def)
  have "loop_turn e parse refuses n m1 =
      (take_request e parse f (m1\<lparr>im_dir := ?jd\<lparr>jd_new := [], jd_old := [(f, c)]\<rparr>\<rparr>))\<lparr>im_count_old := 1\<rparr>"
    using assms(4,5) g by (simp add: loop_turn_def m1_def take_request_def item_value_def new_command_def Let_def)
  then show ?thesis using assms(5) l1 by (simp add: take_request_def item_value_def new_command_def m1_def)
qed

theorem request_read_again_witness:
  "im_cmds (loop_turn fine_env (\<lambda>_. Cancel_request ''g'') (\<lambda>_. False) 2 (loop_turn fine_env (\<lambda>_. Cancel_request ''g'') (\<lambda>_. False) 2
     (waiting_ice []))) = [(0, ''f''), (1, ''f'')]"
  using request_read_again [of "waiting_ice []" "''f''" "''cancel''" 2 "\<lambda>_. Cancel_request ''g''" "''g''" "\<lambda>_. False" 0 fine_env]
  by (simp add: waiting_ice_def iceThreadPool_new_def get_command_count_def)

end
