(* ===== verification/Spec2Isabelle.thy ===== *)
theory Spec2Isabelle
  imports File_Container_Crash File_List_Props Id_Container_Props Wm_Events_Props Wm_Resubmit_Props Wm_Recovery_Props Wm_Cancel_Props
    Size_File_Props Ice_Pool_Props Ice_Submit_Props Ice_Life_Props Ice_Core_Props
begin

text \<open>
  A verification library for the gLite Workload Management System (WMS), which takes job
  descriptions from users, finds computing elements for them and hands them to Condor.

  \<^bold>\<open>The program and the parts that are modelled.\<close> The workload manager
  (\<^verbatim>\<open>org.glite.wms.core\<close>) takes requests from a job directory, at its start by the recovery and then by the
  dispatcher, keeps them in an event queue and runs them by worker threads; the processing of a submission asks the logging and bookkeeping service (LB) how far the job has come and
  delivers it, or queues the nodes of a DAG; a cancellation does the same for the jobs that are on their way. A job that goes to
  a computing element (CE) with the CREAM interface is delivered to the job directory of ICE (\<^verbatim>\<open>org.glite.wms.ice\<close>), whose main loop makes
  commands of the requests and whose threads execute them against the CREAM services and a database of jobs, proxies and
  delegations; a failed job goes back to the job directory of the workload manager. The job controller and the log monitor
  (\<^verbatim>\<open>org.glite.wms.jobsubmission\<close>) share the table of the submitted jobs; the table is a list of ClassAds in
  a file that several processes update, and the file is a linked list of cells that is kept consistent
  over crashes by backups in its header. Three layers of the development follow that stack of storage, the
  others follow a request through the workload manager.

  \<^item> \<open>Wms_Prelude\<close>: characters, numerals of fixed width, overwriting a range of bytes. \<open>Fstream\<close>: the
    operations of \<^verbatim>\<open>std::fstream\<close> that the code uses, with a budget of writes so that a crash can be put after
    any of them.
  \<^item> The persistent list, \<^verbatim>\<open>org.glite.wms.common/src/utilities/filecontainer.cpp\<close>. \<open>File_Container\<close> has every
    method of \<open>FileContainer\<close>, \<open>FileIterator\<close> and \<open>TimeStamp\<close> on the bytes of the file, in the order of
    the source and by its names. \<open>File_Container_Exec\<close>, \<open>File_Container_Log\<close> and \<open>File_Container_Inv\<close> give
    each method as a rewrite rule, as a log of writes and as a change of the cells that the bytes
    represent; \<open>_Ops\<close>, \<open>_Add\<close>, \<open>_Remove\<close>, \<open>_Read\<close> and \<open>_Open\<close> lift them to the public methods, and
    \<open>File_Container_Props\<close> states that the container is a list (refinement of insertion, deletion, reading,
    walking, reopening). \<open>File_Container_World\<close> interleaves several processes with their cached state and
    time stamps, while the counter of the stamps does not wrap; \<open>File_Container_Recover\<close> and \<open>File_Container_Crash\<close> show that an append to a list that is not empty and dies after
    any of its writes, but one, is recovered by the next process to the old list or the new one.
  \<^item> The list template, \<^verbatim>\<open>filelist.cpp\<close>, \<^verbatim>\<open>filelist.h\<close>, \<^verbatim>\<open>filelist_iterator.cpp\<close> and \<^verbatim>\<open>.h\<close> of
    \<^verbatim>\<open>org.glite.wms.jobsubmission/src/common\<close>: \<open>File_List\<close> has its methods, with exceptions as values;
    \<open>File_List_Ops\<close> and \<open>File_List_Erase\<close> a rule for each; \<open>File_List_Props\<close> the promises (a queue, erasing,
    ranges, removal by value) and the corners in which they fail.
  \<^item> The tables of jobs, \<^verbatim>\<open>pointer_id.cpp\<close>, \<^verbatim>\<open>id_container.cpp\<close>, \<^verbatim>\<open>ram_container.cpp\<close> of the same directory:
    \<open>Id_Container\<close> has the code, \<open>Id_Index\<close> the two sorted index vectors and the table in memory,
    \<open>Id_Container_Ops\<close>, \<open>_Change\<close> and \<open>_Load\<close> the invariant that ties the indexes, the nodes and the cells
    of the file together, kept by insertion, removal, change in place and loading; \<open>Id_Container_Props\<close>
    states the table as a map from either identifier to a job, and what a restart keeps and reads anew.
  \<^item> The event queue, \<^verbatim>\<open>org.glite.wms.core/src/events.cpp\<close>: \<open>Wm_Events\<close> has the two multimaps, \<open>schedule\<close>,
    \<open>schedule_at\<close>, \<open>stop\<close> and the loop \<open>run\<close> of the worker threads as a step relation over the stretches that
    hold the mutex; \<open>Wm_Events_Props\<close> shows by rule induction that no event is lost or run early, that the
    order is by priority and then by time, and when the loop reads past the end of a queue.
  \<^item> The job directory, \<^verbatim>\<open>jobdir.cpp\<close> and \<^verbatim>\<open>jobdir_reader.cpp\<close> of \<^verbatim>\<open>org.glite.wms.common/src/utilities\<close>:
    \<open>Job_Dir\<close> has the directories, the names of the files with the time in them, delivery, reading and
    removal, and a step relation in which writers, a reader and restarts mix; \<open>Job_Dir_Props\<close> shows that the names sort
    like the times, that no request is lost or seen incomplete when the names differ, and what equal names and failing renames do.
  \<^item> The dispatcher, \<^verbatim>\<open>dispatcher_utils.cpp\<close> with \<^verbatim>\<open>wm_commands.cpp\<close>, and the recovery, \<^verbatim>\<open>recovery.cpp\<close>:
    \<open>Wm_Dispatch\<close> and \<open>Wm_Recovery\<close> have the code over the models of the directory and of the queue;
    \<open>Wm_Dispatch_Props\<close> and \<open>Wm_Recovery_Props\<close> state what becomes of each request, that submissions enter the queue in
    the order of their delivery, which nodes of a collection are recovered, and what a malformed request, a refused
    context or a job that has already left does. The loop that both have is the locale \<open>request_loop\<close>.
  \<^item> The cancellation, \<^verbatim>\<open>cancel_request.cpp\<close>: \<open>Wm_Cancel\<close> has the processor and the query for the events it looks
    at, \<open>Wm_Cancel_Props\<close> what it does to a collection and to a job that is done.
  \<^item> The submission processor, \<^verbatim>\<open>submit_request.cpp\<close>, with what it computes from the LB (\<^verbatim>\<open>lb_utils.cpp\<close>,
    \<^verbatim>\<open>submission_utils.cpp\<close>): \<open>Wm_Lb\<close> and \<open>Wm_Submit\<close> have the code, \<open>Wm_Submit_Dag\<close> and \<open>Wm_Submit_Props\<close> the
    two phases on a DAG (nodes only start after their parents, the DAG ends), \<open>Wm_Lb_Props\<close> and
    \<open>Wm_Resubmit_Props\<close> single jobs: limits on resubmissions, limbo, and the token files that tell a shallow
    resubmission from a deep one.

  \<^item> The size file in which the log monitor keeps its place in a Condor log,
    \<^verbatim>\<open>org.glite.wms.jobsubmission/src/logmonitor/SizeFile.cpp\<close> and \<^verbatim>\<open>.h\<close>: \<open>Size_File\<close> has the fields, the header,
    opening with its recovery of damaged and old files, and the updates; \<open>Size_File_Props\<close> that the last saved
    field comes back, and what comes back when the last write was cut short.

  \<^item> ICE, \<^verbatim>\<open>org.glite.wms.ice/src\<close>. \<open>Ice_Pool\<close> has the thread pool (\<^verbatim>\<open>iceThreads\<close>) as a step relation over the stretches that
    hold its mutex; \<open>Ice_Pool_Props\<close> shows that it serves the jobs in one lane each, in order, that no worker sleeps while
    there is a command to start, and how stopping it can hang. \<open>Ice_Job\<close> has the job with its change flags and the table of jobs
    (\<^verbatim>\<open>iceUtils/CreamJob.h\<close>, \<^verbatim>\<open>Url.cpp\<close>, \<^verbatim>\<open>iceDb\<close>), \<open>Ice_Cream\<close> the list of the CEs that are not to be called, the repeated calls of a
    service, the logging of events, the proxies and the delegations (\<^verbatim>\<open>iceUtils\<close>), \<open>Ice_Submit\<close> the commands (\<^verbatim>\<open>iceCommands\<close>: submission,
    rescheduling, cancellation) and \<open>Ice_Core\<close> what becomes of finished jobs and the main loop (\<^verbatim>\<open>ice/IceCore.cpp\<close>).
    \<open>Ice_Cream_Props\<close> bounds the calls, for callers that honour the list and for those that do not, and compares the lazily purged list with one that is not purged; \<open>Ice_Submit_Props\<close>
    states when the loop around the registration ends; \<open>Ice_Rows\<close> follows a submission and shows which columns and counters it leaves
    alone; \<open>Ice_Count\<close> and \<open>Ice_Count_Props\<close> have the invariant that the counter of a proxy is the number of the jobs
    that need it, and the two commands that break it; \<open>Ice_Life_Props\<close> the life of a job (what is stored, failed jobs, restarts);
    \<open>Ice_Core_Props\<close> that the main loop loses no request, and that it reads some twice.

  \<^bold>\<open>How state and operations correspond.\<close> A class is a record with the source's fields; a method is a
  function of the same name on that record, in a state monad whose result is a value, an exception or an
  error code; members of nested scopes have a prefix (\<open>fc_\<close>, \<open>bi_\<close>, \<open>id_\<close>, \<open>rc_\<close>, \<open>ss_\<close>). Time stamps and
  counters keep the width of the code, with the wrap-around written out. Iterators are offsets into the file,
  as in the code, so that stale handles can be expressed. The ClassAd library is a record of operations, the
  laws that the tables need of it are \<open>classad_laws\<close>, and a small library on which they hold is built in
  \<open>Id_Container_Props\<close>. The services that the processors ask are the fields of \<open>submit_env\<close>,
  \<open>services\<close>, \<open>recovery_env\<close> and \<open>cancel_env\<close>, those of ICE and its configuration the fields of \<open>ice_env\<close>, whose answers may
  depend on the calls before; the state of ICE is the record \<open>ice\<close> with the tables of the database, an exception that a
  function may not throw is the outcome \<open>Terminated\<close>; a request that is scheduled owns its file, which is removed with the
  state that the processors share.

  \<^bold>\<open>Bounds and fuel.\<close> The loops of the container and of the file list that follow pointers of the file are
  \<open>partial_function (option)\<close>, and the theorems about them state that they return; so is the loop around the registration
  of a job with a CE, with a theorem when it returns and one when it does not. No definition takes fuel.
  Offsets are bounded by 16 hexadecimal digits and sizes by 20 decimal ones, as the file format has them; the
  theorems carry the bound where the file grows. A DAG is followed for as many calls as it has nodes.

  \<^bold>\<open>Not modelled.\<close> The debug log and the call stack of the container; the file locks, which make each public
  call atomic; reverse iterators; the queries (but the one of the cancellation) and the logging calls to the LB; match-making and the information
  supermarket, which evaluate ClassAds by a library outside the repository; the effects inside one action of the
  submission processor (the purge of a cancelled job, the abort of the children of a collection, the
  bulk match-making); the rest of the
  log monitor and the job controller; of ICE the threads that poll the CEs and renew proxies and delegations, the parser of requests
  and its lease manager, which is not built, and the interleaving of the statements of two commands (the pool interleaves whole commands);
  the clock within one operation of the list of the CEs, which reads it once more when it purges;
  the daemons' main programs, the web service, the user
  interface, bindings, probes and tests, which are glue over services, generated code or code of third parties.
\<close>

end
